(* ===== verification/Prelude.thy ===== *)
theory Prelude
  imports Main "HOL-Library.Word"
begin

text \<open>
  What the components of the development share: the machine integer types of the 32-bit Arm
  target (\<open>size_t\<close> and \<open>uint32_t\<close> are 32 bits wide), the status codes of the PSA framework,
  a state and error monad for C functions that return a status, its weakest-precondition
  calculus, and list and byte lemmas (slices and splices of a buffer, little-endian fields).
  The collections \<open>wp_rules\<close>, \<open>sem_defs\<close> and \<open>buf_simps\<close> carry the component proofs.
\<close>

unbundle bit_operations_syntax

named_theorems sem_defs "definitions of the monadic operators"
named_theorems wp_rules "weakest preconditions of the monadic operators"
named_theorems buf_simps "slices and splices of byte buffers"

section \<open>Machine integers\<close>

type_synonym u8 = "8 word"
type_synonym u16 = "16 word"
type_synonym u32 = "32 word"
type_synonym u64 = "64 word"
type_synonym buf = "u8 list"

lemma unat_ucast_16_32 [simp]: "unat (ucast (x :: u16) :: u32) = unat x"
  by (simp add: unsigned_ucast_eq take_bit_nat_eq_self unsigned_less [THEN less_le_trans])

lemma unat_ucast_8_32 [simp]: "unat (ucast (x :: u8) :: u32) = unat x"
  by (simp add: unsigned_ucast_eq take_bit_nat_eq_self unsigned_less [THEN less_le_trans])

lemma unat_u16_less: "unat (x :: u16) < 65536"
  using unsigned_less [of x] by simp

lemma unat_u32_less: "unat (x :: u32) < 4294967296"
  using unsigned_less [of x] by simp

lemma unat_u8_less: "unat (x :: u8) < 256"
  using unsigned_less [of x] by simp

lemma unat_of_nat_u32: "n < 4294967296 \<Longrightarrow> unat (of_nat n :: u32) = n"
  by (simp add: unat_of_nat)

lemma unat_add_u32: "unat (a :: u32) + unat b < 4294967296 \<Longrightarrow> unat (a + b) = unat a + unat b"
  using unat_add_lem [of a b] by simp

lemma unat_mult_u32: "unat (a :: u32) * unat b < 4294967296 \<Longrightarrow> unat (a * b) = unat a * unat b"
  using unat_mult_lem [of a b] by simp

lemma unat_sub_u32: "unat (b :: u32) \<le> unat a \<Longrightarrow> unat (a - b) = unat a - unat b"
  by (simp add: unat_sub word_le_nat_alt)

section \<open>Status codes\<close>

text \<open>
  \<open>psa_status_t\<close> is an \<open>int32_t\<close> whose value 0 is \<open>PSA_SUCCESS\<close>. A C function that returns a
  status and fills out-parameters on success becomes a function into \<open>psa_error + 'a\<close>; the
  numeric values, which the ETSS service casts to its own \<open>etss_err_t\<close>, are \<open>psa_code\<close>.
  \<open>PSA_NO_RESULT\<close> is not a PSA status: it is the value of a model run that has no result in C
  (a loop that does not end, or undefined behaviour).
\<close>

datatype psa_error =
    PSA_ERROR_PROGRAMMER_ERROR
  | PSA_ERROR_CONNECTION_REFUSED
  | PSA_ERROR_CONNECTION_BUSY
  | PSA_ERROR_GENERIC_ERROR
  | PSA_ERROR_NOT_PERMITTED
  | PSA_ERROR_NOT_SUPPORTED
  | PSA_ERROR_INVALID_ARGUMENT
  | PSA_ERROR_INVALID_HANDLE
  | PSA_ERROR_BAD_STATE
  | PSA_ERROR_BUFFER_TOO_SMALL
  | PSA_ERROR_ALREADY_EXISTS
  | PSA_ERROR_DOES_NOT_EXIST
  | PSA_ERROR_INSUFFICIENT_MEMORY
  | PSA_ERROR_INSUFFICIENT_STORAGE
  | PSA_ERROR_INSUFFICIENT_DATA
  | PSA_ERROR_SERVICE_FAILURE
  | PSA_ERROR_COMMUNICATION_FAILURE
  | PSA_ERROR_STORAGE_FAILURE
  | PSA_ERROR_HARDWARE_FAILURE
  | PSA_ERROR_INVALID_SIGNATURE
  | PSA_ERROR_CORRUPTION_DETECTED
  | PSA_ERROR_DATA_CORRUPT
  | PSA_ERROR_DATA_INVALID
  | PSA_NO_RESULT

fun psa_code :: "psa_error \<Rightarrow> int" where
  "psa_code PSA_ERROR_PROGRAMMER_ERROR = -129"
| "psa_code PSA_ERROR_CONNECTION_REFUSED = -130"
| "psa_code PSA_ERROR_CONNECTION_BUSY = -131"
| "psa_code PSA_ERROR_GENERIC_ERROR = -132"
| "psa_code PSA_ERROR_NOT_PERMITTED = -133"
| "psa_code PSA_ERROR_NOT_SUPPORTED = -134"
| "psa_code PSA_ERROR_INVALID_ARGUMENT = -135"
| "psa_code PSA_ERROR_INVALID_HANDLE = -136"
| "psa_code PSA_ERROR_BAD_STATE = -137"
| "psa_code PSA_ERROR_BUFFER_TOO_SMALL = -138"
| "psa_code PSA_ERROR_ALREADY_EXISTS = -139"
| "psa_code PSA_ERROR_DOES_NOT_EXIST = -140"
| "psa_code PSA_ERROR_INSUFFICIENT_MEMORY = -141"
| "psa_code PSA_ERROR_INSUFFICIENT_STORAGE = -142"
| "psa_code PSA_ERROR_INSUFFICIENT_DATA = -143"
| "psa_code PSA_ERROR_SERVICE_FAILURE = -144"
| "psa_code PSA_ERROR_COMMUNICATION_FAILURE = -145"
| "psa_code PSA_ERROR_STORAGE_FAILURE = -146"
| "psa_code PSA_ERROR_HARDWARE_FAILURE = -147"
| "psa_code PSA_ERROR_INVALID_SIGNATURE = -149"
| "psa_code PSA_ERROR_CORRUPTION_DETECTED = -151"
| "psa_code PSA_ERROR_DATA_CORRUPT = -152"
| "psa_code PSA_ERROR_DATA_INVALID = -153"
| "psa_code PSA_NO_RESULT = -1"

lemma psa_code_neg: "psa_code e < 0"
  by (cases e) simp_all

lemma psa_code_inject [simp]: "psa_code e = psa_code e' \<longleftrightarrow> e = e'"
  by (cases e; cases e') simp_all

section \<open>Functions with state that return a status\<close>

text \<open>
  \<open>('s, 'e, 'a) sem\<close> is a C function over the state \<open>'s\<close>: it returns a value (success, with its
  out-parameters) or an error, and the state as the function leaves it, also when it fails.
  \<open>bindE\<close> is a call followed by \<^verbatim>\<open>if (err != SUCCESS) return err;\<close>, \<open>orError\<close> a call whose
  error the caller replaces by one of its own, and \<open>tryE\<close> a call whose status the caller inspects.
\<close>

type_synonym ('s, 'e, 'a) sem = "'s \<Rightarrow> ('e + 'a) \<times> 's"

definition returnE :: "'a \<Rightarrow> ('s, 'e, 'a) sem" where
  [sem_defs]: "returnE a = (\<lambda>s. (Inr a, s))"

definition throwE :: "'e \<Rightarrow> ('s, 'e, 'a) sem" where
  [sem_defs]: "throwE e = (\<lambda>s. (Inl e, s))"

definition tryE :: "('s, 'e, 'a) sem \<Rightarrow> ('e + 'a \<Rightarrow> ('s, 'f, 'b) sem) \<Rightarrow> ('s, 'f, 'b) sem" where
  [sem_defs]: "tryE m k = (\<lambda>s. case m s of (r, s') \<Rightarrow> k r s')"

definition bindE :: "('s, 'e, 'a) sem \<Rightarrow> ('a \<Rightarrow> ('s, 'e, 'b) sem) \<Rightarrow> ('s, 'e, 'b) sem" where
  [sem_defs]: "bindE m f = tryE m (\<lambda>r. case r of Inl e \<Rightarrow> throwE e | Inr a \<Rightarrow> f a)"

definition orError :: "('s, 'e, 'a) sem \<Rightarrow> 'f \<Rightarrow> ('s, 'f, 'a) sem" where
  [sem_defs]: "orError m f = tryE m (\<lambda>r. case r of Inl _ \<Rightarrow> throwE f | Inr a \<Rightarrow> returnE a)"

definition getS :: "('s \<Rightarrow> 'a) \<Rightarrow> ('s, 'e, 'a) sem" where
  [sem_defs]: "getS f = (\<lambda>s. (Inr (f s), s))"

definition modifyS :: "('s \<Rightarrow> 's) \<Rightarrow> ('s, 'e, unit) sem" where
  [sem_defs]: "modifyS f = (\<lambda>s. (Inr (), f s))"

definition liftE :: "('e + 'a) \<Rightarrow> ('s, 'e, 'a) sem" where
  [sem_defs]: "liftE r = (\<lambda>s. (r, s))"

text \<open>\<open>withS\<close> reads the state (the context fields a call's arguments use) before it runs.\<close>

definition withS :: "('s \<Rightarrow> ('s, 'e, 'a) sem) \<Rightarrow> ('s, 'e, 'a) sem" where
  [sem_defs]: "withS f = (\<lambda>s. f s s)"

subsection \<open>Weakest preconditions\<close>

text \<open>
  \<open>wp m Q E s\<close>: from \<open>s\<close>, \<open>m\<close> ends either with a value and a state in \<open>Q\<close> or with an error and
  a state in \<open>E\<close>. Every function of the model is total, so this is total correctness.
\<close>

definition wp :: "('s, 'e, 'a) sem \<Rightarrow> ('a \<Rightarrow> 's \<Rightarrow> bool) \<Rightarrow> ('e \<Rightarrow> 's \<Rightarrow> bool) \<Rightarrow> 's \<Rightarrow> bool" where
  "wp m Q E s = (case m s of (Inl e, s') \<Rightarrow> E e s' | (Inr a, s') \<Rightarrow> Q a s')"

lemma wp_returnE [wp_rules, simp]: "wp (returnE a) Q E s = Q a s"
  by (simp add: wp_def sem_defs)

lemma wp_throwE [wp_rules, simp]: "wp (throwE e) Q E s = E e s"
  by (simp add: wp_def sem_defs)

lemma wp_tryE [wp_rules, simp]:
  "wp (tryE m k) Q E s = wp m (\<lambda>a. wp (k (Inr a)) Q E) (\<lambda>e. wp (k (Inl e)) Q E) s"
  by (simp add: wp_def sem_defs split: prod.splits sum.splits)

lemma wp_bindE [wp_rules, simp]: "wp (bindE m f) Q E s = wp m (\<lambda>a. wp (f a) Q E) E s"
  by (simp add: wp_def sem_defs split: prod.splits sum.splits)

lemma wp_orError [wp_rules, simp]: "wp (orError m f) Q E s = wp m Q (\<lambda>_. E f) s"
  by (simp add: wp_def sem_defs split: prod.splits sum.splits)

lemma wp_getS [wp_rules, simp]: "wp (getS f) Q E s = Q (f s) s"
  by (simp add: wp_def sem_defs)

lemma wp_modifyS [wp_rules, simp]: "wp (modifyS f) Q E s = Q () (f s)"
  by (simp add: wp_def sem_defs)

lemma wp_liftE [wp_rules, simp]:
  "wp (liftE r) Q E s = (case r of Inl e \<Rightarrow> E e s | Inr a \<Rightarrow> Q a s)"
  by (simp add: wp_def sem_defs split: sum.splits)

lemma wp_withS [wp_rules, simp]: "wp (withS f) Q E s = wp (f s) Q E s"
  by (simp add: wp_def sem_defs)

lemma wp_if [wp_rules, simp]: "wp (if b then m else m') Q E s = (if b then wp m Q E s else wp m' Q E s)"
  by simp

text \<open>The same rules without the state, for calls below a binder.\<close>

lemma wp_fun1: "wp (returnE a) Q E = Q a" "wp (throwE e) Q E = E e"
  "wp (bindE m f) Q E = wp m (\<lambda>a. wp (f a) Q E) E"
  by (simp_all add: fun_eq_iff)

lemma wp_fun2: "wp (tryE m k) Q E = wp m (\<lambda>a. wp (k (Inr a)) Q E) (\<lambda>e. wp (k (Inl e)) Q E)"
  by (simp add: fun_eq_iff)

lemma wp_fun3: "wp (orError m f) Q E = wp m Q (\<lambda>_. E f)"
  by (simp add: fun_eq_iff)

lemma wp_fun4: "wp (getS g) Q E = (\<lambda>s. Q (g s) s)"
  by (simp add: fun_eq_iff)

lemma wp_fun5: "wp (modifyS u) Q E = (\<lambda>s. Q () (u s))" "wp (withS h) Q E = (\<lambda>s. wp (h s) Q E s)"
  by (simp_all add: fun_eq_iff)

lemmas wp_fun = wp_fun1 wp_fun2 wp_fun3 wp_fun4 wp_fun5

lemma wp_mono:
  "wp m Q E s \<Longrightarrow> (\<And>a s'. Q a s' \<Longrightarrow> Q' a s') \<Longrightarrow> (\<And>e s'. E e s' \<Longrightarrow> E' e s') \<Longrightarrow> wp m Q' E' s"
  by (auto simp: wp_def split: prod.splits sum.splits)

lemma wp_InrD: "wp m Q E s \<Longrightarrow> m s = (Inr a, s') \<Longrightarrow> Q a s'"
  by (simp add: wp_def)

lemma wp_InlD: "wp m Q E s \<Longrightarrow> m s = (Inl e, s') \<Longrightarrow> E e s'"
  by (simp add: wp_def)

lemma wpI:
  "(\<And>a s'. m s = (Inr a, s') \<Longrightarrow> Q a s') \<Longrightarrow> (\<And>e s'. m s = (Inl e, s') \<Longrightarrow> E e s') \<Longrightarrow> wp m Q E s"
  by (auto simp: wp_def split: prod.splits sum.splits)

lemma wp_conj: "wp m Q E s \<Longrightarrow> wp m Q' E' s \<Longrightarrow> wp m (\<lambda>a t. Q a t \<and> Q' a t) (\<lambda>e t. E e t \<and> E' e t) s"
  by (auto simp: wp_def split: prod.splits sum.splits)

lemma wp_noerrorE:
  assumes "wp m Q (\<lambda>_ _. False) s"
  obtains a s' where "m s = (Inr a, s')" "Q a s'"
  using assms by (auto simp: wp_def split: prod.splits sum.splits)

section \<open>Loop counters\<close>

text \<open>The values of \<open>i\<close> in \<^verbatim>\<open>for (i = 0; i < n; i++)\<close>.\<close>

definition u32_upto :: "u32 \<Rightarrow> u32 list" where
  "u32_upto n = map of_nat [0..<unat n]"

lemma length_u32_upto [simp]: "length (u32_upto n) = unat n"
  by (simp add: u32_upto_def)

lemma nth_u32_upto: "i < unat n \<Longrightarrow> u32_upto n ! i = of_nat i"
  by (simp add: u32_upto_def)

lemma set_u32_upto: "set (u32_upto n) = {i. i < n}"
proof (intro equalityI subsetI)
  fix i assume "i \<in> set (u32_upto n)"
  then obtain k where k: "i = of_nat k" "k < unat n" by (auto simp: u32_upto_def)
  then have "unat i = k" using unat_u32_less [of n] by (simp add: unat_of_nat_u32)
  with k show "i \<in> {i. i < n}" by (simp add: word_less_nat_alt)
next
  fix i assume "i \<in> {i. i < n}"
  then have "unat i < unat n" by (simp add: word_less_nat_alt)
  then show "i \<in> set (u32_upto n)"
    unfolding u32_upto_def by (force intro: image_eqI [of _ _ "unat i"])
qed

lemma distinct_u32_upto [simp]: "distinct (u32_upto n)"
proof -
  have "map unat (u32_upto n) = [0..<unat n]"
    using unat_u32_less [of n] by (intro nth_equalityI) (simp_all add: nth_u32_upto unat_of_nat_u32)
  then show ?thesis by (metis distinct_map distinct_upt)
qed

section \<open>Slices and splices of a buffer\<close>

definition bslice :: "nat \<Rightarrow> nat \<Rightarrow> 'a list \<Rightarrow> 'a list" where
  "bslice off n xs = take n (drop off xs)"

definition bsplice :: "nat \<Rightarrow> 'a list \<Rightarrow> 'a list \<Rightarrow> 'a list" where
  "bsplice off ys xs = take off xs @ ys @ drop (off + length ys) xs"

lemma length_bslice [buf_simps]: "off + n \<le> length xs \<Longrightarrow> length (bslice off n xs) = n"
  by (simp add: bslice_def)

lemma nth_bslice [buf_simps]: "off + n \<le> length xs \<Longrightarrow> i < n \<Longrightarrow> bslice off n xs ! i = xs ! (off + i)"
  by (simp add: bslice_def)

lemma length_bsplice [simp]: "off + length ys \<le> length xs \<Longrightarrow> length (bsplice off ys xs) = length xs"
  by (simp add: bsplice_def)

lemma nth_bsplice [buf_simps]:
  "off + length ys \<le> length xs \<Longrightarrow> i < length xs \<Longrightarrow>
   bsplice off ys xs ! i = (if off \<le> i \<and> i < off + length ys then ys ! (i - off) else xs ! i)"
  by (auto simp: bsplice_def nth_append min_def)

lemma bslice_0 [simp]: "bslice off 0 xs = []"
  by (simp add: bslice_def)

lemma bsplice_Nil [simp]: "bsplice off [] xs = xs"
  by (simp add: bsplice_def)

lemma bslice_bsplice_same [buf_simps]:
  "off + length ys \<le> length xs \<Longrightarrow> n = length ys \<Longrightarrow> bslice off n (bsplice off ys xs) = ys"
  by (simp add: bslice_def bsplice_def)

lemma bslice_bsplice_disjoint [buf_simps]:
  assumes "off + length ys \<le> length xs" and "o' + n \<le> length xs"
    and "o' + n \<le> off \<or> off + length ys \<le> o'"
  shows "bslice o' n (bsplice off ys xs) = bslice o' n xs"
proof (rule nth_equalityI)
  show "length (bslice o' n (bsplice off ys xs)) = length (bslice o' n xs)"
    using assms by (simp add: length_bslice)
  fix i assume "i < length (bslice o' n (bsplice off ys xs))"
  with assms show "bslice o' n (bsplice off ys xs) ! i = bslice o' n xs ! i"
    by (auto simp: length_bslice nth_bslice nth_bsplice)
qed

lemma bslice_bsplice_inside [buf_simps]:
  assumes "off + length ys \<le> length xs" and "off \<le> o'" and "o' + n \<le> off + length ys"
  shows "bslice o' n (bsplice off ys xs) = bslice (o' - off) n ys"
proof (rule nth_equalityI)
  show "length (bslice o' n (bsplice off ys xs)) = length (bslice (o' - off) n ys)"
    using assms by (simp add: length_bslice)
  fix i assume "i < length (bslice o' n (bsplice off ys xs))"
  with assms show "bslice o' n (bsplice off ys xs) ! i = bslice (o' - off) n ys ! i"
    by (auto simp: length_bslice nth_bslice nth_bsplice)
qed

lemma bslice_bslice [buf_simps]: "o' + m \<le> n \<Longrightarrow> bslice o' m (bslice off n xs) = bslice (off + o') m xs"
  by (simp add: bslice_def drop_take min_def add.commute)

lemma slice_eq_iff:
  assumes "off + n \<le> length xs"
  shows "bslice off n xs = ys \<longleftrightarrow> length ys = n \<and> (\<forall>i<n. xs ! (off + i) = ys ! i)"
  using assms by (auto simp: list_eq_iff_nth_eq length_bslice nth_bslice)

lemma bslice_append_adjacent:
  "off + a + b \<le> length xs \<Longrightarrow> bslice off a xs @ bslice (off + a) b xs = bslice off (a + b) xs"
  by (simp add: bslice_def take_add add.commute)

lemma bsplice_bsplice_adjacent [buf_simps]:
  "off + length ys + length zs \<le> length xs \<Longrightarrow>
   bsplice (off + length ys) zs (bsplice off ys xs) = bsplice off (ys @ zs) xs"
  by (simp add: bsplice_def add.assoc add.commute add.left_commute)

section \<open>Little-endian fields\<close>

definition le32 :: "u32 \<Rightarrow> buf" where
  "le32 w = [ucast w, ucast (drop_bit 8 w), ucast (drop_bit 16 w), ucast (drop_bit 24 w)]"

definition de32 :: "buf \<Rightarrow> u32" where
  "de32 bs = ucast (bs ! 0) OR push_bit 8 (ucast (bs ! 1)) OR push_bit 16 (ucast (bs ! 2))
             OR push_bit 24 (ucast (bs ! 3))"

lemma length_le32 [simp]: "length (le32 w) = 4"
  by (simp add: le32_def)

lemma de32_le32 [simp]: "de32 (le32 w @ bs) = w"
proof (rule bit_word_eqI)
  fix n assume "n < LENGTH(32)"
  then consider "n < 8" | "8 \<le> n" "n < 16" | "16 \<le> n" "n < 24" | "24 \<le> n" "n < 32" by fastforce
  then show "bit (de32 (le32 w @ bs)) n = bit w n"
    by cases (auto simp: de32_def le32_def bit_simps)
qed

lemma de32_le32' [simp]: "de32 (le32 w) = w"
  using de32_le32 [of w "[]"] by simp

end
