(* ===== verification/Spi_Nor.thy ===== *)
theory Spi_Nor
  imports Prelude
begin

text \<open>
  The SPI NOR driver, \<open>spi_nor.c\<close>, on the host controller of \<open>spi_nor_hc.c\<close>: a command is packed
  into the transmit buffer and sent between two changes of the slave select line. The CMSIS SPI
  driver behind it (\<open>ARM_DRIVER_SPI\<close>) and the delay are parameters; the return values of its calls
  that the code ignores are not part of them. Results are 0 for \<open>Inr\<close> and -1 for \<open>Inl\<close>.
\<close>

section \<open>The host controller\<close>

record 'h arm_driver_spi =
  drv_initialize :: "'h \<Rightarrow> bool \<times> 'h"
  drv_control_ss :: "bool \<Rightarrow> 'h \<Rightarrow> 'h"
  drv_send :: "buf \<Rightarrow> 'h \<Rightarrow> 'h"
  drv_receive :: "u32 \<Rightarrow> 'h \<Rightarrow> buf \<times> 'h"
  drv_wait_ms :: "u32 \<Rightarrow> 'h \<Rightarrow> 'h"

definition BUFFER_SIZE :: nat where
  "BUFFER_SIZE = 0x132"

record nor_cmd_packet =
  np_cmd :: u8
  np_addr :: buf
  np_addr_len :: u8
  np_dummy_len :: u8
  np_data :: "buf option"
  np_data_len :: u32
  np_tx_buf :: buf
  np_tx_len :: u32

text \<open>The static packet of the driver and the hardware behind it.\<close>

record 'h nor_state =
  cmd_packet :: nor_cmd_packet
  nor_hw :: 'h

definition on_hw :: "('h, 'e, 'a) sem \<Rightarrow> (('h, 'm) nor_state_scheme, 'e, 'a) sem" where
  "on_hw m = (\<lambda>s. case m (nor_hw s) of (r, h) \<Rightarrow> (r, s\<lparr>nor_hw := h\<rparr>))"

definition hw_do :: "('h \<Rightarrow> 'h) \<Rightarrow> ('h, int, unit) sem" where
  "hw_do f = modifyS f"

definition spi_write :: "'h arm_driver_spi \<Rightarrow> buf \<Rightarrow> u32 \<Rightarrow> ('h, int, unit) sem" where
  "spi_write drv tx_buf tx_len =
     bindE (hw_do (drv_control_ss drv True)) (\<lambda>_.
     bindE (hw_do (drv_send drv (take (unat tx_len) tx_buf))) (\<lambda>_.
     hw_do (drv_control_ss drv False)))"

definition spi_read :: "'h arm_driver_spi \<Rightarrow> buf \<Rightarrow> u32 \<Rightarrow> u32 \<Rightarrow> ('h, int, buf) sem" where
  "spi_read drv tx_buf tx_len rx_len =
     bindE (hw_do (drv_control_ss drv True)) (\<lambda>_.
     bindE (hw_do (drv_send drv (take (unat tx_len) tx_buf))) (\<lambda>_.
     bindE (\<lambda>h. case drv_receive drv rx_len h of (bs, h') \<Rightarrow> (Inr bs, h')) (\<lambda>rx_buf.
     bindE (hw_do (drv_control_ss drv False)) (\<lambda>_.
     returnE rx_buf))))"

definition spi_nor_hc_init :: "'h arm_driver_spi \<Rightarrow> ('h, int, unit) sem" where
  "spi_nor_hc_init drv = (\<lambda>h. case drv_initialize drv h of (ok, h') \<Rightarrow> (if ok then Inr () else Inl (-1), h'))"

section \<open>Commands\<close>

text \<open>
  The parts are copied one behind the other into the transmit buffer, which has \<open>BUFFER_SIZE\<close> bytes;
  C does not check that they fit.
\<close>

definition cmd_packing :: "nor_cmd_packet \<Rightarrow> nor_cmd_packet" where
  "cmd_packing p =
     (let tx0 = bsplice 0 [np_cmd p] (np_tx_buf p); n0 = 1 :: u32;
          (tx1, n1) = (if np_addr_len p > 0
            then (bsplice (unat n0) (take (unat (np_addr_len p)) (np_addr p)) tx0, n0 + ucast (np_addr_len p))
            else (tx0, n0));
          (tx2, n2) = (if np_dummy_len p > 0
            then (bsplice (unat n1) (replicate (unat (np_dummy_len p)) 0xFF) tx1, n1 + ucast (np_dummy_len p))
            else (tx1, n1));
          (tx3, n3) = (case np_data p of
            Some data \<Rightarrow> (bsplice (unat n2) (take (unat (np_data_len p)) data) tx2, n2 + np_data_len p)
          | None \<Rightarrow> (tx2, n2))
      in p\<lparr>np_tx_buf := tx3, np_tx_len := n3\<rparr>)"

definition STD_INST_RSTEN :: u8 where "STD_INST_RSTEN = 0x66"

definition STD_INST_RST :: u8 where "STD_INST_RST = 0x99"

definition STD_INST_WREN :: u8 where "STD_INST_WREN = 0x06"

definition STD_INST_RDID :: u8 where "STD_INST_RDID = 0x9F"

definition STD_INST_RDSR :: u8 where "STD_INST_RDSR = 0x05"

definition STD_INST_RDCR :: u8 where "STD_INST_RDCR = 0x15"

definition STD_INST_RDSCUR :: u8 where "STD_INST_RDSCUR = 0x2B"

text \<open>Every command sets up the packet the same way: no address, no dummy bytes, no data.\<close>

definition pack_command :: "u8 \<Rightarrow> (('h, 'm) nor_state_scheme, int, unit) sem" where
  "pack_command c = modifyS (\<lambda>s. s\<lparr>cmd_packet := cmd_packing ((cmd_packet s)
     \<lparr>np_cmd := c, np_addr_len := 0, np_dummy_len := 0, np_data := None\<rparr>)\<rparr>)"

definition send_command :: "'h arm_driver_spi \<Rightarrow> u8 \<Rightarrow> (('h, 'm) nor_state_scheme, int, unit) sem" where
  "send_command drv c = bindE (pack_command c) (\<lambda>_.
     withS (\<lambda>s. on_hw (spi_write drv (np_tx_buf (cmd_packet s)) (np_tx_len (cmd_packet s)))))"

definition query_command :: "'h arm_driver_spi \<Rightarrow> u8 \<Rightarrow> u32 \<Rightarrow> (('h, 'm) nor_state_scheme, int, buf) sem" where
  "query_command drv c n = bindE (pack_command c) (\<lambda>_.
     withS (\<lambda>s. on_hw (spi_read drv (np_tx_buf (cmd_packet s)) (np_tx_len (cmd_packet s)) n)))"

definition spi_nor_reset_enable :: "'h arm_driver_spi \<Rightarrow> (('h, 'm) nor_state_scheme, int, unit) sem" where
  "spi_nor_reset_enable drv = send_command drv STD_INST_RSTEN"

definition spi_nor_reset :: "'h arm_driver_spi \<Rightarrow> (('h, 'm) nor_state_scheme, int, unit) sem" where
  "spi_nor_reset drv = send_command drv STD_INST_RST"

definition spi_nor_write_enable :: "'h arm_driver_spi \<Rightarrow> (('h, 'm) nor_state_scheme, int, unit) sem" where
  "spi_nor_write_enable drv = send_command drv STD_INST_WREN"

definition spi_nor_read_id :: "'h arm_driver_spi \<Rightarrow> u32 \<Rightarrow> (('h, 'm) nor_state_scheme, int, buf) sem" where
  "spi_nor_read_id drv n = query_command drv STD_INST_RDID n"

definition spi_nor_read_sr :: "'h arm_driver_spi \<Rightarrow> u32 \<Rightarrow> (('h, 'm) nor_state_scheme, int, buf) sem" where
  "spi_nor_read_sr drv n = query_command drv STD_INST_RDSR n"

definition spi_nor_read_cr :: "'h arm_driver_spi \<Rightarrow> u32 \<Rightarrow> (('h, 'm) nor_state_scheme, int, buf) sem" where
  "spi_nor_read_cr drv n = query_command drv STD_INST_RDCR n"

definition spi_nor_read_scur :: "'h arm_driver_spi \<Rightarrow> u32 \<Rightarrow> (('h, 'm) nor_state_scheme, int, buf) sem" where
  "spi_nor_read_scur drv n = query_command drv STD_INST_RDSCUR n"

definition spi_nor_software_reset :: "'h arm_driver_spi \<Rightarrow> (('h, 'm) nor_state_scheme, int, unit) sem" where
  "spi_nor_software_reset drv =
     bindE (orError (spi_nor_reset_enable drv) (-1)) (\<lambda>_.
     bindE (orError (spi_nor_reset drv) (-1)) (\<lambda>_.
     on_hw (hw_do (drv_wait_ms drv 1))))"

definition spi_nor_init :: "'h arm_driver_spi \<Rightarrow> (('h, 'm) nor_state_scheme, int, unit) sem" where
  "spi_nor_init drv =
     bindE (orError (on_hw (spi_nor_hc_init drv)) (-1)) (\<lambda>_.
     orError (spi_nor_software_reset drv) (-1))"

section \<open>Polling\<close>

text \<open>Commands marked \<open>TODO\<close> in the source: they return success and do nothing.\<close>

definition spi_nor_write_disable :: "(('h, 'm) nor_state_scheme, int, unit) sem" where
  "spi_nor_write_disable = returnE ()"

definition spi_nor_read :: "(('h, 'm) nor_state_scheme, int, unit) sem" where
  "spi_nor_read = returnE ()"

definition spi_nor_program :: "(('h, 'm) nor_state_scheme, int, unit) sem" where
  "spi_nor_program = returnE ()"

definition spi_nor_erase :: "(('h, 'm) nor_state_scheme, int, unit) sem" where
  "spi_nor_erase = returnE ()"

definition spi_nor_read_cr2 :: "(('h, 'm) nor_state_scheme, int, unit) sem" where
  "spi_nor_read_cr2 = returnE ()"

definition spi_nor_enter_secured_OTP :: "(('h, 'm) nor_state_scheme, int, unit) sem" where
  "spi_nor_enter_secured_OTP = returnE ()"

definition spi_nor_exit_secured_OTP :: "(('h, 'm) nor_state_scheme, int, unit) sem" where
  "spi_nor_exit_secured_OTP = returnE ()"

definition SR_WIP :: u8 where "SR_WIP = 0x01"

definition SCUR_ORDY :: u8 where "SCUR_ORDY = 0x10"

definition MAX_POLLING_TIMES :: nat where "MAX_POLLING_TIMES = 1000"

text \<open>
  \<^verbatim>\<open>do { cnt++; ...; } while (busy && cnt < MAX_POLLING_TIMES)\<close>, with the number of polls still
  allowed as the argument; the result is the final value of \<open>cnt\<close>.
\<close>

primrec poll_loop :: "('s, int, bool) sem \<Rightarrow> nat \<Rightarrow> nat \<Rightarrow> ('s, int, nat) sem" where
  "poll_loop busy cnt 0 = returnE cnt"
| "poll_loop busy cnt (Suc left) = bindE busy (\<lambda>b.
     if b \<and> cnt + 1 < MAX_POLLING_TIMES then poll_loop busy (cnt + 1) left else returnE (cnt + 1))"

definition poll :: "('s, int, bool) sem \<Rightarrow> ('s, int, unit) sem" where
  "poll busy = bindE (poll_loop busy 0 MAX_POLLING_TIMES) (\<lambda>cnt.
     if cnt \<ge> MAX_POLLING_TIMES then throwE (-1) else returnE ())"

definition wr_busy :: "'h arm_driver_spi \<Rightarrow> (('h, 'm) nor_state_scheme, int, bool) sem" where
  "wr_busy drv =
     bindE (orError (spi_nor_read_sr drv 1) (-1)) (\<lambda>sr.
     bindE (on_hw (hw_do (drv_wait_ms drv 1))) (\<lambda>_.
     returnE (hd sr AND SR_WIP \<noteq> 0)))"

definition out_busy :: "'h arm_driver_spi \<Rightarrow> (('h, 'm) nor_state_scheme, int, bool) sem" where
  "out_busy drv =
     bindE (orError (spi_nor_read_scur drv 1) (-1)) (\<lambda>scur.
     bindE (orError (spi_nor_read_sr drv 1) (-1)) (\<lambda>sr.
     bindE (on_hw (hw_do (drv_wait_ms drv 1))) (\<lambda>_.
     returnE (hd sr AND SR_WIP \<noteq> 0 \<or> hd scur AND SCUR_ORDY = 0))))"

definition spi_nor_polling_for_wr_ready :: "'h arm_driver_spi \<Rightarrow> (('h, 'm) nor_state_scheme, int, unit) sem" where
  "spi_nor_polling_for_wr_ready drv = poll (wr_busy drv)"

definition spi_nor_polling_for_out_ready :: "'h arm_driver_spi \<Rightarrow> (('h, 'm) nor_state_scheme, int, unit) sem" where
  "spi_nor_polling_for_out_ready drv = poll (out_busy drv)"

section \<open>Lemmas\<close>

lemma wp_on_hw [wp_rules]:
  "wp (on_hw m) Q E s = wp m (\<lambda>a h. Q a (s\<lparr>nor_hw := h\<rparr>)) (\<lambda>e h. E e (s\<lparr>nor_hw := h\<rparr>)) (nor_hw s)"
  by (simp add: wp_def on_hw_def split: prod.splits sum.splits)

lemma wp_hw_do [wp_rules]: "wp (hw_do f) Q E h = Q () (f h)"
  by (simp add: hw_do_def)

lemma wp_spi_read: "wp (spi_read drv tx n rx) Q E h =
  (case drv_receive drv rx (drv_send drv (take (unat n) tx) (drv_control_ss drv True h)) of
     (bs, h') \<Rightarrow> Q bs (drv_control_ss drv False h'))"
  unfolding spi_read_def by (simp add: wp_rules wp_def [of "\<lambda>h. case _ h of (bs, h') \<Rightarrow> _ bs h'"] split: prod.splits)

text \<open>What a packed command looks like on the wire.\<close>

lemma bsplice_end:
  "off \<le> length xs \<Longrightarrow> take (off + length ys) (bsplice off ys xs) = take off xs @ ys"
  by (simp add: bsplice_def)

lemma cmd_packing_wire:
  assumes "unat (np_addr_len p) \<le> length (np_addr p)"
    and "\<And>d. np_data p = Some d \<Longrightarrow> unat (np_data_len p) \<le> length d"
    and "length (np_tx_buf p) = BUFFER_SIZE"
    and fits: "1 + unat (np_addr_len p) + unat (np_dummy_len p) +
      (case np_data p of None \<Rightarrow> 0 | Some _ \<Rightarrow> unat (np_data_len p)) \<le> BUFFER_SIZE"
  shows "take (unat (np_tx_len (cmd_packing p))) (np_tx_buf (cmd_packing p)) =
      np_cmd p # take (unat (np_addr_len p)) (np_addr p) @ replicate (unat (np_dummy_len p)) 0xFF @
      (case np_data p of None \<Rightarrow> [] | Some d \<Rightarrow> take (unat (np_data_len p)) d)" (is ?wire)
    and "length (np_tx_buf (cmd_packing p)) = BUFFER_SIZE" (is ?len)
proof -
  define tx0 where "tx0 = bsplice 0 [np_cmd p] (np_tx_buf p)"
  define n1 where "n1 = (1 :: u32) + ucast (np_addr_len p)"
  define tx1 where "tx1 = bsplice 1 (take (unat (np_addr_len p)) (np_addr p)) tx0"
  define n2 where "n2 = n1 + ucast (np_dummy_len p)"
  define tx2 where "tx2 = bsplice (unat n1) (replicate (unat (np_dummy_len p)) 0xFF) tx1"
  define n3 where "n3 = (case np_data p of None \<Rightarrow> n2 | Some _ \<Rightarrow> n2 + np_data_len p)"
  define tx3 where "tx3 = (case np_data p of None \<Rightarrow> tx2 | Some d \<Rightarrow> bsplice (unat n2) (take (unat (np_data_len p)) d) tx2)"
  have B: "BUFFER_SIZE = 306" by (simp add: BUFFER_SIZE_def)
  have z: "ucast (0 :: u8) = (0 :: u32)" by simp
  have pk: "cmd_packing p = p\<lparr>np_tx_buf := tx3, np_tx_len := n3\<rparr>"
  proof -
    have "(if np_addr_len p > 0 then (bsplice (unat (1 :: u32)) (take (unat (np_addr_len p)) (np_addr p)) tx0, 1 + ucast (np_addr_len p))
        else (tx0, 1 :: u32)) = (tx1, n1)"
      unfolding tx1_def n1_def by (cases "np_addr_len p = 0") (simp_all add: word_gt_0)
    moreover have "(if np_dummy_len p > 0 then (bsplice (unat n1) (replicate (unat (np_dummy_len p)) 0xFF) tx1, n1 + ucast (np_dummy_len p))
        else (tx1, n1)) = (tx2, n2)"
      unfolding tx2_def n2_def by (cases "np_dummy_len p = 0") (simp_all add: word_gt_0)
    moreover have "(case np_data p of Some data \<Rightarrow> (bsplice (unat n2) (take (unat (np_data_len p)) data) tx2, n2 + np_data_len p)
        | None \<Rightarrow> (tx2, n2)) = (tx3, n3)"
      unfolding tx3_def n3_def by (cases "np_data p") simp_all
    ultimately show ?thesis unfolding cmd_packing_def Let_def tx0_def [symmetric] by (simp only: prod.case)
  qed
  have n1: "unat n1 = 1 + unat (np_addr_len p)" unfolding n1_def using unat_u8_less [of "np_addr_len p"] by (simp add: unat_add_u32)
  have n2: "unat n2 = 1 + unat (np_addr_len p) + unat (np_dummy_len p)"
    unfolding n2_def using n1 unat_u8_less [of "np_addr_len p"] unat_u8_less [of "np_dummy_len p"] by (simp add: unat_add_u32)
  have l0: "length tx0 = 306" "take 1 tx0 = [np_cmd p]" using assms(3) B by (simp_all add: tx0_def bsplice_def)
  have l1: "length tx1 = 306" unfolding tx1_def using l0 assms(1) fits B by (subst length_bsplice) (simp_all add: min_absorb2)
  have t1: "take (unat n1) tx1 = np_cmd p # take (unat (np_addr_len p)) (np_addr p)"
    using bsplice_end [of 1 tx0 "take (unat (np_addr_len p)) (np_addr p)"] l0 assms(1) by (simp add: tx1_def n1 min_absorb2)
  have l2: "length tx2 = 306" unfolding tx2_def using l1 n1 fits B by (subst length_bsplice) auto
  have t2: "take (unat n2) tx2 = np_cmd p # take (unat (np_addr_len p)) (np_addr p) @ replicate (unat (np_dummy_len p)) 0xFF"
    using bsplice_end [of "unat n1" tx1 "replicate (unat (np_dummy_len p)) 0xFF"] l1 t1 fits B by (simp add: tx2_def n1 n2)
  show ?wire
  proof (cases "np_data p")
    case None
    then show ?thesis using t2 by (simp add: pk n3_def tx3_def)
  next
    case (Some d)
    have "unat n3 = unat n2 + unat (np_data_len p)" using Some fits B n2 by (simp add: n3_def unat_add_u32)
    then show ?thesis
      using bsplice_end [of "unat n2" tx2 "take (unat (np_data_len p)) d"] t2 l2 n2 fits B Some assms(2) [OF Some]
      by (simp add: pk tx3_def min_absorb2)
  qed
  show ?len
    using l2 n2 fits B assms(2) by (cases "np_data p") (simp_all add: pk tx3_def min_absorb2)
qed

text \<open>
  With a device whose answers are \<open>b\<close> and that every query moves on by \<open>nx\<close>, a poll succeeds just in
  case one of the first \<open>MAX_POLLING_TIMES - 1\<close> answers is that it is ready: an answer at the last
  attempt comes too late.
\<close>

lemma poll_loop_count:
  assumes "cnt + left = MAX_POLLING_TIMES" and "0 < left"
  shows "\<exists>n s'. poll_loop (\<lambda>s. (Inr (b s), nx s)) cnt left s = (Inr n, s') \<and>
    (n < MAX_POLLING_TIMES \<longleftrightarrow> (\<exists>k. cnt + k + 1 < MAX_POLLING_TIMES \<and> \<not> b ((nx ^^ k) s)))"
  using assms
proof (induction left arbitrary: cnt s)
  case 0
  then show ?case by simp
next
  case (Suc left)
  let ?B = "\<lambda>s. (Inr (b s), nx s) :: (int + bool) \<times> 'a"
  have step: "poll_loop ?B cnt (Suc left) s =
      (if b s \<and> cnt + 1 < MAX_POLLING_TIMES then poll_loop ?B (cnt + 1) left else returnE (cnt + 1)) (nx s)"
    by (simp add: bindE_def tryE_def)
  show ?case
  proof (cases "b s \<and> cnt + 1 < MAX_POLLING_TIMES")
    case True
    have "(\<exists>k. cnt + 1 + k + 1 < MAX_POLLING_TIMES \<and> \<not> b ((nx ^^ k) (nx s))) \<longleftrightarrow>
        (\<exists>k. cnt + k + 1 < MAX_POLLING_TIMES \<and> \<not> b ((nx ^^ k) s))" (is "?L \<longleftrightarrow> ?R")
    proof
      assume ?L
      then obtain k where "cnt + 1 + k + 1 < MAX_POLLING_TIMES" "\<not> b ((nx ^^ k) (nx s))" by blast
      then show ?R by (intro exI [of _ "Suc k"]) (simp add: funpow_swap1)
    next
      assume ?R
      then obtain k where k: "cnt + k + 1 < MAX_POLLING_TIMES" "\<not> b ((nx ^^ k) s)" by blast
      then obtain j where "k = Suc j" using True by (cases k) auto
      then show ?L using k by (intro exI [of _ j]) (simp add: funpow_swap1)
    qed
    moreover have "0 < left" using True Suc.prems by simp
    ultimately show ?thesis
      using Suc.IH [of "cnt + 1" "nx s"] Suc.prems(1) unfolding step if_P [OF True] by simp
  next
    case False
    have "cnt + 1 < MAX_POLLING_TIMES \<longleftrightarrow> (\<exists>k. cnt + k + 1 < MAX_POLLING_TIMES \<and> \<not> b ((nx ^^ k) s))"
    proof
      assume "cnt + 1 < MAX_POLLING_TIMES"
      then show "\<exists>k. cnt + k + 1 < MAX_POLLING_TIMES \<and> \<not> b ((nx ^^ k) s)" using False by (intro exI [of _ 0]) simp
    qed auto
    moreover have "poll_loop ?B cnt (Suc left) s = (Inr (cnt + 1), nx s)"
      unfolding step if_not_P [OF False] by (simp add: returnE_def)
    ultimately show ?thesis by blast
  qed
qed

lemma poll_ready:
  "fst (poll (\<lambda>s. (Inr (b s), nx s)) s) = Inr () \<longleftrightarrow> (\<exists>k<MAX_POLLING_TIMES - 1. \<not> b ((nx ^^ k) s))"
proof -
  have "0 < MAX_POLLING_TIMES" by (simp add: MAX_POLLING_TIMES_def)
  then obtain n s' where "poll_loop (\<lambda>s. (Inr (b s), nx s)) 0 MAX_POLLING_TIMES s = (Inr n, s')"
    "n < MAX_POLLING_TIMES \<longleftrightarrow> (\<exists>k. 0 + k + 1 < MAX_POLLING_TIMES \<and> \<not> b ((nx ^^ k) s))"
    using poll_loop_count [of 0 MAX_POLLING_TIMES b nx s] by auto
  then show ?thesis
    by (auto simp: poll_def bindE_def tryE_def throwE_def returnE_def less_diff_conv)
qed

lemma query_command_Inr: "\<exists>bs. fst (query_command drv c n s) = Inr bs"
  by (auto simp: query_command_def pack_command_def on_hw_def spi_read_def hw_do_def sem_defs split: prod.splits)

lemma wr_busy_Inr: "\<exists>b. fst (wr_busy drv s) = Inr b"
  using query_command_Inr [of drv STD_INST_RDSR 1 s]
  by (auto simp: wr_busy_def spi_nor_read_sr_def on_hw_def hw_do_def sem_defs split: prod.splits)

section \<open>Properties\<close>

text \<open>
  C23. Waiting for the device to become ready for writing always ends, and it succeeds exactly when one of
  the first 999 status reads shows the device ready: an answer at the last of the
  \<open>MAX_POLLING_TIMES\<close> attempts is reported as a failure.
\<close>

theorem wr_ready_within_limit:
  "fst (spi_nor_polling_for_wr_ready drv s) = Inr () \<longleftrightarrow>
   (\<exists>k<999. fst (wr_busy drv (((\<lambda>s. snd (wr_busy drv s)) ^^ k) s)) = Inr False)"
proof -
  define b where "b s = (fst (wr_busy drv s) = Inr True)" for s :: "('a, 'b) nor_state_scheme"
  define nx where "nx s = snd (wr_busy drv s)" for s :: "('a, 'b) nor_state_scheme"
  have f: "fst (wr_busy drv s) = Inr (b s)" for s
    using wr_busy_Inr [of drv s] by (auto simp: b_def)
  then have e: "wr_busy drv = (\<lambda>s. (Inr (b s), nx s))" by (simp add: fun_eq_iff prod_eq_iff nx_def)
  have n: "(\<lambda>s. snd (wr_busy drv s)) = nx" by (simp add: e)
  have "fst (spi_nor_polling_for_wr_ready drv s) = Inr () \<longleftrightarrow> (\<exists>k<999. \<not> b ((nx ^^ k) s))"
    unfolding spi_nor_polling_for_wr_ready_def e using poll_ready [of b nx s] by (simp add: MAX_POLLING_TIMES_def)
  then show ?thesis unfolding n using f by simp
qed

text \<open>
  C24. A packed command is on the wire the opcode, the address, the dummy bytes and the data, in this order
  and with nothing else, for every packet whose parts fit the transmit buffer.
\<close>

theorem cmd_packing_layout:
  assumes "unat (np_addr_len p) \<le> length (np_addr p)"
    and "\<And>d. np_data p = Some d \<Longrightarrow> unat (np_data_len p) \<le> length d"
    and "length (np_tx_buf p) = BUFFER_SIZE"
    and "1 + unat (np_addr_len p) + unat (np_dummy_len p) +
      (case np_data p of None \<Rightarrow> 0 | Some _ \<Rightarrow> unat (np_data_len p)) \<le> BUFFER_SIZE"
  shows "take (unat (np_tx_len (cmd_packing p))) (np_tx_buf (cmd_packing p)) =
      np_cmd p # take (unat (np_addr_len p)) (np_addr p) @ replicate (unat (np_dummy_len p)) 0xFF @
      (case np_data p of None \<Rightarrow> [] | Some d \<Rightarrow> take (unat (np_data_len p)) d)"
  by (rule cmd_packing_wire(1) [OF assms])

theorem cmd_packing_layout_witness:
  "take 6 (np_tx_buf (cmd_packing \<lparr>np_cmd = 0x0B, np_addr = [1, 2, 3, 0], np_addr_len = 3, np_dummy_len = 1, np_data = Some [9],
     np_data_len = 1, np_tx_buf = replicate BUFFER_SIZE 0, np_tx_len = 0\<rparr>)) = [0x0B, 1, 2, 3, 0xFF, 9]" (is "take 6 (np_tx_buf (cmd_packing ?p)) = _")
proof -
  have "unat (np_tx_len (cmd_packing ?p)) = 6" by (simp add: cmd_packing_def Let_def)
  then show ?thesis using cmd_packing_layout [of ?p] by (simp add: BUFFER_SIZE_def)
qed

end
