(* ===== verification/Secureflash.thy ===== *)
theory Secureflash
  imports Spi_Nor
begin

text \<open>
  The secure flash layer, \<open>secureflash.c\<close>: it identifies the device, loads the provisioned table
  that binds applications to secure zones and keys, and turns reads, programs and erases into JEDEC
  secure operations in units of the device, each call in a session of its own. The JEDEC security
  layer, the vendor support and the table of supported devices (\<open>TG424_3\<close>, a submodule) are the
  record \<open>sf_hal\<close>. A division by zero, an access behind a table and a loop that does not end have
  the value \<open>SECUREFLASH_NO_RESULT\<close>.
\<close>

section \<open>Types\<close>

datatype sf_error =
    SECUREFLASH_ERROR_INITIAL
  | SECUREFLASH_ERROR_DEVICE
  | SECUREFLASH_ERROR_CREATE_SESSION
  | SECUREFLASH_ERROR_CLOSE_SESSION
  | SECUREFLASH_ERROR_SECURE_READ
  | SECUREFLASH_ERROR_SECURE_PROGRAM
  | SECUREFLASH_ERROR_SECURE_ERASE
  | SECUREFLASH_ERROR_SECURE_INIT
  | SECUREFLASH_ERROR_INVALID_ARGUMENT
  | SECUREFLASH_ERROR_ILLEGAL_ACCESS
  | SECUREFLASH_ERROR_UNSUPPORTED_DEVICE
  | SECUREFLASH_ERROR_GET_PROVISION_INFO
  | SECUREFLASH_ERROR_SECURE_DEINIT
  | SECUREFLASH_ERROR_VENDOR
  | SECUREFLASH_NO_RESULT

record app_data_t =
  app_id :: int
  key_id :: u32
  zone_id :: u8
  mc_id :: u8

record app_info_t =
  app_num :: u8
  app_data :: "app_data_t list"

text \<open>The fields of \<open>flash_profile\<close> that the code reads: the security features and the architecture.\<close>

record security_feature_t =
  security_storage :: bool
  puf :: bool
  rng :: bool
  rpmc :: bool

record architecture_t =
  security_feature :: security_feature_t
  secure_zone_size :: u32
  secure_zone_total_size :: u32
  secure_read_size :: u32
  secure_program_size :: u32
  regions_min_secure_erase_size :: u32

text \<open>An entry of the vendor's table of supported devices; \<open>dev_vendor\<close> stands for its operations.\<close>

record 'v dev_entry =
  dev_id :: buf
  dev_vendor :: 'v
  dev_profile :: architecture_t

record ('h, 'v) sf_hal =
  hal_spi :: "'h arm_driver_spi"
  hal_flash_info :: "'v dev_entry list"
  hal_max_id_len :: u32
  hal_SP_ETSS :: int
  hal_authen_key_id :: u32
  jedec_set_vendor :: "'v \<Rightarrow> 'h \<Rightarrow> 'h"
  vendor_get_app_info :: "'v \<Rightarrow> ('h, unit, u8 \<times> app_data_t list) sem"
  vendor_perform_and_verify :: "'v \<Rightarrow> buf \<Rightarrow> u32 \<Rightarrow> ('h, unit, unit) sem"
  jedec_secure_init :: "u32 \<Rightarrow> ('h, unit, unit) sem"
  jedec_secure_uninit :: "u32 \<Rightarrow> ('h, unit, unit) sem"
  jedec_create_session :: "u32 \<Rightarrow> ('h, unit, u32) sem"
  jedec_terminate_session :: "u32 \<Rightarrow> ('h, unit, unit) sem"
  jedec_secure_read :: "u32 \<Rightarrow> u32 \<Rightarrow> u32 \<Rightarrow> ('h, unit, buf) sem"
  jedec_secure_program :: "u32 \<Rightarrow> buf \<Rightarrow> u32 \<Rightarrow> u32 \<Rightarrow> ('h, unit, unit) sem"
  jedec_secure_erase :: "u32 \<Rightarrow> u32 \<Rightarrow> u32 \<Rightarrow> ('h, unit, unit) sem"

record ('h, 'v) secureflash_t = "'h nor_state" +
  init_ref_count :: u32
  is_initialized :: bool
  app_info :: app_info_t
  flash_id :: buf
  flash_vendor :: "'v option"
  flash_profile :: architecture_t

type_synonym ('h, 'v, 'm, 'a) sf_op = "(('h, 'v, 'm) secureflash_t_scheme, sf_error, 'a) sem"

section \<open>Start-up\<close>

definition query_app_info :: "('h, 'v) sf_hal \<Rightarrow> ('h, 'v, 'm) secureflash_t_scheme \<Rightarrow> u32 \<Rightarrow> int \<Rightarrow> app_data_t option" where
  "query_app_info hal s addr app =
     (let zone = addr div secure_zone_size (flash_profile s);
          entries = take (unat (app_num (app_info s))) (app_data (app_info s))
      in if app = hal_SP_ETSS hal
         then List.find (\<lambda>e. ucast (zone_id e) = zone) entries
         else List.find (\<lambda>e. app_id e = app \<and> ucast (zone_id e) = zone) entries)"

definition secureflash_get_app_info :: "('h, 'v) sf_hal \<Rightarrow> ('h, 'v, 'm, unit) sf_op" where
  "secureflash_get_app_info hal = withS (\<lambda>s. case flash_vendor s of
     None \<Rightarrow> throwE SECUREFLASH_NO_RESULT
   | Some v \<Rightarrow>
       bindE (orError (on_hw (vendor_get_app_info hal v)) SECUREFLASH_ERROR_GET_PROVISION_INFO) (\<lambda>(num, data).
       modifyS (\<lambda>s. s\<lparr>app_info := (app_info s)\<lparr>app_num := num, app_data := data\<rparr>\<rparr>)))"

text \<open>
  The bound of the search is \<open>sizeof(flash_info)\<close>, the size of a table of pointers in bytes: four times
  the number of its entries. An access behind the table has no result.
\<close>

fun match_id_loop :: "'v dev_entry list \<Rightarrow> buf \<Rightarrow> nat list \<Rightarrow> sf_error + 'v dev_entry" where
  "match_id_loop table ident [] = Inl SECUREFLASH_ERROR_UNSUPPORTED_DEVICE"
| "match_id_loop table ident (i # is) =
     (if i \<ge> length table then Inl SECUREFLASH_NO_RESULT
      else if take (length (dev_id (table ! i))) ident = dev_id (table ! i) then Inr (table ! i)
      else match_id_loop table ident is)"

definition secureflash_match_id :: "('h, 'v) sf_hal \<Rightarrow> buf \<Rightarrow> ('h, 'v, 'm, unit) sf_op" where
  "secureflash_match_id hal ident =
     bindE (liftE (match_id_loop (hal_flash_info hal) ident [0..<4 * length (hal_flash_info hal)])) (\<lambda>e.
     modifyS (\<lambda>s. s\<lparr>nor_hw := jedec_set_vendor hal (dev_vendor e) (nor_hw s),
       flash_vendor := Some (dev_vendor e), flash_profile := dev_profile e\<rparr>))"

definition secureflash_probe :: "('h, 'v) sf_hal \<Rightarrow> ('h, 'v, 'm, unit) sf_op" where
  "secureflash_probe hal =
     bindE (orError (spi_nor_read_id (hal_spi hal) (hal_max_id_len hal)) SECUREFLASH_ERROR_DEVICE) (\<lambda>ident.
     bindE (modifyS (\<lambda>s. s\<lparr>flash_id := ident\<rparr>)) (\<lambda>_.
     tryE (secureflash_match_id hal ident) (\<lambda>r. case r of
       Inl e \<Rightarrow> throwE (if e = SECUREFLASH_NO_RESULT then e else SECUREFLASH_ERROR_UNSUPPORTED_DEVICE)
     | Inr _ \<Rightarrow> returnE ())))"

definition no_app_info :: app_info_t where
  "no_app_info = \<lparr>app_num = 0, app_data = []\<rparr>"

definition secureflash_init :: "('h, 'v) sf_hal \<Rightarrow> ('h, 'v, 'm, unit) sf_op" where
  "secureflash_init hal =
     bindE (modifyS (\<lambda>s. if is_initialized s then s else s\<lparr>init_ref_count := 0\<rparr>)) (\<lambda>_.
     bindE (modifyS (\<lambda>s. s\<lparr>init_ref_count := init_ref_count s + 1\<rparr>)) (\<lambda>_.
     withS (\<lambda>s. if init_ref_count s \<noteq> 1 then returnE ()
     else
       bindE (orError (spi_nor_init (hal_spi hal)) SECUREFLASH_ERROR_INITIAL) (\<lambda>_.
       bindE (secureflash_probe hal) (\<lambda>_.
       bindE (modifyS (\<lambda>s. s\<lparr>app_info := no_app_info\<rparr>)) (\<lambda>_.
       bindE (secureflash_get_app_info hal) (\<lambda>_.
       bindE (orError (on_hw (jedec_secure_init hal (hal_authen_key_id hal))) SECUREFLASH_ERROR_SECURE_INIT) (\<lambda>_.
       modifyS (\<lambda>s. s\<lparr>is_initialized := True\<rparr>)))))))))"

definition secureflash_uninit :: "('h, 'v) sf_hal \<Rightarrow> ('h, 'v, 'm, unit) sf_op" where
  "secureflash_uninit hal =
     bindE (orError (on_hw (jedec_secure_uninit hal (hal_authen_key_id hal))) SECUREFLASH_ERROR_SECURE_DEINIT) (\<lambda>_.
     bindE (modifyS (\<lambda>s. s\<lparr>app_info := no_app_info, init_ref_count := init_ref_count s - 1\<rparr>)) (\<lambda>_.
     modifyS (\<lambda>s. if init_ref_count s \<noteq> 0 then s
       else if \<not> is_initialized s then s\<lparr>init_ref_count := 0\<rparr>
       else s\<lparr>is_initialized := False\<rparr>)))"

section \<open>Secure operations\<close>

text \<open>The size of the next piece: up to the end of the unit that \<open>addr\<close> lies in.\<close>

definition chunk_size :: "u32 \<Rightarrow> u32 \<Rightarrow> u32 \<Rightarrow> u32" where
  "chunk_size unit_len addr sz =
     (let offset = addr mod unit_len in if offset + sz < unit_len then sz else unit_len - offset)"

lemma chunk_size_bounds:
  assumes "0 < (len :: u32)" and "0 < (sz :: u32)"
  shows "0 < unat (chunk_size len addr sz)" "unat (chunk_size len addr sz) \<le> unat sz"
proof -
  let ?off = "addr mod len"
  have o: "unat ?off < unat len"
    using assms(1) by (simp add: word_less_nat_alt unat_mod_distrib)
  have l: "unat (len - ?off) = unat len - unat ?off" using o by (intro unat_sub_u32) simp
  have w: "unat (?off + sz) = (unat ?off + unat sz) mod 4294967296" by (simp add: unat_word_ariths)
  have "unat len - unat ?off \<le> unat sz" if "\<not> ?off + sz < len"
  proof (rule ccontr)
    assume "\<not> ?thesis"
    then have "unat ?off + unat sz < unat len" by simp
    then have "unat (?off + sz) = unat ?off + unat sz" using w unat_u32_less [of len] by simp
    then show False using that \<open>unat ?off + unat sz < unat len\<close> by (simp add: word_less_nat_alt)
  qed
  then show "0 < unat (chunk_size len addr sz)" "unat (chunk_size len addr sz) \<le> unat sz"
    using assms(2) o l by (auto simp: chunk_size_def Let_def word_less_nat_alt)
qed

lemma chunk_rest: "0 < (len :: u32) \<Longrightarrow> 0 < (sz :: u32) \<Longrightarrow>
  unat (sz - chunk_size len addr sz) = unat sz - unat (chunk_size len addr sz)"
  using chunk_size_bounds [of len sz addr] by (intro unat_sub_u32) simp

lemma chunk_decreases: "(sz :: u32) \<noteq> 0 \<Longrightarrow> (len :: u32) \<noteq> 0 \<Longrightarrow> unat (sz - chunk_size len addr sz) < unat sz"
  using chunk_size_bounds [of len sz addr] by (simp add: chunk_rest word_gt_0)

function secure_read_loop :: "('h, 'v) sf_hal \<Rightarrow> u32 \<Rightarrow> u32 \<Rightarrow> u32 \<Rightarrow> u32 \<Rightarrow> ('h, 'v, 'm, buf) sf_op" where
  "secure_read_loop hal read_len session_key_id addr sz =
     (if sz = 0 then returnE []
      else if read_len = 0 then throwE SECUREFLASH_NO_RESULT
      else
        (let chunk = chunk_size read_len addr sz in
         bindE (orError (on_hw (jedec_secure_read hal addr chunk session_key_id)) SECUREFLASH_ERROR_SECURE_READ) (\<lambda>bs.
         bindE (secure_read_loop hal read_len session_key_id (addr + chunk) (sz - chunk)) (\<lambda>rest.
         returnE (bs @ rest)))))"
  by pat_completeness auto

termination secure_read_loop
  by (relation "measure (\<lambda>(hal, len, k, a, sz). unat sz)")
    (auto intro: chunk_decreases)

declare secure_read_loop.simps [simp del]

definition secureflash_secure_read :: "('h, 'v) sf_hal \<Rightarrow> u32 \<Rightarrow> u32 \<Rightarrow> int \<Rightarrow> ('h, 'v, 'm, buf) sf_op" where
  "secureflash_secure_read hal addr sz app = withS (\<lambda>s.
     if \<not> is_initialized s then throwE SECUREFLASH_ERROR_DEVICE
     else if addr + sz > secure_zone_total_size (flash_profile s) then throwE SECUREFLASH_ERROR_INVALID_ARGUMENT
     else if secure_zone_size (flash_profile s) = 0 then throwE SECUREFLASH_NO_RESULT
     else case query_app_info hal s addr app of
       None \<Rightarrow> throwE SECUREFLASH_ERROR_ILLEGAL_ACCESS
     | Some e \<Rightarrow>
         bindE (orError (on_hw (jedec_create_session hal (key_id e))) SECUREFLASH_ERROR_CREATE_SESSION) (\<lambda>session_key_id.
         bindE (secure_read_loop hal (secure_read_size (flash_profile s)) session_key_id addr sz) (\<lambda>bs.
         bindE (orError (on_hw (jedec_terminate_session hal session_key_id)) SECUREFLASH_ERROR_CLOSE_SESSION) (\<lambda>_.
         returnE bs))))"

function secure_program_loop :: "('h, 'v) sf_hal \<Rightarrow> u32 \<Rightarrow> u32 \<Rightarrow> buf \<Rightarrow> u32 \<Rightarrow> u32 \<Rightarrow> ('h, 'v, 'm, unit) sf_op" where
  "secure_program_loop hal program_len session_key_id buffer addr sz =
     (if sz = 0 then returnE ()
      else if program_len = 0 then throwE SECUREFLASH_NO_RESULT
      else
        (let chunk = chunk_size program_len addr sz in
         bindE (orError (on_hw (jedec_secure_program hal addr (take (unat chunk) buffer) chunk session_key_id))
           SECUREFLASH_ERROR_SECURE_PROGRAM) (\<lambda>_.
         secure_program_loop hal program_len session_key_id (drop (unat chunk) buffer) (addr + chunk) (sz - chunk))))"
  by pat_completeness auto

termination secure_program_loop
  by (relation "measure (\<lambda>(hal, len, k, b, a, sz). unat sz)")
    (auto intro: chunk_decreases)

declare secure_program_loop.simps [simp del]

definition secureflash_secure_program :: "('h, 'v) sf_hal \<Rightarrow> buf \<Rightarrow> u32 \<Rightarrow> u32 \<Rightarrow> int \<Rightarrow> ('h, 'v, 'm, unit) sf_op" where
  "secureflash_secure_program hal buffer addr sz app = withS (\<lambda>s.
     if \<not> is_initialized s then throwE SECUREFLASH_ERROR_DEVICE
     else if addr + sz > secure_zone_total_size (flash_profile s) then throwE SECUREFLASH_ERROR_INVALID_ARGUMENT
     else if secure_zone_size (flash_profile s) = 0 then throwE SECUREFLASH_NO_RESULT
     else case query_app_info hal s addr app of
       None \<Rightarrow> throwE SECUREFLASH_ERROR_ILLEGAL_ACCESS
     | Some e \<Rightarrow>
         bindE (orError (on_hw (jedec_create_session hal (key_id e))) SECUREFLASH_ERROR_CREATE_SESSION) (\<lambda>session_key_id.
         bindE (secure_program_loop hal (secure_program_size (flash_profile s)) session_key_id buffer addr sz) (\<lambda>_.
         orError (on_hw (jedec_terminate_session hal session_key_id)) SECUREFLASH_ERROR_CLOSE_SESSION)))"

text \<open>
  \<^verbatim>\<open>while (size > 0)\<close> with \<^verbatim>\<open>sz -= erase_size\<close>: it ends only when \<open>sz\<close> is a multiple of the unit. The first
  argument bounds the number of steps; \<open>unat sz div unat erase_size + 1\<close> is enough for every such sz.
\<close>

fun secure_erase_loop :: "nat \<Rightarrow> ('h, 'v) sf_hal \<Rightarrow> u32 \<Rightarrow> u32 \<Rightarrow> u32 \<Rightarrow> u32 \<Rightarrow> ('h, 'v, 'm, unit) sf_op" where
  "secure_erase_loop 0 hal erase_size session_key_id addr sz = throwE SECUREFLASH_NO_RESULT"
| "secure_erase_loop (Suc fuel) hal erase_size session_key_id addr sz =
     (if sz = 0 then returnE ()
      else
        bindE (orError (on_hw (jedec_secure_erase hal addr erase_size session_key_id)) SECUREFLASH_ERROR_SECURE_ERASE) (\<lambda>_.
        secure_erase_loop fuel hal erase_size session_key_id (addr + erase_size) (sz - erase_size)))"

definition secureflash_secure_erase :: "('h, 'v) sf_hal \<Rightarrow> u32 \<Rightarrow> u32 \<Rightarrow> int \<Rightarrow> ('h, 'v, 'm, unit) sf_op" where
  "secureflash_secure_erase hal addr sz app = withS (\<lambda>s.
     let erase_size = regions_min_secure_erase_size (flash_profile s) in
     if \<not> is_initialized s then throwE SECUREFLASH_ERROR_DEVICE
     else if addr + sz > secure_zone_total_size (flash_profile s) then throwE SECUREFLASH_ERROR_INVALID_ARGUMENT
     else if erase_size = 0 then throwE SECUREFLASH_NO_RESULT
     else if addr mod erase_size \<noteq> 0 \<or> (addr + sz) mod erase_size \<noteq> 0 then throwE SECUREFLASH_ERROR_INVALID_ARGUMENT
     else if secure_zone_size (flash_profile s) = 0 then throwE SECUREFLASH_NO_RESULT
     else case query_app_info hal s addr app of
       None \<Rightarrow> throwE SECUREFLASH_ERROR_ILLEGAL_ACCESS
     | Some e \<Rightarrow>
         bindE (orError (on_hw (jedec_create_session hal (key_id e))) SECUREFLASH_ERROR_CREATE_SESSION) (\<lambda>session_key_id.
         bindE (secure_erase_loop (unat sz div unat erase_size + 1) hal erase_size session_key_id addr sz) (\<lambda>_.
         orError (on_hw (jedec_terminate_session hal session_key_id)) SECUREFLASH_ERROR_CLOSE_SESSION)))"

text \<open>Functions marked \<open>TODO\<close> in the source: they return success and do nothing.\<close>

definition secureflash_get_puf :: "('h, 'v, 'm, unit) sf_op" where
  "secureflash_get_puf = returnE ()"

definition secureflash_get_trng :: "('h, 'v, 'm, unit) sf_op" where
  "secureflash_get_trng = returnE ()"

definition secureflash_get_uid :: "('h, 'v, 'm, unit) sf_op" where
  "secureflash_get_uid = returnE ()"

definition mc_access_grant :: "('h, 'v, 'm) secureflash_t_scheme \<Rightarrow> int \<Rightarrow> u8 \<Rightarrow> bool" where
  "mc_access_grant s client_id mc_addr = False"

definition secureflash_increase_mc :: "('h, 'v, 'm, unit) sf_op" where
  "secureflash_increase_mc = returnE ()"

definition secureflash_get_mc :: "('h, 'v, 'm, unit) sf_op" where
  "secureflash_get_mc = returnE ()"

definition secureflash_provision :: "('h, 'v) sf_hal \<Rightarrow> buf \<Rightarrow> u32 \<Rightarrow> ('h, 'v, 'm, unit) sf_op" where
  "secureflash_provision hal provision_data data_length = withS (\<lambda>s. case flash_vendor s of
     None \<Rightarrow> throwE SECUREFLASH_NO_RESULT
   | Some v \<Rightarrow> orError (on_hw (vendor_perform_and_verify hal v provision_data data_length)) SECUREFLASH_ERROR_VENDOR)"

section \<open>Properties\<close>

lemma match_id_loop_find:
  assumes "n \<le> length table"
  shows "match_id_loop table ident [n..<4 * length table] =
    (case List.find (\<lambda>e. take (length (dev_id e)) ident = dev_id e) (drop n table) of
       Some e \<Rightarrow> Inr e
     | None \<Rightarrow> Inl (if table = [] then SECUREFLASH_ERROR_UNSUPPORTED_DEVICE else SECUREFLASH_NO_RESULT))"
  using assms
proof (induction "length table - n" arbitrary: n)
  case 0
  then have n: "n = length table" by simp
  show ?case
  proof (cases "table = []")
    case False
    then have "[n..<4 * length table] = n # [Suc n..<4 * length table]" using n by (simp add: upt_rec)
    then show ?thesis using n False by simp
  qed (use n in simp)
next
  case (Suc k)
  then have n: "n < length table" by simp
  then have u: "[n..<4 * length table] = n # [Suc n..<4 * length table]" by (simp add: upt_rec)
  have d: "drop n table = table ! n # drop (Suc n) table" using n by (simp add: Cons_nth_drop_Suc)
  have "match_id_loop table ident [Suc n..<4 * length table] =
    (case List.find (\<lambda>e. take (length (dev_id e)) ident = dev_id e) (drop (Suc n) table) of
       Some e \<Rightarrow> Inr e
     | None \<Rightarrow> Inl (if table = [] then SECUREFLASH_ERROR_UNSUPPORTED_DEVICE else SECUREFLASH_NO_RESULT))"
    by (rule Suc.hyps(1)) (use Suc.hyps(2) n in simp_all)
  then show ?case using n unfolding u d by simp
qed


end
