(* ===== verification/Etss_Utils.thy ===== *)
theory Etss_Utils
  imports Prelude
begin

text \<open>
  The helpers of \<open>etss_utils.h\<close> and \<open>etss_utils.c\<close>: the alignment macros, the range check that
  every request boundary goes through, and the test that a file identifier is in use.
\<close>

section \<open>Definitions\<close>

definition ETSS_FILE_ID_SIZE :: nat where
  "ETSS_FILE_ID_SIZE = 12"

definition ETSS_DEFAULT_EMPTY_BUFF_VAL :: u8 where
  "ETSS_DEFAULT_EMPTY_BUFF_VAL = 0"

definition ETSS_UTILS_MIN :: "u32 \<Rightarrow> u32 \<Rightarrow> u32" where
  "ETSS_UTILS_MIN x y = (if x < y then x else y)"

definition ETSS_UTILS_MAX :: "u32 \<Rightarrow> u32 \<Rightarrow> u32" where
  "ETSS_UTILS_MAX x y = (if x > y then x else y)"

definition ETSS_UTILS_ALIGN :: "u32 \<Rightarrow> u32 \<Rightarrow> u32" where
  "ETSS_UTILS_ALIGN x a = (x + (a - 1)) AND NOT (a - 1)"

definition ETSS_UTILS_IS_ALIGNED :: "u32 \<Rightarrow> u32 \<Rightarrow> bool" where
  "ETSS_UTILS_IS_ALIGNED x a \<longleftrightarrow> x AND (a - 1) = 0"

definition etss_utils_check_contained_in :: "u32 \<Rightarrow> u32 \<Rightarrow> u32 \<Rightarrow> psa_error + unit" where
  "etss_utils_check_contained_in superset_size subset_offset subset_size =
     (if subset_offset > superset_size then Inl PSA_ERROR_INVALID_ARGUMENT
      else if subset_size > superset_size - subset_offset then Inl PSA_ERROR_INVALID_ARGUMENT
      else Inr ())"

fun validate_fid_loop :: "buf \<Rightarrow> psa_error + unit" where
  "validate_fid_loop [] = Inl PSA_ERROR_DOES_NOT_EXIST"
| "validate_fid_loop (b # bs) = (if b \<noteq> 0 then Inr () else validate_fid_loop bs)"

definition etss_utils_validate_fid :: "buf \<Rightarrow> psa_error + unit" where
  "etss_utils_validate_fid fid = validate_fid_loop (take ETSS_FILE_ID_SIZE fid)"

section \<open>Lemmas\<close>

lemma ETSS_UTILS_MIN_eq: "unat (ETSS_UTILS_MIN x y) = min (unat x) (unat y)"
  by (simp add: ETSS_UTILS_MIN_def word_less_nat_alt min_def)

lemma ETSS_UTILS_MAX_eq: "unat (ETSS_UTILS_MAX x y) = max (unat x) (unat y)"
  by (simp add: ETSS_UTILS_MAX_def word_less_nat_alt max_def)

lemma check_contained_in_Inr_iff:
  "etss_utils_check_contained_in tot off n = Inr u \<longleftrightarrow> unat off + unat n \<le> unat tot"
proof (cases "off > tot")
  case True
  then show ?thesis by (simp add: etss_utils_check_contained_in_def word_less_nat_alt)
next
  case False
  then have le: "unat off \<le> unat tot" by (simp add: word_less_nat_alt)
  then have "unat (tot - off) = unat tot - unat off" by (rule unat_sub_u32)
  with False le show ?thesis
    by (auto simp: etss_utils_check_contained_in_def word_less_nat_alt)
qed

lemma check_contained_in_Inl:
  "etss_utils_check_contained_in tot off n = Inl e \<longleftrightarrow>
   e = PSA_ERROR_INVALID_ARGUMENT \<and> unat tot < unat off + unat n"
  using check_contained_in_Inr_iff [of tot off n "()"]
  by (auto simp: etss_utils_check_contained_in_def split: if_splits)

lemma validate_fid_loop_Inr_iff: "validate_fid_loop bs = Inr u \<longleftrightarrow> (\<exists>b\<in>set bs. b \<noteq> 0)"
  by (induction bs) auto

lemma validate_fid_Inr_iff:
  "length fid = 12 \<Longrightarrow> etss_utils_validate_fid fid = Inr u \<longleftrightarrow> fid \<noteq> replicate 12 0"
  by (auto simp: etss_utils_validate_fid_def ETSS_FILE_ID_SIZE_def validate_fid_loop_Inr_iff
      intro: replicate_eqI dest: replicate_eqI)

lemma minus_one_mask: "(2 ^ k - 1 :: u32) = mask k"
  by (simp add: mask_eq_exp_minus_1)

lemma unat_take_bit: "unat (take_bit k (x :: u32)) = unat x mod 2 ^ k"
  by (subst unsigned_take_bit_eq) (rule take_bit_eq_mod)

lemma unat_mask: "k < 32 \<Longrightarrow> unat (mask k :: u32) = 2 ^ k - 1"
proof -
  assume "k < 32"
  then have "(2 :: nat) ^ k < 2 ^ 32" by (rule power_strict_increasing) simp
  moreover have "(mask k :: u32) = of_nat (2 ^ k - 1)"
    by (simp add: mask_eq_exp_minus_1 of_nat_diff)
  ultimately show ?thesis using unat_of_nat_u32 [of "2 ^ k - 1"] by simp
qed

lemma and_not_mask_unat: "unat ((x :: u32) AND NOT (mask k)) = unat x - unat x mod 2 ^ k"
proof -
  have "x AND NOT (mask k) = push_bit k (drop_bit k x)"
    by (rule bit_word_eqI) (auto simp: bit_simps)
  also have "\<dots> = x - take_bit k x"
    using bits_ident [of k x] by (simp add: eq_diff_eq)
  finally show ?thesis
    by (simp add: unat_sub_u32 unat_take_bit)
qed

lemma IS_ALIGNED_iff_dvd: "ETSS_UTILS_IS_ALIGNED x (2 ^ k) \<longleftrightarrow> 2 ^ k dvd unat x"
proof -
  have "x AND mask k = take_bit k x" by (simp add: take_bit_eq_mask)
  then have "ETSS_UTILS_IS_ALIGNED x (2 ^ k) \<longleftrightarrow> unat (take_bit k x) = 0"
    by (simp add: ETSS_UTILS_IS_ALIGNED_def minus_one_mask unat_0_iff)
  then show ?thesis by (simp add: unat_take_bit dvd_eq_mod_eq_0)
qed

lemma ALIGN_unat:
  assumes "k < 32" and "unat x + (2 ^ k - 1) < 2 ^ 32"
  shows "unat (ETSS_UTILS_ALIGN x (2 ^ k)) = (unat x + (2 ^ k - 1)) div 2 ^ k * 2 ^ k"
proof -
  have "unat (x + mask k) = unat x + (2 ^ k - 1)"
    using assms by (simp add: unat_add_u32 unat_mask)
  then show ?thesis
    using and_not_mask_unat [of "x + mask k" k]
    by (simp add: ETSS_UTILS_ALIGN_def minus_one_mask minus_mod_eq_div_mult)
qed

section \<open>Properties\<close>

text \<open>
  C25. The range check that every request goes through accepts a range exactly when its end,
  computed without the wrap-around of 32-bit arithmetic, lies inside the superset; otherwise it
  gives \<open>PSA_ERROR_INVALID_ARGUMENT\<close>.
\<close>

theorem contained_in_exact:
  "etss_utils_check_contained_in superset_size subset_offset subset_size =
     (if unat subset_offset + unat subset_size \<le> unat superset_size
      then Inr () else Inl PSA_ERROR_INVALID_ARGUMENT)"
proof (cases "unat subset_offset + unat subset_size \<le> unat superset_size")
  case True
  then show ?thesis by (simp add: check_contained_in_Inr_iff)
next
  case False
  then show ?thesis by (simp add: check_contained_in_Inl)
qed

end
