(* ===== verification/Flash_Fs_Types.thy ===== *)
theory Flash_Fs_Types
  imports Etss_Utils
begin

text \<open>
  The data of the flash file system: the configuration and the flash operations of
  \<open>etss_flash_fs.h\<close>, the structures of \<open>etss_flash_fs_mblock.h\<close> that are programmed to flash with
  their byte layout, and the file system context. The structures have the layout of the 32-bit
  target, and \<open>ETSS_FLASH_MAX_ALIGNMENT\<close> is not defined by the sources, so the preprocessor takes
  it as 0: no \<open>roundup\<close> member, and the code guarded by \<open>ETSS_FLASH_MAX_ALIGNMENT != 1\<close> is compiled.
\<close>

section \<open>Configuration and flash operations\<close>

record etss_flash_fs_config_t =
  flash_area_addr :: u32
  sector_size :: u32
  block_size :: u32
  num_blocks :: u16
  program_unit :: u16
  max_file_size :: u16
  max_num_files :: u16
  erase_val :: u8

text \<open>
  The flash device behind the operations is the state type \<open>'d\<close> (what \<open>cfg->flash_dev\<close> points to).
  \<open>ops_read cfg block_id offset size\<close> returns the bytes it puts in the caller's buffer;
  \<open>ops_write cfg block_id buf offset size\<close> programs the first \<open>size\<close> bytes of \<open>buf\<close>.
\<close>

record 'd etss_flash_fs_ops_t =
  ops_init :: "etss_flash_fs_config_t \<Rightarrow> ('d, psa_error, unit) sem"
  ops_read :: "etss_flash_fs_config_t \<Rightarrow> u32 \<Rightarrow> u32 \<Rightarrow> u32 \<Rightarrow> ('d, psa_error, buf) sem"
  ops_write :: "etss_flash_fs_config_t \<Rightarrow> u32 \<Rightarrow> buf \<Rightarrow> u32 \<Rightarrow> u32 \<Rightarrow> ('d, psa_error, unit) sem"
  ops_flush :: "etss_flash_fs_config_t \<Rightarrow> u32 \<Rightarrow> ('d, psa_error, unit) sem"
  ops_erase :: "etss_flash_fs_config_t \<Rightarrow> u32 \<Rightarrow> ('d, psa_error, unit) sem"

section \<open>Structures programmed to flash\<close>

text \<open>\<open>hdr_pad\<close> is the padding byte that completes the header to its 8 bytes.\<close>

record etss_metadata_block_header_t =
  hdr_scratch_dblock :: u32
  hdr_fs_version :: u8
  hdr_metadata_xor :: u8
  hdr_active_swap_count :: u8
  hdr_pad :: u8

record etss_metadata_block_header_comp_t =
  comp_scratch_dblock :: u32
  comp_fs_version :: u8
  comp_active_swap_count :: u8
  comp_pad0 :: u8
  comp_pad1 :: u8

record etss_block_meta_t =
  bm_phy_id :: u32
  bm_data_start :: u32
  bm_free_size :: u32

record etss_file_meta_t =
  fm_lblock :: u32
  fm_data_idx :: u32
  fm_cur_size :: u32
  fm_max_size :: u32
  fm_flags :: u32
  fm_id :: buf

definition ETSS_BLOCK_META_HEADER_SIZE :: u32 where
  "ETSS_BLOCK_META_HEADER_SIZE = 8"

definition ETSS_BLOCK_META_HEADER_COMP_SIZE :: u32 where
  "ETSS_BLOCK_META_HEADER_COMP_SIZE = 8"

definition ETSS_BLOCK_METADATA_SIZE :: u32 where
  "ETSS_BLOCK_METADATA_SIZE = 12"

definition ETSS_FILE_METADATA_SIZE :: u32 where
  "ETSS_FILE_METADATA_SIZE = 32"

definition encode_header :: "etss_metadata_block_header_t \<Rightarrow> buf" where
  "encode_header h = le32 (hdr_scratch_dblock h) @
     [hdr_fs_version h, hdr_metadata_xor h, hdr_active_swap_count h, hdr_pad h]"

definition decode_header :: "buf \<Rightarrow> etss_metadata_block_header_t" where
  "decode_header bs = \<lparr>hdr_scratch_dblock = de32 bs, hdr_fs_version = bs ! 4, hdr_metadata_xor = bs ! 5,
     hdr_active_swap_count = bs ! 6, hdr_pad = bs ! 7\<rparr>"

definition decode_header_comp :: "buf \<Rightarrow> etss_metadata_block_header_comp_t" where
  "decode_header_comp bs = \<lparr>comp_scratch_dblock = de32 bs, comp_fs_version = bs ! 4,
     comp_active_swap_count = bs ! 5, comp_pad0 = bs ! 6, comp_pad1 = bs ! 7\<rparr>"

text \<open>The cast \<^verbatim>\<open>(struct etss_metadata_block_header_comp_t *)h\<close>: the same bytes, read in the old layout.\<close>

definition header_as_comp :: "etss_metadata_block_header_t \<Rightarrow> etss_metadata_block_header_comp_t" where
  "header_as_comp h = decode_header_comp (encode_header h)"

definition encode_block_meta :: "etss_block_meta_t \<Rightarrow> buf" where
  "encode_block_meta b = le32 (bm_phy_id b) @ le32 (bm_data_start b) @ le32 (bm_free_size b)"

definition decode_block_meta :: "buf \<Rightarrow> etss_block_meta_t" where
  "decode_block_meta bs = \<lparr>bm_phy_id = de32 bs, bm_data_start = de32 (drop 4 bs), bm_free_size = de32 (drop 8 bs)\<rparr>"

definition encode_file_meta :: "etss_file_meta_t \<Rightarrow> buf" where
  "encode_file_meta f = le32 (fm_lblock f) @ le32 (fm_data_idx f) @ le32 (fm_cur_size f) @
     le32 (fm_max_size f) @ le32 (fm_flags f) @ fm_id f"

definition decode_file_meta :: "buf \<Rightarrow> etss_file_meta_t" where
  "decode_file_meta bs = \<lparr>fm_lblock = de32 bs, fm_data_idx = de32 (drop 4 bs), fm_cur_size = de32 (drop 8 bs),
     fm_max_size = de32 (drop 12 bs), fm_flags = de32 (drop 16 bs), fm_id = take ETSS_FILE_ID_SIZE (drop 20 bs)\<rparr>"

text \<open>\<^verbatim>\<open>(struct etss_file_meta_t){0}\<close>, the entry of a file that is not in use.\<close>

definition zero_file_meta :: etss_file_meta_t where
  "zero_file_meta = \<lparr>fm_lblock = 0, fm_data_idx = 0, fm_cur_size = 0, fm_max_size = 0, fm_flags = 0,
     fm_id = replicate ETSS_FILE_ID_SIZE 0\<rparr>"

record etss_file_info_t =
  size_current :: u32
  size_max :: u32
  info_flags :: u32

section \<open>The file system context\<close>

record 'd etss_flash_fs_ctx_t =
  ctx_cfg :: etss_flash_fs_config_t
  ctx_ops :: "'d etss_flash_fs_ops_t"
  meta_block_header :: etss_metadata_block_header_t
  active_metablock :: u32
  scratch_metablock :: u32

text \<open>The state of every file system function: the context and the flash device.\<close>

record 'd fs_state = "'d etss_flash_fs_ctx_t" +
  flash :: 'd

type_synonym ('d, 'a) fs_op = "('d fs_state, psa_error, 'a) sem"

text \<open>A call through \<open>fs_ctx->ops\<close>: it sees the configuration and changes the device only.\<close>

definition on_flash :: "('d, psa_error, 'a) sem \<Rightarrow> ('d, 'a) fs_op" where
  "on_flash m = (\<lambda>s. case m (flash s) of (r, d) \<Rightarrow> (r, s\<lparr>flash := d\<rparr>))"

definition flash_init :: "('d, unit) fs_op" where
  "flash_init = (\<lambda>s. on_flash (ops_init (ctx_ops s) (ctx_cfg s)) s)"

definition flash_read :: "u32 \<Rightarrow> u32 \<Rightarrow> u32 \<Rightarrow> ('d, buf) fs_op" where
  "flash_read block_id offset len = (\<lambda>s. on_flash (ops_read (ctx_ops s) (ctx_cfg s) block_id offset len) s)"

definition flash_write :: "u32 \<Rightarrow> buf \<Rightarrow> u32 \<Rightarrow> u32 \<Rightarrow> ('d, unit) fs_op" where
  "flash_write block_id data offset len =
     (\<lambda>s. on_flash (ops_write (ctx_ops s) (ctx_cfg s) block_id data offset len) s)"

definition flash_flush :: "u32 \<Rightarrow> ('d, unit) fs_op" where
  "flash_flush block_id = (\<lambda>s. on_flash (ops_flush (ctx_ops s) (ctx_cfg s) block_id) s)"

definition flash_erase :: "u32 \<Rightarrow> ('d, unit) fs_op" where
  "flash_erase block_id = (\<lambda>s. on_flash (ops_erase (ctx_ops s) (ctx_cfg s) block_id) s)"

lemmas flash_op_defs = flash_init_def flash_read_def flash_write_def flash_flush_def flash_erase_def

section \<open>Lemmas\<close>

lemma wp_on_flash [wp_rules]:
  "wp (on_flash m) Q E s = wp m (\<lambda>a d. Q a (s\<lparr>flash := d\<rparr>)) (\<lambda>e d. E e (s\<lparr>flash := d\<rparr>)) (flash s)"
  by (simp add: wp_def on_flash_def split: prod.splits sum.splits)

lemma length_encode_header [simp]: "length (encode_header h) = 8"
  by (simp add: encode_header_def)

lemma length_encode_block_meta [simp]: "length (encode_block_meta b) = 12"
  by (simp add: encode_block_meta_def)

lemma length_encode_file_meta [simp]: "length (encode_file_meta f) = 20 + length (fm_id f)"
  by (simp add: encode_file_meta_def)

lemma de32_drop_le32 [simp]: "n = 4 \<Longrightarrow> drop n (le32 w @ bs) = bs"
  by simp

lemma decode_encode_header [simp]: "decode_header (encode_header h) = h"
  by (simp add: decode_header_def encode_header_def nth_append)

lemma header_as_comp_simps [simp]:
  "comp_scratch_dblock (header_as_comp h) = hdr_scratch_dblock h"
  "comp_fs_version (header_as_comp h) = hdr_fs_version h"
  "comp_active_swap_count (header_as_comp h) = hdr_metadata_xor h"
  by (simp_all add: header_as_comp_def decode_header_comp_def encode_header_def nth_append)

lemma decode_encode_block_meta [simp]: "decode_block_meta (encode_block_meta b) = b"
  using de32_le32 [of "bm_free_size b" "[]"]
  by (simp add: decode_block_meta_def encode_block_meta_def drop_append)

lemma decode_encode_file_meta [simp]:
  "length (fm_id f) = 12 \<Longrightarrow> decode_file_meta (encode_file_meta f) = f"
  by (simp add: decode_file_meta_def encode_file_meta_def drop_append ETSS_FILE_ID_SIZE_def)

lemma length_file_id_decode [simp]: "length bs = 32 \<Longrightarrow> length (fm_id (decode_file_meta bs)) = 12"
  by (simp add: decode_file_meta_def ETSS_FILE_ID_SIZE_def)

end
