(* ===== verification/Flash_Dev.thy ===== *)
theory Flash_Dev
  imports Flash_Fs_Types
begin

text \<open>
  The contract between the file system and the flash operations it is given
  (\<open>struct etss_flash_fs_ops_t\<close>), as a locale. \<open>mem d b\<close> is the content of block \<open>b\<close>; a read returns
  it, an erase sets every byte to the erase value, and a write stores the data provided that the
  range is erased (a NOR flash cannot set a programmed bit again, so the contract promises nothing
  for a range that is not). When an operation fails it may have spoilt the block it works on, and
  no other. \<open>dok\<close> is the state of a device in use, \<open>pre\<close> the one before it is initialised. The flag \<open>rel\<close> tells whether the device can fail at all: results for \<open>rel = True\<close> are
  about a device without faults, results about errors are for every device.
\<close>

section \<open>Filling a region of a block\<close>

text \<open>Block \<open>b\<close> with the bytes at the positions \<open>R\<close> replaced by those of the image \<open>T\<close>.\<close>

definition fillM :: "(u32 \<Rightarrow> buf) \<Rightarrow> u32 \<Rightarrow> nat set \<Rightarrow> (nat \<Rightarrow> u8) \<Rightarrow> u32 \<Rightarrow> buf" where
  "fillM mm b R T = mm(b := map (\<lambda>p. if p \<in> R then T p else mm b ! p) [0..<length (mm b)])"

lemma length_fillM [simp]: "length (fillM mm b R T b') = length (mm b')"
  by (simp add: fillM_def)

lemma fillM_other [simp]: "b' \<noteq> b \<Longrightarrow> fillM mm b R T b' = mm b'"
  by (simp add: fillM_def)

lemma nth_fillM: "p < length (mm b) \<Longrightarrow> fillM mm b R T b ! p = (if p \<in> R then T p else mm b ! p)"
  by (simp add: fillM_def)

lemma fillM_empty [simp]: "fillM mm b {} T = mm"
  by (rule ext) (simp add: fillM_def map_nth)

lemma fillM_fillM [simp]: "fillM (fillM mm b R T) b R' T = fillM mm b (R \<union> R') T"
  by (rule ext) (auto simp: fillM_def)

lemma bsplice_eq_fill:
  assumes "off + length ys \<le> length xs" and "\<And>i. i < length ys \<Longrightarrow> ys ! i = T (off + i)"
  shows "bsplice off ys xs = map (\<lambda>p. if p \<in> {off..<off + length ys} then T p else xs ! p) [0..<length xs]"
  using assms by (intro nth_equalityI) (auto simp: nth_bsplice)

section \<open>The contract\<close>

locale flash_dev =
  fixes ops :: "'d etss_flash_fs_ops_t"
    and C :: etss_flash_fs_config_t
    and mem :: "'d \<Rightarrow> u32 \<Rightarrow> buf"
    and dok :: "'d \<Rightarrow> bool"
    and pre :: "'d \<Rightarrow> bool"
    and rel :: bool
  assumes mem_length: "dok d \<Longrightarrow> b < ucast (num_blocks C) \<Longrightarrow> length (mem d b) = unat (block_size C)"
    and dok_pre: "rel \<Longrightarrow> dok d \<Longrightarrow> pre d"
    and init_law: "pre d \<Longrightarrow>
      wp (ops_init ops C) (\<lambda>_ d'. dok d' \<and> mem d' = mem d)
         (\<lambda>_ d'. \<not> rel \<and> pre d' \<and> mem d' = mem d) d"
    and read_law: "dok d \<Longrightarrow> b < ucast (num_blocks C) \<Longrightarrow> unat off + unat len \<le> unat (block_size C) \<Longrightarrow>
      wp (ops_read ops C b off len)
         (\<lambda>bs d'. bs = bslice (unat off) (unat len) (mem d b) \<and> dok d' \<and> mem d' = mem d)
         (\<lambda>_ d'. \<not> rel \<and> dok d' \<and> mem d' = mem d) d"
    and write_law: "dok d \<Longrightarrow> b < ucast (num_blocks C) \<Longrightarrow> unat off + unat len \<le> unat (block_size C) \<Longrightarrow>
      unat len \<le> length data \<Longrightarrow>
      bslice (unat off) (unat len) (mem d b) = replicate (unat len) (erase_val C) \<Longrightarrow>
      wp (ops_write ops C b data off len)
         (\<lambda>_ d'. dok d' \<and> mem d' = (mem d)(b := bsplice (unat off) (take (unat len) data) (mem d b)))
         (\<lambda>_ d'. \<not> rel \<and> dok d' \<and> (\<forall>b'. b' \<noteq> b \<longrightarrow> mem d' b' = mem d b')) d"
    and flush_law: "dok d \<Longrightarrow> b < ucast (num_blocks C) \<Longrightarrow>
      wp (ops_flush ops C b) (\<lambda>_ d'. dok d' \<and> mem d' = mem d)
         (\<lambda>_ d'. \<not> rel \<and> dok d' \<and> mem d' = mem d) d"
    and erase_law: "dok d \<Longrightarrow> b < ucast (num_blocks C) \<Longrightarrow>
      wp (ops_erase ops C b)
         (\<lambda>_ d'. dok d' \<and> mem d' = (mem d)(b := replicate (unat (block_size C)) (erase_val C)))
         (\<lambda>_ d'. \<not> rel \<and> dok d' \<and> (\<forall>b'. b' \<noteq> b \<longrightarrow> mem d' b' = mem d b')) d"
begin

text \<open>The state the operations of a mounted file system run in.\<close>

definition sok :: "'d fs_state \<Rightarrow> bool" where
  "sok s \<longleftrightarrow> ctx_ops s = ops \<and> ctx_cfg s = C \<and> dok (flash s)"

abbreviation mm :: "'d fs_state \<Rightarrow> u32 \<Rightarrow> buf" where
  "mm s \<equiv> mem (flash s)"

lemma sokD [simp]: "sok s \<Longrightarrow> ctx_ops s = ops" "sok s \<Longrightarrow> ctx_cfg s = C" "sok s \<Longrightarrow> dok (flash s)"
  by (simp_all add: sok_def)

lemma sok_upd [simp]:
  "sok s \<Longrightarrow> dok d \<Longrightarrow> sok (s\<lparr>flash := d\<rparr>)"
  "sok (s\<lparr>meta_block_header := h\<rparr>) = sok s"
  "sok (s\<lparr>active_metablock := a\<rparr>) = sok s"
  "sok (s\<lparr>scratch_metablock := a\<rparr>) = sok s"
  by (simp_all add: sok_def del: sokD)

lemma mm_length: "sok s \<Longrightarrow> b < ucast (num_blocks C) \<Longrightarrow> length (mm s b) = unat (block_size C)"
  by (simp add: mem_length)

text \<open>The state before the device is initialised.\<close>

definition boot :: "'d fs_state \<Rightarrow> bool" where
  "boot s \<longleftrightarrow> ctx_ops s = ops \<and> ctx_cfg s = C \<and> pre (flash s)"

lemma sok_boot: "rel \<Longrightarrow> sok s \<Longrightarrow> boot s"
  by (simp add: boot_def dok_pre)

lemma flash_init_wp:
  assumes "boot s"
    and "\<And>d'. dok d' \<Longrightarrow> mem d' = mm s \<Longrightarrow> Q () (s\<lparr>flash := d'\<rparr>)"
    and "\<And>e d'. \<not> rel \<Longrightarrow> pre d' \<Longrightarrow> mem d' = mm s \<Longrightarrow> E e (s\<lparr>flash := d'\<rparr>)"
  shows "wp flash_init Q E s"
proof -
  have "wp (on_flash (ops_init ops C)) Q E s"
    unfolding wp_on_flash
    by (rule wp_mono [OF init_law]) (use assms in \<open>auto simp: boot_def\<close>)
  then show ?thesis using assms(1) by (simp add: flash_init_def boot_def wp_def)
qed

lemma flash_read_wp:
  assumes "sok s" and "b < ucast (num_blocks C)" and "unat off + unat len \<le> unat (block_size C)"
    and "\<And>d'. dok d' \<Longrightarrow> mem d' = mm s \<Longrightarrow> Q (bslice (unat off) (unat len) (mm s b)) (s\<lparr>flash := d'\<rparr>)"
    and "\<And>e d'. \<not> rel \<Longrightarrow> dok d' \<Longrightarrow> mem d' = mm s \<Longrightarrow> E e (s\<lparr>flash := d'\<rparr>)"
  shows "wp (flash_read b off len) Q E s"
proof -
  have "wp (on_flash (ops_read ops C b off len)) Q E s"
    unfolding wp_on_flash
    by (rule wp_mono [OF read_law]) (use assms in auto)
  then show ?thesis using assms(1) by (simp add: flash_read_def wp_def)
qed

lemma flash_flush_wp:
  assumes "sok s" and "b < ucast (num_blocks C)"
    and "\<And>d'. dok d' \<Longrightarrow> mem d' = mm s \<Longrightarrow> Q () (s\<lparr>flash := d'\<rparr>)"
    and "\<And>e d'. \<not> rel \<Longrightarrow> dok d' \<Longrightarrow> mem d' = mm s \<Longrightarrow> E e (s\<lparr>flash := d'\<rparr>)"
  shows "wp (flash_flush b) Q E s"
proof -
  have "wp (on_flash (ops_flush ops C b)) Q E s"
    unfolding wp_on_flash
    by (rule wp_mono [OF flush_law]) (use assms in auto)
  then show ?thesis using assms(1) by (simp add: flash_flush_def wp_def)
qed

lemma flash_erase_wp:
  assumes "sok s" and "b < ucast (num_blocks C)"
    and "\<And>d'. dok d' \<Longrightarrow> mem d' = (mm s)(b := replicate (unat (block_size C)) (erase_val C)) \<Longrightarrow>
      Q () (s\<lparr>flash := d'\<rparr>)"
    and "\<And>e d'. \<not> rel \<Longrightarrow> dok d' \<Longrightarrow> (\<And>b'. b' \<noteq> b \<Longrightarrow> mem d' b' = mm s b') \<Longrightarrow> E e (s\<lparr>flash := d'\<rparr>)"
  shows "wp (flash_erase b) Q E s"
proof -
  have "wp (on_flash (ops_erase ops C b)) Q E s"
    unfolding wp_on_flash
    by (rule wp_mono [OF erase_law]) (use assms in auto)
  then show ?thesis using assms(1) by (simp add: flash_erase_def wp_def)
qed

text \<open>A write seen as filling an erased region of a block with a part of an image \<open>T\<close>.\<close>

lemma flash_write_wp:
  assumes s: "sok s" and b: "b < ucast (num_blocks C)"
    and fits: "unat off + unat len \<le> unat (block_size C)"
    and len: "unat len \<le> length data"
    and er: "\<And>p. unat off \<le> p \<Longrightarrow> p < unat off + unat len \<Longrightarrow> mm s b ! p = erase_val C"
    and T: "\<And>i. i < unat len \<Longrightarrow> data ! i = T (unat off + i)"
    and Q: "\<And>d'. dok d' \<Longrightarrow> mem d' = fillM (mm s) b {unat off..<unat off + unat len} T \<Longrightarrow>
      Q () (s\<lparr>flash := d'\<rparr>)"
    and E: "\<And>e d'. \<not> rel \<Longrightarrow> dok d' \<Longrightarrow> (\<And>b'. b' \<noteq> b \<Longrightarrow> mem d' b' = mm s b') \<Longrightarrow> E e (s\<lparr>flash := d'\<rparr>)"
  shows "wp (flash_write b data off len) Q E s"
proof -
  have L: "length (mm s b) = unat (block_size C)" using s b by (rule mm_length)
  have er': "bslice (unat off) (unat len) (mm s b) = replicate (unat len) (erase_val C)"
    using fits L er by (subst slice_eq_iff) auto
  have fill: "(mm s)(b := bsplice (unat off) (take (unat len) data) (mm s b)) =
      fillM (mm s) b {unat off..<unat off + unat len} T"
  proof -
    have "bsplice (unat off) (take (unat len) data) (mm s b) =
        map (\<lambda>p. if p \<in> {unat off..<unat off + length (take (unat len) data)} then T p else mm s b ! p)
          [0..<length (mm s b)]"
      by (rule bsplice_eq_fill) (use fits L len T in auto)
    then show ?thesis using len by (simp add: fillM_def min_def)
  qed
  have "wp (on_flash (ops_write ops C b data off len)) Q E s"
    unfolding wp_on_flash
    by (rule wp_mono [OF write_law [OF _ b fits len er']])
      (use s Q E fill in auto)
  then show ?thesis using s by (simp add: flash_write_def wp_def)
qed

section \<open>Operations that only read\<close>

text \<open>
  \<open>reads m s r\<close>: from \<open>s\<close>, \<open>m\<close> leaves the context and the flash content alone and gives \<open>r\<close>, unless
  the device fails.
\<close>

definition reads :: "('d, 'a) fs_op \<Rightarrow> 'd fs_state \<Rightarrow> psa_error + 'a \<Rightarrow> bool" where
  "reads m s r \<longleftrightarrow>
     wp m (\<lambda>a s'. r = Inr a \<and> (\<exists>d'. s' = s\<lparr>flash := d'\<rparr> \<and> dok d' \<and> mem d' = mm s))
          (\<lambda>e s'. (r = Inl e \<or> \<not> rel) \<and> (\<exists>d'. s' = s\<lparr>flash := d'\<rparr> \<and> dok d' \<and> mem d' = mm s)) s"

lemma reads_wp:
  assumes "reads m s r"
    and "\<And>a d'. r = Inr a \<Longrightarrow> dok d' \<Longrightarrow> mem d' = mm s \<Longrightarrow> Q a (s\<lparr>flash := d'\<rparr>)"
    and "\<And>e d'. r = Inl e \<or> \<not> rel \<Longrightarrow> dok d' \<Longrightarrow> mem d' = mm s \<Longrightarrow> E e (s\<lparr>flash := d'\<rparr>)"
  shows "wp m Q E s"
  using assms(1) unfolding reads_def
  by (rule wp_mono) (use assms(2,3) in auto)

lemma reads_bindE:
  assumes "reads m s r"
    and "\<And>a d'. r = Inr a \<Longrightarrow> dok d' \<Longrightarrow> mem d' = mm s \<Longrightarrow> reads (f a) (s\<lparr>flash := d'\<rparr>) r'"
    and "\<And>e. r = Inl e \<Longrightarrow> r' = Inl e"
  shows "reads (bindE m f) s r'"
  unfolding reads_def wp_bindE
proof (rule reads_wp [OF assms(1)])
  fix a d' assume a: "r = Inr a" "dok d'" "mem d' = mm s"
  show "wp (f a) (\<lambda>a s'. r' = Inr a \<and> (\<exists>d'. s' = s\<lparr>flash := d'\<rparr> \<and> dok d' \<and> mem d' = mm s))
          (\<lambda>e s'. (r' = Inl e \<or> \<not> rel) \<and> (\<exists>d'. s' = s\<lparr>flash := d'\<rparr> \<and> dok d' \<and> mem d' = mm s))
          (s\<lparr>flash := d'\<rparr>)"
    by (rule reads_wp [OF assms(2) [OF a]]) (use a in auto)
qed (use assms(3) in auto)

lemma reads_returnE: "sok s \<Longrightarrow> r = Inr a \<Longrightarrow> reads (returnE a) s r"
  by (auto simp: reads_def intro!: exI [of _ "flash s"])

lemma reads_throwE: "sok s \<Longrightarrow> r = Inl e \<Longrightarrow> reads (throwE e) s r"
  by (auto simp: reads_def intro!: exI [of _ "flash s"])

lemma reads_liftE: "sok s \<Longrightarrow> reads (liftE r) s r"
  by (auto simp: reads_def split: sum.splits intro!: exI [of _ "flash s"])

lemma reads_withS: "reads (f s) s r \<Longrightarrow> reads (withS f) s r"
  by (simp add: reads_def)

lemma reads_orError:
  assumes "reads m s r" and "r' = (case r of Inl _ \<Rightarrow> Inl e | Inr a \<Rightarrow> Inr a)"
  shows "reads (orError m e) s r'"
  unfolding reads_def wp_orError
  by (rule reads_wp [OF assms(1)]) (use assms(2) in auto)

lemma reads_flash_read:
  assumes "sok s" and "b < ucast (num_blocks C)" and "unat off + unat len \<le> unat (block_size C)"
    and "r = Inr (bslice (unat off) (unat len) (mm s b))"
  shows "reads (flash_read b off len) s r"
  unfolding reads_def
  by (rule flash_read_wp [OF assms(1-3)]) (use assms(4) in auto)

end

end
