(* ===== verification/Flash_Fs_Mblock.thy ===== *)
theory Flash_Fs_Mblock
  imports Flash_Fs_Types
begin

text \<open>
  The metadata block layer, \<open>etss_flash_fs_mblock.c\<close>: where the metadata lies in a block, the
  validation of what is read from flash, the choice of the active metadata block at start-up, the
  update of the scratch metadata block and the swap that commits it. The configuration
  \<open>ETSS_VALIDATE_METADATA_FROM_FLASH\<close> is on, as \<open>etss_config.cmake\<close> sets it. Functions that C passes
  the context only for its configuration take the configuration; the others run on the state.
\<close>

section \<open>Constants and layout\<close>

definition ETSS_MAX_BLOCK_DATA_COPY :: u32 where
  "ETSS_MAX_BLOCK_DATA_COPY = 256"

definition ETSS_SUPPORTED_VERSION :: u8 where
  "ETSS_SUPPORTED_VERSION = 2"

definition ETSS_BACKWARD_SUPPORTED_VERSION :: u8 where
  "ETSS_BACKWARD_SUPPORTED_VERSION = 1"

definition ETSS_METADATA_INVALID_INDEX :: u32 where
  "ETSS_METADATA_INVALID_INDEX = 0xFFFF"

definition ETSS_LOGICAL_DBLOCK0 :: u32 where
  "ETSS_LOGICAL_DBLOCK0 = 0"

definition ETSS_BLOCK_INVALID_ID :: u32 where
  "ETSS_BLOCK_INVALID_ID = 0xFFFFFFFF"

definition ETSS_METADATA_BLOCK0 :: u32 where
  "ETSS_METADATA_BLOCK0 = 0"

definition ETSS_METADATA_BLOCK1 :: u32 where
  "ETSS_METADATA_BLOCK1 = 1"

definition ETSS_OTHER_META_BLOCK :: "u32 \<Rightarrow> u32" where
  "ETSS_OTHER_META_BLOCK metablock =
     (if metablock = ETSS_METADATA_BLOCK0 then ETSS_METADATA_BLOCK1 else ETSS_METADATA_BLOCK0)"

lemmas mblock_consts = ETSS_LOGICAL_DBLOCK0_def ETSS_METADATA_BLOCK0_def ETSS_METADATA_BLOCK1_def
  ETSS_BLOCK_META_HEADER_SIZE_def ETSS_BLOCK_META_HEADER_COMP_SIZE_def ETSS_BLOCK_METADATA_SIZE_def
  ETSS_FILE_METADATA_SIZE_def ETSS_SUPPORTED_VERSION_def ETSS_BACKWARD_SUPPORTED_VERSION_def

definition etss_init_scratch_dblock :: "etss_flash_fs_config_t \<Rightarrow> u32" where
  "etss_init_scratch_dblock cfg = (if num_blocks cfg = 2 then 1 else 2)"

definition etss_init_dblock_start :: "etss_flash_fs_config_t \<Rightarrow> u32" where
  "etss_init_dblock_start cfg = (if num_blocks cfg = 2 then 0 else 3)"

definition etss_num_dedicated_dblocks :: "etss_flash_fs_config_t \<Rightarrow> u32" where
  "etss_num_dedicated_dblocks cfg =
     (if num_blocks cfg = 2 then 0 else ucast (num_blocks cfg) - etss_init_dblock_start cfg)"

definition etss_num_active_dblocks :: "etss_flash_fs_config_t \<Rightarrow> u32" where
  "etss_num_active_dblocks cfg = etss_num_dedicated_dblocks cfg + 1"

definition etss_mblock_block_meta_offset :: "u32 \<Rightarrow> u32" where
  "etss_mblock_block_meta_offset lblock =
     ETSS_BLOCK_META_HEADER_SIZE + lblock * ETSS_BLOCK_METADATA_SIZE"

definition etss_mblock_file_meta_offset :: "etss_flash_fs_config_t \<Rightarrow> u32 \<Rightarrow> u32" where
  "etss_mblock_file_meta_offset cfg idx =
     ETSS_BLOCK_META_HEADER_SIZE + etss_num_active_dblocks cfg * ETSS_BLOCK_METADATA_SIZE
     + idx * ETSS_FILE_METADATA_SIZE"

section \<open>Validation of metadata\<close>

definition etss_mblock_latest_meta_block ::
  "etss_flash_fs_config_t \<Rightarrow> etss_metadata_block_header_t \<Rightarrow> etss_metadata_block_header_t \<Rightarrow> u32" where
  "etss_mblock_latest_meta_block cfg h_meta0 h_meta1 =
     (let meta0_swap_count = hdr_active_swap_count h_meta0;
          meta1_swap_count = hdr_active_swap_count h_meta1;
          rollover_val = (if erase_val cfg = 0 then 1 else 0)
      in if meta1_swap_count = rollover_val \<and> meta0_swap_count \<noteq> rollover_val + 1
           then ETSS_METADATA_BLOCK1
         else if meta0_swap_count = rollover_val \<and> meta1_swap_count \<noteq> rollover_val + 1
           then ETSS_METADATA_BLOCK0
         else if meta1_swap_count > meta0_swap_count then ETSS_METADATA_BLOCK1
         else ETSS_METADATA_BLOCK0)"

definition etss_mblock_validate_file_meta ::
  "etss_flash_fs_config_t \<Rightarrow> etss_file_meta_t \<Rightarrow> psa_error + unit" where
  "etss_mblock_validate_file_meta cfg file_meta =
     (if fm_lblock file_meta \<ge> etss_num_active_dblocks cfg then Inl PSA_ERROR_DATA_CORRUPT
      else if etss_utils_validate_fid (fm_id file_meta) = Inr () then
        (if fm_max_size file_meta > ucast (max_file_size cfg) then Inl PSA_ERROR_DATA_CORRUPT
         else if fm_cur_size file_meta > fm_max_size file_meta then Inl PSA_ERROR_DATA_CORRUPT
         else if fm_lblock file_meta = ETSS_LOGICAL_DBLOCK0 \<and>
                 fm_data_idx file_meta < etss_mblock_file_meta_offset cfg (ucast (max_num_files cfg))
           then Inl PSA_ERROR_DATA_CORRUPT
         else if etss_utils_check_contained_in (block_size cfg) (fm_data_idx file_meta)
                   (fm_max_size file_meta) \<noteq> Inr ()
           then Inl PSA_ERROR_DATA_CORRUPT
         else Inr ())
      else Inr ())"

definition etss_mblock_validate_block_meta ::
  "etss_flash_fs_config_t \<Rightarrow> etss_block_meta_t \<Rightarrow> psa_error + unit" where
  "etss_mblock_validate_block_meta cfg block_meta =
     (if bm_phy_id block_meta \<ge> ucast (num_blocks cfg) then Inl PSA_ERROR_DATA_CORRUPT
      else if etss_utils_check_contained_in (block_size cfg) (bm_data_start block_meta)
                (bm_free_size block_meta) \<noteq> Inr ()
        then Inl PSA_ERROR_DATA_CORRUPT
      else
        (let valid_data_start_value =
               (if bm_phy_id block_meta = ETSS_METADATA_BLOCK0 \<or> bm_phy_id block_meta = ETSS_METADATA_BLOCK1
                then etss_mblock_file_meta_offset cfg (ucast (max_num_files cfg)) else 0)
         in if bm_data_start block_meta \<noteq> valid_data_start_value then Inl PSA_ERROR_DATA_CORRUPT
            else Inr ()))"

definition etss_mblock_validate_block_meta_comp ::
  "etss_flash_fs_config_t \<Rightarrow> etss_block_meta_t \<Rightarrow> psa_error + unit" where
  "etss_mblock_validate_block_meta_comp cfg block_meta =
     (if bm_phy_id block_meta \<ge> ucast (num_blocks cfg) then Inl PSA_ERROR_DATA_CORRUPT
      else if etss_utils_check_contained_in (block_size cfg) (bm_data_start block_meta)
                (bm_free_size block_meta) \<noteq> Inr ()
        then Inl PSA_ERROR_DATA_CORRUPT
      else
        (let valid_data_start_value =
               (if bm_phy_id block_meta = ETSS_METADATA_BLOCK0 \<or> bm_phy_id block_meta = ETSS_METADATA_BLOCK1
                then ETSS_BLOCK_META_HEADER_COMP_SIZE
                     + etss_num_active_dblocks cfg * ETSS_BLOCK_METADATA_SIZE
                     + ucast (max_num_files cfg) * ETSS_FILE_METADATA_SIZE
                else 0)
         in if bm_data_start block_meta \<noteq> valid_data_start_value then Inl PSA_ERROR_DATA_CORRUPT
            else Inr ()))"

definition etss_mblock_validate_swap_count :: "etss_flash_fs_config_t \<Rightarrow> u8 \<Rightarrow> psa_error + unit" where
  "etss_mblock_validate_swap_count cfg swap_count =
     (if swap_count = erase_val cfg then Inl PSA_ERROR_GENERIC_ERROR else Inr ())"

text \<open>The result is the out-parameter \<open>backward_comp\<close>.\<close>

definition etss_mblock_validate_fs_version :: "u8 \<Rightarrow> psa_error + bool" where
  "etss_mblock_validate_fs_version version =
     (if version = ETSS_BACKWARD_SUPPORTED_VERSION then Inr True
      else if version = ETSS_SUPPORTED_VERSION then Inr False
      else Inl PSA_ERROR_GENERIC_ERROR)"

fun xor_block_metas :: "u32 \<Rightarrow> u32 list \<Rightarrow> u8 \<Rightarrow> ('d, u8) fs_op" where
  "xor_block_metas block_id [] x = returnE x"
| "xor_block_metas block_id (i # is) x =
     bindE (flash_read block_id (etss_mblock_block_meta_offset i) ETSS_BLOCK_METADATA_SIZE) (\<lambda>metadata.
     xor_block_metas block_id is (foldl (\<lambda>v b. v XOR b) x metadata))"

fun xor_file_metas :: "etss_flash_fs_config_t \<Rightarrow> u32 \<Rightarrow> u32 list \<Rightarrow> u8 \<Rightarrow> ('d, u8) fs_op" where
  "xor_file_metas cfg block_id [] x = returnE x"
| "xor_file_metas cfg block_id (i # is) x =
     bindE (flash_read block_id (etss_mblock_file_meta_offset cfg i) ETSS_FILE_METADATA_SIZE) (\<lambda>metadata.
     xor_file_metas cfg block_id is (foldl (\<lambda>v b. v XOR b) x metadata))"

definition etss_mblock_calculate_metadata_xor :: "u32 \<Rightarrow> ('d, u8) fs_op" where
  "etss_mblock_calculate_metadata_xor block_id =
     (if block_id \<noteq> ETSS_METADATA_BLOCK0 \<and> block_id \<noteq> ETSS_METADATA_BLOCK1
      then throwE PSA_ERROR_INVALID_ARGUMENT
      else withS (\<lambda>s.
        bindE (xor_block_metas block_id (u32_upto (etss_num_active_dblocks (ctx_cfg s))) 0) (\<lambda>x.
        xor_file_metas (ctx_cfg s) block_id (u32_upto (ucast (max_num_files (ctx_cfg s)))) x)))"

definition etss_mblock_validate_metadata_xor ::
  "etss_metadata_block_header_t \<Rightarrow> u32 \<Rightarrow> ('d, unit) fs_op" where
  "etss_mblock_validate_metadata_xor h_meta block_id =
     bindE (etss_mblock_calculate_metadata_xor block_id) (\<lambda>xor_value.
     if xor_value \<noteq> hdr_metadata_xor h_meta then throwE PSA_ERROR_STORAGE_FAILURE else returnE ())"

definition etss_mblock_validate_header_meta ::
  "etss_metadata_block_header_t \<Rightarrow> u32 \<Rightarrow> ('d, unit) fs_op" where
  "etss_mblock_validate_header_meta h_meta block_id =
     bindE (liftE (etss_mblock_validate_fs_version (hdr_fs_version h_meta))) (\<lambda>backward_compatible.
     if backward_compatible then
       withS (\<lambda>s. liftE (etss_mblock_validate_swap_count (ctx_cfg s)
         (comp_active_swap_count (header_as_comp h_meta))))
     else
       bindE (withS (\<lambda>s. liftE (etss_mblock_validate_swap_count (ctx_cfg s)
         (hdr_active_swap_count h_meta)))) (\<lambda>_.
       etss_mblock_validate_metadata_xor h_meta block_id))"

section \<open>Reading metadata\<close>

definition etss_flash_fs_mblock_read_file_meta :: "u32 \<Rightarrow> ('d, etss_file_meta_t) fs_op" where
  "etss_flash_fs_mblock_read_file_meta idx = withS (\<lambda>s.
     bindE (flash_read (active_metablock s) (etss_mblock_file_meta_offset (ctx_cfg s) idx)
       ETSS_FILE_METADATA_SIZE) (\<lambda>bs.
     bindE (liftE (etss_mblock_validate_file_meta (ctx_cfg s) (decode_file_meta bs))) (\<lambda>_.
     returnE (decode_file_meta bs))))"

definition etss_flash_fs_mblock_read_block_metadata :: "u32 \<Rightarrow> ('d, etss_block_meta_t) fs_op" where
  "etss_flash_fs_mblock_read_block_metadata lblock = withS (\<lambda>s.
     bindE (flash_read (active_metablock s) (etss_mblock_block_meta_offset lblock)
       ETSS_BLOCK_METADATA_SIZE) (\<lambda>bs.
     bindE (liftE (etss_mblock_validate_block_meta (ctx_cfg s) (decode_block_meta bs))) (\<lambda>_.
     returnE (decode_block_meta bs))))"

definition etss_flash_fs_mblock_read_block_metadata_comp :: "u32 \<Rightarrow> ('d, etss_block_meta_t) fs_op" where
  "etss_flash_fs_mblock_read_block_metadata_comp lblock = withS (\<lambda>s.
     bindE (flash_read (active_metablock s)
       (ETSS_BLOCK_META_HEADER_COMP_SIZE + lblock * ETSS_BLOCK_METADATA_SIZE)
       ETSS_BLOCK_METADATA_SIZE) (\<lambda>bs.
     bindE (liftE (etss_mblock_validate_block_meta_comp (ctx_cfg s) (decode_block_meta bs))) (\<lambda>_.
     returnE (decode_block_meta bs))))"

fun get_file_idx_loop :: "buf \<Rightarrow> u32 list \<Rightarrow> ('d, u32) fs_op" where
  "get_file_idx_loop fid [] = throwE PSA_ERROR_DOES_NOT_EXIST"
| "get_file_idx_loop fid (i # is) =
     bindE (orError (etss_flash_fs_mblock_read_file_meta i) PSA_ERROR_GENERIC_ERROR) (\<lambda>tmp_metadata.
     if fm_id tmp_metadata = fid then returnE i else get_file_idx_loop fid is)"

definition etss_flash_fs_mblock_get_file_idx :: "buf \<Rightarrow> ('d, u32) fs_op" where
  "etss_flash_fs_mblock_get_file_idx fid =
     withS (\<lambda>s. get_file_idx_loop fid (u32_upto (ucast (max_num_files (ctx_cfg s)))))"

fun get_file_idx_flag_loop :: "u32 \<Rightarrow> u32 list \<Rightarrow> ('d, u32) fs_op" where
  "get_file_idx_flag_loop wanted [] = throwE PSA_ERROR_DOES_NOT_EXIST"
| "get_file_idx_flag_loop wanted (i # is) =
     bindE (orError (etss_flash_fs_mblock_read_file_meta i) PSA_ERROR_GENERIC_ERROR) (\<lambda>tmp_metadata.
     if fm_flags tmp_metadata AND wanted \<noteq> 0 then returnE i else get_file_idx_flag_loop wanted is)"

definition etss_flash_fs_mblock_get_file_idx_flag :: "u32 \<Rightarrow> ('d, u32) fs_op" where
  "etss_flash_fs_mblock_get_file_idx_flag wanted =
     withS (\<lambda>s. get_file_idx_flag_loop wanted (u32_upto (ucast (max_num_files (ctx_cfg s)))))"

fun get_free_file_index_loop :: "bool \<Rightarrow> u32 list \<Rightarrow> ('d, u32) fs_op" where
  "get_free_file_index_loop use_spare [] = returnE ETSS_METADATA_INVALID_INDEX"
| "get_free_file_index_loop use_spare (i # is) =
     tryE (etss_flash_fs_mblock_read_file_meta i) (\<lambda>r. case r of
       Inl _ \<Rightarrow> returnE ETSS_METADATA_INVALID_INDEX
     | Inr tmp_metadata \<Rightarrow>
         if etss_utils_validate_fid (fm_id tmp_metadata) \<noteq> Inr () then
           (if \<not> use_spare then get_free_file_index_loop True is else returnE i)
         else get_free_file_index_loop use_spare is)"

definition etss_get_free_file_index :: "bool \<Rightarrow> ('d, u32) fs_op" where
  "etss_get_free_file_index use_spare =
     withS (\<lambda>s. get_free_file_index_loop use_spare (u32_upto (ucast (max_num_files (ctx_cfg s)))))"

definition etss_flash_fs_mblock_cur_data_scratch_id :: "'d fs_state \<Rightarrow> u32 \<Rightarrow> u32" where
  "etss_flash_fs_mblock_cur_data_scratch_id s lblock =
     (if lblock = ETSS_LOGICAL_DBLOCK0 then scratch_metablock s
      else hdr_scratch_dblock (meta_block_header s))"

section \<open>Copying between blocks\<close>

lemma move_chunk_bounds:
  "0 < (len :: u32) \<Longrightarrow> 0 < unat (ETSS_UTILS_MIN len ETSS_MAX_BLOCK_DATA_COPY) \<and>
   unat (ETSS_UTILS_MIN len ETSS_MAX_BLOCK_DATA_COPY) \<le> unat len"
  by (auto simp: ETSS_UTILS_MIN_eq ETSS_MAX_BLOCK_DATA_COPY_def word_less_nat_alt)

lemma move_rest_unat:
  "unat (len - ETSS_UTILS_MIN len ETSS_MAX_BLOCK_DATA_COPY) =
   unat len - unat (ETSS_UTILS_MIN len ETSS_MAX_BLOCK_DATA_COPY)"
  by (simp add: unat_sub_u32 ETSS_UTILS_MIN_eq)

text \<open>
  \<open>while (size > 0)\<close>: at most 256 bytes are read into the local buffer and programmed into the
  destination at a time.
\<close>

function etss_flash_fs_block_to_block_move ::
  "u32 \<Rightarrow> u32 \<Rightarrow> u32 \<Rightarrow> u32 \<Rightarrow> u32 \<Rightarrow> ('d, unit) fs_op" where
  "etss_flash_fs_block_to_block_move dst_block dst_offset src_block src_offset len =
     (if len > 0 then
        (let bytes_to_move = ETSS_UTILS_MIN len ETSS_MAX_BLOCK_DATA_COPY in
         bindE (flash_read src_block src_offset bytes_to_move) (\<lambda>dst_block_data_copy.
         bindE (flash_write dst_block dst_block_data_copy dst_offset bytes_to_move) (\<lambda>_.
         etss_flash_fs_block_to_block_move dst_block (dst_offset + bytes_to_move)
           src_block (src_offset + bytes_to_move) (len - bytes_to_move))))
      else returnE ())"
  by pat_completeness auto

termination etss_flash_fs_block_to_block_move
  by (relation "measure (\<lambda>(d, d', s, s', len). unat len)")
    (auto simp: move_rest_unat dest: move_chunk_bounds)

declare etss_flash_fs_block_to_block_move.simps [simp del]

section \<open>Updating the scratch metadata block\<close>

definition etss_mblock_swap_metablocks :: "('d, unit) fs_op" where
  "etss_mblock_swap_metablocks =
     modifyS (\<lambda>s. s\<lparr>scratch_metablock := active_metablock s, active_metablock := scratch_metablock s\<rparr>)"

definition etss_mblock_erase_scratch_blocks :: "('d, unit) fs_op" where
  "etss_mblock_erase_scratch_blocks =
     bindE (withS (\<lambda>s. flash_erase (scratch_metablock s))) (\<lambda>_.
     withS (\<lambda>s. if num_blocks (ctx_cfg s) > 2
       then flash_erase (etss_flash_fs_mblock_cur_data_scratch_id s (ETSS_LOGICAL_DBLOCK0 + 1))
       else returnE ()))"

definition etss_mblock_update_scratch_block_meta :: "u32 \<Rightarrow> etss_block_meta_t \<Rightarrow> ('d, unit) fs_op" where
  "etss_mblock_update_scratch_block_meta lblock block_meta =
     withS (\<lambda>s. flash_write (scratch_metablock s) (encode_block_meta block_meta)
       (etss_mblock_block_meta_offset lblock) ETSS_BLOCK_METADATA_SIZE)"

definition etss_mblock_copy_remaining_block_meta :: "u32 \<Rightarrow> ('d, unit) fs_op" where
  "etss_mblock_copy_remaining_block_meta lblock = withS (\<lambda>s.
     let scratch_block = scratch_metablock s; meta_block = active_metablock s in
     bindE
       (if lblock \<noteq> ETSS_LOGICAL_DBLOCK0 then
          bindE (orError (etss_flash_fs_mblock_read_block_metadata ETSS_LOGICAL_DBLOCK0)
            PSA_ERROR_GENERIC_ERROR) (\<lambda>block_meta.
          bindE (orError (etss_mblock_update_scratch_block_meta ETSS_LOGICAL_DBLOCK0
            (block_meta\<lparr>bm_phy_id := scratch_block\<rparr>)) PSA_ERROR_GENERIC_ERROR) (\<lambda>_.
          if lblock > 1 then
            (let pos = etss_mblock_block_meta_offset (ETSS_LOGICAL_DBLOCK0 + 1);
                 len = etss_mblock_block_meta_offset lblock - pos
             in etss_flash_fs_block_to_block_move scratch_block pos meta_block pos len)
          else returnE ()))
        else returnE ()) (\<lambda>_.
     let pos = etss_mblock_block_meta_offset (lblock + 1);
         len = etss_mblock_file_meta_offset (ctx_cfg s) 0 - pos
     in etss_flash_fs_block_to_block_move scratch_block pos meta_block pos len))"

definition etss_flash_fs_mblock_update_scratch_block_meta ::
  "u32 \<Rightarrow> etss_block_meta_t \<Rightarrow> ('d, unit) fs_op" where
  "etss_flash_fs_mblock_update_scratch_block_meta lblock block_meta = withS (\<lambda>s.
     let block_meta' = (if lblock = ETSS_LOGICAL_DBLOCK0
                        then block_meta\<lparr>bm_phy_id := scratch_metablock s\<rparr> else block_meta) in
     bindE (orError (etss_mblock_update_scratch_block_meta lblock block_meta')
       PSA_ERROR_GENERIC_ERROR) (\<lambda>_.
     etss_mblock_copy_remaining_block_meta lblock))"

definition etss_flash_fs_mblock_update_scratch_file_meta ::
  "u32 \<Rightarrow> etss_file_meta_t \<Rightarrow> ('d, unit) fs_op" where
  "etss_flash_fs_mblock_update_scratch_file_meta idx file_meta =
     withS (\<lambda>s. flash_write (scratch_metablock s) (encode_file_meta file_meta)
       (etss_mblock_file_meta_offset (ctx_cfg s) idx) ETSS_FILE_METADATA_SIZE)"

definition etss_flash_fs_mblock_cp_file_meta :: "u32 \<Rightarrow> u32 \<Rightarrow> ('d, unit) fs_op" where
  "etss_flash_fs_mblock_cp_file_meta idx_start idx_end = withS (\<lambda>s.
     let pos_start = etss_mblock_file_meta_offset (ctx_cfg s) idx_start;
         pos_end = etss_mblock_file_meta_offset (ctx_cfg s) idx_end
     in etss_flash_fs_block_to_block_move (scratch_metablock s) pos_start
          (active_metablock s) pos_start (pos_end - pos_start))"

definition etss_flash_fs_mblock_migrate_lb0_data_to_scratch :: "('d, unit) fs_op" where
  "etss_flash_fs_mblock_migrate_lb0_data_to_scratch =
     bindE (etss_flash_fs_mblock_read_block_metadata ETSS_LOGICAL_DBLOCK0) (\<lambda>block_meta.
     withS (\<lambda>s.
       let data_size = (block_size (ctx_cfg s) - bm_data_start block_meta) - bm_free_size block_meta
       in etss_flash_fs_block_to_block_move (scratch_metablock s) (bm_data_start block_meta)
            (active_metablock s) (bm_data_start block_meta) data_size))"

definition etss_flash_fs_mblock_set_data_scratch :: "u32 \<Rightarrow> u32 \<Rightarrow> ('d, unit) fs_op" where
  "etss_flash_fs_mblock_set_data_scratch phy lblock =
     (if lblock \<noteq> ETSS_LOGICAL_DBLOCK0
      then modifyS (\<lambda>s. s\<lparr>meta_block_header := (meta_block_header s)\<lparr>hdr_scratch_dblock := phy\<rparr>\<rparr>)
      else returnE ())"

definition etss_mblock_write_scratch_meta_header :: "('d, unit) fs_op" where
  "etss_mblock_write_scratch_meta_header =
     bindE (modifyS (\<lambda>s. s\<lparr>meta_block_header := (meta_block_header s)
       \<lparr>hdr_active_swap_count := hdr_active_swap_count (meta_block_header s) + 1\<rparr>\<rparr>)) (\<lambda>_.
     bindE (withS (\<lambda>s.
       if etss_mblock_validate_swap_count (ctx_cfg s)
            (hdr_active_swap_count (meta_block_header s)) \<noteq> Inr ()
       then modifyS (\<lambda>s. s\<lparr>meta_block_header := (meta_block_header s)
         \<lparr>hdr_active_swap_count := hdr_active_swap_count (meta_block_header s) + 1\<rparr>\<rparr>)
       else returnE ())) (\<lambda>_.
     bindE (withS (\<lambda>s. etss_mblock_calculate_metadata_xor (scratch_metablock s))) (\<lambda>x.
     bindE (modifyS (\<lambda>s. s\<lparr>meta_block_header := (meta_block_header s)\<lparr>hdr_metadata_xor := x\<rparr>\<rparr>)) (\<lambda>_.
     withS (\<lambda>s. flash_write (scratch_metablock s) (encode_header (meta_block_header s)) 0
       ETSS_BLOCK_META_HEADER_SIZE)))))"

definition etss_flash_fs_mblock_meta_update_finalize :: "('d, unit) fs_op" where
  "etss_flash_fs_mblock_meta_update_finalize =
     bindE etss_mblock_write_scratch_meta_header (\<lambda>_.
     bindE (withS (\<lambda>s. flash_flush (scratch_metablock s))) (\<lambda>_.
     bindE etss_mblock_swap_metablocks (\<lambda>_.
     etss_mblock_erase_scratch_blocks)))"

section \<open>Reserving a file\<close>

text \<open>The results are the out-parameters \<open>file_meta\<close> and \<open>block_meta\<close>.\<close>

fun reserve_file_loop :: "etss_flash_fs_config_t \<Rightarrow> buf \<Rightarrow> u32 \<Rightarrow> u32 \<Rightarrow> u32 list \<Rightarrow>
    ('d, etss_file_meta_t \<times> etss_block_meta_t) fs_op" where
  "reserve_file_loop cfg fid len create_flags [] = throwE PSA_ERROR_INSUFFICIENT_STORAGE"
| "reserve_file_loop cfg fid len create_flags (i # is) =
     bindE (orError (etss_flash_fs_mblock_read_block_metadata i) PSA_ERROR_GENERIC_ERROR) (\<lambda>block_meta.
     if bm_free_size block_meta \<ge> len then
       returnE (\<lparr>fm_lblock = i, fm_data_idx = block_size cfg - bm_free_size block_meta,
                 fm_cur_size = 0, fm_max_size = len, fm_flags = create_flags,
                 fm_id = take ETSS_FILE_ID_SIZE fid\<rparr>,
                block_meta\<lparr>bm_free_size := bm_free_size block_meta - len\<rparr>)
     else reserve_file_loop cfg fid len create_flags is)"

definition etss_mblock_reserve_file ::
  "buf \<Rightarrow> u32 \<Rightarrow> u32 \<Rightarrow> ('d, etss_file_meta_t \<times> etss_block_meta_t) fs_op" where
  "etss_mblock_reserve_file fid len create_flags = withS (\<lambda>s.
     reserve_file_loop (ctx_cfg s) fid len create_flags
       (u32_upto (etss_num_active_dblocks (ctx_cfg s))))"

definition etss_flash_fs_mblock_reserve_file ::
  "buf \<Rightarrow> bool \<Rightarrow> u32 \<Rightarrow> u32 \<Rightarrow> ('d, u32 \<times> etss_file_meta_t \<times> etss_block_meta_t) fs_op" where
  "etss_flash_fs_mblock_reserve_file fid use_spare len create_flags =
     tryE (etss_mblock_reserve_file fid len create_flags) (\<lambda>r.
     bindE (etss_get_free_file_index use_spare) (\<lambda>idx.
     case r of
       Inl _ \<Rightarrow> throwE PSA_ERROR_INSUFFICIENT_STORAGE
     | Inr (file_meta, block_meta) \<Rightarrow>
         if idx = ETSS_METADATA_INVALID_INDEX then throwE PSA_ERROR_INSUFFICIENT_STORAGE
         else returnE (idx, file_meta, block_meta)))"

section \<open>Start-up, upgrade and reset\<close>

text \<open>
  One half of \<open>etss_init_get_active_metablock\<close>: the header of a metadata block when it can be read
  and is valid.
\<close>

definition probe_metablock :: "u32 \<Rightarrow> ('d, etss_metadata_block_header_t option) fs_op" where
  "probe_metablock block_id =
     tryE (flash_read block_id 0 ETSS_BLOCK_META_HEADER_SIZE) (\<lambda>r. case r of
       Inl _ \<Rightarrow> returnE None
     | Inr bs \<Rightarrow>
         tryE (etss_mblock_validate_header_meta (decode_header bs) block_id) (\<lambda>v. case v of
           Inl _ \<Rightarrow> returnE None
         | Inr _ \<Rightarrow> returnE (Some (decode_header bs))))"

definition etss_init_get_active_metablock :: "('d, unit) fs_op" where
  "etss_init_get_active_metablock =
     bindE (probe_metablock ETSS_METADATA_BLOCK0) (\<lambda>m0.
     bindE (probe_metablock ETSS_METADATA_BLOCK1) (\<lambda>m1.
     bindE (case (m0, m1) of
              (Some h_meta0, Some h_meta1) \<Rightarrow>
                withS (\<lambda>s. returnE (etss_mblock_latest_meta_block (ctx_cfg s) h_meta0 h_meta1))
            | (Some _, None) \<Rightarrow> returnE ETSS_METADATA_BLOCK0
            | (None, Some _) \<Rightarrow> returnE ETSS_METADATA_BLOCK1
            | (None, None) \<Rightarrow> throwE PSA_ERROR_GENERIC_ERROR) (\<lambda>cur_meta_block.
     modifyS (\<lambda>s. s\<lparr>active_metablock := cur_meta_block,
                    scratch_metablock := ETSS_OTHER_META_BLOCK cur_meta_block\<rparr>))))"

definition etss_mblock_read_meta_header :: "('d, unit) fs_op" where
  "etss_mblock_read_meta_header =
     bindE (withS (\<lambda>s. flash_read (active_metablock s) 0 ETSS_BLOCK_META_HEADER_SIZE)) (\<lambda>bs.
     bindE (modifyS (\<lambda>s. s\<lparr>meta_block_header := decode_header bs\<rparr>)) (\<lambda>_.
     withS (\<lambda>s. etss_mblock_validate_header_meta (meta_block_header s) (active_metablock s))))"

definition etss_mblock_upgrade_meta_header :: "('d, unit) fs_op" where
  "etss_mblock_upgrade_meta_header =
     bindE (withS (\<lambda>s. liftE (etss_mblock_validate_fs_version (hdr_fs_version (meta_block_header s)))))
       (\<lambda>backward_compatible.
     if \<not> backward_compatible then returnE ()
     else
       bindE (etss_flash_fs_mblock_read_block_metadata_comp ETSS_LOGICAL_DBLOCK0) (\<lambda>block_meta_0.
       bindE (withS (\<lambda>s.
         let number = block_size (ctx_cfg s) - bm_free_size block_meta_0 - ETSS_BLOCK_META_HEADER_COMP_SIZE
         in etss_flash_fs_block_to_block_move (scratch_metablock s)
              (etss_mblock_block_meta_offset ETSS_LOGICAL_DBLOCK0)
              (active_metablock s) ETSS_BLOCK_META_HEADER_COMP_SIZE number)) (\<lambda>_.
       bindE (modifyS (\<lambda>s. s\<lparr>meta_block_header := (meta_block_header s)
         \<lparr>hdr_active_swap_count := comp_active_swap_count (header_as_comp (meta_block_header s)),
          hdr_fs_version := ETSS_SUPPORTED_VERSION\<rparr>\<rparr>)) (\<lambda>_.
       etss_flash_fs_mblock_meta_update_finalize))))"

definition etss_flash_fs_mblock_init :: "('d, unit) fs_op" where
  "etss_flash_fs_mblock_init =
     bindE flash_init (\<lambda>_.
     bindE (orError etss_init_get_active_metablock PSA_ERROR_GENERIC_ERROR) (\<lambda>_.
     bindE (orError etss_mblock_read_meta_header PSA_ERROR_GENERIC_ERROR) (\<lambda>_.
     bindE (orError etss_mblock_erase_scratch_blocks PSA_ERROR_GENERIC_ERROR) (\<lambda>_.
     etss_mblock_upgrade_meta_header))))"

text \<open>The loop with \<^verbatim>\<open>err |= erase(...)\<close>: every block is erased, the result tells whether one failed.\<close>

fun erase_dedicated_dblocks :: "etss_flash_fs_config_t \<Rightarrow> u32 list \<Rightarrow> bool \<Rightarrow> ('d, bool) fs_op" where
  "erase_dedicated_dblocks cfg [] failed = returnE failed"
| "erase_dedicated_dblocks cfg (i # is) failed =
     tryE (flash_erase (i + etss_init_dblock_start cfg)) (\<lambda>r.
     erase_dedicated_dblocks cfg is (failed \<or> r \<noteq> Inr ()))"

fun write_dedicated_block_metas ::
  "etss_flash_fs_config_t \<Rightarrow> etss_block_meta_t \<Rightarrow> u32 list \<Rightarrow> ('d, unit) fs_op" where
  "write_dedicated_block_metas cfg block_meta [] = returnE ()"
| "write_dedicated_block_metas cfg block_meta (i # is) =
     bindE (orError (etss_mblock_update_scratch_block_meta (i + 1)
       (block_meta\<lparr>bm_phy_id := i + etss_init_dblock_start cfg\<rparr>)) PSA_ERROR_GENERIC_ERROR) (\<lambda>_.
     write_dedicated_block_metas cfg block_meta is)"

fun write_empty_file_metas :: "u32 list \<Rightarrow> ('d, unit) fs_op" where
  "write_empty_file_metas [] = returnE ()"
| "write_empty_file_metas (i # is) =
     bindE (orError (etss_flash_fs_mblock_update_scratch_file_meta i zero_file_meta)
       PSA_ERROR_GENERIC_ERROR) (\<lambda>_.
     write_empty_file_metas is)"

definition etss_flash_fs_mblock_reset_metablock :: "('d, unit) fs_op" where
  "etss_flash_fs_mblock_reset_metablock =
     tryE etss_init_get_active_metablock (\<lambda>r.
     bindE (getS (\<lambda>s. case r of Inr _ \<Rightarrow> scratch_metablock s | Inl _ \<Rightarrow> ETSS_METADATA_BLOCK0))
       (\<lambda>metablock_to_erase_first.
     bindE (flash_erase metablock_to_erase_first) (\<lambda>_.
     bindE (flash_erase (ETSS_OTHER_META_BLOCK metablock_to_erase_first)) (\<lambda>_.
     bindE (modifyS (\<lambda>s. s\<lparr>meta_block_header := (meta_block_header s)
         \<lparr>hdr_active_swap_count := (if erase_val (ctx_cfg s) = 0 then 1 else 0),
          hdr_scratch_dblock := etss_init_scratch_dblock (ctx_cfg s),
          hdr_fs_version := ETSS_SUPPORTED_VERSION\<rparr>,
       scratch_metablock := ETSS_METADATA_BLOCK1,
       active_metablock := ETSS_METADATA_BLOCK0\<rparr>)) (\<lambda>_.
     bindE (withS (\<lambda>s.
       let start = etss_mblock_file_meta_offset (ctx_cfg s) (ucast (max_num_files (ctx_cfg s)))
       in etss_mblock_update_scratch_block_meta ETSS_LOGICAL_DBLOCK0
            \<lparr>bm_phy_id = scratch_metablock s, bm_data_start = start,
             bm_free_size = block_size (ctx_cfg s) - start\<rparr>)) (\<lambda>_.
     withS (\<lambda>s.
       let dedicated = u32_upto (etss_num_dedicated_dblocks (ctx_cfg s)) in
       bindE (erase_dedicated_dblocks (ctx_cfg s) dedicated False) (\<lambda>failed.
       if failed then throwE PSA_ERROR_STORAGE_FAILURE
       else
         bindE (write_dedicated_block_metas (ctx_cfg s)
           \<lparr>bm_phy_id = scratch_metablock s, bm_data_start = 0,
            bm_free_size = block_size (ctx_cfg s)\<rparr> dedicated) (\<lambda>_.
         bindE (write_empty_file_metas (u32_upto (ucast (max_num_files (ctx_cfg s))))) (\<lambda>_.
         bindE (orError etss_mblock_write_scratch_meta_header PSA_ERROR_GENERIC_ERROR) (\<lambda>_.
         bindE (withS (\<lambda>s. flash_flush (scratch_metablock s))) (\<lambda>_.
         etss_mblock_swap_metablocks))))))))))))"

end
