(* ===== verification/Flash_Fs_Dblock.thy ===== *)
theory Flash_Fs_Dblock
  imports Flash_Fs_Mblock
begin

text \<open>
  The data block layer, \<open>etss_flash_fs_dblock.c\<close>: reading a file's bytes, writing a file into the
  scratch data block together with the rest of its block, and compacting a block when a file is
  deleted.
\<close>

definition etss_dblock_lo_to_phy :: "u32 \<Rightarrow> ('d, u32) fs_op" where
  "etss_dblock_lo_to_phy lblock =
     tryE (etss_flash_fs_mblock_read_block_metadata lblock) (\<lambda>r. case r of
       Inl _ \<Rightarrow> returnE ETSS_BLOCK_INVALID_ID
     | Inr block_meta \<Rightarrow> returnE (bm_phy_id block_meta))"

definition etss_flash_fs_dblock_compact_block ::
  "u32 \<Rightarrow> u32 \<Rightarrow> u32 \<Rightarrow> u32 \<Rightarrow> u32 \<Rightarrow> ('d, unit) fs_op" where
  "etss_flash_fs_dblock_compact_block lblock freed src_offset dst_offset len =
     bindE (etss_flash_fs_mblock_read_block_metadata lblock) (\<lambda>bm.
     let block_meta = bm\<lparr>bm_free_size := bm_free_size bm + freed\<rparr> in
     bindE (getS (\<lambda>s. etss_flash_fs_mblock_cur_data_scratch_id s lblock)) (\<lambda>scratch_id.
     bindE (if len > 0
            then orError (etss_flash_fs_block_to_block_move scratch_id dst_offset
                   (bm_phy_id block_meta) src_offset len) PSA_ERROR_GENERIC_ERROR
            else returnE ()) (\<lambda>_.
     bindE (if dst_offset > bm_data_start block_meta
            then orError (etss_flash_fs_block_to_block_move scratch_id (bm_data_start block_meta)
                   (bm_phy_id block_meta) (bm_data_start block_meta)
                   (dst_offset - bm_data_start block_meta)) PSA_ERROR_GENERIC_ERROR
            else returnE ()) (\<lambda>_.
     bindE (etss_flash_fs_mblock_set_data_scratch (bm_phy_id block_meta) lblock) (\<lambda>_.
     bindE (tryE (etss_flash_fs_mblock_update_scratch_block_meta lblock
                    (block_meta\<lparr>bm_phy_id := scratch_id\<rparr>)) (\<lambda>r. case r of
              Inl e \<Rightarrow> bindE (etss_flash_fs_mblock_set_data_scratch scratch_id lblock) (\<lambda>_. throwE e)
            | Inr _ \<Rightarrow> returnE ())) (\<lambda>_.
     if lblock \<noteq> ETSS_LOGICAL_DBLOCK0 then flash_flush scratch_id else returnE ()))))))"

definition etss_flash_fs_dblock_read_file :: "etss_file_meta_t \<Rightarrow> u32 \<Rightarrow> u32 \<Rightarrow> ('d, buf) fs_op" where
  "etss_flash_fs_dblock_read_file file_meta offset len =
     bindE (etss_dblock_lo_to_phy (fm_lblock file_meta)) (\<lambda>phys_block.
     if phys_block = ETSS_BLOCK_INVALID_ID then throwE PSA_ERROR_GENERIC_ERROR
     else (let pos = fm_data_idx file_meta + offset in flash_read phys_block pos len))"

definition etss_flash_fs_dblock_write_file ::
  "etss_block_meta_t \<Rightarrow> etss_file_meta_t \<Rightarrow> u32 \<Rightarrow> u32 \<Rightarrow> buf \<Rightarrow> ('d, unit) fs_op" where
  "etss_flash_fs_dblock_write_file block_meta file_meta offset len data =
     bindE (getS (\<lambda>s. etss_flash_fs_mblock_cur_data_scratch_id s (fm_lblock file_meta))) (\<lambda>scratch_id.
     let pos = fm_data_idx file_meta + offset in
     bindE (etss_flash_fs_block_to_block_move scratch_id (bm_data_start block_meta)
       (bm_phy_id block_meta) (bm_data_start block_meta) (pos - bm_data_start block_meta)) (\<lambda>_.
     bindE (flash_write scratch_id data pos len) (\<lambda>_.
     let pos_end = fm_data_idx file_meta + fm_max_size file_meta in
     bindE (withS (\<lambda>s.
       let num_bytes = (block_size (ctx_cfg s) - bm_free_size block_meta) - pos_end
       in etss_flash_fs_block_to_block_move scratch_id pos_end (bm_phy_id block_meta) pos_end num_bytes))
       (\<lambda>_.
     if fm_lblock file_meta \<noteq> ETSS_LOGICAL_DBLOCK0 then flash_flush scratch_id else returnE ()))))"

end
