(* ===== verification/Flash_Fs.thy ===== *)
theory Flash_Fs
  imports Flash_Fs_Dblock
begin

text \<open>
  The file layer, \<open>etss_flash_fs.c\<close>: configuration check, start-up, and the operations on files
  that the storage service calls. \<open>etss_flash_fs_file_write\<close> is one C function of 200 lines; its
  four stages (find the old file, find the target entry, write the data, commit the metadata) are
  one definition each, composed in the order of the code.
\<close>

section \<open>Flags\<close>

definition ETSS_FLASH_FS_USER_FLAGS_MASK :: u32 where
  "ETSS_FLASH_FS_USER_FLAGS_MASK = 0xFFFF"

definition ETSS_FLASH_FS_FLAG_CREATE :: u32 where
  "ETSS_FLASH_FS_FLAG_CREATE = 0x10000"

definition ETSS_FLASH_FS_FLAG_TRUNCATE :: u32 where
  "ETSS_FLASH_FS_FLAG_TRUNCATE = 0x20000"

definition ETSS_FLASH_FS_INTERNAL_FLAGS_MASK :: u32 where
  "ETSS_FLASH_FS_INTERNAL_FLAGS_MASK = 0xFF000000"

definition ETSS_FLASH_FS_FLAG_DELETE :: u32 where
  "ETSS_FLASH_FS_FLAG_DELETE = 0x1000000"

lemmas fs_flag_defs = ETSS_FLASH_FS_USER_FLAGS_MASK_def ETSS_FLASH_FS_FLAG_CREATE_def
  ETSS_FLASH_FS_FLAG_TRUNCATE_def ETSS_FLASH_FS_INTERNAL_FLAGS_MASK_def ETSS_FLASH_FS_FLAG_DELETE_def

section \<open>Configuration\<close>

definition etss_flash_fs_num_active_dblocks :: "etss_flash_fs_config_t \<Rightarrow> u32" where
  "etss_flash_fs_num_active_dblocks cfg =
     (if num_blocks cfg = 2 then 1 else ucast (num_blocks cfg) - 2)"

definition etss_flash_fs_all_metadata_size :: "etss_flash_fs_config_t \<Rightarrow> u32" where
  "etss_flash_fs_all_metadata_size cfg =
     ETSS_BLOCK_META_HEADER_SIZE + etss_flash_fs_num_active_dblocks cfg * ETSS_BLOCK_METADATA_SIZE
     + ucast (max_num_files cfg) * ETSS_FILE_METADATA_SIZE"

definition etss_flash_fs_validate_config :: "etss_flash_fs_config_t \<Rightarrow> psa_error + unit" where
  "etss_flash_fs_validate_config cfg =
     (let ret0 = Inr ();
          ret1 = (if num_blocks cfg < 2 \<or> num_blocks cfg = 3 then Inl PSA_ERROR_INVALID_ARGUMENT else ret0);
          ret2 = (if num_blocks cfg = 2 \<and>
                     ucast (max_file_size cfg) > block_size cfg - etss_flash_fs_all_metadata_size cfg
                  then Inl PSA_ERROR_INVALID_ARGUMENT else ret1);
          ret3 = (if ucast (max_file_size cfg) > block_size cfg
                  then Inl PSA_ERROR_INVALID_ARGUMENT else ret2);
          ret4 = (if etss_flash_fs_all_metadata_size cfg > block_size cfg
                  then Inl PSA_ERROR_INVALID_ARGUMENT else ret3)
      in ret4)"

definition zero_header :: etss_metadata_block_header_t where
  "zero_header = \<lparr>hdr_scratch_dblock = 0, hdr_fs_version = 0, hdr_metadata_xor = 0,
     hdr_active_swap_count = 0, hdr_pad = 0\<rparr>"

text \<open>\<open>None\<close> is a null pointer.\<close>

definition etss_flash_fs_init_ctx ::
  "etss_flash_fs_config_t option \<Rightarrow> 'd etss_flash_fs_ops_t option \<Rightarrow> ('d, unit) fs_op" where
  "etss_flash_fs_init_ctx fs_cfg fs_ops =
     (case (fs_cfg, fs_ops) of
        (Some cfg, Some fops) \<Rightarrow>
          bindE (liftE (etss_flash_fs_validate_config cfg)) (\<lambda>_.
          modifyS (\<lambda>s. s\<lparr>ctx_cfg := cfg, ctx_ops := fops, meta_block_header := zero_header,
            active_metablock := 0, scratch_metablock := 0\<rparr>))
      | _ \<Rightarrow> throwE PSA_ERROR_INVALID_ARGUMENT)"

section \<open>Deleting a file\<close>

text \<open>The loop's variables are \<open>src_offset\<close> and \<open>nbr_bytes_to_move\<close>.\<close>

fun delete_idx_loop :: "u32 \<Rightarrow> etss_file_meta_t \<Rightarrow> u32 list \<Rightarrow> u32 \<Rightarrow> u32 \<Rightarrow> ('d, u32 \<times> u32) fs_op" where
  "delete_idx_loop del_file_idx del_meta [] src_offset nbr_bytes_to_move =
     returnE (src_offset, nbr_bytes_to_move)"
| "delete_idx_loop del_file_idx del_meta (idx # is) src_offset nbr_bytes_to_move =
     (if idx = del_file_idx then delete_idx_loop del_file_idx del_meta is src_offset nbr_bytes_to_move
      else
        bindE (etss_flash_fs_mblock_read_file_meta idx) (\<lambda>file_meta.
        if fm_lblock file_meta = fm_lblock del_meta \<and>
           etss_utils_validate_fid (fm_id file_meta) = Inr () \<and>
           fm_data_idx file_meta > fm_data_idx del_meta
        then
          bindE (etss_flash_fs_mblock_update_scratch_file_meta idx
            (file_meta\<lparr>fm_data_idx := fm_data_idx file_meta - fm_max_size del_meta\<rparr>)) (\<lambda>_.
          delete_idx_loop del_file_idx del_meta is
            (if src_offset > fm_data_idx file_meta then fm_data_idx file_meta else src_offset)
            (nbr_bytes_to_move + fm_max_size file_meta))
        else
          bindE (etss_flash_fs_mblock_update_scratch_file_meta idx file_meta) (\<lambda>_.
          delete_idx_loop del_file_idx del_meta is src_offset nbr_bytes_to_move)))"

definition etss_flash_fs_delete_idx :: "u32 \<Rightarrow> ('d, unit) fs_op" where
  "etss_flash_fs_delete_idx del_file_idx =
     bindE (etss_flash_fs_mblock_read_file_meta del_file_idx) (\<lambda>del_meta.
     if etss_utils_validate_fid (fm_id del_meta) \<noteq> Inr () then throwE PSA_ERROR_DOES_NOT_EXIST
     else
       bindE (etss_flash_fs_mblock_update_scratch_file_meta del_file_idx zero_file_meta) (\<lambda>_.
       bindE (withS (\<lambda>s. delete_idx_loop del_file_idx del_meta
         (u32_upto (ucast (max_num_files (ctx_cfg s)))) (block_size (ctx_cfg s)) 0))
         (\<lambda>(src_offset, nbr_bytes_to_move).
       bindE (etss_flash_fs_dblock_compact_block (fm_lblock del_meta) (fm_max_size del_meta)
         src_offset (fm_data_idx del_meta) nbr_bytes_to_move) (\<lambda>_.
       bindE (if fm_lblock del_meta \<noteq> ETSS_LOGICAL_DBLOCK0
              then orError etss_flash_fs_mblock_migrate_lb0_data_to_scratch PSA_ERROR_GENERIC_ERROR
              else returnE ()) (\<lambda>_.
       etss_flash_fs_mblock_meta_update_finalize)))))"

definition etss_flash_fs_file_delete :: "buf \<Rightarrow> ('d, unit) fs_op" where
  "etss_flash_fs_file_delete fid =
     bindE (orError (etss_flash_fs_mblock_get_file_idx fid) PSA_ERROR_DOES_NOT_EXIST)
       etss_flash_fs_delete_idx"

section \<open>Start-up\<close>

definition etss_flash_fs_prepare :: "('d, unit) fs_op" where
  "etss_flash_fs_prepare =
     bindE etss_flash_fs_mblock_init (\<lambda>_.
     tryE (etss_flash_fs_mblock_get_file_idx_flag ETSS_FLASH_FS_FLAG_DELETE) (\<lambda>r. case r of
       Inr idx \<Rightarrow> etss_flash_fs_delete_idx idx
     | Inl e \<Rightarrow> if e \<noteq> PSA_ERROR_DOES_NOT_EXIST then throwE e else returnE ()))"

definition etss_flash_fs_wipe_all :: "('d, unit) fs_op" where
  "etss_flash_fs_wipe_all = etss_flash_fs_mblock_reset_metablock"

section \<open>Queries\<close>

definition etss_flash_fs_file_exist :: "buf \<Rightarrow> ('d, unit) fs_op" where
  "etss_flash_fs_file_exist fid =
     bindE (orError (etss_flash_fs_mblock_get_file_idx fid) PSA_ERROR_DOES_NOT_EXIST) (\<lambda>_. returnE ())"

definition etss_flash_fs_file_get_info :: "buf \<Rightarrow> ('d, etss_file_info_t) fs_op" where
  "etss_flash_fs_file_get_info fid =
     bindE (orError (etss_flash_fs_mblock_get_file_idx fid) PSA_ERROR_DOES_NOT_EXIST) (\<lambda>idx.
     bindE (etss_flash_fs_mblock_read_file_meta idx) (\<lambda>tmp_metadata.
     if fid \<noteq> fm_id tmp_metadata then throwE PSA_ERROR_DOES_NOT_EXIST
     else returnE \<lparr>size_current = fm_cur_size tmp_metadata, size_max = fm_max_size tmp_metadata,
            info_flags = fm_flags tmp_metadata AND ETSS_FLASH_FS_USER_FLAGS_MASK\<rparr>))"

definition etss_flash_fs_file_read :: "buf \<Rightarrow> u32 \<Rightarrow> u32 \<Rightarrow> ('d, buf) fs_op" where
  "etss_flash_fs_file_read fid len offset =
     bindE (orError (etss_flash_fs_mblock_get_file_idx fid) PSA_ERROR_DOES_NOT_EXIST) (\<lambda>idx.
     bindE (orError (etss_flash_fs_mblock_read_file_meta idx) PSA_ERROR_GENERIC_ERROR) (\<lambda>tmp_metadata.
     if fid \<noteq> fm_id tmp_metadata then throwE PSA_ERROR_DOES_NOT_EXIST
     else
       bindE (liftE (etss_utils_check_contained_in (fm_cur_size tmp_metadata) offset len)) (\<lambda>_.
       orError (etss_flash_fs_dblock_read_file tmp_metadata offset len) PSA_ERROR_GENERIC_ERROR)))"

section \<open>Writing a file\<close>

definition etss_flash_fs_file_write_aligned_data ::
  "etss_block_meta_t \<Rightarrow> etss_file_meta_t \<Rightarrow> u32 \<Rightarrow> u32 \<Rightarrow> buf \<Rightarrow> ('d, unit) fs_op" where
  "etss_flash_fs_file_write_aligned_data block_meta file_meta offset data_size data = withS (\<lambda>s.
     let unit = ucast (program_unit (ctx_cfg s)) in
     if \<not> ETSS_UTILS_IS_ALIGNED offset unit then throwE PSA_ERROR_INVALID_ARGUMENT
     else
       (let len = ETSS_UTILS_ALIGN data_size unit in
        if offset > fm_cur_size file_meta then throwE PSA_ERROR_INVALID_ARGUMENT
        else if etss_utils_check_contained_in (fm_max_size file_meta) offset len \<noteq> Inr ()
          then throwE PSA_ERROR_INVALID_ARGUMENT
        else etss_flash_fs_dblock_write_file block_meta file_meta offset len data))"

text \<open>Stage 1: the index of the old file, the index to reuse, and the file metadata read.\<close>

definition file_write_find_old :: "buf \<Rightarrow> u32 \<Rightarrow> u32 \<Rightarrow> ('d, u32 \<times> u32 \<times> etss_file_meta_t) fs_op" where
  "file_write_find_old fid create_flags max_len =
     tryE (etss_flash_fs_mblock_get_file_idx fid) (\<lambda>r. case r of
       Inr old_idx \<Rightarrow>
         bindE (orError (etss_flash_fs_mblock_read_file_meta old_idx) PSA_ERROR_DOES_NOT_EXIST) (\<lambda>file_meta.
         if create_flags AND ETSS_FLASH_FS_FLAG_TRUNCATE \<noteq> 0 then
           (if fm_max_size file_meta = max_len then
              returnE (old_idx, old_idx, file_meta\<lparr>fm_cur_size := 0, fm_flags := create_flags\<rparr>)
            else
              (let file_meta' = file_meta\<lparr>fm_flags := fm_flags file_meta OR ETSS_FLASH_FS_FLAG_DELETE\<rparr> in
               bindE (orError (etss_flash_fs_mblock_update_scratch_file_meta old_idx file_meta')
                 PSA_ERROR_GENERIC_ERROR) (\<lambda>_.
               returnE (old_idx, ETSS_METADATA_INVALID_INDEX, file_meta'))))
         else returnE (old_idx, old_idx, file_meta))
     | Inl e \<Rightarrow>
         if e = PSA_ERROR_DOES_NOT_EXIST then
           (if create_flags AND ETSS_FLASH_FS_FLAG_CREATE = 0 then throwE PSA_ERROR_DOES_NOT_EXIST
            else returnE (ETSS_METADATA_INVALID_INDEX, ETSS_METADATA_INVALID_INDEX, zero_file_meta))
         else throwE e)"

text \<open>Stage 2: reserve a new file, or read the block metadata of the reused one.\<close>

definition file_write_find_target :: "buf \<Rightarrow> u32 \<Rightarrow> u32 \<Rightarrow> u32 \<Rightarrow> u32 \<Rightarrow> etss_file_meta_t \<Rightarrow>
    ('d, u32 \<times> etss_file_meta_t \<times> etss_block_meta_t) fs_op" where
  "file_write_find_target fid create_flags max_len old_idx new_idx file_meta =
     (if new_idx = ETSS_METADATA_INVALID_INDEX then withS (\<lambda>s.
        if max_len > ucast (max_file_size (ctx_cfg s)) then throwE PSA_ERROR_INVALID_ARGUMENT
        else etss_flash_fs_mblock_reserve_file fid (old_idx \<noteq> ETSS_METADATA_INVALID_INDEX)
               max_len create_flags)
      else
        bindE (orError (etss_flash_fs_mblock_read_block_metadata (fm_lblock file_meta))
          PSA_ERROR_GENERIC_ERROR) (\<lambda>block_meta.
        returnE (new_idx, file_meta, block_meta)))"

text \<open>Stage 3: write the data into the scratch data block and swap it with the block's physical one.\<close>

definition file_write_data :: "etss_file_meta_t \<Rightarrow> etss_block_meta_t \<Rightarrow> u32 \<Rightarrow> u32 \<Rightarrow> buf \<Rightarrow>
    ('d, etss_file_meta_t \<times> etss_block_meta_t) fs_op" where
  "file_write_data file_meta block_meta data_size offset data =
     (if data_size \<noteq> 0 then
        bindE (orError (etss_flash_fs_file_write_aligned_data block_meta file_meta offset data_size data)
          PSA_ERROR_GENERIC_ERROR) (\<lambda>_.
        let file_meta' = (if offset + data_size > fm_cur_size file_meta
                          then file_meta\<lparr>fm_cur_size := offset + data_size\<rparr> else file_meta) in
        bindE (getS (\<lambda>s. etss_flash_fs_mblock_cur_data_scratch_id s (fm_lblock file_meta'))) (\<lambda>scratch_id.
        bindE (etss_flash_fs_mblock_set_data_scratch (bm_phy_id block_meta) (fm_lblock file_meta')) (\<lambda>_.
        returnE (file_meta', block_meta\<lparr>bm_phy_id := scratch_id\<rparr>))))
      else returnE (file_meta, block_meta))"

text \<open>Stage 4: complete the scratch metadata block, commit it, and delete the replaced file.\<close>

definition file_write_commit :: "u32 \<Rightarrow> u32 \<Rightarrow> etss_file_meta_t \<Rightarrow> etss_block_meta_t \<Rightarrow> u32 \<Rightarrow> ('d, unit) fs_op" where
  "file_write_commit old_idx new_idx file_meta block_meta data_size =
     bindE (orError (etss_flash_fs_mblock_update_scratch_block_meta (fm_lblock file_meta) block_meta)
       PSA_ERROR_GENERIC_ERROR) (\<lambda>_.
     bindE (orError (etss_flash_fs_mblock_update_scratch_file_meta new_idx file_meta)
       PSA_ERROR_GENERIC_ERROR) (\<lambda>_.
     let idx = ETSS_UTILS_MIN new_idx old_idx in
     bindE (orError (etss_flash_fs_mblock_cp_file_meta 0 idx) PSA_ERROR_GENERIC_ERROR) (\<lambda>_.
     bindE (if old_idx \<noteq> ETSS_METADATA_INVALID_INDEX \<and> old_idx \<noteq> new_idx then
              bindE (orError (etss_flash_fs_mblock_cp_file_meta (idx + 1) (ETSS_UTILS_MAX new_idx old_idx))
                PSA_ERROR_GENERIC_ERROR) (\<lambda>_.
              returnE (ETSS_UTILS_MAX new_idx old_idx))
            else returnE idx) (\<lambda>idx.
     bindE (withS (\<lambda>s. orError (etss_flash_fs_mblock_cp_file_meta (idx + 1)
       (ucast (max_num_files (ctx_cfg s)))) PSA_ERROR_GENERIC_ERROR)) (\<lambda>_.
     bindE (if fm_lblock file_meta \<noteq> ETSS_LOGICAL_DBLOCK0 \<or> data_size = 0
            then orError etss_flash_fs_mblock_migrate_lb0_data_to_scratch PSA_ERROR_GENERIC_ERROR
            else returnE ()) (\<lambda>_.
     bindE etss_flash_fs_mblock_meta_update_finalize (\<lambda>_.
     if old_idx \<noteq> ETSS_METADATA_INVALID_INDEX \<and> old_idx \<noteq> new_idx
     then etss_flash_fs_delete_idx old_idx else returnE ())))))))"

definition etss_flash_fs_file_write ::
  "buf \<Rightarrow> u32 \<Rightarrow> u32 \<Rightarrow> u32 \<Rightarrow> u32 \<Rightarrow> buf \<Rightarrow> ('d, unit) fs_op" where
  "etss_flash_fs_file_write fid create_flags max_len data_size offset data =
     (if create_flags AND ETSS_FLASH_FS_INTERNAL_FLAGS_MASK \<noteq> 0 then throwE PSA_ERROR_INVALID_ARGUMENT
      else withS (\<lambda>s.
        let max_len' = ETSS_UTILS_ALIGN max_len (ucast (program_unit (ctx_cfg s))) in
        bindE (file_write_find_old fid create_flags max_len') (\<lambda>(old_idx, new_idx0, file_meta0).
        bindE (file_write_find_target fid create_flags max_len' old_idx new_idx0 file_meta0)
          (\<lambda>(new_idx, file_meta1, block_meta1).
        bindE (file_write_data file_meta1 block_meta1 data_size offset data) (\<lambda>(file_meta, block_meta).
        file_write_commit old_idx new_idx file_meta block_meta data_size)))))"

end
