(* ===== verification/Flash_Fs_Layout.thy ===== *)
theory Flash_Fs_Layout
  imports Flash_Fs
begin

text \<open>
  The layout of a metadata block in natural numbers: where the entries lie, that the 32-bit offset
  computations never wrap for a valid configuration, the tables decoded from a block's bytes, and
  the image of a block that holds given tables.
\<close>

section \<open>Sizes and offsets\<close>

definition nad :: "etss_flash_fs_config_t \<Rightarrow> nat" where
  "nad C = (if num_blocks C = 2 then 1 else unat (num_blocks C) - 2)"

definition mnf :: "etss_flash_fs_config_t \<Rightarrow> nat" where
  "mnf C = unat (max_num_files C)"

definition boff :: "nat \<Rightarrow> nat" where
  "boff l = 8 + 12 * l"

definition foff :: "etss_flash_fs_config_t \<Rightarrow> nat \<Rightarrow> nat" where
  "foff C i = 8 + 12 * nad C + 32 * i"

definition cfg_ok :: "etss_flash_fs_config_t \<Rightarrow> bool" where
  "cfg_ok C \<longleftrightarrow> etss_flash_fs_validate_config C = Inr ()"

lemma nb_cases:
  "num_blocks C \<noteq> 2 \<Longrightarrow> \<not> num_blocks C < 2 \<Longrightarrow> num_blocks C \<noteq> 3 \<Longrightarrow> 4 \<le> unat (num_blocks C)"
proof -
  assume "num_blocks C \<noteq> 2" "\<not> num_blocks C < 2" "num_blocks C \<noteq> 3"
  then have "unat (num_blocks C) \<noteq> 2" "\<not> unat (num_blocks C) < 2" "unat (num_blocks C) \<noteq> 3"
    by (auto simp: word_less_nat_alt word_unat_eq_iff)
  then show ?thesis by linarith
qed

lemma flash_fs_num_active_unat:
  "num_blocks C \<ge> 2 \<Longrightarrow> unat (etss_flash_fs_num_active_dblocks C) = nad C"
  by (auto simp: etss_flash_fs_num_active_dblocks_def nad_def unat_sub_u32 word_le_nat_alt)

lemma nad_less: "nad C < 65536"
  using unat_u16_less [of "num_blocks C"] by (auto simp: nad_def)

lemma mnf_less: "mnf C < 65536"
  using unat_u16_less [of "max_num_files C"] by (simp add: mnf_def)

lemma all_metadata_size_unat:
  assumes "num_blocks C \<ge> 2"
  shows "unat (etss_flash_fs_all_metadata_size C) = foff C (mnf C)"
proof -
  have a: "unat (etss_flash_fs_num_active_dblocks C * 12) = nad C * 12"
    using nad_less [of C] assms by (simp add: unat_mult_u32 flash_fs_num_active_unat)
  have b: "unat (ucast (max_num_files C) * 32 :: u32) = mnf C * 32"
    using mnf_less [of C] by (simp add: unat_mult_u32 mnf_def)
  have c: "unat (8 + etss_flash_fs_num_active_dblocks C * 12) = 8 + nad C * 12"
    using nad_less [of C] a by (simp add: unat_add_u32)
  then show ?thesis
    using nad_less [of C] mnf_less [of C] b
    by (simp add: etss_flash_fs_all_metadata_size_def mblock_consts foff_def unat_add_u32)
qed

lemma cfg_ok_iff:
  "cfg_ok C \<longleftrightarrow> num_blocks C \<ge> 2 \<and> num_blocks C \<noteq> 3 \<and>
     foff C (mnf C) \<le> unat (block_size C) \<and> unat (max_file_size C) \<le> unat (block_size C) \<and>
     (num_blocks C = 2 \<longrightarrow> foff C (mnf C) + unat (max_file_size C) \<le> unat (block_size C))"
proof (cases "num_blocks C \<ge> 2")
  case False
  then show ?thesis
    by (simp add: cfg_ok_def etss_flash_fs_validate_config_def Let_def not_le)
next
  case True
  note [simp] = all_metadata_size_unat [OF True]
  have sub: "foff C (mnf C) \<le> unat (block_size C) \<Longrightarrow>
      unat (block_size C - etss_flash_fs_all_metadata_size C) = unat (block_size C) - foff C (mnf C)"
    by (simp add: unat_sub_u32)
  have "cfg_ok C \<longleftrightarrow> num_blocks C \<noteq> 3 \<and> foff C (mnf C) \<le> unat (block_size C) \<and>
      unat (max_file_size C) \<le> unat (block_size C) \<and>
      (num_blocks C = 2 \<longrightarrow>
        unat (max_file_size C) \<le> unat (block_size C - etss_flash_fs_all_metadata_size C))"
    using True
    by (auto simp: cfg_ok_def etss_flash_fs_validate_config_def Let_def not_le not_less
        word_less_nat_alt [of "_ :: u32"] word_le_nat_alt [of "_ :: u32"])
  then show ?thesis using True sub by auto
qed

lemma cfg_okD:
  assumes "cfg_ok C"
  shows "num_blocks C \<noteq> 2 \<Longrightarrow> 4 \<le> unat (num_blocks C)" "2 \<le> unat (num_blocks C)"
    "foff C (mnf C) \<le> unat (block_size C)"
  using assms nb_cases [of C] by (auto simp: cfg_ok_iff word_le_nat_alt not_less)

lemma num_active_unat [simp]: "cfg_ok C \<Longrightarrow> unat (etss_num_active_dblocks C) = nad C"
proof -
  assume ok: "cfg_ok C"
  have "unat (ucast (num_blocks C) - 3 + 1 :: u32) = unat (num_blocks C) - 2"
    if "num_blocks C \<noteq> 2"
  proof -
    have "4 \<le> unat (num_blocks C)" using cfg_okD(1) [OF ok] that by simp
    then show ?thesis by (simp add: unat_sub_u32)
  qed
  then show ?thesis
    by (simp add: etss_num_active_dblocks_def etss_num_dedicated_dblocks_def etss_init_dblock_start_def nad_def)
qed

lemma nad_pos: "cfg_ok C \<Longrightarrow> 0 < nad C"
  using cfg_okD [of C] by (auto simp: nad_def)

lemma block_meta_offset_unat [simp]:
  "unat l \<le> 65536 \<Longrightarrow> unat (etss_mblock_block_meta_offset l) = boff (unat l)"
proof -
  assume l: "unat l \<le> 65536"
  then have "unat (l * 12) = unat l * 12" by (simp add: unat_mult_u32)
  with l show ?thesis
    by (simp add: etss_mblock_block_meta_offset_def mblock_consts boff_def unat_add_u32)
qed

lemma file_meta_offset_unat [simp]:
  assumes "cfg_ok C" and "unat i \<le> 65536"
  shows "unat (etss_mblock_file_meta_offset C i) = foff C (unat i)"
proof -
  have a: "unat (etss_num_active_dblocks C * 12) = nad C * 12"
    using assms nad_less [of C] by (simp add: unat_mult_u32)
  have c: "unat (8 + etss_num_active_dblocks C * 12) = 8 + nad C * 12"
    using nad_less [of C] a by (simp add: unat_add_u32)
  have b: "unat (i * 32) = unat i * 32" using assms(2) by (simp add: unat_mult_u32)
  show ?thesis
    using assms nad_less [of C] b c
    by (simp add: etss_mblock_file_meta_offset_def mblock_consts foff_def unat_add_u32)
qed

lemma boff_Suc: "boff (Suc l) = boff l + 12"
  by (simp add: boff_def)

lemma foff_Suc: "foff C (Suc i) = foff C i + 32"
  by (simp add: foff_def)

lemma boff_le: "l < nad C \<Longrightarrow> boff l + 12 \<le> foff C 0"
  by (simp add: boff_def foff_def)

lemma boff_nad: "boff (nad C) = foff C 0"
  by (simp add: boff_def foff_def)

lemma foff_mono: "i < j \<Longrightarrow> foff C i + 32 \<le> foff C j"
  by (simp add: foff_def)

lemma boff_mono: "i < j \<Longrightarrow> boff i + 12 \<le> boff j"
  by (simp add: boff_def)

lemma foff_le_block: "cfg_ok C \<Longrightarrow> i < mnf C \<Longrightarrow> foff C i + 32 \<le> unat (block_size C)"
  using cfg_okD(3) [of C] foff_mono [of i "mnf C" C] by simp

lemma boff_le_block: "cfg_ok C \<Longrightarrow> l < nad C \<Longrightarrow> boff l + 12 \<le> unat (block_size C)"
  using cfg_okD(3) [of C] boff_le [of l C] by (simp add: foff_def)

section \<open>Decoding and encoding are inverse\<close>

lemma le32_de32:
  assumes "4 \<le> length bs"
  shows "le32 (de32 bs) = take 4 bs"
proof -
  obtain a b c d ds where bs: "bs = a # b # c # d # ds"
    using assms by (auto simp: numeral_eq_Suc Suc_le_length_iff)
  have "ucast (de32 bs) = a"
    by (rule bit_word_eqI) (auto simp: bs de32_def bit_simps)
  moreover have "ucast (drop_bit 8 (de32 bs)) = b"
    by (rule bit_word_eqI) (auto simp: bs de32_def bit_simps dest: bit_imp_le_length)
  moreover have "ucast (drop_bit 16 (de32 bs)) = c"
    by (rule bit_word_eqI) (auto simp: bs de32_def bit_simps dest: bit_imp_le_length)
  moreover have "ucast (drop_bit 24 (de32 bs)) = d"
    by (rule bit_word_eqI) (auto simp: bs de32_def bit_simps dest: bit_imp_le_length)
  ultimately show ?thesis by (simp add: le32_def bs)
qed

lemma take_drop_split: "take n xs @ drop n xs = xs" by (rule append_take_drop_id)

lemma encode_decode_block_meta: "length bs = 12 \<Longrightarrow> encode_block_meta (decode_block_meta bs) = bs"
proof -
  assume len: "length bs = 12"
  have "take 4 bs @ take 4 (drop 4 bs) @ take 4 (drop 8 bs) = bs"
    using len take_drop_split [of 4 bs] take_drop_split [of 4 "drop 4 bs"] by simp
  with len show ?thesis
    by (simp add: encode_block_meta_def decode_block_meta_def le32_de32)
qed

lemma encode_decode_file_meta: "length bs = 32 \<Longrightarrow> encode_file_meta (decode_file_meta bs) = bs"
proof -
  assume len: "length bs = 32"
  have "take 4 bs @ take 4 (drop 4 bs) @ take 4 (drop 8 bs) @ take 4 (drop 12 bs) @ take 4 (drop 16 bs)
      @ take 12 (drop 20 bs) = bs"
    using len take_drop_split [of 4 bs] take_drop_split [of 4 "drop 4 bs"]
      take_drop_split [of 4 "drop 8 bs"] take_drop_split [of 4 "drop 12 bs"]
      take_drop_split [of 4 "drop 16 bs"] by simp
  with len show ?thesis
    by (simp add: encode_file_meta_def decode_file_meta_def le32_de32 ETSS_FILE_ID_SIZE_def)
qed

section \<open>The tables of a metadata block\<close>

definition bmv :: "(u32 \<Rightarrow> buf) \<Rightarrow> u32 \<Rightarrow> nat \<Rightarrow> etss_block_meta_t" where
  "bmv m a l = decode_block_meta (bslice (boff l) 12 (m a))"

definition fmv :: "etss_flash_fs_config_t \<Rightarrow> (u32 \<Rightarrow> buf) \<Rightarrow> u32 \<Rightarrow> nat \<Rightarrow> etss_file_meta_t" where
  "fmv C m a i = decode_file_meta (bslice (foff C i) 32 (m a))"

text \<open>
  The bytes of a metadata block with the block table \<open>B\<close>, the file table \<open>F\<close> and, behind the tables,
  the data \<open>D\<close>.
\<close>

definition mb_image :: "etss_flash_fs_config_t \<Rightarrow> (nat \<Rightarrow> etss_block_meta_t) \<Rightarrow> (nat \<Rightarrow> etss_file_meta_t) \<Rightarrow>
    (nat \<Rightarrow> u8) \<Rightarrow> nat \<Rightarrow> u8" where
  "mb_image C B F D p =
     (if p < foff C 0 then encode_block_meta (B ((p - 8) div 12)) ! ((p - 8) mod 12)
      else if p < foff C (mnf C) then encode_file_meta (F ((p - foff C 0) div 32)) ! ((p - foff C 0) mod 32)
      else D p)"

lemma image_block: "l < nad C \<Longrightarrow> i < 12 \<Longrightarrow> mb_image C B F D (boff l + i) = encode_block_meta (B l) ! i"
proof -
  assume "l < nad C" "i < 12"
  then have "boff l + i < foff C 0" using boff_le [of l C] by simp
  moreover have "(boff l + i - 8) div 12 = l" "(boff l + i - 8) mod 12 = i"
    using \<open>i < 12\<close> by (simp_all add: boff_def)
  ultimately show ?thesis by (simp add: mb_image_def)
qed

lemma image_file: "k < mnf C \<Longrightarrow> i < 32 \<Longrightarrow> mb_image C B F D (foff C k + i) = encode_file_meta (F k) ! i"
proof -
  assume "k < mnf C" "i < 32"
  then have "foff C k + i < foff C (mnf C)" using foff_mono [of k "mnf C" C] by simp
  moreover have "\<not> foff C k + i < foff C 0" by (simp add: foff_def)
  moreover have "(foff C k + i - foff C 0) div 32 = k" "(foff C k + i - foff C 0) mod 32 = i"
    using \<open>i < 32\<close> by (simp_all add: foff_def)
  ultimately show ?thesis by (simp add: mb_image_def)
qed

lemma foff_ge_0: "foff C 0 \<le> foff C i"
  by (simp add: foff_def)

lemma image_data: "foff C (mnf C) \<le> p \<Longrightarrow> mb_image C B F D p = D p"
  using foff_ge_0 [of C "mnf C"] by (simp add: mb_image_def)

text \<open>A block whose table bytes come from an image has the image's tables.\<close>

lemma bmv_image:
  assumes "l < nad C" and "boff l + 12 \<le> length (m a)"
    and "\<And>p. boff l \<le> p \<Longrightarrow> p < boff l + 12 \<Longrightarrow> m a ! p = mb_image C B F D p"
  shows "bmv m a l = B l"
proof -
  have "bslice (boff l) 12 (m a) = encode_block_meta (B l)"
    using assms by (subst slice_eq_iff) (auto simp: image_block)
  then show ?thesis by (simp add: bmv_def)
qed

lemma fmv_image:
  assumes "i < mnf C" and "foff C i + 32 \<le> length (m a)" and "length (fm_id (F i)) = 12"
    and "\<And>p. foff C i \<le> p \<Longrightarrow> p < foff C i + 32 \<Longrightarrow> m a ! p = mb_image C B F D p"
  shows "fmv C m a i = F i"
proof -
  have "bslice (foff C i) 32 (m a) = encode_file_meta (F i)"
    using assms by (subst slice_eq_iff) (auto simp: image_file)
  then show ?thesis using assms(3) by (simp add: fmv_def)
qed

text \<open>Conversely the table bytes of a block are the image of its tables.\<close>

lemma block_table_index:
  assumes "boff l \<le> p" and "p < boff l + 12"
  shows "(p - 8) div 12 = l"
proof -
  obtain i where "p = boff l + i" "i < 12" using assms by (metis add_less_cancel_left le_Suc_ex)
  then show ?thesis by (simp add: boff_def)
qed

lemma file_table_index:
  assumes "foff C l \<le> p" and "p < foff C l + 32"
  shows "(p - foff C 0) div 32 = l"
proof -
  obtain i where "p = foff C l + i" "i < 32" using assms by (metis add_less_cancel_left le_Suc_ex)
  then show ?thesis by (simp add: foff_def)
qed

lemma image_bmv:
  assumes "cfg_ok C" and "length (m a) = unat (block_size C)" and "8 \<le> p" and "p < foff C 0"
    and "B ((p - 8) div 12) = bmv m a ((p - 8) div 12)"
  shows "mb_image C B F D p = m a ! p"
proof -
  let ?l = "(p - 8) div 12"
  have l: "?l < nad C" using assms(3,4) by (simp add: foff_def div_less_iff_less_mult)
  have "length (bslice (boff ?l) 12 (m a)) = 12"
    using boff_le_block [OF assms(1) l] assms(2) by (simp add: length_bslice)
  then have "encode_block_meta (bmv m a ?l) = bslice (boff ?l) 12 (m a)"
    by (simp add: bmv_def encode_decode_block_meta)
  moreover have "boff ?l + (p - 8) mod 12 = p"
    using assms(3) mult_div_mod_eq [of 12 "p - 8"] by (simp add: boff_def)
  ultimately show ?thesis
    using assms boff_le_block [OF assms(1) l] by (simp add: mb_image_def nth_bslice)
qed

lemma image_fmv:
  assumes "cfg_ok C" and "length (m a) = unat (block_size C)" and "foff C 0 \<le> p" and "p < foff C (mnf C)"
    and "F ((p - foff C 0) div 32) = fmv C m a ((p - foff C 0) div 32)"
  shows "mb_image C B F D p = m a ! p"
proof -
  let ?i = "(p - foff C 0) div 32"
  have i: "?i < mnf C" using assms(3,4) by (simp add: foff_def div_less_iff_less_mult)
  have "length (bslice (foff C ?i) 32 (m a)) = 32"
    using foff_le_block [OF assms(1) i] assms(2) by (simp add: length_bslice)
  then have "encode_file_meta (fmv C m a ?i) = bslice (foff C ?i) 32 (m a)"
    by (simp add: fmv_def encode_decode_file_meta)
  moreover have "foff C ?i + (p - foff C 0) mod 32 = p"
    using assms(3) mult_div_mod_eq [of 32 "p - foff C 0"] by (simp add: foff_def)
  ultimately show ?thesis
    using assms foff_le_block [OF assms(1) i] by (simp add: mb_image_def nth_bslice)
qed

end
