(* ===== verification/Flash_Fs_Query.thy ===== *)
theory Flash_Fs_Query
  imports Flash_Dev Flash_Fs_Layout
begin

text \<open>
  The operations that only read flash, for arbitrary flash contents: each one equals a pure
  function of the bytes of the active metadata block, leaves the state alone, and never asks the
  device for bytes outside a block, whatever the metadata says.
\<close>

section \<open>Pure counterparts\<close>

definition rfm :: "etss_flash_fs_config_t \<Rightarrow> (u32 \<Rightarrow> buf) \<Rightarrow> u32 \<Rightarrow> nat \<Rightarrow> psa_error + etss_file_meta_t" where
  "rfm C m a i = (case etss_mblock_validate_file_meta C (fmv C m a i) of
     Inl e \<Rightarrow> Inl e | Inr _ \<Rightarrow> Inr (fmv C m a i))"

definition rbm :: "etss_flash_fs_config_t \<Rightarrow> (u32 \<Rightarrow> buf) \<Rightarrow> u32 \<Rightarrow> nat \<Rightarrow> psa_error + etss_block_meta_t" where
  "rbm C m a l = (case etss_mblock_validate_block_meta C (bmv m a l) of
     Inl e \<Rightarrow> Inl e | Inr _ \<Rightarrow> Inr (bmv m a l))"

fun find_file :: "(u32 \<Rightarrow> psa_error + etss_file_meta_t) \<Rightarrow> (etss_file_meta_t \<Rightarrow> bool) \<Rightarrow> u32 list \<Rightarrow>
    psa_error + u32" where
  "find_file f P [] = Inl PSA_ERROR_DOES_NOT_EXIST"
| "find_file f P (i # is) = (case f i of Inl _ \<Rightarrow> Inl PSA_ERROR_GENERIC_ERROR
     | Inr x \<Rightarrow> if P x then Inr i else find_file f P is)"

fun find_free :: "(u32 \<Rightarrow> psa_error + etss_file_meta_t) \<Rightarrow> bool \<Rightarrow> u32 list \<Rightarrow> u32" where
  "find_free f spare [] = ETSS_METADATA_INVALID_INDEX"
| "find_free f spare (i # is) = (case f i of Inl _ \<Rightarrow> ETSS_METADATA_INVALID_INDEX
     | Inr x \<Rightarrow> if etss_utils_validate_fid (fm_id x) \<noteq> Inr ()
               then (if spare then i else find_free f True is) else find_free f spare is)"

fun find_room :: "etss_flash_fs_config_t \<Rightarrow> (u32 \<Rightarrow> psa_error + etss_block_meta_t) \<Rightarrow> buf \<Rightarrow> u32 \<Rightarrow> u32 \<Rightarrow>
    u32 list \<Rightarrow> psa_error + (etss_file_meta_t \<times> etss_block_meta_t)" where
  "find_room C f fid len fl [] = Inl PSA_ERROR_INSUFFICIENT_STORAGE"
| "find_room C f fid len fl (l # ls) = (case f l of Inl _ \<Rightarrow> Inl PSA_ERROR_GENERIC_ERROR
     | Inr bm \<Rightarrow> if len \<le> bm_free_size bm
               then Inr (\<lparr>fm_lblock = l, fm_data_idx = block_size C - bm_free_size bm, fm_cur_size = 0,
                          fm_max_size = len, fm_flags = fl, fm_id = take ETSS_FILE_ID_SIZE fid\<rparr>,
                         bm\<lparr>bm_free_size := bm_free_size bm - len\<rparr>)
               else find_room C f fid len fl ls)"

abbreviation file_idxs :: "etss_flash_fs_config_t \<Rightarrow> u32 list" where
  "file_idxs C \<equiv> u32_upto (ucast (max_num_files C))"

abbreviation lblock_idxs :: "etss_flash_fs_config_t \<Rightarrow> u32 list" where
  "lblock_idxs C \<equiv> u32_upto (etss_num_active_dblocks C)"

lemma file_idxs_unat: "i \<in> set (file_idxs C) \<longleftrightarrow> unat i < mnf C"
  by (simp add: set_u32_upto word_less_nat_alt mnf_def)

lemma lblock_idxs_unat: "cfg_ok C \<Longrightarrow> l \<in> set (lblock_idxs C) \<longleftrightarrow> unat l < nad C"
  by (simp add: set_u32_upto word_less_nat_alt)

text \<open>The tables depend on the bytes of the metadata block only.\<close>

lemma table_cong:
  assumes "m a = m' a"
  shows "bmv m a = bmv m' a" "fmv C m a = fmv C m' a" "rbm C m a = rbm C m' a" "rfm C m a = rfm C m' a"
  using assms by (simp_all add: fun_eq_iff bmv_def fmv_def rbm_def rfm_def cong: sum.case_cong)

text \<open>What validation guarantees about accepted entries.\<close>

lemma rfm_Inr_iff: "rfm C m a i = Inr x \<longleftrightarrow> etss_mblock_validate_file_meta C x = Inr () \<and> x = fmv C m a i"
  by (auto simp: rfm_def split: sum.splits)

lemma rbm_Inr_iff: "rbm C m a l = Inr x \<longleftrightarrow> etss_mblock_validate_block_meta C x = Inr () \<and> x = bmv m a l"
  by (auto simp: rbm_def split: sum.splits)

lemma validate_file_meta_Inr:
  assumes "cfg_ok C" and "etss_mblock_validate_file_meta C x = Inr ()"
  shows "unat (fm_lblock x) < nad C"
    and "etss_utils_validate_fid (fm_id x) = Inr () \<Longrightarrow>
      unat (fm_max_size x) \<le> unat (max_file_size C) \<and> unat (fm_cur_size x) \<le> unat (fm_max_size x) \<and>
      unat (fm_data_idx x) + unat (fm_max_size x) \<le> unat (block_size C) \<and>
      (fm_lblock x = 0 \<longrightarrow> foff C (mnf C) \<le> unat (fm_data_idx x))"
  using assms unat_u16_less [of "max_num_files C"]
  by (auto simp: etss_mblock_validate_file_meta_def word_le_nat_alt word_less_nat_alt not_le not_less
      check_contained_in_Inr_iff mblock_consts mnf_def split: if_splits)

lemma validate_file_metaI:
  assumes "cfg_ok C" and "unat (fm_lblock x) < nad C"
    and "etss_utils_validate_fid (fm_id x) = Inr () \<Longrightarrow>
      unat (fm_max_size x) \<le> unat (max_file_size C) \<and> unat (fm_cur_size x) \<le> unat (fm_max_size x) \<and>
      unat (fm_data_idx x) + unat (fm_max_size x) \<le> unat (block_size C) \<and>
      (fm_lblock x = 0 \<longrightarrow> foff C (mnf C) \<le> unat (fm_data_idx x))"
  shows "etss_mblock_validate_file_meta C x = Inr ()"
  using assms unat_u16_less [of "max_num_files C"]
  by (auto simp: etss_mblock_validate_file_meta_def word_le_nat_alt word_less_nat_alt not_le not_less
      check_contained_in_Inr_iff mblock_consts mnf_def)

lemma validate_block_meta_Inr_iff:
  assumes "cfg_ok C"
  shows "etss_mblock_validate_block_meta C x = Inr () \<longleftrightarrow>
    unat (bm_phy_id x) < unat (num_blocks C) \<and>
    unat (bm_data_start x) + unat (bm_free_size x) \<le> unat (block_size C) \<and>
    unat (bm_data_start x) = (if bm_phy_id x = 0 \<or> bm_phy_id x = 1 then foff C (mnf C) else 0)"
  using assms unat_u16_less [of "max_num_files C"]
  by (auto simp: etss_mblock_validate_block_meta_def word_le_nat_alt word_less_nat_alt not_le not_less
      check_contained_in_Inr_iff mblock_consts mnf_def Let_def word_unat_eq_iff)

section \<open>The queries\<close>

locale fs_dev = flash_dev ops C mem dok pre rel
  for ops :: "'d etss_flash_fs_ops_t" and C mem dok pre rel +
  assumes cfg: "cfg_ok C"
begin

lemma act_less: "a = 0 \<or> a = 1 \<Longrightarrow> (a :: u32) < ucast (num_blocks C)"
  using cfg_okD(2) [OF cfg] by (auto simp: word_less_nat_alt)

definition act_ok :: "'d fs_state \<Rightarrow> bool" where
  "act_ok s \<longleftrightarrow> sok s \<and> active_metablock s \<in> {0, 1}"

lemma act_okD [dest, simp]: "act_ok s \<Longrightarrow> sok s" "act_ok s \<Longrightarrow> active_metablock s < ucast (num_blocks C)"
  by (auto simp: act_ok_def intro: act_less)

lemma act_ok_cfg [simp]: "act_ok s \<Longrightarrow> ctx_cfg s = C"
  by (simp add: act_ok_def)

lemma act_ok_upd [simp]: "act_ok s \<Longrightarrow> dok d \<Longrightarrow> act_ok (s\<lparr>flash := d\<rparr>)"
  by (simp add: act_ok_def)

abbreviation rF :: "'d fs_state \<Rightarrow> u32 \<Rightarrow> psa_error + etss_file_meta_t" where
  "rF s i \<equiv> rfm C (mm s) (active_metablock s) (unat i)"

abbreviation rB :: "'d fs_state \<Rightarrow> u32 \<Rightarrow> psa_error + etss_block_meta_t" where
  "rB s l \<equiv> rbm C (mm s) (active_metablock s) (unat l)"

lemma reads_file_meta:
  assumes "act_ok s" and "unat i < mnf C"
  shows "reads (etss_flash_fs_mblock_read_file_meta i) s (rF s i)"
proof -
  have i: "unat i \<le> 65536" using assms(2) mnf_less [of C] by simp
  have s: "sok s" "active_metablock s < ucast (num_blocks C)" using assms(1) by auto
  show ?thesis
    unfolding etss_flash_fs_mblock_read_file_meta_def using s i foff_le_block [OF cfg assms(2)]
    by (auto simp: rfm_def fmv_def cfg mblock_consts split: sum.split
        intro!: reads_withS reads_bindE [OF reads_flash_read [OF s(1) s(2)]]
          reads_bindE [OF reads_liftE] reads_returnE)
qed

lemma reads_block_meta:
  assumes "act_ok s" and "unat l < nad C"
  shows "reads (etss_flash_fs_mblock_read_block_metadata l) s (rB s l)"
proof -
  have i: "unat l \<le> 65536" using assms(2) nad_less [of C] by simp
  have s: "sok s" "active_metablock s < ucast (num_blocks C)" using assms(1) by auto
  show ?thesis
    unfolding etss_flash_fs_mblock_read_block_metadata_def using s i boff_le_block [OF cfg assms(2)]
    by (auto simp: rbm_def bmv_def cfg mblock_consts split: sum.split
        intro!: reads_withS reads_bindE [OF reads_flash_read [OF s(1) s(2)]]
          reads_bindE [OF reads_liftE] reads_returnE)
qed

lemma reads_file_meta_or:
  assumes "act_ok s" and "unat i < mnf C"
    and "r = (case rF s i of Inl _ \<Rightarrow> Inl e | Inr x \<Rightarrow> Inr x)"
  shows "reads (orError (etss_flash_fs_mblock_read_file_meta i) e) s r"
  using assms by (intro reads_orError [OF reads_file_meta])

lemma reads_block_meta_or:
  assumes "act_ok s" and "unat l < nad C"
    and "r = (case rB s l of Inl _ \<Rightarrow> Inl e | Inr x \<Rightarrow> Inr x)"
  shows "reads (orError (etss_flash_fs_mblock_read_block_metadata l) e) s r"
  using assms by (intro reads_orError [OF reads_block_meta])

lemma reads_file_idx_loop:
  assumes "act_ok s" and "\<And>i. i \<in> set is \<Longrightarrow> unat i < mnf C"
  shows "reads (get_file_idx_loop fid is) s (find_file (rF s) (\<lambda>x. fm_id x = fid) is)"
  using assms
proof (induction "is" arbitrary: s)
  case Nil
  then show ?case by (auto intro!: reads_throwE)
next
  case (Cons i "is")
  show ?case
    unfolding get_file_idx_loop.simps
  proof (rule reads_bindE [OF reads_file_meta_or [OF Cons.prems(1) _ refl]])
    show "unat i < mnf C" using Cons.prems(2) by simp
    fix x d' assume x: "(case rF s i of Inl _ \<Rightarrow> Inl PSA_ERROR_GENERIC_ERROR | Inr x \<Rightarrow> Inr x) = Inr x"
      and d': "dok d'" "mem d' = mm s"
    then show "reads (if fm_id x = fid then returnE i else get_file_idx_loop fid is) (s\<lparr>flash := d'\<rparr>)
        (find_file (rF s) (\<lambda>x. fm_id x = fid) (i # is))"
      using Cons.IH [of "s\<lparr>flash := d'\<rparr>"] Cons.prems
      by (auto split: sum.splits intro!: reads_returnE)
  qed (auto split: sum.splits)
qed

lemma reads_file_idx_flag_loop:
  assumes "act_ok s" and "\<And>i. i \<in> set is \<Longrightarrow> unat i < mnf C"
  shows "reads (get_file_idx_flag_loop fl is) s (find_file (rF s) (\<lambda>x. fm_flags x AND fl \<noteq> 0) is)"
  using assms
proof (induction "is" arbitrary: s)
  case Nil
  then show ?case by (auto intro!: reads_throwE)
next
  case (Cons i "is")
  show ?case
    unfolding get_file_idx_flag_loop.simps
  proof (rule reads_bindE [OF reads_file_meta_or [OF Cons.prems(1) _ refl]])
    show "unat i < mnf C" using Cons.prems(2) by simp
    fix x d' assume x: "(case rF s i of Inl _ \<Rightarrow> Inl PSA_ERROR_GENERIC_ERROR | Inr x \<Rightarrow> Inr x) = Inr x"
      and d': "dok d'" "mem d' = mm s"
    then show "reads (if fm_flags x AND fl \<noteq> 0 then returnE i else get_file_idx_flag_loop fl is)
        (s\<lparr>flash := d'\<rparr>) (find_file (rF s) (\<lambda>x. fm_flags x AND fl \<noteq> 0) (i # is))"
      using Cons.IH [of "s\<lparr>flash := d'\<rparr>"] Cons.prems
      by (auto split: sum.splits intro!: reads_returnE)
  qed (auto split: sum.splits)
qed

lemma reads_get_file_idx:
  assumes "act_ok s"
  shows "reads (etss_flash_fs_mblock_get_file_idx fid) s
    (find_file (rF s) (\<lambda>x. fm_id x = fid) (file_idxs C))"
  using assms unfolding etss_flash_fs_mblock_get_file_idx_def
  by (intro reads_withS) (auto simp: file_idxs_unat intro!: reads_file_idx_loop)

lemma reads_get_file_idx_flag:
  assumes "act_ok s"
  shows "reads (etss_flash_fs_mblock_get_file_idx_flag fl) s
    (find_file (rF s) (\<lambda>x. fm_flags x AND fl \<noteq> 0) (file_idxs C))"
  using assms unfolding etss_flash_fs_mblock_get_file_idx_flag_def
  by (intro reads_withS) (auto simp: file_idxs_unat intro!: reads_file_idx_flag_loop)

lemma reads_get_file_idx_or:
  assumes "act_ok s"
    and "r = (case find_file (rF s) (\<lambda>x. fm_id x = fid) (file_idxs C) of Inl _ \<Rightarrow> Inl e | Inr x \<Rightarrow> Inr x)"
  shows "reads (orError (etss_flash_fs_mblock_get_file_idx fid) e) s r"
  using assms by (intro reads_orError [OF reads_get_file_idx])

text \<open>
  The search for a free entry swallows read errors: when the device fails it reports that no
  entry is free.
\<close>

lemma free_file_index_loop_wp:
  assumes "act_ok s" and "\<And>i. i \<in> set is \<Longrightarrow> unat i < mnf C"
    and "\<And>a d'. a = find_free (rF s) spare is \<or> (\<not> rel \<and> a = ETSS_METADATA_INVALID_INDEX) \<Longrightarrow> dok d' \<Longrightarrow>
      mem d' = mm s \<Longrightarrow> Q a (s\<lparr>flash := d'\<rparr>)"
  shows "wp (get_free_file_index_loop spare is) Q E s"
  using assms
proof (induction "is" arbitrary: s spare)
  case Nil
  have "s\<lparr>flash := flash s\<rparr> = s" by simp
  then show ?case using Nil(1) Nil(3) [of _ "flash s"] by auto
next
  case (Cons i "is")
  have i: "unat i < mnf C" using Cons.prems(2) by simp
  show ?case
    unfolding get_free_file_index_loop.simps wp_tryE
  proof (rule reads_wp [OF reads_file_meta [OF Cons.prems(1) i]])
    fix x d' assume x: "rF s i = Inr x" "dok d'" "mem d' = mm s"
    then have "wp (get_free_file_index_loop spare' is) Q E (s\<lparr>flash := d'\<rparr>)"
      if "\<And>a d'. a = find_free (rF s) spare' is \<or> (\<not> rel \<and> a = ETSS_METADATA_INVALID_INDEX) \<Longrightarrow> dok d' \<Longrightarrow>
      mem d' = mm s \<Longrightarrow> Q a (s\<lparr>flash := d'\<rparr>)" for spare'
      using Cons.IH [of "s\<lparr>flash := d'\<rparr>" spare'] Cons.prems(1,2) that by auto
    then show "wp (case Inr x of Inl _ \<Rightarrow> returnE ETSS_METADATA_INVALID_INDEX
         | Inr tmp_metadata \<Rightarrow>
             if etss_utils_validate_fid (fm_id tmp_metadata) \<noteq> Inr () then
               (if \<not> spare then get_free_file_index_loop True is else returnE i)
             else get_free_file_index_loop spare is) Q E (s\<lparr>flash := d'\<rparr>)"
      using x Cons.prems(3) by auto
  qed (use Cons.prems(3) in auto)
qed

lemma get_free_file_index_wp:
  assumes "act_ok s"
    and "\<And>a d'. a = find_free (rF s) spare (file_idxs C) \<or> (\<not> rel \<and> a = ETSS_METADATA_INVALID_INDEX) \<Longrightarrow>
      dok d' \<Longrightarrow> mem d' = mm s \<Longrightarrow> Q a (s\<lparr>flash := d'\<rparr>)"
  shows "wp (etss_get_free_file_index spare) Q E s"
proof -
  show ?thesis
    unfolding etss_get_free_file_index_def wp_withS
    by (rule free_file_index_loop_wp) (use assms file_idxs_unat in auto)
qed

lemma reads_reserve_loop:
  assumes "act_ok s" and "\<And>l. l \<in> set ls \<Longrightarrow> unat l < nad C"
  shows "reads (reserve_file_loop C fid len fl ls) s (find_room C (rB s) fid len fl ls)"
  using assms
proof (induction ls arbitrary: s)
  case Nil
  then show ?case by (auto intro!: reads_throwE)
next
  case (Cons l ls)
  show ?case
    unfolding reserve_file_loop.simps
  proof (rule reads_bindE [OF reads_block_meta_or [OF Cons.prems(1) _ refl]])
    show "unat l < nad C" using Cons.prems(2) by simp
    fix x d' assume x: "(case rB s l of Inl _ \<Rightarrow> Inl PSA_ERROR_GENERIC_ERROR | Inr x \<Rightarrow> Inr x) = Inr x"
      and d': "dok d'" "mem d' = mm s"
    then show "reads (if len \<le> bm_free_size x
        then returnE (\<lparr>fm_lblock = l, fm_data_idx = block_size C - bm_free_size x,
                 fm_cur_size = 0, fm_max_size = len, fm_flags = fl,
                 fm_id = take ETSS_FILE_ID_SIZE fid\<rparr>,
                x\<lparr>bm_free_size := bm_free_size x - len\<rparr>)
        else reserve_file_loop C fid len fl ls) (s\<lparr>flash := d'\<rparr>)
        (find_room C (rB s) fid len fl (l # ls))"
      using Cons.IH [of "s\<lparr>flash := d'\<rparr>"] Cons.prems
      by (auto split: sum.splits intro!: reads_returnE)
  qed (auto split: sum.splits)
qed

lemma reads_mblock_reserve:
  assumes "act_ok s"
  shows "reads (etss_mblock_reserve_file fid len fl) s (find_room C (rB s) fid len fl (lblock_idxs C))"
  using assms unfolding etss_mblock_reserve_file_def
  by (intro reads_withS) (auto simp: lblock_idxs_unat cfg intro!: reads_reserve_loop)

definition reserve_result where
  "reserve_result s fid spare len fl =
     (case find_room C (rB s) fid len fl (lblock_idxs C) of
        Inl _ \<Rightarrow> Inl PSA_ERROR_INSUFFICIENT_STORAGE
      | Inr (fm, bm) \<Rightarrow>
          let idx = find_free (rF s) spare (file_idxs C) in
          if idx = ETSS_METADATA_INVALID_INDEX then Inl PSA_ERROR_INSUFFICIENT_STORAGE
          else Inr (idx, fm, bm))"

lemma reads_reserve_file:
  assumes "act_ok s"
  shows "reads (etss_flash_fs_mblock_reserve_file fid spare len fl) s (reserve_result s fid spare len fl)"
  unfolding reads_def etss_flash_fs_mblock_reserve_file_def wp_tryE wp_bindE
  by (rule reads_wp [OF reads_mblock_reserve [OF assms]]; rule get_free_file_index_wp)
    (use assms in \<open>auto simp: reserve_result_def Let_def split: sum.splits prod.splits\<close>)

text \<open>The logical to physical translation swallows errors too.\<close>

lemma lo_to_phy_wp:
  assumes "act_ok s" and "unat l < nad C"
    and "\<And>a d'. (case rB s l of Inl _ \<Rightarrow> a = ETSS_BLOCK_INVALID_ID | Inr bm \<Rightarrow> a = bm_phy_id bm)
        \<or> (\<not> rel \<and> a = ETSS_BLOCK_INVALID_ID) \<Longrightarrow> dok d' \<Longrightarrow> mem d' = mm s \<Longrightarrow> Q a (s\<lparr>flash := d'\<rparr>)"
  shows "wp (etss_dblock_lo_to_phy l) Q E s"
  unfolding etss_dblock_lo_to_phy_def wp_tryE
  by (rule reads_wp [OF reads_block_meta [OF assms(1,2)]]) (use assms(3) in auto)

text \<open>The bytes of a range of a file, in the physical block of its logical block.\<close>

definition data_read where
  "data_read s x off len =
     (case rB s (fm_lblock x) of Inl _ \<Rightarrow> Inl PSA_ERROR_GENERIC_ERROR
      | Inr bm \<Rightarrow> Inr (bslice (unat (fm_data_idx x) + unat off) (unat len) (mm s (bm_phy_id bm))))"

lemma data_read_upd [simp]: "mem d = mm s \<Longrightarrow> data_read (s\<lparr>flash := d\<rparr>) x off len = data_read s x off len"
  by (simp add: data_read_def split: sum.split)

lemma reads_dblock_read:
  assumes "act_ok s" and "unat (fm_lblock x) < nad C"
    and fits: "unat (fm_data_idx x) + unat off + unat len \<le> unat (block_size C)"
  shows "reads (etss_flash_fs_dblock_read_file x off len) s (data_read s x off len)"
  unfolding reads_def etss_flash_fs_dblock_read_file_def wp_bindE
proof (rule lo_to_phy_wp [OF assms(1,2)])
  fix a d' assume a: "(case rB s (fm_lblock x) of Inl _ \<Rightarrow> a = ETSS_BLOCK_INVALID_ID | Inr bm \<Rightarrow> a = bm_phy_id bm)
        \<or> (\<not> rel \<and> a = ETSS_BLOCK_INVALID_ID)" and d': "dok d'" "mem d' = mm s"
  have off: "unat (fm_data_idx x + off) = unat (fm_data_idx x) + unat off"
    using fits unat_u32_less [of "block_size C"] by (simp add: unat_add_u32)
  have phy: "a < ucast (num_blocks C) \<and> a \<noteq> ETSS_BLOCK_INVALID_ID \<and> rB s (fm_lblock x) = Inr bm" if "a = bm_phy_id bm" "rB s (fm_lblock x) = Inr bm" for bm
    using that validate_block_meta_Inr_iff [OF cfg, of bm] unat_u16_less [of "num_blocks C"]
    by (auto simp: rbm_Inr_iff word_less_nat_alt ETSS_BLOCK_INVALID_ID_def)
  show "wp (if a = ETSS_BLOCK_INVALID_ID then throwE PSA_ERROR_GENERIC_ERROR
           else let pos = fm_data_idx x + off in flash_read a pos len)
        (\<lambda>a s'. data_read s x off len = Inr a \<and> (\<exists>d'. s' = s\<lparr>flash := d'\<rparr> \<and> dok d' \<and> mem d' = mm s))
        (\<lambda>e s'. (data_read s x off len = Inl e \<or> \<not> rel) \<and> (\<exists>d'. s' = s\<lparr>flash := d'\<rparr> \<and> dok d' \<and> mem d' = mm s))
        (s\<lparr>flash := d'\<rparr>)"
  proof (cases "a = ETSS_BLOCK_INVALID_ID")
    case True
    then show ?thesis using a d' phy by (auto simp: data_read_def split: sum.splits)
  next
    case False
    with a obtain bm where bm: "rB s (fm_lblock x) = Inr bm" "a = bm_phy_id bm" by (auto split: sum.splits)
    from phy [OF bm(2,1)] have "a < ucast (num_blocks C)" by simp
    then have "wp (flash_read a (fm_data_idx x + off) len)
        (\<lambda>a s'. data_read s x off len = Inr a \<and> (\<exists>d'. s' = s\<lparr>flash := d'\<rparr> \<and> dok d' \<and> mem d' = mm s))
        (\<lambda>e s'. (data_read s x off len = Inl e \<or> \<not> rel) \<and> (\<exists>d'. s' = s\<lparr>flash := d'\<rparr> \<and> dok d' \<and> mem d' = mm s))
        (s\<lparr>flash := d'\<rparr>)"
      by (rule flash_read_wp [rotated]) (use assms(1) d' off fits bm in \<open>auto simp: data_read_def\<close>)
    then show ?thesis using False by simp
  qed
qed

section \<open>Existence, information and contents of a file\<close>

definition lookup where
  "lookup s fid = (case find_file (rF s) (\<lambda>x. fm_id x = fid) (file_idxs C) of
     Inl _ \<Rightarrow> Inl PSA_ERROR_DOES_NOT_EXIST | Inr i \<Rightarrow> Inr i)"

lemma find_file_Inr:
  "find_file f P is = Inr i \<Longrightarrow> i \<in> set is \<and> (\<exists>x. f i = Inr x \<and> P x)"
  by (induction "is") (auto split: sum.splits if_splits)

lemma lookup_Inr: "lookup s fid = Inr i \<Longrightarrow> unat i < mnf C \<and> (\<exists>x. rF s i = Inr x \<and> fm_id x = fid)"
  by (auto simp: lookup_def file_idxs_unat dest!: find_file_Inr split: sum.splits)

lemma reads_lookup:
  "act_ok s \<Longrightarrow> reads (orError (etss_flash_fs_mblock_get_file_idx fid) PSA_ERROR_DOES_NOT_EXIST) s (lookup s fid)"
  by (rule reads_get_file_idx_or) (auto simp: lookup_def)

definition info_of :: "etss_file_meta_t \<Rightarrow> etss_file_info_t" where
  "info_of x = \<lparr>size_current = fm_cur_size x, size_max = fm_max_size x,
     info_flags = fm_flags x AND ETSS_FLASH_FS_USER_FLAGS_MASK\<rparr>"

lemma reads_file_exist:
  assumes "act_ok s"
  shows "reads (etss_flash_fs_file_exist fid) s (case lookup s fid of Inl e \<Rightarrow> Inl e | Inr _ \<Rightarrow> Inr ())"
  unfolding etss_flash_fs_file_exist_def
  by (rule reads_bindE [OF reads_lookup [OF assms]]) (use assms in \<open>auto intro!: reads_returnE\<close>)

lemma reads_file_get_info:
  assumes "act_ok s"
  shows "reads (etss_flash_fs_file_get_info fid) s
    (case lookup s fid of Inl e \<Rightarrow> Inl e
     | Inr i \<Rightarrow> Inr (info_of (fmv C (mm s) (active_metablock s) (unat i))))"
  unfolding etss_flash_fs_file_get_info_def
proof (rule reads_bindE [OF reads_lookup [OF assms]])
  fix i d' assume i: "lookup s fid = Inr i" and d': "dok d'" "mem d' = mm s"
  from lookup_Inr [OF i] obtain x where x: "unat i < mnf C" "rF s i = Inr x" "fm_id x = fid" by blast
  have a: "act_ok (s\<lparr>flash := d'\<rparr>)" using assms d' by simp
  show "reads (bindE (etss_flash_fs_mblock_read_file_meta i) (\<lambda>tmp_metadata.
     if fid \<noteq> fm_id tmp_metadata then throwE PSA_ERROR_DOES_NOT_EXIST
     else returnE \<lparr>size_current = fm_cur_size tmp_metadata, size_max = fm_max_size tmp_metadata,
            info_flags = fm_flags tmp_metadata AND ETSS_FLASH_FS_USER_FLAGS_MASK\<rparr>)) (s\<lparr>flash := d'\<rparr>)
     (case lookup s fid of Inl e \<Rightarrow> Inl e | Inr i \<Rightarrow> Inr (info_of (fmv C (mm s) (active_metablock s) (unat i))))"
    by (rule reads_bindE [OF reads_file_meta [OF a x(1)]])
      (use i x a d' assms in \<open>auto simp: info_of_def rfm_Inr_iff intro!: reads_returnE\<close>)
qed auto

definition read_result where
  "read_result s fid len off =
     (case lookup s fid of Inl e \<Rightarrow> Inl e
      | Inr i \<Rightarrow> (let x = fmv C (mm s) (active_metablock s) (unat i) in
          if unat off + unat len \<le> unat (fm_cur_size x) then data_read s x off len
          else Inl PSA_ERROR_INVALID_ARGUMENT))"

lemma reads_file_read:
  assumes "act_ok s" and fid: "etss_utils_validate_fid fid = Inr ()"
  shows "reads (etss_flash_fs_file_read fid len off) s (read_result s fid len off)"
  unfolding etss_flash_fs_file_read_def
proof (rule reads_bindE [OF reads_lookup [OF assms(1)]])
  fix i d' assume i: "lookup s fid = Inr i" and d': "dok d'" "mem d' = mm s"
  from lookup_Inr [OF i] obtain x where x: "unat i < mnf C" "rF s i = Inr x" "fm_id x = fid" by blast
  then have xv: "etss_mblock_validate_file_meta C x = Inr ()" "x = fmv C (mm s) (active_metablock s) (unat i)"
    by (auto simp: rfm_Inr_iff)
  have fits: "unat (fm_data_idx x) + unat off + unat len \<le> unat (block_size C)" "unat (fm_lblock x) < nad C"
    if "unat off + unat len \<le> unat (fm_cur_size x)"
    using that validate_file_meta_Inr [OF cfg xv(1)] fid x(3) by auto
  let ?s = "s\<lparr>flash := d'\<rparr>"
  have a: "act_ok ?s" using assms d' by simp
  show "reads (bindE (orError (etss_flash_fs_mblock_read_file_meta i) PSA_ERROR_GENERIC_ERROR) (\<lambda>tmp_metadata.
     if fid \<noteq> fm_id tmp_metadata then throwE PSA_ERROR_DOES_NOT_EXIST
     else bindE (liftE (etss_utils_check_contained_in (fm_cur_size tmp_metadata) off len)) (\<lambda>_.
       orError (etss_flash_fs_dblock_read_file tmp_metadata off len) PSA_ERROR_GENERIC_ERROR)))
     ?s (read_result s fid len off)"
  proof (rule reads_bindE [OF reads_file_meta_or [OF a x(1) refl]])
    fix y d'' assume y: "(case rF ?s i of Inl _ \<Rightarrow> Inl PSA_ERROR_GENERIC_ERROR | Inr x \<Rightarrow> Inr x) = Inr y"
      and d'': "dok d''" "mem d'' = mm ?s"
    have yx: "y = x" using y x(2) d' by auto
    let ?t = "s\<lparr>flash := d''\<rparr>"
    have t: "act_ok ?t" "mm ?t = mm s" using assms d'' d' by simp_all
    show "reads (if fid \<noteq> fm_id y then throwE PSA_ERROR_DOES_NOT_EXIST
       else bindE (liftE (etss_utils_check_contained_in (fm_cur_size y) off len)) (\<lambda>_.
         orError (etss_flash_fs_dblock_read_file y off len) PSA_ERROR_GENERIC_ERROR))
       (?s\<lparr>flash := d''\<rparr>) (read_result s fid len off)"
    proof (cases "unat off + unat len \<le> unat (fm_cur_size x)")
      case True
      have rr: "read_result s fid len off =
          (case data_read s x off len of Inl _ \<Rightarrow> Inl PSA_ERROR_GENERIC_ERROR | Inr b \<Rightarrow> Inr b)"
        using True i xv(2) by (auto simp: read_result_def Let_def data_read_def split: sum.splits)
      have chk: "etss_utils_check_contained_in (fm_cur_size x) off len = Inr ()"
        using True by (simp add: check_contained_in_Inr_iff)
      show ?thesis
        unfolding rr yx using t d'' x(3) chk assms(1)
        by (auto intro!: reads_bindE [OF reads_liftE] reads_orError [OF reads_dblock_read]
            simp: fits [OF True] split: sum.splits)
    next
      case False
      then have "etss_utils_check_contained_in (fm_cur_size x) off len = Inl PSA_ERROR_INVALID_ARGUMENT"
        by (simp add: check_contained_in_Inl)
      then show ?thesis
        using False i xv(2) x(3) yx t
        by (auto simp: read_result_def Let_def intro!: reads_bindE [OF reads_liftE])
    qed
  qed (use x d' in auto)
qed (auto simp: read_result_def)

end

end
