(* ===== verification/Flash_Fs_Update.thy ===== *)
theory Flash_Fs_Update
  imports Flash_Fs_Query
begin

text \<open>
  The operations that program the scratch blocks, each as filling a region of a block with a part
  of an image: the chunked copy between blocks, single table entries, the rest of the block table,
  ranges of the file table and the data behind the tables.
\<close>

context fs_dev
begin

section \<open>The chunked copy\<close>

lemma move_wp:
  assumes "sok s" and "dst < ucast (num_blocks C)" and "src < ucast (num_blocks C)" and "dst \<noteq> src"
    and "unat doff + unat len \<le> unat (block_size C)" and "unat soff + unat len \<le> unat (block_size C)"
    and "\<And>p. unat doff \<le> p \<Longrightarrow> p < unat doff + unat len \<Longrightarrow> mm s dst ! p = erase_val C"
    and "\<And>i. i < unat len \<Longrightarrow> T (unat doff + i) = mm s src ! (unat soff + i)"
    and "\<And>d'. dok d' \<Longrightarrow> mem d' = fillM (mm s) dst {unat doff..<unat doff + unat len} T \<Longrightarrow> Q () (s\<lparr>flash := d'\<rparr>)"
    and "\<And>e d'. \<not> rel \<Longrightarrow> dok d' \<Longrightarrow> (\<And>b'. b' \<noteq> dst \<Longrightarrow> mem d' b' = mm s b') \<Longrightarrow> E e (s\<lparr>flash := d'\<rparr>)"
  shows "wp (etss_flash_fs_block_to_block_move dst doff src soff len) Q E s"
  using assms
proof (induction dst doff src soff len arbitrary: s rule: etss_flash_fs_block_to_block_move.induct)
  case (1 dst doff src soff len)
  show ?case
  proof (cases "len > 0")
    case False
    then have len: "len = 0" by (simp add: word_greater_zero_iff)
    show ?thesis
      using 1(2) 1(10) [of "flash s"] len by (simp add: etss_flash_fs_block_to_block_move.simps)
  next
    case True
    define k where "k = ETSS_UTILS_MIN len ETSS_MAX_BLOCK_DATA_COPY"
    have k: "0 < unat k" "unat k \<le> unat len" "unat (len - k) = unat len - unat k"
      using move_chunk_bounds [OF True] move_rest_unat [of len] by (simp_all add: k_def)
    have bs: "unat (block_size C) < 4294967296" by (rule unat_u32_less)
    have off: "unat (doff + k) = unat doff + unat k" "unat (soff + k) = unat soff + unat k"
      using 1(6,7) k(2) bs by (simp_all add: unat_add_u32)
    have src_len: "length (mm s src) = unat (block_size C)" using 1(2,4) by (rule mm_length)
    have dst_len: "length (mm s dst) = unat (block_size C)" using 1(2,3) by (rule mm_length)
    let ?rest = "etss_flash_fs_block_to_block_move dst (doff + k) src (soff + k) (len - k)"
    have "wp (bindE (flash_read src soff k) (\<lambda>c. bindE (flash_write dst c doff k) (\<lambda>_. ?rest))) Q E s"
      unfolding wp_bindE
    proof (rule flash_read_wp [OF 1(2,4)])
      show "unat soff + unat k \<le> unat (block_size C)" using 1(7) k by simp
    next
      fix e d' assume "\<not> rel" "dok d'" "mem d' = mm s"
      then show "E e (s\<lparr>flash := d'\<rparr>)" by (intro 1(11)) simp_all
    next
      fix d' assume d': "dok d'" "mem d' = mm s"
      let ?c = "bslice (unat soff) (unat k) (mm s src)"
      show "wp (flash_write dst ?c doff k) (\<lambda>_. wp ?rest Q E) E (s\<lparr>flash := d'\<rparr>)"
      proof (rule flash_write_wp [where T = T])
        show "sok (s\<lparr>flash := d'\<rparr>)" using 1(2) d' by simp
        show "dst < ucast (num_blocks C)" by (rule 1(3))
        show "unat doff + unat k \<le> unat (block_size C)" using 1(6) k by simp
        show "unat k \<le> length ?c" using 1(7) k src_len by (simp add: length_bslice)
        show "mm (s\<lparr>flash := d'\<rparr>) dst ! p = erase_val C" if "unat doff \<le> p" "p < unat doff + unat k" for p
          using 1(8) [of p] that k d' by simp
        show "?c ! i = T (unat doff + i)" if "i < unat k" for i
          using that 1(7,9) k src_len by (simp add: nth_bslice)
        fix e d'' assume "\<not> rel" "dok d''" "\<And>b'. b' \<noteq> dst \<Longrightarrow> mem d'' b' = mm (s\<lparr>flash := d'\<rparr>) b'"
        then show "E e (s\<lparr>flash := d', flash := d''\<rparr>)" using 1(11) d' by simp
      next
        fix d'' assume d'': "dok d''"
          "mem d'' = fillM (mm (s\<lparr>flash := d'\<rparr>)) dst {unat doff..<unat doff + unat k} T"
        then have m: "mem d'' = fillM (mm s) dst {unat doff..<unat doff + unat k} T" using d' by simp
        show "wp ?rest Q E (s\<lparr>flash := d', flash := d''\<rparr>)"
        proof (rule 1(1) [OF True k_def], goal_cases)
          case (7 p)
          then show ?case using 1(6) 1(8) [of p] m k off dst_len by (simp add: nth_fillM)
        next
          case (8 i)
          then show ?case using 1(9) [of "unat k + i"] m k off 1(5) by (simp add: add.assoc)
        next
          case (9 d3)
          have "{unat doff..<unat doff + unat k} \<union> {unat doff + unat k..<unat doff + unat len} =
              {unat doff..<unat doff + unat len}"
            using k by auto
          then show ?case using 1(10) [of d3] 9 m k off by simp
        next
          case (10 d3 e)
          have "E e (s\<lparr>flash := d3\<rparr>)"
            by (rule 1(11)) (use 10 m in auto)
          then show ?case by simp
        qed (use 1 m d'' k off in auto)
      qed
    qed
    then show ?thesis
      using True by (subst etss_flash_fs_block_to_block_move.simps) (simp add: k_def Let_def)
  qed
qed

section \<open>Table entries and table ranges\<close>

text \<open>A mounted state: the metadata blocks are the blocks 0 and 1, one active and one scratch.\<close>

definition metas :: "'d fs_state \<Rightarrow> bool" where
  "metas s \<longleftrightarrow> sok s \<and> (active_metablock s, scratch_metablock s) \<in> {(0, 1), (1, 0)}"

lemma metas_simps [simp]:
  "metas s \<Longrightarrow> sok s" "metas s \<Longrightarrow> act_ok s"
  "metas s \<Longrightarrow> active_metablock s < ucast (num_blocks C)"
  "metas s \<Longrightarrow> scratch_metablock s < ucast (num_blocks C)"
  "metas s \<Longrightarrow> scratch_metablock s \<noteq> active_metablock s"
  "metas s \<Longrightarrow> active_metablock s \<noteq> scratch_metablock s"
  "metas s \<Longrightarrow> dok d \<Longrightarrow> metas (s\<lparr>flash := d\<rparr>)"
  "metas (s\<lparr>meta_block_header := h\<rparr>) = metas s"
  by (auto simp: metas_def act_ok_def intro: act_less)

lemma metas_ids: "metas s \<Longrightarrow> active_metablock s = 0 \<or> active_metablock s = 1"
  "metas s \<Longrightarrow> scratch_metablock s = 0 \<or> scratch_metablock s = 1"
  unfolding metas_def by auto

text \<open>The region \<open>R\<close> of block \<open>b\<close> is erased.\<close>

definition erased_on :: "(u32 \<Rightarrow> buf) \<Rightarrow> u32 \<Rightarrow> nat set \<Rightarrow> bool" where
  "erased_on m b R \<longleftrightarrow> (\<forall>p\<in>R. m b ! p = erase_val C)"

lemma erased_onD: "erased_on m b R \<Longrightarrow> p \<in> R \<Longrightarrow> m b ! p = erase_val C"
  by (simp add: erased_on_def)

lemma erased_on_mono: "erased_on m b R \<Longrightarrow> R' \<subseteq> R \<Longrightarrow> erased_on m b R'"
  by (auto simp: erased_on_def)

lemma erased_on_fillM:
  "erased_on m b R \<Longrightarrow> R \<inter> R' = {} \<Longrightarrow> R \<subseteq> {..<length (m b)} \<Longrightarrow> erased_on (fillM m b R' T) b R"
  by (force simp: erased_on_def nth_fillM)

lemma erased_on_fillM_other: "b \<noteq> b' \<Longrightarrow> erased_on (fillM m b' R' T) b R = erased_on m b R"
  by (simp add: erased_on_def)

lemma copy_meta_wp:
  assumes "metas s" and "unat pos + unat len \<le> unat (block_size C)"
    and "erased_on (mm s) (scratch_metablock s) {unat pos..<unat pos + unat len}"
    and "\<And>p. unat pos \<le> p \<Longrightarrow> p < unat pos + unat len \<Longrightarrow> T p = mm s (active_metablock s) ! p"
    and "\<And>d'. dok d' \<Longrightarrow> mem d' = fillM (mm s) (scratch_metablock s) {unat pos..<unat pos + unat len} T \<Longrightarrow>
      Q () (s\<lparr>flash := d'\<rparr>)"
    and "\<And>e d'. \<not> rel \<Longrightarrow> dok d' \<Longrightarrow> (\<And>b'. b' \<noteq> scratch_metablock s \<Longrightarrow> mem d' b' = mm s b') \<Longrightarrow>
      E e (s\<lparr>flash := d'\<rparr>)"
  shows "wp (etss_flash_fs_block_to_block_move (scratch_metablock s) pos (active_metablock s) pos len) Q E s"
  by (rule move_wp [where T = T]) (use assms in \<open>auto dest: erased_onD\<close>)

lemma update_file_meta_wp:
  assumes "metas s" and i: "unat i < mnf C" and "length (fm_id x) = 12"
    and "erased_on (mm s) (scratch_metablock s) {foff C (unat i)..<foff C (unat i) + 32}"
    and "\<And>k. k < 32 \<Longrightarrow> T (foff C (unat i) + k) = encode_file_meta x ! k"
    and "\<And>d'. dok d' \<Longrightarrow>
      mem d' = fillM (mm s) (scratch_metablock s) {foff C (unat i)..<foff C (unat i) + 32} T \<Longrightarrow>
      Q () (s\<lparr>flash := d'\<rparr>)"
    and "\<And>e d'. \<not> rel \<Longrightarrow> dok d' \<Longrightarrow> (\<And>b'. b' \<noteq> scratch_metablock s \<Longrightarrow> mem d' b' = mm s b') \<Longrightarrow>
      E e (s\<lparr>flash := d'\<rparr>)"
  shows "wp (etss_flash_fs_mblock_update_scratch_file_meta i x) Q E s"
proof -
  have "unat (etss_mblock_file_meta_offset C i) = foff C (unat i)"
    using i mnf_less [of C] cfg by simp
  then show ?thesis
    unfolding etss_flash_fs_mblock_update_scratch_file_meta_def wp_withS
    by (intro flash_write_wp [where T = T])
      (use assms foff_le_block [OF cfg i] in \<open>auto simp: mblock_consts dest: erased_onD\<close>)
qed

lemma update_block_meta_wp:
  assumes "metas s" and l: "unat l < nad C"
    and "erased_on (mm s) (scratch_metablock s) {boff (unat l)..<boff (unat l) + 12}"
    and "\<And>k. k < 12 \<Longrightarrow> T (boff (unat l) + k) = encode_block_meta x ! k"
    and "\<And>d'. dok d' \<Longrightarrow>
      mem d' = fillM (mm s) (scratch_metablock s) {boff (unat l)..<boff (unat l) + 12} T \<Longrightarrow>
      Q () (s\<lparr>flash := d'\<rparr>)"
    and "\<And>e d'. \<not> rel \<Longrightarrow> dok d' \<Longrightarrow> (\<And>b'. b' \<noteq> scratch_metablock s \<Longrightarrow> mem d' b' = mm s b') \<Longrightarrow>
      E e (s\<lparr>flash := d'\<rparr>)"
  shows "wp (etss_mblock_update_scratch_block_meta l x) Q E s"
proof -
  have "unat (etss_mblock_block_meta_offset l) = boff (unat l)"
    using l nad_less [of C] by simp
  then show ?thesis
    unfolding etss_mblock_update_scratch_block_meta_def wp_withS
    by (intro flash_write_wp [where T = T])
      (use assms boff_le_block [OF cfg l] in \<open>auto simp: mblock_consts dest: erased_onD\<close>)
qed

lemma cp_file_meta_wp:
  assumes "metas s" and ij: "unat i \<le> unat j" "unat j \<le> mnf C"
    and "erased_on (mm s) (scratch_metablock s) {foff C (unat i)..<foff C (unat j)}"
    and "\<And>p. foff C (unat i) \<le> p \<Longrightarrow> p < foff C (unat j) \<Longrightarrow> T p = mm s (active_metablock s) ! p"
    and "\<And>d'. dok d' \<Longrightarrow>
      mem d' = fillM (mm s) (scratch_metablock s) {foff C (unat i)..<foff C (unat j)} T \<Longrightarrow>
      Q () (s\<lparr>flash := d'\<rparr>)"
    and "\<And>e d'. \<not> rel \<Longrightarrow> dok d' \<Longrightarrow> (\<And>b'. b' \<noteq> scratch_metablock s \<Longrightarrow> mem d' b' = mm s b') \<Longrightarrow>
      E e (s\<lparr>flash := d'\<rparr>)"
  shows "wp (etss_flash_fs_mblock_cp_file_meta i j) Q E s"
proof -
  have u: "unat (etss_mblock_file_meta_offset C i) = foff C (unat i)"
    "unat (etss_mblock_file_meta_offset C j) = foff C (unat j)"
    using ij mnf_less [of C] cfg by simp_all
  have le: "foff C (unat i) \<le> foff C (unat j)" "foff C (unat j) \<le> foff C (mnf C)"
    using ij by (simp_all add: foff_def)
  have len: "unat (etss_mblock_file_meta_offset C j - etss_mblock_file_meta_offset C i) =
      foff C (unat j) - foff C (unat i)"
    using u le by (simp add: unat_sub_u32)
  show ?thesis
    unfolding etss_flash_fs_mblock_cp_file_meta_def wp_withS Let_def
    using assms(1) by (simp, intro copy_meta_wp [where T = T])
      (use assms u len le cfg_okD(3) [OF cfg] in auto)
qed

text \<open>
  The rest of the block table: entry 0 is rewritten with the scratch block as its physical block,
  the others are copied.
\<close>

lemma copy_front_wp:
  fixes l :: u32
  assumes m: "metas s" and l: "unat l < nad C" and lnz: "l \<noteq> 0"
    and b0: "rB s 0 = Inr bz"
    and er: "erased_on (mm s) (scratch_metablock s) {8..<boff (unat l)}"
    and T0: "\<And>k. k < 12 \<Longrightarrow> T (8 + k) = encode_block_meta (bz\<lparr>bm_phy_id := scratch_metablock s\<rparr>) ! k"
    and T: "\<And>p. 20 \<le> p \<Longrightarrow> p < boff (unat l) \<Longrightarrow> T p = mm s (active_metablock s) ! p"
    and Q: "\<And>d'. dok d' \<Longrightarrow> mem d' = fillM (mm s) (scratch_metablock s) {8..<boff (unat l)} T \<Longrightarrow> Q () (s\<lparr>flash := d'\<rparr>)"
    and E: "\<And>e d'. \<not> rel \<Longrightarrow> dok d' \<Longrightarrow> (\<And>b'. b' \<noteq> scratch_metablock s \<Longrightarrow> mem d' b' = mm s b') \<Longrightarrow>
      E e (s\<lparr>flash := d'\<rparr>)"
  shows "wp (bindE (orError (etss_flash_fs_mblock_read_block_metadata ETSS_LOGICAL_DBLOCK0)
            PSA_ERROR_GENERIC_ERROR) (\<lambda>block_meta.
          bindE (orError (etss_mblock_update_scratch_block_meta ETSS_LOGICAL_DBLOCK0
            (block_meta\<lparr>bm_phy_id := scratch_metablock s\<rparr>)) PSA_ERROR_GENERIC_ERROR) (\<lambda>_.
          if l > 1 then
            (let pos = etss_mblock_block_meta_offset (ETSS_LOGICAL_DBLOCK0 + 1);
                 len = etss_mblock_block_meta_offset l - pos
             in etss_flash_fs_block_to_block_move (scratch_metablock s) pos (active_metablock s) pos len)
          else returnE ()))) Q E s"
proof -
  let ?scr = "scratch_metablock s" and ?act = "active_metablock s"
  have z: "ETSS_LOGICAL_DBLOCK0 = 0" by (simp add: mblock_consts)
  have l0: "1 \<le> unat l" using lnz by (simp add: unat_gt_0 Suc_leI)
  have n0: "unat (0 :: u32) < nad C" using nad_pos [OF cfg] by simp
  have ln: "length (mm s ?scr) = unat (block_size C)" using m by (simp add: mm_length)
  have bl: "boff (unat l) \<le> unat (block_size C)" using boff_le_block [OF cfg l] by simp
  have b1: "20 \<le> boff (unat l)" using l0 by (simp add: boff_def)
  show ?thesis
    unfolding wp_bindE wp_orError z
  proof (rule reads_wp [OF reads_block_meta [OF _ n0]])
    show "act_ok s" using m by simp
    fix a d' assume a: "rB s 0 = Inr a" and d': "dok d'" "mem d' = mm s"
    let ?s = "s\<lparr>flash := d'\<rparr>"
    have ab: "a = bz" using a b0 by simp
    have es: "erased_on (mm ?s) (scratch_metablock ?s) {boff (unat (0::u32))..<boff (unat (0::u32)) + 12}"
      using er b1 d' by (auto simp: boff_def intro: erased_on_mono)
    show "wp (etss_mblock_update_scratch_block_meta 0 (a\<lparr>bm_phy_id := ?scr\<rparr>))
        (\<lambda>_. wp (if l > 1 then
            (let pos = etss_mblock_block_meta_offset (0 + 1);
                 len = etss_mblock_block_meta_offset l - pos
             in etss_flash_fs_block_to_block_move ?scr pos ?act pos len)
          else returnE ()) Q E) (\<lambda>_. E PSA_ERROR_GENERIC_ERROR) ?s"
    proof (rule update_block_meta_wp [where T = T, OF _ n0 es])
      show "metas ?s" using m d' by simp
      show "T (boff (unat (0::u32)) + k) = encode_block_meta (a\<lparr>bm_phy_id := ?scr\<rparr>) ! k" if "k < 12" for k
        using that T0 ab by (simp add: boff_def)
      fix d2 assume d2: "dok d2"
        "mem d2 = fillM (mm ?s) (scratch_metablock ?s) {boff (unat (0::u32))..<boff (unat (0::u32)) + 12} T"
      have m2: "mem d2 = fillM (mm s) ?scr {8..<20} T" using d2 d' by (simp add: boff_def)
      let ?t = "s\<lparr>flash := d2\<rparr>"
      have "wp (if l > 1 then etss_flash_fs_block_to_block_move ?scr (etss_mblock_block_meta_offset 1) ?act
              (etss_mblock_block_meta_offset 1) (etss_mblock_block_meta_offset l - etss_mblock_block_meta_offset 1)
          else returnE ()) Q E ?t"
      proof (cases "l > 1")
        case False
        then have "unat l = 1" using l0 by (simp add: word_less_nat_alt)
        then show ?thesis using False Q [of d2] d2(1) m2 by (simp add: boff_def)
      next
        case True
        have u1: "unat (etss_mblock_block_meta_offset 1) = 20" by (simp add: boff_def)
        have len: "unat (etss_mblock_block_meta_offset l - etss_mblock_block_meta_offset 1) = boff (unat l) - 20"
          using l nad_less [of C] b1 u1 by (simp add: unat_sub_u32)
        have eq: "{8..<20} \<union> {20..<boff (unat l)} = {8..<boff (unat l)}" using b1 by auto
        have "wp (etss_flash_fs_block_to_block_move (scratch_metablock ?t) (etss_mblock_block_meta_offset 1)
              (active_metablock ?t) (etss_mblock_block_meta_offset 1)
              (etss_mblock_block_meta_offset l - etss_mblock_block_meta_offset 1)) Q E ?t"
        proof (rule copy_meta_wp [where T = T])
          show "erased_on (mm ?t) (scratch_metablock ?t)
            {unat (etss_mblock_block_meta_offset 1)..<unat (etss_mblock_block_meta_offset 1) +
              unat (etss_mblock_block_meta_offset l - etss_mblock_block_meta_offset 1)}"
            using m2 len u1 b1 bl ln er
            by (auto intro!: erased_on_fillM intro: erased_on_mono)
          show "E e (?t\<lparr>flash := d3\<rparr>)"
            if "\<not> rel" "dok d3" "\<And>b'. b' \<noteq> scratch_metablock ?t \<Longrightarrow> mem d3 b' = mm ?t b'" for e d3
          proof -
            have "E e (s\<lparr>flash := d3\<rparr>)" by (rule E) (use that m2 in auto)
            then show ?thesis by simp
          qed
        qed (use m d2(1) m2 len u1 b1 bl T Q eq in auto)
        then show ?thesis using True by simp
      qed
      then show "wp (if l > 1 then
            (let pos = etss_mblock_block_meta_offset (0 + 1);
                 len = etss_mblock_block_meta_offset l - pos
             in etss_flash_fs_block_to_block_move ?scr pos ?act pos len)
          else returnE ()) Q E (?s\<lparr>flash := d2\<rparr>)" by (simp add: Let_def split: if_splits)
    next
      fix e d2 assume "\<not> rel" "dok d2" "\<And>b'. b' \<noteq> scratch_metablock ?s \<Longrightarrow> mem d2 b' = mm ?s b'"
      then show "E PSA_ERROR_GENERIC_ERROR (?s\<lparr>flash := d2\<rparr>)" using E d' by simp
    qed
  next
    fix e d' assume "rB s 0 = Inl e \<or> \<not> rel" "dok d'" "mem d' = mm s"
    then show "E PSA_ERROR_GENERIC_ERROR (s\<lparr>flash := d'\<rparr>)" using b0 E by auto
  qed
qed

lemma copy_remaining_wp:
  fixes l :: u32
  assumes m: "metas s" and l: "unat l < nad C"
    and b0: "l \<noteq> 0 \<Longrightarrow> rB s 0 = Inr bz"
    and er: "erased_on (mm s) (scratch_metablock s) ({8..<foff C 0} - {boff (unat l)..<boff (unat l) + 12})"
    and T0: "\<And>k. l \<noteq> 0 \<Longrightarrow> k < 12 \<Longrightarrow>
      T (8 + k) = encode_block_meta (bz\<lparr>bm_phy_id := scratch_metablock s\<rparr>) ! k"
    and T: "\<And>p. 20 \<le> p \<Longrightarrow> p < foff C 0 \<Longrightarrow> \<not> (boff (unat l) \<le> p \<and> p < boff (unat l) + 12) \<Longrightarrow>
      T p = mm s (active_metablock s) ! p"
    and Q: "\<And>d'. dok d' \<Longrightarrow> mem d' = fillM (mm s) (scratch_metablock s)
        ({8..<foff C 0} - {boff (unat l)..<boff (unat l) + 12}) T \<Longrightarrow> Q () (s\<lparr>flash := d'\<rparr>)"
    and E: "\<And>e d'. \<not> rel \<Longrightarrow> dok d' \<Longrightarrow> (\<And>b'. b' \<noteq> scratch_metablock s \<Longrightarrow> mem d' b' = mm s b') \<Longrightarrow>
      E e (s\<lparr>flash := d'\<rparr>)"
  shows "wp (etss_mblock_copy_remaining_block_meta l) Q E s"
proof -
  let ?scr = "scratch_metablock s" and ?act = "active_metablock s"
  let ?A = "{8..<boff (unat l)}" and ?L = "{boff (unat l)..<boff (unat l) + 12}"
  let ?pos = "etss_mblock_block_meta_offset (l + 1)"
  let ?len = "etss_mblock_file_meta_offset C 0 - ?pos"
  have z: "ETSS_LOGICAL_DBLOCK0 = 0" by (simp add: mblock_consts)
  have ln: "length (mm s ?scr) = unat (block_size C)" using m by (simp add: mm_length)
  have l1: "unat (l + 1) = unat l + 1" using l nad_less [of C] by (simp add: unat_add_u32)
  have pos: "unat ?pos = boff (unat l) + 12" using l l1 nad_less [of C] by (simp add: boff_def)
  have le: "boff (unat l) + 12 \<le> foff C 0" "foff C 0 \<le> unat (block_size C)" "8 \<le> boff (unat l)"
    using boff_le [OF l] cfg_okD(3) [OF cfg] foff_ge_0 [of C "mnf C"] by (auto simp: boff_def)
  have len: "unat ?len = foff C 0 - (boff (unat l) + 12)"
    using pos le cfg by (simp add: unat_sub_u32)
  have eA: "erased_on (mm s) ?scr ?A" by (rule erased_on_mono [OF er]) (use le in auto)
  have eq: "?A \<union> {boff (unat l) + 12..<foff C 0} = {8..<foff C 0} - ?L" using le by auto
  have tail: "wp (etss_flash_fs_block_to_block_move ?scr ?pos ?act ?pos ?len) Q E (s\<lparr>flash := d\<rparr>)"
    if d: "dok d" "mem d = fillM (mm s) ?scr ?A T" for d
  proof -
    let ?t = "s\<lparr>flash := d\<rparr>"
    have "wp (etss_flash_fs_block_to_block_move (scratch_metablock ?t) ?pos (active_metablock ?t) ?pos ?len) Q E ?t"
    proof (rule copy_meta_wp [where T = T])
      show "erased_on (mm ?t) (scratch_metablock ?t) {unat ?pos..<unat ?pos + unat ?len}"
        unfolding pos len using d le ln
        by (auto intro!: erased_on_fillM erased_on_mono [OF er])
      show "E e (?t\<lparr>flash := d3\<rparr>)"
        if "\<not> rel" "dok d3" "\<And>b'. b' \<noteq> scratch_metablock ?t \<Longrightarrow> mem d3 b' = mm ?t b'" for e d3
      proof -
        have "E e (s\<lparr>flash := d3\<rparr>)" by (rule E) (use that d in auto)
        then show ?thesis by simp
      qed
    qed (use m d pos len le T Q eq in \<open>auto simp: boff_def\<close>)
    then show ?thesis by simp
  qed
  show ?thesis
  proof (cases "l = 0")
    case True
    have "s\<lparr>flash := flash s\<rparr> = s" by simp
    then show ?thesis
      using tail [of "flash s"] True m
      by (simp add: etss_mblock_copy_remaining_block_meta_def Let_def z boff_def)
  next
    case False
    show ?thesis
      unfolding etss_mblock_copy_remaining_block_meta_def wp_withS Let_def wp_bindE [of "if _ then _ else _"]
      using False
      by (simp only: z if_True not_False_eq_True simp_thms, intro copy_front_wp [where T = T, unfolded z Let_def])
        (use m tail b0 T0 T E eA l le in simp_all)
  qed
qed

text \<open>A new block table in the scratch metadata block.\<close>

lemma scratch_block_meta_wp:
  assumes m: "metas s" and l: "unat l < nad C"
    and b0: "l \<noteq> 0 \<Longrightarrow> rB s 0 = Inr (bmv (mm s) (active_metablock s) 0)"
    and er: "erased_on (mm s) (scratch_metablock s) {8..<foff C 0}"
    and Bl: "B (unat l) = (if l = 0 then x\<lparr>bm_phy_id := scratch_metablock s\<rparr> else x)"
    and B0: "l \<noteq> 0 \<Longrightarrow> B 0 = (bmv (mm s) (active_metablock s) 0)\<lparr>bm_phy_id := scratch_metablock s\<rparr>"
    and Bk: "\<And>k. k < nad C \<Longrightarrow> k \<noteq> 0 \<Longrightarrow> k \<noteq> unat l \<Longrightarrow> B k = bmv (mm s) (active_metablock s) k"
    and Q: "\<And>d'. dok d' \<Longrightarrow> mem d' = fillM (mm s) (scratch_metablock s) {8..<foff C 0} (mb_image C B F D) \<Longrightarrow>
      Q () (s\<lparr>flash := d'\<rparr>)"
    and E: "\<And>e d'. \<not> rel \<Longrightarrow> dok d' \<Longrightarrow> (\<And>b'. b' \<noteq> scratch_metablock s \<Longrightarrow> mem d' b' = mm s b') \<Longrightarrow>
      E e (s\<lparr>flash := d'\<rparr>)"
  shows "wp (etss_flash_fs_mblock_update_scratch_block_meta l x) Q E s"
proof -
  let ?T = "mb_image C B F D" and ?scr = "scratch_metablock s" and ?act = "active_metablock s"
  let ?L = "{boff (unat l)..<boff (unat l) + 12}"
  have z: "ETSS_LOGICAL_DBLOCK0 = 0" by (simp add: mblock_consts)
  have le: "boff (unat l) + 12 \<le> foff C 0" "foff C 0 \<le> unat (block_size C)" "8 \<le> boff (unat l)"
    using boff_le [OF l] cfg_okD(3) [OF cfg] foff_ge_0 [of C "mnf C"] by (auto simp: boff_def)
  have ln: "length (mm s ?scr) = unat (block_size C)" "length (mm s ?act) = unat (block_size C)"
    using m by (simp_all add: mm_length)
  have eL: "erased_on (mm s) ?scr ?L" by (rule erased_on_mono [OF er]) (use le in auto)
  have split: "?L \<union> ({8..<foff C 0} - ?L) = {8..<foff C 0}" using le by auto
  have Tp: "?T p = mm s ?act ! p"
    if p: "20 \<le> p" "p < foff C 0" "\<not> (boff (unat l) \<le> p \<and> p < boff (unat l) + 12)" for p
  proof (rule image_bmv [where m = "mm s", OF cfg ln(2)])
    let ?k = "(p - 8) div 12"
    have pk: "boff ?k \<le> p" "p < boff ?k + 12"
      using p(1) div_mult_mod_eq [of "p - 8" 12] mod_less_divisor [of 12 "p - 8"] by (auto simp: boff_def)
    have "?k < nad C" using p by (simp add: foff_def div_less_iff_less_mult)
    moreover have "?k \<noteq> 0" using p(1) by (simp add: div_eq_0_iff)
    moreover have "?k \<noteq> unat l" using p(3) pk by auto
    ultimately show "B ?k = bmv (mm s) ?act ?k" by (rule Bk)
  qed (use p in auto)
  have copy: "wp (etss_mblock_copy_remaining_block_meta l) Q E (s\<lparr>flash := d\<rparr>)"
    if d: "dok d" "mem d = fillM (mm s) ?scr ?L ?T" for d
  proof (rule copy_remaining_wp [where T = ?T and bz = "bmv (mm s) ?act 0"])
    let ?s = "s\<lparr>flash := d\<rparr>"
    have act: "mm ?s ?act = mm s ?act" using m d by simp
    show "rB ?s 0 = Inr (bmv (mm s) ?act 0)" if "l \<noteq> 0"
      using b0 [OF that] table_cong(3) [of "mm ?s" ?act "mm s" C, OF act] by simp
    show "erased_on (mm ?s) (scratch_metablock ?s) ({8..<foff C 0} - ?L)"
      using d ln le by (auto intro!: erased_on_fillM erased_on_mono [OF er])
    show "?T p = mm ?s (active_metablock ?s) ! p"
      if "20 \<le> p" "p < foff C 0" "\<not> (boff (unat l) \<le> p \<and> p < boff (unat l) + 12)" for p
      using Tp [OF that] act by simp
    show "?T (8 + k) = encode_block_meta ((bmv (mm s) ?act 0)\<lparr>bm_phy_id := scratch_metablock ?s\<rparr>) ! k"
      if "l \<noteq> 0" "k < 12" for k
      using image_block [of 0 C k B F D] that B0 nad_pos [OF cfg] by (simp add: boff_def)
    show "E e (?s\<lparr>flash := d'\<rparr>)"
      if "\<not> rel" "dok d'" "\<And>b'. b' \<noteq> scratch_metablock ?s \<Longrightarrow> mem d' b' = mm ?s b'" for e d'
    proof -
      have "E e (s\<lparr>flash := d'\<rparr>)" by (rule E) (use that d in auto)
      then show ?thesis by simp
    qed
    show "Q () (?s\<lparr>flash := d'\<rparr>)" if "dok d'"
      "mem d' = fillM (mm ?s) (scratch_metablock ?s) ({8..<foff C 0} - ?L) ?T" for d'
      using that d Q [of d'] split by simp
  qed (use m d l in auto)
  show ?thesis
    unfolding etss_flash_fs_mblock_update_scratch_block_meta_def wp_withS Let_def wp_bindE wp_orError z
    by (rule update_block_meta_wp [where T = ?T, OF m l eL])
      (use copy E Bl image_block [OF l, of _ B F D] in auto)
qed

section \<open>The data behind the tables\<close>

lemma migrate_wp:
  assumes m: "metas s" and b0: "rB s 0 = Inr b0" and phy: "bm_phy_id b0 = active_metablock s"
    and er: "erased_on (mm s) (scratch_metablock s)
      {foff C (mnf C)..<unat (block_size C) - unat (bm_free_size b0)}"
    and T: "\<And>p. foff C (mnf C) \<le> p \<Longrightarrow> p < unat (block_size C) - unat (bm_free_size b0) \<Longrightarrow>
      T p = mm s (active_metablock s) ! p"
    and Q: "\<And>d'. dok d' \<Longrightarrow> mem d' = fillM (mm s) (scratch_metablock s)
        {foff C (mnf C)..<unat (block_size C) - unat (bm_free_size b0)} T \<Longrightarrow> Q () (s\<lparr>flash := d'\<rparr>)"
    and E: "\<And>e d'. \<not> rel \<Longrightarrow> dok d' \<Longrightarrow> (\<And>b'. b' \<noteq> scratch_metablock s \<Longrightarrow> mem d' b' = mm s b') \<Longrightarrow>
      E e (s\<lparr>flash := d'\<rparr>)"
  shows "wp etss_flash_fs_mblock_migrate_lb0_data_to_scratch Q E s"
proof -
  let ?len = "(block_size C - bm_data_start b0) - bm_free_size b0"
  have z: "ETSS_LOGICAL_DBLOCK0 = 0" by (simp add: mblock_consts)
  have n0: "unat (0 :: u32) < nad C" using nad_pos [OF cfg] by simp
  have "active_metablock s = 0 \<or> active_metablock s = 1" using m by (rule metas_ids)
  moreover have "etss_mblock_validate_block_meta C b0 = Inr ()" using b0 by (auto simp: rbm_Inr_iff)
  ultimately have st: "unat (bm_data_start b0) = foff C (mnf C)"
    and fits: "unat (bm_data_start b0) + unat (bm_free_size b0) \<le> unat (block_size C)"
    using validate_block_meta_Inr_iff [OF cfg, of b0] phy by auto
  have len: "unat ?len = unat (block_size C) - foff C (mnf C) - unat (bm_free_size b0)"
    using st fits by (simp add: unat_sub_u32)
  show ?thesis
    unfolding etss_flash_fs_mblock_migrate_lb0_data_to_scratch_def wp_bindE wp_withS z
  proof (rule reads_wp [OF reads_block_meta [OF _ n0]])
    fix a d assume a: "rB s 0 = Inr a" and d: "dok d" "mem d = mm s"
    let ?s = "s\<lparr>flash := d\<rparr>"
    have "wp (etss_flash_fs_block_to_block_move (scratch_metablock ?s) (bm_data_start b0)
        (active_metablock ?s) (bm_data_start b0) ?len) Q E ?s"
    proof (rule copy_meta_wp [where T = T], goal_cases)
      case (3)
      show ?case using er d st fits len by simp
    next
      case (4 p)
      then show ?case using T d st fits len by simp
    next
      case (5 d')
      then show ?case using Q [of d'] d st fits len by simp
    next
      case (6 e d')
      have "E e (s\<lparr>flash := d'\<rparr>)" by (rule E) (use 6 d in auto)
      then show ?case by simp
    qed (use m d st fits len in auto)
    then show "wp (let data_size = block_size (ctx_cfg ?s) - bm_data_start a - bm_free_size a
        in etss_flash_fs_block_to_block_move (scratch_metablock ?s) (bm_data_start a)
              (active_metablock ?s) (bm_data_start a) data_size) Q E ?s"
      using a b0 m d by (simp add: Let_def)
  next
    fix e d assume "rB s 0 = Inl e \<or> \<not> rel" "dok d" "mem d = mm s"
    then show "E e (s\<lparr>flash := d\<rparr>)" using b0 by (intro E) auto
  qed (use m in simp)
qed

section \<open>The checksum of the tables\<close>

definition xor_sum :: "u8 \<Rightarrow> buf \<Rightarrow> u8" where
  "xor_sum = foldl (\<lambda>v b. v XOR b)"

definition table_xor :: "buf \<Rightarrow> u8" where
  "table_xor bs = xor_sum 0 (bslice 8 (foff C (mnf C) - 8) bs)"

lemma reads_xor_blocks:
  assumes "act_ok s" and b: "b < ucast (num_blocks C)" and "n \<le> nad C" and "i \<le> n"
  shows "reads (xor_block_metas b (map of_nat [i..<n]) x) s
    (Inr (xor_sum x (bslice (boff i) (boff n - boff i) (mm s b))))"
  using assms(1,4)
proof (induction "n - i" arbitrary: i x s)
  case 0
  then show ?case by (auto simp: xor_sum_def intro!: reads_returnE)
next
  case (Suc k)
  then have i: "i < n" "i < nad C" using assms(3) by simp_all
  then have up: "[i..<n] = i # [Suc i..<n]" by (simp add: upt_conv_Cons)
  have u: "unat (of_nat i :: u32) = i" using i nad_less [of C] by (simp add: unat_of_nat_u32)
  have off: "unat (etss_mblock_block_meta_offset (of_nat i)) = boff i"
    using u i nad_less [of C] by simp
  have le: "boff i + 12 \<le> boff n" "boff n \<le> foff C 0" "foff C 0 \<le> unat (block_size C)"
    using boff_mono [OF i(1)] assms(3) cfg_okD(3) [OF cfg] by (auto simp: boff_def foff_def)
  have len: "length (mm s b) = unat (block_size C)" using Suc.prems(1) b by (simp add: mm_length)
  have app: "bslice (boff i) (boff n - boff i) (mm s b) =
      bslice (boff i) 12 (mm s b) @ bslice (boff (Suc i)) (boff n - boff (Suc i)) (mm s b)"
    using le len by (simp add: boff_Suc bslice_append_adjacent)
  show ?case
    unfolding up list.map xor_block_metas.simps app
  proof (rule reads_bindE [OF reads_flash_read [OF _ b _ refl]])
    fix a d assume a: "Inr (bslice (unat (etss_mblock_block_meta_offset (of_nat i))) (unat ETSS_BLOCK_METADATA_SIZE)
        (mm s b)) = (Inr a :: psa_error + buf)" and d: "dok d" "mem d = mm s"
    show "reads (xor_block_metas b (map of_nat [Suc i..<n]) (foldl (\<lambda>v b. v XOR b) x a)) (s\<lparr>flash := d\<rparr>)
        (Inr (xor_sum x (bslice (boff i) 12 (mm s b) @ bslice (boff (Suc i)) (boff n - boff (Suc i)) (mm s b))))"
      using Suc.hyps(1) [of "Suc i" "s\<lparr>flash := d\<rparr>" "foldl (\<lambda>v b. v XOR b) x a"] Suc.hyps(2) Suc.prems(1) i a d off
      by (simp add: xor_sum_def mblock_consts)
  qed (use Suc.prems(1) off le in \<open>auto simp: mblock_consts\<close>)
qed

lemma reads_xor_files:
  assumes "act_ok s" and b: "b < ucast (num_blocks C)" and "n \<le> mnf C" and "i \<le> n"
  shows "reads (xor_file_metas C b (map of_nat [i..<n]) x) s
    (Inr (xor_sum x (bslice (foff C i) (foff C n - foff C i) (mm s b))))"
  using assms(1,4)
proof (induction "n - i" arbitrary: i x s)
  case 0
  then show ?case by (auto simp: xor_sum_def intro!: reads_returnE)
next
  case (Suc k)
  then have i: "i < n" "i < mnf C" using assms(3) by simp_all
  then have up: "[i..<n] = i # [Suc i..<n]" by (simp add: upt_conv_Cons)
  have u: "unat (of_nat i :: u32) = i" using i mnf_less [of C] by (simp add: unat_of_nat_u32)
  have off: "unat (etss_mblock_file_meta_offset C (of_nat i)) = foff C i"
    using u i mnf_less [of C] cfg by simp
  have le: "foff C i + 32 \<le> foff C n" "foff C n \<le> foff C (mnf C)" "foff C (mnf C) \<le> unat (block_size C)"
    using foff_mono [OF i(1)] assms(3) cfg_okD(3) [OF cfg] by (auto simp: foff_def)
  have len: "length (mm s b) = unat (block_size C)" using Suc.prems(1) b by (simp add: mm_length)
  have app: "bslice (foff C i) (foff C n - foff C i) (mm s b) =
      bslice (foff C i) 32 (mm s b) @ bslice (foff C (Suc i)) (foff C n - foff C (Suc i)) (mm s b)"
    using le len by (simp add: foff_Suc bslice_append_adjacent)
  show ?case
    unfolding up list.map xor_file_metas.simps app
  proof (rule reads_bindE [OF reads_flash_read [OF _ b _ refl]])
    fix a d assume a: "Inr (bslice (unat (etss_mblock_file_meta_offset C (of_nat i))) (unat ETSS_FILE_METADATA_SIZE)
        (mm s b)) = (Inr a :: psa_error + buf)" and d: "dok d" "mem d = mm s"
    show "reads (xor_file_metas C b (map of_nat [Suc i..<n]) (foldl (\<lambda>v b. v XOR b) x a)) (s\<lparr>flash := d\<rparr>)
        (Inr (xor_sum x (bslice (foff C i) 32 (mm s b) @ bslice (foff C (Suc i)) (foff C n - foff C (Suc i)) (mm s b))))"
      using Suc.hyps(1) [of "Suc i" "s\<lparr>flash := d\<rparr>" "foldl (\<lambda>v b. v XOR b) x a"] Suc.hyps(2) Suc.prems(1) i a d off
      by (simp add: xor_sum_def mblock_consts)
  qed (use Suc.prems(1) off le in \<open>auto simp: mblock_consts\<close>)
qed

lemma reads_xor:
  assumes "act_ok s" and "b = 0 \<or> b = 1"
  shows "reads (etss_mblock_calculate_metadata_xor b) s (Inr (table_xor (mm s b)))"
proof -
  have b: "b < ucast (num_blocks C)" using assms(2) by (rule act_less)
  have len: "length (mm s b) = unat (block_size C)" using assms b by (simp add: mm_length)
  have le: "boff (nad C) = foff C 0" "foff C 0 \<le> foff C (mnf C)" "foff C (mnf C) \<le> unat (block_size C)"
    using cfg_okD(3) [OF cfg] by (auto simp: boff_def foff_def)
  have app: "bslice 8 (foff C (mnf C) - 8) (mm s b) =
      bslice 8 (foff C 0 - 8) (mm s b) @ bslice (foff C 0) (foff C (mnf C) - foff C 0) (mm s b)"
    using le len bslice_append_adjacent [of 8 "foff C 0 - 8" "foff C (mnf C) - foff C 0" "mm s b"]
    by (simp add: foff_def)
  have n: "unat (ucast (max_num_files C) :: u32) = mnf C" by (simp add: mnf_def)
  have ab: "reads (xor_block_metas b (u32_upto (etss_num_active_dblocks C)) 0) s
      (Inr (xor_sum 0 (bslice 8 (foff C 0 - 8) (mm s b))))"
    using reads_xor_blocks [OF assms(1) b order_refl le0, of 0] cfg
    unfolding le(1) by (simp add: u32_upto_def boff_def [of 0])
  show ?thesis
    unfolding etss_mblock_calculate_metadata_xor_def
  proof (subst if_not_P)
    show "\<not> (b \<noteq> ETSS_METADATA_BLOCK0 \<and> b \<noteq> ETSS_METADATA_BLOCK1)"
      using assms(2) by (auto simp: mblock_consts)
    show "reads (withS (\<lambda>s. bindE (xor_block_metas b (u32_upto (etss_num_active_dblocks (ctx_cfg s))) 0)
        (xor_file_metas (ctx_cfg s) b (u32_upto (ucast (max_num_files (ctx_cfg s))))))) s
        (Inr (table_xor (mm s b)))"
    proof (rule reads_withS, simp only: act_ok_cfg [OF assms(1)], rule reads_bindE [OF ab])
      fix a d assume a: "Inr (xor_sum 0 (bslice 8 (foff C 0 - 8) (mm s b))) = (Inr a :: psa_error + u8)"
        and d: "dok d" "mem d = mm s"
      have "reads (xor_file_metas C b (map of_nat [0..<mnf C]) a) (s\<lparr>flash := d\<rparr>)
          (Inr (xor_sum a (bslice (foff C 0) (foff C (mnf C) - foff C 0) (mm (s\<lparr>flash := d\<rparr>) b))))"
        using assms(1) d b by (intro reads_xor_files) auto
      then show "reads (xor_file_metas C b (file_idxs C) a) (s\<lparr>flash := d\<rparr>) (Inr (table_xor (mm s b)))"
        using a d app n by (simp add: u32_upto_def table_xor_def xor_sum_def)
    qed auto
  qed
qed

end

end
