(* ===== verification/Flash_Fs_Commit.thy ===== *)
theory Flash_Fs_Commit
  imports Flash_Fs_Update
begin

text \<open>
  The commit of a prepared scratch metadata block: its header is written with the next swap count
  and the checksum of its tables, the two metadata blocks change roles and the blocks that are
  scratch now are erased. At start-up the header with the later swap count wins.
\<close>

section \<open>Swap counts\<close>

definition next_count :: "u8 \<Rightarrow> u8 \<Rightarrow> u8" where
  "next_count ev c = (if c + 1 = ev then c + 2 else c + 1)"

lemma next_count_unat:
  "unat (next_count ev c) = (if (unat c + 1) mod 256 = unat ev then (unat c + 2) mod 256 else (unat c + 1) mod 256)"
  by (auto simp: next_count_def word_unat_eq_iff unat_word_ariths)

lemma next_count_neq_erase: "next_count ev c \<noteq> ev"
proof (cases "c + 1 = ev")
  case True
  have "c + 2 \<noteq> c + 1" by simp
  with True show ?thesis by (auto simp: next_count_def)
qed (simp add: next_count_def)

text \<open>The count that follows another one is recognised as the later one, in both orders.\<close>

lemma latest_next:
  assumes "erase_val C \<noteq> 1" and "hdr_active_swap_count h \<noteq> erase_val C"
    and "hdr_active_swap_count h' = next_count (erase_val C) (hdr_active_swap_count h)"
  shows "etss_mblock_latest_meta_block C h h' = ETSS_METADATA_BLOCK1"
    and "etss_mblock_latest_meta_block C h' h = ETSS_METADATA_BLOCK0"
proof -
  define c where "c = unat (hdr_active_swap_count h)"
  define ev where "ev = unat (erase_val C)"
  define r where "r = (if ev = 0 then 1 else 0 :: nat)"
  define c' where "c' = (if (c + 1) mod 256 = ev then (c + 2) mod 256 else (c + 1) mod 256)"
  have rng: "c < 256" "ev < 256" "c \<noteq> ev" "ev \<noteq> 1"
    using assms(1,2) unat_u8_less by (auto simp: c_def ev_def word_unat_eq_iff)
  have h': "unat (hdr_active_swap_count h') = c'"
    by (simp add: assms(3) next_count_unat c'_def c_def ev_def)
  have red: "etss_mblock_latest_meta_block C x y =
      (if unat (hdr_active_swap_count y) = r \<and> unat (hdr_active_swap_count x) \<noteq> r + 1 then ETSS_METADATA_BLOCK1
       else if unat (hdr_active_swap_count x) = r \<and> unat (hdr_active_swap_count y) \<noteq> r + 1 then ETSS_METADATA_BLOCK0
       else if unat (hdr_active_swap_count y) > unat (hdr_active_swap_count x) then ETSS_METADATA_BLOCK1
       else ETSS_METADATA_BLOCK0)" for x y
    by (cases "erase_val C = 0")
      (simp_all add: etss_mblock_latest_meta_block_def Let_def r_def ev_def word_unat_eq_iff word_less_nat_alt)
  have r: "r \<le> 1" by (simp add: r_def)
  have nx: "c' = r \<and> 254 \<le> c \<or> c < c' \<and> c' \<noteq> r \<and> (c = r \<longrightarrow> c' = r + 1)"
  proof -
    consider "c = 255" | "c = 254" | "c < 254" using rng(1) by linarith
    then show ?thesis
    proof cases
      case 3
      then have "(c + 1) mod 256 = c + 1" "(c + 2) mod 256 = c + 2" by simp_all
      with rng show ?thesis by (simp add: c'_def r_def)
    qed (use rng in \<open>simp_all add: c'_def r_def\<close>)
  qed
  show "etss_mblock_latest_meta_block C h h' = ETSS_METADATA_BLOCK1"
    unfolding red h' c_def [symmetric] using nx r by auto
  show "etss_mblock_latest_meta_block C h' h = ETSS_METADATA_BLOCK0"
    unfolding red h' c_def [symmetric] using nx r by auto
qed

section \<open>Writing the header and changing roles\<close>

context fs_dev
begin

definition blank :: buf where
  "blank = replicate (unat (block_size C)) (erase_val C)"

definition new_header :: "'d fs_state \<Rightarrow> etss_metadata_block_header_t" where
  "new_header s = (meta_block_header s)
     \<lparr>hdr_active_swap_count := next_count (erase_val C) (hdr_active_swap_count (meta_block_header s)),
      hdr_metadata_xor := table_xor (mm s (scratch_metablock s))\<rparr>"

lemma new_header_simps [simp]:
  "hdr_scratch_dblock (new_header s) = hdr_scratch_dblock (meta_block_header s)"
  "hdr_fs_version (new_header s) = hdr_fs_version (meta_block_header s)"
  "hdr_active_swap_count (new_header s) = next_count (erase_val C) (hdr_active_swap_count (meta_block_header s))"
  "hdr_metadata_xor (new_header s) = table_xor (mm s (scratch_metablock s))"
  by (simp_all add: new_header_def)

lemma write_header_wp:
  assumes m: "metas s" and er: "erased_on (mm s) (scratch_metablock s) {0..<8}"
    and Q: "\<And>d'. dok d' \<Longrightarrow>
      mem d' = fillM (mm s) (scratch_metablock s) {0..<8} (\<lambda>p. encode_header (new_header s) ! p) \<Longrightarrow>
      Q () (s\<lparr>meta_block_header := new_header s, flash := d'\<rparr>)"
    and E: "\<And>e d' h. \<not> rel \<Longrightarrow> dok d' \<Longrightarrow> (\<And>b'. b' \<noteq> scratch_metablock s \<Longrightarrow> mem d' b' = mm s b') \<Longrightarrow>
      E e (s\<lparr>meta_block_header := h, flash := d'\<rparr>)"
  shows "wp etss_mblock_write_scratch_meta_header Q E s"
proof -
  let ?h1 = "(meta_block_header s)\<lparr>hdr_active_swap_count :=
      next_count (erase_val C) (hdr_active_swap_count (meta_block_header s))\<rparr>"
  let ?s1 = "s\<lparr>meta_block_header := ?h1\<rparr>"
  have scr: "scratch_metablock s = 0 \<or> scratch_metablock s = 1" using m by (rule metas_ids)
  have m1: "metas ?s1" using m by simp
  have cfg8: "8 \<le> unat (block_size C)" using cfg_okD(3) [OF cfg] by (simp add: foff_def)
  have wr: "wp (flash_write (scratch_metablock s) (encode_header (new_header s)) 0 8) Q E
      (s\<lparr>meta_block_header := new_header s, flash := d\<rparr>)" if d: "dok d" "mem d = mm s" for d
  proof (rule flash_write_wp [where T = "\<lambda>p. encode_header (new_header s) ! p"])
    let ?s = "s\<lparr>meta_block_header := new_header s, flash := d\<rparr>"
    show "mm ?s (scratch_metablock s) ! p = erase_val C"
      if "unat (0 :: u32) \<le> p" "p < unat (0 :: u32) + unat (8 :: u32)" for p
      using that er d by (auto dest: erased_onD)
    show "Q () (?s\<lparr>flash := d'\<rparr>)" if "dok d'"
      "mem d' = fillM (mm ?s) (scratch_metablock s) {unat (0 :: u32)..<unat (0 :: u32) + unat (8 :: u32)}
        (\<lambda>p. encode_header (new_header s) ! p)" for d'
      using Q [of d'] d that by simp
    show "E e (?s\<lparr>flash := d'\<rparr>)"
      if "\<not> rel" "dok d'" "\<And>b'. b' \<noteq> scratch_metablock s \<Longrightarrow> mem d' b' = mm ?s b'" for e d'
    proof -
      have "E e (s\<lparr>meta_block_header := new_header s, flash := d'\<rparr>)" by (rule E) (use that d in auto)
      then show ?thesis by simp
    qed
  qed (use m d cfg8 in auto)
  have rest: "wp (bindE (withS (\<lambda>s. etss_mblock_calculate_metadata_xor (scratch_metablock s))) (\<lambda>x.
     bindE (modifyS (\<lambda>s. s\<lparr>meta_block_header := (meta_block_header s)\<lparr>hdr_metadata_xor := x\<rparr>\<rparr>)) (\<lambda>_.
     withS (\<lambda>s. flash_write (scratch_metablock s) (encode_header (meta_block_header s)) 0
       ETSS_BLOCK_META_HEADER_SIZE)))) Q E ?s1"
    unfolding wp_bindE wp_withS wp_modifyS
  proof (rule reads_wp [OF reads_xor])
    show "act_ok ?s1" using m1 by simp
    show "scratch_metablock ?s1 = 0 \<or> scratch_metablock ?s1 = 1" using scr by simp
    fix a d assume a: "Inr (table_xor (mm ?s1 (scratch_metablock ?s1))) = (Inr a :: psa_error + u8)"
      and d: "dok d" "mem d = mm ?s1"
    have h: "?h1\<lparr>hdr_metadata_xor := a\<rparr> = new_header s" using a by (simp add: new_header_def)
    have eq: "(?s1\<lparr>flash := d\<rparr>)\<lparr>meta_block_header :=
        (meta_block_header (?s1\<lparr>flash := d\<rparr>))\<lparr>hdr_metadata_xor := a\<rparr>\<rparr> =
        s\<lparr>meta_block_header := new_header s, flash := d\<rparr>"
      using h by simp
    show "wp (flash_write (scratch_metablock ((?s1\<lparr>flash := d\<rparr>)\<lparr>meta_block_header :=
        (meta_block_header (?s1\<lparr>flash := d\<rparr>))\<lparr>hdr_metadata_xor := a\<rparr>\<rparr>))
      (encode_header (meta_block_header ((?s1\<lparr>flash := d\<rparr>)\<lparr>meta_block_header :=
        (meta_block_header (?s1\<lparr>flash := d\<rparr>))\<lparr>hdr_metadata_xor := a\<rparr>\<rparr>))) 0
      ETSS_BLOCK_META_HEADER_SIZE) Q E ((?s1\<lparr>flash := d\<rparr>)\<lparr>meta_block_header :=
        (meta_block_header (?s1\<lparr>flash := d\<rparr>))\<lparr>hdr_metadata_xor := a\<rparr>\<rparr>)"
      unfolding eq using wr d by (simp add: mblock_consts)
  next
    fix e :: psa_error and d
    assume "Inr (table_xor (mm ?s1 (scratch_metablock ?s1))) = Inl e \<or> \<not> rel" "dok d" "mem d = mm ?s1"
    then show "E e (?s1\<lparr>flash := d\<rparr>)" using E [of d e ?h1] by auto
  qed
  show ?thesis
    unfolding etss_mblock_write_scratch_meta_header_def wp_bindE [of "modifyS _"] wp_modifyS
      wp_bindE [of "withS (\<lambda>s. if _ s then _ s else _ s)"] wp_withS [of "\<lambda>s. if _ s then _ s else _ s"]
    using rest m
    by (auto simp: etss_mblock_validate_swap_count_def next_count_def add.assoc)
qed

lemma erase_scratch_wp:
  assumes m: "metas s" and sdb: "num_blocks C \<noteq> 2 \<Longrightarrow> hdr_scratch_dblock (meta_block_header s) < ucast (num_blocks C)"
    and Q: "\<And>d'. dok d' \<Longrightarrow>
      mem d' = (if num_blocks C = 2 then (mm s)(scratch_metablock s := blank)
        else (mm s)(scratch_metablock s := blank, hdr_scratch_dblock (meta_block_header s) := blank)) \<Longrightarrow>
      Q () (s\<lparr>flash := d'\<rparr>)"
    and E: "\<And>e d'. \<not> rel \<Longrightarrow> dok d' \<Longrightarrow>
      (\<And>b'. b' \<noteq> scratch_metablock s \<Longrightarrow> num_blocks C = 2 \<or> b' \<noteq> hdr_scratch_dblock (meta_block_header s) \<Longrightarrow>
        mem d' b' = mm s b') \<Longrightarrow> E e (s\<lparr>flash := d'\<rparr>)"
  shows "wp etss_mblock_erase_scratch_blocks Q E s"
proof -
  have gt: "num_blocks C > 2 \<longleftrightarrow> num_blocks C \<noteq> 2"
    using cfg_okD(2) [OF cfg] by (auto simp: word_less_nat_alt word_unat_eq_iff)
  show ?thesis
    unfolding etss_mblock_erase_scratch_blocks_def wp_bindE wp_withS
  proof (rule flash_erase_wp)
    fix d assume d: "dok d"
      "mem d = (mm s)(scratch_metablock s := replicate (unat (block_size C)) (erase_val C))"
    let ?s = "s\<lparr>flash := d\<rparr>"
    show "wp (if num_blocks (ctx_cfg ?s) > 2
        then flash_erase (etss_flash_fs_mblock_cur_data_scratch_id ?s (ETSS_LOGICAL_DBLOCK0 + 1))
        else returnE ()) Q E ?s"
    proof (cases "num_blocks C = 2")
      case True
      then show ?thesis using Q [of d] d m by (simp add: blank_def)
    next
      case False
      have "wp (flash_erase (hdr_scratch_dblock (meta_block_header s))) Q E ?s"
      proof (rule flash_erase_wp, goal_cases)
        case (3 d')
        then show ?case using Q [of d'] d False by (simp add: blank_def)
      next
        case (4 e d')
        have "E e (s\<lparr>flash := d'\<rparr>)" by (rule E) (use 4 d False in auto)
        then show ?case by simp
      qed (use m d sdb False in auto)
      then show ?thesis
        using False gt m by (simp add: etss_flash_fs_mblock_cur_data_scratch_id_def mblock_consts)
    qed
  next
    fix e d assume "\<not> rel" "dok d" "\<And>b'. b' \<noteq> scratch_metablock s \<Longrightarrow> mem d b' = mm s b'"
    then show "E e (s\<lparr>flash := d\<rparr>)" by (intro E) auto
  qed (use m in auto)
qed

text \<open>The memory after a commit: the header is written, the old metadata block and the old data
  scratch block are blank.\<close>

definition committed :: "'d fs_state \<Rightarrow> u32 \<Rightarrow> buf" where
  "committed s = fillM (mm s) (scratch_metablock s) {0..<8} (\<lambda>p. encode_header (new_header s) ! p)"

lemma finalize_wp:
  assumes m: "metas s" and er: "erased_on (mm s) (scratch_metablock s) {0..<8}"
    and sdb: "num_blocks C \<noteq> 2 \<Longrightarrow> hdr_scratch_dblock (meta_block_header s) < ucast (num_blocks C)"
    and Q: "\<And>d'. dok d' \<Longrightarrow>
      mem d' = (if num_blocks C = 2 then (committed s)(active_metablock s := blank)
        else (committed s)(active_metablock s := blank, hdr_scratch_dblock (meta_block_header s) := blank)) \<Longrightarrow>
      Q () (s\<lparr>meta_block_header := new_header s, active_metablock := scratch_metablock s,
        scratch_metablock := active_metablock s, flash := d'\<rparr>)"
    and E1: "\<And>e d' h. \<not> rel \<Longrightarrow> dok d' \<Longrightarrow> (\<And>b'. b' \<noteq> scratch_metablock s \<Longrightarrow> mem d' b' = mm s b') \<Longrightarrow>
      E e (s\<lparr>meta_block_header := h, flash := d'\<rparr>)"
    and E2: "\<And>e d'. \<not> rel \<Longrightarrow> dok d' \<Longrightarrow>
      (\<And>b'. b' \<noteq> active_metablock s \<Longrightarrow> num_blocks C = 2 \<or> b' \<noteq> hdr_scratch_dblock (meta_block_header s) \<Longrightarrow>
        mem d' b' = committed s b') \<Longrightarrow>
      E e (s\<lparr>meta_block_header := new_header s, active_metablock := scratch_metablock s,
        scratch_metablock := active_metablock s, flash := d'\<rparr>)"
  shows "wp etss_flash_fs_mblock_meta_update_finalize Q E s"
  unfolding etss_flash_fs_mblock_meta_update_finalize_def wp_bindE wp_withS
proof (rule write_header_wp [OF m er])
  fix d assume d: "dok d"
    "mem d = fillM (mm s) (scratch_metablock s) {0..<8} (\<lambda>p. encode_header (new_header s) ! p)"
  let ?s = "s\<lparr>meta_block_header := new_header s, flash := d\<rparr>"
  have m1: "metas ?s" using m d by simp
  show "wp (flash_flush (scratch_metablock ?s))
      (\<lambda>_. wp etss_mblock_swap_metablocks (\<lambda>_. wp etss_mblock_erase_scratch_blocks Q E) E) E ?s"
  proof (rule flash_flush_wp)
    fix d2 assume d2: "dok d2" "mem d2 = mm ?s"
    let ?t = "s\<lparr>meta_block_header := new_header s, active_metablock := scratch_metablock s,
        scratch_metablock := active_metablock s, flash := d2\<rparr>"
    have mt: "metas ?t" using m d2 unfolding metas_def sok_def by auto
    have "wp etss_mblock_erase_scratch_blocks Q E ?t"
    proof (rule erase_scratch_wp [OF mt], goal_cases)
      case 1
      then show ?case using sdb by simp
    next
      case (2 d')
      then show ?case using Q [of d'] d2 d by (simp add: committed_def split: if_splits)
    next
      case (3 e d')
      have "E e (s\<lparr>meta_block_header := new_header s, active_metablock := scratch_metablock s,
        scratch_metablock := active_metablock s, flash := d'\<rparr>)"
        by (rule E2) (use 3 d2 d in \<open>auto simp: committed_def\<close>)
      then show ?case by simp
    qed
    moreover have "(?s\<lparr>flash := d2\<rparr>)\<lparr>scratch_metablock := active_metablock (?s\<lparr>flash := d2\<rparr>),
        active_metablock := scratch_metablock (?s\<lparr>flash := d2\<rparr>)\<rparr> = ?t" by simp
    ultimately show "wp etss_mblock_swap_metablocks (\<lambda>_. wp etss_mblock_erase_scratch_blocks Q E) E (?s\<lparr>flash := d2\<rparr>)"
      by (simp only: etss_mblock_swap_metablocks_def wp_modifyS)
  next
    fix e d2 assume "\<not> rel" "dok d2" "mem d2 = mm ?s"
    then have "E e (s\<lparr>meta_block_header := new_header s, flash := d2\<rparr>)" by (intro E1) (use d in auto)
    then show "E e (?s\<lparr>flash := d2\<rparr>)" by simp
  qed (use m m1 in simp_all)
qed (use E1 in auto)

end

end
