(* ===== verification/Flash_Fs_Inv.thy ===== *)
theory Flash_Fs_Inv
  imports Flash_Fs_Commit
begin

text \<open>
  The invariant of a mounted file system and its abstraction. The block table assigns distinct
  physical blocks to the logical blocks, none of them a scratch block; the regions of the files in
  use tile the allocated part of every logical block; the scratch blocks are blank; and the header
  of the active metadata block carries the checksum of its tables. The abstraction is a finite map
  from file identifiers to flags, maximum size and contents.
\<close>

section \<open>Tables\<close>

definition used :: "etss_file_meta_t \<Rightarrow> bool" where
  "used x \<longleftrightarrow> etss_utils_validate_fid (fm_id x) = Inr ()"

text \<open>The end of the allocated part of a logical block.\<close>

definition reg_end :: "etss_flash_fs_config_t \<Rightarrow> etss_block_meta_t \<Rightarrow> nat" where
  "reg_end C b = unat (block_size C) - unat (bm_free_size b)"

definition covers :: "etss_file_meta_t \<Rightarrow> nat \<Rightarrow> nat \<Rightarrow> bool" where
  "covers x l p \<longleftrightarrow> used x \<and> unat (fm_lblock x) = l \<and> unat (fm_data_idx x) \<le> p \<and>
     p < unat (fm_data_idx x) + unat (fm_max_size x)"

text \<open>Two regions do not overlap, and an empty one does not lie inside the other.\<close>

definition apart :: "etss_file_meta_t \<Rightarrow> etss_file_meta_t \<Rightarrow> bool" where
  "apart x y \<longleftrightarrow> unat (fm_data_idx x) + unat (fm_max_size x) \<le> unat (fm_data_idx y) \<or>
     unat (fm_data_idx y) + unat (fm_max_size y) \<le> unat (fm_data_idx x)"

definition blocks_ok :: "etss_flash_fs_config_t \<Rightarrow> u32 \<Rightarrow> u32 \<Rightarrow> (nat \<Rightarrow> etss_block_meta_t) \<Rightarrow> bool" where
  "blocks_ok C act sdb B \<longleftrightarrow>
     bm_phy_id (B 0) = act \<and>
     (\<forall>l<nad C. etss_mblock_validate_block_meta C (B l) = Inr ()) \<and>
     (\<forall>l<nad C. 0 < l \<longrightarrow> bm_phy_id (B l) \<notin> {0, 1, sdb}) \<and>
     (\<forall>l<nad C. \<forall>k<nad C. bm_phy_id (B l) = bm_phy_id (B k) \<longrightarrow> l = k) \<and>
     (num_blocks C \<noteq> 2 \<longrightarrow> sdb \<notin> {0, 1} \<and> sdb < ucast (num_blocks C))"

definition files_ok :: "etss_flash_fs_config_t \<Rightarrow> (nat \<Rightarrow> etss_block_meta_t) \<Rightarrow> (nat \<Rightarrow> etss_file_meta_t) \<Rightarrow> bool" where
  "files_ok C B F \<longleftrightarrow>
     (\<forall>i<mnf C. length (fm_id (F i)) = 12 \<and> etss_mblock_validate_file_meta C (F i) = Inr () \<and>
        (used (F i) \<longrightarrow>
           unat (bm_data_start (B (unat (fm_lblock (F i))))) \<le> unat (fm_data_idx (F i)) \<and>
           unat (fm_data_idx (F i)) + unat (fm_max_size (F i)) \<le> reg_end C (B (unat (fm_lblock (F i)))))) \<and>
     (\<forall>l<nad C. \<forall>p. unat (bm_data_start (B l)) \<le> p \<longrightarrow> p < reg_end C (B l) \<longrightarrow> (\<exists>i<mnf C. covers (F i) l p)) \<and>
     (\<forall>i<mnf C. \<forall>j<mnf C. used (F i) \<longrightarrow> used (F j) \<longrightarrow> i \<noteq> j \<longrightarrow>
        fm_lblock (F i) = fm_lblock (F j) \<longrightarrow> apart (F i) (F j))"

text \<open>Between operations no file is marked for deletion and identifiers are unique.\<close>

definition rest_ok :: "etss_flash_fs_config_t \<Rightarrow> (nat \<Rightarrow> etss_file_meta_t) \<Rightarrow> bool" where
  "rest_ok C F \<longleftrightarrow>
     (\<forall>i<mnf C. fm_flags (F i) AND ETSS_FLASH_FS_FLAG_DELETE = 0) \<and>
     (\<forall>i<mnf C. \<forall>j<mnf C. used (F i) \<longrightarrow> fm_id (F i) = fm_id (F j) \<longrightarrow> i = j)"

lemma blocks_ok_cong:
  "(\<And>l. l < nad C \<Longrightarrow> B l = B' l) \<Longrightarrow> 0 < nad C \<Longrightarrow> blocks_ok C act sdb B = blocks_ok C act sdb B'"
  by (simp add: blocks_ok_def)

lemma files_ok_cong:
  assumes "cfg_ok C" and B: "\<And>l. l < nad C \<Longrightarrow> B l = B' l" and F: "\<And>i. i < mnf C \<Longrightarrow> F i = F' i"
  shows "files_ok C B F = files_ok C B' F'"
proof -
  have lb: "B (unat (fm_lblock (F' i))) = B' (unat (fm_lblock (F' i)))"
    if "etss_mblock_validate_file_meta C (F' i) = Inr ()" for i
    using validate_file_meta_Inr(1) [OF assms(1) that] B by simp
  show ?thesis
    unfolding files_ok_def using B F lb
    by (intro conj_cong all_cong imp_cong ex_cong iffI) (auto cong: conj_cong)
qed

lemma rest_ok_cong: "(\<And>i. i < mnf C \<Longrightarrow> F i = F' i) \<Longrightarrow> rest_ok C F = rest_ok C F'"
  by (simp add: rest_ok_def)

lemma blocks_okD:
  assumes "blocks_ok C act sdb B"
  shows "bm_phy_id (B 0) = act"
    and "\<And>l. l < nad C \<Longrightarrow> etss_mblock_validate_block_meta C (B l) = Inr ()"
    and "\<And>l. l < nad C \<Longrightarrow> 0 < l \<Longrightarrow> bm_phy_id (B l) \<notin> {0, 1, sdb}"
    and "\<And>l k. l < nad C \<Longrightarrow> k < nad C \<Longrightarrow> bm_phy_id (B l) = bm_phy_id (B k) \<Longrightarrow> l = k"
    and "num_blocks C \<noteq> 2 \<Longrightarrow> sdb \<notin> {0, 1} \<and> sdb < ucast (num_blocks C)"
  using assms unfolding blocks_ok_def by blast+

lemma files_okD:
  assumes "files_ok C B F"
  shows "\<And>i. i < mnf C \<Longrightarrow> length (fm_id (F i)) = 12"
    and "\<And>i. i < mnf C \<Longrightarrow> etss_mblock_validate_file_meta C (F i) = Inr ()"
    and "\<And>i. i < mnf C \<Longrightarrow> used (F i) \<Longrightarrow>
      unat (bm_data_start (B (unat (fm_lblock (F i))))) \<le> unat (fm_data_idx (F i)) \<and>
      unat (fm_data_idx (F i)) + unat (fm_max_size (F i)) \<le> reg_end C (B (unat (fm_lblock (F i))))"
    and "\<And>l p. l < nad C \<Longrightarrow> unat (bm_data_start (B l)) \<le> p \<Longrightarrow> p < reg_end C (B l) \<Longrightarrow>
      \<exists>i<mnf C. covers (F i) l p"
    and "\<And>i j. i < mnf C \<Longrightarrow> j < mnf C \<Longrightarrow> used (F i) \<Longrightarrow> used (F j) \<Longrightarrow> i \<noteq> j \<Longrightarrow>
      fm_lblock (F i) = fm_lblock (F j) \<Longrightarrow> apart (F i) (F j)"
  using assms unfolding files_ok_def by blast+

lemma covers_unique:
  assumes "files_ok C B F" and "i < mnf C" and "j < mnf C" and "covers (F i) l p" and "covers (F j) l p"
  shows "i = j"
proof (rule ccontr)
  assume "i \<noteq> j"
  with assms have "apart (F i) (F j)"
    by (intro files_okD(5) [OF assms(1)]) (auto simp: covers_def word_unat_eq_iff)
  with assms(4,5) show False by (auto simp: covers_def apart_def)
qed

text \<open>The physical block and the start of the data of a logical block.\<close>

lemma block_start:
  assumes "cfg_ok C" and "blocks_ok C act sdb B" and "act = 0 \<or> act = 1" and "l < nad C"
  shows "unat (bm_data_start (B l)) = (if l = 0 then foff C (mnf C) else 0)"
    and "unat (bm_data_start (B l)) \<le> reg_end C (B l)" and "reg_end C (B l) \<le> unat (block_size C)"
    and "bm_phy_id (B l) < ucast (num_blocks C)"
    and "reg_end C (B l) + unat (bm_free_size (B l)) = unat (block_size C)"
proof -
  have v: "etss_mblock_validate_block_meta C (B l) = Inr ()" using blocks_okD(2) [OF assms(2,4)] .
  note vv = validate_block_meta_Inr_iff [OF assms(1), of "B l", THEN iffD1, OF v]
  show "unat (bm_data_start (B l)) = (if l = 0 then foff C (mnf C) else 0)"
    using vv assms(3) blocks_okD(1,3) [OF assms(2)] assms(4) by (cases "l = 0") auto
  show "unat (bm_data_start (B l)) \<le> reg_end C (B l)" "reg_end C (B l) \<le> unat (block_size C)"
    "reg_end C (B l) + unat (bm_free_size (B l)) = unat (block_size C)"
    using vv by (auto simp: reg_end_def)
  show "bm_phy_id (B l) < ucast (num_blocks C)" using vv by (simp add: word_less_nat_alt)
qed

section \<open>The abstract file system\<close>

record afile =
  af_flags :: u32
  af_max :: u32
  af_data :: buf

definition content :: "(u32 \<Rightarrow> buf) \<Rightarrow> (nat \<Rightarrow> etss_block_meta_t) \<Rightarrow> etss_file_meta_t \<Rightarrow> buf" where
  "content m B x = bslice (unat (fm_data_idx x)) (unat (fm_cur_size x)) (m (bm_phy_id (B (unat (fm_lblock x)))))"

definition afile_of :: "(u32 \<Rightarrow> buf) \<Rightarrow> (nat \<Rightarrow> etss_block_meta_t) \<Rightarrow> etss_file_meta_t \<Rightarrow> afile" where
  "afile_of m B x = \<lparr>af_flags = fm_flags x AND ETSS_FLASH_FS_USER_FLAGS_MASK, af_max = fm_max_size x,
     af_data = content m B x\<rparr>"

definition absfs :: "etss_flash_fs_config_t \<Rightarrow> (u32 \<Rightarrow> buf) \<Rightarrow> (nat \<Rightarrow> etss_block_meta_t) \<Rightarrow>
    (nat \<Rightarrow> etss_file_meta_t) \<Rightarrow> buf \<Rightarrow> afile option" where
  "absfs C m B F fid =
     (case List.find (\<lambda>i. used (F i) \<and> fm_id (F i) = fid) [0..<mnf C] of
        None \<Rightarrow> None | Some i \<Rightarrow> Some (afile_of m B (F i)))"

lemma absfs_Some:
  assumes "rest_ok C F" and "i < mnf C" and "used (F i)" and "fm_id (F i) = fid"
  shows "absfs C m B F fid = Some (afile_of m B (F i))"
proof -
  have "List.find (\<lambda>i. used (F i) \<and> fm_id (F i) = fid) [0..<mnf C] = Some i"
    unfolding find_Some_iff using assms
    by (intro exI [of _ i]) (auto simp: rest_ok_def, metis less_trans nat_neq_iff)
  then show ?thesis by (simp add: absfs_def)
qed

lemma absfs_None: "absfs C m B F fid = None \<longleftrightarrow> (\<forall>i<mnf C. used (F i) \<longrightarrow> fm_id (F i) \<noteq> fid)"
  by (auto simp: absfs_def find_None_iff find_Some_iff split: option.splits)

section \<open>The invariant\<close>

context fs_dev
begin

abbreviation sdb :: "'d fs_state \<Rightarrow> u32" where
  "sdb s \<equiv> hdr_scratch_dblock (meta_block_header s)"

abbreviation tB :: "'d fs_state \<Rightarrow> nat \<Rightarrow> etss_block_meta_t" where
  "tB s \<equiv> bmv (mm s) (active_metablock s)"

abbreviation tF :: "'d fs_state \<Rightarrow> nat \<Rightarrow> etss_file_meta_t" where
  "tF s \<equiv> fmv C (mm s) (active_metablock s)"

abbreviation whole :: "nat set" where
  "whole \<equiv> {0..<unat (block_size C)}"

definition hdr_ok :: "'d fs_state \<Rightarrow> bool" where
  "hdr_ok s \<longleftrightarrow> bslice 0 8 (mm s (active_metablock s)) = encode_header (meta_block_header s) \<and>
     hdr_fs_version (meta_block_header s) = ETSS_SUPPORTED_VERSION \<and>
     hdr_active_swap_count (meta_block_header s) \<noteq> erase_val C \<and>
     hdr_metadata_xor (meta_block_header s) = table_xor (mm s (active_metablock s))"

text \<open>\<open>tabs_ok\<close> is what survives a failed operation, \<open>fs_inv\<close> the full invariant.\<close>

definition tabs_ok :: "'d fs_state \<Rightarrow> bool" where
  "tabs_ok s \<longleftrightarrow> metas s \<and> blocks_ok C (active_metablock s) (sdb s) (tB s) \<and> files_ok C (tB s) (tF s)"

definition scratch_blank :: "'d fs_state \<Rightarrow> bool" where
  "scratch_blank s \<longleftrightarrow> erased_on (mm s) (scratch_metablock s) whole \<and>
     (num_blocks C \<noteq> 2 \<longrightarrow> erased_on (mm s) (sdb s) whole)"

definition fs_inv :: "'d fs_state \<Rightarrow> bool" where
  "fs_inv s \<longleftrightarrow> tabs_ok s \<and> hdr_ok s \<and> scratch_blank s"

definition at_rest :: "'d fs_state \<Rightarrow> bool" where
  "at_rest s \<longleftrightarrow> fs_inv s \<and> rest_ok C (tF s)"

definition fs_abs :: "'d fs_state \<Rightarrow> buf \<Rightarrow> afile option" where
  "fs_abs s = absfs C (mm s) (tB s) (tF s)"

lemma tabs_okD:
  assumes "tabs_ok s"
  shows "metas s" "blocks_ok C (active_metablock s) (sdb s) (tB s)" "files_ok C (tB s) (tF s)"
    "active_metablock s = 0 \<or> active_metablock s = 1" "act_ok s" "sok s"
  using assms metas_ids by (auto simp: tabs_ok_def)

lemma fs_invD:
  assumes "fs_inv s"
  shows "tabs_ok s" "hdr_ok s" "scratch_blank s"
  using assms by (simp_all add: fs_inv_def)

lemma tabs_ok_rB: "tabs_ok s \<Longrightarrow> unat l < nad C \<Longrightarrow> rB s l = Inr (tB s (unat l))"
  using blocks_okD(2) [OF tabs_okD(2)] by (simp add: rbm_def)

lemma tabs_ok_rF: "tabs_ok s \<Longrightarrow> unat i < mnf C \<Longrightarrow> rF s i = Inr (tF s (unat i))"
  using files_okD(2) [OF tabs_okD(3)] by (simp add: rfm_def)

section \<open>What a commit establishes\<close>

text \<open>
  When the scratch metadata block holds the image of tables \<open>B\<close> and \<open>F\<close>, \<open>finalize\<close> makes it the
  active block of a state with these tables and blank scratch blocks.
\<close>

lemma committed_tables:
  assumes m: "metas s"
    and img: "\<And>p. 8 \<le> p \<Longrightarrow> p < foff C (mnf C) \<Longrightarrow> mm s (scratch_metablock s) ! p = mb_image C B F D p"
    and ids: "\<And>i. i < mnf C \<Longrightarrow> length (fm_id (F i)) = 12"
  shows "\<And>p. p < unat (block_size C) \<Longrightarrow> committed s (scratch_metablock s) ! p =
      (if p < 8 then encode_header (new_header s) ! p else mm s (scratch_metablock s) ! p)"
    and "\<And>mx l. mx (scratch_metablock s) = committed s (scratch_metablock s) \<Longrightarrow> l < nad C \<Longrightarrow>
      bmv mx (scratch_metablock s) l = B l"
    and "\<And>mx i. mx (scratch_metablock s) = committed s (scratch_metablock s) \<Longrightarrow> i < mnf C \<Longrightarrow>
      fmv C mx (scratch_metablock s) i = F i"
    and "table_xor (committed s (scratch_metablock s)) = table_xor (mm s (scratch_metablock s))"
    and "bslice 0 8 (committed s (scratch_metablock s)) = encode_header (new_header s)"
proof -
  let ?scr = "scratch_metablock s"
  have ln: "length (mm s ?scr) = unat (block_size C)" using m by (simp add: mm_length)
  have le: "foff C (mnf C) \<le> unat (block_size C)" "foff C 0 \<le> foff C (mnf C)" "8 \<le> foff C 0"
    using cfg_okD(3) [OF cfg] by (simp_all add: foff_def)
  have lc: "length (committed s ?scr) = unat (block_size C)" by (simp add: committed_def ln)
  show cp: "committed s ?scr ! p = (if p < 8 then encode_header (new_header s) ! p else mm s ?scr ! p)"
    if "p < unat (block_size C)" for p
    using that ln by (simp add: committed_def nth_fillM)
  show "bmv mx ?scr l = B l" if "mx ?scr = committed s ?scr" "l < nad C" for l mx
    using that boff_le [OF that(2)] boff_le_block [OF cfg that(2)] le lc
    by (intro bmv_image [where C = C and F = F and D = D]) (auto simp: cp img boff_def)
  show "fmv C mx ?scr i = F i" if "mx ?scr = committed s ?scr" "i < mnf C" for i mx
    using that foff_mono [OF that(2), of C] foff_le_block [OF cfg that(2)] le lc ids
    by (intro fmv_image [where B = B and D = D]) (auto simp: cp img foff_def)
  show "table_xor (committed s ?scr) = table_xor (mm s ?scr)"
  proof -
    have "bslice 8 (foff C (mnf C) - 8) (committed s ?scr) = bslice 8 (foff C (mnf C) - 8) (mm s ?scr)"
      using le ln lc by (intro nth_equalityI) (auto simp: length_bslice nth_bslice cp)
    then show ?thesis by (simp add: table_xor_def)
  qed
  show "bslice 0 8 (committed s ?scr) = encode_header (new_header s)"
    using le lc by (subst slice_eq_iff) (auto simp: cp)
qed

lemma finalize_tables_wp:
  assumes m: "metas s"
    and er: "erased_on (mm s) (scratch_metablock s) {0..<8}"
    and img: "\<And>p. 8 \<le> p \<Longrightarrow> p < foff C (mnf C) \<Longrightarrow> mm s (scratch_metablock s) ! p = mb_image C B F D p"
    and ids: "\<And>i. i < mnf C \<Longrightarrow> length (fm_id (F i)) = 12"
    and ver: "hdr_fs_version (meta_block_header s) = ETSS_SUPPORTED_VERSION"
    and sd: "num_blocks C \<noteq> 2 \<Longrightarrow> sdb s \<notin> {0, 1} \<and> sdb s < ucast (num_blocks C)"
    and Q: "\<And>s'. metas s' \<Longrightarrow> active_metablock s' = scratch_metablock s \<Longrightarrow>
      scratch_metablock s' = active_metablock s \<Longrightarrow> sdb s' = sdb s \<Longrightarrow> hdr_ok s' \<Longrightarrow> scratch_blank s' \<Longrightarrow>
      (\<And>l. l < nad C \<Longrightarrow> tB s' l = B l) \<Longrightarrow> (\<And>i. i < mnf C \<Longrightarrow> tF s' i = F i) \<Longrightarrow>
      (\<And>p. 8 \<le> p \<Longrightarrow> p < unat (block_size C) \<Longrightarrow>
        mm s' (scratch_metablock s) ! p = mm s (scratch_metablock s) ! p) \<Longrightarrow>
      (\<And>b. b \<notin> {active_metablock s, scratch_metablock s} \<Longrightarrow> num_blocks C = 2 \<or> b \<noteq> sdb s \<Longrightarrow> mm s' b = mm s b) \<Longrightarrow>
      Q () s'"
    and E1: "\<And>e d' h. \<not> rel \<Longrightarrow> dok d' \<Longrightarrow> (\<And>b'. b' \<noteq> scratch_metablock s \<Longrightarrow> mem d' b' = mm s b') \<Longrightarrow>
      E e (s\<lparr>meta_block_header := h, flash := d'\<rparr>)"
    and E2: "\<And>e s'. \<not> rel \<Longrightarrow> metas s' \<Longrightarrow> active_metablock s' = scratch_metablock s \<Longrightarrow>
      sdb s' = sdb s \<Longrightarrow>
      (\<And>l. l < nad C \<Longrightarrow> tB s' l = B l) \<Longrightarrow> (\<And>i. i < mnf C \<Longrightarrow> tF s' i = F i) \<Longrightarrow>
      (\<And>p. 8 \<le> p \<Longrightarrow> p < unat (block_size C) \<Longrightarrow>
        mm s' (scratch_metablock s) ! p = mm s (scratch_metablock s) ! p) \<Longrightarrow>
      (\<And>b. b \<notin> {active_metablock s, scratch_metablock s} \<Longrightarrow> num_blocks C = 2 \<or> b \<noteq> sdb s \<Longrightarrow> mm s' b = mm s b) \<Longrightarrow>
      E e s'"
  shows "wp etss_flash_fs_mblock_meta_update_finalize Q E s"
proof -
  let ?scr = "scratch_metablock s" and ?act = "active_metablock s"
  have scr: "?scr = 0 \<or> ?scr = 1" using m by (rule metas_ids)
  note cp = committed_tables(1) [OF m img ids] and cB = committed_tables(2) [OF m img ids]
    and cF = committed_tables(3) [OF m img ids] and cx = committed_tables(4) [OF m img ids]
    and ch = committed_tables(5) [OF m img ids]
  have nsd: "num_blocks C = 2 \<or> ?scr \<noteq> sdb s" using sd scr by auto
  have co: "committed s b = mm s b" if "b \<noteq> ?scr" for b using that by (simp add: committed_def)
  have bl: "erased_on (\<lambda>_. blank) b whole" for b by (simp add: erased_on_def blank_def)
  show ?thesis
  proof (rule finalize_wp [OF m er])
    show "sdb s < ucast (num_blocks C)" if "num_blocks C \<noteq> 2" using sd [OF that] by simp
  next
    fix d assume d: "dok d" "mem d = (if num_blocks C = 2 then (committed s)(?act := blank)
        else (committed s)(?act := blank, sdb s := blank))"
    let ?t = "s\<lparr>meta_block_header := new_header s, active_metablock := ?scr,
        scratch_metablock := ?act, flash := d\<rparr>"
    have sm: "mem d ?scr = committed s ?scr" using d(2) nsd m by auto
    have am: "mem d ?act = blank" using d(2) by (auto split: if_splits)
    have mt: "metas ?t" using m d(1) unfolding metas_def sok_def by auto
    show "Q () ?t"
    proof (rule Q)
      show "hdr_ok ?t" using sm ch cx ver by (simp add: hdr_ok_def next_count_neq_erase)
      show "scratch_blank ?t"
        using am d(2) bl by (auto simp: scratch_blank_def erased_on_def)
    qed (use mt sm cB cF cp co d(2) in \<open>auto split: if_splits\<close>)
  next
    fix e d assume d: "\<not> rel" "dok d" "\<And>b'. b' \<noteq> ?act \<Longrightarrow> num_blocks C = 2 \<or> b' \<noteq> sdb s \<Longrightarrow>
      mem d b' = committed s b'"
    let ?t = "s\<lparr>meta_block_header := new_header s, active_metablock := ?scr,
        scratch_metablock := ?act, flash := d\<rparr>"
    have sm: "mem d ?scr = committed s ?scr" using d(3) nsd m by simp
    have mt: "metas ?t" using m d(2) unfolding metas_def sok_def by auto
    show "E e ?t"
      by (rule E2) (use mt sm cB cF cp co d in auto)
  qed (use E1 in auto)
qed

end

end
