(* ===== verification/Flash_Fs_Stage.thy ===== *)
theory Flash_Fs_Stage
  imports Flash_Fs_Inv
begin

text \<open>
  Preparing the scratch metadata block step by step. In a stage, the positions \<open>R\<close> of the scratch
  metadata block hold the bytes of the image \<open>T\<close> and the others are erased; every operation on the
  scratch block extends \<open>R\<close> by the region it programs, which must still be erased.
\<close>

context fs_dev
begin

definition stage :: "'d fs_state \<Rightarrow> (nat \<Rightarrow> u8) \<Rightarrow> nat set \<Rightarrow> 'd fs_state \<Rightarrow> bool" where
  "stage s T R t \<longleftrightarrow> metas s \<and> dok (flash t) \<and> t = s\<lparr>flash := flash t\<rparr> \<and>
     (\<forall>b. b \<noteq> scratch_metablock s \<longrightarrow> mm t b = mm s b) \<and>
     (\<forall>p<unat (block_size C). mm t (scratch_metablock s) ! p = (if p \<in> R then T p else erase_val C))"

text \<open>The error clause shared by the operations of a stage: only the scratch block is spoilt.\<close>

definition spoilt :: "'d fs_state \<Rightarrow> (psa_error \<Rightarrow> 'd fs_state \<Rightarrow> bool) \<Rightarrow> bool" where
  "spoilt s E \<longleftrightarrow> (\<forall>e d. dok d \<longrightarrow> (\<forall>b. b \<noteq> scratch_metablock s \<longrightarrow> mem d b = mm s b) \<longrightarrow>
     E e (s\<lparr>flash := d\<rparr>))"

lemma stageD:
  assumes "stage s T R t"
  shows "metas s" "metas t" "active_metablock t = active_metablock s"
    "scratch_metablock t = scratch_metablock s" "meta_block_header t = meta_block_header s"
    "\<And>b. b \<noteq> scratch_metablock s \<Longrightarrow> mm t b = mm s b"
    "\<And>p. p < unat (block_size C) \<Longrightarrow> mm t (scratch_metablock s) ! p = (if p \<in> R then T p else erase_val C)"
proof -
  have t: "t = s\<lparr>flash := flash t\<rparr>" and m: "metas s" and d: "dok (flash t)" using assms by (simp_all add: stage_def)
  show "metas s" by (rule m)
  show "metas t" by (subst t) (use m d in simp)
  show "active_metablock t = active_metablock s" "scratch_metablock t = scratch_metablock s"
    "meta_block_header t = meta_block_header s" by (subst t, simp)+
qed (use assms in \<open>simp_all add: stage_def\<close>)

lemma stage_upd: "stage s T R t \<Longrightarrow> t\<lparr>flash := d\<rparr> = s\<lparr>flash := d\<rparr>"
proof -
  assume "stage s T R t"
  then have "t = s\<lparr>flash := flash t\<rparr>" by (simp add: stage_def)
  then have "t\<lparr>flash := d\<rparr> = s\<lparr>flash := flash t\<rparr>\<lparr>flash := d\<rparr>" by simp
  then show ?thesis by simp
qed

lemma stage_init:
  assumes "metas s" and "erased_on (mm s) (scratch_metablock s) whole"
  shows "stage s T {} s"
  using assms by (simp add: stage_def erased_on_def)

lemma stageI:
  assumes "metas s" and "dok d" and "\<And>b. b \<noteq> scratch_metablock s \<Longrightarrow> mem d b = mm s b"
    and "\<And>p. p < unat (block_size C) \<Longrightarrow> mem d (scratch_metablock s) ! p = (if p \<in> R then T p else erase_val C)"
  shows "stage s T R (s\<lparr>flash := d\<rparr>)"
  using assms by (simp add: stage_def)

lemma stage_self: "stage s T R t \<Longrightarrow> stage t T R t"
proof -
  assume st: "stage s T R t"
  have "stage t T R (t\<lparr>flash := flash t\<rparr>)"
    by (rule stageI) (use stageD(2,4,7) [OF st] in auto)
  then show ?thesis by simp
qed

lemma stage_act: "stage s T R t \<Longrightarrow> mm t (active_metablock s) = mm s (active_metablock s)"
  using stageD [of s T R t] by simp

lemma stage_tables:
  assumes "stage s T R t"
  shows "tB t = tB s" "tF t = tF s" "rbm C (mm t) (active_metablock t) = rbm C (mm s) (active_metablock s)"
    "rfm C (mm t) (active_metablock t) = rfm C (mm s) (active_metablock s)"
  using table_cong [where m = "mm t" and m' = "mm s" and a = "active_metablock s", OF stage_act [OF assms]]
    stageD(3) [OF assms] by simp_all

lemma stage_erased:
  "stage s T R t \<Longrightarrow> X \<inter> R = {} \<Longrightarrow> X \<subseteq> whole \<Longrightarrow> erased_on (mm t) (scratch_metablock t) X"
  using stageD(4,7) [of s T R t] by (force simp: erased_on_def)

lemma stage_fill:
  assumes "stage s T R t" and "dok d" and "mem d = fillM (mm t) (scratch_metablock t) X T"
  shows "stage s T (R \<union> X) (t\<lparr>flash := d\<rparr>)"
proof -
  have "length (mm t (scratch_metablock s)) = unat (block_size C)"
    using stageD [OF assms(1)] by (metis metas_simps(1,4) mm_length)
  then show ?thesis
    using assms stageD [OF assms(1)]
    by (simp add: stage_def stage_upd [OF assms(1)] nth_fillM)
qed

lemma stage_spoilt:
  assumes "stage s T R t" and "spoilt s E" and "dok d"
    and "\<And>b. b \<noteq> scratch_metablock t \<Longrightarrow> mem d b = mm t b"
  shows "E e (t\<lparr>flash := d\<rparr>)"
  using assms stageD [OF assms(1)] by (simp add: spoilt_def stage_upd [OF assms(1)])

lemma stage_same:
  assumes "stage s T R t" and "dok d" and "mem d = mm t"
  shows "stage s T R (t\<lparr>flash := d\<rparr>)"
  unfolding stage_upd [OF assms(1)]
  by (rule stageI) (use stageD(1,6,7) [OF assms(1)] assms(2,3) in auto)

text \<open>The operations of the metadata layer on a stage.\<close>

lemma stage_file_meta:
  assumes st: "stage s T R t" and sp: "\<not> rel \<Longrightarrow> spoilt s E" and i: "unat i < mnf C" and "length (fm_id x) = 12"
    and "{foff C (unat i)..<foff C (unat i) + 32} \<inter> R = {}"
    and "\<And>k. k < 32 \<Longrightarrow> T (foff C (unat i) + k) = encode_file_meta x ! k"
    and Q: "\<And>t'. stage s T (R \<union> {foff C (unat i)..<foff C (unat i) + 32}) t' \<Longrightarrow> Q () t'"
  shows "wp (etss_flash_fs_mblock_update_scratch_file_meta i x) Q E t"
proof (rule update_file_meta_wp [where T = T, OF stageD(2) [OF st] i assms(4)])
  show "erased_on (mm t) (scratch_metablock t) {foff C (unat i)..<foff C (unat i) + 32}"
    using st assms(5) foff_le_block [OF cfg i] by (intro stage_erased) auto
qed (use assms stage_fill [OF st] stage_spoilt [OF st sp] in auto)

lemma stage_cp_file_meta:
  assumes st: "stage s T R t" and sp: "\<not> rel \<Longrightarrow> spoilt s E" and ij: "unat i \<le> unat j" "unat j \<le> mnf C"
    and "{foff C (unat i)..<foff C (unat j)} \<inter> R = {}"
    and "\<And>p. foff C (unat i) \<le> p \<Longrightarrow> p < foff C (unat j) \<Longrightarrow> T p = mm s (active_metablock s) ! p"
    and Q: "\<And>t'. stage s T (R \<union> {foff C (unat i)..<foff C (unat j)}) t' \<Longrightarrow> Q () t'"
  shows "wp (etss_flash_fs_mblock_cp_file_meta i j) Q E t"
proof (rule cp_file_meta_wp [where T = T, OF stageD(2) [OF st] ij])
  have "foff C (unat j) \<le> unat (block_size C)"
    using ij(2) cfg_okD(3) [OF cfg] by (simp add: foff_def)
  then show "erased_on (mm t) (scratch_metablock t) {foff C (unat i)..<foff C (unat j)}"
    using st assms(5) by (intro stage_erased) auto
qed (use assms stage_fill [OF st] stage_spoilt [OF st sp] stage_act [OF st] stageD(3) [OF st] in auto)

lemma stage_block_meta:
  assumes st: "stage s (mb_image C B F D) R t" and sp: "\<not> rel \<Longrightarrow> spoilt s E" and l: "unat l < nad C"
    and b0: "l \<noteq> 0 \<Longrightarrow> rB s 0 = Inr (tB s 0)"
    and dj: "{8..<foff C 0} \<inter> R = {}"
    and "B (unat l) = (if l = 0 then x\<lparr>bm_phy_id := scratch_metablock s\<rparr> else x)"
    and "l \<noteq> 0 \<Longrightarrow> B 0 = (tB s 0)\<lparr>bm_phy_id := scratch_metablock s\<rparr>"
    and "\<And>k. k < nad C \<Longrightarrow> k \<noteq> 0 \<Longrightarrow> k \<noteq> unat l \<Longrightarrow> B k = tB s k"
    and Q: "\<And>t'. stage s (mb_image C B F D) (R \<union> {8..<foff C 0}) t' \<Longrightarrow> Q () t'"
  shows "wp (etss_flash_fs_mblock_update_scratch_block_meta l x) Q E t"
proof (rule scratch_block_meta_wp [where B = B and F = F and D = D, OF stageD(2) [OF st] l])
  have "foff C 0 \<le> unat (block_size C)"
    using cfg_okD(3) [OF cfg] foff_ge_0 [of C "mnf C"] by simp
  then show "erased_on (mm t) (scratch_metablock t) {8..<foff C 0}"
    using st dj by (intro stage_erased) auto
qed (use assms stage_fill [OF st] stage_spoilt [OF st sp] stage_tables [OF st] stageD(3,4) [OF st] in auto)

lemma stage_migrate:
  assumes st: "stage s T R t" and sp: "\<not> rel \<Longrightarrow> spoilt s E"
    and b0: "rB s 0 = Inr (tB s 0)" and phy: "bm_phy_id (tB s 0) = active_metablock s"
    and dj: "{foff C (mnf C)..<reg_end C (tB s 0)} \<inter> R = {}"
    and "\<And>p. foff C (mnf C) \<le> p \<Longrightarrow> p < reg_end C (tB s 0) \<Longrightarrow> T p = mm s (active_metablock s) ! p"
    and Q: "\<And>t'. stage s T (R \<union> {foff C (mnf C)..<reg_end C (tB s 0)}) t' \<Longrightarrow> Q () t'"
  shows "wp etss_flash_fs_mblock_migrate_lb0_data_to_scratch Q E t"
proof (rule migrate_wp [where T = T and ?b0.0 = "tB s 0", OF stageD(2) [OF st]])
  show "erased_on (mm t) (scratch_metablock t)
      {foff C (mnf C)..<unat (block_size C) - unat (bm_free_size (tB s 0))}"
    using st dj by (intro stage_erased) (auto simp: reg_end_def)
qed (use assms stage_fill [OF st] stage_spoilt [OF st sp] stage_tables [OF st] stageD(3,4) [OF st]
      stage_act [OF st] in \<open>auto simp: reg_end_def\<close>)

text \<open>Copying a range of the active metadata block behind the tables, or of another block.\<close>

lemma stage_move:
  assumes st: "stage s T R t" and sp: "\<not> rel \<Longrightarrow> spoilt s E"
    and src: "src < ucast (num_blocks C)" "src \<noteq> scratch_metablock s"
    and fits: "unat doff + unat len \<le> unat (block_size C)" "unat soff + unat len \<le> unat (block_size C)"
    and dj: "{unat doff..<unat doff + unat len} \<inter> R = {}"
    and T: "\<And>i. i < unat len \<Longrightarrow> T (unat doff + i) = mm s src ! (unat soff + i)"
    and Q: "\<And>t'. stage s T (R \<union> {unat doff..<unat doff + unat len}) t' \<Longrightarrow> Q () t'"
  shows "wp (etss_flash_fs_block_to_block_move (scratch_metablock s) doff src soff len) Q E t"
proof -
  have "wp (etss_flash_fs_block_to_block_move (scratch_metablock t) doff src soff len) Q E t"
  proof (rule move_wp [where T = T])
    have er: "erased_on (mm t) (scratch_metablock t) {unat doff..<unat doff + unat len}"
      using st dj fits by (intro stage_erased) auto
    show "mm t (scratch_metablock t) ! p = erase_val C"
      if "unat doff \<le> p" "p < unat doff + unat len" for p
      using er that by (auto dest: erased_onD)
  qed (use assms stage_fill [OF st] stage_spoilt [OF st sp] stageD [OF st] in auto)
  then show ?thesis using stageD(4) [OF st] by simp
qed

lemma stage_write:
  assumes st: "stage s T R t" and sp: "\<not> rel \<Longrightarrow> spoilt s E"
    and fits: "unat off + unat len \<le> unat (block_size C)" and len: "unat len \<le> length data"
    and dj: "{unat off..<unat off + unat len} \<inter> R = {}"
    and T: "\<And>i. i < unat len \<Longrightarrow> data ! i = T (unat off + i)"
    and Q: "\<And>t'. stage s T (R \<union> {unat off..<unat off + unat len}) t' \<Longrightarrow> Q () t'"
  shows "wp (flash_write (scratch_metablock s) data off len) Q E t"
proof -
  have "wp (flash_write (scratch_metablock t) data off len) Q E t"
  proof (rule flash_write_wp [where T = T])
    have er: "erased_on (mm t) (scratch_metablock t) {unat off..<unat off + unat len}"
      using st dj fits by (intro stage_erased) auto
    show "mm t (scratch_metablock t) ! p = erase_val C"
      if "unat off \<le> p" "p < unat off + unat len" for p
      using er that by (auto dest: erased_onD)
  qed (use assms stage_fill [OF st] stage_spoilt [OF st sp] stageD [OF st] in auto)
  then show ?thesis using stageD(4) [OF st] by simp
qed

end

end
