(* ===== verification/Flash_Fs_Delete.thy ===== *)
theory Flash_Fs_Delete
  imports Flash_Fs_Stage
begin

text \<open>
  Deleting a file: the entry is cleared, the files behind it in its logical block move down by its
  size, and the block is compacted into a scratch block. The code recognises the files behind it
  by \<open>data_idx > del_data_idx\<close>; that is right when the deleted file has a non-zero maximum size or
  lies at the end of the allocated part (\<open>del_safe\<close>), and wrong otherwise.
\<close>

section \<open>The tables after a deletion\<close>

definition shift_file :: "etss_file_meta_t \<Rightarrow> etss_file_meta_t \<Rightarrow> etss_file_meta_t" where
  "shift_file x y = (if fm_lblock y = fm_lblock x \<and> used y \<and> fm_data_idx y > fm_data_idx x
     then y\<lparr>fm_data_idx := fm_data_idx y - fm_max_size x\<rparr> else y)"

definition del_files :: "(nat \<Rightarrow> etss_file_meta_t) \<Rightarrow> nat \<Rightarrow> nat \<Rightarrow> etss_file_meta_t" where
  "del_files F i = (\<lambda>j. if j = i then zero_file_meta else shift_file (F i) (F j))"

text \<open>
  A block table in which logical block \<open>l\<close> gets the entry \<open>b\<close> and logical block 0 moves to the
  scratch metadata block.
\<close>

definition upd_blocks :: "(nat \<Rightarrow> etss_block_meta_t) \<Rightarrow> nat \<Rightarrow> etss_block_meta_t \<Rightarrow> u32 \<Rightarrow> nat \<Rightarrow> etss_block_meta_t" where
  "upd_blocks B l b scr = (\<lambda>k. if k = 0 then (if l = 0 then b else B 0)\<lparr>bm_phy_id := scr\<rparr>
     else if k = l then b else B k)"

definition del_blocks :: "(nat \<Rightarrow> etss_block_meta_t) \<Rightarrow> etss_file_meta_t \<Rightarrow> u32 \<Rightarrow> u32 \<Rightarrow> nat \<Rightarrow> etss_block_meta_t" where
  "del_blocks B x scr sid = (let l = unat (fm_lblock x) in
     upd_blocks B l ((B l)\<lparr>bm_free_size := bm_free_size (B l) + fm_max_size x, bm_phy_id := sid\<rparr>) scr)"

definition del_safe :: "etss_flash_fs_config_t \<Rightarrow> (nat \<Rightarrow> etss_block_meta_t) \<Rightarrow> etss_file_meta_t \<Rightarrow> bool" where
  "del_safe C B x \<longleftrightarrow> fm_max_size x \<noteq> 0 \<or> unat (fm_data_idx x) = reg_end C (B (unat (fm_lblock x)))"

definition later :: "etss_flash_fs_config_t \<Rightarrow> (nat \<Rightarrow> etss_file_meta_t) \<Rightarrow> nat \<Rightarrow> nat set" where
  "later C F i = {j. j < mnf C \<and> j \<noteq> i \<and> used (F j) \<and> fm_lblock (F j) = fm_lblock (F i) \<and>
     fm_data_idx (F i) < fm_data_idx (F j)}"

abbreviation region :: "etss_file_meta_t \<Rightarrow> nat set" where
  "region x \<equiv> {unat (fm_data_idx x)..<unat (fm_data_idx x) + unat (fm_max_size x)}"

lemma not_used_zero [simp]: "\<not> used zero_file_meta"
  by (simp add: used_def zero_file_meta_def validate_fid_Inr_iff ETSS_FILE_ID_SIZE_def)

lemma length_zero_id [simp]: "length (fm_id zero_file_meta) = 12"
  by (simp add: zero_file_meta_def ETSS_FILE_ID_SIZE_def)

lemma validate_zero_file_meta: "cfg_ok C \<Longrightarrow> etss_mblock_validate_file_meta C zero_file_meta = Inr ()"
  by (rule validate_file_metaI) (use not_used_zero nad_pos [of C] in \<open>auto simp: zero_file_meta_def used_def\<close>)

lemma later_ge:
  assumes "files_ok C B F" and "i < mnf C" and "used (F i)" and "del_safe C B (F i)" and "j \<in> later C F i"
  shows "unat (fm_data_idx (F i)) + unat (fm_max_size (F i)) \<le> unat (fm_data_idx (F j))"
proof -
  have "apart (F i) (F j)" using assms by (intro files_okD(5) [OF assms(1)]) (auto simp: later_def)
  moreover have "unat (fm_data_idx (F i)) < unat (fm_data_idx (F j))"
    using assms(5) by (simp add: later_def word_less_nat_alt)
  ultimately show ?thesis by (auto simp: apart_def)
qed

lemma later_cover:
  assumes ok: "files_ok C B F" and i: "i < mnf C" "used (F i)" and safe: "del_safe C B (F i)"
    and l: "unat (fm_lblock (F i)) = l" "l < nad C" and st: "unat (bm_data_start (B l)) \<le> reg_end C (B l)"
  shows "{unat (fm_data_idx (F i)) + unat (fm_max_size (F i))..<reg_end C (B l)} =
    (\<Union>j\<in>later C F i. region (F j))"
proof (intro equalityI subsetI)
  let ?a = "unat (fm_data_idx (F i))" and ?m = "unat (fm_max_size (F i))"
  have ri: "unat (bm_data_start (B l)) \<le> ?a" "?a + ?m \<le> reg_end C (B l)"
    using files_okD(3) [OF ok i] l by auto
  fix p assume p: "p \<in> {?a + ?m..<reg_end C (B l)}"
  then have m0: "0 < ?m" using safe l by (auto simp: del_safe_def unat_gt_0)
  obtain j where j: "j < mnf C" "covers (F j) l p"
    using files_okD(4) [OF ok l(2), of p] p ri by auto
  have ji: "j \<noteq> i" using p j(2) by (auto simp: covers_def)
  have "apart (F i) (F j)"
    using j i ji l by (intro files_okD(5) [OF ok]) (auto simp: covers_def word_unat_eq_iff)
  then have "?a < unat (fm_data_idx (F j))"
    using p j(2) m0 by (auto simp: apart_def covers_def)
  then have "j \<in> later C F i"
    using j ji l by (auto simp: later_def covers_def word_less_nat_alt word_unat_eq_iff)
  then show "p \<in> (\<Union>j\<in>later C F i. region (F j))" using j(2) by (auto simp: covers_def)
next
  fix p assume "p \<in> (\<Union>j\<in>later C F i. region (F j))"
  then obtain j where j: "j \<in> later C F i" "p \<in> region (F j)" by blast
  then have "unat (fm_data_idx (F j)) + unat (fm_max_size (F j)) \<le> reg_end C (B l)"
    using files_okD(3) [OF ok, of j] l by (auto simp: later_def)
  then show "p \<in> {unat (fm_data_idx (F i)) + unat (fm_max_size (F i))..<reg_end C (B l)}"
    using later_ge [OF ok i safe j(1)] j(2) by auto
qed

lemma later_sum:
  assumes ok: "files_ok C B F" and i: "i < mnf C" "used (F i)" and safe: "del_safe C B (F i)"
    and l: "unat (fm_lblock (F i)) = l" "l < nad C" and st: "unat (bm_data_start (B l)) \<le> reg_end C (B l)"
  shows "(\<Sum>j\<in>later C F i. unat (fm_max_size (F j))) =
    reg_end C (B l) - (unat (fm_data_idx (F i)) + unat (fm_max_size (F i)))"
proof -
  have dj: "region (F j) \<inter> region (F k) = {}" if "j \<in> later C F i" "k \<in> later C F i" "j \<noteq> k" for j k
  proof -
    have "apart (F j) (F k)" using that by (intro files_okD(5) [OF ok]) (auto simp: later_def)
    then show ?thesis by (auto simp: apart_def)
  qed
  have "card (\<Union>j\<in>later C F i. region (F j)) = (\<Sum>j\<in>later C F i. card (region (F j)))"
    by (rule card_UN_disjoint) (use dj in \<open>auto simp: later_def\<close>)
  then show ?thesis unfolding later_cover [OF assms, symmetric] by simp
qed

lemma unat_shift_idx:
  assumes "files_ok C B F" and "i < mnf C" and "used (F i)" and "del_safe C B (F i)" and "j \<in> later C F i"
  shows "unat (fm_data_idx (F j) - fm_max_size (F i)) = unat (fm_data_idx (F j)) - unat (fm_max_size (F i))"
  using later_ge [OF assms] by (simp add: unat_sub_u32)

lemma shift_file_simps [simp]:
  "fm_id (shift_file x y) = fm_id y" "fm_max_size (shift_file x y) = fm_max_size y"
  "fm_cur_size (shift_file x y) = fm_cur_size y" "fm_lblock (shift_file x y) = fm_lblock y"
  "fm_flags (shift_file x y) = fm_flags y" "used (shift_file x y) = used y"
  by (simp_all add: shift_file_def used_def)

lemma del_files_simps:
  "used (del_files F i j) \<longleftrightarrow> j \<noteq> i \<and> used (F j)"
  "j \<noteq> i \<Longrightarrow> fm_lblock (del_files F i j) = fm_lblock (F j)"
  "j \<noteq> i \<Longrightarrow> fm_max_size (del_files F i j) = fm_max_size (F j)"
  "j \<noteq> i \<Longrightarrow> fm_cur_size (del_files F i j) = fm_cur_size (F j)"
  "j \<noteq> i \<Longrightarrow> fm_flags (del_files F i j) = fm_flags (F j)"
  "j \<noteq> i \<Longrightarrow> fm_id (del_files F i j) = fm_id (F j)"
  by (simp_all add: del_files_def)

text \<open>The position of a remaining file in use.\<close>

lemma del_files_idx:
  assumes "files_ok C B F" and "i < mnf C" and "used (F i)" and "del_safe C B (F i)"
    and "j < mnf C" and "used (F j)" and "j \<noteq> i"
  shows "unat (fm_data_idx (del_files F i j)) =
    (if j \<in> later C F i then unat (fm_data_idx (F j)) - unat (fm_max_size (F i)) else unat (fm_data_idx (F j)))"
  using assms unat_shift_idx [OF assms(1-4), of j]
  by (auto simp: del_files_def shift_file_def later_def)

lemma del_blocks_simps:
  "bm_data_start (del_blocks B x scr sid k) = bm_data_start (B k)"
  "bm_free_size (del_blocks B x scr sid k) =
     (if k = unat (fm_lblock x) then bm_free_size (B k) + fm_max_size x else bm_free_size (B k))"
  "bm_phy_id (del_blocks B x scr sid k) =
     (if k = 0 then scr else if k = unat (fm_lblock x) then sid else bm_phy_id (B k))"
  by (simp_all add: del_blocks_def upd_blocks_def Let_def)

text \<open>A file before the deleted one ends before it, or is not in the same block.\<close>

lemma not_later_le:
  assumes "files_ok C B F" and "i < mnf C" and "used (F i)" and "del_safe C B (F i)"
    and "j < mnf C" and "used (F j)" and "j \<noteq> i" and "j \<notin> later C F i"
    and "fm_lblock (F j) = fm_lblock (F i)"
  shows "unat (fm_data_idx (F j)) + unat (fm_max_size (F j)) \<le> unat (fm_data_idx (F i)) \<and>
    unat (fm_data_idx (F j)) \<le> unat (fm_data_idx (F i))"
proof -
  have "apart (F i) (F j)" using assms by (intro files_okD(5) [OF assms(1)]) auto
  moreover have le: "unat (fm_data_idx (F j)) \<le> unat (fm_data_idx (F i))"
    using assms by (auto simp: later_def word_less_nat_alt)
  moreover have "unat (fm_data_idx (F j)) + unat (fm_max_size (F j)) \<le> reg_end C (B (unat (fm_lblock (F i))))"
    using files_okD(3) [OF assms(1,5,6)] assms(9) by simp
  moreover have "0 < unat (fm_max_size (F i)) \<or> unat (fm_data_idx (F i)) = reg_end C (B (unat (fm_lblock (F i))))"
    using assms(4) by (auto simp: del_safe_def unat_gt_0)
  ultimately show ?thesis unfolding apart_def by linarith
qed

lemma del_files_ok:
  assumes cfg: "cfg_ok C" and ok: "files_ok C B F" and i: "i < mnf C" "used (F i)" and safe: "del_safe C B (F i)"
    and bo: "blocks_ok C act sdb B" "act = 0 \<or> act = 1"
  shows "files_ok C (del_blocks B (F i) scr sid) (del_files F i)"
proof -
  let ?B = "del_blocks B (F i) scr sid" and ?F = "del_files F i"
  let ?l = "unat (fm_lblock (F i))" and ?a = "unat (fm_data_idx (F i))" and ?m = "unat (fm_max_size (F i))"
  have l: "?l < nad C" using validate_file_meta_Inr(1) [OF cfg files_okD(2) [OF ok i(1)]] .
  note st = block_start [OF cfg bo l]
  have ri: "unat (bm_data_start (B ?l)) \<le> ?a" "?a + ?m \<le> reg_end C (B ?l)" using files_okD(3) [OF ok i] by auto
  have re: "reg_end C (?B k) = (if k = ?l then reg_end C (B k) - ?m else reg_end C (B k))" for k
  proof (cases "k = ?l")
    case True
    have "unat (bm_free_size (B ?l) + fm_max_size (F i)) = unat (bm_free_size (B ?l)) + ?m"
      using st(5) ri unat_u32_less [of "block_size C"] by (simp add: unat_add_u32)
    then show ?thesis using True by (simp add: reg_end_def del_blocks_simps)
  qed (simp add: reg_end_def del_blocks_simps)
  note idx = del_files_idx [OF ok i safe] and ge = later_ge [OF ok i safe] and le = not_later_le [OF ok i safe]
  have lb: "fm_lblock (F j) = fm_lblock (F i)" if "j \<in> later C F i" for j using that by (simp add: later_def)
  have in_reg: "unat (bm_data_start (?B (unat (fm_lblock (?F j))))) \<le> unat (fm_data_idx (?F j)) \<and>
      unat (fm_data_idx (?F j)) + unat (fm_max_size (?F j)) \<le> reg_end C (?B (unat (fm_lblock (?F j))))"
    if j: "j < mnf C" "used (?F j)" for j
  proof -
    have ju: "j \<noteq> i" "used (F j)" using j(2) by (simp_all add: del_files_simps)
    note old = files_okD(3) [OF ok j(1) ju(2)]
    show ?thesis
    proof (cases "j \<in> later C F i")
      case True
      then show ?thesis
        using old idx [OF j(1) ju(2,1)] ge [OF True] lb [OF True] ju ri
        by (simp add: del_files_simps del_blocks_simps re, linarith)
    next
      case False
      then show ?thesis
        using old idx [OF j(1) ju(2,1)] le [OF j(1) ju(2,1) False] ju ri
        by (auto simp: del_files_simps del_blocks_simps re word_unat_eq_iff)
    qed
  qed
  show ?thesis
    unfolding files_ok_def
  proof (intro conjI allI impI)
    fix j assume j: "j < mnf C"
    show "length (fm_id (?F j)) = 12" using files_okD(1) [OF ok j] by (simp add: del_files_def)
    show "etss_mblock_validate_file_meta C (?F j) = Inr ()"
    proof (cases "j = i")
      case True
      then show ?thesis by (simp add: del_files_def validate_zero_file_meta cfg)
    next
      case False
      note v = validate_file_meta_Inr [OF cfg files_okD(2) [OF ok j]]
      show ?thesis
      proof (rule validate_file_metaI [OF cfg])
        show "unat (fm_lblock (?F j)) < nad C" using v(1) False by (simp add: del_files_simps)
        assume "etss_utils_validate_fid (fm_id (?F j)) = Inr ()"
        then have u: "used (?F j)" "used (F j)" using False by (simp_all add: used_def del_files_simps)
        have k: "unat (fm_lblock (F j)) < nad C" using v(1) .
        have "reg_end C (?B (unat (fm_lblock (F j)))) \<le> unat (block_size C)" by (simp add: reg_end_def)
        moreover have "fm_lblock (F j) = 0 \<Longrightarrow> unat (bm_data_start (B 0)) = foff C (mnf C)"
          using block_start(1) [OF cfg bo nad_pos [OF cfg]] by simp
        ultimately show "unat (fm_max_size (?F j)) \<le> unat (max_file_size C) \<and>
            unat (fm_cur_size (?F j)) \<le> unat (fm_max_size (?F j)) \<and>
            unat (fm_data_idx (?F j)) + unat (fm_max_size (?F j)) \<le> unat (block_size C) \<and>
            (fm_lblock (?F j) = 0 \<longrightarrow> foff C (mnf C) \<le> unat (fm_data_idx (?F j)))"
          using v(2) in_reg [OF j u(1)] u(2) False
          by (auto simp: used_def del_files_simps del_blocks_simps)
      qed
    qed
  next
    fix k p assume k: "k < nad C" "unat (bm_data_start (?B k)) \<le> p" "p < reg_end C (?B k)"
    define q where "q = (if k = ?l \<and> ?a \<le> p then p + ?m else p)"
    have "unat (bm_data_start (B k)) \<le> q" "q < reg_end C (B k)"
      using k re [of k] by (auto simp: q_def del_blocks_simps split: if_splits)
    then obtain j where j: "j < mnf C" "covers (F j) k q" using files_okD(4) [OF ok k(1)] by blast
    then have ju: "used (F j)" by (simp add: covers_def)
    have ji: "j \<noteq> i" using j(2) by (auto simp: covers_def q_def split: if_splits)
    have "covers (?F j) k p"
    proof (cases "j \<in> later C F i")
      case True
      then show ?thesis
        using j(2) idx [OF j(1) ju ji] ge [OF True] lb [OF True] ji ju
        by (auto simp: covers_def del_files_simps q_def split: if_splits)
    next
      case False
      have "p = q"
        using le [OF j(1) ju ji False] j(2) by (auto simp: covers_def q_def word_unat_eq_iff)
      then show ?thesis
        using j(2) idx [OF j(1) ju ji] False ji ju by (simp add: covers_def del_files_simps)
    qed
    then show "\<exists>i'<mnf C. covers (?F i') k p" using j(1) by blast
  next
    fix j k assume jk: "j < mnf C" "k < mnf C" "used (?F j)" "used (?F k)" "j \<noteq> k"
      "fm_lblock (?F j) = fm_lblock (?F k)"
    then have u: "j \<noteq> i" "used (F j)" "k \<noteq> i" "used (F k)" by (simp_all add: del_files_simps)
    then have s: "fm_lblock (F j) = fm_lblock (F k)" using jk(6) by (simp add: del_files_simps)
    have ap: "apart (F j) (F k)" using jk u s by (intro files_okD(5) [OF ok]) auto
    show "apart (?F j) (?F k)"
      using ap idx [OF jk(1) u(2,1)] idx [OF jk(2) u(4,3)] ge [of j] ge [of k] lb [of j] lb [of k]
        le [OF jk(1) u(2,1)] le [OF jk(2) u(4,3)] u s
      by (cases "j \<in> later C F i"; cases "k \<in> later C F i") (auto simp: apart_def del_files_simps)
  qed (use in_reg in auto)
qed

lemma upd_blocks_ok:
  assumes cfg: "cfg_ok C" and bo: "blocks_ok C act sdb B"
    and ids: "(act, scr) \<in> {(0, 1), (1, 0)}" and l: "l < nad C"
    and st: "bm_data_start b = bm_data_start (B l)"
    and fits: "unat (bm_data_start b) + unat (bm_free_size b) \<le> unat (block_size C)"
    and ph: "l = 0 \<and> sdb' = sdb \<or> l \<noteq> 0 \<and> bm_phy_id b = bm_phy_id (B l) \<and> sdb' = sdb \<or>
      l \<noteq> 0 \<and> bm_phy_id b = sdb \<and> sdb' = bm_phy_id (B l)"
  shows "blocks_ok C scr sdb' (upd_blocks B l b scr)"
proof -
  have act: "act = 0 \<or> act = 1" and scr: "scr = 0 \<or> scr = 1" "scr \<noteq> act" using ids by auto
  note bs = block_start [OF cfg bo act]
  have two: "num_blocks C = 2 \<Longrightarrow> l = 0" using l by (simp add: nad_def)
  note old = blocks_okD(3-5) [OF bo]
  have sd: "l \<noteq> 0 \<Longrightarrow> sdb \<notin> {0, 1} \<and> sdb < ucast (num_blocks C)" using old(3) two by auto
  have scrn: "unat scr < unat (num_blocks C)" using scr cfg_okD(2) [OF cfg] by auto
  have st': "unat (bm_data_start b) = (if l = 0 then foff C (mnf C) else 0)" using bs(1) [OF l] st by simp
  have bphy: "l \<noteq> 0 \<Longrightarrow> bm_phy_id b \<notin> {0, 1} \<and> bm_phy_id b < ucast (num_blocks C)"
    using ph old(1) [OF l] bs(4) [OF l] sd by auto
  have v: "etss_mblock_validate_block_meta C (upd_blocks B l b scr k) = Inr ()" if k: "k < nad C" for k
  proof -
    have vk: "etss_mblock_validate_block_meta C (B k) = Inr ()" using blocks_okD(2) [OF bo k] .
    show ?thesis
      using vk bs(1,2) [OF k] bs(4) [OF k] st' fits scr scrn bphy
      by (auto simp: validate_block_meta_Inr_iff cfg upd_blocks_def word_less_nat_alt)
  qed
  have p: "bm_phy_id (upd_blocks B l b scr k) = (if k = 0 then scr else if k = l then bm_phy_id b else bm_phy_id (B k))" for k
    by (simp add: upd_blocks_def)
  show ?thesis
    unfolding blocks_ok_def
  proof (intro conjI allI impI)
    fix k assume k: "k < nad C" "0 < k"
    show "bm_phy_id (upd_blocks B l b scr k) \<notin> {0, 1, sdb'}"
      using p [of k] k old(1) [OF k] old(1) [OF l] old(2) [OF k(1) l] ph sd bphy by auto
  next
    fix k j assume kj: "k < nad C" "j < nad C"
      "bm_phy_id (upd_blocks B l b scr k) = bm_phy_id (upd_blocks B l b scr j)"
    show "k = j"
      using kj p [of k] p [of j] old(1) [OF kj(1)] old(1) [OF kj(2)] old(2) [OF kj(1,2)] ph scr bphy
      by (auto split: if_splits)
  next
    assume "num_blocks C \<noteq> 2"
    then have "sdb \<notin> {0, 1} \<and> sdb < ucast (num_blocks C)" by (rule old(3))
    then show "sdb' \<notin> {0, 1}" "sdb' < ucast (num_blocks C)"
      using ph old(1) [OF l] bs(4) [OF l] by auto
  qed (use p v in auto)
qed

text \<open>The contents of the remaining files after the compaction.\<close>

lemma del_content:
  assumes cfg: "cfg_ok C" and ok: "files_ok C B F" and i: "i < mnf C" "used (F i)" and safe: "del_safe C B (F i)"
    and j: "j < mnf C" "used (F j)" "j \<noteq> i"
    and lens: "length (m (bm_phy_id (B (unat (fm_lblock (F j)))))) = unat (block_size C)"
      "length (m' (bm_phy_id (B' (unat (fm_lblock (F j)))))) = unat (block_size C)"
    and data: "\<And>p. p < unat (block_size C) \<Longrightarrow> unat (bm_data_start (B (unat (fm_lblock (F j))))) \<le> p \<Longrightarrow>
      p < (if fm_lblock (F j) = fm_lblock (F i) then reg_end C (B (unat (fm_lblock (F i)))) - unat (fm_max_size (F i))
           else reg_end C (B (unat (fm_lblock (F j))))) \<Longrightarrow>
      m' (bm_phy_id (B' (unat (fm_lblock (F j))))) ! p =
        m (bm_phy_id (B (unat (fm_lblock (F j))))) !
          (if fm_lblock (F j) = fm_lblock (F i) \<and> unat (fm_data_idx (F i)) \<le> p
           then p + unat (fm_max_size (F i)) else p)"
  shows "content m' B' (del_files F i j) = content m B (F j)"
proof -
  let ?a = "unat (fm_data_idx (F i))" and ?m = "unat (fm_max_size (F i))" and ?k = "unat (fm_lblock (F j))"
  note reg = files_okD(3) [OF ok j(1,2)] and regi = files_okD(3) [OF ok i]
  have re: "reg_end C (B ?k) \<le> unat (block_size C)" by (simp add: reg_end_def)
  have cur: "unat (fm_cur_size (F j)) \<le> unat (fm_max_size (F j))"
    using validate_file_meta_Inr(2) [OF cfg files_okD(2) [OF ok j(1)]] j(2) by (simp add: used_def)
  note idx = del_files_idx [OF ok i safe j(1,2,3)]
  show ?thesis
  proof (cases "j \<in> later C F i")
    case True
    note ge = later_ge [OF ok i safe True]
    have lb: "fm_lblock (F j) = fm_lblock (F i)" using True by (simp add: later_def)
    show ?thesis
      unfolding content_def using idx True ge lb reg regi re cur lens j(3) data
      by (intro nth_equalityI) (auto simp: del_files_simps length_bslice nth_bslice)
  next
    case False
    have le: "fm_lblock (F j) = fm_lblock (F i) \<Longrightarrow> unat (fm_data_idx (F j)) + unat (fm_max_size (F j)) \<le> ?a"
      using not_later_le [OF ok i safe j(1,2,3) False] by simp
    show ?thesis
      unfolding content_def using idx False le reg regi re cur lens j(3) data
      by (intro nth_equalityI; cases "fm_lblock (F j) = fm_lblock (F i)")
        (auto simp: del_files_simps length_bslice nth_bslice)
  qed
qed

section \<open>The loop over the other files\<close>

text \<open>What the loop computes: the lowest position and the total size of the files behind.\<close>

definition acc_ok :: "(nat \<Rightarrow> etss_file_meta_t) \<Rightarrow> nat set \<Rightarrow> u32 \<Rightarrow> u32 \<Rightarrow> u32 \<Rightarrow> u32 \<Rightarrow> bool" where
  "acc_ok F J src nbr src' nbr' \<longleftrightarrow>
     unat nbr' = unat nbr + (\<Sum>j\<in>J. unat (fm_max_size (F j))) \<and>
     (\<forall>j\<in>J. unat src' \<le> unat (fm_data_idx (F j))) \<and>
     (src' = src \<or> (\<exists>j\<in>J. src' = fm_data_idx (F j))) \<and> unat src' \<le> unat src"

lemma acc_ok_step:
  assumes "acc_ok F J (if fm_data_idx (F j) < src then fm_data_idx (F j) else src) (nbr + fm_max_size (F j)) src' nbr'"
    and "finite J" and "j \<notin> J" and "unat nbr + unat (fm_max_size (F j)) < 4294967296"
  shows "acc_ok F (insert j J) src nbr src' nbr'"
  using assms
  by (auto simp: acc_ok_def unat_add_u32 word_less_nat_alt split: if_splits)

context fs_dev
begin

abbreviation fregion :: "u32 \<Rightarrow> nat set" where
  "fregion i \<equiv> {foff C (unat i)..<foff C (unat i) + 32}"

lemma fregion_disjoint: "i \<noteq> j \<Longrightarrow> fregion i \<inter> fregion j = {}"
proof -
  assume "i \<noteq> j"
  then have "unat i \<noteq> unat j" by (simp add: word_unat_eq_iff)
  then have "unat i < unat j \<or> unat j < unat i" by linarith
  then show ?thesis using foff_mono [of "unat i" "unat j" C] foff_mono [of "unat j" "unat i" C] by auto
qed

lemma fregion_table: "(\<Union>i\<in>set (file_idxs C). fregion i) = {foff C 0..<foff C (mnf C)}"
proof (intro equalityI subsetI)
  fix p assume "p \<in> (\<Union>i\<in>set (file_idxs C). fregion i)"
  then obtain i where "unat i < mnf C" "p \<in> fregion i" by (auto simp: file_idxs_unat)
  then show "p \<in> {foff C 0..<foff C (mnf C)}"
    using foff_mono [of "unat i" "mnf C" C] foff_ge_0 [of C "unat i"] by auto
next
  fix p assume p: "p \<in> {foff C 0..<foff C (mnf C)}"
  define k where "k = (p - foff C 0) div 32"
  have k: "k < mnf C" "foff C k \<le> p" "p < foff C k + 32"
    using p div_mult_mod_eq [of "p - foff C 0" 32] mod_less_divisor [of 32 "p - foff C 0"]
    by (auto simp: k_def foff_def div_less_iff_less_mult)
  have u: "unat (of_nat k :: u32) = k" using k(1) mnf_less [of C] by (simp add: unat_of_nat_u32)
  show "p \<in> (\<Union>i\<in>set (file_idxs C). fregion i)"
    using k u by (intro UN_I [of "of_nat k"]) (simp_all add: file_idxs_unat)
qed

lemma delete_loop_wp:
  fixes i :: u32
  defines "J \<equiv> \<lambda>is s. later C (tF s) (unat i) \<inter> unat ` (set is :: u32 set)"
  assumes st: "stage s T R t" and sp: "\<not> rel \<Longrightarrow> spoilt s E" and x: "x = tF s (unat i)"
    and rd: "\<And>j. unat j < mnf C \<Longrightarrow> rF s j = Inr (tF s (unat j))"
    and "is": "\<And>j. j \<in> set is \<Longrightarrow> unat j < mnf C" "distinct is"
    and dj: "\<And>j. j \<in> set is \<Longrightarrow> j \<noteq> i \<Longrightarrow> fregion j \<inter> R = {}"
    and T: "\<And>j k. j \<in> set is \<Longrightarrow> j \<noteq> i \<Longrightarrow> k < 32 \<Longrightarrow>
      T (foff C (unat j) + k) = encode_file_meta (shift_file x (tF s (unat j))) ! k"
    and idl: "\<And>j. j < mnf C \<Longrightarrow> length (fm_id (tF s j)) = 12"
    and sum: "unat nbr + (\<Sum>j\<in>J is s. unat (fm_max_size (tF s j))) < 4294967296"
    and Q: "\<And>t' src' nbr'. stage s T (R \<union> (\<Union>j\<in>set is - {i}. fregion j)) t' \<Longrightarrow>
      acc_ok (tF s) (J is s) src nbr src' nbr' \<Longrightarrow> Q (src', nbr') t'"
  shows "wp (delete_idx_loop i x is src nbr) Q E t"
  using st "is" dj T sum Q
proof (induction "is" arbitrary: R t src nbr)
  case Nil
  then show ?case by (simp add: J_def acc_ok_def)
next
  case (Cons j js)
  have jm: "unat j < mnf C" and js: "\<And>k. k \<in> set js \<Longrightarrow> unat k < mnf C" "distinct js" "j \<notin> set js"
    using Cons.prems(2,3) by auto
  have fin: "finite (J js s)" by (simp add: J_def later_def)
  have J1: "J (j # js) s = (if unat j \<in> later C (tF s) (unat i) then insert (unat j) (J js s) else J js s)"
    by (auto simp: J_def)
  have nj: "unat j \<notin> J js s" using js(3) by (auto simp: J_def simp flip: word_unat_eq_iff)
  have up: "(\<Union>k\<in>set (j # js) - {i}. fregion k) = fregion j \<union> (\<Union>k\<in>set js - {i}. fregion k)" if "j \<noteq> i"
    using that by auto
  have ri: "rF t k = rF s k" for k using stage_tables(4) [OF Cons.prems(1)] by simp
  show ?case
  proof (cases "j = i")
    case True
    have "unat j \<notin> later C (tF s) (unat i)" using True by (simp add: later_def)
    then have JJ: "J (j # js) s = J js s" using J1 by simp
    have "wp (delete_idx_loop i x js src nbr) Q E t"
    proof (rule Cons.IH [OF Cons.prems(1)])
      show "Q (src', nbr') t'" if "stage s T (R \<union> (\<Union>j\<in>set js - {i}. fregion j)) t'"
        "acc_ok (tF s) (J js s) src nbr src' nbr'" for t' src' nbr'
        using Cons.prems(7) [of t' src' nbr'] that JJ True by simp
    qed (use Cons.prems JJ True in auto)
    then show ?thesis using True by simp
  next
    case False
    have y: "rF t j = Inr (tF s (unat j))" using rd [OF jm] ri by simp
    let ?y = "tF s (unat j)"
    have yl: "unat j \<in> later C (tF s) (unat i) \<longleftrightarrow> fm_lblock ?y = fm_lblock x \<and> used ?y \<and> fm_data_idx ?y > fm_data_idx x"
      using jm False x by (auto simp: later_def word_unat_eq_iff)
    have step: "wp (bindE (etss_flash_fs_mblock_update_scratch_file_meta j (shift_file x ?y)) (\<lambda>_.
        delete_idx_loop i x js src1 nbr1)) Q E (t\<lparr>flash := d\<rparr>)"
      if d: "dok d" "mem d = mm t"
        and a1: "\<And>src' nbr'. acc_ok (tF s) (J js s) src1 nbr1 src' nbr' \<Longrightarrow>
          acc_ok (tF s) (J (j # js) s) src nbr src' nbr'"
        and a2: "unat nbr1 + (\<Sum>j\<in>J js s. unat (fm_max_size (tF s j))) < 4294967296" for d src1 nbr1
      unfolding wp_bindE
    proof (rule stage_file_meta [OF stage_same [OF Cons.prems(1) d] sp jm])
      fix t1 assume t1: "stage s T (R \<union> fregion j) t1"
      show "wp (delete_idx_loop i x js src1 nbr1) Q E t1"
      proof (rule Cons.IH [OF t1 js(1,2)])
        show "fregion k \<inter> (R \<union> fregion j) = {}" if "k \<in> set js" "k \<noteq> i" for k
        proof -
          have "k \<noteq> j" using that js(3) by auto
          then have "fregion k \<inter> fregion j = {}" by (rule fregion_disjoint)
          moreover have "fregion k \<inter> R = {}" using Cons.prems(4) that by simp
          ultimately show ?thesis by blast
        qed
        show "Q (src', nbr') t'"
          if "stage s T (R \<union> fregion j \<union> (\<Union>j\<in>set js - {i}. fregion j)) t'"
            "acc_ok (tF s) (J js s) src1 nbr1 src' nbr'" for t' src' nbr'
          using Cons.prems(7) [of t' src' nbr'] that a1 up [OF False] by (simp add: Un_assoc)
      qed (use Cons.prems(5) a2 in auto)
    qed (use Cons.prems False idl jm in auto)
    show ?thesis
      unfolding delete_idx_loop.simps if_not_P [OF False] wp_bindE [of "etss_flash_fs_mblock_read_file_meta _"]
    proof (rule reads_wp [OF reads_file_meta [OF _ jm]])
      show "act_ok t" using stageD(2) [OF Cons.prems(1)] by simp
      fix z d assume z: "rF t j = Inr z" and d: "dok d" "mem d = mm t"
      have zy: "z = ?y" using z y by simp
      show "wp (if fm_lblock z = fm_lblock x \<and> etss_utils_validate_fid (fm_id z) = Inr () \<and> fm_data_idx z > fm_data_idx x
        then bindE (etss_flash_fs_mblock_update_scratch_file_meta j
            (z\<lparr>fm_data_idx := fm_data_idx z - fm_max_size x\<rparr>)) (\<lambda>_.
          delete_idx_loop i x js (if src > fm_data_idx z then fm_data_idx z else src) (nbr + fm_max_size z))
        else bindE (etss_flash_fs_mblock_update_scratch_file_meta j z) (\<lambda>_. delete_idx_loop i x js src nbr))
        Q E (t\<lparr>flash := d\<rparr>)"
      proof (cases "unat j \<in> later C (tF s) (unat i)")
        case True
        have JJ: "J (j # js) s = insert (unat j) (J js s)" using J1 True by simp
        have sm: "unat nbr + unat (fm_max_size ?y) + (\<Sum>j\<in>J js s. unat (fm_max_size (tF s j))) < 4294967296"
          using Cons.prems(6) JJ fin nj by simp
        have sh: "shift_file x ?y = ?y\<lparr>fm_data_idx := fm_data_idx ?y - fm_max_size x\<rparr>"
          using True yl by (simp add: shift_file_def)
        show ?thesis
          unfolding zy using True yl step [OF d, of "if src > fm_data_idx ?y then fm_data_idx ?y else src" "nbr + fm_max_size ?y"]
            acc_ok_step [of "tF s" "J js s" "unat j" src nbr] fin nj sm sh JJ
          by (simp add: used_def unat_add_u32 split del: if_split)
      next
        case False
        have JJ: "J (j # js) s = J js s" using J1 False by simp
        have sh: "shift_file x ?y = ?y" using False yl by (auto simp: shift_file_def)
        show ?thesis
          using False yl zy step [OF d, of src nbr] sh JJ Cons.prems(6) by (auto simp: used_def)
      qed
    next
      fix e d assume "rF t j = Inl e \<or> \<not> rel" "dok d" "mem d = mm t"
      then show "E e (t\<lparr>flash := d\<rparr>)" using y stage_spoilt [OF Cons.prems(1) sp] by auto
    qed
  qed
qed

section \<open>Compacting the block\<close>

text \<open>
  A state that differs from \<open>s\<close> in the scratch blocks and in the header held in memory only: the
  active metadata block and all live data blocks are as they were.
\<close>

definition harmless :: "'d fs_state \<Rightarrow> 'd fs_state \<Rightarrow> bool" where
  "harmless s s' \<longleftrightarrow> metas s' \<and> active_metablock s' = active_metablock s \<and>
     scratch_metablock s' = scratch_metablock s \<and>
     (\<forall>b. b \<noteq> scratch_metablock s \<longrightarrow> num_blocks C = 2 \<or> b \<noteq> sdb s \<longrightarrow> mm s' b = mm s b)"

lemma harmless_refl: "metas s \<Longrightarrow> harmless s s"
  by (simp add: harmless_def)

lemma harmless_upd:
  assumes "harmless s t" and "dok d"
    and "\<And>b. b \<noteq> scratch_metablock s \<Longrightarrow> num_blocks C = 2 \<or> b \<noteq> sdb s \<Longrightarrow> mem d b = mm t b"
  shows "harmless s (t\<lparr>flash := d\<rparr>)"
  using assms by (simp add: harmless_def)

lemma harmless_hdr: "harmless s t \<Longrightarrow> harmless s (t\<lparr>meta_block_header := h\<rparr>)"
  by (simp add: harmless_def)

lemma harmless_spoilt:
  assumes "harmless s t" and "\<And>e s'. harmless s s' \<Longrightarrow> E e s'"
  shows "spoilt t E"
  unfolding spoilt_def
proof (intro allI impI)
  fix e d assume d: "dok d" "\<forall>b. b \<noteq> scratch_metablock t \<longrightarrow> mem d b = mm t b"
  have "scratch_metablock t = scratch_metablock s" using assms(1) by (simp add: harmless_def)
  then show "E e (t\<lparr>flash := d\<rparr>)" by (intro assms(2) harmless_upd [OF assms(1)]) (use d in auto)
qed

lemma stage_harmless: "stage s T R t \<Longrightarrow> harmless s t"
  using stageD [of s T R t] by (simp add: harmless_def)

lemma harmless_stage: "harmless s u \<Longrightarrow> stage u T R t \<Longrightarrow> harmless s t"
  using stageD [of u T R t] by (simp add: harmless_def)

lemma stage_other:
  assumes "stage s T R t" and "dok d" and "mem d (scratch_metablock s) = mm t (scratch_metablock s)"
  shows "stage (t\<lparr>flash := d\<rparr>) T R (t\<lparr>flash := d\<rparr>)"
proof -
  let ?t = "t\<lparr>flash := d\<rparr>"
  have "stage ?t T R (?t\<lparr>flash := d\<rparr>)"
    by (rule stageI) (use assms stageD [OF assms(1)] in auto)
  then show ?thesis by simp
qed

lemma stage_hdr:
  assumes "stage s T R s"
  shows "stage (s\<lparr>meta_block_header := h\<rparr>) T R (s\<lparr>meta_block_header := h\<rparr>)"
proof -
  let ?t = "s\<lparr>meta_block_header := h\<rparr>"
  have "stage ?t T R (?t\<lparr>flash := flash s\<rparr>)"
    by (rule stageI) (use stageD [OF assms] in auto)
  then show ?thesis by simp
qed

text \<open>The two copies of a compaction fill the block up to the new end of its data.\<close>

lemma compact_moves_wp:
  assumes s: "sok t" and ids: "sid < ucast (num_blocks C)" "phy < ucast (num_blocks C)" "sid \<noteq> phy"
    and le: "unat start \<le> unat dst" "unat dst + unat len \<le> unat (block_size C)"
      "0 < unat len \<Longrightarrow> unat src + unat len \<le> unat (block_size C)"
    and er: "erased_on (mm t) sid {unat start..<unat dst + unat len}"
    and T: "\<And>p. unat start \<le> p \<Longrightarrow> p < unat dst + unat len \<Longrightarrow>
      T p = mm t phy ! (if unat dst \<le> p then unat src + (p - unat dst) else p)"
    and Q: "\<And>d. dok d \<Longrightarrow> mem d = fillM (mm t) sid {unat start..<unat dst + unat len} T \<Longrightarrow> Q () (t\<lparr>flash := d\<rparr>)"
    and E: "\<And>e d. \<not> rel \<Longrightarrow> dok d \<Longrightarrow> (\<And>b. b \<noteq> sid \<Longrightarrow> mem d b = mm t b) \<Longrightarrow> E e (t\<lparr>flash := d\<rparr>)"
  shows "wp (bindE (if len > 0
            then orError (etss_flash_fs_block_to_block_move sid dst phy src len) PSA_ERROR_GENERIC_ERROR
            else returnE ()) (\<lambda>_.
      if dst > start
            then orError (etss_flash_fs_block_to_block_move sid start phy start (dst - start)) PSA_ERROR_GENERIC_ERROR
            else returnE ())) Q E t"
proof -
  have len: "length (mm t sid) = unat (block_size C)" using s ids by (simp add: mm_length)
  have second: "wp (if dst > start
            then orError (etss_flash_fs_block_to_block_move sid start phy start (dst - start)) PSA_ERROR_GENERIC_ERROR
            else returnE ()) Q E (t\<lparr>flash := d\<rparr>)"
    if d: "dok d" "mem d = fillM (mm t) sid {unat dst..<unat dst + unat len} T" for d
  proof (cases "dst > start")
    case False
    then have "unat dst = unat start" using le(1) by (simp add: word_less_nat_alt)
    then show ?thesis using False Q [OF d(1)] d(2) by simp
  next
    case True
    have sub: "unat (dst - start) = unat dst - unat start" using le(1) by (simp add: unat_sub_u32)
    have un: "{unat dst..<unat dst + unat len} \<union> {unat start..<unat dst} = {unat start..<unat dst + unat len}"
      using le(1) by auto
    have "wp (etss_flash_fs_block_to_block_move sid start phy start (dst - start)) Q
        (\<lambda>_. E PSA_ERROR_GENERIC_ERROR) (t\<lparr>flash := d\<rparr>)"
    proof (rule move_wp [where T = T])
      show "mm (t\<lparr>flash := d\<rparr>) sid ! p = erase_val C" if "unat start \<le> p" "p < unat start + unat (dst - start)" for p
        using that sub le d er len by (auto simp: nth_fillM erased_on_def)
      show "E PSA_ERROR_GENERIC_ERROR ((t\<lparr>flash := d\<rparr>)\<lparr>flash := d'\<rparr>)"
        if "\<not> rel" "dok d'" "\<And>b. b \<noteq> sid \<Longrightarrow> mem d' b = mm (t\<lparr>flash := d\<rparr>) b" for d'
      proof -
        have "E PSA_ERROR_GENERIC_ERROR (t\<lparr>flash := d'\<rparr>)" by (rule E) (use that d in auto)
        then show ?thesis by simp
      qed
    qed (use s d ids le sub T un Q in auto)
    then show ?thesis using True by simp
  qed
  show ?thesis
  proof (cases "len > 0")
    case True
    then have l0: "0 < unat len" by (simp add: word_less_nat_alt)
    have "wp (etss_flash_fs_block_to_block_move sid dst phy src len)
        (\<lambda>_. wp (if dst > start
            then orError (etss_flash_fs_block_to_block_move sid start phy start (dst - start)) PSA_ERROR_GENERIC_ERROR
            else returnE ()) Q E) (\<lambda>_. E PSA_ERROR_GENERIC_ERROR) t"
    proof (rule move_wp [where T = T])
      show "mm t sid ! p = erase_val C" if "unat dst \<le> p" "p < unat dst + unat len" for p
        using that er le by (auto simp: erased_on_def)
    qed (use s ids le l0 T second E in auto)
    then show ?thesis using True by (simp split del: if_split)
  next
    case False
    then have "unat len = 0" by (simp add: word_less_nat_alt)
    then show ?thesis using second [of "flash t"] s False by simp
  qed
qed

lemma compact_split:
  "wp (etss_flash_fs_dblock_compact_block l freed src dst len) Q E s =
   wp (etss_flash_fs_mblock_read_block_metadata l) (\<lambda>bm s1.
     let block_meta = bm\<lparr>bm_free_size := bm_free_size bm + freed\<rparr>;
         scratch_id = etss_flash_fs_mblock_cur_data_scratch_id s1 l in
     wp (bindE (if len > 0
            then orError (etss_flash_fs_block_to_block_move scratch_id dst (bm_phy_id bm) src len) PSA_ERROR_GENERIC_ERROR
            else returnE ()) (\<lambda>_.
      if dst > bm_data_start bm
            then orError (etss_flash_fs_block_to_block_move scratch_id (bm_data_start bm) (bm_phy_id bm)
              (bm_data_start bm) (dst - bm_data_start bm)) PSA_ERROR_GENERIC_ERROR
            else returnE ()))
      (\<lambda>_. wp (etss_flash_fs_mblock_set_data_scratch (bm_phy_id bm) l) (\<lambda>_.
        wp (etss_flash_fs_mblock_update_scratch_block_meta l (block_meta\<lparr>bm_phy_id := scratch_id\<rparr>))
          (\<lambda>_. wp (if l \<noteq> ETSS_LOGICAL_DBLOCK0 then flash_flush scratch_id else returnE ()) Q E)
          (\<lambda>e. wp (etss_flash_fs_mblock_set_data_scratch scratch_id l) (\<lambda>_. E e) E)) E) E s1) E s"
  by (simp add: etss_flash_fs_dblock_compact_block_def Let_def wp_fun del: wp_if cong: if_cong split del: if_split)

lemma set_data_scratch_wp:
  "wp (etss_flash_fs_mblock_set_data_scratch phy 0) Q E = Q ()"
  "l \<noteq> 0 \<Longrightarrow> wp (etss_flash_fs_mblock_set_data_scratch phy l) Q E =
     (\<lambda>s. Q () (s\<lparr>meta_block_header := (meta_block_header s)\<lparr>hdr_scratch_dblock := phy\<rparr>\<rparr>))"
  by (simp_all add: etss_flash_fs_mblock_set_data_scratch_def mblock_consts fun_eq_iff)

lemma compact0_wp:
  assumes st: "stage s (mb_image C B F D) R t" and sp: "\<not> rel \<Longrightarrow> spoilt s E"
    and b0: "rB s 0 = Inr (tB s 0)" and phy: "bm_phy_id (tB s 0) = active_metablock s"
    and le: "foff C (mnf C) \<le> unat dst" "unat dst + unat len \<le> unat (block_size C)"
      "0 < unat len \<Longrightarrow> unat src + unat len \<le> unat (block_size C)"
    and dj: "{8..<foff C 0} \<inter> R = {}" "{foff C (mnf C)..<unat dst + unat len} \<inter> R = {}"
    and D: "\<And>p. foff C (mnf C) \<le> p \<Longrightarrow> p < unat dst + unat len \<Longrightarrow>
      D p = mm s (active_metablock s) ! (if unat dst \<le> p then unat src + (p - unat dst) else p)"
    and B0: "B 0 = (tB s 0)\<lparr>bm_free_size := bm_free_size (tB s 0) + freed, bm_phy_id := scratch_metablock s\<rparr>"
    and Bk: "\<And>k. k < nad C \<Longrightarrow> k \<noteq> 0 \<Longrightarrow> B k = tB s k"
    and Q: "\<And>t'. stage s (mb_image C B F D) (R \<union> {foff C (mnf C)..<unat dst + unat len} \<union> {8..<foff C 0}) t' \<Longrightarrow> Q () t'"
  shows "wp (etss_flash_fs_dblock_compact_block 0 freed src dst len) Q E t"
  unfolding compact_split
proof (rule reads_wp [OF reads_block_meta])
  let ?T = "mb_image C B F D" and ?b = "tB s 0"
  note sD = stageD [OF st]
  have n0: "unat (0 :: u32) < nad C" using nad_pos [OF cfg] by simp
  show "unat (0 :: u32) < nad C" by (rule n0)
  show "act_ok t" using sD(2) by simp
  have rb: "rB t 0 = Inr ?b" using b0 stage_tables(3) [OF st] by simp
  have act: "active_metablock s = 0 \<or> active_metablock s = 1" using sD(1) by (rule metas_ids)
  have stt: "unat (bm_data_start ?b) = foff C (mnf C)"
  proof -
    have "etss_mblock_validate_block_meta C ?b = Inr ()" using b0 by (simp add: rbm_Inr_iff)
    then show ?thesis using validate_block_meta_Inr_iff [OF cfg, of ?b] phy act by simp
  qed
  fix bm d assume bm: "rB t 0 = Inr bm" and d: "dok d" "mem d = mm t"
  have eq: "bm = ?b" using bm rb by simp
  let ?t = "t\<lparr>flash := d\<rparr>" and ?X = "{foff C (mnf C)..<unat dst + unat len}"
  have st1: "stage s ?T R ?t" by (rule stage_same [OF st d])
  note sD1 = stageD [OF st1]
  have sid: "etss_flash_fs_mblock_cur_data_scratch_id ?t 0 = scratch_metablock s"
    using sD(4) by (simp add: etss_flash_fs_mblock_cur_data_scratch_id_def mblock_consts)
  have z: "ETSS_LOGICAL_DBLOCK0 = 0" by (simp add: mblock_consts)
  have fin: "wp (etss_flash_fs_mblock_update_scratch_block_meta 0
      (?b\<lparr>bm_free_size := bm_free_size ?b + freed, bm_phy_id := scratch_metablock s\<rparr>)) Q E (?t\<lparr>flash := d2\<rparr>)"
    if d2: "dok d2" "mem d2 = fillM (mm ?t) (scratch_metablock s) ?X ?T" for d2
  proof (rule stage_block_meta [OF _ sp n0])
    show "stage s ?T (R \<union> ?X) (?t\<lparr>flash := d2\<rparr>)"
      by (rule stage_fill [OF st1]) (use d2 sD1(4) in simp_all)
    show "{8..<foff C 0} \<inter> (R \<union> ?X) = {}" using dj foff_ge_0 [of C "mnf C"] by auto
  qed (use B0 Bk Q in auto)
  have "wp (bindE (if len > 0
            then orError (etss_flash_fs_block_to_block_move (scratch_metablock s) dst (bm_phy_id ?b) src len) PSA_ERROR_GENERIC_ERROR
            else returnE ()) (\<lambda>_.
      if dst > bm_data_start ?b
            then orError (etss_flash_fs_block_to_block_move (scratch_metablock s) (bm_data_start ?b) (bm_phy_id ?b)
              (bm_data_start ?b) (dst - bm_data_start ?b)) PSA_ERROR_GENERIC_ERROR
            else returnE ()))
      (\<lambda>_. wp (etss_flash_fs_mblock_update_scratch_block_meta 0
        (?b\<lparr>bm_free_size := bm_free_size ?b + freed, bm_phy_id := scratch_metablock s\<rparr>)) Q E) E ?t"
  proof (rule compact_moves_wp [where T = ?T])
    have "erased_on (mm ?t) (scratch_metablock ?t) {unat (bm_data_start ?b)..<unat dst + unat len}"
      using dj(2) le stt by (intro stage_erased [OF st1]) auto
    then show "erased_on (mm ?t) (scratch_metablock s) {unat (bm_data_start ?b)..<unat dst + unat len}"
      using sD1(4) by simp
    show "?T p = mm ?t (bm_phy_id ?b) ! (if unat dst \<le> p then unat src + (p - unat dst) else p)"
      if "unat (bm_data_start ?b) \<le> p" "p < unat dst + unat len" for p
      using that D [of p] stt phy stage_act [OF st1] by (simp add: image_data)
    show "E e (?t\<lparr>flash := d2\<rparr>)" if "\<not> rel" "dok d2" "\<And>b. b \<noteq> scratch_metablock s \<Longrightarrow> mem d2 b = mm ?t b" for e d2
      by (rule stage_spoilt [OF st1 sp]) (use that sD1(4) in auto)
  qed (use sD1 sD(1) phy le stt fin in \<open>auto simp del: fillM_fillM\<close>)
  then show "let block_meta = bm\<lparr>bm_free_size := bm_free_size bm + freed\<rparr>;
         scratch_id = etss_flash_fs_mblock_cur_data_scratch_id ?t 0 in
     wp (bindE (if len > 0
            then orError (etss_flash_fs_block_to_block_move scratch_id dst (bm_phy_id bm) src len) PSA_ERROR_GENERIC_ERROR
            else returnE ()) (\<lambda>_.
      if dst > bm_data_start bm
            then orError (etss_flash_fs_block_to_block_move scratch_id (bm_data_start bm) (bm_phy_id bm)
              (bm_data_start bm) (dst - bm_data_start bm)) PSA_ERROR_GENERIC_ERROR
            else returnE ()))
      (\<lambda>_. wp (etss_flash_fs_mblock_set_data_scratch (bm_phy_id bm) 0) (\<lambda>_.
        wp (etss_flash_fs_mblock_update_scratch_block_meta 0 (block_meta\<lparr>bm_phy_id := scratch_id\<rparr>))
          (\<lambda>_. wp (if 0 \<noteq> ETSS_LOGICAL_DBLOCK0 then flash_flush scratch_id else returnE ()) Q E)
          (\<lambda>e. wp (etss_flash_fs_mblock_set_data_scratch scratch_id 0) (\<lambda>_. E e) E)) E) E ?t"
    unfolding Let_def eq sid z
    by (simp add: set_data_scratch_wp wp_fun del: wp_if wp_bindE split del: if_split)
next
  fix e d assume "rB t 0 = Inl e \<or> \<not> rel" "dok d" "mem d = mm t"
  then show "E e (t\<lparr>flash := d\<rparr>)"
    using b0 stage_tables(3) [OF st] stage_spoilt [OF st sp] by auto
qed

lemma more_blocks: "l \<noteq> 0 \<Longrightarrow> unat (l :: u32) < nad C \<Longrightarrow> num_blocks C \<noteq> 2"
  by (auto simp: nad_def unat_eq_zero)

lemma compactL_wp:
  fixes l :: u32
  defines "phy \<equiv> \<lambda>s. bm_phy_id (tB s (unat l))"
  assumes st: "stage s (mb_image C B F D) R t" and EH: "\<And>e s'. \<not> rel \<Longrightarrow> harmless s s' \<Longrightarrow> E e s'"
    and l: "l \<noteq> 0" "unat l < nad C"
    and bl: "rB s l = Inr (tB s (unat l))" and b0: "rB s 0 = Inr (tB s 0)"
    and start: "unat (bm_data_start (tB s (unat l))) = 0"
    and ids: "phy s < ucast (num_blocks C)" "phy s \<noteq> scratch_metablock s" "phy s \<noteq> active_metablock s"
      "phy s \<noteq> sdb s" "sdb s < ucast (num_blocks C)" "sdb s \<noteq> scratch_metablock s" "sdb s \<noteq> active_metablock s"
    and er: "erased_on (mm s) (sdb s) whole"
    and le: "unat dst + unat len \<le> unat (block_size C)" "0 < unat len \<Longrightarrow> unat src + unat len \<le> unat (block_size C)"
    and dj: "{8..<foff C 0} \<inter> R = {}"
    and Td: "\<And>p. p < unat dst + unat len \<Longrightarrow>
      Td p = mm s (phy s) ! (if unat dst \<le> p then unat src + (p - unat dst) else p)"
    and Bl: "B (unat l) = (tB s (unat l))
      \<lparr>bm_free_size := bm_free_size (tB s (unat l)) + freed, bm_phy_id := sdb s\<rparr>"
    and B0: "B 0 = (tB s 0)\<lparr>bm_phy_id := scratch_metablock s\<rparr>"
    and Bk: "\<And>k. k < nad C \<Longrightarrow> k \<noteq> 0 \<Longrightarrow> k \<noteq> unat l \<Longrightarrow> B k = tB s k"
    and Q: "\<And>t'. stage t' (mb_image C B F D) (R \<union> {8..<foff C 0}) t' \<Longrightarrow> harmless s t' \<Longrightarrow>
      meta_block_header t' = (meta_block_header s)\<lparr>hdr_scratch_dblock := phy s\<rparr> \<Longrightarrow>
      mm t' (sdb s) = fillM (mm s) (sdb s) {0..<unat dst + unat len} Td (sdb s) \<Longrightarrow> Q () t'"
  shows "wp (etss_flash_fs_dblock_compact_block l freed src dst len) Q E t"
  unfolding compact_split
proof (rule reads_wp [OF reads_block_meta])
  let ?T = "mb_image C B F D" and ?b = "tB s (unat l)" and ?X = "{0..<unat dst + unat len}"
  let ?h = "(meta_block_header s)\<lparr>hdr_scratch_dblock := phy s\<rparr>"
  note sD = stageD [OF st]
  show "unat l < nad C" by (rule l(2))
  show "act_ok t" using sD(2) by simp
  have rb: "rB t l = Inr ?b" using bl stage_tables(3) [OF st] by simp
  have hs: "harmless s t" by (rule stage_harmless [OF st])
  fix bm d assume bm: "rB t l = Inr bm" and d: "dok d" "mem d = mm t"
  have eq: "bm = ?b" using bm rb by simp
  let ?t = "t\<lparr>flash := d\<rparr>"
  have st1: "stage s ?T R ?t" by (rule stage_same [OF st d])
  note sD1 = stageD [OF st1]
  have h1: "harmless s ?t" by (rule stage_harmless [OF st1])
  have sid: "etss_flash_fs_mblock_cur_data_scratch_id ?t l = sdb s"
    using sD(5) l by (simp add: etss_flash_fs_mblock_cur_data_scratch_id_def mblock_consts)
  have z: "ETSS_LOGICAL_DBLOCK0 = 0" by (simp add: mblock_consts)
  have nb: "num_blocks C \<noteq> 2" by (rule more_blocks [OF l])
  have after: "wp (etss_flash_fs_mblock_update_scratch_block_meta l
        (?b\<lparr>bm_free_size := bm_free_size ?b + freed, bm_phy_id := sdb s\<rparr>))
      (\<lambda>_. wp (flash_flush (sdb s)) Q E)
      (\<lambda>e s'. E e (s'\<lparr>meta_block_header := (meta_block_header s')\<lparr>hdr_scratch_dblock := sdb s\<rparr>\<rparr>))
      (?t\<lparr>flash := d2, meta_block_header := ?h\<rparr>)"
    if d2: "dok d2" "mem d2 = fillM (mm ?t) (sdb s) ?X Td" for d2
  proof -
    let ?u = "?t\<lparr>flash := d2, meta_block_header := ?h\<rparr>"
    have "stage (?t\<lparr>flash := d2\<rparr>) ?T R (?t\<lparr>flash := d2\<rparr>)"
      by (rule stage_other [OF st1]) (use d2 ids in simp_all)
    then have su: "stage ?u ?T R ?u" by (rule stage_hdr)
    have hu: "harmless s ?u"
      by (rule harmless_hdr, rule harmless_upd [OF h1]) (use d2 nb in simp_all)
    have au: "mm ?u (active_metablock s) = mm s (active_metablock s)"
      using d2 ids stage_act [OF st1] by simp
    have acts: "active_metablock ?u = active_metablock s" "scratch_metablock ?u = scratch_metablock s"
      using sD by simp_all
    note tu = table_cong [where m = "mm ?u" and m' = "mm s", OF au]
    have spu: "spoilt ?u (\<lambda>e s'. E e (s'\<lparr>meta_block_header := (meta_block_header s')\<lparr>hdr_scratch_dblock := sdb s\<rparr>\<rparr>))"
      if "\<not> rel" by (rule harmless_spoilt [OF hu]) (use that in \<open>auto intro!: EH harmless_hdr\<close>)
    show ?thesis
    proof (rule stage_block_meta [OF su spu l(2)])
      fix t' assume t': "stage ?u ?T (R \<union> {8..<foff C 0}) t'"
      note sD' = stageD [OF t']
      have ht: "harmless s t'" by (rule harmless_stage [OF hu t'])
      have len: "length (mm t (sdb s)) = unat (block_size C)" using sD(2) ids by (simp add: mm_length)
      show "wp (flash_flush (sdb s)) Q E t'"
      proof (rule flash_flush_wp)
        fix d3 assume d3: "dok d3" "mem d3 = mm t'"
        have sf: "stage ?u ?T (R \<union> {8..<foff C 0}) (t'\<lparr>flash := d3\<rparr>)" by (rule stage_same [OF t' d3])
        show "Q () (t'\<lparr>flash := d3\<rparr>)"
        proof (rule Q)
          show "stage (t'\<lparr>flash := d3\<rparr>) ?T (R \<union> {8..<foff C 0}) (t'\<lparr>flash := d3\<rparr>)"
            by (rule stage_self [OF sf])
          show "harmless s (t'\<lparr>flash := d3\<rparr>)" by (rule harmless_stage [OF hu sf])
          show "meta_block_header (t'\<lparr>flash := d3\<rparr>) = ?h" using sD'(5) by simp
          have "mm t (sdb s) = mm s (sdb s)" using sD(6) ids by simp
          then show "mm (t'\<lparr>flash := d3\<rparr>) (sdb s) = fillM (mm s) (sdb s) ?X Td (sdb s)"
            using d3 sD'(6) [of "sdb s"] acts ids d2 d by (simp add: fillM_def)
        qed
      next
        fix e d3 assume "\<not> rel" "dok d3" "mem d3 = mm t'"
        then show "E e (t'\<lparr>flash := d3\<rparr>)" by (intro EH harmless_upd [OF ht]) simp_all
      qed (use sD' ids in simp_all)
    qed (use l b0 dj Bl B0 Bk tu acts in auto)
  qed
  have mv: "wp (bindE (if len > 0
            then orError (etss_flash_fs_block_to_block_move (sdb s) dst (bm_phy_id ?b) src len) PSA_ERROR_GENERIC_ERROR
            else returnE ()) (\<lambda>_.
      if dst > bm_data_start ?b
            then orError (etss_flash_fs_block_to_block_move (sdb s) (bm_data_start ?b) (bm_phy_id ?b)
              (bm_data_start ?b) (dst - bm_data_start ?b)) PSA_ERROR_GENERIC_ERROR
            else returnE ()))
      (\<lambda>_ u. wp (etss_flash_fs_mblock_update_scratch_block_meta l
        (?b\<lparr>bm_free_size := bm_free_size ?b + freed, bm_phy_id := sdb s\<rparr>))
        (\<lambda>_. wp (flash_flush (sdb s)) Q E)
        (\<lambda>e s'. E e (s'\<lparr>meta_block_header := (meta_block_header s')\<lparr>hdr_scratch_dblock := sdb s\<rparr>\<rparr>))
        (u\<lparr>meta_block_header := (meta_block_header u)\<lparr>hdr_scratch_dblock := phy s\<rparr>\<rparr>)) E ?t"
  proof (rule compact_moves_wp [where T = Td])
    have m1: "mm ?t (sdb s) = mm s (sdb s)" "mm ?t (phy s) = mm s (phy s)" using sD1(6) ids by simp_all
    show "erased_on (mm ?t) (sdb s) {unat (bm_data_start ?b)..<unat dst + unat len}"
      using er m1 le by (auto simp: erased_on_def)
    show "Td p = mm ?t (bm_phy_id ?b) ! (if unat dst \<le> p then unat src + (p - unat dst) else p)"
      if "p < unat dst + unat len" for p
      using Td [OF that] m1 by (simp add: phy_def)
    show "E e (?t\<lparr>flash := d2\<rparr>)" if "\<not> rel" "dok d2" "\<And>b. b \<noteq> sdb s \<Longrightarrow> mem d2 b = mm ?t b" for e d2
      by (intro EH harmless_upd [OF h1]) (use that nb in auto)
    fix d2 assume d2: "dok d2" "mem d2 = fillM (mm ?t) (sdb s) {unat (bm_data_start ?b)..<unat dst + unat len} Td"
    show "wp (etss_flash_fs_mblock_update_scratch_block_meta l
        (?b\<lparr>bm_free_size := bm_free_size ?b + freed, bm_phy_id := sdb s\<rparr>))
        (\<lambda>_. wp (flash_flush (sdb s)) Q E)
        (\<lambda>e s'. E e (s'\<lparr>meta_block_header := (meta_block_header s')\<lparr>hdr_scratch_dblock := sdb s\<rparr>\<rparr>))
        (?t\<lparr>flash := d2\<rparr>\<lparr>meta_block_header := (meta_block_header (?t\<lparr>flash := d2\<rparr>))\<lparr>hdr_scratch_dblock := phy s\<rparr>\<rparr>)"
      using after [OF d2(1)] d2(2) start sD(5) by simp
  qed (use sD1 ids le start in \<open>auto simp: phy_def\<close>)
  then show "let block_meta = bm\<lparr>bm_free_size := bm_free_size bm + freed\<rparr>;
         scratch_id = etss_flash_fs_mblock_cur_data_scratch_id ?t l in
     wp (bindE (if len > 0
            then orError (etss_flash_fs_block_to_block_move scratch_id dst (bm_phy_id bm) src len) PSA_ERROR_GENERIC_ERROR
            else returnE ()) (\<lambda>_.
      if dst > bm_data_start bm
            then orError (etss_flash_fs_block_to_block_move scratch_id (bm_data_start bm) (bm_phy_id bm)
              (bm_data_start bm) (dst - bm_data_start bm)) PSA_ERROR_GENERIC_ERROR
            else returnE ()))
      (\<lambda>_. wp (etss_flash_fs_mblock_set_data_scratch (bm_phy_id bm) l) (\<lambda>_.
        wp (etss_flash_fs_mblock_update_scratch_block_meta l (block_meta\<lparr>bm_phy_id := scratch_id\<rparr>))
          (\<lambda>_. wp (if l \<noteq> ETSS_LOGICAL_DBLOCK0 then flash_flush scratch_id else returnE ()) Q E)
          (\<lambda>e. wp (etss_flash_fs_mblock_set_data_scratch scratch_id l) (\<lambda>_. E e) E)) E) E ?t"
    unfolding Let_def eq sid z using l(1)
    by (simp add: set_data_scratch_wp phy_def del: wp_if wp_bindE split del: if_split)
next
  fix e d assume "rB t l = Inl e \<or> \<not> rel" "dok d" "mem d = mm t"
  then show "E e (t\<lparr>flash := d\<rparr>)"
    using bl stage_tables(3) [OF st] by (intro EH harmless_upd [OF stage_harmless [OF st]]) auto
qed

section \<open>Committing a complete stage\<close>

text \<open>What holds of the state after the commit of the tables \<open>B\<close>, \<open>F\<close> over the state \<open>u\<close>.\<close>

definition swapped :: "'d fs_state \<Rightarrow> (nat \<Rightarrow> etss_block_meta_t) \<Rightarrow> (nat \<Rightarrow> etss_file_meta_t) \<Rightarrow> (nat \<Rightarrow> u8) \<Rightarrow>
    nat set \<Rightarrow> 'd fs_state \<Rightarrow> bool" where
  "swapped u B F D R s' \<longleftrightarrow> metas s' \<and> active_metablock s' = scratch_metablock u \<and> sdb s' = sdb u \<and>
     (\<forall>l<nad C. tB s' l = B l) \<and> (\<forall>i<mnf C. tF s' i = F i) \<and>
     (\<forall>p. foff C (mnf C) \<le> p \<longrightarrow> p < unat (block_size C) \<longrightarrow>
        mm s' (scratch_metablock u) ! p = (if p \<in> R then D p else erase_val C)) \<and>
     (\<forall>b. b \<notin> {active_metablock u, scratch_metablock u} \<longrightarrow> num_blocks C = 2 \<or> b \<noteq> sdb u \<longrightarrow> mm s' b = mm u b)"

lemma commit_stage_wp:
  assumes st: "stage u (mb_image C B F D) R t" and hu: "harmless s u"
    and R: "{8..<foff C (mnf C)} \<subseteq> R" "R \<inter> {0..<8} = {}"
    and ids: "\<And>i. i < mnf C \<Longrightarrow> length (fm_id (F i)) = 12"
    and ver: "hdr_fs_version (meta_block_header u) = ETSS_SUPPORTED_VERSION"
    and sd: "num_blocks C \<noteq> 2 \<Longrightarrow> sdb u \<notin> {0, 1} \<and> sdb u < ucast (num_blocks C)"
    and Q: "\<And>s'. swapped u B F D R s' \<Longrightarrow> hdr_ok s' \<Longrightarrow> scratch_blank s' \<Longrightarrow> Q () s'"
    and EH: "\<And>e s'. \<not> rel \<Longrightarrow> harmless s s' \<Longrightarrow> E e s'"
    and E2: "\<And>e s'. \<not> rel \<Longrightarrow> swapped u B F D R s' \<Longrightarrow> E e s'"
  shows "wp etss_flash_fs_mblock_meta_update_finalize Q E t"
proof -
  note sD = stageD [OF st]
  have le: "foff C (mnf C) \<le> unat (block_size C)" "8 \<le> foff C (mnf C)"
    using cfg_okD(3) [OF cfg] by (simp_all add: foff_def)
  have sw: "swapped u B F D R s'"
    if "metas s'" "active_metablock s' = scratch_metablock t" "sdb s' = sdb t"
      "\<And>l. l < nad C \<Longrightarrow> tB s' l = B l" "\<And>i. i < mnf C \<Longrightarrow> tF s' i = F i"
      "\<And>p. 8 \<le> p \<Longrightarrow> p < unat (block_size C) \<Longrightarrow> mm s' (scratch_metablock t) ! p = mm t (scratch_metablock t) ! p"
      "\<And>b. b \<notin> {active_metablock t, scratch_metablock t} \<Longrightarrow> num_blocks C = 2 \<or> b \<noteq> sdb t \<Longrightarrow> mm s' b = mm t b"
    for s'
    unfolding swapped_def using that sD le by (auto simp: image_data)
  have ht: "harmless s t" by (rule harmless_stage [OF hu st])
  show ?thesis
  proof (rule finalize_tables_wp [where B = B and F = F and D = D])
    show "erased_on (mm t) (scratch_metablock t) {0..<8}"
      using R(2) le by (intro stage_erased [OF st]) auto
    show "mm t (scratch_metablock t) ! p = mb_image C B F D p" if "8 \<le> p" "p < foff C (mnf C)" for p
      using sD(4,7) R(1) that le by auto
    show "E e (t\<lparr>meta_block_header := h, flash := d\<rparr>)"
      if "\<not> rel" "dok d" "\<And>b. b \<noteq> scratch_metablock t \<Longrightarrow> mem d b = mm t b" for e d h
    proof (rule EH [OF that(1)], rule harmless_upd [OF harmless_hdr [OF ht] that(2)])
      show "mem d b = mm (t\<lparr>meta_block_header := h\<rparr>) b" if "b \<noteq> scratch_metablock s" for b
        using ht \<open>\<And>b. b \<noteq> scratch_metablock t \<Longrightarrow> mem d b = mm t b\<close> that by (simp add: harmless_def)
    qed
  qed (use sD ids ver sd sw Q E2 in auto)
qed

section \<open>Deleting a file\<close>

text \<open>The tables and the contents after the deletion of file \<open>i\<close>.\<close>

definition deleted :: "'d fs_state \<Rightarrow> nat \<Rightarrow> 'd fs_state \<Rightarrow> bool" where
  "deleted s i s' \<longleftrightarrow> tabs_ok s' \<and> (\<forall>j<mnf C. tF s' j = del_files (tF s) i j) \<and>
     (\<forall>j<mnf C. j \<noteq> i \<longrightarrow> used (tF s j) \<longrightarrow>
        content (mm s') (tB s') (tF s' j) = content (mm s) (tB s) (tF s j))"

text \<open>The bytes of every logical block before and after.\<close>

lemma deletedI:
  assumes tab: "tabs_ok s" and i: "i < mnf C" "used (tF s i)" and safe: "del_safe C (tB s) (tF s i)"
    and sw: "swapped u (del_blocks (tB s) (tF s i) (scratch_metablock s) sid) (del_files (tF s) i) D R s'"
    and scr: "scratch_metablock u = scratch_metablock s"
    and sid: "fm_lblock (tF s i) = 0 \<and> sdb u = sdb s \<or>
      fm_lblock (tF s i) \<noteq> 0 \<and> sid = sdb s \<and> sdb u = bm_phy_id (tB s (unat (fm_lblock (tF s i))))"
    and data: "\<And>k p. k < nad C \<Longrightarrow> unat (bm_data_start (tB s k)) \<le> p \<Longrightarrow>
      p < (if k = unat (fm_lblock (tF s i)) then reg_end C (tB s k) - unat (fm_max_size (tF s i)) else reg_end C (tB s k)) \<Longrightarrow>
      mm s' (bm_phy_id (tB s' k)) ! p = mm s (bm_phy_id (tB s k)) !
        (if k = unat (fm_lblock (tF s i)) \<and> unat (fm_data_idx (tF s i)) \<le> p then p + unat (fm_max_size (tF s i)) else p)"
  shows "deleted s i s'"
proof -
  let ?x = "tF s i" and ?scr = "scratch_metablock s"
  let ?B = "del_blocks (tB s) ?x ?scr sid" and ?F = "del_files (tF s) i" and ?l = "unat (fm_lblock ?x)"
  note td = tabs_okD [OF tab]
  have ids: "(active_metablock s, ?scr) \<in> {(0, 1), (1, 0)}" using td(1) by (simp add: metas_def del: metas_simps)
  have l: "?l < nad C" using validate_file_meta_Inr(1) [OF cfg files_okD(2) [OF td(3) i(1)]] .
  have l0: "?l = 0 \<longleftrightarrow> fm_lblock ?x = 0" by (simp add: unat_eq_zero)
  note bs = block_start [OF cfg td(2,4)]
  have s': "metas s'" "active_metablock s' = ?scr" "sdb s' = sdb u"
    "\<And>l. l < nad C \<Longrightarrow> tB s' l = ?B l" "\<And>j. j < mnf C \<Longrightarrow> tF s' j = ?F j"
    using sw scr by (auto simp: swapped_def)
  have fr: "unat (bm_data_start (tB s ?l)) + unat (bm_free_size (tB s ?l) + fm_max_size ?x) \<le> unat (block_size C)"
  proof -
    have "unat (bm_free_size (tB s ?l)) + unat (fm_max_size ?x) + unat (bm_data_start (tB s ?l)) \<le> unat (block_size C)"
      using files_okD(3) [OF td(3) i] bs(5) [OF l] by linarith
    then show ?thesis using unat_u32_less [of "block_size C"] by (simp add: unat_add_u32)
  qed
  have "blocks_ok C ?scr (sdb u) ?B"
    unfolding del_blocks_def Let_def
    by (rule upd_blocks_ok [OF cfg td(2) ids l]) (use fr sid l0 in auto)
  then have bo: "blocks_ok C ?scr (sdb u) (tB s')"
    using blocks_ok_cong [of C "tB s'" ?B] s'(4) nad_pos [OF cfg] by simp
  have "files_ok C ?B ?F" by (rule del_files_ok [OF cfg td(3) i safe td(2,4)])
  then have fo: "files_ok C (tB s') (tF s')" using files_ok_cong [of C "tB s'" ?B "tF s'" ?F] s'(4,5) cfg by simp
  have tab': "tabs_ok s'" using s' bo fo by (simp add: tabs_ok_def)
  have cont: "content (mm s') (tB s') (?F j) = content (mm s) (tB s) (tF s j)"
    if j: "j < mnf C" "used (tF s j)" "j \<noteq> i" for j
  proof (rule del_content [OF cfg td(3) i safe j])
    have k: "unat (fm_lblock (tF s j)) < nad C"
      using validate_file_meta_Inr(1) [OF cfg files_okD(2) [OF td(3) j(1)]] .
    show "length (mm s (bm_phy_id (tB s (unat (fm_lblock (tF s j)))))) = unat (block_size C)"
      using bs(4) [OF k] td by (simp add: mm_length)
    show "length (mm s' (bm_phy_id (tB s' (unat (fm_lblock (tF s j)))))) = unat (block_size C)"
      using block_start(4) [OF cfg bo _ k] tabs_okD [OF tab'] s'(2) by (simp add: mm_length)
    fix p assume "unat (bm_data_start (tB s (unat (fm_lblock (tF s j))))) \<le> p"
      "p < (if fm_lblock (tF s j) = fm_lblock ?x then reg_end C (tB s ?l) - unat (fm_max_size ?x)
         else reg_end C (tB s (unat (fm_lblock (tF s j)))))"
    then show "mm s' (bm_phy_id (tB s' (unat (fm_lblock (tF s j))))) ! p =
        mm s (bm_phy_id (tB s (unat (fm_lblock (tF s j))))) !
        (if fm_lblock (tF s j) = fm_lblock ?x \<and> unat (fm_data_idx ?x) \<le> p then p + unat (fm_max_size ?x) else p)"
      using data [OF k, of p] word_unat_eq_iff [of "fm_lblock (tF s j)" "fm_lblock ?x"]
      by (cases "fm_lblock (tF s j) = fm_lblock ?x") auto
  qed
  show ?thesis
    unfolding deleted_def using tab' s'(5) cont by auto
qed

end

end
