(* ===== verification/Flash_Fs_Remove.thy ===== *)
theory Flash_Fs_Remove
  imports Flash_Fs_Delete
begin

text \<open>
  \<open>etss_flash_fs_delete_idx\<close> on a state that satisfies the invariant: the whole operation deletes
  exactly the given file, keeps the contents of all others and re-establishes the invariant; when
  the device fails, the old files or the new ones are all there.
\<close>

context fs_dev
begin

lemma acc_src:
  assumes tab: "tabs_ok s" and i: "i < mnf C" "used (tF s i)" and safe: "del_safe C (tB s) (tF s i)"
    and acc: "acc_ok (tF s) (later C (tF s) i) (block_size C) 0 src nbr"
  defines "l \<equiv> unat (fm_lblock (tF s i))"
  shows "unat nbr = reg_end C (tB s l) - (unat (fm_data_idx (tF s i)) + unat (fm_max_size (tF s i)))"
    and "0 < unat nbr \<Longrightarrow> unat src = unat (fm_data_idx (tF s i)) + unat (fm_max_size (tF s i))"
proof -
  note td = tabs_okD [OF tab]
  have l: "l < nad C" unfolding l_def using validate_file_meta_Inr(1) [OF cfg files_okD(2) [OF td(3) i(1)]] .
  note bs = block_start [OF cfg td(2,4) l]
  note sum = later_sum [OF td(3) i safe refl l [unfolded l_def] bs(2) [unfolded l_def]]
  note cov = later_cover [OF td(3) i safe refl l [unfolded l_def] bs(2) [unfolded l_def]]
  let ?e = "unat (fm_data_idx (tF s i)) + unat (fm_max_size (tF s i))"
  show nbr: "unat nbr = reg_end C (tB s l) - ?e" using acc sum by (simp add: acc_ok_def l_def)
  assume pos: "0 < unat nbr"
  then have "?e \<in> {?e..<reg_end C (tB s l)}" using nbr by simp
  then obtain j where j: "j \<in> later C (tF s) i" "?e \<in> region (tF s j)" using cov unfolding l_def by blast
  have "unat src \<le> unat (fm_data_idx (tF s j))" using acc j(1) by (simp add: acc_ok_def)
  then have le: "unat src \<le> ?e" using j(2) by simp
  have "?e < unat (block_size C)" using pos nbr bs(3) by linarith
  then have "src \<noteq> block_size C" using le by auto
  then obtain k where "k \<in> later C (tF s) i" "src = fm_data_idx (tF s k)"
    using acc by (auto simp: acc_ok_def)
  then show "unat src = ?e" using later_ge [OF td(3) i safe, of k] le by simp
qed

lemma deleted_inv: "deleted s i s' \<Longrightarrow> hdr_ok s' \<Longrightarrow> scratch_blank s' \<Longrightarrow> fs_inv s'"
  by (simp add: deleted_def fs_inv_def)

lemma tail0_wp:
  assumes inv: "fs_inv s" and i: "i < mnf C" "used (tF s i)" and safe: "del_safe C (tB s) (tF s i)"
    and l0: "fm_lblock (tF s i) = 0"
    and acc: "acc_ok (tF s) (later C (tF s) i) (block_size C) 0 src nbr"
    and D: "D = (\<lambda>p. mm s (active_metablock s) !
      (if unat (fm_data_idx (tF s i)) \<le> p then p + unat (fm_max_size (tF s i)) else p))"
    and st: "stage s (mb_image C (del_blocks (tB s) (tF s i) (scratch_metablock s) (scratch_metablock s))
      (del_files (tF s) i) D) {foff C 0..<foff C (mnf C)} t"
    and Q: "\<And>s'. fs_inv s' \<Longrightarrow> deleted s i s' \<Longrightarrow> Q () s'"
    and EH: "\<And>e s'. \<not> rel \<Longrightarrow> harmless s s' \<Longrightarrow> E e s'"
    and E2: "\<And>e s'. \<not> rel \<Longrightarrow> deleted s i s' \<Longrightarrow> E e s'"
  shows "wp (etss_flash_fs_dblock_compact_block 0 (fm_max_size (tF s i)) src (fm_data_idx (tF s i)) nbr)
    (\<lambda>_. wp etss_flash_fs_mblock_meta_update_finalize Q E) E t"
proof -
  let ?x = "tF s i" and ?scr = "scratch_metablock s" and ?act = "active_metablock s"
  let ?B = "del_blocks (tB s) ?x ?scr ?scr" and ?F = "del_files (tF s) i"
  let ?a = "unat (fm_data_idx ?x)" and ?m = "unat (fm_max_size ?x)" and ?e = "reg_end C (tB s 0)"
  note iD = fs_invD [OF inv] and td = tabs_okD [OF fs_invD(1) [OF inv]]
  have n0: "0 < nad C" by (rule nad_pos [OF cfg])
  note bs = block_start [OF cfg td(2,4) n0]
  have reg: "foff C (mnf C) \<le> ?a" "?a + ?m \<le> ?e" using files_okD(3) [OF td(3) i] l0 bs(1) by auto
  have nbr: "unat nbr = ?e - (?a + ?m)" "0 < unat nbr \<Longrightarrow> unat src = ?a + ?m"
    using acc_src [OF iD(1) i safe acc] l0 by auto
  have b0: "rB s 0 = Inr (tB s 0)" using tabs_ok_rB [OF iD(1), of 0] n0 by simp
  have phy: "bm_phy_id (tB s 0) = ?act" using blocks_okD(1) [OF td(2)] .
  have ids: "(?act, ?scr) \<in> {(0, 1), (1, 0)}" using td(1) by (simp add: metas_def del: metas_simps)
  have end_eq: "?a + unat nbr = ?e - ?m" using nbr reg by simp
  let ?R = "{foff C 0..<foff C (mnf C)} \<union> {foff C (mnf C)..<?a + unat nbr} \<union> {8..<foff C 0}"
  have fin: "deleted s i s'" if sw: "swapped s ?B ?F D ?R s'" for s'
  proof (rule deletedI [OF iD(1) i safe sw refl])
    have swD: "active_metablock s' = ?scr" "\<And>l. l < nad C \<Longrightarrow> tB s' l = ?B l"
      "\<And>p. foff C (mnf C) \<le> p \<Longrightarrow> p < unat (block_size C) \<Longrightarrow> mm s' ?scr ! p = (if p \<in> ?R then D p else erase_val C)"
      "\<And>b. b \<notin> {?act, ?scr} \<Longrightarrow> num_blocks C = 2 \<or> b \<noteq> sdb s \<Longrightarrow> mm s' b = mm s b"
      using sw by (auto simp: swapped_def)
    fix k p assume k: "k < nad C" "unat (bm_data_start (tB s k)) \<le> p"
      and p: "p < (if k = unat (fm_lblock ?x) then reg_end C (tB s k) - ?m else reg_end C (tB s k))"
    show "mm s' (bm_phy_id (tB s' k)) ! p = mm s (bm_phy_id (tB s k)) !
        (if k = unat (fm_lblock ?x) \<and> ?a \<le> p then p + ?m else p)"
    proof (cases "k = 0")
      case True
      then have "foff C (mnf C) \<le> p" "p < ?a + unat nbr" "p < unat (block_size C)"
        using k(2) p l0 bs(1,3) end_eq by auto
      then show ?thesis using True l0 phy swD(2) [OF n0] swD(3) [of p] D by (simp add: del_blocks_simps)
    next
      case False
      have "bm_phy_id (tB s k) \<notin> {0, 1, sdb s}" using blocks_okD(3) [OF td(2) k(1)] False by simp
      then have "mm s' (bm_phy_id (tB s k)) = mm s (bm_phy_id (tB s k))" using swD(4) ids by auto
      then show ?thesis using False l0 swD(2) [OF k(1)] by (simp add: del_blocks_simps)
    qed
  qed (use l0 in simp)
  show ?thesis
  proof (rule compact0_wp [OF st _ b0 phy])
    show "\<not> rel \<Longrightarrow> spoilt s E" by (rule harmless_spoilt [OF harmless_refl [OF td(1)]]) (rule EH)
    show "0 < unat nbr \<Longrightarrow> unat src + unat nbr \<le> unat (block_size C)" using nbr bs(3) reg by simp
    show "D p = mm s ?act ! (if ?a \<le> p then unat src + (p - ?a) else p)"
      if "foff C (mnf C) \<le> p" "p < ?a + unat nbr" for p
      using that nbr D by (auto simp: add.commute)
    fix t' assume t': "stage s (mb_image C ?B ?F D) ?R t'"
    show "wp etss_flash_fs_mblock_meta_update_finalize Q E t'"
    proof (rule commit_stage_wp [OF t' harmless_refl [OF td(1)]])
      show "length (fm_id (?F j)) = 12" if "j < mnf C" for j
        using files_okD(1) [OF td(3) that] by (simp add: del_files_def)
      show "hdr_fs_version (meta_block_header s) = ETSS_SUPPORTED_VERSION" using iD(2) by (simp add: hdr_ok_def)
      show "Q () s'" if "swapped s ?B ?F D ?R s'" "hdr_ok s'" "scratch_blank s'" for s'
        using fin [OF that(1)] that by (intro Q deleted_inv)
      show "{8..<foff C (mnf C)} \<subseteq> ?R" by auto
      show "?R \<inter> {0..<8} = {}" by (auto simp: foff_def)
    qed (use blocks_okD(5) [OF td(2)] EH E2 fin in auto)
  qed (use reg nbr bs l0 in \<open>auto simp: del_blocks_def upd_blocks_def Let_def\<close>)
qed

lemma tailL_wp:
  assumes inv: "fs_inv s" and i: "i < mnf C" "used (tF s i)" and safe: "del_safe C (tB s) (tF s i)"
    and l0: "fm_lblock (tF s i) \<noteq> 0"
    and acc: "acc_ok (tF s) (later C (tF s) i) (block_size C) 0 src nbr"
    and D: "D = (\<lambda>p. mm s (active_metablock s) ! p)"
    and st: "stage s (mb_image C (del_blocks (tB s) (tF s i) (scratch_metablock s) (sdb s))
      (del_files (tF s) i) D) {foff C 0..<foff C (mnf C)} t"
    and Q: "\<And>s'. fs_inv s' \<Longrightarrow> deleted s i s' \<Longrightarrow> Q () s'"
    and EH: "\<And>e s'. \<not> rel \<Longrightarrow> harmless s s' \<Longrightarrow> E e s'"
    and E2: "\<And>e s'. \<not> rel \<Longrightarrow> deleted s i s' \<Longrightarrow> E e s'"
  shows "wp (etss_flash_fs_dblock_compact_block (fm_lblock (tF s i)) (fm_max_size (tF s i)) src (fm_data_idx (tF s i)) nbr)
    (\<lambda>_. wp (orError etss_flash_fs_mblock_migrate_lb0_data_to_scratch PSA_ERROR_GENERIC_ERROR)
      (\<lambda>_. wp etss_flash_fs_mblock_meta_update_finalize Q E) E) E t"
proof -
  let ?x = "tF s i" and ?scr = "scratch_metablock s" and ?act = "active_metablock s"
  let ?B = "del_blocks (tB s) ?x ?scr (sdb s)" and ?F = "del_files (tF s) i" and ?T = "mb_image C
      (del_blocks (tB s) (tF s i) (scratch_metablock s) (sdb s)) (del_files (tF s) i) D"
  let ?l = "unat (fm_lblock ?x)"
  let ?a = "unat (fm_data_idx ?x)" and ?m = "unat (fm_max_size ?x)" and ?e = "reg_end C (tB s ?l)"
  let ?phy = "bm_phy_id (tB s ?l)"
  note iD = fs_invD [OF inv] and td = tabs_okD [OF fs_invD(1) [OF inv]]
  have l: "?l < nad C" using validate_file_meta_Inr(1) [OF cfg files_okD(2) [OF td(3) i(1)]] .
  have ln: "?l \<noteq> 0" using l0 by (simp add: unat_eq_zero)
  have n0: "0 < nad C" by (rule nad_pos [OF cfg])
  have nb: "num_blocks C \<noteq> 2" using l ln by (auto simp: nad_def)
  note bs = block_start [OF cfg td(2,4) l] and bs0 = block_start [OF cfg td(2,4) n0]
  have reg: "?a + ?m \<le> ?e" using files_okD(3) [OF td(3) i] by auto
  have nbr: "unat nbr = ?e - (?a + ?m)" "0 < unat nbr \<Longrightarrow> unat src = ?a + ?m"
    using acc_src [OF iD(1) i safe acc] by auto
  have end_eq: "?a + unat nbr = ?e - ?m" using nbr reg by simp
  have b0: "rB s 0 = Inr (tB s 0)" "rB s (fm_lblock ?x) = Inr (tB s ?l)"
    using tabs_ok_rB [OF iD(1), of 0] tabs_ok_rB [OF iD(1), of "fm_lblock ?x"] n0 l by simp_all
  have phy0: "bm_phy_id (tB s 0) = ?act" using blocks_okD(1) [OF td(2)] .
  have ids: "(?act, ?scr) \<in> {(0, 1), (1, 0)}" using td(1) by (simp add: metas_def del: metas_simps)
  have pl: "?phy \<notin> {0, 1, sdb s}" using blocks_okD(3) [OF td(2) l] ln by simp
  have sd: "sdb s \<notin> {0, 1}" "sdb s < ucast (num_blocks C)" using blocks_okD(5) [OF td(2) nb] by simp_all
  define Td where "Td = (\<lambda>p. mm s ?phy ! (if ?a \<le> p then p + ?m else p))"
  let ?R1 = "{foff C 0..<foff C (mnf C)} \<union> {8..<foff C 0}"
  let ?R = "?R1 \<union> {foff C (mnf C)..<reg_end C (tB s 0)}"
  have fin: "deleted s i s'"
    if sw: "swapped u ?B ?F D ?R s'" and hu: "harmless s u" and hdr: "sdb u = ?phy"
      and um: "mm u (sdb s) = fillM (mm s) (sdb s) {0..<?a + unat nbr} Td (sdb s)" for u s'
  proof (rule deletedI [OF iD(1) i safe sw])
    have ua: "active_metablock u = ?act" "scratch_metablock u = ?scr" using hu by (simp_all add: harmless_def)
    have swD: "active_metablock s' = ?scr" "\<And>l. l < nad C \<Longrightarrow> tB s' l = ?B l"
      "\<And>p. foff C (mnf C) \<le> p \<Longrightarrow> p < unat (block_size C) \<Longrightarrow> mm s' ?scr ! p = (if p \<in> ?R then D p else erase_val C)"
      "\<And>b. b \<notin> {?act, ?scr} \<Longrightarrow> b \<noteq> ?phy \<Longrightarrow> mm s' b = mm u b"
      using sw ua hdr by (auto simp: swapped_def)
    have uo: "mm u b = mm s b" if "b \<noteq> ?scr" "b \<noteq> sdb s" for b using hu that by (simp add: harmless_def)
    show "scratch_metablock u = ?scr" by (rule ua)
    fix k p assume k: "k < nad C" "unat (bm_data_start (tB s k)) \<le> p"
      and p: "p < (if k = unat (fm_lblock ?x) then reg_end C (tB s k) - ?m else reg_end C (tB s k))"
    note bk = block_start [OF cfg td(2,4) k(1)]
    consider "k = 0" | "k = ?l" | "k \<noteq> 0" "k \<noteq> ?l" by blast
    then show "mm s' (bm_phy_id (tB s' k)) ! p = mm s (bm_phy_id (tB s k)) !
        (if k = unat (fm_lblock ?x) \<and> ?a \<le> p then p + ?m else p)"
    proof cases
      case 1
      then have "foff C (mnf C) \<le> p" "p < reg_end C (tB s 0)" "p < unat (block_size C)"
        using k(2) p ln bk(1,3) by auto
      then show ?thesis using 1 ln phy0 swD(2) [OF n0] swD(3) [of p] D by (simp add: del_blocks_simps)
    next
      case 2
      have pp: "p < ?a + unat nbr" "p < unat (block_size C)" using 2 p end_eq bs(3) by auto
      have "mm s' (sdb s) = mm u (sdb s)" using swD(4) [of "sdb s"] sd ids pl by auto
      moreover have "length (mm s (sdb s)) = unat (block_size C)" using sd td by (simp add: mm_length)
      ultimately show ?thesis
        using 2 um pp ln swD(2) [OF l] by (simp add: del_blocks_simps nth_fillM Td_def)
    next
      case 3
      have ph: "bm_phy_id (tB s k) \<notin> {0, 1, sdb s}" using blocks_okD(3) [OF td(2) k(1)] 3 by simp
      have "bm_phy_id (tB s k) \<noteq> ?phy" using blocks_okD(4) [OF td(2) k(1) l] 3 by auto
      then have "mm s' (bm_phy_id (tB s k)) = mm s (bm_phy_id (tB s k))"
        using swD(4) [of "bm_phy_id (tB s k)"] uo ph ids by auto
      then show ?thesis using 3 swD(2) [OF k(1)] by (simp add: del_blocks_simps)
    qed
  qed (use l0 hdr in simp)
  show ?thesis
    unfolding wp_fun
  proof (rule compactL_wp [where Td = Td, OF st EH l0 l b0(2,1)])
    show "erased_on (mm s) (sdb s) whole" using iD(3) nb by (simp add: scratch_blank_def)
    show "0 < unat nbr \<Longrightarrow> unat src + unat nbr \<le> unat (block_size C)" using nbr bs(3) reg by simp
    show "Td p = mm s ?phy ! (if ?a \<le> p then unat src + (p - ?a) else p)" if "p < ?a + unat nbr" for p
      using that nbr by (auto simp: Td_def add.commute)
    fix u assume st': "stage u ?T ?R1 u" and hu: "harmless s u"
      and hdr: "meta_block_header u = (meta_block_header s)\<lparr>hdr_scratch_dblock := ?phy\<rparr>"
      and um: "mm u (sdb s) = fillM (mm s) (sdb s) {0..<?a + unat nbr} Td (sdb s)"
    have ua: "active_metablock u = ?act" "scratch_metablock u = ?scr" using hu by (simp_all add: harmless_def)
    have am: "mm u ?act = mm s ?act" using hu sd ids by (auto simp: harmless_def)
    note tu = table_cong [where m = "mm u" and m' = "mm s", OF am]
    have sp: "spoilt u (\<lambda>_. E PSA_ERROR_GENERIC_ERROR)" if "\<not> rel"
      by (rule harmless_spoilt [OF hu]) (use EH that in auto)
    show "wp etss_flash_fs_mblock_migrate_lb0_data_to_scratch
        (\<lambda>_. wp etss_flash_fs_mblock_meta_update_finalize Q E) (\<lambda>_. E PSA_ERROR_GENERIC_ERROR) u"
    proof (rule stage_migrate [OF st' sp])
      fix t' assume "stage u ?T (?R1 \<union> {foff C (mnf C)..<reg_end C (tB u 0)}) t'"
      then have t': "stage u ?T ?R t'" using tu ua by simp
      show "wp etss_flash_fs_mblock_meta_update_finalize Q E t'"
      proof (rule commit_stage_wp [OF t' hu])
        show "length (fm_id (?F j)) = 12" if "j < mnf C" for j
          using files_okD(1) [OF td(3) that] by (simp add: del_files_def)
        show "hdr_fs_version (meta_block_header u) = ETSS_SUPPORTED_VERSION" using iD(2) hdr by (simp add: hdr_ok_def)
        show "Q () s'" if "swapped u ?B ?F D ?R s'" "hdr_ok s'" "scratch_blank s'" for s'
          using fin [OF that(1) hu _ um] hdr that by (intro Q deleted_inv) simp_all
        show "E e s'" if "\<not> rel" "swapped u ?B ?F D ?R s'" for e s'
          using E2 [OF that(1)] fin [OF that(2) hu _ um] hdr by simp
        show "{8..<foff C (mnf C)} \<subseteq> ?R" by auto
        show "?R \<inter> {0..<8} = {}" by (auto simp: foff_def)
        show "sdb u \<notin> {0, 1} \<and> sdb u < ucast (num_blocks C)" using hdr pl bs(4) by simp
      qed (use EH in auto)
    qed (use tu ua b0 phy0 D am bs0 in \<open>auto simp: image_data foff_def\<close>)
  qed (use l0 ln l bs sd ids pl reg nbr in \<open>auto simp: del_blocks_def upd_blocks_def Let_def\<close>)
qed

text \<open>Unless the device fails, the deletion succeeds, removes the file and keeps the others.\<close>

theorem delete_idx_wp:
  fixes i :: u32
  assumes inv: "fs_inv s" and i: "unat i < mnf C" "used (tF s (unat i))"
    and safe: "del_safe C (tB s) (tF s (unat i))"
    and Q: "\<And>s'. fs_inv s' \<Longrightarrow> deleted s (unat i) s' \<Longrightarrow> Q () s'"
    and EH: "\<And>e s'. \<not> rel \<Longrightarrow> harmless s s' \<Longrightarrow> E e s'"
    and E2: "\<And>e s'. \<not> rel \<Longrightarrow> deleted s (unat i) s' \<Longrightarrow> E e s'"
  shows "wp (etss_flash_fs_delete_idx i) Q E s"
proof -
  let ?x = "tF s (unat i)" and ?scr = "scratch_metablock s" and ?act = "active_metablock s"
  let ?l0 = "fm_lblock ?x = 0"
  define D where "D = (\<lambda>p. mm s ?act ! (if ?l0 \<and> unat (fm_data_idx ?x) \<le> p then p + unat (fm_max_size ?x) else p))"
  define sid where "sid = (if ?l0 then ?scr else sdb s)"
  let ?T = "mb_image C (del_blocks (tB s) ?x ?scr sid) (del_files (tF s) (unat i)) D"
  note iD = fs_invD [OF inv] and td = tabs_okD [OF fs_invD(1) [OF inv]]
  have sp: "\<not> rel \<Longrightarrow> spoilt s E" by (rule harmless_spoilt [OF harmless_refl [OF td(1)]]) (rule EH)
  have z: "ETSS_LOGICAL_DBLOCK0 = 0" by (simp add: mblock_consts)
  have l: "unat (fm_lblock ?x) < nad C" using validate_file_meta_Inr(1) [OF cfg files_okD(2) [OF td(3) i(1)]] .
  note bs = block_start [OF cfg td(2,4) l]
  have all: "later C (tF s) (unat i) \<inter> unat ` set (file_idxs C) = later C (tF s) (unat i)"
  proof -
    have "j \<in> unat ` set (file_idxs C)" if "j < mnf C" for j
      using that mnf_less [of C]
      by (intro image_eqI [of _ _ "of_nat j"]) (simp_all add: file_idxs_unat unat_of_nat_u32)
    then show ?thesis by (auto simp: later_def)
  qed
  have tab: "fregion i \<union> (\<Union>j\<in>set (file_idxs C) - {i}. fregion j) = {foff C 0..<foff C (mnf C)}"
    using fregion_table i(1) file_idxs_unat [of i C] by auto
  have er: "erased_on (mm s) ?scr whole" using iD(3) by (simp add: scratch_blank_def)
  have tl: "wp (bindE (etss_flash_fs_dblock_compact_block (fm_lblock ?x) (fm_max_size ?x) src (fm_data_idx ?x) nbr) (\<lambda>_.
       bindE (if fm_lblock ?x \<noteq> 0
              then orError etss_flash_fs_mblock_migrate_lb0_data_to_scratch PSA_ERROR_GENERIC_ERROR
              else returnE ()) (\<lambda>_. etss_flash_fs_mblock_meta_update_finalize))) Q E t"
    if t: "stage s ?T {foff C 0..<foff C (mnf C)} t"
      and acc: "acc_ok (tF s) (later C (tF s) (unat i)) (block_size C) 0 src nbr" for t src nbr
  proof (cases ?l0)
    case True
    then show ?thesis
      using tail0_wp [OF inv i safe True acc, of D t Q E] t Q EH E2 by (simp add: D_def sid_def wp_fun)
  next
    case False
    then show ?thesis
      using tailL_wp [OF inv i safe False acc, of D t Q E] t Q EH E2 by (simp add: D_def sid_def wp_fun)
  qed
  show ?thesis
    unfolding etss_flash_fs_delete_idx_def wp_bindE
  proof (rule reads_wp [OF reads_file_meta [OF td(5) i(1)]])
    fix x d assume x: "rF s i = Inr x" and d: "dok d" "mem d = mm s"
    have xx: "x = ?x" using x tabs_ok_rF [OF iD(1) i(1)] by simp
    have st0: "stage s ?T {} (s\<lparr>flash := d\<rparr>)"
      by (rule stage_same [OF stage_init [OF td(1) er] d])
    have "wp (etss_flash_fs_mblock_update_scratch_file_meta i zero_file_meta)
       (\<lambda>_. wp (withS (\<lambda>s. delete_idx_loop i ?x (u32_upto (ucast (max_num_files (ctx_cfg s)))) (block_size (ctx_cfg s)) 0))
         (\<lambda>(src_offset, nbr_bytes_to_move).
           wp (bindE (etss_flash_fs_dblock_compact_block (fm_lblock ?x) (fm_max_size ?x) src_offset (fm_data_idx ?x) nbr_bytes_to_move) (\<lambda>_.
       bindE (if fm_lblock ?x \<noteq> 0
              then orError etss_flash_fs_mblock_migrate_lb0_data_to_scratch PSA_ERROR_GENERIC_ERROR
              else returnE ()) (\<lambda>_. etss_flash_fs_mblock_meta_update_finalize))) Q E) E) E (s\<lparr>flash := d\<rparr>)"
    proof (rule stage_file_meta [OF st0 sp i(1) length_zero_id])
      show "?T (foff C (unat i) + k) = encode_file_meta zero_file_meta ! k" if "k < 32" for k
        using image_file [OF i(1) that] by (simp add: del_files_def)
      fix t assume t: "stage s ?T ({} \<union> fregion i) t"
      have "wp (delete_idx_loop i ?x (file_idxs C) (block_size C) 0)
         (\<lambda>(src_offset, nbr_bytes_to_move).
           wp (bindE (etss_flash_fs_dblock_compact_block (fm_lblock ?x) (fm_max_size ?x) src_offset (fm_data_idx ?x) nbr_bytes_to_move) (\<lambda>_.
       bindE (if fm_lblock ?x \<noteq> 0
              then orError etss_flash_fs_mblock_migrate_lb0_data_to_scratch PSA_ERROR_GENERIC_ERROR
              else returnE ()) (\<lambda>_. etss_flash_fs_mblock_meta_update_finalize))) Q E) E t"
      proof (rule delete_loop_wp [OF t sp refl])
        show "rF s j = Inr (tF s (unat j))" if "unat j < mnf C" for j using tabs_ok_rF [OF iD(1) that] .
        show "fregion j \<inter> ({} \<union> fregion i) = {}" if "j \<noteq> i" for j using fregion_disjoint [OF that] by simp
        show "?T (foff C (unat j) + k) = encode_file_meta (shift_file ?x (tF s (unat j))) ! k"
          if "j \<in> set (file_idxs C)" "j \<noteq> i" "k < 32" for j k
          using image_file [of "unat j" C k] that
          by (simp add: file_idxs_unat del_files_def word_unat_eq_iff)
        show "unat (0 :: u32) + (\<Sum>j\<in>later C (tF s) (unat i) \<inter> unat ` set (file_idxs C). unat (fm_max_size (tF s j))) < 4294967296"
          unfolding all later_sum [OF td(3) i safe refl l bs(2)]
          using bs(3) unat_u32_less [of "block_size C"] by simp
        fix t' src nbr
        assume "stage s ?T ({} \<union> fregion i \<union> (\<Union>j\<in>set (file_idxs C) - {i}. fregion j)) t'"
          "acc_ok (tF s) (later C (tF s) (unat i) \<inter> unat ` set (file_idxs C)) (block_size C) 0 src nbr"
        then show "(case (src, nbr) of (src_offset, nbr_bytes_to_move) \<Rightarrow>
           wp (bindE (etss_flash_fs_dblock_compact_block (fm_lblock ?x) (fm_max_size ?x) src_offset (fm_data_idx ?x) nbr_bytes_to_move) (\<lambda>_.
       bindE (if fm_lblock ?x \<noteq> 0
              then orError etss_flash_fs_mblock_migrate_lb0_data_to_scratch PSA_ERROR_GENERIC_ERROR
              else returnE ()) (\<lambda>_. etss_flash_fs_mblock_meta_update_finalize))) Q E) t'"
          unfolding all Un_empty_left tab prod.case by (rule tl)
      qed (use files_okD(1) [OF td(3)] in \<open>auto simp: file_idxs_unat\<close>)
      then show "wp (withS (\<lambda>s. delete_idx_loop i ?x (u32_upto (ucast (max_num_files (ctx_cfg s)))) (block_size (ctx_cfg s)) 0))
         (\<lambda>(src_offset, nbr_bytes_to_move).
           wp (bindE (etss_flash_fs_dblock_compact_block (fm_lblock ?x) (fm_max_size ?x) src_offset (fm_data_idx ?x) nbr_bytes_to_move) (\<lambda>_.
       bindE (if fm_lblock ?x \<noteq> 0
              then orError etss_flash_fs_mblock_migrate_lb0_data_to_scratch PSA_ERROR_GENERIC_ERROR
              else returnE ()) (\<lambda>_. etss_flash_fs_mblock_meta_update_finalize))) Q E) E t"
        unfolding wp_withS using stageD(2) [OF t] by (simp del: wp_bindE)
    qed auto
    then show "wp (if etss_utils_validate_fid (fm_id x) \<noteq> Inr () then throwE PSA_ERROR_DOES_NOT_EXIST
     else
       bindE (etss_flash_fs_mblock_update_scratch_file_meta i zero_file_meta) (\<lambda>_.
       bindE (withS (\<lambda>s. delete_idx_loop i x
         (u32_upto (ucast (max_num_files (ctx_cfg s)))) (block_size (ctx_cfg s)) 0))
         (\<lambda>(src_offset, nbr_bytes_to_move).
       bindE (etss_flash_fs_dblock_compact_block (fm_lblock x) (fm_max_size x)
         src_offset (fm_data_idx x) nbr_bytes_to_move) (\<lambda>_.
       bindE (if fm_lblock x \<noteq> ETSS_LOGICAL_DBLOCK0
              then orError etss_flash_fs_mblock_migrate_lb0_data_to_scratch PSA_ERROR_GENERIC_ERROR
              else returnE ()) (\<lambda>_.
       etss_flash_fs_mblock_meta_update_finalize))))) Q E (s\<lparr>flash := d\<rparr>)"
      unfolding xx z using i(2)
      by (simp add: used_def wp_fun case_prod_unfold del: wp_if cong: if_cong split del: if_split)
  next
    fix e d assume "rF s i = Inl e \<or> \<not> rel" "dok d" "mem d = mm s"
    then show "E e (s\<lparr>flash := d\<rparr>)"
      using tabs_ok_rF [OF iD(1) i(1)] by (intro EH harmless_upd [OF harmless_refl [OF td(1)]]) auto
  qed
qed

end

end
