(* ===== verification/Flash_Fs_Write.thy ===== *)
theory Flash_Fs_Write
  imports Flash_Fs_Remove
begin

text \<open>
  Writing a file: the data goes to the scratch data block together with the rest of the logical
  block, then the new tables are prepared in the scratch metadata block and committed.
\<close>

section \<open>Searching the tables\<close>

lemma find_file_total:
  assumes "\<And>i. i \<in> set is \<Longrightarrow> f i = Inr (g i)"
  shows "(\<exists>i\<in>set is. find_file f P is = Inr i \<and> P (g i)) \<or>
    find_file f P is = Inl PSA_ERROR_DOES_NOT_EXIST \<and> (\<forall>i\<in>set is. \<not> P (g i))"
  using assms by (induction "is") auto

lemma find_free_total:
  assumes "\<And>i. i \<in> set is \<Longrightarrow> f i = Inr (g i)"
  shows "find_free f spare is = ETSS_METADATA_INVALID_INDEX \<or>
    (find_free f spare is \<in> set is \<and> \<not> used (g (find_free f spare is)))"
  using assms by (induction "is" arbitrary: spare) (auto simp: used_def)

lemma find_room_Inr:
  assumes "\<And>l. l \<in> set ls \<Longrightarrow> f l = Inr (g l)" and "find_room C f fid len fl ls = Inr (fm, bm)"
  shows "\<exists>l\<in>set ls. len \<le> bm_free_size (g l) \<and> bm = (g l)\<lparr>bm_free_size := bm_free_size (g l) - len\<rparr> \<and>
    fm = \<lparr>fm_lblock = l, fm_data_idx = block_size C - bm_free_size (g l), fm_cur_size = 0,
          fm_max_size = len, fm_flags = fl, fm_id = take ETSS_FILE_ID_SIZE fid\<rparr>"
  using assms by (induction ls) (auto split: if_splits)

lemma find_room_Inl:
  assumes "\<And>l. l \<in> set ls \<Longrightarrow> f l = Inr (g l)" and "find_room C f fid len fl ls = Inl e"
  shows "\<forall>l\<in>set ls. bm_free_size (g l) < len"
  using assms by (induction ls) (auto split: if_splits)

context fs_dev
begin

lemma lookup_cases:
  assumes "tabs_ok s"
  obtains (found) i where "unat i < mnf C" "P (tF s (unat i))" "find_file (rF s) P (file_idxs C) = Inr i"
  | (none) "find_file (rF s) P (file_idxs C) = Inl PSA_ERROR_DOES_NOT_EXIST" "\<And>i. i < mnf C \<Longrightarrow> \<not> P (tF s i)"
proof -
  have f: "\<And>i. i \<in> set (file_idxs C) \<Longrightarrow> rF s i = Inr (tF s (unat i))"
    using tabs_ok_rF [OF assms] by (simp add: file_idxs_unat)
  from find_file_total [where f = "rF s" and g = "\<lambda>i. tF s (unat i)" and P = P, OF f] show thesis
  proof
    assume "\<exists>i\<in>set (file_idxs C). find_file (rF s) P (file_idxs C) = Inr i \<and> P (tF s (unat i))"
    then show thesis using found by (auto simp: file_idxs_unat)
  next
    assume a: "find_file (rF s) P (file_idxs C) = Inl PSA_ERROR_DOES_NOT_EXIST \<and>
      (\<forall>i\<in>set (file_idxs C). \<not> P (tF s (unat i)))"
    have "\<not> P (tF s i)" if "i < mnf C" for i
    proof -
      have u: "unat (of_nat i :: u32) = i" using that mnf_less [of C] by (simp add: unat_of_nat_u32)
      then have "(of_nat i :: u32) \<in> set (file_idxs C)" using that by (simp add: file_idxs_unat)
      then show ?thesis using a u by metis
    qed
    then show thesis using none a by blast
  qed
qed

text \<open>What a successful reservation returns.\<close>

lemma reserve_Inr:
  assumes "tabs_ok s" and "reserve_result s fid spare len fl = Inr (j, fm, bm)"
  obtains l where "unat j < mnf C" "\<not> used (tF s (unat j))" "unat l < nad C" "j \<noteq> ETSS_METADATA_INVALID_INDEX"
    "len \<le> bm_free_size (tB s (unat l))"
    "bm = (tB s (unat l))\<lparr>bm_free_size := bm_free_size (tB s (unat l)) - len\<rparr>"
    "fm = \<lparr>fm_lblock = l, fm_data_idx = block_size C - bm_free_size (tB s (unat l)), fm_cur_size = 0,
          fm_max_size = len, fm_flags = fl, fm_id = take ETSS_FILE_ID_SIZE fid\<rparr>"
proof -
  have r: "find_room C (rB s) fid len fl (lblock_idxs C) = Inr (fm, bm)"
    "find_free (rF s) spare (file_idxs C) = j" "j \<noteq> ETSS_METADATA_INVALID_INDEX"
    using assms(2) by (auto simp: reserve_result_def Let_def split: sum.splits if_splits)
  have fB: "\<And>l. l \<in> set (lblock_idxs C) \<Longrightarrow> rB s l = Inr (tB s (unat l))"
    using tabs_ok_rB [OF assms(1)] by (simp add: lblock_idxs_unat cfg)
  have fF: "\<And>i. i \<in> set (file_idxs C) \<Longrightarrow> rF s i = Inr (tF s (unat i))"
    using tabs_ok_rF [OF assms(1)] by (simp add: file_idxs_unat)
  have "j \<in> set (file_idxs C) \<and> \<not> used (tF s (unat j))"
    using find_free_total [where f = "rF s" and g = "\<lambda>i. tF s (unat i)" and spare = spare, OF fF] r(2,3) by auto
  moreover obtain l where "l \<in> set (lblock_idxs C)" "len \<le> bm_free_size (tB s (unat l))"
    "bm = (tB s (unat l))\<lparr>bm_free_size := bm_free_size (tB s (unat l)) - len\<rparr>"
    "fm = \<lparr>fm_lblock = l, fm_data_idx = block_size C - bm_free_size (tB s (unat l)), fm_cur_size = 0,
          fm_max_size = len, fm_flags = fl, fm_id = take ETSS_FILE_ID_SIZE fid\<rparr>"
    using find_room_Inr [where f = "rB s" and g = "\<lambda>l. tB s (unat l)", OF fB r(1)] by auto
  ultimately show thesis using that r(3) by (auto simp: file_idxs_unat lblock_idxs_unat cfg)
qed

section \<open>Writing the data\<close>

abbreviation wregion :: "u32 \<Rightarrow> etss_file_meta_t \<Rightarrow> u32 \<Rightarrow> u32 \<Rightarrow> nat \<Rightarrow> nat set" where
  "wregion start x off len e \<equiv> {unat start..<unat (fm_data_idx x) + unat off + unat len} \<union>
     {unat (fm_data_idx x) + unat (fm_max_size x)..<e}"

lemma write_moves_wp:
  assumes s: "sok t" and ids: "sid < ucast (num_blocks C)" "phy < ucast (num_blocks C)" "sid \<noteq> phy"
    and le: "unat start \<le> unat (fm_data_idx x)" "unat off + unat len \<le> unat (fm_max_size x)"
      "unat (fm_data_idx x) + unat (fm_max_size x) \<le> unat (block_size C) - unat free"
      "unat free \<le> unat (block_size C)"
    and data: "unat len \<le> length data"
    and er: "erased_on (mm t) sid (wregion start x off len (unat (block_size C) - unat free))"
    and T1: "\<And>i. i < unat len \<Longrightarrow> T (unat (fm_data_idx x) + unat off + i) = data ! i"
    and T2: "\<And>p. p \<in> wregion start x off len (unat (block_size C) - unat free) \<Longrightarrow>
      \<not> (unat (fm_data_idx x) + unat off \<le> p \<and> p < unat (fm_data_idx x) + unat off + unat len) \<Longrightarrow> T p = mm t phy ! p"
    and Q: "\<And>d. dok d \<Longrightarrow> mem d = fillM (mm t) sid (wregion start x off len (unat (block_size C) - unat free)) T \<Longrightarrow>
      Q () (t\<lparr>flash := d\<rparr>)"
    and E: "\<And>e d. \<not> rel \<Longrightarrow> dok d \<Longrightarrow> (\<And>b. b \<noteq> sid \<Longrightarrow> mem d b = mm t b) \<Longrightarrow> E e (t\<lparr>flash := d\<rparr>)"
  shows "wp (etss_flash_fs_block_to_block_move sid start phy start (fm_data_idx x + off - start))
    (\<lambda>_. wp (flash_write sid data (fm_data_idx x + off) len) (\<lambda>_ s1.
      wp (etss_flash_fs_block_to_block_move sid (fm_data_idx x + fm_max_size x) phy (fm_data_idx x + fm_max_size x)
        (block_size (ctx_cfg s1) - free - (fm_data_idx x + fm_max_size x))) Q E s1) E) E t"
proof -
  let ?i = "unat (fm_data_idx x)" and ?m = "unat (fm_max_size x)" and ?o = "unat off" and ?n = "unat len"
  let ?e = "unat (block_size C) - unat free"
  let ?A = "{unat start..<?i + ?o}" and ?W = "{?i + ?o..<?i + ?o + ?n}" and ?Z = "{?i + ?m..<?e}"
  have b32: "unat (block_size C) < 4294967296" by (rule unat_u32_less)
  have u: "unat (fm_data_idx x + off) = ?i + ?o" "unat (fm_data_idx x + fm_max_size x) = ?i + ?m"
    using le b32 by (simp_all add: unat_add_u32)
  have ul: "unat (fm_data_idx x + off - start) = ?i + ?o - unat start" using u le by (simp add: unat_sub_u32)
  have "unat (block_size C - free) = ?e" using le by (simp add: unat_sub_u32)
  then have ue: "unat (block_size C - free - (fm_data_idx x + fm_max_size x)) = ?e - (?i + ?m)"
    using u le by (simp add: unat_sub_u32)
  have lens: "length (mm t sid) = unat (block_size C)" using s ids by (simp add: mm_length)
  have un: "?A \<union> ?W = {unat start..<?i + ?o + ?n}" using le by auto
  show ?thesis
  proof (rule move_wp [where T = T])
    show "T (unat start + i) = mm t phy ! (unat start + i)" if "i < unat (fm_data_idx x + off - start)" for i
      by (rule T2) (use that ul in auto)
  next
    fix d assume "dok d" "mem d = fillM (mm t) sid {unat start..<unat start + unat (fm_data_idx x + off - start)} T"
    then have d: "dok d" "mem d = fillM (mm t) sid ?A T" using ul le by simp_all
    let ?t = "t\<lparr>flash := d\<rparr>"
    show "wp (flash_write sid data (fm_data_idx x + off) len) (\<lambda>_ s1.
      wp (etss_flash_fs_block_to_block_move sid (fm_data_idx x + fm_max_size x) phy (fm_data_idx x + fm_max_size x)
        (block_size (ctx_cfg s1) - free - (fm_data_idx x + fm_max_size x))) Q E s1) E ?t"
    proof (rule flash_write_wp [where T = T])
      show "mm ?t sid ! p = erase_val C" if "unat (fm_data_idx x + off) \<le> p" "p < unat (fm_data_idx x + off) + ?n" for p
        using that d u er le lens by (auto simp: nth_fillM erased_on_def)
      fix d2 assume "dok d2" "mem d2 = fillM (mm ?t) sid {unat (fm_data_idx x + off)..<unat (fm_data_idx x + off) + ?n} T"
      then have d2: "dok d2" "mem d2 = fillM (mm t) sid (?A \<union> ?W) T" using d u by simp_all
      have cc: "ctx_cfg (?t\<lparr>flash := d2\<rparr>) = C" using s by simp
      show "wp (etss_flash_fs_block_to_block_move sid (fm_data_idx x + fm_max_size x) phy (fm_data_idx x + fm_max_size x)
        (block_size (ctx_cfg (?t\<lparr>flash := d2\<rparr>)) - free - (fm_data_idx x + fm_max_size x))) Q E (?t\<lparr>flash := d2\<rparr>)"
        unfolding cc
      proof (rule move_wp [where T = T])
        show "mm (?t\<lparr>flash := d2\<rparr>) sid ! p = erase_val C"
          if "unat (fm_data_idx x + fm_max_size x) \<le> p"
            "p < unat (fm_data_idx x + fm_max_size x) + unat (block_size C - free - (fm_data_idx x + fm_max_size x))" for p
          using that d2 u ue er le lens by (auto simp: nth_fillM erased_on_def)
        fix d3 assume d3: "dok d3" "mem d3 = fillM (mm (?t\<lparr>flash := d2\<rparr>)) sid
          {unat (fm_data_idx x + fm_max_size x)..<unat (fm_data_idx x + fm_max_size x) +
            unat (block_size C - free - (fm_data_idx x + fm_max_size x))} T"
        have "Q () (t\<lparr>flash := d3\<rparr>)"
          by (rule Q) (use d3 d2 u ue le un in simp_all)
        then show "Q () (?t\<lparr>flash := d2\<rparr>\<lparr>flash := d3\<rparr>)" by simp
      next
        fix e d3 assume "\<not> rel" "dok d3" "\<And>b. b \<noteq> sid \<Longrightarrow> mem d3 b = mm (?t\<lparr>flash := d2\<rparr>) b"
        then have "E e (t\<lparr>flash := d3\<rparr>)" by (intro E) (use d2 in auto)
        then show "E e (?t\<lparr>flash := d2\<rparr>\<lparr>flash := d3\<rparr>)" by simp
      qed (use s ids d2 u ue le T2 in auto)
    next
      fix e d2 assume "\<not> rel" "dok d2" "\<And>b. b \<noteq> sid \<Longrightarrow> mem d2 b = mm ?t b"
      then have "E e (t\<lparr>flash := d2\<rparr>)" by (intro E) (use d in auto)
      then show "E e (?t\<lparr>flash := d2\<rparr>)" by simp
    qed (use s ids d u le data T1 in auto)
  qed (use s ids u ul le er E in \<open>auto simp: erased_on_def\<close>)
qed

text \<open>The checks on offset and length; the length programmed is rounded up to the program unit.\<close>

definition plen :: "u32 \<Rightarrow> u32" where
  "plen n = ETSS_UTILS_ALIGN n (ucast (program_unit C))"

definition args_ok :: "etss_file_meta_t \<Rightarrow> u32 \<Rightarrow> u32 \<Rightarrow> bool" where
  "args_ok x off n \<longleftrightarrow> ETSS_UTILS_IS_ALIGNED off (ucast (program_unit C)) \<and>
     unat off \<le> unat (fm_cur_size x) \<and> unat off + unat (plen n) \<le> unat (fm_max_size x)"

definition grown :: "etss_file_meta_t \<Rightarrow> u32 \<Rightarrow> u32 \<Rightarrow> etss_file_meta_t" where
  "grown x off n = (if off + n > fm_cur_size x then x\<lparr>fm_cur_size := off + n\<rparr> else x)"

lemma grown_simps [simp]:
  "fm_lblock (grown x off n) = fm_lblock x" "fm_data_idx (grown x off n) = fm_data_idx x"
  "fm_max_size (grown x off n) = fm_max_size x" "fm_id (grown x off n) = fm_id x"
  "fm_flags (grown x off n) = fm_flags x" "used (grown x off n) = used x"
  by (simp_all add: grown_def used_def)

lemma write_data_unfold:
  "wp (file_write_data x bm n off data) Q E s =
   (if n = 0 then Q (x, bm) s
    else if \<not> ETSS_UTILS_IS_ALIGNED off (ucast (program_unit (ctx_cfg s))) \<or> off > fm_cur_size x \<or>
       etss_utils_check_contained_in (fm_max_size x) off (ETSS_UTILS_ALIGN n (ucast (program_unit (ctx_cfg s)))) \<noteq> Inr ()
    then E PSA_ERROR_GENERIC_ERROR s
    else wp (etss_flash_fs_dblock_write_file bm x off (ETSS_UTILS_ALIGN n (ucast (program_unit (ctx_cfg s)))) data)
      (\<lambda>_ s'. wp (etss_flash_fs_mblock_set_data_scratch (bm_phy_id bm) (fm_lblock x))
         (\<lambda>_. Q (grown x off n, bm\<lparr>bm_phy_id := etss_flash_fs_mblock_cur_data_scratch_id s' (fm_lblock x)\<rparr>)) E s')
      (\<lambda>_. E PSA_ERROR_GENERIC_ERROR) s)"
proof -
  have "(if off + n > fm_cur_size x then x\<lparr>fm_cur_size := off + n\<rparr> else x) = grown x off n" by (simp add: grown_def)
  then show ?thesis
    by (auto simp: file_write_data_def etss_flash_fs_file_write_aligned_data_def Let_def wp_fun)
qed

lemma args_ok_checks:
  "\<not> (\<not> ETSS_UTILS_IS_ALIGNED off (ucast (program_unit C)) \<or> off > fm_cur_size x \<or>
     etss_utils_check_contained_in (fm_max_size x) off (ETSS_UTILS_ALIGN n (ucast (program_unit C))) \<noteq> Inr ()) \<longleftrightarrow>
   args_ok x off n"
  by (auto simp: args_ok_def plen_def check_contained_in_Inr_iff word_less_nat_alt not_less)

lemma dblock_write_unfold:
  "wp (etss_flash_fs_dblock_write_file bm x off len data) Q E s =
   (let sid = etss_flash_fs_mblock_cur_data_scratch_id s (fm_lblock x) in
    wp (etss_flash_fs_block_to_block_move sid (bm_data_start bm) (bm_phy_id bm) (bm_data_start bm)
      (fm_data_idx x + off - bm_data_start bm))
    (\<lambda>_. wp (flash_write sid data (fm_data_idx x + off) len) (\<lambda>_ s1.
      wp (etss_flash_fs_block_to_block_move sid (fm_data_idx x + fm_max_size x) (bm_phy_id bm) (fm_data_idx x + fm_max_size x)
        (block_size (ctx_cfg s1) - bm_free_size bm - (fm_data_idx x + fm_max_size x)))
        (\<lambda>_. wp (if fm_lblock x \<noteq> ETSS_LOGICAL_DBLOCK0 then flash_flush sid else returnE ()) Q E) E s1) E) E s)"
  by (simp add: etss_flash_fs_dblock_write_file_def Let_def wp_fun del: wp_if cong: if_cong split del: if_split)

lemma write_data0_wp:
  assumes st: "stage s T R t" and sp: "\<not> rel \<Longrightarrow> spoilt s E" and l0: "fm_lblock x = 0" and n: "n \<noteq> 0"
    and ok: "args_ok x off n" and data: "unat (plen n) \<le> length data"
    and phy: "bm_phy_id bm = active_metablock s"
    and le: "unat (bm_data_start bm) \<le> unat (fm_data_idx x)"
      "unat (fm_data_idx x) + unat (fm_max_size x) \<le> unat (block_size C) - unat (bm_free_size bm)"
      "unat (bm_free_size bm) \<le> unat (block_size C)"
    and dj: "wregion (bm_data_start bm) x off (plen n) (reg_end C bm) \<inter> R = {}"
    and T1: "\<And>i. i < unat (plen n) \<Longrightarrow> T (unat (fm_data_idx x) + unat off + i) = data ! i"
    and T2: "\<And>p. p \<in> wregion (bm_data_start bm) x off (plen n) (reg_end C bm) \<Longrightarrow>
      \<not> (unat (fm_data_idx x) + unat off \<le> p \<and> p < unat (fm_data_idx x) + unat off + unat (plen n)) \<Longrightarrow>
      T p = mm s (active_metablock s) ! p"
    and Q: "\<And>t'. stage s T (R \<union> wregion (bm_data_start bm) x off (plen n) (reg_end C bm)) t' \<Longrightarrow>
      Q (grown x off n, bm\<lparr>bm_phy_id := scratch_metablock s\<rparr>) t'"
  shows "wp (file_write_data x bm n off data) Q E t"
proof -
  let ?X = "wregion (bm_data_start bm) x off (plen n) (reg_end C bm)" and ?scr = "scratch_metablock s"
  note sD = stageD [OF st]
  have cc: "ctx_cfg t = C" using sD(2) by simp
  have z: "ETSS_LOGICAL_DBLOCK0 = 0" by (simp add: mblock_consts)
  have sid: "etss_flash_fs_mblock_cur_data_scratch_id u 0 = scratch_metablock u" for u
    by (simp add: etss_flash_fs_mblock_cur_data_scratch_id_def mblock_consts)
  have mo: "unat off + unat (plen n) \<le> unat (fm_max_size x)" using ok by (simp add: args_ok_def)
  have sub: "?X \<subseteq> whole" using le mo by (auto simp: reg_end_def)
  have mv: "wp (etss_flash_fs_block_to_block_move ?scr (bm_data_start bm) (bm_phy_id bm) (bm_data_start bm)
      (fm_data_idx x + off - bm_data_start bm))
    (\<lambda>_. wp (flash_write ?scr data (fm_data_idx x + off) (plen n)) (\<lambda>_ s1.
      wp (etss_flash_fs_block_to_block_move ?scr (fm_data_idx x + fm_max_size x) (bm_phy_id bm) (fm_data_idx x + fm_max_size x)
        (block_size (ctx_cfg s1) - bm_free_size bm - (fm_data_idx x + fm_max_size x)))
      (\<lambda>_ s'. Q (grown x off n, bm\<lparr>bm_phy_id := scratch_metablock s'\<rparr>) s') (\<lambda>_. E PSA_ERROR_GENERIC_ERROR) s1)
      (\<lambda>_. E PSA_ERROR_GENERIC_ERROR)) (\<lambda>_. E PSA_ERROR_GENERIC_ERROR) t"
  proof (rule write_moves_wp [where T = T])
    show "erased_on (mm t) ?scr (wregion (bm_data_start bm) x off (plen n) (unat (block_size C) - unat (bm_free_size bm)))"
      using stage_erased [OF st dj sub] sD(4) by (simp add: reg_end_def)
    fix d assume d: "dok d" "mem d = fillM (mm t) ?scr (wregion (bm_data_start bm) x off (plen n)
      (unat (block_size C) - unat (bm_free_size bm))) T"
    have "stage s T (R \<union> ?X) (t\<lparr>flash := d\<rparr>)"
      by (rule stage_fill [OF st]) (use d sD(4) in \<open>simp_all add: reg_end_def\<close>)
    from Q [OF this] show "Q (grown x off n, bm\<lparr>bm_phy_id := scratch_metablock (t\<lparr>flash := d\<rparr>)\<rparr>) (t\<lparr>flash := d\<rparr>)"
      using sD(4) by simp
  next
    fix d assume "\<not> rel" "dok d" "\<And>b. b \<noteq> ?scr \<Longrightarrow> mem d b = mm t b"
    then show "E PSA_ERROR_GENERIC_ERROR (t\<lparr>flash := d\<rparr>)"
      using stage_spoilt [OF st sp] sD(4) by simp
  qed (use sD phy le mo data T1 T2 in \<open>auto simp: reg_end_def\<close>)
  have "wp (etss_flash_fs_dblock_write_file bm x off (plen n) data)
      (\<lambda>_ s'. wp (etss_flash_fs_mblock_set_data_scratch (bm_phy_id bm) (fm_lblock x))
         (\<lambda>_. Q (grown x off n, bm\<lparr>bm_phy_id := etss_flash_fs_mblock_cur_data_scratch_id s' (fm_lblock x)\<rparr>)) E s')
      (\<lambda>_. E PSA_ERROR_GENERIC_ERROR) t"
    unfolding dblock_write_unfold Let_def l0 sid z set_data_scratch_wp
    using mv sD(4) by (simp add: wp_fun)
  then show ?thesis
    unfolding write_data_unfold cc using n ok args_ok_checks [of off x n] by (simp add: plen_def)
qed

lemma write_dataL_wp:
  assumes st: "stage s T R t" and EH: "\<And>e s'. \<not> rel \<Longrightarrow> harmless s s' \<Longrightarrow> E e s'"
    and l0: "fm_lblock x \<noteq> 0" and lx: "unat (fm_lblock x) < nad C" and n: "n \<noteq> 0"
    and ok: "args_ok x off n" and data: "unat (plen n) \<le> length data"
    and ids: "bm_phy_id bm < ucast (num_blocks C)" "bm_phy_id bm \<noteq> scratch_metablock s"
      "bm_phy_id bm \<noteq> sdb s" "sdb s < ucast (num_blocks C)" "sdb s \<noteq> scratch_metablock s"
    and le: "unat (bm_data_start bm) \<le> unat (fm_data_idx x)"
      "unat (fm_data_idx x) + unat (fm_max_size x) \<le> unat (block_size C) - unat (bm_free_size bm)"
      "unat (bm_free_size bm) \<le> unat (block_size C)"
    and er: "erased_on (mm s) (sdb s) whole"
    and T1: "\<And>i. i < unat (plen n) \<Longrightarrow> Td (unat (fm_data_idx x) + unat off + i) = data ! i"
    and T2: "\<And>p. p \<in> wregion (bm_data_start bm) x off (plen n) (reg_end C bm) \<Longrightarrow>
      \<not> (unat (fm_data_idx x) + unat off \<le> p \<and> p < unat (fm_data_idx x) + unat off + unat (plen n)) \<Longrightarrow>
      Td p = mm s (bm_phy_id bm) ! p"
    and Q: "\<And>u. stage u T R u \<Longrightarrow> harmless s u \<Longrightarrow>
      meta_block_header u = (meta_block_header s)\<lparr>hdr_scratch_dblock := bm_phy_id bm\<rparr> \<Longrightarrow>
      mm u (sdb s) = fillM (mm s) (sdb s) (wregion (bm_data_start bm) x off (plen n) (reg_end C bm)) Td (sdb s) \<Longrightarrow>
      Q (grown x off n, bm\<lparr>bm_phy_id := sdb s\<rparr>) u"
  shows "wp (file_write_data x bm n off data) Q E t"
proof -
  let ?X = "wregion (bm_data_start bm) x off (plen n) (reg_end C bm)" and ?sd = "sdb s"
  note sD = stageD [OF st]
  have cc: "ctx_cfg t = C" using sD(2) by simp
  have z: "ETSS_LOGICAL_DBLOCK0 = 0" by (simp add: mblock_consts)
  have sid: "etss_flash_fs_mblock_cur_data_scratch_id u (fm_lblock x) = sdb u" for u
    using l0 by (simp add: etss_flash_fs_mblock_cur_data_scratch_id_def mblock_consts)
  have mo: "unat off + unat (plen n) \<le> unat (fm_max_size x)" using ok by (simp add: args_ok_def)
  have hs: "harmless s t" by (rule stage_harmless [OF st])
  have nb: "num_blocks C \<noteq> 2" by (rule more_blocks [OF l0 lx])
  let ?h = "\<lambda>u. u\<lparr>meta_block_header := (meta_block_header u)\<lparr>hdr_scratch_dblock := bm_phy_id bm\<rparr>\<rparr>"
  have mv: "wp (etss_flash_fs_block_to_block_move ?sd (bm_data_start bm) (bm_phy_id bm) (bm_data_start bm)
      (fm_data_idx x + off - bm_data_start bm))
    (\<lambda>_. wp (flash_write ?sd data (fm_data_idx x + off) (plen n)) (\<lambda>_ s1.
      wp (etss_flash_fs_block_to_block_move ?sd (fm_data_idx x + fm_max_size x) (bm_phy_id bm) (fm_data_idx x + fm_max_size x)
        (block_size (ctx_cfg s1) - bm_free_size bm - (fm_data_idx x + fm_max_size x)))
      (\<lambda>_. wp (flash_flush ?sd) (\<lambda>_ s'. Q (grown x off n, bm\<lparr>bm_phy_id := sdb s'\<rparr>) (?h s'))
        (\<lambda>_. E PSA_ERROR_GENERIC_ERROR)) (\<lambda>_. E PSA_ERROR_GENERIC_ERROR) s1)
      (\<lambda>_. E PSA_ERROR_GENERIC_ERROR)) (\<lambda>_. E PSA_ERROR_GENERIC_ERROR) t"
  proof (rule write_moves_wp [where T = Td])
    have m1: "mm t ?sd = mm s ?sd" "mm t (bm_phy_id bm) = mm s (bm_phy_id bm)" using sD(6) ids by simp_all
    show "erased_on (mm t) ?sd (wregion (bm_data_start bm) x off (plen n) (unat (block_size C) - unat (bm_free_size bm)))"
      using er m1 le mo by (auto simp: erased_on_def)
    show "Td p = mm t (bm_phy_id bm) ! p"
      if "p \<in> wregion (bm_data_start bm) x off (plen n) (unat (block_size C) - unat (bm_free_size bm))"
        "\<not> (unat (fm_data_idx x) + unat off \<le> p \<and> p < unat (fm_data_idx x) + unat off + unat (plen n))" for p
      using T2 [of p] that m1 by (simp add: reg_end_def)
    fix d assume d: "dok d" "mem d = fillM (mm t) ?sd (wregion (bm_data_start bm) x off (plen n)
      (unat (block_size C) - unat (bm_free_size bm))) Td"
    have ht: "harmless s (t\<lparr>flash := d\<rparr>)" by (rule harmless_upd [OF hs]) (use d nb in simp_all)
    show "wp (flash_flush ?sd) (\<lambda>_ s'. Q (grown x off n, bm\<lparr>bm_phy_id := sdb s'\<rparr>) (?h s'))
        (\<lambda>_. E PSA_ERROR_GENERIC_ERROR) (t\<lparr>flash := d\<rparr>)"
    proof (rule flash_flush_wp)
      fix d2 assume d2: "dok d2" "mem d2 = mm (t\<lparr>flash := d\<rparr>)"
      let ?t = "t\<lparr>flash := d2\<rparr>"
      have "stage ?t T R ?t" by (rule stage_other [OF st]) (use d2 d ids in simp_all)
      then have "stage (?h ?t) T R (?h ?t)" by (rule stage_hdr)
      moreover have "harmless s (?h ?t)"
        by (rule harmless_hdr, rule harmless_upd [OF hs]) (use d d2 nb in simp_all)
      moreover have "mm (?h ?t) ?sd = fillM (mm s) ?sd ?X Td ?sd"
        using d d2 m1 by (simp add: fillM_def reg_end_def)
      ultimately have "Q (grown x off n, bm\<lparr>bm_phy_id := ?sd\<rparr>) (?h ?t)"
        using sD(5) by (intro Q) simp_all
      then show "Q (grown x off n, bm\<lparr>bm_phy_id := sdb (t\<lparr>flash := d\<rparr>\<lparr>flash := d2\<rparr>)\<rparr>) (?h (t\<lparr>flash := d\<rparr>\<lparr>flash := d2\<rparr>))"
        using sD(5) by simp
    next
      fix d2 assume "\<not> rel" "dok d2" "mem d2 = mm (t\<lparr>flash := d\<rparr>)"
      then show "E PSA_ERROR_GENERIC_ERROR (t\<lparr>flash := d\<rparr>\<lparr>flash := d2\<rparr>)"
        by (intro EH harmless_upd [OF ht]) simp_all
    qed (use sD ids d in simp_all)
  next
    fix d assume "\<not> rel" "dok d" "\<And>b. b \<noteq> ?sd \<Longrightarrow> mem d b = mm t b"
    then show "E PSA_ERROR_GENERIC_ERROR (t\<lparr>flash := d\<rparr>)" using nb by (intro EH harmless_upd [OF hs]) auto
  qed (use sD ids le mo data T1 in \<open>auto simp: reg_end_def\<close>)
  have "wp (etss_flash_fs_dblock_write_file bm x off (plen n) data)
      (\<lambda>_ s'. wp (etss_flash_fs_mblock_set_data_scratch (bm_phy_id bm) (fm_lblock x))
         (\<lambda>_. Q (grown x off n, bm\<lparr>bm_phy_id := etss_flash_fs_mblock_cur_data_scratch_id s' (fm_lblock x)\<rparr>)) E s')
      (\<lambda>_. E PSA_ERROR_GENERIC_ERROR) t"
    unfolding dblock_write_unfold Let_def sid z set_data_scratch_wp(2) [OF l0]
    using mv sD(5) l0 by (simp del: wp_if)
  then show ?thesis
    unfolding write_data_unfold cc using n ok args_ok_checks [of off x n] by (simp add: plen_def)
qed

section \<open>Committing the new tables\<close>

lemma file_table_bounds:
  assumes "foff C i \<le> p" and "p < foff C j"
  shows "i \<le> (p - foff C 0) div 32" "(p - foff C 0) div 32 < j"
  using assms by (auto simp: foff_def less_eq_div_iff_mult_less_eq div_less_iff_less_mult)

lemma stage_cp_table:
  assumes st: "stage u (mb_image C B F D) R t" and sp: "\<not> rel \<Longrightarrow> spoilt u E"
    and ij: "unat i \<le> unat j" "unat j \<le> mnf C"
    and dj: "{foff C (unat i)..<foff C (unat j)} \<inter> R = {}"
    and F: "\<And>k. unat i \<le> k \<Longrightarrow> k < unat j \<Longrightarrow> F k = tF u k"
    and Q: "\<And>t'. stage u (mb_image C B F D) (R \<union> {foff C (unat i)..<foff C (unat j)}) t' \<Longrightarrow> Q () t'"
  shows "wp (etss_flash_fs_mblock_cp_file_meta i j) Q E t"
proof (rule stage_cp_file_meta [OF st sp ij dj])
  fix p assume p: "foff C (unat i) \<le> p" "p < foff C (unat j)"
  have "length (mm u (active_metablock u)) = unat (block_size C)" using stageD(1) [OF st] by (simp add: mm_length)
  moreover have "foff C 0 \<le> p" using p(1) foff_ge_0 [of C "unat i"] by simp
  moreover have "p < foff C (mnf C)" using p(2) ij(2) by (simp add: foff_def)
  moreover have "F ((p - foff C 0) div 32) = tF u ((p - foff C 0) div 32)" using file_table_bounds [OF p] by (rule F)
  ultimately show "mb_image C B F D p = mm u (active_metablock u) ! p"
    by (intro image_fmv [where m = "mm u", OF cfg])
qed (use Q in auto)

lemma invalid_idx: "unat (ETSS_METADATA_INVALID_INDEX) = 65535"
  by (simp add: ETSS_METADATA_INVALID_INDEX_def)

lemma write_commit_wp:
  fixes old new :: u32
  defines "two \<equiv> old \<noteq> ETSS_METADATA_INVALID_INDEX \<and> old \<noteq> new"
  assumes st: "stage u (mb_image C B F D) R t" and hu: "harmless s u"
    and EH: "\<And>e s'. \<not> rel \<Longrightarrow> harmless s s' \<Longrightarrow> E e s'"
    and l: "unat (fm_lblock x) < nad C" and new: "unat new < mnf C" and xid: "length (fm_id x) = 12"
    and old: "two \<Longrightarrow> unat old < mnf C"
    and R: "R \<inter> {0..<foff C 0} = {}" "R \<inter> {foff C 0..<foff C (mnf C)} = (if two then fregion old else {})"
    and mig: "mig \<longleftrightarrow> fm_lblock x \<noteq> 0 \<or> n = 0"
      "mig \<Longrightarrow> R \<inter> {foff C (mnf C)..<reg_end C (tB u 0)} = {}"
      "\<And>p. mig \<Longrightarrow> foff C (mnf C) \<le> p \<Longrightarrow> p < reg_end C (tB u 0) \<Longrightarrow> D p = mm u (active_metablock u) ! p"
    and b0: "rB u 0 = Inr (tB u 0)" "bm_phy_id (tB u 0) = active_metablock u"
    and B: "\<And>k. k < nad C \<Longrightarrow> B k = upd_blocks (tB u) (unat (fm_lblock x)) bm (scratch_metablock u) k"
    and F: "F (unat new) = x" "\<And>k. k < mnf C \<Longrightarrow> k \<noteq> unat new \<Longrightarrow> \<not> (two \<and> k = unat old) \<Longrightarrow> F k = tF u k"
    and ids: "\<And>i. i < mnf C \<Longrightarrow> length (fm_id (F i)) = 12"
    and ver: "hdr_fs_version (meta_block_header u) = ETSS_SUPPORTED_VERSION"
    and sd: "num_blocks C \<noteq> 2 \<Longrightarrow> sdb u \<notin> {0, 1} \<and> sdb u < ucast (num_blocks C)"
    and R': "R' = R \<union> {8..<foff C (mnf C)} \<union> (if mig then {foff C (mnf C)..<reg_end C (tB u 0)} else {})"
    and Q: "\<And>s'. swapped u B F D R' s' \<Longrightarrow> hdr_ok s' \<Longrightarrow> scratch_blank s' \<Longrightarrow>
      wp (if two then etss_flash_fs_delete_idx old else returnE ()) Q E s'"
    and E2: "\<And>e s'. \<not> rel \<Longrightarrow> swapped u B F D R' s' \<Longrightarrow> E e s'"
  shows "wp (file_write_commit old new x bm n) Q E t"
proof -
  let ?T = "mb_image C B F D"
  let ?gen = "\<lambda>_ :: psa_error. E PSA_ERROR_GENERIC_ERROR"
  have z: "ETSS_LOGICAL_DBLOCK0 = 0" by (simp add: mblock_consts)
  have m16: "mnf C < 65536" by (rule mnf_less)
  have sp: "\<not> rel \<Longrightarrow> spoilt u ?gen" by (rule harmless_spoilt [OF hu]) (rule EH)
  define lo where "lo = ETSS_UTILS_MIN new old"
  define hi where "hi = (if two then ETSS_UTILS_MAX new old else lo)"
  have lo: "unat lo = (if two then min (unat new) (unat old) else unat new)"
    using new m16 by (auto simp: lo_def ETSS_UTILS_MIN_eq two_def invalid_idx)
  have hi: "unat hi = (if two then max (unat new) (unat old) else unat new)"
    using lo by (auto simp: hi_def ETSS_UTILS_MAX_eq)
  have hm: "unat hi < mnf C" "unat lo < mnf C" using new old lo hi by auto
  have s1: "unat (lo + 1) = unat lo + 1" "unat (hi + 1) = unat hi + 1"
    using hm m16 by (simp_all add: unat_add_u32)
  have on: "two \<Longrightarrow> unat new \<noteq> unat old" by (auto simp: two_def word_unat_eq_iff)
  let ?N = "fregion new"
  let ?R1 = "R \<union> {8..<foff C 0}" and ?R2 = "R \<union> {8..<foff C 0} \<union> ?N"
  let ?R3 = "?R2 \<union> {foff C (unat (0::u32))..<foff C (unat lo)}"
  let ?R4 = "?R3 \<union> (if two then {foff C (unat (lo + 1))..<foff C (unat hi)} else {})"
  let ?R5 = "?R4 \<union> {foff C (unat (hi + 1))..<foff C (mnf C)}"
  have Rf: "p \<in> R \<Longrightarrow> foff C 0 \<le> p \<Longrightarrow> p < foff C (mnf C) \<Longrightarrow> two \<and> p \<in> fregion old" for p
    using R(2) by (auto split: if_splits)
  have oldR: "two \<Longrightarrow> fregion old \<subseteq> R" using R(2) by auto
  have nm: "foff C (unat new) + 32 \<le> foff C (mnf C)" using foff_mono [OF new] .
  have Fk: "F k = tF u k" if "k < mnf C" "k < unat lo \<or> unat lo < k \<and> k < unat hi \<or> unat hi < k" for k
    using that lo hi by (intro F(2)) (auto simp: max_def min_def split: if_splits)
  have sl: "\<forall>p. foff C a \<le> p \<and> p < foff C b \<longrightarrow> p \<notin> R" if "b \<le> mnf C" "two \<Longrightarrow> unat old < a \<or> b \<le> unat old" for a b
  proof -
    have "\<not> (p \<in> R \<and> foff C a \<le> p \<and> p < foff C b)" for p
      using Rf [of p] that foff_ge_0 [of C a] by (auto simp: foff_def)
    then show ?thesis by auto
  qed
  have R5: "?R5 = R \<union> {8..<foff C (mnf C)}"
  proof -
    have "{foff C 0..<foff C (mnf C)} \<subseteq> ?R5"
    proof
      fix p assume p: "p \<in> {foff C 0..<foff C (mnf C)}"
      have po: "two \<Longrightarrow> p \<notin> R \<Longrightarrow> p < foff C (unat old) \<or> foff C (unat old) + 32 \<le> p"
        using oldR by (meson atLeastLessThan_iff not_le subsetD)
      show "p \<in> ?R5"
        using p po lo hi s1 on
        by (cases two) (auto simp: foff_def min_def max_def split: if_splits)
    qed
    moreover have "?R5 \<subseteq> R \<union> {8..<foff C (mnf C)}"
      using nm hm s1 lo hi by (auto simp: foff_def)
    moreover have "R \<union> {8..<foff C 0} \<subseteq> ?R5" by blast
    moreover have "{8..<foff C (mnf C)} = {8..<foff C 0} \<union> {foff C 0..<foff C (mnf C)}"
      using foff_ge_0 [of C "mnf C"] by (auto simp: foff_def)
    ultimately show ?thesis by blast
  qed
  have fin: "wp etss_flash_fs_mblock_meta_update_finalize
      (\<lambda>_. wp (if two then etss_flash_fs_delete_idx old else returnE ()) Q E) E t'"
    if t': "stage u ?T R' t'" for t'
  proof (rule commit_stage_wp [OF t' hu _ _ ids ver sd])
    show "{8..<foff C (mnf C)} \<subseteq> R'" by (auto simp: R')
    show "R' \<inter> {0..<8} = {}" using R(1) by (auto simp: R' foff_def)
  qed (use Q EH E2 in auto)
  have mg: "wp (if fm_lblock x \<noteq> 0 \<or> n = 0
            then orError etss_flash_fs_mblock_migrate_lb0_data_to_scratch PSA_ERROR_GENERIC_ERROR
            else returnE ()) (\<lambda>_. wp etss_flash_fs_mblock_meta_update_finalize
      (\<lambda>_. wp (if two then etss_flash_fs_delete_idx old else returnE ()) Q E) E) E t'"
    if t': "stage u ?T ?R5 t'" for t'
  proof (cases mig)
    case True
    have "wp etss_flash_fs_mblock_migrate_lb0_data_to_scratch (\<lambda>_. wp etss_flash_fs_mblock_meta_update_finalize
      (\<lambda>_. wp (if two then etss_flash_fs_delete_idx old else returnE ()) Q E) E) ?gen t'"
    proof (rule stage_migrate [OF t' [unfolded R5] sp b0])
      show "{foff C (mnf C)..<reg_end C (tB u 0)} \<inter> (R \<union> {8..<foff C (mnf C)}) = {}" using mig(2) [OF True] by auto
      show "?T p = mm u (active_metablock u) ! p" if "foff C (mnf C) \<le> p" "p < reg_end C (tB u 0)" for p
        using mig(3) [OF True that] that by (simp add: image_data)
      fix t2 assume "stage u ?T (R \<union> {8..<foff C (mnf C)} \<union> {foff C (mnf C)..<reg_end C (tB u 0)}) t2"
      then show "wp etss_flash_fs_mblock_meta_update_finalize
      (\<lambda>_. wp (if two then etss_flash_fs_delete_idx old else returnE ()) Q E) E t2"
        using fin [of t2] True by (simp add: R')
    qed
    then show ?thesis using True mig(1) by simp
  next
    case False
    then show ?thesis using fin [of t'] t' [unfolded R5] mig(1) by (simp add: R')
  qed
  have c5: "wp (withS (\<lambda>s. orError (etss_flash_fs_mblock_cp_file_meta (hi + 1)
       (ucast (max_num_files (ctx_cfg s)))) PSA_ERROR_GENERIC_ERROR)) (\<lambda>_.
      wp (if fm_lblock x \<noteq> 0 \<or> n = 0
            then orError etss_flash_fs_mblock_migrate_lb0_data_to_scratch PSA_ERROR_GENERIC_ERROR
            else returnE ()) (\<lambda>_. wp etss_flash_fs_mblock_meta_update_finalize
      (\<lambda>_. wp (if two then etss_flash_fs_delete_idx old else returnE ()) Q E) E) E) E t'"
    if t': "stage u ?T ?R4 t'" for t'
  proof -
    have mx: "unat (ucast (max_num_files C) :: u32) = mnf C" by (simp add: mnf_def)
    have "wp (etss_flash_fs_mblock_cp_file_meta (hi + 1) (ucast (max_num_files C))) (\<lambda>_.
      wp (if fm_lblock x \<noteq> 0 \<or> n = 0
            then orError etss_flash_fs_mblock_migrate_lb0_data_to_scratch PSA_ERROR_GENERIC_ERROR
            else returnE ()) (\<lambda>_. wp etss_flash_fs_mblock_meta_update_finalize
      (\<lambda>_. wp (if two then etss_flash_fs_delete_idx old else returnE ()) Q E) E) E) ?gen t'"
    proof (rule stage_cp_table [OF t' sp])
      show "{foff C (unat (hi + 1))..<foff C (unat (ucast (max_num_files C) :: u32))} \<inter> ?R4 = {}"
        unfolding mx using sl [of "mnf C" "Suc (unat hi)"] lo hi s1 by (simp add: disjoint_iff less_Suc_eq_le) (auto simp: foff_def)
      show "F k = tF u k" if "unat (hi + 1) \<le> k" "k < unat (ucast (max_num_files C) :: u32)" for k
        using that Fk [of k] mx s1(2) by simp
    qed (use mx s1 hm mg in auto)
    then show ?thesis using stageD(2) [OF t'] by (simp add: wp_fun del: wp_if)
  qed
  have c4: "wp (if two then
              bindE (orError (etss_flash_fs_mblock_cp_file_meta (lo + 1) (ETSS_UTILS_MAX new old))
                PSA_ERROR_GENERIC_ERROR) (\<lambda>_. returnE (ETSS_UTILS_MAX new old))
            else returnE lo) (\<lambda>idx. wp (withS (\<lambda>s. orError (etss_flash_fs_mblock_cp_file_meta (idx + 1)
       (ucast (max_num_files (ctx_cfg s)))) PSA_ERROR_GENERIC_ERROR)) (\<lambda>_.
      wp (if fm_lblock x \<noteq> 0 \<or> n = 0
            then orError etss_flash_fs_mblock_migrate_lb0_data_to_scratch PSA_ERROR_GENERIC_ERROR
            else returnE ()) (\<lambda>_. wp etss_flash_fs_mblock_meta_update_finalize
      (\<lambda>_. wp (if two then etss_flash_fs_delete_idx old else returnE ()) Q E) E) E) E) E t'"
    if t': "stage u ?T ?R3 t'" for t'
  proof (cases two)
    case True
    have mh: "ETSS_UTILS_MAX new old = hi" using True by (simp add: hi_def)
    have "wp (etss_flash_fs_mblock_cp_file_meta (lo + 1) hi) (\<lambda>_.
      wp (withS (\<lambda>s. orError (etss_flash_fs_mblock_cp_file_meta (hi + 1)
       (ucast (max_num_files (ctx_cfg s)))) PSA_ERROR_GENERIC_ERROR)) (\<lambda>_.
      wp (if fm_lblock x \<noteq> 0 \<or> n = 0
            then orError etss_flash_fs_mblock_migrate_lb0_data_to_scratch PSA_ERROR_GENERIC_ERROR
            else returnE ()) (\<lambda>_. wp etss_flash_fs_mblock_meta_update_finalize
      (\<lambda>_. wp (if two then etss_flash_fs_delete_idx old else returnE ()) Q E) E) E) E) ?gen t'"
    proof (rule stage_cp_table [OF t' sp])
      show "{foff C (unat (lo + 1))..<foff C (unat hi)} \<inter> ?R3 = {}"
        using sl [of "unat hi" "Suc (unat lo)", OF less_imp_le] lo hi s1 hm True
        by (auto simp: foff_def disjoint_iff min_def max_def split: if_splits)
      show "F k = tF u k" if "unat (lo + 1) \<le> k" "k < unat hi" for k
        using that Fk [of k] hm s1(1) by simp
      fix t2 assume "stage u ?T (?R3 \<union> {foff C (unat (lo + 1))..<foff C (unat hi)}) t2"
      then show "wp (withS (\<lambda>s. orError (etss_flash_fs_mblock_cp_file_meta (hi + 1)
       (ucast (max_num_files (ctx_cfg s)))) PSA_ERROR_GENERIC_ERROR)) (\<lambda>_.
      wp (if fm_lblock x \<noteq> 0 \<or> n = 0
            then orError etss_flash_fs_mblock_migrate_lb0_data_to_scratch PSA_ERROR_GENERIC_ERROR
            else returnE ()) (\<lambda>_. wp etss_flash_fs_mblock_meta_update_finalize
      (\<lambda>_. wp (if two then etss_flash_fs_delete_idx old else returnE ()) Q E) E) E) E t2"
        using True by (intro c5) simp
    qed (use hm s1 lo hi on True in auto)
    then show ?thesis using True mh by (simp add: wp_fun del: wp_if wp_withS)
  next
    case False
    then show ?thesis using c5 [of t'] t' by (simp add: hi_def wp_fun del: wp_if wp_withS)
  qed
  have c3: "wp (etss_flash_fs_mblock_cp_file_meta 0 lo) (\<lambda>_. wp (if two then
              bindE (orError (etss_flash_fs_mblock_cp_file_meta (lo + 1) (ETSS_UTILS_MAX new old))
                PSA_ERROR_GENERIC_ERROR) (\<lambda>_. returnE (ETSS_UTILS_MAX new old))
            else returnE lo) (\<lambda>idx. wp (withS (\<lambda>s. orError (etss_flash_fs_mblock_cp_file_meta (idx + 1)
       (ucast (max_num_files (ctx_cfg s)))) PSA_ERROR_GENERIC_ERROR)) (\<lambda>_.
      wp (if fm_lblock x \<noteq> 0 \<or> n = 0
            then orError etss_flash_fs_mblock_migrate_lb0_data_to_scratch PSA_ERROR_GENERIC_ERROR
            else returnE ()) (\<lambda>_. wp etss_flash_fs_mblock_meta_update_finalize
      (\<lambda>_. wp (if two then etss_flash_fs_delete_idx old else returnE ()) Q E) E) E) E) E) ?gen t'"
    if t': "stage u ?T ?R2 t'" for t'
  proof (rule stage_cp_table [OF t' sp])
    show "{foff C (unat (0::u32))..<foff C (unat lo)} \<inter> ?R2 = {}"
      using sl [of "unat lo" 0, OF less_imp_le] lo hm by (auto simp: foff_def disjoint_iff min_def split: if_splits)
    show "F k = tF u k" if "unat (0 :: u32) \<le> k" "k < unat lo" for k
      using that Fk [of k] hm by simp
  qed (use hm c4 in auto)
  have djN: "?N \<inter> ?R1 = {}" 
  proof -
    have "\<forall>p. foff C (unat new) \<le> p \<and> p < foff C (Suc (unat new)) \<longrightarrow> p \<notin> R"
      by (rule sl) (use new on in auto)
    then show ?thesis by (auto simp: foff_def)
  qed
  have c2: "wp (etss_flash_fs_mblock_update_scratch_file_meta new x) (\<lambda>_. wp (etss_flash_fs_mblock_cp_file_meta 0 lo) (\<lambda>_. wp (if two then
              bindE (orError (etss_flash_fs_mblock_cp_file_meta (lo + 1) (ETSS_UTILS_MAX new old))
                PSA_ERROR_GENERIC_ERROR) (\<lambda>_. returnE (ETSS_UTILS_MAX new old))
            else returnE lo) (\<lambda>idx. wp (withS (\<lambda>s. orError (etss_flash_fs_mblock_cp_file_meta (idx + 1)
       (ucast (max_num_files (ctx_cfg s)))) PSA_ERROR_GENERIC_ERROR)) (\<lambda>_.
      wp (if fm_lblock x \<noteq> 0 \<or> n = 0
            then orError etss_flash_fs_mblock_migrate_lb0_data_to_scratch PSA_ERROR_GENERIC_ERROR
            else returnE ()) (\<lambda>_. wp etss_flash_fs_mblock_meta_update_finalize
      (\<lambda>_. wp (if two then etss_flash_fs_delete_idx old else returnE ()) Q E) E) E) E) E) ?gen) ?gen t'"
    if t': "stage u ?T ?R1 t'" for t'
    by (rule stage_file_meta [OF t' sp new xid djN])
      (use image_file [OF new, of _ B F D] F(1) c3 in auto)
  have c1: "wp (etss_flash_fs_mblock_update_scratch_block_meta (fm_lblock x) bm)
      (\<lambda>_. wp (etss_flash_fs_mblock_update_scratch_file_meta new x) (\<lambda>_. wp (etss_flash_fs_mblock_cp_file_meta 0 lo) (\<lambda>_. wp (if two then
              bindE (orError (etss_flash_fs_mblock_cp_file_meta (lo + 1) (ETSS_UTILS_MAX new old))
                PSA_ERROR_GENERIC_ERROR) (\<lambda>_. returnE (ETSS_UTILS_MAX new old))
            else returnE lo) (\<lambda>idx. wp (withS (\<lambda>s. orError (etss_flash_fs_mblock_cp_file_meta (idx + 1)
       (ucast (max_num_files (ctx_cfg s)))) PSA_ERROR_GENERIC_ERROR)) (\<lambda>_.
      wp (if fm_lblock x \<noteq> 0 \<or> n = 0
            then orError etss_flash_fs_mblock_migrate_lb0_data_to_scratch PSA_ERROR_GENERIC_ERROR
            else returnE ()) (\<lambda>_. wp etss_flash_fs_mblock_meta_update_finalize
      (\<lambda>_. wp (if two then etss_flash_fs_delete_idx old else returnE ()) Q E) E) E) E) E) ?gen) ?gen) ?gen t"
    by (rule stage_block_meta [OF st sp l])
      (use b0 R(1) B [OF l] B [OF nad_pos [OF cfg]] B c2 in \<open>auto simp: upd_blocks_def unat_eq_zero\<close>)
  show ?thesis
    unfolding file_write_commit_def Let_def lo_def [symmetric] two_def [symmetric] z
    using c1 by (simp add: wp_fun del: wp_if wp_withS cong: if_cong split del: if_split)
qed

end

end
