(* ===== verification/Flash_Fs_Written.thy ===== *)
theory Flash_Fs_Written
  imports Flash_Fs_Write
begin

text \<open>
  The effect of a write on the tables and on the contents of the files, and the step of
  \<open>etss_flash_fs_file_write\<close> that prepares the data and commits the new tables.
\<close>

section \<open>The tables after a write\<close>

lemma files_ok_blocks:
  assumes "cfg_ok C" and ok: "files_ok C B F"
    and B: "\<And>l. l < nad C \<Longrightarrow> bm_data_start (B' l) = bm_data_start (B l) \<and> bm_free_size (B' l) = bm_free_size (B l)"
  shows "files_ok C B' F"
proof -
  have lb: "unat (fm_lblock (F i)) < nad C" if "i < mnf C" for i
    using validate_file_meta_Inr(1) [OF assms(1) files_okD(2) [OF ok that]] .
  have e: "reg_end C (B' l) = reg_end C (B l)" "bm_data_start (B' l) = bm_data_start (B l)" if "l < nad C" for l
    using B [OF that] by (simp_all add: reg_end_def)
  show ?thesis
    unfolding files_ok_def using files_okD [OF ok] e lb by simp
qed

text \<open>Changing the current size or the flags of a file.\<close>

lemma files_ok_same_region:
  assumes cfg: "cfg_ok C" and ok: "files_ok C B F" and i: "i < mnf C"
    and x: "fm_lblock x = fm_lblock (F i)" "fm_data_idx x = fm_data_idx (F i)"
      "fm_max_size x = fm_max_size (F i)" "fm_id x = fm_id (F i)"
    and cur: "used x \<Longrightarrow> unat (fm_cur_size x) \<le> unat (fm_max_size x)"
  shows "files_ok C B (F(i := x))"
proof -
  have u: "used x = used (F i)" by (simp add: used_def x)
  have c: "covers x = covers (F i)" by (simp add: covers_def u x fun_eq_iff)
  have v: "etss_mblock_validate_file_meta C x = Inr ()"
    using validate_file_meta_Inr [OF cfg files_okD(2) [OF ok i]] cur x
    by (intro validate_file_metaI [OF cfg]) (simp_all add: used_def)
  have ap: "apart x y = apart (F i) y" "apart y x = apart y (F i)" for y by (simp_all add: apart_def x)
  show ?thesis
    unfolding files_ok_def
  proof (intro conjI allI impI)
    show "\<exists>k<mnf C. covers ((F(i := x)) k) l p"
      if "l < nad C" "unat (bm_data_start (B l)) \<le> p" "p < reg_end C (B l)" for l p
      using files_okD(4) [OF ok that] c by (auto simp: fun_upd_def)
    show "apart ((F(i := x)) j) ((F(i := x)) k)"
      if "j < mnf C" "k < mnf C" "used ((F(i := x)) j)" "used ((F(i := x)) k)" "j \<noteq> k"
        "fm_lblock ((F(i := x)) j) = fm_lblock ((F(i := x)) k)" for j k
      using files_okD(5) [OF ok that(1,2)] that i u x ap by (auto split: if_splits)
  qed (use files_okD(1-3) [OF ok] i u x v in auto)
qed

text \<open>A new file at the end of the allocated part of a block.\<close>

lemma files_ok_new:
  assumes cfg: "cfg_ok C" and bo: "blocks_ok C act sd B" and act: "act = 0 \<or> act = 1" and ok: "files_ok C B F"
    and j: "j < mnf C" "\<not> used (F j)" and l: "unat (fm_lblock x) < nad C"
    and fits: "fm_max_size x \<le> bm_free_size (B (unat (fm_lblock x)))"
    and x: "fm_data_idx x = block_size C - bm_free_size (B (unat (fm_lblock x)))" "fm_cur_size x = 0"
      "length (fm_id x) = 12" "used x" "unat (fm_max_size x) \<le> unat (max_file_size C)"
    and B': "B' = B(unat (fm_lblock x) := (B (unat (fm_lblock x)))\<lparr>bm_free_size :=
      bm_free_size (B (unat (fm_lblock x))) - fm_max_size x\<rparr>)"
  shows "files_ok C B' (F(j := x))"
    and "unat (fm_data_idx x) = reg_end C (B (unat (fm_lblock x)))"
    and "reg_end C (B' (unat (fm_lblock x))) = reg_end C (B (unat (fm_lblock x))) + unat (fm_max_size x)"
proof -
  let ?l = "unat (fm_lblock x)"
  let ?e = "reg_end C (B ?l)"
  note bs = block_start [OF cfg bo act l]
  have fl: "unat (fm_max_size x) \<le> unat (bm_free_size (B ?l))" using fits by (simp add: word_le_nat_alt)
  show idx: "unat (fm_data_idx x) = ?e" using bs(5) by (simp add: x(1) unat_sub_u32 reg_end_def)
  have "unat (bm_free_size (B ?l) - fm_max_size x) = unat (bm_free_size (B ?l)) - unat (fm_max_size x)"
    using fl by (simp add: unat_sub_u32)
  then show re: "reg_end C (B' ?l) = ?e + unat (fm_max_size x)"
    using bs(5) fl by (simp add: B' reg_end_def)
  have ro: "reg_end C (B' k) = reg_end C (B k)" if "k \<noteq> ?l" for k using that by (simp add: B')
  have rge: "reg_end C (B k) \<le> reg_end C (B' k)" for k using re ro [of k] by (cases "k = ?l") auto
  have ds: "bm_data_start (B' k) = bm_data_start (B k)" for k by (simp add: B')
  have le: "?e + unat (fm_max_size x) \<le> unat (block_size C)" using bs(5) fl by simp
  have v: "etss_mblock_validate_file_meta C x = Inr ()"
    using l idx le bs(1,2) x(2,5) by (intro validate_file_metaI [OF cfg]) (auto simp: unat_eq_zero)
  show "files_ok C B' (F(j := x))"
    unfolding files_ok_def
  proof (intro conjI allI impI)
    fix k assume k: "k < mnf C" "used ((F(j := x)) k)"
    show "unat (bm_data_start (B' (unat (fm_lblock ((F(j := x)) k))))) \<le> unat (fm_data_idx ((F(j := x)) k))"
      using files_okD(3) [OF ok k(1)] k(2) idx bs(2) by (auto simp: ds)
    show "unat (fm_data_idx ((F(j := x)) k)) + unat (fm_max_size ((F(j := x)) k))
        \<le> reg_end C (B' (unat (fm_lblock ((F(j := x)) k))))"
      using files_okD(3) [OF ok k(1)] k(2) idx re le_trans [OF _ rge] by auto
  next
    fix k p assume k: "k < nad C" "unat (bm_data_start (B' k)) \<le> p" "p < reg_end C (B' k)"
    show "\<exists>i<mnf C. covers ((F(j := x)) i) k p"
    proof (cases "p < reg_end C (B k)")
      case True
      then obtain i where i: "i < mnf C" "covers (F i) k p" using files_okD(4) [OF ok k(1)] k(2) ds by auto
      then have "i \<noteq> j" using j(2) by (auto simp: covers_def)
      then show ?thesis using i by (intro exI [of _ i]) simp
    next
      case False
      then have "k = ?l" using k(3) ro by (metis not_less)
      then have "covers x k p" using False k(3) re idx x(4) by (simp add: covers_def)
      then show ?thesis using j(1) by (intro exI [of _ j]) simp
    qed
  next
    fix i k assume ik: "i < mnf C" "k < mnf C" "used ((F(j := x)) i)" "used ((F(j := x)) k)" "i \<noteq> k"
      "fm_lblock ((F(j := x)) i) = fm_lblock ((F(j := x)) k)"
    show "apart ((F(j := x)) i) ((F(j := x)) k)"
      using files_okD(5) [OF ok ik(1,2)] files_okD(3) [OF ok ik(1)] files_okD(3) [OF ok ik(2)] ik idx
      by (auto simp: apart_def split: if_splits)
  qed (use files_okD(1,2) [OF ok] x v in auto)
qed

lemma slice_same:
  assumes "off + n \<le> length xs" "off + n \<le> length ys" and "\<And>p. off \<le> p \<Longrightarrow> p < off + n \<Longrightarrow> xs ! p = ys ! p"
  shows "bslice off n xs = bslice off n ys"
  using assms by (intro nth_equalityI) (auto simp: length_bslice nth_bslice)

text \<open>
  The contents of a file after \<open>len\<close> bytes were programmed at \<open>off\<close>: what follows them in the file
  is erased.
\<close>

definition wr_content :: "u8 \<Rightarrow> buf \<Rightarrow> nat \<Rightarrow> nat \<Rightarrow> nat \<Rightarrow> buf \<Rightarrow> buf" where
  "wr_content ev old off len cur data = take cur (take off old @ take len data @ replicate (cur - (off + len)) ev)"

lemma wr_content_slice:
  assumes "off \<le> oc" "oc \<le> m" "cur \<le> m" "off + len \<le> m" "a + m \<le> length M" "a + m \<le> length M'" "len \<le> length data"
    and "\<And>i. i < m \<Longrightarrow> M' ! (a + i) = (if i < off then M ! (a + i) else if i < off + len then data ! (i - off) else ev)"
  shows "bslice a cur M' = wr_content ev (bslice a oc M) off len cur data"
proof (rule nth_equalityI)
  have l: "length (bslice a oc M) = oc" "length (bslice a cur M') = cur" using assms by (simp_all add: length_bslice)
  then show "length (bslice a cur M') = length (wr_content ev (bslice a oc M) off len cur data)"
    using assms(1,7) by (auto simp: wr_content_def min_def)
  fix i assume "i < length (bslice a cur M')"
  then have i: "i < cur" using l by simp
  then show "bslice a cur M' ! i = wr_content ev (bslice a oc M) off len cur data ! i"
    using assms l by (auto simp: wr_content_def nth_append nth_bslice min_def)
qed

context fs_dev
begin

definition wfile :: "etss_file_meta_t \<Rightarrow> u32 \<Rightarrow> u32 \<Rightarrow> etss_file_meta_t" where
  "wfile x off n = (if n = 0 then x else grown x off n)"

definition wdata :: "etss_file_meta_t \<Rightarrow> u32 \<Rightarrow> u32 \<Rightarrow> buf \<Rightarrow> buf \<Rightarrow> buf" where
  "wdata x off n data old = (if n = 0 then old else
     wr_content (erase_val C) old (unat off) (unat (plen n)) (unat (fm_cur_size (grown x off n))) data)"

text \<open>The tables and the contents after file \<open>j\<close> of the table \<open>F\<close> was written as \<open>x\<close>.\<close>

definition written :: "'d fs_state \<Rightarrow> (nat \<Rightarrow> etss_file_meta_t) \<Rightarrow> nat \<Rightarrow> etss_file_meta_t \<Rightarrow> u32 \<Rightarrow> u32 \<Rightarrow> buf \<Rightarrow>
    'd fs_state \<Rightarrow> bool" where
  "written s F j x off n data s' \<longleftrightarrow> tabs_ok s' \<and> (\<forall>k<mnf C. tF s' k = (F(j := wfile x off n)) k) \<and>
     (\<forall>k<mnf C. k \<noteq> j \<longrightarrow> used (F k) \<longrightarrow> content (mm s') (tB s') (F k) = content (mm s) (tB s) (F k)) \<and>
     content (mm s') (tB s') (wfile x off n) = wdata x off n data (content (mm s) (tB s) x)"

text \<open>The file \<open>x\<close>, reused or reserved, and the block entry \<open>bm\<close> fit the tables of \<open>s\<close>.\<close>

definition wr_pre :: "'d fs_state \<Rightarrow> (nat \<Rightarrow> etss_file_meta_t) \<Rightarrow> nat \<Rightarrow> etss_file_meta_t \<Rightarrow> etss_block_meta_t \<Rightarrow> bool" where
  "wr_pre s F j x bm \<longleftrightarrow> j < mnf C \<and> used x \<and> files_ok C (tB s) F \<and>
     files_ok C ((tB s)(unat (fm_lblock x) := bm)) (F(j := x)) \<and>
     bm_phy_id bm = bm_phy_id (tB s (unat (fm_lblock x))) \<and>
     bm_data_start bm = bm_data_start (tB s (unat (fm_lblock x))) \<and>
     unat (bm_data_start bm) + unat (bm_free_size bm) \<le> unat (block_size C) \<and>
     reg_end C (tB s (unat (fm_lblock x))) \<le> reg_end C bm \<and>
     unat (fm_data_idx x) + unat (fm_cur_size x) \<le> reg_end C (tB s (unat (fm_lblock x)))"

text \<open>The data buffer holds the rounded length, and rounding did not wrap around.\<close>

definition buf_ok :: "u32 \<Rightarrow> buf \<Rightarrow> bool" where
  "buf_ok n data \<longleftrightarrow> unat n \<le> unat (plen n) \<and> unat (plen n) \<le> length data"

lemma wr_preD:
  assumes "wr_pre s F j x bm"
  shows "unat (fm_lblock x) < nad C" "length (fm_id x) = 12"
    "unat (bm_data_start bm) \<le> unat (fm_data_idx x)"
    "unat (fm_data_idx x) + unat (fm_max_size x) \<le> reg_end C bm"
    "unat (fm_cur_size x) \<le> unat (fm_max_size x)"
proof -
  have j: "j < mnf C" "used x" and ok: "files_ok C ((tB s)(unat (fm_lblock x) := bm)) (F(j := x))"
    using assms by (simp_all add: wr_pre_def)
  have v: "etss_mblock_validate_file_meta C x = Inr ()" using files_okD(2) [OF ok j(1)] by simp
  show "unat (fm_lblock x) < nad C" by (rule validate_file_meta_Inr(1) [OF cfg v])
  show "unat (fm_cur_size x) \<le> unat (fm_max_size x)"
    using validate_file_meta_Inr(2) [OF cfg v] j(2) by (simp add: used_def)
  show "length (fm_id x) = 12" using files_okD(1) [OF ok j(1)] by simp
  show "unat (bm_data_start bm) \<le> unat (fm_data_idx x)" "unat (fm_data_idx x) + unat (fm_max_size x) \<le> reg_end C bm"
    using files_okD(3) [OF ok j(1)] j(2) by simp_all
qed

lemma wfile_simps [simp]:
  "fm_lblock (wfile x off n) = fm_lblock x" "fm_data_idx (wfile x off n) = fm_data_idx x"
  "fm_max_size (wfile x off n) = fm_max_size x" "fm_id (wfile x off n) = fm_id x"
  "fm_flags (wfile x off n) = fm_flags x" "used (wfile x off n) = used x"
  by (simp_all add: wfile_def)

lemma grown_cur:
  assumes "args_ok x off n" and "unat n \<le> unat (plen n)"
  shows "unat (fm_cur_size (grown x off n)) = max (unat (fm_cur_size x)) (unat off + unat n)"
proof -
  have "unat off + unat n < 4294967296" using assms unat_u32_less [of "fm_max_size x"] by (simp add: args_ok_def)
  then have "unat (off + n) = unat off + unat n" by (simp add: unat_add_u32)
  then show ?thesis by (auto simp: grown_def word_less_nat_alt)
qed

lemma wfile_cur:
  assumes "n = 0 \<or> args_ok x off n" and "unat n \<le> unat (plen n)" and "unat (fm_cur_size x) \<le> unat (fm_max_size x)"
  shows "unat (fm_cur_size (wfile x off n)) \<le> unat (fm_max_size x)"
  using assms grown_cur [of x off n] by (auto simp: wfile_def args_ok_def)

lemma writtenI:
  assumes tab: "tabs_ok s" and pre: "wr_pre s F j x bm" and ar: "n = 0 \<or> args_ok x off n" and bf: "buf_ok n data"
    and sw: "swapped u (upd_blocks (tB s) (unat (fm_lblock x)) bm' (scratch_metablock s)) (F(j := wfile x off n)) D R s'"
    and scr: "scratch_metablock u = scratch_metablock s"
    and bm': "bm_data_start bm' = bm_data_start bm" "bm_free_size bm' = bm_free_size bm"
    and ph: "fm_lblock x = 0 \<and> sdb u = sdb s \<or> fm_lblock x \<noteq> 0 \<and> bm_phy_id bm' = bm_phy_id bm \<and> sdb u = sdb s \<or>
      fm_lblock x \<noteq> 0 \<and> bm_phy_id bm' = sdb s \<and> sdb u = bm_phy_id bm"
    and dat1: "\<And>k p. k < nad C \<Longrightarrow> unat (bm_data_start (tB s k)) \<le> p \<Longrightarrow> p < reg_end C (tB s k) \<Longrightarrow>
      n = 0 \<or> k \<noteq> unat (fm_lblock x) \<or> p < unat (fm_data_idx x) \<or> unat (fm_data_idx x) + unat (fm_max_size x) \<le> p \<Longrightarrow>
      mm s' (bm_phy_id (tB s' k)) ! p = mm s (bm_phy_id (tB s k)) ! p"
    and dat2: "\<And>i. n \<noteq> 0 \<Longrightarrow> i < unat (fm_max_size x) \<Longrightarrow>
      mm s' (bm_phy_id (tB s' (unat (fm_lblock x)))) ! (unat (fm_data_idx x) + i) =
        (if i < unat off then mm s (bm_phy_id (tB s (unat (fm_lblock x)))) ! (unat (fm_data_idx x) + i)
         else if i < unat off + unat (plen n) then data ! (i - unat off) else erase_val C)"
  shows "written s F j x off n data s'"
proof -
  let ?l = "unat (fm_lblock x)" and ?scr = "scratch_metablock s" and ?act = "active_metablock s"
  let ?B = "upd_blocks (tB s) ?l bm' ?scr" and ?F = "F(j := wfile x off n)"
  note td = tabs_okD [OF tab] and pD = wr_preD [OF pre]
  have pre': "j < mnf C" "used x" "files_ok C (tB s) F" "files_ok C ((tB s)(?l := bm)) (F(j := x))"
    "bm_phy_id bm = bm_phy_id (tB s ?l)" "bm_data_start bm = bm_data_start (tB s ?l)"
    "unat (bm_data_start bm) + unat (bm_free_size bm) \<le> unat (block_size C)"
    "reg_end C (tB s ?l) \<le> reg_end C bm" "unat (fm_data_idx x) + unat (fm_cur_size x) \<le> reg_end C (tB s ?l)"
    using pre unfolding wr_pre_def by blast+
  have swD: "metas s'" "active_metablock s' = ?scr" "sdb s' = sdb u"
    "\<And>k. k < nad C \<Longrightarrow> tB s' k = ?B k" "\<And>i. i < mnf C \<Longrightarrow> tF s' i = ?F i"
    using sw by (auto simp: swapped_def scr)
  have ids: "(?act, ?scr) \<in> {(0, 1), (1, 0)}" using td(1) by (simp add: metas_def del: metas_simps)
  have bo: "blocks_ok C ?scr (sdb u) ?B"
  proof (rule upd_blocks_ok [OF cfg td(2) ids pD(1)])
    show "bm_data_start bm' = bm_data_start (tB s ?l)" using bm'(1) pre'(6) by simp
    show "unat (bm_data_start bm') + unat (bm_free_size bm') \<le> unat (block_size C)" using pre'(7) bm' by simp
    show "?l = 0 \<and> sdb u = sdb s \<or> ?l \<noteq> 0 \<and> bm_phy_id bm' = bm_phy_id (tB s ?l) \<and> sdb u = sdb s \<or>
        ?l \<noteq> 0 \<and> bm_phy_id bm' = sdb s \<and> sdb u = bm_phy_id (tB s ?l)"
      using ph unfolding pre'(5) unat_eq_zero .
  qed
  have bu: "unat n \<le> unat (plen n)" "unat (plen n) \<le> length data" using bf by (auto simp: buf_ok_def)
  have fo: "files_ok C ?B ?F"
  proof -
    have "files_ok C ((tB s)(?l := bm)) (F(j := x, j := wfile x off n))"
      by (rule files_ok_same_region [OF cfg pre'(4)]) (use wfile_cur [OF ar bu(1) pD(5)] pre'(1) in auto)
    then show ?thesis
      unfolding fun_upd_upd by (rule files_ok_blocks [OF cfg]) (auto simp: upd_blocks_def bm')
  qed
  have tab': "tabs_ok s'"
    unfolding tabs_ok_def using swD bo fo nad_pos [OF cfg]
      blocks_ok_cong [of C "tB s'" ?B ?scr "sdb u"] files_ok_cong [OF cfg, of "tB s'" ?B "tF s'" ?F]
    by simp
  note td' = tabs_okD [OF tab']
  have act: "?act = 0 \<or> ?act = 1" using ids by auto
  have len: "length (mm s (bm_phy_id (tB s k))) = unat (block_size C)" if "k < nad C" for k
    using block_start(4) [OF cfg td(2) act that] td(6) by (simp add: mm_length)
  have len': "length (mm s' (bm_phy_id (tB s' k))) = unat (block_size C)" if "k < nad C" for k
    using block_start(4) [OF cfg td'(2,4) that] td'(6) by (simp add: mm_length)
  have re: "reg_end C bm \<le> unat (block_size C)" by (simp add: reg_end_def)
  have other: "content (mm s') (tB s') (F k) = content (mm s) (tB s) (F k)" if k: "k < mnf C" "k \<noteq> j" "used (F k)" for k
  proof -
    have lk: "unat (fm_lblock (F k)) < nad C" using validate_file_meta_Inr(1) [OF cfg files_okD(2) [OF pre'(3) k(1)]] .
    have cu: "unat (fm_cur_size (F k)) \<le> unat (fm_max_size (F k))"
      using validate_file_meta_Inr(2) [OF cfg files_okD(2) [OF pre'(3) k(1)]] k(3) by (simp add: used_def)
    note rk = files_okD(3) [OF pre'(3) k(1,3)]
    have ap: "apart (F k) x" if "fm_lblock (F k) = fm_lblock x"
      using files_okD(5) [OF pre'(4) k(1) pre'(1)] k pre'(2) that by simp
    have d: "mm s' (bm_phy_id (tB s' (unat (fm_lblock (F k))))) ! p = mm s (bm_phy_id (tB s (unat (fm_lblock (F k))))) ! p"
      if p: "unat (fm_data_idx (F k)) \<le> p" "p < unat (fm_data_idx (F k)) + unat (fm_cur_size (F k))" for p
    proof (rule dat1 [OF lk])
      show "n = 0 \<or> unat (fm_lblock (F k)) \<noteq> ?l \<or> p < unat (fm_data_idx x) \<or>
          unat (fm_data_idx x) + unat (fm_max_size x) \<le> p"
        using ap p cu by (auto simp: apart_def word_unat_eq_iff)
    qed (use p rk cu in auto)
    have "unat (fm_data_idx (F k)) + unat (fm_cur_size (F k)) \<le> unat (block_size C)"
      using rk cu block_start(3) [OF cfg td(2) act lk] by simp
    then show ?thesis
      unfolding content_def using d len [OF lk] len' [OF lk] by (intro slice_same) auto
  qed
  have fits: "unat (fm_data_idx x) + unat (fm_max_size x) \<le> unat (block_size C)" using pD(4) re by simp
  have own: "content (mm s') (tB s') (wfile x off n) = wdata x off n data (content (mm s) (tB s) x)"
  proof (cases "n = 0")
    case True
    have d: "mm s' (bm_phy_id (tB s' ?l)) ! p = mm s (bm_phy_id (tB s ?l)) ! p"
      if "unat (fm_data_idx x) \<le> p" "p < unat (fm_data_idx x) + unat (fm_cur_size x)" for p
      by (rule dat1 [OF pD(1)]) (use that pD(3) pre'(6,9) True in auto)
    have "content (mm s') (tB s') x = content (mm s) (tB s) x"
      unfolding content_def using d len [OF pD(1)] len' [OF pD(1)] fits pD(5) by (intro slice_same) auto
    then show ?thesis using True by (simp add: wdata_def wfile_def)
  next
    case False
    have ok: "args_ok x off n" using ar False by simp
    have w: "unat (fm_cur_size (grown x off n)) \<le> unat (fm_max_size x)"
      using wfile_cur [OF ar bu(1) pD(5)] False by (simp add: wfile_def)
    have "bslice (unat (fm_data_idx x)) (unat (fm_cur_size (grown x off n))) (mm s' (bm_phy_id (tB s' ?l))) =
      wr_content (erase_val C) (bslice (unat (fm_data_idx x)) (unat (fm_cur_size x)) (mm s (bm_phy_id (tB s ?l))))
        (unat off) (unat (plen n)) (unat (fm_cur_size (grown x off n))) data"
      using ok w pD(5) fits len [OF pD(1)] len' [OF pD(1)] bu(2)
      by (intro wr_content_slice [where m = "unat (fm_max_size x)"] dat2 [OF False]) (simp_all add: args_ok_def)
    then show ?thesis using False by (simp add: content_def wdata_def wfile_def)
  qed
  show ?thesis
    unfolding written_def using tab' swD(5) other own by simp
qed

end

end
