(* ===== verification/Flash_Fs_Store.thy ===== *)
theory Flash_Fs_Store
  imports Flash_Fs_Written
begin

text \<open>
  \<open>etss_flash_fs_file_write\<close> as a whole: the data step and the commit for a reused and for a new
  file, and the four ways the operation chooses its target.
\<close>

context fs_dev
begin

section \<open>Data and commit\<close>

lemma stage_cong: "stage s T R t \<Longrightarrow> (\<And>p. p \<in> R \<Longrightarrow> T p = T' p) \<Longrightarrow> stage s T' R t"
  by (auto simp: stage_def)

lemma harmless_tables:
  assumes "tabs_ok s" and "harmless s s'"
  shows "mm s' (active_metablock s) = mm s (active_metablock s)" "tB s' = tB s" "tF s' = tF s"
    "rB s' = rB s" "rF s' = rF s"
    "\<And>l. l < nad C \<Longrightarrow> mm s' (bm_phy_id (tB s l)) = mm s (bm_phy_id (tB s l))"
proof -
  note td = tabs_okD [OF assms(1)]
  have ids: "(active_metablock s, scratch_metablock s) \<in> {(0, 1), (1, 0)}"
    using td(1) by (simp add: metas_def del: metas_simps)
  have h: "\<And>b. b \<noteq> scratch_metablock s \<Longrightarrow> num_blocks C = 2 \<or> b \<noteq> sdb s \<Longrightarrow> mm s' b = mm s b"
    "active_metablock s' = active_metablock s"
    using assms(2) by (auto simp: harmless_def)
  show a: "mm s' (active_metablock s) = mm s (active_metablock s)"
    using blocks_okD(5) [OF td(2)] ids by (intro h(1)) auto
  show "tB s' = tB s" "tF s' = tF s" "rB s' = rB s" "rF s' = rF s"
    using table_cong [where m = "mm s'" and m' = "mm s" and a = "active_metablock s", OF a] h(2) by simp_all
  show "mm s' (bm_phy_id (tB s l)) = mm s (bm_phy_id (tB s l))" if "l < nad C" for l
  proof (cases "l = 0")
    case True
    then show ?thesis using a blocks_okD(1) [OF td(2)] by simp
  next
    case False
    then have "bm_phy_id (tB s l) \<notin> {0, 1, sdb s}" using blocks_okD(3) [OF td(2) that] by simp
    then show ?thesis using ids by (intro h(1)) auto
  qed
qed

text \<open>
  The commit of a written file: the stage holds the image of the new tables, and the data of every
  block is in place.
\<close>

lemma write_finish_wp:
  fixes old new :: u32
  defines "two \<equiv> old \<noteq> ETSS_METADATA_INVALID_INDEX \<and> old \<noteq> new"
  assumes inv: "fs_inv s" and hu: "harmless s u" and pre: "wr_pre s F (unat new) x bm"
    and st: "stage u (mb_image C (upd_blocks (tB s) (unat (fm_lblock x)) bm' (scratch_metablock s))
      (F(unat new := wfile x off n)) D) R t"
    and old: "two \<Longrightarrow> unat old < mnf C"
    and F: "\<And>k. k < mnf C \<Longrightarrow> k \<noteq> unat new \<Longrightarrow> \<not> (two \<and> k = unat old) \<Longrightarrow> F k = tF s k"
    and R: "R \<inter> {0..<foff C 0} = {}" "R \<inter> {foff C 0..<foff C (mnf C)} = (if two then fregion old else {})"
    and mig: "mig \<longleftrightarrow> fm_lblock x \<noteq> 0 \<or> n = 0"
      "mig \<Longrightarrow> R \<inter> {foff C (mnf C)..<reg_end C (tB s 0)} = {}"
      "mig \<Longrightarrow> D = (\<lambda>p. mm s (active_metablock s) ! p)"
    and ver: "hdr_fs_version (meta_block_header u) = ETSS_SUPPORTED_VERSION"
    and sd: "num_blocks C \<noteq> 2 \<Longrightarrow> sdb u \<notin> {0, 1} \<and> sdb u < ucast (num_blocks C)"
    and R': "R' = R \<union> {8..<foff C (mnf C)} \<union> (if mig then {foff C (mnf C)..<reg_end C (tB s 0)} else {})"
    and wr: "\<And>s'. swapped u (upd_blocks (tB s) (unat (fm_lblock x)) bm' (scratch_metablock s))
      (F(unat new := wfile x off n)) D R' s' \<Longrightarrow> written s F (unat new) x off n data s'"
    and Q: "\<And>s'. fs_inv s' \<Longrightarrow> written s F (unat new) x off n data s' \<Longrightarrow>
      wp (if two then etss_flash_fs_delete_idx old else returnE ()) Q E s'"
    and EH: "\<And>e s'. \<not> rel \<Longrightarrow> harmless s s' \<Longrightarrow> E e s'"
    and E2: "\<And>e s'. \<not> rel \<Longrightarrow> written s F (unat new) x off n data s' \<Longrightarrow> E e s'"
  shows "wp (file_write_commit old new (wfile x off n) bm' n) Q E t"
proof -
  note iD = fs_invD [OF inv] and td = tabs_okD [OF fs_invD(1) [OF inv]] and pD = wr_preD [OF pre]
  note ht = harmless_tables [OF iD(1) hu]
  have au: "active_metablock u = active_metablock s" "scratch_metablock u = scratch_metablock s"
    using hu by (simp_all add: harmless_def)
  have n0: "0 < nad C" by (rule nad_pos [OF cfg])
  have new: "unat new < mnf C" and fo: "files_ok C (tB s) F" using pre by (simp_all add: wr_pre_def)
  show ?thesis
  proof (rule write_commit_wp [OF st hu EH])
    show "wp (if old \<noteq> ETSS_METADATA_INVALID_INDEX \<and> old \<noteq> new then etss_flash_fs_delete_idx old else returnE ()) Q E s'"
      if "swapped u (upd_blocks (tB s) (unat (fm_lblock x)) bm' (scratch_metablock s))
      (F(unat new := wfile x off n)) D R' s'" "hdr_ok s'" "scratch_blank s'" for s'
    proof -
      have w: "written s F (unat new) x off n data s'" by (rule wr [OF that(1)])
      then have "fs_inv s'" using that by (simp add: fs_inv_def written_def)
      then show ?thesis using Q w unfolding two_def by blast
    qed
    show "length (fm_id ((F(unat new := wfile x off n)) i)) = 12" if "i < mnf C" for i
      using files_okD(1) [OF fo that] pD(2) by simp
    show "mig \<longleftrightarrow> fm_lblock (wfile x off n) \<noteq> 0 \<or> n = 0" using mig(1) by simp
    show "rB u 0 = Inr (tB u 0)" using tabs_ok_rB [OF iD(1), of 0] n0 fun_cong [OF ht(4), of 0] ht(2) by simp
    show "bm_phy_id (tB u 0) = active_metablock u" using blocks_okD(1) [OF td(2)] ht au by simp
    show "R' = R \<union> {8..<foff C (mnf C)} \<union> (if mig then {foff C (mnf C)..<reg_end C (tB u 0)} else {})"
      using R' ht by simp
    show "R \<inter> {foff C 0..<foff C (mnf C)} = (if old \<noteq> ETSS_METADATA_INVALID_INDEX \<and> old \<noteq> new then fregion old else {})"
      using R(2) by (simp add: two_def)
  qed (use pD new old F R(1) mig ht au ver sd wr E2 in \<open>auto simp: two_def\<close>)
qed

text \<open>The three ways the data gets into place.\<close>

lemma swapped_data:
  assumes tab: "tabs_ok s" and hu: "harmless s u"
    and sw: "swapped u (upd_blocks (tB s) l bm' (scratch_metablock s)) F D R s'"
  shows "tB s' 0 = (if l = 0 then bm' else tB s 0)\<lparr>bm_phy_id := scratch_metablock s\<rparr>"
    and "\<And>k. k < nad C \<Longrightarrow> k \<noteq> 0 \<Longrightarrow> tB s' k = (if k = l then bm' else tB s k)"
    and "\<And>p. foff C (mnf C) \<le> p \<Longrightarrow> p < unat (block_size C) \<Longrightarrow>
      mm s' (scratch_metablock s) ! p = (if p \<in> R then D p else erase_val C)"
    and "\<And>k. k < nad C \<Longrightarrow> k \<noteq> 0 \<Longrightarrow> bm_phy_id (tB s k) \<noteq> sdb u \<Longrightarrow>
      mm s' (bm_phy_id (tB s k)) = mm s (bm_phy_id (tB s k))"
    and "num_blocks C \<noteq> 2 \<Longrightarrow> sdb s \<noteq> sdb u \<Longrightarrow> mm s' (sdb s) = mm u (sdb s)"
proof -
  note td = tabs_okD [OF tab]
  have ids: "(active_metablock s, scratch_metablock s) \<in> {(0, 1), (1, 0)}"
    using td(1) by (simp add: metas_def del: metas_simps)
  have au: "active_metablock u = active_metablock s" "scratch_metablock u = scratch_metablock s"
    using hu by (simp_all add: harmless_def)
  have B: "\<And>k. k < nad C \<Longrightarrow> tB s' k = upd_blocks (tB s) l bm' (scratch_metablock s) k"
    and M: "\<And>b. b \<notin> {active_metablock s, scratch_metablock s} \<Longrightarrow> num_blocks C = 2 \<or> b \<noteq> sdb u \<Longrightarrow> mm s' b = mm u b"
    using sw unfolding swapped_def au by blast+
  show "tB s' 0 = (if l = 0 then bm' else tB s 0)\<lparr>bm_phy_id := scratch_metablock s\<rparr>"
    using B [OF nad_pos [OF cfg]] by (simp add: upd_blocks_def)
  show "tB s' k = (if k = l then bm' else tB s k)" if "k < nad C" "k \<noteq> 0" for k
    using B [OF that(1)] that(2) by (simp add: upd_blocks_def)
  show "mm s' (scratch_metablock s) ! p = (if p \<in> R then D p else erase_val C)"
    if "foff C (mnf C) \<le> p" "p < unat (block_size C)" for p
    using sw that unfolding swapped_def au by blast
  show "mm s' (bm_phy_id (tB s k)) = mm s (bm_phy_id (tB s k))"
    if "k < nad C" "k \<noteq> 0" "bm_phy_id (tB s k) \<noteq> sdb u" for k
  proof -
    have "bm_phy_id (tB s k) \<notin> {0, 1, sdb s}" using blocks_okD(3) [OF td(2) that(1)] that(2) by simp
    then have "mm s' (bm_phy_id (tB s k)) = mm u (bm_phy_id (tB s k))" using that(3) ids by (intro M) auto
    then show ?thesis using harmless_tables(6) [OF tab hu that(1)] by simp
  qed
  show "mm s' (sdb s) = mm u (sdb s)" if "num_blocks C \<noteq> 2" "sdb s \<noteq> sdb u"
    using blocks_okD(5) [OF td(2) that(1)] that(2) ids by (intro M) auto
qed

lemma none_written:
  assumes inv: "fs_inv s" and pre: "wr_pre s F j x bm" and bf: "buf_ok 0 data"
    and sw: "swapped s (upd_blocks (tB s) (unat (fm_lblock x)) bm (scratch_metablock s)) (F(j := wfile x off 0))
      (\<lambda>p. mm s (active_metablock s) ! p) R s'"
    and R: "{foff C (mnf C)..<reg_end C (tB s 0)} \<subseteq> R"
  shows "written s F j x off 0 data s'"
proof -
  note iD = fs_invD [OF inv] and td = tabs_okD [OF fs_invD(1) [OF inv]]
  note sd = swapped_data [OF iD(1) harmless_refl [OF td(1)] sw]
  have bp: "bm_phy_id bm = bm_phy_id (tB s (unat (fm_lblock x)))" using pre by (simp add: wr_pre_def)
  show ?thesis
  proof (rule writtenI [OF iD(1) pre _ bf sw refl refl refl])
    show "fm_lblock x = 0 \<and> sdb s = sdb s \<or> fm_lblock x \<noteq> 0 \<and> bm_phy_id bm = bm_phy_id bm \<and> sdb s = sdb s \<or>
      fm_lblock x \<noteq> 0 \<and> bm_phy_id bm = sdb s \<and> sdb s = bm_phy_id bm" by auto
    fix k p assume k: "k < nad C" and p: "unat (bm_data_start (tB s k)) \<le> p" "p < reg_end C (tB s k)"
    note bs = block_start [OF cfg td(2,4) k]
    show "mm s' (bm_phy_id (tB s' k)) ! p = mm s (bm_phy_id (tB s k)) ! p"
    proof (cases "k = 0")
      case True
      then show ?thesis using p bs sd(1) sd(3) [of p] R blocks_okD(1) [OF td(2)] by auto
    next
      case False
      then have "bm_phy_id (tB s k) \<noteq> sdb s" using blocks_okD(3) [OF td(2) k] by simp
      then show ?thesis using sd(2) [OF k False] sd(4) [OF k False] bp by auto
    qed
  qed auto
qed

lemma lb0_written:
  assumes inv: "fs_inv s" and pre: "wr_pre s F j x bm" and bf: "buf_ok n data" and n: "n \<noteq> 0" and ar: "args_ok x off n"
    and l0: "fm_lblock x = 0" and bm': "bm' = bm\<lparr>bm_phy_id := scratch_metablock s\<rparr>"
    and D: "D = (\<lambda>p. if unat (fm_data_idx x) + unat off \<le> p \<and> p < unat (fm_data_idx x) + unat off + unat (plen n)
      then data ! (p - (unat (fm_data_idx x) + unat off)) else mm s (active_metablock s) ! p)"
    and sw: "swapped s (upd_blocks (tB s) (unat (fm_lblock x)) bm' (scratch_metablock s)) (F(j := wfile x off n)) D R s'"
    and R: "\<And>p. foff C (mnf C) \<le> p \<Longrightarrow> p \<in> R \<longleftrightarrow> p \<in> wregion (bm_data_start bm) x off (plen n) (reg_end C bm)"
  shows "written s F j x off n data s'"
proof -
  note iD = fs_invD [OF inv] and td = tabs_okD [OF fs_invD(1) [OF inv]] and pD = wr_preD [OF pre]
  note sd = swapped_data [OF iD(1) harmless_refl [OF td(1)] sw]
  have bp: "bm_data_start bm = bm_data_start (tB s 0)" "reg_end C (tB s 0) \<le> reg_end C bm"
    using pre l0 by (simp_all add: wr_pre_def)
  note bs = block_start [OF cfg td(2,4) nad_pos [OF cfg]]
  have st0: "unat (bm_data_start bm) = foff C (mnf C)" using bs(1) bp(1) by simp
  have a0: "bm_phy_id (tB s 0) = active_metablock s" by (rule blocks_okD(1) [OF td(2)])
  have s0: "bm_phy_id (tB s' 0) = scratch_metablock s" using sd(1) by simp
  have re: "reg_end C bm \<le> unat (block_size C)" by (simp add: reg_end_def)
  have mo: "unat off + unat (plen n) \<le> unat (fm_max_size x)" using ar by (simp add: args_ok_def)
  show ?thesis
  proof (rule writtenI [OF iD(1) pre _ bf sw refl])
    show "n = 0 \<or> args_ok x off n" using ar by simp
    fix k p assume k: "k < nad C" and p: "unat (bm_data_start (tB s k)) \<le> p" "p < reg_end C (tB s k)"
      and out: "n = 0 \<or> k \<noteq> unat (fm_lblock x) \<or> p < unat (fm_data_idx x) \<or>
        unat (fm_data_idx x) + unat (fm_max_size x) \<le> p"
    show "mm s' (bm_phy_id (tB s' k)) ! p = mm s (bm_phy_id (tB s k)) ! p"
    proof (cases "k = 0")
      case True
      then have "p \<in> R" using R [of p] p out bs(1) bp n l0 st0 by auto
      then show ?thesis using True p bs s0 a0 sd(3) [of p] out n l0 mo re bp by (auto simp: D)
    next
      case False
      then have "bm_phy_id (tB s k) \<noteq> sdb s" using blocks_okD(3) [OF td(2) k] by simp
      then show ?thesis using False sd(2) [OF k False] sd(4) [OF k False] l0 by auto
    qed
  next
    fix i assume i: "i < unat (fm_max_size x)"
    let ?p = "unat (fm_data_idx x) + i"
    have p: "foff C (mnf C) \<le> ?p" "?p < reg_end C bm" using i pD(3,4) st0 by auto
    have r: "?p \<in> R \<longleftrightarrow> i < unat off + unat (plen n)" using R [OF p(1)] p st0 pD(3) i by auto
    show "mm s' (bm_phy_id (tB s' (unat (fm_lblock x)))) ! ?p =
        (if i < unat off then mm s (bm_phy_id (tB s (unat (fm_lblock x)))) ! ?p
         else if i < unat off + unat (plen n) then data ! (i - unat off) else erase_val C)"
      using sd(3) [OF p(1)] p(2) re r s0 a0 l0 by (simp add: D)
  qed (use l0 bm' in auto)
qed

lemma lbL_written:
  assumes inv: "fs_inv s" and pre: "wr_pre s F j x bm" and bf: "buf_ok n data" and n: "n \<noteq> 0" and ar: "args_ok x off n"
    and l0: "fm_lblock x \<noteq> 0" and bm': "bm' = bm\<lparr>bm_phy_id := sdb s\<rparr>"
    and hu: "harmless s u" and su: "sdb u = bm_phy_id bm"
    and Td: "Td = (\<lambda>p. if unat (fm_data_idx x) + unat off \<le> p \<and> p < unat (fm_data_idx x) + unat off + unat (plen n)
      then data ! (p - (unat (fm_data_idx x) + unat off)) else mm s (bm_phy_id bm) ! p)"
    and mu: "mm u (sdb s) = fillM (mm s) (sdb s) (wregion (bm_data_start bm) x off (plen n) (reg_end C bm)) Td (sdb s)"
    and sw: "swapped u (upd_blocks (tB s) (unat (fm_lblock x)) bm' (scratch_metablock s)) (F(j := wfile x off n))
      (\<lambda>p. mm s (active_metablock s) ! p) R s'"
    and R: "{foff C (mnf C)..<reg_end C (tB s 0)} \<subseteq> R"
  shows "written s F j x off n data s'"
proof -
  let ?l = "unat (fm_lblock x)"
  note iD = fs_invD [OF inv] and td = tabs_okD [OF fs_invD(1) [OF inv]] and pD = wr_preD [OF pre]
  note sd = swapped_data [OF iD(1) hu sw]
  have l: "?l \<noteq> 0" "?l < nad C" using l0 pD(1) by (simp_all add: unat_eq_zero)
  have nb: "num_blocks C \<noteq> 2" by (rule more_blocks [OF l0 pD(1)])
  have bp: "bm_phy_id bm = bm_phy_id (tB s ?l)" "bm_data_start bm = bm_data_start (tB s ?l)"
    "reg_end C (tB s ?l) \<le> reg_end C bm"
    using pre by (simp_all add: wr_pre_def)
  note bs = block_start [OF cfg td(2,4) l(2)]
  have st0: "unat (bm_data_start bm) = 0" using bs(1) bp(2) l by simp
  have sl: "sdb s \<noteq> sdb u" using blocks_okD(3) [OF td(2) l(2)] l(1) bp(1) su by auto
  have ph: "bm_phy_id (tB s' ?l) = sdb s" using sd(2) [OF l(2,1)] bm' by simp
  have re: "reg_end C bm \<le> unat (block_size C)" by (simp add: reg_end_def)
  have mo: "unat off + unat (plen n) \<le> unat (fm_max_size x)" using ar by (simp add: args_ok_def)
  have sb: "sdb s < ucast (num_blocks C)" using blocks_okD(5) [OF td(2) nb] by simp
  then have ln: "length (mm s (sdb s)) = unat (block_size C)" using td(6) by (simp add: mm_length)
  have er: "erased_on (mm s) (sdb s) whole" using iD(3) nb by (simp add: scratch_blank_def)
  have byt: "mm s' (sdb s) ! p = (if p \<in> wregion (bm_data_start bm) x off (plen n) (reg_end C bm) then Td p else erase_val C)"
    if "p < unat (block_size C)" for p
    using sd(5) [OF nb sl] mu that ln er by (simp add: nth_fillM erased_on_def)
  show ?thesis
  proof (rule writtenI [OF iD(1) pre _ bf sw])
    show "n = 0 \<or> args_ok x off n" using ar by simp
    show "scratch_metablock u = scratch_metablock s" using hu by (simp add: harmless_def)
    fix k p assume k: "k < nad C" and p: "unat (bm_data_start (tB s k)) \<le> p" "p < reg_end C (tB s k)"
      and out: "n = 0 \<or> k \<noteq> ?l \<or> p < unat (fm_data_idx x) \<or> unat (fm_data_idx x) + unat (fm_max_size x) \<le> p"
    note bk = block_start [OF cfg td(2,4) k]
    show "mm s' (bm_phy_id (tB s' k)) ! p = mm s (bm_phy_id (tB s k)) ! p"
    proof (cases "k = 0"; cases "k = ?l")
      assume "k = 0" "k \<noteq> ?l"
      then show ?thesis using p bk sd(1) sd(3) [of p] R blocks_okD(1) [OF td(2)] by auto
    next
      assume "k \<noteq> 0" "k = ?l"
      then show ?thesis using byt [of p] ph p bk out n mo re bp st0 by (auto simp: Td)
    next
      assume kk: "k \<noteq> 0" "k \<noteq> ?l"
      then have "bm_phy_id (tB s k) \<noteq> sdb u" using blocks_okD(4) [OF td(2) k l(2)] bp(1) su by auto
      then show ?thesis using kk sd(2) [OF k kk(1)] sd(4) [OF k kk(1)] by auto
    qed (use l in auto)
  next
    fix i assume i: "i < unat (fm_max_size x)"
    let ?p = "unat (fm_data_idx x) + i"
    have p: "?p < reg_end C bm" using i pD(4) by auto
    show "mm s' (bm_phy_id (tB s' ?l)) ! ?p =
        (if i < unat off then mm s (bm_phy_id (tB s ?l)) ! ?p
         else if i < unat off + unat (plen n) then data ! (i - unat off) else erase_val C)"
      using byt [of ?p] p re st0 i ph bp(1) by (auto simp: Td)
  qed (use l0 bm' su in auto)
qed

lemma image_fregion:
  assumes "unat i < mnf C" and "\<And>k. k < 32 \<Longrightarrow> T (foff C (unat i) + k) = encode_file_meta (F (unat i)) ! k"
    and "p \<in> fregion i"
  shows "T p = mb_image C B F D p"
proof -
  have "p - foff C (unat i) < 32" "foff C (unat i) + (p - foff C (unat i)) = p" using assms(3) by auto
  then show ?thesis using assms(2) [of "p - foff C (unat i)"] image_file [OF assms(1), of "p - foff C (unat i)" B F D] by simp
qed

text \<open>Stages 3 and 4 of the operation, for a target found by the stages before.\<close>

lemma write_core_wp:
  fixes old new :: u32
  defines "two \<equiv> old \<noteq> ETSS_METADATA_INVALID_INDEX \<and> old \<noteq> new"
  assumes inv: "fs_inv s" and st: "stage s T0 (if two then fregion old else {}) t"
    and T0: "\<And>k. two \<Longrightarrow> k < 32 \<Longrightarrow> T0 (foff C (unat old) + k) = encode_file_meta (F (unat old)) ! k"
    and old: "two \<Longrightarrow> unat old < mnf C"
    and F: "\<And>k. k < mnf C \<Longrightarrow> k \<noteq> unat new \<Longrightarrow> \<not> (two \<and> k = unat old) \<Longrightarrow> F k = tF s k"
    and pre: "wr_pre s F (unat new) x bm" and bf: "buf_ok n data"
    and Q: "\<And>s'. fs_inv s' \<Longrightarrow> written s F (unat new) x off n data s' \<Longrightarrow> n = 0 \<or> args_ok x off n \<Longrightarrow>
      wp (if two then etss_flash_fs_delete_idx old else returnE ()) Q E s'"
    and EA: "\<not> (n = 0 \<or> args_ok x off n) \<Longrightarrow> E PSA_ERROR_GENERIC_ERROR t"
    and EH: "\<And>e s'. \<not> rel \<Longrightarrow> harmless s s' \<Longrightarrow> E e s'"
    and E2: "\<And>e s'. \<not> rel \<Longrightarrow> written s F (unat new) x off n data s' \<Longrightarrow> n = 0 \<or> args_ok x off n \<Longrightarrow> E e s'"
  shows "wp (file_write_data x bm n off data) (\<lambda>(x', bm'). wp (file_write_commit old new x' bm' n) Q E) E t"
proof -
  let ?scr = "scratch_metablock s" and ?act = "active_metablock s" and ?R = "if two then fregion old else {}"
  let ?B = "\<lambda>bm'. upd_blocks (tB s) (unat (fm_lblock x)) bm' ?scr" and ?F = "F(unat new := wfile x off n)"
  let ?W = "wregion (bm_data_start bm) x off (plen n) (reg_end C bm)"
  let ?upd = "\<lambda>b p. if unat (fm_data_idx x) + unat off \<le> p \<and> p < unat (fm_data_idx x) + unat off + unat (plen n)
      then data ! (p - (unat (fm_data_idx x) + unat off)) else mm s b ! p"
  note iD = fs_invD [OF inv] and td = tabs_okD [OF fs_invD(1) [OF inv]] and pD = wr_preD [OF pre]
  have pr: "unat new < mnf C" "bm_phy_id bm = bm_phy_id (tB s (unat (fm_lblock x)))"
    "bm_data_start bm = bm_data_start (tB s (unat (fm_lblock x)))"
    "unat (bm_data_start bm) + unat (bm_free_size bm) \<le> unat (block_size C)"
    using pre unfolding wr_pre_def by blast+
  note bs = block_start [OF cfg td(2,4) pD(1)]
  have bl: "unat (plen n) \<le> length data" using bf by (simp add: buf_ok_def)
  have ne: "two \<Longrightarrow> unat old \<noteq> unat new" by (auto simp: two_def word_unat_eq_iff)
  have st1: "stage s (mb_image C (?B bm') ?F D) ?R t" for bm' D
  proof (rule stage_cong [OF st])
    fix p assume "p \<in> ?R"
    then have p: "two" "p \<in> fregion old" by (auto split: if_splits)
    show "T0 p = mb_image C (?B bm') ?F D p"
      by (rule image_fregion [OF old [OF p(1)] _ p(2)]) (use T0 [OF p(1)] ne [OF p(1)] in simp)
  qed
  have Rtab: "?R \<inter> {0..<foff C 0} = {}" "?R \<inter> {foff C 0..<foff C (mnf C)} = ?R" "?R \<inter> {foff C (mnf C)..} = {}"
    using old foff_mono [of "unat old" "mnf C" C] foff_ge_0 [of C "unat old"] by (auto split: if_splits)
  have hr: "harmless s s" by (rule harmless_refl [OF td(1)])
  have ver: "hdr_fs_version (meta_block_header s) = ETSS_SUPPORTED_VERSION" using iD(2) by (simp add: hdr_ok_def)
  have R0: "?R \<inter> {foff C (mnf C)..<e} = {}" for e
    using Rtab(3) by (auto simp: disjoint_iff simp del: Int_atLeastLessThan)
  consider (none) "n = 0" | (bad) "n \<noteq> 0" "\<not> args_ok x off n"
    | (zero) "n \<noteq> 0" "args_ok x off n" "fm_lblock x = 0" | (more) "n \<noteq> 0" "args_ok x off n" "fm_lblock x \<noteq> 0"
    by blast
  then show ?thesis
  proof cases
    case none
    then have b0: "buf_ok 0 data" using bf by simp
    have "wp (file_write_commit old new (wfile x off 0) bm 0) Q E t"
    proof (rule write_finish_wp [OF inv hr pre, where mig = True and D = "\<lambda>p. mm s ?act ! p" and data = data and R = ?R])
      show "written s F (unat new) x off 0 data s'"
        if "swapped s (?B bm) (F(unat new := wfile x off 0)) (\<lambda>p. mm s ?act ! p)
          (?R \<union> {8..<foff C (mnf C)} \<union> (if True then {foff C (mnf C)..<reg_end C (tB s 0)} else {})) s'" for s'
        by (rule none_written [OF inv pre b0 that]) auto
    qed (use st1 [of bm] old F Rtab R0 ver blocks_okD(5) [OF td(2)] Q EH E2 none in
        \<open>simp_all add: two_def [symmetric] del: wp_if\<close>)
    then show ?thesis using none by (simp add: write_data_unfold wfile_def)
  next
    case bad
    have "ctx_cfg t = C" using stageD(2) [OF st] by simp
    then show ?thesis
      using bad args_ok_checks [of off x n] EA by (auto simp: write_data_unfold)
  next
    case zero
    let ?bm = "bm\<lparr>bm_phy_id := ?scr\<rparr>"
    have ln: "unat (fm_lblock x) = 0" using zero(3) by simp
    have st0: "unat (bm_data_start bm) = foff C (mnf C)" using bs(1) pr(3) ln by simp
    have ph: "bm_phy_id bm = ?act" using pr(2) ln blocks_okD(1) [OF td(2)] by simp
    have W: "?W \<subseteq> {foff C (mnf C)..}" using pD(3) st0 by auto
    have wr: "grown x off n = wfile x off n" using zero(1) by (simp add: wfile_def)
    have sp: "\<not> rel \<Longrightarrow> spoilt s E" by (rule harmless_spoilt [OF hr]) (rule EH)
    show ?thesis
    proof (rule write_data0_wp [OF st1 [of ?bm "?upd ?act"] sp zero(3,1,2) bl ph pD(3) _ _])
      show "?W \<inter> ?R = {}" using W Rtab(3) by blast
      show "mb_image C (?B ?bm) ?F (?upd ?act) (unat (fm_data_idx x) + unat off + i) = data ! i"
        if "i < unat (plen n)" for i
        using that st0 pD(3) by (subst image_data) auto
      show "mb_image C (?B ?bm) ?F (?upd ?act) p = mm s ?act ! p"
        if "p \<in> ?W" "\<not> (unat (fm_data_idx x) + unat off \<le> p \<and> p < unat (fm_data_idx x) + unat off + unat (plen n))" for p
      proof -
        have "foff C (mnf C) \<le> p" using that(1) W by blast
        then show ?thesis using that(2) by (auto simp: image_data)
      qed
      fix t' assume t': "stage s (mb_image C (?B ?bm) ?F (?upd ?act)) (?R \<union> ?W) t'"
      have "wp (file_write_commit old new (wfile x off n) ?bm n) Q E t'"
      proof (rule write_finish_wp [OF inv hr pre t', where mig = False and data = data])
        show "written s F (unat new) x off n data s'"
          if "swapped s (?B ?bm) ?F (?upd ?act)
            (?R \<union> ?W \<union> {8..<foff C (mnf C)} \<union> (if False then {foff C (mnf C)..<reg_end C (tB s 0)} else {})) s'" for s'
          by (rule lb0_written [OF inv pre bf zero(1,2,3) refl refl that]) (use Rtab(3) in \<open>auto split: if_splits\<close>)
        show "(?R \<union> ?W) \<inter> {0..<foff C 0} = {}" using Rtab(1) W foff_ge_0 [of C "mnf C"] by fastforce
        show "(?R \<union> ?W) \<inter> {foff C 0..<foff C (mnf C)} =
            (if old \<noteq> ETSS_METADATA_INVALID_INDEX \<and> old \<noteq> new then fregion old else {})"
          unfolding two_def [symmetric] using Rtab(2) W by fastforce
      qed (use old F ver blocks_okD(5) [OF td(2)] Q EH E2 zero in
        \<open>simp_all add: two_def [symmetric] del: wp_if\<close>)
      then show "(case (grown x off n, ?bm) of (x', bm') \<Rightarrow> wp (file_write_commit old new x' bm' n) Q E) t'"
        by (simp add: wr)
    qed (use pD(4) pr(4) in \<open>simp_all add: reg_end_def\<close>)
  next
    case more
    let ?bm = "bm\<lparr>bm_phy_id := sdb s\<rparr>" and ?D = "\<lambda>p. mm s ?act ! p"
    have ln: "unat (fm_lblock x) \<noteq> 0" using more(3) by (simp add: unat_eq_zero)
    have nb: "num_blocks C \<noteq> 2" by (rule more_blocks [OF more(3) pD(1)])
    note sdk = blocks_okD(5) [OF td(2) nb]
    have ids: "(?act, ?scr) \<in> {(0, 1), (1, 0)}" using td(1) by (simp add: metas_def del: metas_simps)
    have ph: "bm_phy_id bm \<notin> {0, 1, sdb s}" "bm_phy_id bm < ucast (num_blocks C)"
      using blocks_okD(3) [OF td(2) pD(1)] ln pr(2) bs(4) by simp_all
    have wr: "grown x off n = wfile x off n" using more(1) by (simp add: wfile_def)
    show ?thesis
    proof (rule write_dataL_wp [OF st1 [of ?bm ?D] EH more(3) pD(1) more(1,2) bl ph(2), where Td = "?upd (bm_phy_id bm)"])
      fix u assume u: "stage u (mb_image C (?B ?bm) ?F ?D) ?R u" and hu: "harmless s u"
        and hd: "meta_block_header u = (meta_block_header s)\<lparr>hdr_scratch_dblock := bm_phy_id bm\<rparr>"
        and mu: "mm u (sdb s) = fillM (mm s) (sdb s) ?W (?upd (bm_phy_id bm)) (sdb s)"
      have "wp (file_write_commit old new (wfile x off n) ?bm n) Q E u"
      proof (rule write_finish_wp [OF inv hu pre u, where mig = True and data = data])
        show "written s F (unat new) x off n data s'"
          if "swapped u (?B ?bm) ?F ?D
            (?R \<union> {8..<foff C (mnf C)} \<union> (if True then {foff C (mnf C)..<reg_end C (tB s 0)} else {})) s'" for s'
          by (rule lbL_written [OF inv pre bf more refl hu _ refl mu that]) (use hd in auto)
      qed (use old F Rtab R0 ver ph hd Q EH E2 more in \<open>simp_all add: two_def [symmetric] del: wp_if\<close>)
      then show "(case (grown x off n, ?bm) of (x', bm') \<Rightarrow> wp (file_write_commit old new x' bm' n) Q E) u"
        by (simp add: wr)
    qed (use pD(3,4) pr(4) ph ids sdk iD(3) nb in \<open>auto simp: reg_end_def scratch_blank_def\<close>)
  qed
qed

end

end
