(* ===== verification/Flash_Fs_Put.thy ===== *)
theory Flash_Fs_Put
  imports Flash_Fs_Store
begin

text \<open>
  \<open>etss_flash_fs_file_write\<close> against the abstract file system: a successful write maps the identifier
  to the new file, and after an error the recoverable file system is the old or the new one.
\<close>

section \<open>The abstract operation\<close>

definition new_afile :: "u32 \<Rightarrow> u32 \<Rightarrow> afile" where
  "new_afile fl m = \<lparr>af_flags = fl AND ETSS_FLASH_FS_USER_FLAGS_MASK, af_max = m, af_data = []\<rparr>"

definition atarget :: "afile option \<Rightarrow> u32 \<Rightarrow> u32 \<Rightarrow> afile option" where
  "atarget a fl m = (case a of
     None \<Rightarrow> if fl AND ETSS_FLASH_FS_FLAG_CREATE = 0 then None else Some (new_afile fl m)
   | Some f \<Rightarrow> Some (if fl AND ETSS_FLASH_FS_FLAG_TRUNCATE = 0 then f else new_afile fl m))"

text \<open>The operation reserves a new entry for a new file and for a truncated one of another size.\<close>

definition areplace :: "afile option \<Rightarrow> u32 \<Rightarrow> u32 \<Rightarrow> bool" where
  "areplace a fl m = (case a of None \<Rightarrow> False | Some f \<Rightarrow> fl AND ETSS_FLASH_FS_FLAG_TRUNCATE \<noteq> 0 \<and> af_max f \<noteq> m)"

definition aargs :: "etss_flash_fs_config_t \<Rightarrow> afile \<Rightarrow> u32 \<Rightarrow> u32 \<Rightarrow> bool" where
  "aargs C f off n \<longleftrightarrow> n = 0 \<or> ETSS_UTILS_IS_ALIGNED off (ucast (program_unit C)) \<and>
     unat off \<le> length (af_data f) \<and> unat off + unat (ETSS_UTILS_ALIGN n (ucast (program_unit C))) \<le> unat (af_max f)"

definition aput :: "etss_flash_fs_config_t \<Rightarrow> afile \<Rightarrow> u32 \<Rightarrow> u32 \<Rightarrow> buf \<Rightarrow> afile" where
  "aput C f off n data = (if n = 0 then f else f\<lparr>af_data := wr_content (erase_val C) (af_data f) (unat off)
     (unat (ETSS_UTILS_ALIGN n (ucast (program_unit C)))) (max (length (af_data f)) (unat off + unat n)) data\<rparr>)"

text \<open>The files that survive the next start: those not marked for deletion.\<close>

definition rec_files :: "(nat \<Rightarrow> etss_file_meta_t) \<Rightarrow> nat \<Rightarrow> etss_file_meta_t" where
  "rec_files F = (\<lambda>i. if fm_flags (F i) AND ETSS_FLASH_FS_FLAG_DELETE \<noteq> 0 then zero_file_meta else F i)"

section \<open>Lemmas on the abstraction\<close>

lemma zero_flags [simp]: "fm_flags zero_file_meta = 0"
  by (simp add: zero_file_meta_def)

lemma absfs_eq:
  assumes rest: "rest_ok C F"
    and used: "\<And>k. k < mnf C \<Longrightarrow> used (F k) \<Longrightarrow> h (fm_id (F k)) = Some (afile_of m B (F k))"
    and dom: "\<And>g. h g \<noteq> None \<Longrightarrow> \<exists>k<mnf C. used (F k) \<and> fm_id (F k) = g"
  shows "absfs C m B F = h"
proof
  fix g
  show "absfs C m B F g = h g"
  proof (cases "\<exists>k<mnf C. used (F k) \<and> fm_id (F k) = g")
    case True
    then obtain k where "k < mnf C" "used (F k)" "fm_id (F k) = g" by blast
    then show ?thesis using absfs_Some [OF rest] used by metis
  next
    case False
    then have "absfs C m B F g = None" by (auto simp: absfs_None)
    then show ?thesis using dom [of g] False by metis
  qed
qed

lemma absfs_dom:
  assumes "absfs C m B F g \<noteq> None"
  shows "\<exists>k<mnf C. used (F k) \<and> fm_id (F k) = g"
  using assms by (auto simp: absfs_None)

lemma rec_files_rest: "rest_ok C F \<Longrightarrow> used (rec_files F k) \<longleftrightarrow> used (F k)" if "k < mnf C"
  using that by (auto simp: rec_files_def rest_ok_def)

lemma rec_files_used: "used (rec_files F k) \<Longrightarrow> rec_files F k = F k \<and> used (F k) \<and> fm_flags (F k) AND ETSS_FLASH_FS_FLAG_DELETE = 0"
  by (auto simp: rec_files_def split: if_splits)

lemma rec_files_ok:
  assumes "\<And>i j. i < mnf C \<Longrightarrow> j < mnf C \<Longrightarrow> used (rec_files F i) \<Longrightarrow> used (rec_files F j) \<Longrightarrow> fm_id (F i) = fm_id (F j) \<Longrightarrow> i = j"
  shows "rest_ok C (rec_files F)"
  unfolding rest_ok_def
proof (intro conjI allI impI)
  fix i j assume ij: "i < mnf C" "j < mnf C" "used (rec_files F i)" "fm_id (rec_files F i) = fm_id (rec_files F j)"
  then have "used (rec_files F j)" by (simp add: used_def)
  then show "i = j" using assms [OF ij(1,2,3)] ij rec_files_used [of F i] rec_files_used [of F j] by simp
qed (auto simp: rec_files_def zero_file_meta_def)

lemma absfs_rec:
  assumes "rest_ok C F"
  shows "absfs C m B (rec_files F) = absfs C m B F"
proof (rule absfs_eq)
  show "rest_ok C (rec_files F)"
    using assms rec_files_used by (intro rec_files_ok) (metis rest_ok_def)
  show "absfs C m B F (fm_id (rec_files F k)) = Some (afile_of m B (rec_files F k))"
    if "k < mnf C" "used (rec_files F k)" for k
    using rec_files_used [OF that(2)] absfs_Some [OF assms that(1)] by simp
  show "\<exists>k<mnf C. used (rec_files F k) \<and> fm_id (rec_files F k) = g" if "absfs C m B F g \<noteq> None" for g
    using absfs_dom [OF that] rec_files_rest [OF _ assms] rec_files_used by metis
qed

context fs_dev
begin

definition fs_rec :: "'d fs_state \<Rightarrow> buf \<Rightarrow> afile option" where
  "fs_rec s = absfs C (mm s) (tB s) (rec_files (tF s))"

definition free_entries :: "'d fs_state \<Rightarrow> nat" where
  "free_entries s = length (filter (\<lambda>i. \<not> used (tF s i)) [0..<mnf C])"

definition no_room :: "'d fs_state \<Rightarrow> u32 \<Rightarrow> bool \<Rightarrow> bool" where
  "no_room s m spare \<longleftrightarrow> (\<forall>l<nad C. bm_free_size (tB s l) < m) \<or> free_entries s < (if spare then 1 else 2)"

lemma fs_rec_rest: "at_rest s \<Longrightarrow> fs_rec s = fs_abs s"
  by (simp add: fs_rec_def fs_abs_def at_rest_def absfs_rec)

lemma afile_len:
  assumes "tabs_ok s" and "files_ok C (tB s) F" and "i < mnf C" and "used (F i)"
  shows "length (content (mm s) (tB s) (F i)) = unat (fm_cur_size (F i))"
proof -
  note td = tabs_okD [OF assms(1)]
  have l: "unat (fm_lblock (F i)) < nad C" using validate_file_meta_Inr(1) [OF cfg files_okD(2) [OF assms(2,3)]] .
  note bs = block_start [OF cfg td(2,4) l]
  have "length (mm s (bm_phy_id (tB s (unat (fm_lblock (F i)))))) = unat (block_size C)"
    using bs(4) td(6) by (simp add: mm_length)
  moreover have "unat (fm_cur_size (F i)) \<le> unat (fm_max_size (F i))"
    using validate_file_meta_Inr(2) [OF cfg files_okD(2) [OF assms(2,3)]] assms(4) by (simp add: used_def)
  ultimately show ?thesis using files_okD(3) [OF assms(2-4)] bs(3) by (simp add: content_def length_bslice)
qed

lemma harmless_rec:
  assumes tab: "tabs_ok s" and ro: "rest_ok C (rec_files (tF s))" and h: "harmless s s'"
  shows "fs_rec s' = fs_rec s"
proof -
  note td = tabs_okD [OF tab] and ht = harmless_tables [OF tab h]
  have same: "afile_of (mm s') (tB s') (rec_files (tF s) k) = afile_of (mm s) (tB s) (rec_files (tF s) k)"
    if "k < mnf C" "used (rec_files (tF s) k)" for k
  proof -
    have "unat (fm_lblock (tF s k)) < nad C" using validate_file_meta_Inr(1) [OF cfg files_okD(2) [OF td(3) that(1)]] .
    then show ?thesis
      using ht(6) rec_files_used [OF that(2)] by (simp add: afile_of_def content_def ht(2))
  qed
  show ?thesis
    unfolding fs_rec_def ht(3)
    by (rule absfs_eq [OF ro]) (use same absfs_Some [OF ro] absfs_dom in auto)
qed

lemma rest_rec: "at_rest s \<Longrightarrow> rest_ok C (rec_files (tF s))"
  unfolding at_rest_def by (intro rec_files_ok) (metis rec_files_used rest_ok_def)

lemma find_free_count:
  assumes "\<And>i. i \<in> set is \<Longrightarrow> f i = Inr (g i)" and "ETSS_METADATA_INVALID_INDEX \<notin> set is"
  shows "find_free f spare is = ETSS_METADATA_INVALID_INDEX \<longleftrightarrow>
    length (filter (\<lambda>i. \<not> used (g i)) is) < (if spare then 1 else 2)"
  using assms
proof (induction "is" arbitrary: spare)
  case (Cons i "is")
  then have "i \<noteq> ETSS_METADATA_INVALID_INDEX" by auto
  then show ?case using Cons.IH Cons.prems by (auto simp: used_def)
qed simp

lemma reserve_Inl:
  assumes "tabs_ok s" and "reserve_result s fid spare len fl = Inl e"
  shows "e = PSA_ERROR_INSUFFICIENT_STORAGE \<and> no_room s len spare"
proof -
  have fB: "\<And>l. l \<in> set (lblock_idxs C) \<Longrightarrow> rB s l = Inr (tB s (unat l))"
    using tabs_ok_rB [OF assms(1)] by (simp add: lblock_idxs_unat cfg)
  have fF: "\<And>i. i \<in> set (file_idxs C) \<Longrightarrow> rF s i = Inr (tF s (unat i))"
    using tabs_ok_rF [OF assms(1)] by (simp add: file_idxs_unat)
  have inv: "ETSS_METADATA_INVALID_INDEX \<notin> set (file_idxs C)"
    using mnf_less [of C] by (simp add: file_idxs_unat invalid_idx)
  have cnt: "length (filter (\<lambda>i. \<not> used (tF s (unat i))) (file_idxs C)) = free_entries s"
  proof -
    have m: "map unat (file_idxs C) = [0..<mnf C]"
      using mnf_less [of C] by (intro nth_equalityI) (simp_all add: nth_u32_upto unat_of_nat_u32 mnf_def)
    show ?thesis unfolding free_entries_def m [symmetric] filter_map length_map comp_def ..
  qed
  show ?thesis
  proof (cases "find_room C (rB s) fid len fl (lblock_idxs C)")
    case (Inl e')
    have r: "\<forall>l\<in>set (lblock_idxs C). bm_free_size (tB s (unat l)) < len"
      using find_room_Inl [where f = "rB s" and g = "\<lambda>l. tB s (unat l)", OF fB Inl] .
    have "bm_free_size (tB s l) < len" if "l < nad C" for l
    proof -
      have u: "unat (of_nat l :: u32) = l" using that nad_less [of C] by (simp add: unat_of_nat_u32)
      then have "(of_nat l :: u32) \<in> set (lblock_idxs C)" using that by (simp add: lblock_idxs_unat cfg)
      then show ?thesis using r u by force
    qed
    then show ?thesis using assms(2) Inl by (auto simp: reserve_result_def no_room_def)
  next
    case (Inr r)
    then have "find_free (rF s) spare (file_idxs C) = ETSS_METADATA_INVALID_INDEX \<and> e = PSA_ERROR_INSUFFICIENT_STORAGE"
      using assms(2) by (auto simp: reserve_result_def Let_def split: if_splits prod.splits)
    then show ?thesis
      using find_free_count [where f = "rF s" and g = "\<lambda>i. tF s (unat i)" and spare = spare, OF fF inv] cnt
      by (simp add: no_room_def)
  qed
qed

text \<open>A search that fails on the device reports \<open>PSA_ERROR_GENERIC_ERROR\<close>, never a missing file.\<close>

lemma file_idx_loop_wp:
  assumes "act_ok s" and "\<And>i. i \<in> set is \<Longrightarrow> unat i < mnf C"
    and "\<And>a d. find_file (rF s) (\<lambda>x. fm_id x = fid) is = Inr a \<Longrightarrow> dok d \<Longrightarrow> mem d = mm s \<Longrightarrow> Q a (s\<lparr>flash := d\<rparr>)"
    and "\<And>e d. find_file (rF s) (\<lambda>x. fm_id x = fid) is = Inl e \<or> \<not> rel \<and> e = PSA_ERROR_GENERIC_ERROR \<Longrightarrow>
      dok d \<Longrightarrow> mem d = mm s \<Longrightarrow> E e (s\<lparr>flash := d\<rparr>)"
  shows "wp (get_file_idx_loop fid is) Q E s"
  using assms
proof (induction "is" arbitrary: s)
  case Nil
  have "E PSA_ERROR_DOES_NOT_EXIST (s\<lparr>flash := flash s\<rparr>)" by (rule Nil.prems(4)) (use Nil.prems(1) in auto)
  then show ?case by simp
next
  case (Cons i "is")
  have i: "unat i < mnf C" using Cons.prems(2) by simp
  show ?case
    unfolding get_file_idx_loop.simps wp_bindE wp_orError
  proof (rule reads_wp [OF reads_file_meta [OF Cons.prems(1) i]])
    fix x d assume x: "rF s i = Inr x" and d: "dok d" "mem d = mm s"
    have "wp (get_file_idx_loop fid is) Q E (s\<lparr>flash := d\<rparr>)" if "fm_id x \<noteq> fid"
      by (rule Cons.IH) (use Cons.prems x d that in auto)
    moreover have "Q i (s\<lparr>flash := d\<rparr>)" if "fm_id x = fid" by (rule Cons.prems(3)) (use x d that in auto)
    ultimately show "wp (if fm_id x = fid then returnE i else get_file_idx_loop fid is) Q E (s\<lparr>flash := d\<rparr>)" by simp
  next
    fix e :: psa_error and d assume "rF s i = Inl e \<or> \<not> rel" "dok d" "mem d = mm s"
    then show "E PSA_ERROR_GENERIC_ERROR (s\<lparr>flash := d\<rparr>)" by (intro Cons.prems(4)) auto
  qed
qed

lemma get_file_idx_wp:
  assumes "act_ok s"
    and "\<And>a d. find_file (rF s) (\<lambda>x. fm_id x = fid) (file_idxs C) = Inr a \<Longrightarrow> dok d \<Longrightarrow> mem d = mm s \<Longrightarrow> Q a (s\<lparr>flash := d\<rparr>)"
    and "\<And>e d. find_file (rF s) (\<lambda>x. fm_id x = fid) (file_idxs C) = Inl e \<or> \<not> rel \<and> e = PSA_ERROR_GENERIC_ERROR \<Longrightarrow>
      dok d \<Longrightarrow> mem d = mm s \<Longrightarrow> E e (s\<lparr>flash := d\<rparr>)"
  shows "wp (etss_flash_fs_mblock_get_file_idx fid) Q E s"
  unfolding etss_flash_fs_mblock_get_file_idx_def wp_withS act_ok_cfg [OF assms(1)]
  by (rule file_idx_loop_wp [OF assms(1)]) (use assms file_idxs_unat in auto)

section \<open>The targets\<close>

lemma pre_reuse:
  assumes tab: "tabs_ok s" and i: "i < mnf C" "used (tF s i)"
    and x: "fm_lblock x = fm_lblock (tF s i)" "fm_data_idx x = fm_data_idx (tF s i)"
      "fm_max_size x = fm_max_size (tF s i)" "fm_id x = fm_id (tF s i)"
    and cur: "unat (fm_cur_size x) \<le> unat (fm_max_size x)"
  shows "wr_pre s (tF s) i x (tB s (unat (fm_lblock x)))"
proof -
  note td = tabs_okD [OF tab]
  have u: "used x" using i(2) x(4) by (simp add: used_def)
  have l: "unat (fm_lblock x) < nad C" using validate_file_meta_Inr(1) [OF cfg files_okD(2) [OF td(3) i(1)]] x(1) by simp
  note bs = block_start [OF cfg td(2,4) l]
  have "files_ok C (tB s) ((tF s)(i := x))" by (rule files_ok_same_region [OF cfg td(3) i(1) x]) (use cur in simp)
  then show ?thesis
    unfolding wr_pre_def fun_upd_triv using i u td(3) bs files_okD(3) [OF td(3) i] x cur by auto
qed

lemma pre_new:
  assumes tab: "tabs_ok s" and fo: "files_ok C (tB s) F" and r: "reserve_result s fid spare len fl = Inr (j, x, bm)"
    and F: "\<And>k. \<not> used (tF s k) \<Longrightarrow> \<not> used (F k)"
    and fid: "etss_utils_validate_fid fid = Inr ()" "length fid = 12" and m: "unat len \<le> unat (max_file_size C)"
  shows "wr_pre s F (unat j) x bm" "fm_id x = fid" "fm_flags x = fl" "fm_max_size x = len" "fm_cur_size x = 0"
    "unat j < mnf C" "\<not> used (tF s (unat j))" "j \<noteq> ETSS_METADATA_INVALID_INDEX"
proof -
  note td = tabs_okD [OF tab]
  obtain l where l: "unat j < mnf C" "\<not> used (tF s (unat j))" "unat l < nad C" "j \<noteq> ETSS_METADATA_INVALID_INDEX"
    "len \<le> bm_free_size (tB s (unat l))"
    "bm = (tB s (unat l))\<lparr>bm_free_size := bm_free_size (tB s (unat l)) - len\<rparr>"
    "x = \<lparr>fm_lblock = l, fm_data_idx = block_size C - bm_free_size (tB s (unat l)), fm_cur_size = 0,
          fm_max_size = len, fm_flags = fl, fm_id = take ETSS_FILE_ID_SIZE fid\<rparr>"
    by (rule reserve_Inr [OF tab r])
  show id: "fm_id x = fid" and "fm_flags x = fl" "fm_max_size x = len" "fm_cur_size x = 0"
    using l(7) fid(2) by (simp_all add: ETSS_FILE_ID_SIZE_def)
  show "unat j < mnf C" "\<not> used (tF s (unat j))" "j \<noteq> ETSS_METADATA_INVALID_INDEX" by (fact l)+
  have u: "used x" using id fid by (simp add: used_def)
  let ?B = "(tB s)(unat l := bm)"
  have lx: "fm_lblock x = l" using l(7) by simp
  note nw = files_ok_new [OF cfg td(2,4) fo l(1), of x ?B]
  have new: "files_ok C ?B (F(unat j := x))" "unat (fm_data_idx x) = reg_end C (tB s (unat l))"
    "reg_end C (?B (unat l)) = reg_end C (tB s (unat l)) + unat len"
    using nw F [OF l(2)] l u id fid m by (simp_all add: lx)
  note bs = block_start [OF cfg td(2,4) l(3)]
  have "unat (bm_free_size bm) \<le> unat (bm_free_size (tB s (unat l)))"
    using l(5) by (simp add: l(6) unat_sub_u32 word_le_nat_alt)
  then show "wr_pre s F (unat j) x bm"
    unfolding wr_pre_def lx using l(1) u fo new bs by (auto simp: l(6,7))
qed

section \<open>Contents\<close>

lemma wr_len:
  assumes tab: "tabs_ok s" and pre: "wr_pre s F j x bm"
  shows "length (content (mm s) (tB s) x) = unat (fm_cur_size x)"
proof -
  note td = tabs_okD [OF tab] and pD = wr_preD [OF pre]
  note bs = block_start [OF cfg td(2,4) pD(1)]
  have "length (mm s (bm_phy_id (tB s (unat (fm_lblock x))))) = unat (block_size C)"
    using bs(4) td(6) by (simp add: mm_length)
  then show ?thesis using pre bs(3) by (simp add: content_def length_bslice wr_pre_def)
qed

lemma wr_afile:
  assumes tab: "tabs_ok s" and pre: "wr_pre s F j x bm" and bf: "buf_ok n data"
    and w: "written s F j x off n data s'" and ar: "n = 0 \<or> args_ok x off n"
  shows "afile_of (mm s') (tB s') (wfile x off n) = aput C (afile_of (mm s) (tB s) x) off n data"
proof -
  have bu: "unat n \<le> unat (plen n)" using bf by (simp add: buf_ok_def)
  have "unat (fm_cur_size (grown x off n)) = max (unat (fm_cur_size x)) (unat off + unat n)" if "n \<noteq> 0"
    using ar that grown_cur [OF _ bu] by simp
  then show ?thesis
    using w wr_len [OF tab pre]
    by (auto simp: afile_of_def aput_def written_def wdata_def plen_def)
qed

lemma wr_aargs:
  assumes tab: "tabs_ok s" and pre: "wr_pre s F j x bm"
  shows "aargs C (afile_of (mm s) (tB s) x) off n \<longleftrightarrow> n = 0 \<or> args_ok x off n"
  using wr_len [OF tab pre] by (auto simp: aargs_def args_ok_def afile_of_def plen_def)

text \<open>The file systems before and after a write.\<close>

lemma written_rec:
  assumes rest: "at_rest s" and w: "written s F j x off n data s'" and j: "j < mnf C" "used x" "fm_id x = fid"
    and fl: "fm_flags x AND ETSS_FLASH_FS_FLAG_DELETE = 0"
    and other: "\<And>k. k < mnf C \<Longrightarrow> k \<noteq> j \<Longrightarrow> used (rec_files F k) \<Longrightarrow> F k = tF s k \<and> fm_id (F k) \<noteq> fid"
    and keep: "\<And>k. k < mnf C \<Longrightarrow> used (tF s k) \<Longrightarrow> fm_id (tF s k) \<noteq> fid \<Longrightarrow> k \<noteq> j \<and> F k = tF s k"
  shows "rest_ok C (rec_files (tF s'))"
    and "fs_rec s' = (fs_abs s)(fid \<mapsto> afile_of (mm s') (tB s') (wfile x off n))"
proof -
  have ro: "rest_ok C (tF s)" and inv: "fs_inv s" using rest by (simp_all add: at_rest_def)
  have F': "tF s' k = (F(j := wfile x off n)) k" if "k < mnf C" for k using w that by (simp add: written_def)
  have rj: "rec_files (tF s') j = wfile x off n" using F' [OF j(1)] fl by (simp add: rec_files_def)
  have rk: "rec_files (tF s') k = rec_files F k" if "k < mnf C" "k \<noteq> j" for k
    using F' [OF that(1)] that(2) by (simp add: rec_files_def)
  have uk: "rec_files F k = tF s k" "used (tF s k)" "fm_id (tF s k) \<noteq> fid" if "k < mnf C" "k \<noteq> j" "used (rec_files F k)" for k
    using other [OF that] rec_files_used [OF that(3)] by auto
  show r': "rest_ok C (rec_files (tF s'))"
  proof (rule rec_files_ok)
    fix i k assume ik: "i < mnf C" "k < mnf C" "used (rec_files (tF s') i)" "used (rec_files (tF s') k)"
      "fm_id (tF s' i) = fm_id (tF s' k)"
    have e: "fm_id (rec_files (tF s') i) = fm_id (rec_files (tF s') k)"
      using rec_files_used [OF ik(3)] rec_files_used [OF ik(4)] ik(5) by simp
    have un: "a = b" if "a < mnf C" "b < mnf C" "used (tF s a)" "fm_id (tF s a) = fm_id (tF s b)" for a b
      using ro that unfolding rest_ok_def by blast
    show "i = k"
      using ik(1-4) e rj rk [of i] rk [of k] uk [of i] uk [of k] j(3) un [of i k]
      by (cases "i = j"; cases "k = j") simp_all
  qed
  show "fs_rec s' = (fs_abs s)(fid \<mapsto> afile_of (mm s') (tB s') (wfile x off n))"
    unfolding fs_rec_def
  proof (rule absfs_eq [OF r'])
    fix k assume k: "k < mnf C" "used (rec_files (tF s') k)"
    show "((fs_abs s)(fid \<mapsto> afile_of (mm s') (tB s') (wfile x off n))) (fm_id (rec_files (tF s') k)) =
        Some (afile_of (mm s') (tB s') (rec_files (tF s') k))"
    proof (cases "k = j")
      case True
      then show ?thesis using rj j(3) by simp
    next
      case False
      have u: "used (rec_files F k)" using k rk False by simp
      have Fk: "F k = tF s k" "used (F k)" using other [OF k(1) False u] rec_files_used [OF u] by auto
      have "content (mm s') (tB s') (tF s k) = content (mm s) (tB s) (tF s k)"
        using w k(1) False Fk(2) unfolding written_def Fk(1) [symmetric] by blast
      then show ?thesis
        using uk [OF k(1) False u] rk [OF k(1) False] absfs_Some [OF ro k(1)] by (simp add: fs_abs_def afile_of_def)
    qed
  next
    fix g assume g: "((fs_abs s)(fid \<mapsto> afile_of (mm s') (tB s') (wfile x off n))) g \<noteq> None"
    show "\<exists>k<mnf C. used (rec_files (tF s') k) \<and> fm_id (rec_files (tF s') k) = g"
    proof (cases "g = fid")
      case True
      then show ?thesis using rj j by auto
    next
      case False
      then obtain k where k: "k < mnf C" "used (tF s k)" "fm_id (tF s k) = g"
        using g absfs_dom [of C "mm s" "tB s" "tF s" g] by (auto simp: fs_abs_def)
      have "rec_files F k = tF s k"
        using keep [OF k(1,2)] k False ro by (auto simp: rec_files_def rest_ok_def)
      then show ?thesis using keep [OF k(1,2)] k False rk [OF k(1)] by (intro exI [of _ k]) simp
    qed
  qed
qed

text \<open>When no entry was marked, the state is at rest again.\<close>

lemma written_rest:
  assumes rest: "at_rest s" and inv: "fs_inv s'" and w: "written s (tF s) j x off n data s'" and j: "j < mnf C"
    and fl: "fm_flags x AND ETSS_FLASH_FS_FLAG_DELETE = 0" and ro: "rest_ok C (rec_files (tF s'))"
  shows "at_rest s'"
proof -
  have F': "tF s' k = ((tF s)(j := wfile x off n)) k" if "k < mnf C" for k using w that by (simp add: written_def)
  have nf: "fm_flags (tF s' k) AND ETSS_FLASH_FS_FLAG_DELETE = 0" if "k < mnf C" for k
    using F' [OF that(1)] that fl rest by (auto simp: at_rest_def rest_ok_def split: if_splits)
  have "rest_ok C (tF s')"
    unfolding rest_ok_def
  proof (intro conjI allI impI)
    fix i k assume ik: "i < mnf C" "k < mnf C" "used (tF s' i)" "fm_id (tF s' i) = fm_id (tF s' k)"
    then have "used (tF s' k)" by (simp add: used_def)
    then have "rec_files (tF s') i = tF s' i" "rec_files (tF s') k = tF s' k"
      using nf ik by (simp_all add: rec_files_def)
    then show "i = k" using ro ik unfolding rest_ok_def by metis
  qed (use nf in auto)
  then show ?thesis using inv by (simp add: at_rest_def)
qed

text \<open>Deleting the only marked entry yields the recoverable file system.\<close>

lemma deleted_rec:
  assumes d: "deleted s i s'" and i: "i < mnf C" and ro: "rest_ok C (rec_files (tF s))"
    and mk: "\<And>k. k < mnf C \<Longrightarrow> fm_flags (tF s k) AND ETSS_FLASH_FS_FLAG_DELETE \<noteq> 0 \<longleftrightarrow> k = i"
  shows "rest_ok C (tF s')" and "fs_abs s' = fs_rec s" and "fs_rec s' = fs_rec s"
proof -
  have F': "tF s' k = del_files (tF s) i k" if "k < mnf C" for k using d that by (simp add: deleted_def)
  have sh: "used (tF s' k) = (k \<noteq> i \<and> used (tF s k))" "k \<noteq> i \<Longrightarrow> fm_id (tF s' k) = fm_id (tF s k)"
    "fm_flags (tF s' k) = (if k = i then 0 else fm_flags (tF s k))"
    "k \<noteq> i \<Longrightarrow> fm_max_size (tF s' k) = fm_max_size (tF s k)"
    if "k < mnf C" for k
    using F' [OF that] by (auto simp: del_files_def)
  have rk: "used (rec_files (tF s) k) \<longleftrightarrow> k \<noteq> i \<and> used (tF s k)" "k \<noteq> i \<Longrightarrow> used (tF s k) \<Longrightarrow> rec_files (tF s) k = tF s k"
    if "k < mnf C" for k
    using mk [OF that] by (auto simp: rec_files_def)
  show r': "rest_ok C (tF s')"
    unfolding rest_ok_def
  proof (intro conjI allI impI)
    fix k l assume kl: "k < mnf C" "l < mnf C" "used (tF s' k)" "fm_id (tF s' k) = fm_id (tF s' l)"
    then have "used (tF s' l)" by (simp add: used_def)
    then show "k = l" using kl sh rk ro unfolding rest_ok_def by metis
  next
    fix k assume k: "k < mnf C"
    show "fm_flags (tF s' k) AND ETSS_FLASH_FS_FLAG_DELETE = 0" using sh(3) [OF k] mk [OF k] by (cases "k = i") auto
  qed
  show "fs_abs s' = fs_rec s"
    unfolding fs_abs_def fs_rec_def
  proof (rule absfs_eq [OF r'])
    fix k assume k: "k < mnf C" "used (tF s' k)"
    then have u: "k \<noteq> i" "used (tF s k)" using sh by auto
    have "content (mm s') (tB s') (tF s' k) = content (mm s) (tB s) (tF s k)" using d k(1) u unfolding deleted_def by blast
    then have "afile_of (mm s') (tB s') (tF s' k) = afile_of (mm s) (tB s) (tF s k)"
      using sh [OF k(1)] u by (simp add: afile_of_def)
    then show "absfs C (mm s) (tB s) (rec_files (tF s)) (fm_id (tF s' k)) = Some (afile_of (mm s') (tB s') (tF s' k))"
      using absfs_Some [OF ro k(1)] rk [OF k(1)] u sh [OF k(1)] by simp
  next
    fix g assume "absfs C (mm s) (tB s) (rec_files (tF s)) g \<noteq> None"
    then show "\<exists>k<mnf C. used (tF s' k) \<and> fm_id (tF s' k) = g"
      using absfs_dom sh rk by (metis (no_types, lifting))
  qed
  then show "fs_rec s' = fs_rec s" using r' by (simp add: fs_rec_def fs_abs_def absfs_rec)
qed

end

end
