(* ===== verification/Flash_Fs_File_Write.thy ===== *)
theory Flash_Fs_File_Write
  imports Flash_Fs_Put
begin

text \<open>
  The theorem on \<open>etss_flash_fs_file_write\<close>: for a file system at rest it implements the abstract
  write of the prelude theories on every branch, and its errors are exactly classified.
\<close>

context fs_dev
begin

definition put_post :: "'d fs_state \<Rightarrow> buf \<Rightarrow> u32 \<Rightarrow> u32 \<Rightarrow> u32 \<Rightarrow> u32 \<Rightarrow> buf \<Rightarrow> 'd fs_state \<Rightarrow> bool" where
  "put_post s fid fl m off n data s' \<longleftrightarrow> (\<exists>a. atarget (fs_abs s fid) fl m = Some a \<and> aargs C a off n \<and>
     fs_rec s' = (fs_abs s)(fid \<mapsto> aput C a off n data))"

definition put_err :: "'d fs_state \<Rightarrow> buf \<Rightarrow> u32 \<Rightarrow> u32 \<Rightarrow> u32 \<Rightarrow> u32 \<Rightarrow> psa_error \<Rightarrow> bool" where
  "put_err s fid fl m off n e \<longleftrightarrow>
     atarget (fs_abs s fid) fl m = None \<and> e = PSA_ERROR_DOES_NOT_EXIST \<or>
     (\<exists>a. atarget (fs_abs s fid) fl m = Some a \<and> \<not> aargs C a off n) \<and> e = PSA_ERROR_GENERIC_ERROR \<or>
     (fs_abs s fid = None \<or> areplace (fs_abs s fid) fl m) \<and>
       (unat (max_file_size C) < unat m \<and> e = PSA_ERROR_INVALID_ARGUMENT \<or>
        no_room s m (areplace (fs_abs s fid) fl m) \<and> e = PSA_ERROR_INSUFFICIENT_STORAGE)"

text \<open>
  \<open>quiet s s'\<close>: nothing was written but, behind the header, to the scratch metadata block.
\<close>

definition quiet :: "'d fs_state \<Rightarrow> 'd fs_state \<Rightarrow> bool" where
  "quiet s s' \<longleftrightarrow> (\<exists>T R. stage s T R s' \<and> R \<inter> {0..<8} = {})"

definition put_fail :: "'d fs_state \<Rightarrow> buf \<Rightarrow> u32 \<Rightarrow> u32 \<Rightarrow> u32 \<Rightarrow> u32 \<Rightarrow> buf \<Rightarrow> psa_error \<Rightarrow> 'd fs_state \<Rightarrow> bool" where
  "put_fail s fid fl m off n data e s' \<longleftrightarrow> sok s' \<and>
     (fs_rec s' = fs_abs s \<and> (rel \<longrightarrow> put_err s fid fl m off n e \<and> quiet s s' \<and>
        (\<not> areplace (fs_abs s fid) fl m \<longrightarrow> at_rest s' \<and> fs_abs s' = fs_abs s)) \<or>
      \<not> rel \<and> put_post s fid fl m off n data s')"

section \<open>Stage 1\<close>

lemma find_old_wp:
  assumes inv: "fs_inv s" and EH: "\<And>e s'. \<not> rel \<Longrightarrow> harmless s s' \<Longrightarrow> E e s'"
    and none0: "\<And>s'. (\<And>k. k < mnf C \<Longrightarrow> fm_id (tF s k) \<noteq> fid) \<Longrightarrow> fl AND ETSS_FLASH_FS_FLAG_CREATE = 0 \<Longrightarrow>
      stage s T {} s' \<Longrightarrow> E PSA_ERROR_DOES_NOT_EXIST s'"
    and none: "\<And>t. (\<And>k. k < mnf C \<Longrightarrow> fm_id (tF s k) \<noteq> fid) \<Longrightarrow> fl AND ETSS_FLASH_FS_FLAG_CREATE \<noteq> 0 \<Longrightarrow>
      stage s T {} t \<Longrightarrow> Q (ETSS_METADATA_INVALID_INDEX, ETSS_METADATA_INVALID_INDEX, zero_file_meta) t"
    and keep: "\<And>i t. unat i < mnf C \<Longrightarrow> fm_id (tF s (unat i)) = fid \<Longrightarrow> fl AND ETSS_FLASH_FS_FLAG_TRUNCATE = 0 \<Longrightarrow>
      stage s T {} t \<Longrightarrow> Q (i, i, tF s (unat i)) t"
    and trunc: "\<And>i t. unat i < mnf C \<Longrightarrow> fm_id (tF s (unat i)) = fid \<Longrightarrow> fl AND ETSS_FLASH_FS_FLAG_TRUNCATE \<noteq> 0 \<Longrightarrow>
      fm_max_size (tF s (unat i)) = m \<Longrightarrow> stage s T {} t \<Longrightarrow>
      Q (i, i, (tF s (unat i))\<lparr>fm_cur_size := 0, fm_flags := fl\<rparr>) t"
    and repl: "\<And>i t x. unat i < mnf C \<Longrightarrow> fm_id (tF s (unat i)) = fid \<Longrightarrow> fl AND ETSS_FLASH_FS_FLAG_TRUNCATE \<noteq> 0 \<Longrightarrow>
      fm_max_size (tF s (unat i)) \<noteq> m \<Longrightarrow>
      x = (tF s (unat i))\<lparr>fm_flags := fm_flags (tF s (unat i)) OR ETSS_FLASH_FS_FLAG_DELETE\<rparr> \<Longrightarrow>
      stage s (\<lambda>p. encode_file_meta x ! (p - foff C (unat i))) (fregion i) t \<Longrightarrow>
      Q (i, ETSS_METADATA_INVALID_INDEX, x) t"
  shows "wp (file_write_find_old fid fl m) Q E s"
proof -
  note iD = fs_invD [OF inv] and td = tabs_okD [OF fs_invD(1) [OF inv]]
  have er: "erased_on (mm s) (scratch_metablock s) whole" using iD(3) by (simp add: scratch_blank_def)
  have sp: "\<not> rel \<Longrightarrow> spoilt s E'" if "\<And>e s'. \<not> rel \<Longrightarrow> harmless s s' \<Longrightarrow> E' e s'" for E'
    by (rule harmless_spoilt [OF harmless_refl [OF td(1)]]) (rule that)
  have hs: "harmless s (s\<lparr>flash := d\<rparr>)" if "dok d" "mem d = mm s" for d
    by (rule harmless_upd [OF harmless_refl [OF td(1)]]) (use that in auto)
  have st: "stage s T' {} (s\<lparr>flash := d\<rparr>)" if "dok d" "mem d = mm s" for d T'
    by (rule stage_same [OF stage_init [OF td(1) er] that])
  show ?thesis
    unfolding file_write_find_old_def wp_tryE
  proof (rule get_file_idx_wp [OF td(5)])
    fix i d assume i: "find_file (rF s) (\<lambda>x. fm_id x = fid) (file_idxs C) = Inr i" and d: "dok d" "mem d = mm s"
    have f: "unat i < mnf C" "fm_id (tF s (unat i)) = fid"
      using find_file_Inr [OF i] tabs_ok_rF [OF iD(1)] by (auto simp: file_idxs_unat)
    let ?s = "s\<lparr>flash := d\<rparr>" and ?x = "tF s (unat i)"
    let ?y = "?x\<lparr>fm_flags := fm_flags ?x OR ETSS_FLASH_FS_FLAG_DELETE\<rparr>"
    have "wp (etss_flash_fs_mblock_read_file_meta i) (\<lambda>x. wp (if fl AND ETSS_FLASH_FS_FLAG_TRUNCATE \<noteq> 0 then
           (if fm_max_size x = m then returnE (i, i, x\<lparr>fm_cur_size := 0, fm_flags := fl\<rparr>)
            else (let file_meta' = x\<lparr>fm_flags := fm_flags x OR ETSS_FLASH_FS_FLAG_DELETE\<rparr> in
               bindE (orError (etss_flash_fs_mblock_update_scratch_file_meta i file_meta') PSA_ERROR_GENERIC_ERROR) (\<lambda>_.
               returnE (i, ETSS_METADATA_INVALID_INDEX, file_meta'))))
         else returnE (i, i, x)) Q E) (\<lambda>_. E PSA_ERROR_DOES_NOT_EXIST) ?s"
    proof (rule reads_wp [OF reads_file_meta])
      show "act_ok ?s" "unat i < mnf C" using td(5) d f by simp_all
      fix x d' assume x: "rF ?s i = Inr x" and d': "dok d'" "mem d' = mm ?s"
      have xx: "x = ?x" using x tabs_ok_rF [OF iD(1) f(1)] d by simp
      have e: "?s\<lparr>flash := d'\<rparr> = s\<lparr>flash := d'\<rparr>" "mem d' = mm s" using d d' by simp_all
      have "wp (etss_flash_fs_mblock_update_scratch_file_meta i ?y) (\<lambda>_. Q (i, ETSS_METADATA_INVALID_INDEX, ?y))
          (\<lambda>_. E PSA_ERROR_GENERIC_ERROR) (s\<lparr>flash := d'\<rparr>)"
        if "fl AND ETSS_FLASH_FS_FLAG_TRUNCATE \<noteq> 0" "fm_max_size ?x \<noteq> m"
      proof (rule stage_file_meta [OF st [OF d'(1) e(2)] sp f(1)])
        show "length (fm_id ?y) = 12" using files_okD(1) [OF td(3) f(1)] by simp
        show "Q (i, ETSS_METADATA_INVALID_INDEX, ?y) t'"
          if "stage s (\<lambda>p. encode_file_meta ?y ! (p - foff C (unat i))) ({} \<union> fregion i) t'" for t'
          by (rule repl) (use f that \<open>fl AND _ \<noteq> 0\<close> \<open>fm_max_size ?x \<noteq> m\<close> in simp_all)
      qed (use EH in auto)
      then show "wp (if fl AND ETSS_FLASH_FS_FLAG_TRUNCATE \<noteq> 0 then
           (if fm_max_size x = m then returnE (i, i, x\<lparr>fm_cur_size := 0, fm_flags := fl\<rparr>)
            else (let file_meta' = x\<lparr>fm_flags := fm_flags x OR ETSS_FLASH_FS_FLAG_DELETE\<rparr> in
               bindE (orError (etss_flash_fs_mblock_update_scratch_file_meta i file_meta') PSA_ERROR_GENERIC_ERROR) (\<lambda>_.
               returnE (i, ETSS_METADATA_INVALID_INDEX, file_meta'))))
         else returnE (i, i, x)) Q E (?s\<lparr>flash := d'\<rparr>)"
        unfolding xx e(1) using keep [OF f] trunc [OF f] st [OF d'(1) e(2)] by (simp add: wp_fun Let_def)
    next
      fix e :: psa_error and d' assume "rF ?s i = Inl e \<or> \<not> rel" "dok d'" "mem d' = mm ?s"
      then show "E PSA_ERROR_DOES_NOT_EXIST (?s\<lparr>flash := d'\<rparr>)"
        using tabs_ok_rF [OF iD(1) f(1)] d hs [of d'] by (auto intro!: EH)
    qed
    then show "wp (case Inr i of Inr old_idx \<Rightarrow>
         bindE (orError (etss_flash_fs_mblock_read_file_meta old_idx) PSA_ERROR_DOES_NOT_EXIST) (\<lambda>file_meta.
         if fl AND ETSS_FLASH_FS_FLAG_TRUNCATE \<noteq> 0 then
           (if fm_max_size file_meta = m then
              returnE (old_idx, old_idx, file_meta\<lparr>fm_cur_size := 0, fm_flags := fl\<rparr>)
            else
              (let file_meta' = file_meta\<lparr>fm_flags := fm_flags file_meta OR ETSS_FLASH_FS_FLAG_DELETE\<rparr> in
               bindE (orError (etss_flash_fs_mblock_update_scratch_file_meta old_idx file_meta')
                 PSA_ERROR_GENERIC_ERROR) (\<lambda>_.
               returnE (old_idx, ETSS_METADATA_INVALID_INDEX, file_meta'))))
         else returnE (old_idx, old_idx, file_meta))
     | Inl e \<Rightarrow>
         if e = PSA_ERROR_DOES_NOT_EXIST then
           (if fl AND ETSS_FLASH_FS_FLAG_CREATE = 0 then throwE PSA_ERROR_DOES_NOT_EXIST
            else returnE (ETSS_METADATA_INVALID_INDEX, ETSS_METADATA_INVALID_INDEX, zero_file_meta))
         else throwE e) Q E ?s"
      unfolding sum.case wp_bindE wp_orError .
  next
    fix e d assume e: "find_file (rF s) (\<lambda>x. fm_id x = fid) (file_idxs C) = Inl e \<or> \<not> rel \<and> e = PSA_ERROR_GENERIC_ERROR"
      and d: "dok d" "mem d = mm s"
    from lookup_cases [OF iD(1), of "\<lambda>x. fm_id x = fid"]
    show "wp (case Inl e of Inr old_idx \<Rightarrow>
         bindE (orError (etss_flash_fs_mblock_read_file_meta old_idx) PSA_ERROR_DOES_NOT_EXIST) (\<lambda>file_meta.
         if fl AND ETSS_FLASH_FS_FLAG_TRUNCATE \<noteq> 0 then
           (if fm_max_size file_meta = m then
              returnE (old_idx, old_idx, file_meta\<lparr>fm_cur_size := 0, fm_flags := fl\<rparr>)
            else
              (let file_meta' = file_meta\<lparr>fm_flags := fm_flags file_meta OR ETSS_FLASH_FS_FLAG_DELETE\<rparr> in
               bindE (orError (etss_flash_fs_mblock_update_scratch_file_meta old_idx file_meta')
                 PSA_ERROR_GENERIC_ERROR) (\<lambda>_.
               returnE (old_idx, ETSS_METADATA_INVALID_INDEX, file_meta'))))
         else returnE (old_idx, old_idx, file_meta))
     | Inl e \<Rightarrow>
         if e = PSA_ERROR_DOES_NOT_EXIST then
           (if fl AND ETSS_FLASH_FS_FLAG_CREATE = 0 then throwE PSA_ERROR_DOES_NOT_EXIST
            else returnE (ETSS_METADATA_INVALID_INDEX, ETSS_METADATA_INVALID_INDEX, zero_file_meta))
         else throwE e) Q E (s\<lparr>flash := d\<rparr>)"
      by (cases) (use e hs [OF d] st [OF d] none none0 EH in auto)
  qed
qed

section \<open>Stages 2 to 4\<close>

abbreviation wr_rest :: "u32 \<Rightarrow> u32 \<Rightarrow> u32 \<Rightarrow> buf \<Rightarrow> (unit \<Rightarrow> 'd fs_state \<Rightarrow> bool) \<Rightarrow> (psa_error \<Rightarrow> 'd fs_state \<Rightarrow> bool) \<Rightarrow>
    u32 \<times> etss_file_meta_t \<times> etss_block_meta_t \<Rightarrow> 'd fs_state \<Rightarrow> bool" where
  "wr_rest old n off data Q E \<equiv> \<lambda>(new, x, bm). wp (file_write_data x bm n off data)
     (\<lambda>(x', bm'). wp (file_write_commit old new x' bm' n) Q E) E"

lemma harmless_sok: "harmless s s' \<Longrightarrow> sok s'"
  by (simp add: harmless_def)

lemma written_sok: "written s F j x off n data s' \<Longrightarrow> sok s'"
  unfolding written_def using tabs_okD(6) by blast

lemma deleted_sok: "deleted s i s' \<Longrightarrow> sok s'"
  unfolding deleted_def using tabs_okD(6) by blast

lemma put_harmless:
  assumes "at_rest s" and "harmless s s'" and "\<not> rel"
  shows "put_fail s fid fl m off n data e s'"
proof -
  have "tabs_ok s" using assms(1) by (simp add: at_rest_def fs_inv_def)
  then have "fs_rec s' = fs_abs s" using harmless_rec [OF _ rest_rec [OF assms(1)] assms(2)] fs_rec_rest [OF assms(1)] by simp
  then show ?thesis using harmless_sok [OF assms(2)] assms(3) unfolding put_fail_def by blast
qed

lemma at_rest_flash:
  assumes "at_rest s" and "dok d" and "mem d = mm s"
  shows "at_rest (s\<lparr>flash := d\<rparr>)" "fs_abs (s\<lparr>flash := d\<rparr>) = fs_abs s"
proof -
  have "metas s" using assms(1) by (simp add: at_rest_def fs_inv_def tabs_ok_def)
  then have "metas (s\<lparr>flash := d\<rparr>)" using assms(2) unfolding metas_def sok_def by auto
  then show "at_rest (s\<lparr>flash := d\<rparr>)"
    using assms(1,3) by (simp add: at_rest_def fs_inv_def tabs_ok_def hdr_ok_def scratch_blank_def)
  show "fs_abs (s\<lparr>flash := d\<rparr>) = fs_abs s" using assms(3) by (simp add: fs_abs_def)
qed

lemma stage_none:
  assumes rest: "at_rest s" and st: "stage s T {} t"
  shows "at_rest t" "fs_abs t = fs_abs s"
proof -
  have i: "fs_inv s" using rest by (simp add: at_rest_def)
  note iD = fs_invD [OF i] and td = tabs_okD [OF fs_invD(1) [OF i]]
  have "mm t b = mm s b" for b
  proof (cases "b = scratch_metablock s")
    case True
    have l: "length (mm t b) = unat (block_size C)" "length (mm s b) = unat (block_size C)"
      using True td(1) stageD(2) [OF st] stageD(4) [OF st] metas_simps(4) by (simp_all add: mm_length)
    show ?thesis
      by (rule nth_equalityI) (use l True iD(3) stageD(7) [OF st] in \<open>auto simp: scratch_blank_def erased_on_def\<close>)
  qed (use stageD(6) [OF st] in simp)
  then have "mem (flash t) = mm s" "dok (flash t)" using st by (auto simp: stage_def)
  moreover have "t = s\<lparr>flash := flash t\<rparr>" using st by (simp add: stage_def)
  ultimately show "at_rest t" "fs_abs t = fs_abs s" using at_rest_flash [OF rest, of "flash t"] by simp_all
qed

lemma put_staged:
  assumes rest: "at_rest s" and st: "stage s T R s'" and R: "R \<inter> {0..<8} = {}"
    and e: "\<not> rel \<or> put_err s fid fl m off n e" and ar: "\<not> areplace (fs_abs s fid) fl m \<Longrightarrow> R = {}"
  shows "put_fail s fid fl m off n data e s'"
proof -
  have "fs_rec s' = fs_abs s"
    using harmless_rec [OF _ rest_rec [OF rest] stage_harmless [OF st]] fs_rec_rest [OF rest] rest
    by (simp add: at_rest_def fs_inv_def)
  moreover have "sok s'" using stageD(2) [OF st] by simp
  moreover have "quiet s s'" using st R unfolding quiet_def by blast
  moreover have "at_rest s'" "fs_abs s' = fs_abs s" if "\<not> areplace (fs_abs s fid) fl m"
    using stage_none [OF rest] st ar [OF that] by simp_all
  ultimately show ?thesis using e unfolding put_fail_def by blast
qed

lemma put_after: "\<not> rel \<Longrightarrow> sok s' \<Longrightarrow> put_post s fid fl m off n data s' \<Longrightarrow> put_fail s fid fl m off n data e s'"
  unfolding put_fail_def by blast

lemma put_reuse_wp:
  assumes rest: "at_rest s" and st: "stage s T {} t" and i: "unat i < mnf C" "used (tF s (unat i))" "fm_id (tF s (unat i)) = fid"
    and x: "fm_lblock x = fm_lblock (tF s (unat i))" "fm_data_idx x = fm_data_idx (tF s (unat i))"
      "fm_max_size x = fm_max_size (tF s (unat i))" "fm_id x = fm_id (tF s (unat i))"
    and cur: "unat (fm_cur_size x) \<le> unat (fm_max_size x)" and fx: "fm_flags x AND ETSS_FLASH_FS_FLAG_DELETE = 0"
    and bf: "buf_ok n data" and tgt: "atarget (fs_abs s fid) fl m = Some (afile_of (mm s) (tB s) x)"
  shows "wp (file_write_find_target fid fl m i i x)
    (wr_rest i n off data (\<lambda>_ s'. at_rest s' \<and> put_post s fid fl m off n data s') (put_fail s fid fl m off n data))
    (put_fail s fid fl m off n data) t"
proof -
  let ?Q = "\<lambda>_ s'. at_rest s' \<and> put_post s fid fl m off n data s'" and ?E = "put_fail s fid fl m off n data"
  have inv: "fs_inv s" and ro: "rest_ok C (tF s)" using rest by (simp_all add: at_rest_def)
  note iD = fs_invD [OF inv] and td = tabs_okD [OF fs_invD(1) [OF inv]]
  have nI: "i \<noteq> ETSS_METADATA_INVALID_INDEX" using i(1) mnf_less [of C] by (auto simp: invalid_idx)
  have l: "unat (fm_lblock x) < nad C" using validate_file_meta_Inr(1) [OF cfg files_okD(2) [OF td(3) i(1)]] x(1) by simp
  let ?bm = "tB s (unat (fm_lblock x))"
  have pre: "wr_pre s (tF s) (unat i) x ?bm" by (rule pre_reuse [OF iD(1) i(1,2) x cur])
  have u: "used x" using i(2) x(4) by (simp add: used_def)
  have uq: "fm_id (tF s k) \<noteq> fid" if "k < mnf C" "k \<noteq> unat i" for k
    using ro i that unfolding rest_ok_def by metis
  have fin: "put_post s fid fl m off n data s' \<and> (fs_inv s' \<longrightarrow> at_rest s')"
    if w: "written s (tF s) (unat i) x off n data s'" and ok: "n = 0 \<or> args_ok x off n" for s'
  proof -
    note wr = written_rec [OF rest w i(1) u _ fx]
    have "rest_ok C (rec_files (tF s'))" "fs_rec s' = (fs_abs s)(fid \<mapsto> aput C (afile_of (mm s) (tB s) x) off n data)"
      using wr [of fid] i(3) x(4) uq wr_afile [OF iD(1) pre bf w ok] by auto
    then show ?thesis
      using written_rest [OF rest _ w i(1) fx] tgt ok wr_aargs [OF iD(1) pre] by (auto simp: put_post_def)
  qed
  have EH: "?E e s'" if "\<not> rel" "harmless s s'" for e s' by (rule put_harmless [OF rest that(2,1)])
  have core: "wr_rest i n off data ?Q ?E (i, x, ?bm) t'" if t': "stage s T {} t'" for t'
    unfolding prod.case
  proof (rule write_core_wp [OF inv _ _ _ _ pre bf, where ?T0.0 = T])
    show "?E PSA_ERROR_GENERIC_ERROR t'" if "\<not> (n = 0 \<or> args_ok x off n)"
      by (rule put_staged [OF rest t']) (use that tgt wr_aargs [OF iD(1) pre] in \<open>auto simp: put_err_def\<close>)
    show "?E e s'" if "\<not> rel" "written s (tF s) (unat i) x off n data s'" "n = 0 \<or> args_ok x off n" for e s'
      by (rule put_after [OF that(1)]) (use fin that written_sok in blast)+
    show "?E e s'" if "\<not> rel" "harmless s s'" for e s' using that by (rule EH)
  qed (use t' fin in auto)
  have tl: "act_ok t" "rB t (fm_lblock x) = Inr ?bm"
    using stageD(2) [OF st] fun_cong [OF stage_tables(3) [OF st], of "unat (fm_lblock x)"] tabs_ok_rB [OF iD(1) l] by simp_all
  have "wp (etss_flash_fs_mblock_read_block_metadata (fm_lblock x)) (\<lambda>bm. wr_rest i n off data ?Q ?E (i, x, bm))
      (\<lambda>_. ?E PSA_ERROR_GENERIC_ERROR) t"
  proof (rule reads_wp [OF reads_block_meta [OF tl(1) l]])
    fix bm d assume "rB t (fm_lblock x) = Inr bm" "dok d" "mem d = mm t"
    then show "wr_rest i n off data ?Q ?E (i, x, bm) (t\<lparr>flash := d\<rparr>)"
      using tl(2) core [OF stage_same [OF st]] by simp
  next
    fix e :: psa_error and d assume "rB t (fm_lblock x) = Inl e \<or> \<not> rel" "dok d" "mem d = mm t"
    then show "?E PSA_ERROR_GENERIC_ERROR (t\<lparr>flash := d\<rparr>)"
      using tl(2) stage_harmless [OF stage_same [OF st]] by (intro EH) auto
  qed
  then show ?thesis using nI by (simp add: file_write_find_target_def wp_fun)
qed

lemma reserve_stage: "stage s T R t \<Longrightarrow> reserve_result t = reserve_result s"
  by (intro ext) (simp only: reserve_result_def stage_tables(3,4))

lemma put_new_wp:
  fixes old :: u32
  assumes rest: "at_rest s" and fid: "etss_utils_validate_fid fid = Inr ()" "length fid = 12"
    and st: "stage s T (if rp then fregion old else {}) t"
    and rp: "rp \<Longrightarrow> unat old < mnf C \<and> fm_id (tF s (unat old)) = fid \<and> fm_max_size (tF s (unat old)) \<noteq> 0"
      "rp \<Longrightarrow> y = (tF s (unat old))\<lparr>fm_flags := fm_flags (tF s (unat old)) OR ETSS_FLASH_FS_FLAG_DELETE\<rparr>"
      "rp \<Longrightarrow> T = (\<lambda>p. encode_file_meta y ! (p - foff C (unat old)))"
    and nrp: "\<not> rp \<Longrightarrow> old = ETSS_METADATA_INVALID_INDEX \<and> (\<forall>k<mnf C. fm_id (tF s k) \<noteq> fid)"
    and fl: "fl AND ETSS_FLASH_FS_FLAG_DELETE = 0" and bf: "buf_ok n data"
    and tgt: "atarget (fs_abs s fid) fl m = Some (new_afile fl m)"
    and ar: "areplace (fs_abs s fid) fl m = rp" "rp \<or> fs_abs s fid = None"
  shows "wp (file_write_find_target fid fl m old ETSS_METADATA_INVALID_INDEX z)
    (wr_rest old n off data (\<lambda>_ s'. at_rest s' \<and> put_post s fid fl m off n data s') (put_fail s fid fl m off n data))
    (put_fail s fid fl m off n data) t"
proof -
  let ?Q = "\<lambda>_ s'. at_rest s' \<and> put_post s fid fl m off n data s'" and ?E = "put_fail s fid fl m off n data"
  define F where "F = (if rp then (tF s)(unat old := y) else tF s)"
  have inv: "fs_inv s" and ro: "rest_ok C (tF s)" using rest by (simp_all add: at_rest_def)
  note iD = fs_invD [OF inv] and td = tabs_okD [OF fs_invD(1) [OF inv]]
  have uo: "rp \<Longrightarrow> used (tF s (unat old))" using rp(1) fid by (simp add: used_def)
  have mk: "(b OR ETSS_FLASH_FS_FLAG_DELETE) AND ETSS_FLASH_FS_FLAG_DELETE \<noteq> 0" for b
    by (simp add: fs_flag_defs bit.conj_disj_distrib2)
  have uq: "rp \<and> k = unat old" if "k < mnf C" "fm_id (tF s k) = fid" for k
    using that rp(1) nrp ro uo unfolding rest_ok_def by metis
  have fo: "files_ok C (tB s) F"
  proof (cases rp)
    case True
    have "files_ok C (tB s) ((tF s)(unat old := y))"
      by (rule files_ok_same_region [OF cfg td(3)])
        (use True rp validate_file_meta_Inr(2) [OF cfg files_okD(2) [OF td(3)]] fid in \<open>auto simp: used_def\<close>)
    then show ?thesis using True by (simp add: F_def)
  qed (use td(3) in \<open>simp add: F_def\<close>)
  have uF: "\<not> used (tF s k) \<Longrightarrow> \<not> used (F k)" for k using uo by (auto simp: F_def split: if_splits)
  have EH: "?E e s'" if "\<not> rel" "harmless s s'" for e s' by (rule put_harmless [OF rest that(2,1)])
  have R8: "(if rp then fregion old else {}) \<inter> {0..<8} = {}" by (auto simp: foff_def)
  have core: "wr_rest old n off data ?Q ?E (j, x, bm) t'"
    if r: "reserve_result s fid rp m fl = Inr (j, x, bm)" and m: "unat m \<le> unat (max_file_size C)"
      and t': "stage s T (if rp then fregion old else {}) t'" for j x bm t'
  proof -
    note pn = pre_new [OF iD(1) fo r uF fid m]
    have two: "(old \<noteq> ETSS_METADATA_INVALID_INDEX \<and> old \<noteq> j) \<longleftrightarrow> rp"
      using nrp rp(1) uo pn(7) mnf_less [of C] by (cases rp) (auto simp: invalid_idx)
    have ne: "rp \<Longrightarrow> unat old \<noteq> unat j" using uo pn(7) by auto
    have x0: "afile_of (mm s) (tB s) x = new_afile fl m"
      using wr_len [OF iD(1) pn(1)] by (simp add: afile_of_def new_afile_def pn(3-5))
    have u: "used x" using pn(2) fid by (simp add: used_def)
    have fx: "fm_flags x AND ETSS_FLASH_FS_FLAG_DELETE = 0" using fl pn(3) by simp
    have fin: "rest_ok C (rec_files (tF s'))" "put_post s fid fl m off n data s'"
      if w: "written s F (unat j) x off n data s'" and ok: "n = 0 \<or> args_ok x off n" for s'
    proof -
      have o: "F k = tF s k \<and> fm_id (F k) \<noteq> fid" if "k < mnf C" "used (rec_files F k)" for k
      proof -
        have "\<not> (rp \<and> k = unat old)" using rec_files_used [OF that(2)] rp(2) mk by (auto simp: F_def)
        then show ?thesis using uq [OF that(1)] by (auto simp: F_def)
      qed
      have k: "k \<noteq> unat j \<and> F k = tF s k" if "used (tF s k)" "fm_id (tF s k) \<noteq> fid" for k
        using that pn(7) rp(1) by (auto simp: F_def)
      show "rest_ok C (rec_files (tF s'))"
        by (rule written_rec(1) [OF rest w pn(6) u pn(2) fx]) (use o k in blast)+
      have wr: "fs_rec s' = (fs_abs s)(fid \<mapsto> afile_of (mm s') (tB s') (wfile x off n))"
        by (rule written_rec(2) [OF rest w pn(6) u pn(2) fx]) (use o k in blast)+
      have a: "afile_of (mm s') (tB s') (wfile x off n) = aput C (new_afile fl m) off n data"
        using wr_afile [OF iD(1) pn(1) bf w ok] unfolding x0 .
      have b: "aargs C (new_afile fl m) off n" using wr_aargs [OF iD(1) pn(1), of off n] ok unfolding x0 by blast
      show "put_post s fid fl m off n data s'"
        unfolding put_post_def using tgt b by (intro exI [of _ "new_afile fl m"]) (simp add: wr a)
    qed
    have del: "wp (etss_flash_fs_delete_idx old) ?Q ?E s'"
      if i': "fs_inv s'" and w: "written s F (unat j) x off n data s'" and ok: "n = 0 \<or> args_ok x off n" and "rp" for s'
    proof -
      have F': "tF s' k = (F(unat j := wfile x off n)) k" if "k < mnf C" for k using w that by (simp add: written_def)
      have y: "tF s' (unat old) = y" using F' rp(1) ne \<open>rp\<close> by (simp add: F_def)
      have o: "unat old < mnf C" "used y" "fm_max_size y \<noteq> 0" using rp \<open>rp\<close> uo by (simp_all add: used_def)
      have mk': "fm_flags (tF s' k) AND ETSS_FLASH_FS_FLAG_DELETE \<noteq> 0 \<longleftrightarrow> k = unat old"
        if "k < mnf C" for k
      proof -
        consider "k = unat old" | "k = unat j" | "k \<noteq> unat old" "k \<noteq> unat j" by blast
        then show ?thesis
        proof cases
          case 1
          then show ?thesis using y rp(2) \<open>rp\<close> mk by simp
        next
          case 2
          then show ?thesis using F' [OF that(1)] fx ne \<open>rp\<close> by simp
        next
          case 3
          then have "tF s' k = tF s k" using F' [OF that(1)] \<open>rp\<close> by (simp add: F_def)
          then show ?thesis using 3 that ro unfolding rest_ok_def by metis
        qed
      qed
      note fi = fin [OF w ok]
      have pp: "put_post s fid fl m off n data s2" if "fs_rec s2 = fs_rec s'" for s2
        using fi(2) that by (simp add: put_post_def)
      show ?thesis
      proof (rule delete_idx_wp [OF i' o(1)])
        show "used (tF s' (unat old))" "del_safe C (tB s') (tF s' (unat old))" using y o by (simp_all add: del_safe_def)
        show "?Q () s2" if "fs_inv s2" "deleted s' (unat old) s2" for s2
          using deleted_rec [OF that(2) o(1) fi(1) mk'] that(1) pp by (simp add: at_rest_def)
        show "?E e s2" if "\<not> rel" "harmless s' s2" for e s2
          by (rule put_after [OF that(1) harmless_sok [OF that(2)]], rule pp, rule harmless_rec [OF fs_invD(1) [OF i'] fi(1) that(2)])
        show "?E e s2" if "\<not> rel" "deleted s' (unat old) s2" for e s2
          by (rule put_after [OF that(1) deleted_sok [OF that(2)]], rule pp, rule deleted_rec(3) [OF that(2) o(1) fi(1) mk'])
      qed
    qed
    show ?thesis
      unfolding prod.case
    proof (rule write_core_wp [OF inv _ _ _ _ pn(1) bf, where ?T0.0 = T], unfold two)
      show "?E PSA_ERROR_GENERIC_ERROR t'" if "\<not> (n = 0 \<or> args_ok x off n)"
        by (rule put_staged [OF rest t' R8]) (use that tgt wr_aargs [OF iD(1) pn(1)] x0 ar in \<open>auto simp: put_err_def\<close>)
      show "?E e s'" if "\<not> rel" "written s F (unat j) x off n data s'" "n = 0 \<or> args_ok x off n" for e s'
        by (rule put_after [OF that(1) written_sok [OF that(2)] fin(2) [OF that(2,3)]])
      show "?E e s'" if "\<not> rel" "harmless s s'" for e s' using that by (rule EH)
      show "wp (if rp then etss_flash_fs_delete_idx old else returnE ()) ?Q ?E s'"
        if "fs_inv s'" "written s F (unat j) x off n data s'" "n = 0 \<or> args_ok x off n" for s'
      proof (cases rp)
        case False
        then show ?thesis
          using fin [OF that(2,3)] written_rest [OF rest that(1) _ pn(6) fx, of off n data] that(2) by (simp add: F_def)
      qed (use del [OF that] in simp)
      show "T (foff C (unat old) + k) = encode_file_meta (F (unat old)) ! k" if rp for k
        using that rp(3) by (simp add: F_def)
    qed (use t' rp(1) in \<open>auto simp: F_def\<close>)
  qed
  have at: "act_ok t" and ct: "ctx_cfg t = C" using stageD(2) [OF st] by simp_all
  have rr: "(old \<noteq> ETSS_METADATA_INVALID_INDEX) = rp" using nrp rp(1) mnf_less [of C] by (auto simp: invalid_idx)
  have "wp (etss_flash_fs_mblock_reserve_file fid rp m fl) (wr_rest old n off data ?Q ?E) ?E t"
    if m: "unat m \<le> unat (max_file_size C)"
  proof (rule reads_wp [OF reads_reserve_file [OF at]])
    fix a d assume "reserve_result t fid rp m fl = Inr a" "dok d" "mem d = mm t"
    then show "wr_rest old n off data ?Q ?E a (t\<lparr>flash := d\<rparr>)"
      using core [OF _ m stage_same [OF st]] reserve_stage [OF st] by (cases a) auto
  next
    fix e d assume e: "reserve_result t fid rp m fl = Inl e \<or> \<not> rel" and d: "dok d" "mem d = mm t"
    show "?E e (t\<lparr>flash := d\<rparr>)"
      by (rule put_staged [OF rest stage_same [OF st d] R8]) (use e reserve_stage [OF st] reserve_Inl [OF iD(1)] ar in \<open>auto simp: put_err_def\<close>)
  qed
  moreover have "?E PSA_ERROR_INVALID_ARGUMENT t" if "unat (max_file_size C) < unat m"
    by (rule put_staged [OF rest st R8]) (use that ar in \<open>auto simp: put_err_def\<close>)
  ultimately show ?thesis
    unfolding file_write_find_target_def rr by (auto simp: ct word_less_nat_alt not_less)
qed

section \<open>The operation\<close>

lemma internal_flags: "fl AND ETSS_FLASH_FS_INTERNAL_FLAGS_MASK = 0 \<Longrightarrow> fl AND ETSS_FLASH_FS_FLAG_DELETE = 0"
proof -
  assume a: "fl AND ETSS_FLASH_FS_INTERNAL_FLAGS_MASK = 0"
  have "fl AND ETSS_FLASH_FS_FLAG_DELETE = (fl AND ETSS_FLASH_FS_INTERNAL_FLAGS_MASK) AND ETSS_FLASH_FS_FLAG_DELETE"
    by (simp add: fs_flag_defs and.assoc)
  then show ?thesis using a by simp
qed

theorem file_write_wp:
  defines "m \<equiv> \<lambda>max_len. ETSS_UTILS_ALIGN max_len (ucast (program_unit C))"
  assumes rest: "at_rest s" and fid: "etss_utils_validate_fid fid = Inr ()" "length fid = 12"
    and fl: "fl AND ETSS_FLASH_FS_INTERNAL_FLAGS_MASK = 0" and bf: "buf_ok n data"
    and nz: "\<And>f. fs_abs s fid = Some f \<Longrightarrow> areplace (fs_abs s fid) fl (m max_len) \<Longrightarrow> af_max f \<noteq> 0"
  shows "wp (etss_flash_fs_file_write fid fl max_len n off data)
    (\<lambda>_ s'. at_rest s' \<and> put_post s fid fl (m max_len) off n data s') (put_fail s fid fl (m max_len) off n data) s"
proof -
  let ?m = "m max_len"
  let ?Q = "\<lambda>_ s'. at_rest s' \<and> put_post s fid fl ?m off n data s'" and ?E = "put_fail s fid fl ?m off n data"
  have inv: "fs_inv s" and ro: "rest_ok C (tF s)" using rest by (simp_all add: at_rest_def)
  note iD = fs_invD [OF inv] and td = tabs_okD [OF fs_invD(1) [OF inv]]
  have fd: "fl AND ETSS_FLASH_FS_FLAG_DELETE = 0" by (rule internal_flags [OF fl])
  have absn: "fs_abs s fid = None" if "\<And>k. k < mnf C \<Longrightarrow> fm_id (tF s k) \<noteq> fid"
    using that by (auto simp: fs_abs_def absfs_None)
  have abss: "used (tF s i)" "fs_abs s fid = Some (afile_of (mm s) (tB s) (tF s i))"
    "fm_flags (tF s i) AND ETSS_FLASH_FS_FLAG_DELETE = 0" "unat (fm_cur_size (tF s i)) \<le> unat (fm_max_size (tF s i))"
    if "i < mnf C" "fm_id (tF s i) = fid" for i
  proof -
    show u: "used (tF s i)" using that(2) fid by (simp add: used_def)
    show "fs_abs s fid = Some (afile_of (mm s) (tB s) (tF s i))"
      unfolding fs_abs_def by (rule absfs_Some [OF ro that(1) u that(2)])
    show "fm_flags (tF s i) AND ETSS_FLASH_FS_FLAG_DELETE = 0" using ro that u by (simp add: rest_ok_def)
    show "unat (fm_cur_size (tF s i)) \<le> unat (fm_max_size (tF s i))"
      using validate_file_meta_Inr(2) [OF cfg files_okD(2) [OF td(3) that(1)]] u by (simp add: used_def)
  qed
  have c0: "content (mm s) (tB s) (x\<lparr>fm_cur_size := 0, fm_flags := f\<rparr>) = []" for x f
    by (simp add: content_def bslice_def)
  have EH: "?E e s'" if "\<not> rel" "harmless s s'" for e s' by (rule put_harmless [OF rest that(2,1)])
  have "wp (file_write_find_old fid fl ?m) (\<lambda>(old_idx, new_idx0, file_meta0).
      wp (file_write_find_target fid fl ?m old_idx new_idx0 file_meta0) (wr_rest old_idx n off data ?Q ?E) ?E) ?E s"
  proof (rule find_old_wp [OF inv EH, where T = "\<lambda>_. 0"])
    show "?E PSA_ERROR_DOES_NOT_EXIST s'"
      if "\<And>k. k < mnf C \<Longrightarrow> fm_id (tF s k) \<noteq> fid" "fl AND ETSS_FLASH_FS_FLAG_CREATE = 0" "stage s (\<lambda>_. 0) {} s'" for s'
      by (rule put_staged [OF rest that(3)]) (use that absn in \<open>auto simp: put_err_def atarget_def\<close>)
    fix t assume none: "\<And>k. k < mnf C \<Longrightarrow> fm_id (tF s k) \<noteq> fid" "fl AND ETSS_FLASH_FS_FLAG_CREATE \<noteq> 0"
      and st: "stage s (\<lambda>_. 0) {} t"
    show "(case (ETSS_METADATA_INVALID_INDEX, ETSS_METADATA_INVALID_INDEX, zero_file_meta) of (old_idx, new_idx0, file_meta0) \<Rightarrow>
      wp (file_write_find_target fid fl ?m old_idx new_idx0 file_meta0) (wr_rest old_idx n off data ?Q ?E) ?E) t"
      unfolding prod.case
      by (rule put_new_wp [OF rest fid, where rp = False and T = "\<lambda>_. 0"])
        (use none st fd bf absn in \<open>auto simp: atarget_def areplace_def\<close>)
  next
    fix i :: u32 and t assume i: "unat i < mnf C" "fm_id (tF s (unat i)) = fid" "fl AND ETSS_FLASH_FS_FLAG_TRUNCATE = 0"
      and st: "stage s (\<lambda>_. 0) {} t"
    show "(case (i, i, tF s (unat i)) of (old_idx, new_idx0, file_meta0) \<Rightarrow>
      wp (file_write_find_target fid fl ?m old_idx new_idx0 file_meta0) (wr_rest old_idx n off data ?Q ?E) ?E) t"
      unfolding prod.case
      by (rule put_reuse_wp [OF rest st i(1) abss(1) [OF i(1,2)] i(2)])
        (use i abss [OF i(1,2)] bf in \<open>auto simp: atarget_def\<close>)
  next
    fix i :: u32 and t assume i: "unat i < mnf C" "fm_id (tF s (unat i)) = fid" "fl AND ETSS_FLASH_FS_FLAG_TRUNCATE \<noteq> 0"
        "fm_max_size (tF s (unat i)) = ?m"
      and st: "stage s (\<lambda>_. 0) {} t"
    show "(case (i, i, (tF s (unat i))\<lparr>fm_cur_size := 0, fm_flags := fl\<rparr>) of (old_idx, new_idx0, file_meta0) \<Rightarrow>
      wp (file_write_find_target fid fl ?m old_idx new_idx0 file_meta0) (wr_rest old_idx n off data ?Q ?E) ?E) t"
      unfolding prod.case
      by (rule put_reuse_wp [OF rest st i(1) abss(1) [OF i(1,2)] i(2)])
        (use i abss [OF i(1,2)] bf fd c0 in \<open>auto simp: atarget_def new_afile_def afile_of_def\<close>)
  next
    fix i :: u32 and t x assume i: "unat i < mnf C" "fm_id (tF s (unat i)) = fid" "fl AND ETSS_FLASH_FS_FLAG_TRUNCATE \<noteq> 0"
        "fm_max_size (tF s (unat i)) \<noteq> ?m"
      and x: "x = (tF s (unat i))\<lparr>fm_flags := fm_flags (tF s (unat i)) OR ETSS_FLASH_FS_FLAG_DELETE\<rparr>"
      and st: "stage s (\<lambda>p. encode_file_meta x ! (p - foff C (unat i))) (fregion i) t"
    have a: "areplace (fs_abs s fid) fl ?m" using i abss(2) [OF i(1,2)] by (simp add: areplace_def afile_of_def)
    show "(case (i, ETSS_METADATA_INVALID_INDEX, x) of (old_idx, new_idx0, file_meta0) \<Rightarrow>
      wp (file_write_find_target fid fl ?m old_idx new_idx0 file_meta0) (wr_rest old_idx n off data ?Q ?E) ?E) t"
      unfolding prod.case
      by (rule put_new_wp [OF rest fid, where rp = True and y = x])
        (use st i x a fd bf nz [OF abss(2) [OF i(1,2)]] abss(2) [OF i(1,2)] in
          \<open>auto simp: atarget_def afile_of_def\<close>)
  qed
  then show ?thesis
    unfolding etss_flash_fs_file_write_def using fl td(5)
    by (simp add: m_def wp_fun case_prod_unfold Let_def)
qed

end

end
