(* ===== verification/Flash_Fs_Ops.thy ===== *)
theory Flash_Fs_Ops
  imports Flash_Fs_File_Write
begin

text \<open>
  The remaining operations on a file system at rest against its abstraction: existence, information,
  reading and deletion.
\<close>

definition ainfo :: "afile \<Rightarrow> etss_file_info_t" where
  "ainfo f = \<lparr>size_current = of_nat (length (af_data f)), size_max = af_max f, info_flags = af_flags f\<rparr>"

definition aread :: "afile option \<Rightarrow> u32 \<Rightarrow> u32 \<Rightarrow> psa_error + buf" where
  "aread a len off = (case a of None \<Rightarrow> Inl PSA_ERROR_DOES_NOT_EXIST
     | Some f \<Rightarrow> if unat off + unat len \<le> length (af_data f) then Inr (bslice (unat off) (unat len) (af_data f))
                else Inl PSA_ERROR_INVALID_ARGUMENT)"

context fs_dev
begin

lemma at_rest_cases:
  assumes rest: "at_rest s" and fid: "etss_utils_validate_fid fid = Inr ()"
  obtains (found) i where "unat i < mnf C" "used (tF s (unat i))" "fm_id (tF s (unat i)) = fid" "lookup s fid = Inr i"
      "fs_abs s fid = Some (afile_of (mm s) (tB s) (tF s (unat i)))"
      "length (content (mm s) (tB s) (tF s (unat i))) = unat (fm_cur_size (tF s (unat i)))"
  | (none) "lookup s fid = Inl PSA_ERROR_DOES_NOT_EXIST" "fs_abs s fid = None"
proof -
  have inv: "fs_inv s" and ro: "rest_ok C (tF s)" using rest by (simp_all add: at_rest_def)
  have tab: "tabs_ok s" by (rule fs_invD(1) [OF inv])
  show thesis
  proof (cases rule: lookup_cases [OF tab, of "\<lambda>x. fm_id x = fid", case_names found none])
    case (found i)
    have u: "used (tF s (unat i))" using found(2) fid by (simp add: used_def)
    show thesis
      by (rule that(1) [OF found(1) u])
        (use found u absfs_Some [OF ro found(1) u] afile_len [OF tab tabs_okD(3) [OF tab] found(1) u] in
          \<open>simp_all add: lookup_def fs_abs_def\<close>)
  next
    case none
    then show thesis by (intro that(2)) (auto simp: lookup_def fs_abs_def absfs_None)
  qed
qed

lemma exist_rest:
  assumes "at_rest s" and "etss_utils_validate_fid fid = Inr ()"
  shows "reads (etss_flash_fs_file_exist fid) s
    (case fs_abs s fid of None \<Rightarrow> Inl PSA_ERROR_DOES_NOT_EXIST | Some _ \<Rightarrow> Inr ())"
proof -
  have "act_ok s" using assms(1) by (simp add: at_rest_def fs_inv_def tabs_okD)
  then show ?thesis
    using reads_file_exist [of s fid] by (cases rule: at_rest_cases [OF assms]) simp_all
qed

lemma get_info_rest:
  assumes "at_rest s" and "etss_utils_validate_fid fid = Inr ()"
  shows "reads (etss_flash_fs_file_get_info fid) s
    (case fs_abs s fid of None \<Rightarrow> Inl PSA_ERROR_DOES_NOT_EXIST | Some f \<Rightarrow> Inr (ainfo f))"
proof -
  have "act_ok s" using assms(1) by (simp add: at_rest_def fs_inv_def tabs_okD)
  then show ?thesis
    using reads_file_get_info [of s fid]
    by (cases rule: at_rest_cases [OF assms]) (simp_all add: info_of_def ainfo_def afile_of_def)
qed

lemma read_rest:
  assumes rest: "at_rest s" and fid: "etss_utils_validate_fid fid = Inr ()"
  shows "reads (etss_flash_fs_file_read fid len off) s (aread (fs_abs s fid) len off)"
proof -
  have tab: "tabs_ok s" using rest by (simp add: at_rest_def fs_inv_def)
  have a: "act_ok s" by (rule tabs_okD(5) [OF tab])
  have "read_result s fid len off = aread (fs_abs s fid) len off"
  proof (cases rule: at_rest_cases [OF assms, case_names found none])
    case (found i)
    have l: "unat (fm_lblock (tF s (unat i))) < nad C"
      using validate_file_meta_Inr(1) [OF cfg files_okD(2) [OF tabs_okD(3) [OF tab] found(1)]] .
    show ?thesis
      using found tabs_ok_rB [OF tab l]
      by (simp add: read_result_def aread_def data_read_def afile_of_def content_def bslice_bslice Let_def)
  qed (simp_all add: read_result_def aread_def)
  then show ?thesis using reads_file_read [OF a fid, of len off] by simp
qed

section \<open>Deletion\<close>

lemma deleted_abs:
  assumes rest: "at_rest s" and i: "i < mnf C" "used (tF s i)" and d: "deleted s i s'"
  shows "rest_ok C (tF s')" and "fs_abs s' = (fs_abs s)(fm_id (tF s i) := None)"
proof -
  have ro: "rest_ok C (tF s)" using rest by (simp add: at_rest_def)
  have F': "tF s' k = del_files (tF s) i k" if "k < mnf C" for k using d that by (simp add: deleted_def)
  have sh: "used (tF s' k) = (k \<noteq> i \<and> used (tF s k))" "k \<noteq> i \<Longrightarrow> fm_id (tF s' k) = fm_id (tF s k)"
    "fm_flags (tF s' k) = (if k = i then 0 else fm_flags (tF s k))"
    "k \<noteq> i \<Longrightarrow> fm_max_size (tF s' k) = fm_max_size (tF s k)"
    if "k < mnf C" for k
    using F' [OF that] by (auto simp: del_files_def)
  have un: "a = b" if "a < mnf C" "b < mnf C" "used (tF s a)" "fm_id (tF s a) = fm_id (tF s b)" for a b
    using ro that unfolding rest_ok_def by blast
  show r': "rest_ok C (tF s')"
    unfolding rest_ok_def
  proof (intro conjI allI impI)
    fix k l assume kl: "k < mnf C" "l < mnf C" "used (tF s' k)" "fm_id (tF s' k) = fm_id (tF s' l)"
    then have "used (tF s' l)" by (simp add: used_def)
    then show "k = l" using kl sh un by metis
  qed (use sh ro in \<open>auto simp: rest_ok_def\<close>)
  show "fs_abs s' = (fs_abs s)(fm_id (tF s i) := None)"
    unfolding fs_abs_def
  proof (rule absfs_eq [OF r'])
    fix k assume k: "k < mnf C" "used (tF s' k)"
    then have u: "k \<noteq> i" "used (tF s k)" using sh by auto
    have "content (mm s') (tB s') (tF s' k) = content (mm s) (tB s) (tF s k)" using d k(1) u unfolding deleted_def by blast
    then have "afile_of (mm s') (tB s') (tF s' k) = afile_of (mm s) (tB s) (tF s k)"
      using sh [OF k(1)] u by (simp add: afile_of_def)
    then show "((absfs C (mm s) (tB s) (tF s))(fm_id (tF s i) := None)) (fm_id (tF s' k)) =
        Some (afile_of (mm s') (tB s') (tF s' k))"
      using absfs_Some [OF ro k(1) u(2)] u sh [OF k(1)] un [OF k(1) i(1)] by auto
  next
    fix g assume "((absfs C (mm s) (tB s) (tF s))(fm_id (tF s i) := None)) g \<noteq> None"
    then have g: "absfs C (mm s) (tB s) (tF s) g \<noteq> None" "g \<noteq> fm_id (tF s i)" by (auto split: if_splits)
    then show "\<exists>k<mnf C. used (tF s' k) \<and> fm_id (tF s' k) = g" using absfs_dom [OF g(1)] sh by metis
  qed
qed

theorem file_delete_wp:
  assumes rest: "at_rest s" and fid: "etss_utils_validate_fid fid = Inr ()"
    and nz: "\<And>f. fs_abs s fid = Some f \<Longrightarrow> af_max f \<noteq> 0"
  shows "wp (etss_flash_fs_file_delete fid)
    (\<lambda>_ s'. at_rest s' \<and> fs_abs s fid \<noteq> None \<and> fs_abs s' = (fs_abs s)(fid := None))
    (\<lambda>e s'. sok s' \<and> (fs_rec s' = fs_abs s \<and> (rel \<longrightarrow> e = PSA_ERROR_DOES_NOT_EXIST \<and> fs_abs s fid = None) \<or>
       \<not> rel \<and> fs_rec s' = (fs_abs s)(fid := None))) s"
    (is "wp _ ?Q ?E s")
proof -
  have inv: "fs_inv s" and ro: "rest_ok C (tF s)" using rest by (simp_all add: at_rest_def)
  note td = tabs_okD [OF fs_invD(1) [OF inv]]
  have hr: "fs_rec s' = fs_abs s" if "harmless s s'" for s'
    using harmless_rec [OF fs_invD(1) [OF inv] rest_rec [OF rest] that] fs_rec_rest [OF rest] by simp
  have hs: "harmless s (s\<lparr>flash := d\<rparr>)" if "dok d" "mem d = mm s" for d
    by (rule harmless_upd [OF harmless_refl [OF td(1)]]) (use that in auto)
  show ?thesis
    unfolding etss_flash_fs_file_delete_def wp_bindE
  proof (rule reads_wp [OF reads_lookup [OF td(5)]])
    fix i d assume i: "lookup s fid = Inr i" and d: "dok d" "mem d = mm s"
    let ?t = "s\<lparr>flash := d\<rparr>"
    have f: "unat i < mnf C" "used (tF s (unat i))" "fm_id (tF s (unat i)) = fid"
      "fs_abs s fid = Some (afile_of (mm s) (tB s) (tF s (unat i)))"
      using i by (cases rule: at_rest_cases [OF rest fid]; simp)+
    have same: "tF ?t = tF s" "tB ?t = tB s" "mm ?t = mm s" "fs_abs ?t = fs_abs s"
      using d by (simp_all add: fs_abs_def)
    have rt: "at_rest ?t"
      using rest d td(1) by (simp add: at_rest_def fs_inv_def tabs_ok_def hdr_ok_def scratch_blank_def)
    have sf: "del_safe C (tB ?t) (tF ?t (unat i))"
      using nz [OF f(4)] same by (simp add: del_safe_def afile_of_def)
    have da: "rest_ok C (tF s') \<and> fs_abs s' = (fs_abs s)(fid := None)" if "deleted ?t (unat i) s'" for s'
      using deleted_abs [OF rt f(1) _ that] f same by simp
    show "wp (etss_flash_fs_delete_idx i) ?Q ?E ?t"
    proof (rule delete_idx_wp [OF _ f(1) _ sf])
      show "fs_inv ?t" using rt by (simp add: at_rest_def)
      show "used (tF ?t (unat i))" using f same by simp
      show "?Q () s'" if "fs_inv s'" "deleted ?t (unat i) s'" for s'
        using da [OF that(2)] that(1) f(4) by (simp add: at_rest_def)
      show "?E e s'" if "\<not> rel" "harmless ?t s'" for e s'
      proof -
        have "fs_rec s' = fs_abs s"
          using harmless_rec [OF _ rest_rec [OF rt] that(2)] fs_rec_rest [OF rt] rt same
          by (simp add: at_rest_def fs_inv_def)
        then show ?thesis using that(1) harmless_sok [OF that(2)] by blast
      qed
      show "?E e s'" if "\<not> rel" "deleted ?t (unat i) s'" for e s'
      proof -
        have "fs_rec s' = (fs_abs s)(fid := None)"
          using da [OF that(2)] by (simp add: fs_rec_def fs_abs_def absfs_rec)
        then show ?thesis using that(1) deleted_sok [OF that(2)] by blast
      qed
    qed
  next
    fix e d assume e: "lookup s fid = Inl e \<or> \<not> rel" and d: "dok d" "mem d = mm s"
    have "lookup s fid = Inl e \<Longrightarrow> e = PSA_ERROR_DOES_NOT_EXIST \<and> fs_abs s fid = None"
      by (cases rule: at_rest_cases [OF rest fid]) auto
    then show "?E e (s\<lparr>flash := d\<rparr>)" using e hr [OF hs [OF d]] harmless_sok [OF hs [OF d]] by blast
  qed
qed

end

end
