(* ===== verification/Flash_Fs_Mount.thy ===== *)
theory Flash_Fs_Mount
  imports Flash_Fs_Ops
begin

text \<open>
  Start-up: \<open>etss_flash_fs_prepare\<close> finds the valid metadata block, erases the scratch blocks and
  completes an interrupted replacement; the mounted file system is the recoverable one.
\<close>

context fs_dev
begin

section \<open>Probing the metadata blocks\<close>

definition disk_header :: "(u32 \<Rightarrow> buf) \<Rightarrow> u32 \<Rightarrow> etss_metadata_block_header_t" where
  "disk_header m b = decode_header (bslice 0 8 (m b))"

definition header_valid :: "(u32 \<Rightarrow> buf) \<Rightarrow> u32 \<Rightarrow> bool" where
  "header_valid m b \<longleftrightarrow> (let h = disk_header m b in
     hdr_fs_version h = ETSS_BACKWARD_SUPPORTED_VERSION \<and> hdr_metadata_xor h \<noteq> erase_val C \<or>
     hdr_fs_version h = ETSS_SUPPORTED_VERSION \<and> hdr_active_swap_count h \<noteq> erase_val C \<and>
       hdr_metadata_xor h = table_xor (m b))"

definition probe :: "(u32 \<Rightarrow> buf) \<Rightarrow> u32 \<Rightarrow> etss_metadata_block_header_t option" where
  "probe m b = (if header_valid m b then Some (disk_header m b) else None)"

lemma reads_validate_header:
  assumes "act_ok s" and b: "b = 0 \<or> b = 1" and h: "h = disk_header (mm s) b"
  shows "\<exists>r. reads (etss_mblock_validate_header_meta h b) s r \<and> (r = Inr () \<longleftrightarrow> header_valid (mm s) b)"
proof -
  have s: "sok s" using assms(1) by simp
  have v: "ETSS_BACKWARD_SUPPORTED_VERSION \<noteq> ETSS_SUPPORTED_VERSION" by (simp add: mblock_consts)
  let ?sc = "etss_mblock_validate_swap_count C"
  define r where "r = (case etss_mblock_validate_fs_version (hdr_fs_version h) of Inl e \<Rightarrow> Inl e
    | Inr True \<Rightarrow> ?sc (hdr_metadata_xor h)
    | Inr False \<Rightarrow> (case ?sc (hdr_active_swap_count h) of Inl e \<Rightarrow> Inl e
        | Inr _ \<Rightarrow> if table_xor (mm s b) \<noteq> hdr_metadata_xor h then Inl PSA_ERROR_STORAGE_FAILURE else Inr ()))"
  have x: "reads (etss_mblock_validate_metadata_xor h b) t
      (if table_xor (mm s b) \<noteq> hdr_metadata_xor h then Inl PSA_ERROR_STORAGE_FAILURE else Inr ())"
    if t: "t = s\<lparr>flash := d\<rparr>" "dok d" "mem d = mm s" for t d
    unfolding etss_mblock_validate_metadata_xor_def
    by (rule reads_bindE [OF reads_xor [of t b]])
      (use assms(1) b t in \<open>auto intro!: reads_returnE reads_throwE\<close>)
  have sc: "reads (withS (\<lambda>s. liftE (etss_mblock_validate_swap_count (ctx_cfg s) c))) t (?sc c)"
    if "act_ok t" for t c
    using that by (intro reads_withS) (simp add: reads_liftE)
  have "reads (etss_mblock_validate_header_meta h b) s r"
    unfolding etss_mblock_validate_header_meta_def
  proof (rule reads_bindE [OF reads_liftE [OF s]])
    fix bc d assume bc: "etss_mblock_validate_fs_version (hdr_fs_version h) = Inr bc" and d: "dok d" "mem d = mm s"
    let ?t = "s\<lparr>flash := d\<rparr>"
    have a: "act_ok ?t" using assms(1) d by simp
    have "reads (bindE (withS (\<lambda>s. liftE (etss_mblock_validate_swap_count (ctx_cfg s) (hdr_active_swap_count h)))) (\<lambda>_.
       etss_mblock_validate_metadata_xor h b)) ?t r" if "\<not> bc"
      by (rule reads_bindE [OF sc [OF a]]) (use x d bc that in \<open>auto simp: r_def split: sum.splits\<close>)
    then show "reads (if bc then withS (\<lambda>s. liftE (etss_mblock_validate_swap_count (ctx_cfg s)
         (comp_active_swap_count (header_as_comp h))))
       else bindE (withS (\<lambda>s. liftE (etss_mblock_validate_swap_count (ctx_cfg s) (hdr_active_swap_count h)))) (\<lambda>_.
       etss_mblock_validate_metadata_xor h b)) ?t r"
      using sc [OF a, of "hdr_metadata_xor h"] bc by (cases bc) (simp_all add: r_def)
  qed (simp add: r_def)
  moreover have "r = Inr () \<longleftrightarrow> header_valid (mm s) b"
    using v h by (auto simp: r_def header_valid_def Let_def etss_mblock_validate_fs_version_def
        etss_mblock_validate_swap_count_def split: if_splits)
  ultimately show ?thesis by blast
qed

lemma probe_wp:
  assumes a: "act_ok s" and b: "b = 0 \<or> b = 1"
    and Q: "\<And>r d. r = probe (mm s) b \<or> \<not> rel \<and> r = None \<Longrightarrow> dok d \<Longrightarrow> mem d = mm s \<Longrightarrow> Q r (s\<lparr>flash := d\<rparr>)"
  shows "wp (probe_metablock b) Q E s"
proof -
  have bn: "b < ucast (num_blocks C)" using b by (rule act_less)
  have le: "unat (0 :: u32) + unat (ETSS_BLOCK_META_HEADER_SIZE) \<le> unat (block_size C)"
    using cfg_okD(3) [OF cfg] by (simp add: foff_def mblock_consts)
  show ?thesis
    unfolding probe_metablock_def wp_tryE
  proof (rule flash_read_wp [OF act_okD(1) [OF a] bn le])
    fix d assume d: "dok d" "mem d = mm s"
    let ?t = "s\<lparr>flash := d\<rparr>"
    have at: "act_ok ?t" using a d by simp
    have bs: "decode_header (bslice (unat (0 :: u32)) (unat ETSS_BLOCK_META_HEADER_SIZE) (mm s b)) = disk_header (mm s) b"
      by (simp add: disk_header_def mblock_consts)
    obtain r where r: "reads (etss_mblock_validate_header_meta (disk_header (mm s) b) b) ?t r" "r = Inr () \<longleftrightarrow> header_valid (mm s) b"
      using reads_validate_header [OF at b, of "disk_header (mm s) b"] d by auto
    have "wp (etss_mblock_validate_header_meta (disk_header (mm s) b) b) (\<lambda>_. Q (Some (disk_header (mm s) b)))
        (\<lambda>_. Q None) ?t"
    proof (rule reads_wp [OF r(1)])
      fix u d' assume "r = Inr u" "dok d'" "mem d' = mm ?t"
      then have "Q (Some (disk_header (mm s) b)) (s\<lparr>flash := d'\<rparr>)" using d r(2) by (intro Q) (auto simp: probe_def)
      then show "Q (Some (disk_header (mm s) b)) (?t\<lparr>flash := d'\<rparr>)" by simp
    next
      fix e d' assume "r = Inl e \<or> \<not> rel" "dok d'" "mem d' = mm ?t"
      then have "Q None (s\<lparr>flash := d'\<rparr>)" using d r(2) by (intro Q) (auto simp: probe_def)
      then show "Q None (?t\<lparr>flash := d'\<rparr>)" by simp
    qed
    then show "wp (case Inr (bslice (unat (0 :: u32)) (unat ETSS_BLOCK_META_HEADER_SIZE) (mm s b)) of Inl _ \<Rightarrow> returnE None
     | Inr bs \<Rightarrow>
         tryE (etss_mblock_validate_header_meta (decode_header bs) b) (\<lambda>v. case v of
           Inl _ \<Rightarrow> returnE None
         | Inr _ \<Rightarrow> returnE (Some (decode_header bs)))) Q E ?t"
      by (simp add: bs [simplified] wp_fun)
  qed (use Q in auto)
qed

text \<open>The valid block is chosen; of two valid ones the one with the later swap count.\<close>

definition elects :: "(u32 \<Rightarrow> buf) \<Rightarrow> u32 \<Rightarrow> bool" where
  "elects m a \<longleftrightarrow> (a = 0 \<or> a = 1) \<and> header_valid m a \<and>
     (\<not> header_valid m (1 - a) \<or> rel \<and> etss_mblock_latest_meta_block C (disk_header m 0) (disk_header m 1) = a)"

lemma get_active_wp:
  assumes s: "act_ok s" and el: "elects (mm s) a"
    and Q: "\<And>d. dok d \<Longrightarrow> mem d = mm s \<Longrightarrow> Q () (s\<lparr>flash := d, active_metablock := a, scratch_metablock := 1 - a\<rparr>)"
    and E: "\<And>d. \<not> rel \<Longrightarrow> dok d \<Longrightarrow> mem d = mm s \<Longrightarrow> E PSA_ERROR_GENERIC_ERROR (s\<lparr>flash := d\<rparr>)"
  shows "wp etss_init_get_active_metablock Q E s"
  unfolding etss_init_get_active_metablock_def wp_bindE
proof (rule probe_wp [OF s])
  show "ETSS_METADATA_BLOCK0 = 0 \<or> ETSS_METADATA_BLOCK0 = 1" by (simp add: mblock_consts)
  fix r0 d0 assume r0: "r0 = probe (mm s) ETSS_METADATA_BLOCK0 \<or> \<not> rel \<and> r0 = None" and d0: "dok d0" "mem d0 = mm s"
  let ?s0 = "s\<lparr>flash := d0\<rparr>"
  show "wp (probe_metablock ETSS_METADATA_BLOCK1) (\<lambda>m1. wp (case (r0, m1) of
              (Some h_meta0, Some h_meta1) \<Rightarrow>
                withS (\<lambda>s. returnE (etss_mblock_latest_meta_block (ctx_cfg s) h_meta0 h_meta1))
            | (Some _, None) \<Rightarrow> returnE ETSS_METADATA_BLOCK0
            | (None, Some _) \<Rightarrow> returnE ETSS_METADATA_BLOCK1
            | (None, None) \<Rightarrow> throwE PSA_ERROR_GENERIC_ERROR) (\<lambda>cur. wp (modifyS (\<lambda>s. s\<lparr>active_metablock := cur,
                    scratch_metablock := ETSS_OTHER_META_BLOCK cur\<rparr>)) Q E) E) E ?s0"
  proof (rule probe_wp)
    show "act_ok ?s0" using s d0 by simp
    show "ETSS_METADATA_BLOCK1 = 0 \<or> ETSS_METADATA_BLOCK1 = 1" by (simp add: mblock_consts)
    fix r1 d1 assume r1: "r1 = probe (mm ?s0) ETSS_METADATA_BLOCK1 \<or> \<not> rel \<and> r1 = None" and d1: "dok d1" "mem d1 = mm ?s0"
    have m1: "mem d1 = mm s" using d0 d1 by simp
    have z: "ETSS_METADATA_BLOCK0 = 0" "ETSS_METADATA_BLOCK1 = 1" "ETSS_OTHER_META_BLOCK 0 = 1" "ETSS_OTHER_META_BLOCK 1 = 0"
      by (simp_all add: mblock_consts ETSS_OTHER_META_BLOCK_def)
    have c: "ctx_cfg (s\<lparr>flash := d1\<rparr>) = C" using s by simp
    have q: "wp (modifyS (\<lambda>s. s\<lparr>active_metablock := a, scratch_metablock := ETSS_OTHER_META_BLOCK a\<rparr>)) Q E (s\<lparr>flash := d1\<rparr>)"
      using Q [OF d1(1) m1] el z by (auto simp: elects_def)
    have e: "\<not> rel \<Longrightarrow> E PSA_ERROR_GENERIC_ERROR (s\<lparr>flash := d1\<rparr>)" using E [OF _ d1(1) m1] .
    have ab: "a = 0 \<or> a = 1" using el by (simp add: elects_def)
    have p0: "r0 = (if header_valid (mm s) 0 then Some (disk_header (mm s) 0) else None) \<or> \<not> rel \<and> r0 = None"
      and p1: "r1 = (if header_valid (mm s) 1 then Some (disk_header (mm s) 1) else None) \<or> \<not> rel \<and> r1 = None"
      using r0 r1 d0 by (simp_all add: z probe_def)
    have "wp (case (r0, r1) of
              (Some h_meta0, Some h_meta1) \<Rightarrow>
                withS (\<lambda>s. returnE (etss_mblock_latest_meta_block (ctx_cfg s) h_meta0 h_meta1))
            | (Some _, None) \<Rightarrow> returnE ETSS_METADATA_BLOCK0
            | (None, Some _) \<Rightarrow> returnE ETSS_METADATA_BLOCK1
            | (None, None) \<Rightarrow> throwE PSA_ERROR_GENERIC_ERROR) (\<lambda>cur. wp (modifyS (\<lambda>s. s\<lparr>active_metablock := cur,
                    scratch_metablock := ETSS_OTHER_META_BLOCK cur\<rparr>)) Q E) E (s\<lparr>flash := d1\<rparr>)"
    proof -
      have el': "header_valid (mm s) a" "header_valid (mm s) (1 - a) \<Longrightarrow> rel"
        "header_valid (mm s) (1 - a) \<Longrightarrow> etss_mblock_latest_meta_block C (disk_header (mm s) 0) (disk_header (mm s) 1) = a"
        using el by (auto simp: elects_def)
      have h0: "r0 = None \<and> (header_valid (mm s) 0 \<longrightarrow> \<not> rel) \<or> r0 = Some (disk_header (mm s) 0) \<and> header_valid (mm s) 0"
        using p0 by (cases "header_valid (mm s) 0") auto
      have h1: "r1 = None \<and> (header_valid (mm s) 1 \<longrightarrow> \<not> rel) \<or> r1 = Some (disk_header (mm s) 1) \<and> header_valid (mm s) 1"
        using p1 by (cases "header_valid (mm s) 1") auto
      have sel: "a = 0" if "r0 \<noteq> None" "r1 = None" using that h0 h1 ab el' by auto
      have sel': "a = 1" if "r1 \<noteq> None" "r0 = None" using that h0 h1 ab el' by auto
      have sel'': "\<not> rel" if "r1 = None" "r0 = None" using that h0 h1 ab el' by auto
      have la: "r0 = Some (disk_header (mm s) 0) \<and> r1 = Some (disk_header (mm s) 1) \<and>
          etss_mblock_latest_meta_block C (disk_header (mm s) 0) (disk_header (mm s) 1) = a" if "r0 \<noteq> None" "r1 \<noteq> None"
        using that h0 h1 ab el' by auto
      show ?thesis
      proof (cases r0; cases r1)
        fix x y assume "r0 = Some x" "r1 = Some y"
        then show ?thesis using la q c by (simp del: wp_modifyS)
      qed (use sel sel' sel'' q e z in \<open>simp_all del: wp_modifyS\<close>)
    qed
    then show "wp (case (r0, r1) of
              (Some h_meta0, Some h_meta1) \<Rightarrow>
                withS (\<lambda>s. returnE (etss_mblock_latest_meta_block (ctx_cfg s) h_meta0 h_meta1))
            | (Some _, None) \<Rightarrow> returnE ETSS_METADATA_BLOCK0
            | (None, Some _) \<Rightarrow> returnE ETSS_METADATA_BLOCK1
            | (None, None) \<Rightarrow> throwE PSA_ERROR_GENERIC_ERROR) (\<lambda>cur. wp (modifyS (\<lambda>s. s\<lparr>active_metablock := cur,
                    scratch_metablock := ETSS_OTHER_META_BLOCK cur\<rparr>)) Q E) E (?s0\<lparr>flash := d1\<rparr>)"
      by simp
  qed
qed

section \<open>Mounting\<close>

text \<open>What the flash holds: \<open>a\<close> is the elected block, its tables are consistent.\<close>

definition disk_ok :: "(u32 \<Rightarrow> buf) \<Rightarrow> u32 \<Rightarrow> bool" where
  "disk_ok m a \<longleftrightarrow> elects m a \<and> hdr_fs_version (disk_header m a) = ETSS_SUPPORTED_VERSION \<and>
     blocks_ok C a (hdr_scratch_dblock (disk_header m a)) (bmv m a) \<and> files_ok C (bmv m a) (fmv C m a)"

lemma encode_decode_header: "length bs = 8 \<Longrightarrow> encode_header (decode_header bs) = bs"
proof -
  assume len: "length bs = 8"
  have "take 4 bs @ [bs ! 4, bs ! 5, bs ! 6, bs ! 7] = bs"
    using len by (auto simp: numeral_eq_Suc length_Suc_conv)
  then show ?thesis using le32_de32 [of bs] len by (simp add: encode_header_def decode_header_def)
qed

lemma read_header_wp:
  assumes m: "metas s" and el: "header_valid (mm s) (active_metablock s)"
    and Q: "\<And>d. dok d \<Longrightarrow> mem d = mm s \<Longrightarrow>
      Q () (s\<lparr>meta_block_header := disk_header (mm s) (active_metablock s), flash := d\<rparr>)"
    and E: "\<And>e d h. \<not> rel \<Longrightarrow> dok d \<Longrightarrow> mem d = mm s \<Longrightarrow> E e (s\<lparr>meta_block_header := h, flash := d\<rparr>)"
  shows "wp etss_mblock_read_meta_header Q E s"
proof -
  let ?a = "active_metablock s"
  have a: "?a = 0 \<or> ?a = 1" using m by (rule metas_ids)
  have le: "unat (0 :: u32) + unat (ETSS_BLOCK_META_HEADER_SIZE) \<le> unat (block_size C)"
    using cfg_okD(3) [OF cfg] by (simp add: foff_def mblock_consts)
  have s: "sok s" "?a < ucast (num_blocks C)" using m by simp_all
  show ?thesis
    unfolding etss_mblock_read_meta_header_def wp_bindE wp_withS
  proof (rule flash_read_wp [OF s le], goal_cases)
    case (1 d)
    note d = 1
    let ?h = "disk_header (mm s) ?a"
    let ?t = "s\<lparr>flash := d, meta_block_header := ?h\<rparr>"
    have at: "act_ok ?t" using s d a by (simp add: act_ok_def)
    obtain r where r: "reads (etss_mblock_validate_header_meta ?h ?a) ?t r" "r = Inr () \<longleftrightarrow> header_valid (mm s) ?a"
      using reads_validate_header [OF at a, of ?h] d by auto
    have "wp (etss_mblock_validate_header_meta ?h ?a) Q E ?t"
    proof (rule reads_wp [OF r(1)])
      fix u d' assume "r = Inr u" "dok d'" "mem d' = mm ?t"
      then show "Q u (?t\<lparr>flash := d'\<rparr>)" using Q [of d'] d by simp
    next
      fix e d' assume "r = Inl e \<or> \<not> rel" "dok d'" "mem d' = mm ?t"
      then show "E e (?t\<lparr>flash := d'\<rparr>)" using E [of d' e ?h] d r(2) el by auto
    qed
    then show ?case by (simp add: disk_header_def mblock_consts)
  next
    case (2 e d)
    then show ?case using E [of d e "meta_block_header s"] by simp
  qed
qed

text \<open>The state in which block \<open>a\<close> is active and its header is the one in memory.\<close>

definition mounted :: "'d fs_state \<Rightarrow> u32 \<Rightarrow> 'd fs_state" where
  "mounted s a = s\<lparr>active_metablock := a, scratch_metablock := 1 - a, meta_block_header := disk_header (mm s) a\<rparr>"

lemma mounted_simps [simp]:
  "active_metablock (mounted s a) = a" "scratch_metablock (mounted s a) = 1 - a" "flash (mounted s a) = flash s"
  "meta_block_header (mounted s a) = disk_header (mm s) a" "sok (mounted s a) = sok s"
  by (simp_all add: mounted_def sok_def del: sokD)

lemma mounted_tabs:
  assumes "sok s" and "disk_ok (mm s) a"
  shows "tabs_ok (mounted s a)"
proof -
  have "a = 0 \<or> a = 1" using assms(2) by (auto simp: disk_ok_def elects_def)
  then have "metas (mounted s a)" unfolding metas_def using assms(1) by auto
  then show ?thesis using assms(2) by (simp add: tabs_ok_def disk_ok_def)
qed

lemma fs_rec_mounted: "fs_rec (mounted s' a) = fs_rec s'" if "active_metablock s' = a"
  using that by (simp add: fs_rec_def)

lemma mount_inv:
  assumes s: "sok s" and dk: "disk_ok (mm s) a" and h: "harmless (mounted s a) s'"
    and hd: "meta_block_header s' = disk_header (mm s) a" and sb: "scratch_blank s'"
  shows "fs_inv s'"
proof -
  let ?v = "mounted s a"
  have tv: "tabs_ok ?v" by (rule mounted_tabs [OF s dk])
  note ht = harmless_tables [OF tv h] and td = tabs_okD [OF tv]
  have act: "active_metablock s' = a" using h by (simp add: harmless_def)
  have t': "tabs_ok s'"
    using h hd td ht(2,3) by (simp add: tabs_ok_def harmless_def)
  have L: "length (mm s a) = unat (block_size C)" using s td(4) by (simp add: mm_length act_less)
  have "length (bslice 0 8 (mm s a)) = 8"
    using cfg_okD(3) [OF cfg] L by (simp add: length_bslice foff_def)
  then have "bslice 0 8 (mm s' a) = encode_header (disk_header (mm s) a)"
    using ht(1) by (simp add: disk_header_def encode_decode_header)
  moreover have "header_valid (mm s) a" "hdr_fs_version (disk_header (mm s) a) = ETSS_SUPPORTED_VERSION"
    using dk by (simp_all add: disk_ok_def elects_def)
  then have "hdr_active_swap_count (disk_header (mm s) a) \<noteq> erase_val C"
    "hdr_metadata_xor (disk_header (mm s) a) = table_xor (mm s a)"
    by (auto simp: header_valid_def Let_def mblock_consts)
  ultimately have "hdr_ok s'" using act hd ht(1) dk by (simp add: hdr_ok_def disk_ok_def)
  with t' sb show ?thesis by (simp add: fs_inv_def)
qed

lemma mount_tables_wp:
  assumes s: "act_ok s" and dk: "disk_ok (mm s) a"
    and Q: "\<And>s'. fs_inv s' \<Longrightarrow> harmless (mounted s a) s' \<Longrightarrow> Q () s'"
    and E: "\<And>e s'. \<not> rel \<Longrightarrow> harmless (mounted s a) (mounted s' a) \<Longrightarrow> E e s'"
  shows "wp (bindE (orError etss_init_get_active_metablock PSA_ERROR_GENERIC_ERROR) (\<lambda>_.
     bindE (orError etss_mblock_read_meta_header PSA_ERROR_GENERIC_ERROR) (\<lambda>_.
     bindE (orError etss_mblock_erase_scratch_blocks PSA_ERROR_GENERIC_ERROR) (\<lambda>_.
     etss_mblock_upgrade_meta_header)))) Q E s"
proof -
  let ?v = "mounted s a" and ?h = "disk_header (mm s) a"
  have sk: "sok s" using s by simp
  have tv: "tabs_ok ?v" by (rule mounted_tabs [OF sk dk])
  note td = tabs_okD [OF tv]
  have ab: "a = 0 \<or> a = 1" using td(4) by simp
  have sdok: "num_blocks C \<noteq> 2 \<Longrightarrow> hdr_scratch_dblock ?h \<notin> {0, 1} \<and> hdr_scratch_dblock ?h < ucast (num_blocks C)"
    using blocks_okD(5) [OF td(2)] by simp
  have early: "E e s'" if "\<not> rel" "sok s'" "\<And>b. b \<noteq> 1 - a \<Longrightarrow> num_blocks C = 2 \<or> b \<noteq> hdr_scratch_dblock ?h \<Longrightarrow> mm s' b = mm s b"
    for e s'
  proof (rule E [OF that(1)])
    have "metas (mounted s' a)" unfolding metas_def using that(2) ab by auto
    then show "harmless ?v (mounted s' a)" using that(3) by (simp add: harmless_def)
  qed
  have erase: "wp etss_mblock_erase_scratch_blocks (\<lambda>_. wp etss_mblock_upgrade_meta_header Q E) (\<lambda>_. E PSA_ERROR_GENERIC_ERROR)
      (?v\<lparr>flash := d\<rparr>)" if d: "dok d" "mem d = mm s" for d
  proof (rule erase_scratch_wp)
    let ?t = "?v\<lparr>flash := d\<rparr>"
    show "metas ?t" using td(1) d by simp
    show "num_blocks C \<noteq> 2 \<Longrightarrow> hdr_scratch_dblock (meta_block_header ?t) < ucast (num_blocks C)"
      using sdok by simp
    fix d' assume d': "dok d'" "mem d' = (if num_blocks C = 2 then (mm ?t)(scratch_metablock ?t := blank)
        else (mm ?t)(scratch_metablock ?t := blank, hdr_scratch_dblock (meta_block_header ?t) := blank))"
    have h: "harmless ?v (?t\<lparr>flash := d'\<rparr>)"
      by (rule harmless_upd) (use harmless_upd [OF harmless_refl [OF td(1)] d(1)] d d' in \<open>auto split: if_splits\<close>)
    have sb: "scratch_blank (?t\<lparr>flash := d'\<rparr>)"
      using d' by (auto simp: scratch_blank_def erased_on_def blank_def split: if_splits)
    have v: "etss_mblock_validate_fs_version (hdr_fs_version ?h) = Inr False"
      using dk by (simp add: disk_ok_def etss_mblock_validate_fs_version_def mblock_consts)
    have "Q () (?t\<lparr>flash := d'\<rparr>)" by (rule Q [OF mount_inv [OF sk dk h] h]) (use sb in simp_all)
    then show "wp etss_mblock_upgrade_meta_header Q E (?t\<lparr>flash := d'\<rparr>)"
      using v by (simp add: etss_mblock_upgrade_meta_header_def)
  next
    fix e d' let ?t = "?v\<lparr>flash := d\<rparr>"
    assume d': "\<not> rel" "dok d'" "\<And>b'. b' \<noteq> scratch_metablock ?t \<Longrightarrow>
        num_blocks C = 2 \<or> b' \<noteq> hdr_scratch_dblock (meta_block_header ?t) \<Longrightarrow> mem d' b' = mm ?t b'"
    show "E PSA_ERROR_GENERIC_ERROR (?t\<lparr>flash := d'\<rparr>)" by (rule early) (use d d' sk in auto)
  qed
  have el: "elects (mm s) a" using dk by (simp add: disk_ok_def)
  show ?thesis
    unfolding wp_bindE wp_orError
  proof (rule get_active_wp [OF s el], goal_cases)
    case (1 d1)
    let ?t = "s\<lparr>flash := d1, active_metablock := a, scratch_metablock := 1 - a\<rparr>"
    have mt: "metas ?t" unfolding metas_def using s 1 ab by auto
    have hv: "header_valid (mm ?t) (active_metablock ?t)" using el 1 by (simp add: elects_def)
    have "wp etss_mblock_read_meta_header (\<lambda>_. wp (bindE (orError etss_mblock_erase_scratch_blocks PSA_ERROR_GENERIC_ERROR)
        (\<lambda>_. etss_mblock_upgrade_meta_header)) Q E) (\<lambda>_. E PSA_ERROR_GENERIC_ERROR) ?t"
    proof (rule read_header_wp [OF mt hv], goal_cases)
      case (1 d2)
      then show ?case using erase [of d2] \<open>mem d1 = mm s\<close> by (simp add: mounted_def)
    next
      case (2 e d2 h)
      show ?case by (rule early) (use 2 s \<open>mem d1 = mm s\<close> in auto)
    qed
    then show ?case by (simp add: wp_fun)
  next
    case (2 d1)
    show ?case by (rule early) (use 2 s in auto)
  qed
qed

text \<open>The context as \<open>etss_flash_fs_init_ctx\<close> leaves it, before the device is initialised.\<close>

definition booted :: "'d fs_state \<Rightarrow> bool" where
  "booted s \<longleftrightarrow> boot s \<and> active_metablock s \<in> {0, 1}"

lemma act_ok_booted: "rel \<Longrightarrow> act_ok s \<Longrightarrow> booted s"
  by (simp add: booted_def act_ok_def sok_boot)

lemma mblock_init_wp:
  assumes s: "booted s" and dk: "disk_ok (mm s) a"
    and Q: "\<And>u s'. act_ok u \<Longrightarrow> mm u = mm s \<Longrightarrow> fs_inv s' \<Longrightarrow> harmless (mounted u a) s' \<Longrightarrow> Q () s'"
    and E1: "\<And>e s'. \<not> rel \<Longrightarrow> mm s' = mm s \<Longrightarrow> E e s'"
    and E2: "\<And>e u s'. \<not> rel \<Longrightarrow> act_ok u \<Longrightarrow> mm u = mm s \<Longrightarrow> harmless (mounted u a) (mounted s' a) \<Longrightarrow> E e s'"
  shows "wp etss_flash_fs_mblock_init Q E s"
  unfolding etss_flash_fs_mblock_init_def wp_bindE [of flash_init]
proof (rule flash_init_wp, goal_cases)
  case (2 d)
  let ?u = "s\<lparr>flash := d\<rparr>"
  have u: "act_ok ?u" using s 2 unfolding booted_def boot_def act_ok_def sok_def by simp
  show ?case
    by (rule mount_tables_wp [OF u]) (use 2 dk Q [OF u] E2 [OF _ u] in auto)
qed (use s E1 in \<open>auto simp: booted_def\<close>)

section \<open>Recovery\<close>

text \<open>The search for a marked file: a read that fails is reported as \<open>PSA_ERROR_GENERIC_ERROR\<close>.\<close>

lemma flag_loop_wp:
  assumes "act_ok s" and "\<And>i. i \<in> set is \<Longrightarrow> unat i < mnf C"
    and "\<And>a d. find_file (rF s) (\<lambda>x. fm_flags x AND fl \<noteq> 0) is = Inr a \<Longrightarrow> dok d \<Longrightarrow> mem d = mm s \<Longrightarrow> Q a (s\<lparr>flash := d\<rparr>)"
    and "\<And>e d. find_file (rF s) (\<lambda>x. fm_flags x AND fl \<noteq> 0) is = Inl e \<or> \<not> rel \<and> e = PSA_ERROR_GENERIC_ERROR \<Longrightarrow>
      dok d \<Longrightarrow> mem d = mm s \<Longrightarrow> E e (s\<lparr>flash := d\<rparr>)"
  shows "wp (get_file_idx_flag_loop fl is) Q E s"
  using assms
proof (induction "is" arbitrary: s)
  case Nil
  have "E PSA_ERROR_DOES_NOT_EXIST (s\<lparr>flash := flash s\<rparr>)" by (rule Nil.prems(4)) (use Nil.prems(1) in auto)
  then show ?case by simp
next
  case (Cons i "is")
  have i: "unat i < mnf C" using Cons.prems(2) by simp
  show ?case
    unfolding get_file_idx_flag_loop.simps wp_bindE wp_orError
  proof (rule reads_wp [OF reads_file_meta [OF Cons.prems(1) i]])
    fix x d assume x: "rF s i = Inr x" and d: "dok d" "mem d = mm s"
    have "wp (get_file_idx_flag_loop fl is) Q E (s\<lparr>flash := d\<rparr>)" if "fm_flags x AND fl = 0"
      by (rule Cons.IH) (use Cons.prems x d that in auto)
    moreover have "Q i (s\<lparr>flash := d\<rparr>)" if "fm_flags x AND fl \<noteq> 0" by (rule Cons.prems(3)) (use x d that in auto)
    ultimately show "wp (if fm_flags x AND fl \<noteq> 0 then returnE i else get_file_idx_flag_loop fl is) Q E (s\<lparr>flash := d\<rparr>)" by simp
  next
    fix e :: psa_error and d assume "rF s i = Inl e \<or> \<not> rel" "dok d" "mem d = mm s"
    then show "E PSA_ERROR_GENERIC_ERROR (s\<lparr>flash := d\<rparr>)" by (intro Cons.prems(4)) auto
  qed
qed

text \<open>
  What the code leaves in the tables when it stops between two operations or in the middle of one:
  at most one entry is marked, it is in use and not empty, and without it the identifiers are unique.
\<close>

definition recoverable :: "(nat \<Rightarrow> etss_file_meta_t) \<Rightarrow> bool" where
  "recoverable F \<longleftrightarrow> rest_ok C (rec_files F) \<and>
     (\<forall>i<mnf C. fm_flags (F i) AND ETSS_FLASH_FS_FLAG_DELETE \<noteq> 0 \<longrightarrow> used (F i) \<and> fm_max_size (F i) \<noteq> 0 \<and>
        (\<forall>k<mnf C. fm_flags (F k) AND ETSS_FLASH_FS_FLAG_DELETE \<noteq> 0 \<longrightarrow> k = i))"

lemma recoverable_rest: "rest_ok C F \<Longrightarrow> recoverable F"
proof -
  assume r: "rest_ok C F"
  then have "rest_ok C (rec_files F)" by (intro rec_files_ok) (metis rec_files_used rest_ok_def)
  then show ?thesis using r by (simp add: recoverable_def rest_ok_def)
qed

lemma no_mark_rest:
  assumes "recoverable F" and no: "\<And>i. i < mnf C \<Longrightarrow> fm_flags (F i) AND ETSS_FLASH_FS_FLAG_DELETE = 0"
  shows "rest_ok C F"
proof -
  have "rest_ok C (rec_files F)" using assms(1) by (simp add: recoverable_def)
  moreover have "rec_files F i = F i" if "i < mnf C" for i using no [OF that] by (simp add: rec_files_def)
  ultimately show ?thesis using rest_ok_cong [of C "rec_files F" F] by simp
qed

theorem prepare_wp:
  assumes s: "booted s" and dk: "disk_ok (mm s) a" and rc: "recoverable (fmv C (mm s) a)"
  shows "wp etss_flash_fs_prepare
    (\<lambda>_ s'. at_rest s' \<and> fs_abs s' = fs_rec (mounted s a))
    (\<lambda>e s'. \<not> rel \<and> (fs_rec (mounted s' a) = fs_rec (mounted s a) \<or> fs_rec s' = fs_rec (mounted s a))) s"
    (is "wp _ ?Q ?E s")
proof -
  have rec: "fs_rec (mounted u a) = fs_rec (mounted s a)" if "mm u = mm s" for u using that by (simp add: fs_rec_def)
  have tv: "tabs_ok (mounted u a)" "rest_ok C (rec_files (tF (mounted u a)))" if "act_ok u" "mm u = mm s" for u
    using mounted_tabs [of u a] that dk rc by (simp_all add: recoverable_def)
  show ?thesis
    unfolding etss_flash_fs_prepare_def wp_bindE
  proof (rule mblock_init_wp [OF s dk])
    fix e s' assume "\<not> rel" "mm s' = mm s"
    then show "?E e s'" using rec by blast
  next
    fix e u s' assume u: "\<not> rel" "act_ok u" "mm u = mm s" "harmless (mounted u a) (mounted s' a)"
    have "fs_rec (mounted s' a) = fs_rec (mounted s a)"
      using harmless_rec [OF tv [OF u(2,3)] u(4)] unfolding rec [OF u(3)] .
    then show "?E e s'" using u(1) by blast
  next
    fix u t assume u: "act_ok u" "mm u = mm s" and inv: "fs_inv t" and h: "harmless (mounted u a) t"
    note ht = harmless_tables [OF tv(1) [OF u] h] and td = tabs_okD [OF fs_invD(1) [OF inv]]
    have rt: "fs_rec t = fs_rec (mounted s a)" using harmless_rec [OF tv [OF u] h] rec [OF u(2)] by simp
    have rct: "recoverable (tF t)" using rc ht(3) u(2) by simp
    have rrt: "rest_ok C (rec_files (tF t))" using rct by (simp add: recoverable_def)
    have upd: "fs_inv (t\<lparr>flash := d\<rparr>)" "fs_rec (t\<lparr>flash := d\<rparr>) = fs_rec t" if "dok d" "mem d = mm t" for d
      using inv that by (simp_all add: fs_inv_def tabs_ok_def hdr_ok_def scratch_blank_def fs_rec_def)
    let ?P = "\<lambda>x. fm_flags x AND ETSS_FLASH_FS_FLAG_DELETE \<noteq> 0"
    show "wp (tryE (etss_flash_fs_mblock_get_file_idx_flag ETSS_FLASH_FS_FLAG_DELETE) (\<lambda>r. case r of
       Inr idx \<Rightarrow> etss_flash_fs_delete_idx idx
     | Inl e \<Rightarrow> if e \<noteq> PSA_ERROR_DOES_NOT_EXIST then throwE e else returnE ())) ?Q ?E t"
      unfolding etss_flash_fs_mblock_get_file_idx_flag_def wp_tryE wp_withS act_ok_cfg [OF td(5)]
    proof (rule flag_loop_wp [OF td(5)], goal_cases)
      case (2 i d)
      let ?u = "t\<lparr>flash := d\<rparr>"
      have tF: "tF ?u = tF t" using 2 by simp
      have i: "unat i < mnf C" "?P (tF t (unat i))"
        using find_file_Inr [OF 2(1)] tabs_ok_rF [OF fs_invD(1) [OF inv]] by (auto simp: file_idxs_unat)
      have mk: "used (tF t (unat i))" "fm_max_size (tF t (unat i)) \<noteq> 0"
        "k < mnf C \<Longrightarrow> ?P (tF ?u k) \<longleftrightarrow> k = unat i" for k
        using rct i unfolding recoverable_def tF by blast+
      have rru: "rest_ok C (rec_files (tF ?u))" using rrt tF by simp
      have "wp (etss_flash_fs_delete_idx i) ?Q ?E ?u"
      proof (rule delete_idx_wp [OF upd(1) [OF 2(2,3)] i(1)])
        show "used (tF ?u (unat i))" "del_safe C (tB ?u) (tF ?u (unat i))" using mk tF by (simp_all add: del_safe_def)
        show "?Q () s'" if "fs_inv s'" "deleted ?u (unat i) s'" for s'
          using deleted_rec [OF that(2) i(1) rru mk(3)] that(1) upd(2) [OF 2(2,3)] rt by (simp add: at_rest_def)
        show "?E e s'" if "\<not> rel" "harmless ?u s'" for e s'
          using harmless_rec [OF fs_invD(1) [OF upd(1) [OF 2(2,3)]] rru that(2)] that(1) upd(2) [OF 2(2,3)] rt by simp
        show "?E e s'" if "\<not> rel" "deleted ?u (unat i) s'" for e s'
          using deleted_rec [OF that(2) i(1) rru mk(3)] that(1) upd(2) [OF 2(2,3)] rt by simp
      qed
      then show ?case by simp
    next
      case (3 e d)
      let ?u = "t\<lparr>flash := d\<rparr>"
      show ?case
      proof (cases "e = PSA_ERROR_DOES_NOT_EXIST")
        case True
        then have ff: "find_file (rF t) ?P (file_idxs C) = Inl PSA_ERROR_DOES_NOT_EXIST" using 3 by auto
        have "\<not> ?P (tF t i)" if "i < mnf C" for i
          using that ff by (cases rule: lookup_cases [OF fs_invD(1) [OF inv], of ?P]) auto
        then have "rest_ok C (tF t)" using no_mark_rest [OF rct] by blast
        then have "at_rest ?u" "fs_abs ?u = fs_rec t"
          using upd [OF 3(2,3)] 3(3) by (simp_all add: at_rest_def fs_abs_def fs_rec_def absfs_rec)
        then show ?thesis using True rt by simp
      next
        case False
        then have "\<not> rel" using 3 by (cases rule: lookup_cases [OF fs_invD(1) [OF inv], of ?P]) auto
        then show ?thesis using False upd(2) [OF 3(2,3)] rt by simp
      qed
    qed (simp add: file_idxs_unat)
  qed
qed

section \<open>Starting again\<close>

lemma erased_header_not_valid:
  assumes "erased_on m b {0..<8}" and "length (m b) = unat (block_size C)"
  shows "\<not> header_valid m b"
proof -
  have "8 \<le> unat (block_size C)" using cfg_okD(3) [OF cfg] by (simp add: foff_def)
  then have "bslice 0 8 (m b) ! i = erase_val C" if "i < 8" for i
    using that assms by (simp add: nth_bslice erased_on_def)
  then show ?thesis by (simp add: header_valid_def Let_def disk_header_def decode_header_def mblock_consts)
qed

lemma erased_not_valid:
  assumes "erased_on m b whole" and "length (m b) = unat (block_size C)"
  shows "\<not> header_valid m b"
proof -
  have "8 \<le> unat (block_size C)" using cfg_okD(3) [OF cfg] by (simp add: foff_def)
  then show ?thesis using assms by (intro erased_header_not_valid) (simp_all add: erased_on_def)
qed

lemma at_rest_disk:
  assumes "at_rest s"
  shows "disk_ok (mm s) (active_metablock s)" and "recoverable (tF s)"
    and "fs_rec (mounted s (active_metablock s)) = fs_abs s"
proof -
  let ?a = "active_metablock s"
  have inv: "fs_inv s" and ro: "rest_ok C (tF s)" using assms by (simp_all add: at_rest_def)
  note td = tabs_okD [OF fs_invD(1) [OF inv]]
  have h: "hdr_ok s" "scratch_blank s" using fs_invD [OF inv] by simp_all
  have dh: "disk_header (mm s) ?a = meta_block_header s" using h(1) by (simp add: disk_header_def hdr_ok_def)
  have scr: "scratch_metablock s = 1 - ?a" using td(1) unfolding metas_def by auto
  have "length (mm s (scratch_metablock s)) = unat (block_size C)" using td(1) by (simp add: mm_length)
  then have "\<not> header_valid (mm s) (1 - ?a)"
    using erased_not_valid h(2) scr by (simp add: scratch_blank_def)
  moreover have "header_valid (mm s) ?a" using h(1) dh by (simp add: header_valid_def Let_def hdr_ok_def)
  ultimately show "disk_ok (mm s) ?a" using td h(1) dh by (auto simp: disk_ok_def elects_def hdr_ok_def)
  show "recoverable (tF s)" by (rule recoverable_rest [OF ro])
  show "fs_rec (mounted s ?a) = fs_abs s" using fs_rec_rest [OF assms] by (simp add: fs_rec_def)
qed

text \<open>Without a valid header on either metadata block the start-up fails and changes nothing.\<close>

lemma prepare_blank_wp:
  assumes s: "booted s" and nv: "\<not> header_valid (mm s) 0" "\<not> header_valid (mm s) 1"
  shows "wp etss_flash_fs_prepare (\<lambda>_ _. False)
    (\<lambda>e s'. mm s' = mm s \<and> (rel \<longrightarrow> e = PSA_ERROR_GENERIC_ERROR \<and> act_ok s')) s"
  unfolding etss_flash_fs_prepare_def etss_flash_fs_mblock_init_def wp_bindE
proof (rule flash_init_wp, goal_cases)
  case (2 d)
  let ?u = "s\<lparr>flash := d\<rparr>"
  have u: "act_ok ?u" using s 2 unfolding booted_def boot_def act_ok_def sok_def by simp
  have z: "ETSS_METADATA_BLOCK0 = 0" "ETSS_METADATA_BLOCK1 = 1" by (simp_all add: mblock_consts)
  show ?case
    unfolding wp_bindE wp_orError etss_init_get_active_metablock_def
  proof (rule probe_wp [OF u], goal_cases)
    case p0: (2 r0 d0)
    have r0: "r0 = None" using p0 nv 2 by (auto simp: probe_def z)
    show ?case
      unfolding wp_bindE
    proof (rule probe_wp, goal_cases)
      case p1: (3 r1 d1)
      have r1: "r1 = None" using p0 p1 nv 2 by (auto simp: probe_def z)
      have "act_ok (s\<lparr>flash := d1\<rparr>)" using u p1 unfolding act_ok_def sok_def by simp
      then show ?case using r0 r1 p0 p1 2 sok_boot by simp
    qed (use act_ok_upd [OF u p0(2)] in \<open>simp_all add: z\<close>)
  qed (simp add: z)
qed (use s in \<open>auto simp: booted_def boot_def\<close>)

text \<open>A restart finds the file system that was at rest, whatever the context in memory was.\<close>

theorem remount_wp:
  assumes "at_rest s" and "booted s0" and "mm s0 = mm s"
  shows "wp etss_flash_fs_prepare (\<lambda>_ s'. at_rest s' \<and> fs_abs s' = fs_abs s) (\<lambda>e s'. \<not> rel) s0"
proof -
  note r = at_rest_disk [OF assms(1)]
  have "fs_rec (mounted s0 (active_metablock s)) = fs_abs s" using r(3) assms(3) by (simp add: fs_rec_def)
  then show ?thesis
    using wp_mono [OF prepare_wp [OF assms(2), of "active_metablock s"]] r assms(3) by (auto simp: wp_def)
qed

end

end
