(* ===== verification/Flash_Fs_Wipe.thy ===== *)
theory Flash_Fs_Wipe
  imports Flash_Fs_Mount
begin

text \<open>
  \<open>etss_flash_fs_wipe_all\<close>: whatever the flash holds, the reset leaves tables without files that the
  next start mounts, so wiping and preparing yields the empty file system.
\<close>

section \<open>The tables of an empty file system\<close>

definition wipe_blocks :: "etss_flash_fs_config_t \<Rightarrow> nat \<Rightarrow> etss_block_meta_t" where
  "wipe_blocks C l = (let start = etss_mblock_file_meta_offset C (ucast (max_num_files C)) in
     if l = 0 then \<lparr>bm_phy_id = ETSS_METADATA_BLOCK1, bm_data_start = start, bm_free_size = block_size C - start\<rparr>
     else \<lparr>bm_phy_id = of_nat l + 2, bm_data_start = 0, bm_free_size = block_size C\<rparr>)"

abbreviation no_files :: "nat \<Rightarrow> etss_file_meta_t" where
  "no_files \<equiv> \<lambda>_. zero_file_meta"

lemma wipe_blocks_ok:
  assumes cfg: "cfg_ok C"
  shows "blocks_ok C 1 (etss_init_scratch_dblock C) (wipe_blocks C)" and "files_ok C (wipe_blocks C) no_files"
proof -
  have st: "unat (etss_mblock_file_meta_offset C (ucast (max_num_files C))) = foff C (mnf C)"
    using cfg unat_u16_less [of "max_num_files C"] by (simp add: mnf_def)
  have le: "foff C (mnf C) \<le> unat (block_size C)" using cfg_okD(3) [OF cfg] .
  have ph: "unat (bm_phy_id (wipe_blocks C l)) = (if l = 0 then 1 else l + 2)" if "l < nad C" for l
  proof -
    have "unat (of_nat l :: u32) = l" using that nad_less [of C] by (simp add: unat_of_nat_u32)
    then have "unat (of_nat l + 2 :: u32) = l + 2" using that nad_less [of C] by (simp add: unat_add_u32)
    then show ?thesis by (simp add: wipe_blocks_def Let_def mblock_consts)
  qed
  have pw: "bm_phy_id (wipe_blocks C l) = b \<longleftrightarrow> (if l = 0 then 1 else l + 2) = unat b" if "l < nad C" for l b
    using ph [OF that] by (simp add: word_unat_eq_iff)
  have two: "l = 0" if "num_blocks C = 2" "l < nad C" for l using that by (simp add: nad_def)
  have nb: "l + 2 < unat (num_blocks C)" if "l < nad C" "l \<noteq> 0" for l
    using that by (auto simp: nad_def split: if_splits)
  have sc: "unat (etss_init_scratch_dblock C) = (if num_blocks C = 2 then 1 else 2)"
    by (simp add: etss_init_scratch_dblock_def)
  have v: "etss_mblock_validate_block_meta C (wipe_blocks C l) = Inr ()" if "l < nad C" for l
    unfolding validate_block_meta_Inr_iff [OF cfg] pw [OF that] ph [OF that]
    using that nb cfg_okD(2) [OF cfg] le st
    by (auto simp: wipe_blocks_def Let_def unat_sub_u32)
  show "blocks_ok C 1 (etss_init_scratch_dblock C) (wipe_blocks C)"
    unfolding blocks_ok_def
  proof (intro conjI allI impI)
    show "bm_phy_id (wipe_blocks C 0) = 1" by (simp add: wipe_blocks_def Let_def mblock_consts)
    fix l assume l: "l < nad C"
    show "bm_phy_id (wipe_blocks C l) \<notin> {0, 1, etss_init_scratch_dblock C}" if "0 < l"
    proof -
      have "2 < unat (bm_phy_id (wipe_blocks C l))" using ph [OF l] that by simp
      moreover have "unat b \<le> 2" if "b \<in> {0, 1, etss_init_scratch_dblock C}" for b :: u32
        using that sc by (auto simp only: insert_iff empty_iff unat_0 unat_1 split: if_splits)
      ultimately show ?thesis by fastforce
    qed
    fix k assume k: "k < nad C" "bm_phy_id (wipe_blocks C l) = bm_phy_id (wipe_blocks C k)"
    have "(if l = 0 then 1 else l + 2) = (if k = 0 then 1 else k + 2)"
      unfolding ph [OF l, symmetric] ph [OF k(1), symmetric] k(2) ..
    then show "l = k" by (simp split: if_splits)
  next
    assume "num_blocks C \<noteq> 2"
    then show "etss_init_scratch_dblock C \<notin> {0, 1}" "etss_init_scratch_dblock C < ucast (num_blocks C)"
      using cfg_okD(1) [OF cfg] by (simp_all add: etss_init_scratch_dblock_def word_less_nat_alt)
  qed (rule v)
  have re: "reg_end C (wipe_blocks C l) = unat (bm_data_start (wipe_blocks C l))" for l
    using le st by (simp add: reg_end_def wipe_blocks_def Let_def unat_sub_u32)
  show "files_ok C (wipe_blocks C) no_files"
    unfolding files_ok_def using validate_zero_file_meta [OF cfg] re by simp
qed

context fs_dev
begin

section \<open>The steps of the reset\<close>

lemma get_active_any:
  assumes s: "act_ok s"
  shows "wp etss_init_get_active_metablock
    (\<lambda>_ s'. \<exists>d a. s' = s\<lparr>flash := d, active_metablock := a, scratch_metablock := 1 - a\<rparr> \<and> (a = 0 \<or> a = 1) \<and> dok d)
    (\<lambda>_ s'. \<exists>d. s' = s\<lparr>flash := d\<rparr> \<and> dok d) s" (is "wp _ ?Q ?E s")
  unfolding etss_init_get_active_metablock_def wp_bindE
proof (rule probe_wp [OF s], goal_cases)
  case (2 r0 d0)
  show ?case
    unfolding wp_bindE
  proof (rule probe_wp, goal_cases)
    case (3 r1 d1)
    have z: "ETSS_METADATA_BLOCK0 = 0" "ETSS_METADATA_BLOCK1 = 1" "ETSS_OTHER_META_BLOCK 0 = 1" "ETSS_OTHER_META_BLOCK 1 = 0"
      by (simp_all add: mblock_consts ETSS_OTHER_META_BLOCK_def)
    have l: "etss_mblock_latest_meta_block c h0 h1 = 0 \<or> etss_mblock_latest_meta_block c h0 h1 = 1" for c h0 h1
      by (simp add: etss_mblock_latest_meta_block_def z Let_def)
    have q: "?Q u (s\<lparr>flash := d1, active_metablock := a, scratch_metablock := ETSS_OTHER_META_BLOCK a\<rparr>)" if "a = 0 \<or> a = 1" for a u
      using that 3 z by (intro exI [of _ d1] exI [of _ a]) auto
    have s1: "s\<lparr>flash := d0, flash := d1\<rparr> = s\<lparr>flash := d1\<rparr>" by simp
    have e: "?E e (s\<lparr>flash := d1\<rparr>)" for e :: psa_error using 3 by blast
    show ?case
      unfolding s1
      by (cases r0; cases r1)
        (use q [of 0] q [of 1] q [OF l] e in \<open>simp_all only: wp_rules option.case prod.case z simp_thms\<close>)
  qed (use 2 s in \<open>simp_all add: mblock_consts\<close>)
qed (simp add: mblock_consts)

lemma erase_dedicated_wp:
  assumes "sok s" and "\<And>i. i \<in> set is \<Longrightarrow> i + etss_init_dblock_start C \<notin> {0, 1} \<and> i + etss_init_dblock_start C < ucast (num_blocks C)"
    and "\<And>f d. f \<longrightarrow> failed \<or> \<not> rel \<Longrightarrow> dok d \<Longrightarrow> mem d 0 = mm s 0 \<Longrightarrow> mem d 1 = mm s 1 \<Longrightarrow> Q f (s\<lparr>flash := d\<rparr>)"
  shows "wp (erase_dedicated_dblocks C is failed) Q E s"
  using assms
proof (induction "is" arbitrary: s failed)
  case Nil
  have "Q failed (s\<lparr>flash := flash s\<rparr>)" by (rule Nil.prems(3)) (use Nil.prems(1) in auto)
  then show ?case by simp
next
  case (Cons i "is")
  have i: "i + etss_init_dblock_start C \<notin> {0, 1}" "i + etss_init_dblock_start C < ucast (num_blocks C)"
    using Cons.prems(2) by auto
  show ?case
    unfolding erase_dedicated_dblocks.simps wp_tryE
  proof (rule flash_erase_wp [OF Cons.prems(1) i(2)], goal_cases)
    case (1 d)
    show ?case by (rule Cons.IH) (use Cons.prems 1 i in auto)
  next
    case (2 e d)
    have m: "mem d 0 = mm s 0" "mem d 1 = mm s 1" using 2(3) i by auto
    show ?case
    proof (rule Cons.IH, goal_cases)
      case (3 f d')
      have "Q f (s\<lparr>flash := d'\<rparr>)" by (rule Cons.prems(3)) (use 2(1) 3 m in auto)
      then show ?case by simp
    qed (use Cons.prems 2 in auto)
  qed
qed

abbreviation bregion :: "u32 \<Rightarrow> nat set" where
  "bregion l \<equiv> {boff (unat l)..<boff (unat l) + 12}"

lemma bregion_disjoint: "i \<noteq> j \<Longrightarrow> bregion i \<inter> bregion j = {}"
proof -
  assume "i \<noteq> j"
  then have "unat i < unat j \<or> unat j < unat i" using word_unat_eq_iff [of i j] by linarith
  then show ?thesis using boff_mono [of "unat i" "unat j"] boff_mono [of "unat j" "unat i"] by auto
qed

lemma dedicated_idx:
  assumes "i \<in> set (u32_upto (etss_num_dedicated_dblocks C))"
  shows "unat (i + 1) = unat i + 1" "unat i + 1 < nad C" "num_blocks C \<noteq> 2"
    "i + etss_init_dblock_start C \<notin> {0, 1} \<and> i + etss_init_dblock_start C < ucast (num_blocks C)"
proof -
  have lt: "unat i < unat (etss_num_dedicated_dblocks C)" using assms by (simp add: set_u32_upto word_less_nat_alt)
  then show nb: "num_blocks C \<noteq> 2" by (auto simp: etss_num_dedicated_dblocks_def)
  then have "4 \<le> unat (num_blocks C)" using cfg_okD(1) [OF cfg] by simp
  then have n: "unat (etss_num_dedicated_dblocks C) = unat (num_blocks C) - 3" "4 \<le> unat (num_blocks C)"
    using nb by (simp_all add: etss_num_dedicated_dblocks_def etss_init_dblock_start_def unat_sub_u32)
  have b: "unat (num_blocks C) < 65536" by (rule unat_u16_less)
  show "unat (i + 1) = unat i + 1" using lt n b by (simp add: unat_add_u32)
  show "unat i + 1 < nad C" using lt n nb by (simp add: nad_def)
  have "unat (i + 3) = unat i + 3" using lt n b by (simp add: unat_add_u32)
  then show "i + etss_init_dblock_start C \<notin> {0, 1} \<and> i + etss_init_dblock_start C < ucast (num_blocks C)"
    using lt n nb by (auto simp: etss_init_dblock_start_def word_less_nat_alt word_unat_eq_iff)
qed

lemma bregion_table:
  "{8..<20} \<union> (\<Union>i\<in>set (u32_upto (etss_num_dedicated_dblocks C)). bregion (i + 1)) = {8..<foff C 0}"
proof (intro equalityI subsetI)
  fix p assume p: "p \<in> {8..<20} \<union> (\<Union>i\<in>set (u32_upto (etss_num_dedicated_dblocks C)). bregion (i + 1))"
  then consider "8 \<le> p" "p < 20" | i where "i \<in> set (u32_upto (etss_num_dedicated_dblocks C))" "p \<in> bregion (i + 1)" by auto
  then show "p \<in> {8..<foff C 0}"
  proof cases
    case 1
    then show ?thesis using boff_le [of 0 C] nad_pos [OF cfg] by (simp add: boff_def)
  next
    case 2
    then show ?thesis using dedicated_idx [OF 2(1)] boff_le [of "unat i + 1" C] by (auto simp: boff_def)
  qed
next
  fix p assume p: "p \<in> {8..<foff C 0}"
  define k where "k = (p - 8) div 12"
  have k: "k < nad C" "boff k \<le> p" "p < boff k + 12"
    using p div_mult_mod_eq [of "p - 8" 12] mod_less_divisor [of 12 "p - 8"]
    by (auto simp: k_def boff_def foff_def div_less_iff_less_mult)
  show "p \<in> {8..<20} \<union> (\<Union>i\<in>set (u32_upto (etss_num_dedicated_dblocks C)). bregion (i + 1))"
  proof (cases "k = 0")
    case True
    then show ?thesis using p k by (simp add: boff_def)
  next
    case False
    define i :: u32 where "i = of_nat (k - 1)"
    have i: "unat i = k - 1" using k(1) nad_less [of C] by (simp add: i_def unat_of_nat_u32)
    have "num_blocks C \<noteq> 2" using False k(1) by (auto simp: nad_def)
    then have n: "unat (etss_num_dedicated_dblocks C) = nad C - 1"
      using cfg_okD(1) [OF cfg] by (simp add: etss_num_dedicated_dblocks_def etss_init_dblock_start_def unat_sub_u32 nad_def)
    have m: "i \<in> set (u32_upto (etss_num_dedicated_dblocks C))"
      using i n False k(1) by (simp add: set_u32_upto word_less_nat_alt)
    have "p \<in> bregion (i + 1)" using dedicated_idx(1) [OF m] i False k by simp
    then show ?thesis using m by blast
  qed
qed

lemma stage_dedicated:
  assumes "stage s (mb_image C B F D) R t" and sp: "\<not> rel \<Longrightarrow> spoilt s E"
    and "\<And>i. i \<in> set is \<Longrightarrow> unat (i + 1) < nad C" and "distinct is"
    and "\<And>i. i \<in> set is \<Longrightarrow> bregion (i + 1) \<inter> R = {}"
    and "\<And>i. i \<in> set is \<Longrightarrow> B (unat (i + 1)) = x\<lparr>bm_phy_id := i + etss_init_dblock_start C\<rparr>"
    and "\<And>t'. stage s (mb_image C B F D) (R \<union> (\<Union>i\<in>set is. bregion (i + 1))) t' \<Longrightarrow> Q () t'"
  shows "wp (write_dedicated_block_metas C x is) Q E t"
  using assms(1,3-)
proof (induction "is" arbitrary: R t)
  case Nil
  then show ?case by simp
next
  case (Cons i "is")
  note st = Cons.prems(1)
  have i: "unat (i + 1) < nad C" using Cons.prems(2) by simp
  show ?case
    unfolding write_dedicated_block_metas.simps wp_bindE wp_orError
  proof (rule update_block_meta_wp [where T = "mb_image C B F D", OF stageD(2) [OF st] i], goal_cases)
    case 1
    then show ?case
      using Cons.prems(4) [of i] boff_le_block [OF cfg i] by (intro stage_erased [OF st]) auto
  next
    case (2 k)
    then show ?case using image_block [OF i] Cons.prems(5) [of i] by simp
  next
    case (3 d)
    have st': "stage s (mb_image C B F D) (R \<union> bregion (i + 1)) (t\<lparr>flash := d\<rparr>)" by (rule stage_fill [OF st 3])
    show ?case
    proof (rule Cons.IH [OF st'])
      show "bregion (j + 1) \<inter> (R \<union> bregion (i + 1)) = {}" if "j \<in> set is" for j
      proof -
        have "j + 1 \<noteq> i + 1" using that Cons.prems(3) by auto
        then show ?thesis using bregion_disjoint [of "j + 1" "i + 1"] Cons.prems(4) [of j] that by auto
      qed
      show "Q () t'" if "stage s (mb_image C B F D) (R \<union> bregion (i + 1) \<union> (\<Union>i\<in>set is. bregion (i + 1))) t'" for t'
        using Cons.prems(6) [of t'] that by (simp add: Un_assoc)
    qed (use Cons.prems in auto)
  next
    case (4 e d)
    then show ?case using stage_spoilt [OF st sp] by auto
  qed
qed

lemma stage_empty_files:
  assumes "stage s (mb_image C B no_files D) R t" and sp: "\<not> rel \<Longrightarrow> spoilt s E"
    and "\<And>i. i \<in> set is \<Longrightarrow> unat i < mnf C" and "distinct is"
    and "\<And>i. i \<in> set is \<Longrightarrow> fregion i \<inter> R = {}"
    and "\<And>t'. stage s (mb_image C B no_files D) (R \<union> (\<Union>i\<in>set is. fregion i)) t' \<Longrightarrow> Q () t'"
  shows "wp (write_empty_file_metas is) Q E t"
  using assms(1,3-)
proof (induction "is" arbitrary: R t)
  case Nil
  then show ?case by simp
next
  case (Cons i "is")
  have i: "unat i < mnf C" using Cons.prems(2) by simp
  have sp': "\<not> rel \<Longrightarrow> spoilt s (\<lambda>_. E PSA_ERROR_GENERIC_ERROR)" using sp by (simp add: spoilt_def)
  show ?case
    unfolding write_empty_file_metas.simps wp_bindE wp_orError
  proof (rule stage_file_meta [OF Cons.prems(1) sp' i])
    show "fregion i \<inter> R = {}" using Cons.prems(4) by simp
    fix t' assume st: "stage s (mb_image C B no_files D) (R \<union> fregion i) t'"
    show "wp (write_empty_file_metas is) Q E t'"
    proof (rule Cons.IH [OF st])
      show "fregion j \<inter> (R \<union> fregion i) = {}" if "j \<in> set is" for j
      proof -
        have "j \<noteq> i" using that Cons.prems(3) by auto
        then show ?thesis using fregion_disjoint [of j i] Cons.prems(4) [of j] that by auto
      qed
      show "Q () u" if "stage s (mb_image C B no_files D) (R \<union> fregion i \<union> (\<Union>i\<in>set is. fregion i)) u" for u
        using Cons.prems(5) [of u] that by (simp add: Un_assoc)
    qed (use Cons.prems in auto)
  qed (use image_file [OF i] in auto)
qed

section \<open>The reset\<close>

text \<open>What the reset leaves: an elected block with empty tables.\<close>

definition wiped :: "'d fs_state \<Rightarrow> bool" where
  "wiped s \<longleftrightarrow> act_ok s \<and> disk_ok (mm s) 1 \<and> (\<forall>i<mnf C. fmv C (mm s) 1 i = zero_file_meta)"

lemma wiped_commit:
  assumes m: "metas t" and act: "active_metablock t = 0" "scratch_metablock t = 1"
    and hd: "hdr_fs_version (meta_block_header t) = ETSS_SUPPORTED_VERSION" "sdb t = etss_init_scratch_dblock C"
    and er: "erased_on (mm t) 0 whole"
    and img: "\<And>p. 8 \<le> p \<Longrightarrow> p < foff C (mnf C) \<Longrightarrow> mm t 1 ! p = mb_image C (wipe_blocks C) no_files D p"
    and d: "dok d" "mem d = committed t"
  shows "wiped (t\<lparr>meta_block_header := new_header t, flash := d, scratch_metablock := 0, active_metablock := 1\<rparr>)"
proof -
  note ct = committed_tables [where B = "wipe_blocks C" and F = no_files and D = D, OF m, unfolded act]
  have tab: "bmv (mem d) 1 l = wipe_blocks C l" if "l < nad C" for l
    by (rule ct(2)) (use img that d in auto)
  have fil: "fmv C (mem d) 1 i = zero_file_meta" if "i < mnf C" for i
    by (rule ct(3)) (use img that d in auto)
  have xr: "table_xor (mem d 1) = table_xor (mm t 1)" using ct(4) img d by auto
  have "bslice 0 8 (mem d 1) = encode_header (new_header t)" using ct(5) img d by auto
  then have dh: "disk_header (mem d) 1 = new_header t" by (simp add: disk_header_def)
  have v1: "header_valid (mem d) 1"
    using hd xr act by (simp add: header_valid_def Let_def dh next_count_neq_erase)
  have m0: "mem d 0 = mm t 0" using d act by (simp add: committed_def)
  have "length (mem d 0) = unat (block_size C)" using m m0 act by (metis metas_simps(1,3) mm_length)
  then have v0: "\<not> header_valid (mem d) 0" using er m0 by (intro erased_not_valid) (simp_all add: erased_on_def)
  have "blocks_ok C 1 (etss_init_scratch_dblock C) (bmv (mem d) 1)"
    using wipe_blocks_ok(1) [OF cfg] blocks_ok_cong [of C "bmv (mem d) 1" "wipe_blocks C"] tab nad_pos [OF cfg] by simp
  moreover have "files_ok C (bmv (mem d) 1) (fmv C (mem d) 1)"
    using wipe_blocks_ok(2) [OF cfg] files_ok_cong [OF cfg, of "bmv (mem d) 1" "wipe_blocks C" "fmv C (mem d) 1" no_files] tab fil by simp
  ultimately have "disk_ok (mem d) 1" using v0 v1 hd by (simp add: disk_ok_def elects_def dh)
  moreover have "sok t" using m by simp
  ultimately show ?thesis using fil d by (simp add: wiped_def act_ok_def)
qed

lemma reset_commit_wp:
  assumes t: "act_ok t" "active_metablock t = 0" "scratch_metablock t = 1"
    and hd: "hdr_fs_version (meta_block_header t) = ETSS_SUPPORTED_VERSION" "sdb t = etss_init_scratch_dblock C"
    and er: "erased_on (mm t) 0 whole" and st: "stage t (mb_image C (wipe_blocks C) no_files D) {8..<foff C (mnf C)} u"
  shows "wp (bindE (orError etss_mblock_write_scratch_meta_header PSA_ERROR_GENERIC_ERROR) (\<lambda>_.
      bindE (withS (\<lambda>s. flash_flush (scratch_metablock s))) (\<lambda>_. etss_mblock_swap_metablocks)))
    (\<lambda>_. wiped) (\<lambda>_ _. \<not> rel) u"
proof -
  note sD = stageD [OF st]
  have mu: "metas u" by (rule sD(2))
  have le: "8 \<le> foff C (mnf C)" "foff C (mnf C) \<le> unat (block_size C)" using cfg_okD(3) [OF cfg] by (simp_all add: foff_def)
  have e8: "erased_on (mm u) (scratch_metablock u) {0..<8}" by (rule stage_erased [OF st]) (use le in auto)
  show ?thesis
    unfolding wp_bindE wp_orError
  proof (rule write_header_wp [OF mu e8], goal_cases)
    case (1 d)
    let ?v = "u\<lparr>meta_block_header := new_header u, flash := d\<rparr>"
    have "wp (flash_flush (scratch_metablock ?v)) (\<lambda>_. wp etss_mblock_swap_metablocks (\<lambda>_. wiped) (\<lambda>_ _. \<not> rel)) (\<lambda>_ _. \<not> rel) ?v"
    proof (rule flash_flush_wp, goal_cases)
      case (3 d')
      have "wiped (u\<lparr>meta_block_header := new_header u, flash := d', scratch_metablock := 0, active_metablock := 1\<rparr>)"
      proof (rule wiped_commit [OF mu, where D = D])
        show "mm u 1 ! p = mb_image C (wipe_blocks C) no_files D p" if "8 \<le> p" "p < foff C (mnf C)" for p
          using sD(7) [of p] that le t by simp
        show "erased_on (mm u) 0 whole" using er sD(6) [of 0] t by (simp add: erased_on_def)
        show "mem d' = committed u" using 3 1 by (simp add: committed_def)
      qed (use sD t hd 3 in simp_all)
      then show ?case using sD t by (simp add: etss_mblock_swap_metablocks_def)
    qed (use mu 1 in simp_all)
    then show ?case by (simp add: wp_fun)
  qed
qed

lemma reset_tables_wp:
  assumes t: "act_ok t" "active_metablock t = 0" "scratch_metablock t = 1"
    and hd: "hdr_fs_version (meta_block_header t) = ETSS_SUPPORTED_VERSION" "sdb t = etss_init_scratch_dblock C"
    and er: "erased_on (mm t) 0 whole" and st: "stage t (mb_image C (wipe_blocks C) no_files D) {8..<20} t"
  shows "wp (bindE (write_dedicated_block_metas C \<lparr>bm_phy_id = 1, bm_data_start = 0, bm_free_size = block_size C\<rparr>
        (u32_upto (etss_num_dedicated_dblocks C))) (\<lambda>_.
      bindE (write_empty_file_metas (file_idxs C)) (\<lambda>_.
      bindE (orError etss_mblock_write_scratch_meta_header PSA_ERROR_GENERIC_ERROR) (\<lambda>_.
      bindE (withS (\<lambda>s. flash_flush (scratch_metablock s))) (\<lambda>_. etss_mblock_swap_metablocks)))))
    (\<lambda>_. wiped) (\<lambda>_ _. \<not> rel) t"
proof -
  let ?T = "mb_image C (wipe_blocks C) no_files D"
  have sp: "\<not> rel \<Longrightarrow> spoilt t (\<lambda>_ _. \<not> rel)" by (simp add: spoilt_def)
  have ded: "unat (i + 1) = unat i + 1" "unat i + 1 < nad C" "num_blocks C \<noteq> 2" if "i \<in> set (u32_upto (etss_num_dedicated_dblocks C))" for i
    using that dedicated_idx by blast+
  have R: "{8..<20} \<union> (\<Union>i\<in>set (u32_upto (etss_num_dedicated_dblocks C)). bregion (i + 1)) = {8..<foff C 0}"
    by (rule bregion_table)
  show ?thesis
    unfolding wp_bindE
  proof (rule stage_dedicated [OF st sp], goal_cases)
    case (2 i)
    then show ?case using ded by simp
  next
    case (4 i)
    then show ?case using ded(1) by (auto simp: boff_def)
  next
    case (5 i)
    then show ?case using ded [of i]
      by (simp add: wipe_blocks_def Let_def etss_init_dblock_start_def)
  next
    case (6 u)
    have su: "stage t ?T {8..<foff C 0} u" using 6 R by simp
    show ?case
      unfolding wp_bindE
    proof (rule stage_empty_files [OF su sp], goal_cases)
      case (4 i)
      then show ?case by (auto simp: foff_def)
    next
      case (5 v)
      have "{8..<foff C 0} \<union> {foff C 0..<foff C (mnf C)} = {8..<foff C (mnf C)}" by (auto simp: foff_def)
      then show ?case using reset_commit_wp [OF t hd er, of D v] 5 fregion_table by (simp add: wp_fun)
    qed (use file_idxs_unat in auto)
  qed auto
qed

lemma reset_blank_wp:
  assumes t: "act_ok t" "active_metablock t = 0" "scratch_metablock t = 1"
    and hd: "hdr_fs_version (meta_block_header t) = ETSS_SUPPORTED_VERSION" "sdb t = etss_init_scratch_dblock C"
    and er: "erased_on (mm t) 0 whole" "erased_on (mm t) 1 whole"
  shows "wp (bindE (withS (\<lambda>s.
       let start = etss_mblock_file_meta_offset (ctx_cfg s) (ucast (max_num_files (ctx_cfg s)))
       in etss_mblock_update_scratch_block_meta ETSS_LOGICAL_DBLOCK0
            \<lparr>bm_phy_id = scratch_metablock s, bm_data_start = start,
             bm_free_size = block_size (ctx_cfg s) - start\<rparr>)) (\<lambda>_.
     withS (\<lambda>s.
       let dedicated = u32_upto (etss_num_dedicated_dblocks (ctx_cfg s)) in
       bindE (erase_dedicated_dblocks (ctx_cfg s) dedicated False) (\<lambda>failed.
       if failed then throwE PSA_ERROR_STORAGE_FAILURE
       else
         bindE (write_dedicated_block_metas (ctx_cfg s)
           \<lparr>bm_phy_id = scratch_metablock s, bm_data_start = 0,
            bm_free_size = block_size (ctx_cfg s)\<rparr> dedicated) (\<lambda>_.
         bindE (write_empty_file_metas (u32_upto (ucast (max_num_files (ctx_cfg s))))) (\<lambda>_.
         bindE (orError etss_mblock_write_scratch_meta_header PSA_ERROR_GENERIC_ERROR) (\<lambda>_.
         bindE (withS (\<lambda>s. flash_flush (scratch_metablock s))) (\<lambda>_.
         etss_mblock_swap_metablocks)))))))) (\<lambda>_. wiped) (\<lambda>_ _. \<not> rel) t"
proof -
  define D where "D = (\<lambda>_ :: nat. erase_val C)"
  let ?T = "mb_image C (wipe_blocks C) no_files D"
  let ?st = "etss_mblock_file_meta_offset C (ucast (max_num_files C))"
  let ?x = "\<lparr>bm_phy_id = 1, bm_data_start = ?st, bm_free_size = block_size C - ?st\<rparr>"
  have m: "metas t" using t unfolding metas_def by simp
  have st0: "stage t ?T {} t" by (rule stage_init [OF m]) (use er t in simp)
  have n0: "unat ETSS_LOGICAL_DBLOCK0 < nad C" using nad_pos [OF cfg] by (simp add: mblock_consts)
  show ?thesis
    unfolding wp_bindE wp_withS Let_def act_ok_cfg [OF t(1)] t(3)
  proof (rule update_block_meta_wp [where T = ?T, OF m n0], goal_cases)
    case 1
    then show ?case by (rule stage_erased [OF st0]) (use boff_le_block [OF cfg n0] in auto)
  next
    case (2 k)
    then show ?case using image_block [OF n0] by (simp add: wipe_blocks_def mblock_consts Let_def)
  next
    case (3 d)
    have st1: "stage t ?T {8..<20} (t\<lparr>flash := d\<rparr>)"
      using stage_fill [OF st0 3] by (simp add: mblock_consts boff_def)
    note sD = stageD [OF st1]
    have c: "ctx_cfg (t\<lparr>flash := d\<rparr>) = C" "scratch_metablock (t\<lparr>flash := d\<rparr>) = 1" using t by simp_all
    show ?case
      unfolding wp_bindE wp_withS c
    proof (rule erase_dedicated_wp, goal_cases)
      case (3 f d')
      let ?u = "t\<lparr>flash := d'\<rparr>"
      have mu: "metas ?u" using m 3 by simp
      have "stage ?u ?T {8..<20} (?u\<lparr>flash := d'\<rparr>)"
        by (rule stageI [OF mu]) (use 3 sD(7) t in auto)
      then have su: "stage ?u ?T {8..<20} ?u" by simp
      have e0: "erased_on (mm ?u) 0 whole" using er(1) 3(3) sD(6) [of 0] t by (simp add: erased_on_def)
      have au: "act_ok ?u" "active_metablock ?u = 0" "scratch_metablock ?u = 1"
        "hdr_fs_version (meta_block_header ?u) = ETSS_SUPPORTED_VERSION" "sdb ?u = etss_init_scratch_dblock C"
        using t 3 hd by simp_all
      have "wp (if f then throwE PSA_ERROR_STORAGE_FAILURE
       else bindE (write_dedicated_block_metas C \<lparr>bm_phy_id = 1, bm_data_start = 0, bm_free_size = block_size C\<rparr>
           (u32_upto (etss_num_dedicated_dblocks C))) (\<lambda>_.
         bindE (write_empty_file_metas (file_idxs C)) (\<lambda>_.
         bindE (orError etss_mblock_write_scratch_meta_header PSA_ERROR_GENERIC_ERROR) (\<lambda>_.
         bindE (withS (\<lambda>s. flash_flush (scratch_metablock s))) (\<lambda>_.
         etss_mblock_swap_metablocks))))) (\<lambda>_. wiped) (\<lambda>_ _. \<not> rel) ?u"
        using reset_tables_wp [OF au e0 su] 3(1) by (simp del: wp_bindE)
      then show ?case by simp
    qed (use t 3 dedicated_idx(4) in auto)
  qed
qed

theorem wipe_all_wp:
  assumes s: "act_ok s"
  shows "wp etss_flash_fs_wipe_all (\<lambda>_. wiped) (\<lambda>_ _. \<not> rel) s"
proof -
  have z: "ETSS_METADATA_BLOCK0 = 0" "ETSS_METADATA_BLOCK1 = 1" by (simp_all add: mblock_consts)
  have bl: "erased_on (m(b := replicate (unat (block_size C)) (erase_val C))) b whole" for m b by (simp add: erased_on_def)
  have o: "ETSS_OTHER_META_BLOCK f = 1 - f" "f < ucast (num_blocks C)" "ETSS_OTHER_META_BLOCK f < ucast (num_blocks C)"
    if "f = 0 \<or> f = 1" for f
    using that act_less by (auto simp: ETSS_OTHER_META_BLOCK_def mblock_consts)
  have first: "wp (bindE (flash_erase f) (\<lambda>_. bindE (flash_erase (ETSS_OTHER_META_BLOCK f)) (\<lambda>_. m))) (\<lambda>_. wiped) (\<lambda>_ _. \<not> rel) t"
    if f: "f = 0 \<or> f = 1" and t: "sok t" and k: "\<And>u. sok u \<Longrightarrow> erased_on (mm u) 0 whole \<Longrightarrow> erased_on (mm u) 1 whole \<Longrightarrow>
        wp m (\<lambda>_. wiped) (\<lambda>_ _. \<not> rel) u" for f t m
    unfolding wp_bindE
  proof (rule flash_erase_wp [OF t o(2) [OF f]], goal_cases)
    case (1 d)
    show ?case
      unfolding wp_bindE
    proof (rule flash_erase_wp [OF _ o(3) [OF f]], goal_cases)
      case (2 d')
      show ?case by (rule k) (use t 1 2 f bl o in \<open>auto simp: erased_on_def\<close>)
    qed (use t 1 in simp_all)
  qed
  show ?thesis
    unfolding etss_flash_fs_wipe_all_def etss_flash_fs_mblock_reset_metablock_def wp_tryE
  proof (rule wp_mono [OF get_active_any [OF s]], goal_cases)
    case (1 u t)
    then obtain d a where t: "t = s\<lparr>flash := d, active_metablock := a, scratch_metablock := 1 - a\<rparr>" "a = 0 \<or> a = 1" "dok d" by blast
    show ?case
      unfolding wp_bindE [of "getS _"] wp_getS sum.case
    proof (rule first, goal_cases)
      case (3 u)
      show ?case unfolding wp_bindE [of "modifyS _"] wp_modifyS
        by (rule reset_blank_wp) (use 3 in \<open>simp_all add: act_ok_def z\<close>)
    qed (use t s in auto)
  next
    case (2 e t)
    then obtain d where t: "t = s\<lparr>flash := d\<rparr>" "dok d" by blast
    show ?case
      unfolding wp_bindE [of "getS _"] wp_getS sum.case
    proof (rule first, goal_cases)
      case (3 u)
      show ?case unfolding wp_bindE [of "modifyS _"] wp_modifyS
        by (rule reset_blank_wp) (use 3 in \<open>simp_all add: act_ok_def z\<close>)
    qed (use t s z in auto)
  qed
qed

text \<open>Wiping and preparing yields the empty file system.\<close>

theorem format_wp:
  assumes rel: "rel" and s: "act_ok s"
  shows "wp (bindE etss_flash_fs_wipe_all (\<lambda>_. etss_flash_fs_prepare))
    (\<lambda>_ s'. at_rest s' \<and> fs_abs s' = (\<lambda>_. None)) (\<lambda>_ _. False) s"
  unfolding wp_bindE
proof (rule wp_mono [OF wipe_all_wp [OF s]])
  fix u t assume w: "wiped t"
  have ro: "rest_ok C (fmv C (mm t) 1)" using w by (auto simp: wiped_def rest_ok_def)
  have dk: "disk_ok (mm t) 1" and a: "act_ok t" using w by (simp_all add: wiped_def)
  have e: "fs_rec (mounted t 1) = (\<lambda>_. None)"
    using w by (simp add: wiped_def fs_rec_def fun_eq_iff absfs_None rec_files_def)
  show "wp etss_flash_fs_prepare (\<lambda>_ s'. at_rest s' \<and> fs_abs s' = (\<lambda>_. None)) (\<lambda>_ _. False) t"
  proof (rule wp_mono [OF prepare_wp [OF act_ok_booted [OF rel a] dk recoverable_rest [OF ro]]])
    fix u s' assume "at_rest s' \<and> fs_abs s' = fs_rec (mounted t 1)"
    then show "at_rest s' \<and> fs_abs s' = (\<lambda>_. None)" unfolding e .
  qed (use rel in blast)
qed (use rel in blast)

text \<open>First start on a flash without a valid file system: the start-up fails, and wiping it gives the empty one.\<close>

theorem first_boot_wp:
  assumes rel: "rel" and s: "booted s" and nv: "\<not> header_valid (mm s) 0" "\<not> header_valid (mm s) 1"
  shows "wp (tryE etss_flash_fs_prepare (\<lambda>r. case r of
      Inr _ \<Rightarrow> returnE () | Inl _ \<Rightarrow> bindE etss_flash_fs_wipe_all (\<lambda>_. etss_flash_fs_prepare)))
    (\<lambda>_ s'. at_rest s' \<and> fs_abs s' = (\<lambda>_. None)) (\<lambda>_ _. False) s"
  unfolding wp_tryE sum.case
proof (rule wp_mono [OF prepare_blank_wp [OF s nv]])
  fix e s' assume "mm s' = mm s \<and> (rel \<longrightarrow> e = PSA_ERROR_GENERIC_ERROR \<and> act_ok s')"
  then have "act_ok s'" using rel by blast
  then show "wp (bindE etss_flash_fs_wipe_all (\<lambda>_. etss_flash_fs_prepare))
      (\<lambda>_ s'. at_rest s' \<and> fs_abs s' = (\<lambda>_. None)) (\<lambda>_ _. False) s'" by (rule format_wp [OF rel])
qed blast

end

end
