(* ===== verification/Flash_Fs_Startup.thy ===== *)
theory Flash_Fs_Startup
  imports Flash_Fs_Wipe
begin

text \<open>
  Start-up of a file system on whatever the flash holds: an area with a file system is mounted with its
  files, also after a write that was refused, and an area without one is formatted.
\<close>

text \<open>What \<open>etss_flash_fs_init_ctx_and_prepare\<close> does once the context is set up.\<close>

definition start_up :: "('d, unit) fs_op" where
  "start_up = tryE etss_flash_fs_prepare (\<lambda>r. case r of
     Inr _ \<Rightarrow> returnE () | Inl _ \<Rightarrow> bindE etss_flash_fs_wipe_all (\<lambda>_. etss_flash_fs_prepare))"

context fs_dev
begin

text \<open>The flash content \<open>m\<close> holds the files \<open>X\<close>: there is no file system and \<open>X\<close> is empty, or there is one.\<close>

definition found :: "(u32 \<Rightarrow> buf) \<Rightarrow> (buf \<Rightarrow> afile option) \<Rightarrow> bool" where
  "found m X \<longleftrightarrow> \<not> header_valid m 0 \<and> \<not> header_valid m 1 \<and> X = (\<lambda>_. None) \<or>
     (\<exists>a. disk_ok m a \<and> recoverable (fmv C m a) \<and> X = absfs C m (bmv m a) (rec_files (fmv C m a)))"

lemma rest_found: "at_rest s \<Longrightarrow> found (mm s) (fs_abs s)"
  using at_rest_disk [of s] unfolding found_def fs_rec_def by auto

lemma quiet_found:
  assumes r: "at_rest s" and q: "quiet s s'"
  shows "found (mm s') (fs_abs s)"
proof -
  let ?a = "active_metablock s"
  obtain T R where st: "stage s T R s'" and R: "R \<inter> {0..<8} = {}" using q unfolding quiet_def by blast
  have ti: "tabs_ok s" using r by (simp add: at_rest_def fs_inv_def)
  note h = stage_harmless [OF st] and dk = at_rest_disk [OF r] and sd = stageD [OF st] and td = tabs_okD [OF ti]
  note ht = harmless_tables [OF ti h]
  have tb: "bmv (mm s') ?a = tB s" "fmv C (mm s') ?a = tF s" using ht(2,3) sd(3) by simp_all
  have dh: "disk_header (mm s') ?a = disk_header (mm s) ?a" by (simp add: disk_header_def ht(1))
  have scr: "scratch_metablock s = 1 - ?a" using td(1) unfolding metas_def by auto
  have c8: "8 \<le> unat (block_size C)" using cfg_okD(3) [OF cfg] by (simp add: foff_def)
  have "length (mm s' (scratch_metablock s)) = unat (block_size C)"
    using sd(2) by (metis mm_length metas_simps(1,4) sd(4))
  moreover have "erased_on (mm s') (scratch_metablock s) {0..<8}" using sd(7) R c8 by (auto simp: erased_on_def)
  ultimately have nv: "\<not> header_valid (mm s') (1 - ?a)" using erased_header_not_valid scr by simp
  have "header_valid (mm s') ?a = header_valid (mm s) ?a" by (simp only: header_valid_def dh ht(1))
  then have "disk_ok (mm s') ?a" using nv dk(1) unfolding disk_ok_def elects_def dh tb by blast
  moreover have "fs_rec s' = fs_abs s" using harmless_rec [OF ti rest_rec [OF r] h] fs_rec_rest [OF r] by simp
  then have "fs_abs s = absfs C (mm s') (tB s) (rec_files (tF s))" by (simp add: fs_rec_def ht(2,3))
  ultimately show ?thesis using dk(2) tb unfolding found_def by metis
qed

lemma start_up_wp:
  assumes rel: "rel" and s: "booted s" and f: "found (mm s) X"
  shows "wp start_up (\<lambda>_ s'. at_rest s' \<and> fs_abs s' = X) (\<lambda>_ _. False) s"
  using f unfolding found_def
proof (elim disjE exE conjE)
  assume "\<not> header_valid (mm s) 0" "\<not> header_valid (mm s) 1" "X = (\<lambda>_. None)"
  then show ?thesis unfolding start_up_def using first_boot_wp [OF rel s] by simp
next
  fix a assume "disk_ok (mm s) a" "recoverable (fmv C (mm s) a)" and X: "X = absfs C (mm s) (bmv (mm s) a) (rec_files (fmv C (mm s) a))"
  note p = prepare_wp [OF s this(1,2)]
  show ?thesis
    unfolding start_up_def wp_tryE
    by (rule wp_mono [OF p]) (use X rel in \<open>auto simp: fs_rec_def\<close>)
qed

end

end
