(* ===== verification/Etss_Secureflash.thy ===== *)
theory Etss_Secureflash
  imports Secureflash Flash_Fs_Startup
begin

text \<open>
  The flash operations the file system runs on, \<open>etss_secureflash.c\<close>: block and offset become an
  address of the secure flash, errors become \<open>PSA_ERROR_STORAGE_FAILURE\<close>, and every access is made for
  the application in \<open>secureflash_app_id\<close>, which the start-up sets to the service itself. The locale
  \<open>secure_hal\<close> states what the JEDEC layer and the device promise; from it follows the contract
  \<open>fs_dev\<close> that the file system relies on.
\<close>

section \<open>Operations\<close>

record ('h, 'v) etss_dev = "('h, 'v) secureflash_t" +
  secureflash_app_id :: int

definition get_phys_address :: "etss_flash_fs_config_t \<Rightarrow> u32 \<Rightarrow> u32 \<Rightarrow> u32" where
  "get_phys_address cfg block_id offset = flash_area_addr cfg + block_id * block_size cfg + offset"

definition storage_failure :: "('s, sf_error, 'a) sem \<Rightarrow> ('s, psa_error, 'a) sem" where
  "storage_failure m = tryE m (\<lambda>r. case r of
     Inl e \<Rightarrow> throwE (if e = SECUREFLASH_NO_RESULT then PSA_NO_RESULT else PSA_ERROR_STORAGE_FAILURE)
   | Inr a \<Rightarrow> returnE a)"

definition etss_secureflash_init :: "('h, 'v) sf_hal \<Rightarrow> etss_flash_fs_config_t \<Rightarrow> (('h, 'v) etss_dev, psa_error, unit) sem" where
  "etss_secureflash_init hal cfg =
     bindE (modifyS (\<lambda>d. d\<lparr>secureflash_app_id := hal_SP_ETSS hal\<rparr>)) (\<lambda>_.
     storage_failure (secureflash_init hal))"

definition etss_secureflash_read :: "('h, 'v) sf_hal \<Rightarrow> etss_flash_fs_config_t \<Rightarrow> u32 \<Rightarrow> u32 \<Rightarrow> u32 \<Rightarrow>
    (('h, 'v) etss_dev, psa_error, buf) sem" where
  "etss_secureflash_read hal cfg block_id offset sz = withS (\<lambda>d.
     storage_failure (secureflash_secure_read hal (get_phys_address cfg block_id offset) sz (secureflash_app_id d)))"

definition etss_secureflash_write :: "('h, 'v) sf_hal \<Rightarrow> etss_flash_fs_config_t \<Rightarrow> u32 \<Rightarrow> buf \<Rightarrow> u32 \<Rightarrow> u32 \<Rightarrow>
    (('h, 'v) etss_dev, psa_error, unit) sem" where
  "etss_secureflash_write hal cfg block_id buffer offset sz = withS (\<lambda>d.
     storage_failure (secureflash_secure_program hal buffer (get_phys_address cfg block_id offset) sz (secureflash_app_id d)))"

definition etss_secureflash_flush :: "etss_flash_fs_config_t \<Rightarrow> (('h, 'v) etss_dev, psa_error, unit) sem" where
  "etss_secureflash_flush cfg = returnE ()"

text \<open>
  \<^verbatim>\<open>for (offset = 0; offset < block_size; offset += sector_size)\<close>; the first argument bounds the number of
  steps, and \<open>block_size div sector_size + 1\<close> is enough unless the loop runs forever.
\<close>

fun erase_sectors :: "nat \<Rightarrow> ('h, 'v) sf_hal \<Rightarrow> etss_flash_fs_config_t \<Rightarrow> u32 \<Rightarrow> u32 \<Rightarrow> (('h, 'v) etss_dev, psa_error, unit) sem" where
  "erase_sectors 0 hal cfg block_id offset = throwE PSA_NO_RESULT"
| "erase_sectors (Suc fuel) hal cfg block_id offset =
     (if offset < block_size cfg then
        bindE (withS (\<lambda>d. storage_failure (secureflash_secure_erase hal (get_phys_address cfg block_id offset)
          (sector_size cfg) (secureflash_app_id d)))) (\<lambda>_.
        erase_sectors fuel hal cfg block_id (offset + sector_size cfg))
      else returnE ())"

definition etss_secureflash_erase :: "('h, 'v) sf_hal \<Rightarrow> etss_flash_fs_config_t \<Rightarrow> u32 \<Rightarrow> (('h, 'v) etss_dev, psa_error, unit) sem" where
  "etss_secureflash_erase hal cfg block_id =
     erase_sectors (unat (block_size cfg) div unat (sector_size cfg) + 2) hal cfg block_id 0"

definition etss_client_id_pass_on :: "int \<Rightarrow> (('h, 'v) etss_dev, psa_error, unit) sem" where
  "etss_client_id_pass_on client_id = modifyS (\<lambda>d. d\<lparr>secureflash_app_id := client_id\<rparr>)"

definition etss_secure_flash_fs_ops :: "('h, 'v) sf_hal \<Rightarrow> ('h, 'v) etss_dev etss_flash_fs_ops_t" where
  "etss_secure_flash_fs_ops hal = \<lparr>ops_init = etss_secureflash_init hal, ops_read = etss_secureflash_read hal,
     ops_write = etss_secureflash_write hal, ops_flush = (\<lambda>cfg _. etss_secureflash_flush cfg),
     ops_erase = etss_secureflash_erase hal\<rparr>"

section \<open>The contract of the JEDEC layer\<close>

text \<open>The flash area of the file system in the device, and the access rights to it.\<close>

definition area_end :: "etss_flash_fs_config_t \<Rightarrow> nat" where
  "area_end C = unat (flash_area_addr C) + unat (num_blocks C) * unat (block_size C)"

definition in_area :: "etss_flash_fs_config_t \<Rightarrow> nat \<Rightarrow> nat \<Rightarrow> bool" where
  "in_area C a n \<longleftrightarrow> unat (flash_area_addr C) \<le> a \<and> a + n \<le> area_end C"

definition grants :: "('h, 'v) sf_hal \<Rightarrow> architecture_t \<Rightarrow> app_info_t \<Rightarrow> u32 \<Rightarrow> int \<Rightarrow> bool" where
  "grants hal P A addr app \<longleftrightarrow> (\<exists>e\<in>set (take (unat (app_num A)) (app_data A)).
     (app = hal_SP_ETSS hal \<or> app_id e = app) \<and> ucast (zone_id e) = addr div secure_zone_size P)"

definition has_access :: "('h, 'v) sf_hal \<Rightarrow> etss_flash_fs_config_t \<Rightarrow> architecture_t \<Rightarrow> app_info_t \<Rightarrow> int \<Rightarrow> bool" where
  "has_access hal C P A app \<longleftrightarrow> (\<forall>addr. unat (flash_area_addr C) \<le> unat addr \<longrightarrow> unat addr \<le> area_end C \<longrightarrow>
     grants hal P A addr app)"

definition geometry_ok :: "etss_flash_fs_config_t \<Rightarrow> architecture_t \<Rightarrow> bool" where
  "geometry_ok C P \<longleftrightarrow> area_end C \<le> unat (secure_zone_total_size P) \<and>
     0 < secure_read_size P \<and> 0 < secure_program_size P \<and> 0 < secure_zone_size P \<and>
     0 < regions_min_secure_erase_size P \<and> 0 < sector_size C \<and>
     unat (regions_min_secure_erase_size P) dvd unat (flash_area_addr C) \<and>
     unat (regions_min_secure_erase_size P) dvd unat (sector_size C) \<and>
     unat (sector_size C) dvd unat (block_size C)"

lemma find_exI: "x \<in> set xs \<Longrightarrow> Q x \<Longrightarrow> \<exists>y. List.find Q xs = Some y"
  by (induction xs) auto

lemma query_app_info_grants:
  assumes "flash_profile s = P" and "app_info s = A" and "grants hal P A addr app"
  obtains e where "query_app_info hal s addr app = Some e"
proof -
  obtain e where "e \<in> set (take (unat (app_num A)) (app_data A))"
    "app = hal_SP_ETSS hal \<or> app_id e = app" "ucast (zone_id e) = addr div secure_zone_size P"
    using assms(3) by (auto simp: grants_def)
  then have "query_app_info hal s addr app \<noteq> None"
    using assms(1,2) by (auto simp: query_app_info_def Let_def intro!: find_exI)
  then show thesis using that by blast
qed

locale secure_hal =
  fixes hal :: "('h, 'v) sf_hal"
    and C :: etss_flash_fs_config_t
    and P :: architecture_t
    and A :: app_info_t
    and V :: 'v
    and store :: "'h \<Rightarrow> nat \<Rightarrow> u8"
    and hok :: "'h \<Rightarrow> bool"
    and hpre :: "'h \<Rightarrow> bool"
    and sess :: "u32 \<Rightarrow> 'h \<Rightarrow> bool"
    and rel :: bool
  assumes valid_cfg: "cfg_ok C" and geometry: "geometry_ok C P"
    and etss_access: "has_access hal C P A (hal_SP_ETSS hal)"
    and hok_hpre: "hok h \<Longrightarrow> hpre h" and sess_hok: "sess k h \<Longrightarrow> hok h"
    and spi_initialize: "hpre h \<Longrightarrow> drv_initialize (hal_spi hal) h = (ok, h') \<Longrightarrow>
      hpre h' \<and> store h' = store h \<and> (rel \<longrightarrow> ok)"
    and spi_select: "hpre h \<Longrightarrow> hpre (drv_control_ss (hal_spi hal) b h) \<and> store (drv_control_ss (hal_spi hal) b h) = store h"
    and spi_send: "hpre h \<Longrightarrow> hpre (drv_send (hal_spi hal) bs h) \<and> store (drv_send (hal_spi hal) bs h) = store h"
    and spi_receive: "hpre h \<Longrightarrow> drv_receive (hal_spi hal) n h = (bs, h') \<Longrightarrow> hpre h' \<and> store h' = store h"
    and spi_wait: "hpre h \<Longrightarrow> hpre (drv_wait_ms (hal_spi hal) n h) \<and> store (drv_wait_ms (hal_spi hal) n h) = store h"
    and read_id: "hpre h \<Longrightarrow>
      drv_receive (hal_spi hal) (hal_max_id_len hal)
        (drv_send (hal_spi hal) [STD_INST_RDID] (drv_control_ss (hal_spi hal) True h)) = (ident, h') \<Longrightarrow>
      \<exists>e. match_id_loop (hal_flash_info hal) ident [0..<4 * length (hal_flash_info hal)] = Inr e \<and>
        dev_vendor e = V \<and> dev_profile e = P"
    and set_vendor: "hpre h \<Longrightarrow> hpre (jedec_set_vendor hal V h) \<and> store (jedec_set_vendor hal V h) = store h"
    and get_app_info: "hpre h \<Longrightarrow> wp (vendor_get_app_info hal V)
      (\<lambda>(n, ds) h'. n = app_num A \<and> ds = app_data A \<and> hpre h' \<and> store h' = store h)
      (\<lambda>_ h'. \<not> rel \<and> hpre h' \<and> store h' = store h) h"
    and secure_init: "hpre h \<Longrightarrow> wp (jedec_secure_init hal (hal_authen_key_id hal))
      (\<lambda>_ h'. hok h' \<and> store h' = store h) (\<lambda>_ h'. \<not> rel \<and> hpre h' \<and> store h' = store h) h"
    and create_session: "hok h \<Longrightarrow> wp (jedec_create_session hal key)
      (\<lambda>k h'. sess k h' \<and> store h' = store h) (\<lambda>_ h'. \<not> rel \<and> hok h' \<and> store h' = store h) h"
    and terminate_session: "sess k h \<Longrightarrow> wp (jedec_terminate_session hal k)
      (\<lambda>_ h'. hok h' \<and> store h' = store h) (\<lambda>_ h'. \<not> rel \<and> hok h' \<and> store h' = store h) h"
    and secure_read: "sess k h \<Longrightarrow> in_area C (unat addr) (unat n) \<Longrightarrow>
      unat addr mod unat (secure_read_size P) + unat n \<le> unat (secure_read_size P) \<Longrightarrow>
      wp (jedec_secure_read hal addr n k)
      (\<lambda>bs h'. bs = map (store h) [unat addr..<unat addr + unat n] \<and> sess k h' \<and> store h' = store h)
      (\<lambda>_ h'. \<not> rel \<and> hok h' \<and> store h' = store h) h"
    and secure_program: "sess k h \<Longrightarrow> in_area C (unat addr) (unat n) \<Longrightarrow>
      unat addr mod unat (secure_program_size P) + unat n \<le> unat (secure_program_size P) \<Longrightarrow>
      length bs = unat n \<Longrightarrow> (\<And>p. unat addr \<le> p \<Longrightarrow> p < unat addr + unat n \<Longrightarrow> store h p = erase_val C) \<Longrightarrow>
      wp (jedec_secure_program hal addr bs n k)
      (\<lambda>_ h'. sess k h' \<and> store h' = (\<lambda>p. if p \<in> {unat addr..<unat addr + unat n} then bs ! (p - unat addr) else store h p))
      (\<lambda>_ h'. \<not> rel \<and> hok h' \<and> (\<forall>p. p \<notin> {unat addr..<unat addr + unat n} \<longrightarrow> store h' p = store h p)) h"
    and secure_erase: "sess k h \<Longrightarrow> in_area C (unat addr) (unat (regions_min_secure_erase_size P)) \<Longrightarrow>
      unat addr mod unat (regions_min_secure_erase_size P) = 0 \<Longrightarrow>
      wp (jedec_secure_erase hal addr (regions_min_secure_erase_size P) k)
      (\<lambda>_ h'. sess k h' \<and> store h' = (\<lambda>p. if p \<in> {unat addr..<unat addr + unat (regions_min_secure_erase_size P)} then erase_val C else store h p))
      (\<lambda>_ h'. \<not> rel \<and> hok h' \<and>
        (\<forall>p. p \<notin> {unat addr..<unat addr + unat (regions_min_secure_erase_size P)} \<longrightarrow> store h' p = store h p)) h"
begin

text \<open>The device as the file system sees it.\<close>

definition dmem :: "('h, 'v) etss_dev \<Rightarrow> u32 \<Rightarrow> buf" where
  "dmem d b = (if b < ucast (num_blocks C)
     then map (\<lambda>p. store (nor_hw d) (unat (flash_area_addr C) + unat b * unat (block_size C) + p)) [0..<unat (block_size C)]
     else replicate (unat (block_size C)) 0)"

definition ready :: "('h, 'v) etss_dev \<Rightarrow> bool" where
  "ready d \<longleftrightarrow> is_initialized d \<and> flash_profile d = P \<and> app_info d = A \<and> hok (nor_hw d) \<and>
     length (np_tx_buf (cmd_packet d)) = BUFFER_SIZE"

definition ddok :: "('h, 'v) etss_dev \<Rightarrow> bool" where
  "ddok d \<longleftrightarrow> ready d \<and> has_access hal C P A (secureflash_app_id d)"

definition dpre :: "('h, 'v) etss_dev \<Rightarrow> bool" where
  "dpre d \<longleftrightarrow> hpre (nor_hw d) \<and> length (np_tx_buf (cmd_packet d)) = BUFFER_SIZE \<and>
     (is_initialized d \<longrightarrow> ready d \<and> (rel \<or> init_ref_count d \<noteq> 0))"

section \<open>Chunks\<close>

lemma area_end_less: "area_end C < 4294967296"
  using geometry unat_u32_less [of "secure_zone_total_size P"] by (simp add: geometry_ok_def)

lemma chunk_in_unit:
  assumes "0 < len" and "0 < sz" and "unat addr + unat sz < 4294967296"
  shows "unat addr mod unat len + unat (chunk_size len addr sz) \<le> unat len"
    and "unat (addr + chunk_size len addr sz) = unat addr + unat (chunk_size len addr sz)"
proof -
  note cb = chunk_size_bounds [OF assms(1,2), of addr]
  show "unat (addr + chunk_size len addr sz) = unat addr + unat (chunk_size len addr sz)"
    using cb assms(3) by (intro unat_add_u32) linarith
  let ?off = "addr mod len"
  have o: "unat ?off = unat addr mod unat len" by (simp add: unat_mod_distrib)
  have lt: "unat ?off < unat len" using assms(1) o by (simp add: word_less_nat_alt)
  have "unat ?off \<le> unat addr" using o by simp
  then have w: "unat (?off + sz) = unat ?off + unat sz" using assms(3) by (intro unat_add_u32) linarith
  show "unat addr mod unat len + unat (chunk_size len addr sz) \<le> unat len"
    using lt w o by (auto simp: chunk_size_def Let_def word_less_nat_alt unat_sub_u32)
qed

lemma read_loop_wp:
  assumes "sess k (nor_hw s)" and "in_area C (unat addr) (unat sz)"
  shows "wp (secure_read_loop hal (secure_read_size P) k addr sz)
    (\<lambda>bs s'. bs = map (store (nor_hw s)) [unat addr..<unat addr + unat sz] \<and>
       (\<exists>h. s' = s\<lparr>nor_hw := h\<rparr> \<and> sess k h \<and> store h = store (nor_hw s)))
    (\<lambda>e s'. \<not> rel \<and> (\<exists>h. s' = s\<lparr>nor_hw := h\<rparr> \<and> hok h \<and> store h = store (nor_hw s))) s"
  using assms
proof (induction sz arbitrary: addr s rule: measure_induct_rule [of unat])
  case (less sz)
  let ?R = "secure_read_size P"
  have R: "0 < ?R" using geometry by (simp add: geometry_ok_def)
  show ?case
  proof (cases "sz = 0")
    case True
    have "\<exists>h. s = s\<lparr>nor_hw := h\<rparr> \<and> sess k h \<and> store h = store (nor_hw s)"
      using less.prems by (intro exI [of _ "nor_hw s"]) simp
    then show ?thesis using True by (subst secure_read_loop.simps) simp
  next
    case False
    let ?c = "chunk_size ?R addr sz"
    have sz: "0 < sz" using False by (simp add: word_gt_0)
    have lt: "unat addr + unat sz < 4294967296" using less.prems(2) area_end_less by (simp add: in_area_def)
    note cb = chunk_size_bounds [OF R sz, of addr] and cu = chunk_in_unit [OF R sz lt] and cr = chunk_rest [OF R sz, of addr]
    have seg: "[unat addr..<unat addr + unat sz] =
        [unat addr..<unat addr + unat ?c] @ [unat addr + unat ?c..<unat addr + unat sz]"
      using upt_add_eq_append [of "unat addr" "unat addr + unat ?c" "unat sz - unat ?c"] cb by simp
    have "wp (jedec_secure_read hal addr ?c k) (\<lambda>bs h. wp (bindE (secure_read_loop hal ?R k (addr + ?c) (sz - ?c)) (\<lambda>rest. returnE (bs @ rest)))
        (\<lambda>bs s'. bs = map (store (nor_hw s)) [unat addr..<unat addr + unat sz] \<and>
           (\<exists>h. s' = s\<lparr>nor_hw := h\<rparr> \<and> sess k h \<and> store h = store (nor_hw s)))
        (\<lambda>e s'. \<not> rel \<and> (\<exists>h. s' = s\<lparr>nor_hw := h\<rparr> \<and> hok h \<and> store h = store (nor_hw s))) (s\<lparr>nor_hw := h\<rparr>))
        (\<lambda>_ h. \<not> rel \<and> (\<exists>h'. s\<lparr>nor_hw := h\<rparr> = s\<lparr>nor_hw := h'\<rparr> \<and> hok h' \<and> store h' = store (nor_hw s))) (nor_hw s)"
    proof (rule wp_mono [OF secure_read [OF less.prems(1) _ cu(1)]])
      show "in_area C (unat addr) (unat ?c)" using cb less.prems(2) by (simp add: in_area_def)
    next
      fix bs h
      assume h: "bs = map (store (nor_hw s)) [unat addr..<unat addr + unat ?c] \<and> sess k h \<and> store h = store (nor_hw s)"
      have "wp (secure_read_loop hal ?R k (addr + ?c) (sz - ?c))
        (\<lambda>bs s'. bs = map (store (nor_hw (s\<lparr>nor_hw := h\<rparr>))) [unat (addr + ?c)..<unat (addr + ?c) + unat (sz - ?c)] \<and>
           (\<exists>h'. s' = s\<lparr>nor_hw := h, nor_hw := h'\<rparr> \<and> sess k h' \<and> store h' = store (nor_hw (s\<lparr>nor_hw := h\<rparr>))))
        (\<lambda>e s'. \<not> rel \<and> (\<exists>h'. s' = s\<lparr>nor_hw := h, nor_hw := h'\<rparr> \<and> hok h' \<and> store h' = store (nor_hw (s\<lparr>nor_hw := h\<rparr>))))
        (s\<lparr>nor_hw := h\<rparr>)"
        by (rule less.IH) (use h cb cr cu(2) less.prems(2) in \<open>auto simp: in_area_def\<close>)
      then show "wp (bindE (secure_read_loop hal ?R k (addr + ?c) (sz - ?c)) (\<lambda>rest. returnE (bs @ rest)))
        (\<lambda>bs s'. bs = map (store (nor_hw s)) [unat addr..<unat addr + unat sz] \<and>
           (\<exists>h. s' = s\<lparr>nor_hw := h\<rparr> \<and> sess k h \<and> store h = store (nor_hw s)))
        (\<lambda>e s'. \<not> rel \<and> (\<exists>h. s' = s\<lparr>nor_hw := h\<rparr> \<and> hok h \<and> store h = store (nor_hw s))) (s\<lparr>nor_hw := h\<rparr>)"
        unfolding wp_bindE
        by (rule wp_mono) (use h cb cr cu(2) seg in \<open>auto simp del: upt_Suc\<close>)
    qed auto
    then show ?thesis using False R by (subst secure_read_loop.simps) (simp add: Let_def wp_on_hw word_gt_0)
  qed
qed

text \<open>The result of a step on the hardware: content \<open>f\<close> with the session open, or, on an error, content
  that differs from the original in the range \<open>X\<close> only.\<close>

definition hw_to :: "u32 \<Rightarrow> ('h, 'v, 'm) secureflash_t_scheme \<Rightarrow> (nat \<Rightarrow> u8) \<Rightarrow> ('h, 'v, 'm) secureflash_t_scheme \<Rightarrow> bool" where
  "hw_to k s f s' \<longleftrightarrow> (\<exists>h. s' = s\<lparr>nor_hw := h\<rparr> \<and> sess k h \<and> store h = f)"

definition hw_bad :: "('h, 'v, 'm) secureflash_t_scheme \<Rightarrow> nat set \<Rightarrow> ('h, 'v, 'm) secureflash_t_scheme \<Rightarrow> bool" where
  "hw_bad s X s' \<longleftrightarrow> \<not> rel \<and> (\<exists>h. s' = s\<lparr>nor_hw := h\<rparr> \<and> hok h \<and> (\<forall>p. p \<notin> X \<longrightarrow> store h p = store (nor_hw s) p))"

definition put_bytes :: "(nat \<Rightarrow> u8) \<Rightarrow> nat \<Rightarrow> buf \<Rightarrow> nat \<Rightarrow> nat \<Rightarrow> u8" where
  "put_bytes f a bs n = (\<lambda>p. if p \<in> {a..<a + n} then bs ! (p - a) else f p)"

lemma program_loop_wp:
  assumes "sess k (nor_hw s)" and "in_area C (unat addr) (unat sz)" and "unat sz \<le> length bs"
    and "\<And>p. unat addr \<le> p \<Longrightarrow> p < unat addr + unat sz \<Longrightarrow> store (nor_hw s) p = erase_val C"
  shows "wp (secure_program_loop hal (secure_program_size P) k bs addr sz)
    (\<lambda>_. hw_to k s (put_bytes (store (nor_hw s)) (unat addr) bs (unat sz)))
    (\<lambda>_. hw_bad s {unat addr..<unat addr + unat sz}) s"
  using assms
proof (induction sz arbitrary: addr bs s rule: measure_induct_rule [of unat])
  case (less sz)
  let ?R = "secure_program_size P"
  have R: "0 < ?R" using geometry by (simp add: geometry_ok_def)
  show ?case
  proof (cases "sz = 0")
    case True
    have "hw_to k s (store (nor_hw s)) s" using less.prems(1) unfolding hw_to_def by (intro exI [of _ "nor_hw s"]) simp
    then show ?thesis using True by (subst secure_program_loop.simps) (simp add: put_bytes_def)
  next
    case False
    let ?c = "chunk_size ?R addr sz"
    have sz: "0 < sz" using False by (simp add: word_gt_0)
    have lt: "unat addr + unat sz < 4294967296" using less.prems(2) area_end_less by (simp add: in_area_def)
    note cb = chunk_size_bounds [OF R sz, of addr] and cu = chunk_in_unit [OF R sz lt] and cr = chunk_rest [OF R sz, of addr]
    let ?f = "\<lambda>p. if p \<in> {unat addr..<unat addr + unat ?c} then take (unat ?c) bs ! (p - unat addr) else store (nor_hw s) p"
    have put: "put_bytes ?f (unat addr + unat ?c) (drop (unat ?c) bs) (unat sz - unat ?c) =
        put_bytes (store (nor_hw s)) (unat addr) bs (unat sz)"
      using cb less.prems(3) by (auto simp: put_bytes_def fun_eq_iff)
    have "wp (jedec_secure_program hal addr (take (unat ?c) bs) ?c k)
        (\<lambda>_ h. wp (secure_program_loop hal ?R k (drop (unat ?c) bs) (addr + ?c) (sz - ?c))
          (\<lambda>_. hw_to k s (put_bytes (store (nor_hw s)) (unat addr) bs (unat sz)))
          (\<lambda>_. hw_bad s {unat addr..<unat addr + unat sz}) (s\<lparr>nor_hw := h\<rparr>))
        (\<lambda>_ h. hw_bad s {unat addr..<unat addr + unat sz} (s\<lparr>nor_hw := h\<rparr>)) (nor_hw s)"
    proof (rule wp_mono [OF secure_program [OF less.prems(1) _ cu(1)]])
      show "in_area C (unat addr) (unat ?c)" "length (take (unat ?c) bs) = unat ?c"
        using cb less.prems(2,3) by (auto simp: in_area_def)
      show "store (nor_hw s) p = erase_val C" if "unat addr \<le> p" "p < unat addr + unat ?c" for p
        using that cb by (intro less.prems(4)) auto
    next
      fix u h assume h: "sess k h \<and> store h = ?f"
      let ?s = "s\<lparr>nor_hw := h\<rparr>"
      have "wp (secure_program_loop hal ?R k (drop (unat ?c) bs) (addr + ?c) (sz - ?c))
        (\<lambda>_. hw_to k ?s (put_bytes (store (nor_hw ?s)) (unat (addr + ?c)) (drop (unat ?c) bs) (unat (sz - ?c))))
        (\<lambda>_. hw_bad ?s {unat (addr + ?c)..<unat (addr + ?c) + unat (sz - ?c)}) ?s"
        by (rule less.IH) (use h cb cr cu(2) less.prems in \<open>auto simp: in_area_def\<close>)
      then show "wp (secure_program_loop hal ?R k (drop (unat ?c) bs) (addr + ?c) (sz - ?c))
          (\<lambda>_. hw_to k s (put_bytes (store (nor_hw s)) (unat addr) bs (unat sz)))
          (\<lambda>_. hw_bad s {unat addr..<unat addr + unat sz}) ?s"
      proof (rule wp_mono)
        fix u s' assume "hw_to k ?s (put_bytes (store (nor_hw ?s)) (unat (addr + ?c)) (drop (unat ?c) bs) (unat (sz - ?c))) s'"
        then show "hw_to k s (put_bytes (store (nor_hw s)) (unat addr) bs (unat sz)) s'"
          using h put cr cu(2) by (auto simp: hw_to_def)
      next
        fix e s' assume "hw_bad ?s {unat (addr + ?c)..<unat (addr + ?c) + unat (sz - ?c)} s'"
        then show "hw_bad s {unat addr..<unat addr + unat sz} s'"
          using h cb cr cu(2) unfolding hw_bad_def by (elim conjE exE) (intro conjI exI, auto)
      qed
    next
      fix e h assume "\<not> rel \<and> hok h \<and> (\<forall>p. p \<notin> {unat addr..<unat addr + unat ?c} \<longrightarrow> store h p = store (nor_hw s) p)"
      then show "hw_bad s {unat addr..<unat addr + unat sz} (s\<lparr>nor_hw := h\<rparr>)"
        using cb unfolding hw_bad_def by (elim conjE) (intro conjI exI, auto)
    qed
    then show ?thesis using False R by (subst secure_program_loop.simps) (simp add: Let_def wp_on_hw word_gt_0)
  qed
qed

lemma erase_loop_wp:
  defines "U \<equiv> regions_min_secure_erase_size P"
  assumes "sess k (nor_hw s)" and "in_area C (unat addr) (n * unat U)"
    and "unat addr mod unat U = 0" and "unat sz = n * unat U" and "n < fuel"
  shows "wp (secure_erase_loop fuel hal U k addr sz)
    (\<lambda>_. hw_to k s (\<lambda>p. if p \<in> {unat addr..<unat addr + unat sz} then erase_val C else store (nor_hw s) p))
    (\<lambda>_. hw_bad s {unat addr..<unat addr + unat sz}) s"
  using assms(2-)
proof (induction n arbitrary: addr sz s fuel)
  case 0
  then obtain f where f: "fuel = Suc f" by (cases fuel) auto
  have "hw_to k s (store (nor_hw s)) s" using "0.prems"(1) unfolding hw_to_def by (intro exI [of _ "nor_hw s"]) simp
  moreover have "sz = 0" using "0.prems"(4) by (simp add: unat_eq_0)
  ultimately show ?case using f by simp
next
  case (Suc n)
  then obtain f where f: "fuel = Suc f" by (cases fuel) auto
  have U: "0 < unat U" using geometry by (simp add: geometry_ok_def U_def word_less_nat_alt)
  have szU: "unat sz = unat U + n * unat U" using Suc.prems(4) by simp
  then have sz: "sz \<noteq> 0" using U by auto
  have ra: "unat (sz - U) = n * unat U" using szU by (simp add: unat_sub_u32)
  have ad: "unat (addr + U) = unat addr + unat U" using Suc.prems(2) area_end_less by (intro unat_add_u32) (simp add: in_area_def)
  let ?f = "\<lambda>p. if p \<in> {unat addr..<unat addr + unat U} then erase_val C else store (nor_hw s) p"
  have "wp (jedec_secure_erase hal addr U k)
      (\<lambda>_ h. wp (secure_erase_loop f hal U k (addr + U) (sz - U))
        (\<lambda>_. hw_to k s (\<lambda>p. if p \<in> {unat addr..<unat addr + unat sz} then erase_val C else store (nor_hw s) p))
        (\<lambda>_. hw_bad s {unat addr..<unat addr + unat sz}) (s\<lparr>nor_hw := h\<rparr>))
      (\<lambda>_ h. hw_bad s {unat addr..<unat addr + unat sz} (s\<lparr>nor_hw := h\<rparr>)) (nor_hw s)"
    unfolding U_def
  proof (rule wp_mono [OF secure_erase [OF Suc.prems(1)]], fold U_def)
    show "in_area C (unat addr) (unat U)" "unat addr mod unat U = 0"
      using Suc.prems(2,3) by (simp_all add: in_area_def)
  next
    fix u h assume h: "sess k h \<and> store h = ?f"
    let ?s = "s\<lparr>nor_hw := h\<rparr>"
    have "wp (secure_erase_loop f hal U k (addr + U) (sz - U))
        (\<lambda>_. hw_to k ?s (\<lambda>p. if p \<in> {unat (addr + U)..<unat (addr + U) + unat (sz - U)} then erase_val C else store (nor_hw ?s) p))
        (\<lambda>_. hw_bad ?s {unat (addr + U)..<unat (addr + U) + unat (sz - U)}) ?s"
      by (rule Suc.IH) (use h ad ra f Suc.prems in \<open>simp_all add: add.assoc in_area_def\<close>)
    then show "wp (secure_erase_loop f hal U k (addr + U) (sz - U))
        (\<lambda>_. hw_to k s (\<lambda>p. if p \<in> {unat addr..<unat addr + unat sz} then erase_val C else store (nor_hw s) p))
        (\<lambda>_. hw_bad s {unat addr..<unat addr + unat sz}) ?s"
    proof (rule wp_mono)
      fix u s' assume "hw_to k ?s (\<lambda>p. if p \<in> {unat (addr + U)..<unat (addr + U) + unat (sz - U)} then erase_val C else store (nor_hw ?s) p) s'"
      then show "hw_to k s (\<lambda>p. if p \<in> {unat addr..<unat addr + unat sz} then erase_val C else store (nor_hw s) p) s'"
        using h ra ad szU by (auto simp: hw_to_def fun_eq_iff)
    next
      fix e s' assume "hw_bad ?s {unat (addr + U)..<unat (addr + U) + unat (sz - U)} s'"
      then show "hw_bad s {unat addr..<unat addr + unat sz} s'"
        using h ra ad szU unfolding hw_bad_def by (elim conjE exE) (intro conjI exI, auto)
    qed
  next
    fix e h assume "\<not> rel \<and> hok h \<and> (\<forall>p. p \<notin> {unat addr..<unat addr + unat U} \<longrightarrow> store h p = store (nor_hw s) p)"
    then show "hw_bad s {unat addr..<unat addr + unat sz} (s\<lparr>nor_hw := h\<rparr>)"
      using szU unfolding hw_bad_def by (elim conjE) (intro conjI exI, auto)
  qed
  then show ?case using f sz by (simp add: wp_on_hw)
qed

section \<open>Sessions\<close>

lemma ddok_upd: "ddok d \<Longrightarrow> hok h \<Longrightarrow> ddok (d\<lparr>nor_hw := h\<rparr>)"
  by (simp add: ddok_def ready_def)

lemma ddokD:
  assumes "ddok d"
  shows "is_initialized d" "flash_profile d = P" "app_info d = A" "hok (nor_hw d)"
    "has_access hal C P A (secureflash_app_id d)"
  using assms by (simp_all add: ddok_def ready_def)

text \<open>The content \<open>f\<close> behind a device that is in use.\<close>

definition dev_to :: "('h, 'v) etss_dev \<Rightarrow> (nat \<Rightarrow> u8) \<Rightarrow> ('h, 'v) etss_dev \<Rightarrow> bool" where
  "dev_to d f d' \<longleftrightarrow> (\<exists>h. d' = d\<lparr>nor_hw := h\<rparr> \<and> hok h \<and> store h = f)"

lemma session_wp:
  assumes d: "hok (nor_hw d)"
    and body: "\<And>k u. sess k (nor_hw u) \<Longrightarrow> u = d\<lparr>nor_hw := nor_hw u\<rparr> \<Longrightarrow> store (nor_hw u) = store (nor_hw d) \<Longrightarrow>
      wp (m k) (\<lambda>a u'. G a \<and> hw_to k u f u') (\<lambda>_. hw_bad u X) u"
    and Q: "\<And>a d'. G a \<Longrightarrow> dev_to d f d' \<Longrightarrow> Q a d'"
    and E: "\<And>e d'. hw_bad d X d' \<Longrightarrow> E e d'"
    and E2: "\<And>d'. \<not> rel \<Longrightarrow> dev_to d f d' \<Longrightarrow> E SECUREFLASH_ERROR_CLOSE_SESSION d'"
  shows "wp (bindE (orError (on_hw (jedec_create_session hal key)) SECUREFLASH_ERROR_CREATE_SESSION) (\<lambda>k.
      bindE (m k) (\<lambda>a. bindE (orError (on_hw (jedec_terminate_session hal k)) SECUREFLASH_ERROR_CLOSE_SESSION) (\<lambda>_. returnE a)))) Q E d"
  unfolding wp_bindE wp_orError wp_on_hw
proof (rule wp_mono [OF create_session [OF d]], goal_cases)
  case (1 k h)
  note h = 1
  let ?u = "d\<lparr>nor_hw := h\<rparr>"
  have "wp (m k) (\<lambda>a u'. G a \<and> hw_to k ?u f u') (\<lambda>_. hw_bad ?u X) ?u" by (rule body) (use h in simp_all)
  then show ?case
    unfolding wp_bindE
  proof (rule wp_mono, goal_cases)
    case (1 a d')
    then obtain h' where h': "G a" "d' = d\<lparr>nor_hw := h'\<rparr>" "sess k h'" "store h' = f" by (auto simp: hw_to_def)
    show ?case
      unfolding wp_bindE wp_orError wp_on_hw
    proof (rule wp_mono [OF terminate_session], goal_cases)
      case 1
      show ?case using h' by simp
    next
      case (2 u h2)
      then show ?case using h' Q [OF h'(1), of "d\<lparr>nor_hw := h2\<rparr>"] by (auto simp: dev_to_def)
    next
      case (3 e h2)
      then show ?case using h' by (intro E2) (auto simp: dev_to_def)
    qed
  next
    case (2 e d')
    then have "hw_bad d X d'" using h unfolding hw_bad_def by auto
    then show ?case by (rule E)
  qed
next
  case (2 e h)
  then have "hw_bad d X (d\<lparr>nor_hw := h\<rparr>)" unfolding hw_bad_def by (elim conjE) (intro conjI exI, auto)
  then show ?case by (rule E)
qed

lemma bind_unit: "bindE m (\<lambda>_. returnE ()) = m"
  by (rule ext) (auto simp: sem_defs split: prod.splits sum.splits)

text \<open>An access to the area passes the checks.\<close>

lemma access_checks:
  assumes d: "ddok d" and lo: "unat (flash_area_addr C) \<le> unat addr" and hi: "unat addr + unat sz \<le> area_end C"
  shows "\<not> addr + sz > secure_zone_total_size P" "secure_zone_size P \<noteq> 0"
    "unat (addr + sz) = unat addr + unat sz" "in_area C (unat addr) (unat sz)"
    "\<exists>e. query_app_info hal d addr (secureflash_app_id d) = Some e"
proof -
  have ge: "area_end C \<le> unat (secure_zone_total_size P)" "0 < secure_zone_size P"
    using geometry by (simp_all add: geometry_ok_def)
  show s: "unat (addr + sz) = unat addr + unat sz"
    using hi ge unat_u32_less [of "secure_zone_total_size P"] by (intro unat_add_u32) linarith
  show "\<not> addr + sz > secure_zone_total_size P" "in_area C (unat addr) (unat sz)" "secure_zone_size P \<noteq> 0"
    using lo hi ge s by (auto simp: word_less_nat_alt in_area_def)
  have "grants hal P A addr (secureflash_app_id d)" using ddokD(5) [OF d] lo hi by (simp add: has_access_def)
  then show "\<exists>e. query_app_info hal d addr (secureflash_app_id d) = Some e"
    using query_app_info_grants [OF ddokD(2,3) [OF d]] by metis
qed

lemma secure_read_area_wp:
  assumes d: "ddok d" and a: "unat (flash_area_addr C) \<le> unat addr" "unat addr + unat sz \<le> area_end C"
  shows "wp (secureflash_secure_read hal addr sz (secureflash_app_id d))
    (\<lambda>bs d'. bs = map (store (nor_hw d)) [unat addr..<unat addr + unat sz] \<and> dev_to d (store (nor_hw d)) d')
    (\<lambda>_ d'. \<not> rel \<and> dev_to d (store (nor_hw d)) d') d" (is "wp _ ?Q ?E d")
proof -
  note ck = access_checks [OF d a] and dd = ddokD [OF d]
  obtain e where e: "query_app_info hal d addr (secureflash_app_id d) = Some e" using ck(5) by blast
  have "wp (bindE (orError (on_hw (jedec_create_session hal (key_id e))) SECUREFLASH_ERROR_CREATE_SESSION) (\<lambda>k.
      bindE (secure_read_loop hal (secure_read_size P) k addr sz) (\<lambda>a.
      bindE (orError (on_hw (jedec_terminate_session hal k)) SECUREFLASH_ERROR_CLOSE_SESSION) (\<lambda>_. returnE a)))) ?Q ?E d"
  proof (rule session_wp [where G = "\<lambda>bs. bs = map (store (nor_hw d)) [unat addr..<unat addr + unat sz]"
        and f = "store (nor_hw d)" and X = "{}", OF dd(4)])
    fix k and u :: "('h, 'v) etss_dev"
    assume u: "sess k (nor_hw u)" "store (nor_hw u) = store (nor_hw d)"
    show "wp (secure_read_loop hal (secure_read_size P) k addr sz)
        (\<lambda>a u'. a = map (store (nor_hw d)) [unat addr..<unat addr + unat sz] \<and> hw_to k u (store (nor_hw d)) u')
        (\<lambda>_. hw_bad u {}) u"
    proof (rule wp_mono [OF read_loop_wp [OF u(1) ck(4), unfolded u(2)]])
      fix e u' assume "\<not> rel \<and> (\<exists>h. u' = u\<lparr>nor_hw := h\<rparr> \<and> hok h \<and> store h = store (nor_hw d))"
      then show "hw_bad u {} u'" unfolding hw_bad_def u(2) by fastforce
    qed (auto simp: hw_to_def)
  next
    fix e d' assume "hw_bad d {} d'"
    then show "?E e d'" by (auto simp: hw_bad_def dev_to_def fun_eq_iff)
  qed auto
  then show ?thesis using ck(1,2) dd(1-3) e by (simp add: secureflash_secure_read_def)
qed

lemma secure_program_area_wp:
  assumes d: "ddok d" and a: "unat (flash_area_addr C) \<le> unat addr" "unat addr + unat sz \<le> area_end C"
    and bs: "unat sz \<le> length bs"
    and er: "\<And>p. unat addr \<le> p \<Longrightarrow> p < unat addr + unat sz \<Longrightarrow> store (nor_hw d) p = erase_val C"
  shows "wp (secureflash_secure_program hal bs addr sz (secureflash_app_id d))
    (\<lambda>_. dev_to d (put_bytes (store (nor_hw d)) (unat addr) bs (unat sz)))
    (\<lambda>_. hw_bad d {unat addr..<unat addr + unat sz}) d" (is "wp _ ?Q ?E d")
proof -
  note ck = access_checks [OF d a] and dd = ddokD [OF d]
  obtain e where e: "query_app_info hal d addr (secureflash_app_id d) = Some e" using ck(5) by blast
  have "wp (bindE (orError (on_hw (jedec_create_session hal (key_id e))) SECUREFLASH_ERROR_CREATE_SESSION) (\<lambda>k.
      bindE (secure_program_loop hal (secure_program_size P) k bs addr sz) (\<lambda>a.
      bindE (orError (on_hw (jedec_terminate_session hal k)) SECUREFLASH_ERROR_CLOSE_SESSION) (\<lambda>_. returnE a)))) ?Q ?E d"
  proof (rule session_wp [where G = "\<lambda>_. True" and f = "put_bytes (store (nor_hw d)) (unat addr) bs (unat sz)"
        and X = "{unat addr..<unat addr + unat sz}", OF dd(4)])
    fix k and u :: "('h, 'v) etss_dev"
    assume u: "sess k (nor_hw u)" "store (nor_hw u) = store (nor_hw d)"
    show "wp (secure_program_loop hal (secure_program_size P) k bs addr sz)
        (\<lambda>_ u'. True \<and> hw_to k u (put_bytes (store (nor_hw d)) (unat addr) bs (unat sz)) u')
        (\<lambda>_. hw_bad u {unat addr..<unat addr + unat sz}) u"
      by (rule wp_mono [OF program_loop_wp [OF u(1) ck(4) bs]]) (use u er in auto)
  next
    fix d' assume "\<not> rel" "dev_to d (put_bytes (store (nor_hw d)) (unat addr) bs (unat sz)) d'"
    then show "hw_bad d {unat addr..<unat addr + unat sz} d'"
      unfolding hw_bad_def dev_to_def put_bytes_def by (elim exE conjE) (intro conjI exI, auto)
  qed auto
  then show ?thesis
    using ck(1,2) dd(1-3) e by (simp add: secureflash_secure_program_def wp_fun)
qed

lemma secure_erase_area_wp:
  defines "U \<equiv> regions_min_secure_erase_size P"
  assumes d: "ddok d" and a: "unat (flash_area_addr C) \<le> unat addr" "unat addr + unat sz \<le> area_end C"
    and al: "unat U dvd unat addr" "unat U dvd unat sz"
  shows "wp (secureflash_secure_erase hal addr sz (secureflash_app_id d))
    (\<lambda>_. dev_to d (\<lambda>p. if p \<in> {unat addr..<unat addr + unat sz} then erase_val C else store (nor_hw d) p))
    (\<lambda>_. hw_bad d {unat addr..<unat addr + unat sz}) d" (is "wp _ ?Q ?E d")
proof -
  let ?f = "\<lambda>p. if p \<in> {unat addr..<unat addr + unat sz} then erase_val C else store (nor_hw d) p"
  note ck = access_checks [OF d a] and dd = ddokD [OF d]
  obtain e where e: "query_app_info hal d addr (secureflash_app_id d) = Some e" using ck(5) by blast
  have U: "0 < unat U" "U \<noteq> 0" using geometry by (auto simp: geometry_ok_def U_def word_less_nat_alt)
  obtain n where n: "unat sz = n * unat U" using al(2) by (metis dvd_def mult.commute)
  have m: "addr mod U = 0" "(addr + sz) mod U = 0"
    using al ck(3) by (simp_all add: word_unat_eq_iff unat_mod_distrib)
  have nf: "n < unat sz div unat U + 1" using n U by simp
  have "wp (bindE (orError (on_hw (jedec_create_session hal (key_id e))) SECUREFLASH_ERROR_CREATE_SESSION) (\<lambda>k.
      bindE (secure_erase_loop (unat sz div unat U + 1) hal U k addr sz) (\<lambda>a.
      bindE (orError (on_hw (jedec_terminate_session hal k)) SECUREFLASH_ERROR_CLOSE_SESSION) (\<lambda>_. returnE a)))) ?Q ?E d"
  proof (rule session_wp [where G = "\<lambda>_. True" and f = ?f and X = "{unat addr..<unat addr + unat sz}", OF dd(4)])
    fix k and u :: "('h, 'v) etss_dev"
    assume u: "sess k (nor_hw u)" "store (nor_hw u) = store (nor_hw d)"
    have "in_area C (unat addr) (n * unat U)" "unat addr mod unat U = 0" using ck(4) n al by simp_all
    from erase_loop_wp [folded U_def, OF u(1) this n nf, unfolded u(2)]
    show "wp (secure_erase_loop (unat sz div unat U + 1) hal U k addr sz)
        (\<lambda>_ u'. True \<and> hw_to k u ?f u') (\<lambda>_. hw_bad u {unat addr..<unat addr + unat sz}) u"
      by (rule wp_mono) (use u in auto)
  next
    fix d' assume "\<not> rel" "dev_to d ?f d'"
    then show "hw_bad d {unat addr..<unat addr + unat sz} d'"
      unfolding hw_bad_def dev_to_def by (elim exE conjE) (intro conjI exI, auto)
  qed auto
  then show ?thesis
    using ck(1,2) dd(1-3) e m U(2) by (simp add: secureflash_secure_erase_def Let_def wp_fun flip: U_def del: secure_erase_loop.simps)
qed

section \<open>Blocks\<close>

abbreviation base :: "u32 \<Rightarrow> nat" where
  "base b \<equiv> unat (flash_area_addr C) + unat b * unat (block_size C)"

lemma block_end: "b < ucast (num_blocks C) \<Longrightarrow> base b + unat (block_size C) \<le> area_end C"
proof -
  assume "b < ucast (num_blocks C)"
  then have "unat b + 1 \<le> unat (num_blocks C)" by (simp add: word_less_nat_alt)
  then have "(unat b + 1) * unat (block_size C) \<le> unat (num_blocks C) * unat (block_size C)" by (rule mult_le_mono1)
  then show ?thesis by (simp add: area_end_def)
qed

lemma phys_address:
  assumes "b < ucast (num_blocks C)" and "unat off \<le> unat (block_size C)"
  shows "unat (get_phys_address C b off) = base b + unat off"
proof -
  have "area_end C < 4294967296"
    using geometry unat_u32_less [of "secure_zone_total_size P"] by (simp add: geometry_ok_def)
  then have lt: "base b + unat off < 4294967296" using block_end [OF assms(1)] assms(2) by linarith
  then have m: "unat (b * block_size C) = unat b * unat (block_size C)" by (intro unat_mult_u32) simp
  then have "unat (flash_area_addr C + b * block_size C) = base b" using lt by (subst unat_add_u32) simp_all
  then show ?thesis using lt by (simp add: get_phys_address_def unat_add_u32)
qed

lemma dmem_length [simp]: "length (dmem d b) = unat (block_size C)"
  by (simp add: dmem_def)

lemma dmem_slice: "b < ucast (num_blocks C) \<Longrightarrow> off + n \<le> unat (block_size C) \<Longrightarrow>
  bslice off n (dmem d b) = map (store (nor_hw d)) [base b + off..<base b + off + n]"
  by (rule nth_equalityI) (simp_all add: length_bslice nth_bslice dmem_def add.assoc)

lemma dmem_cong: "store (nor_hw d) = store (nor_hw d') \<Longrightarrow> dmem d = dmem d'"
  by (simp add: dmem_def fun_eq_iff)

lemma block_apart: "b \<noteq> b' \<Longrightarrow> p < unat (block_size C) \<Longrightarrow> base b' + p \<notin> {base b..<base b + unat (block_size C)}"
proof -
  assume "b \<noteq> b'" and p: "p < unat (block_size C)"
  then have "unat b \<noteq> unat b'" by (simp add: word_unat_eq_iff)
  then consider "unat b + 1 \<le> unat b'" | "unat b' + 1 \<le> unat b" by linarith
  then show ?thesis
  proof cases
    case 1
    then have "(unat b + 1) * unat (block_size C) \<le> unat b' * unat (block_size C)" by (rule mult_le_mono1)
    then show ?thesis by simp
  next
    case 2
    then have "(unat b' + 1) * unat (block_size C) \<le> unat b * unat (block_size C)" by (rule mult_le_mono1)
    then show ?thesis using p by simp
  qed
qed

lemma dmem_other:
  assumes "\<And>p. p \<notin> {base b..<base b + unat (block_size C)} \<Longrightarrow> store (nor_hw d') p = store (nor_hw d) p" and "b' \<noteq> b"
  shows "dmem d' b' = dmem d b'"
  using assms block_apart [of b b'] by (simp add: dmem_def)

lemma hw_bad_dmem:
  assumes "hw_bad d X d'" and "ddok d" and "X \<subseteq> {base b..<base b + unat (block_size C)}"
  shows "\<not> rel \<and> ddok d' \<and> (\<forall>b'. b' \<noteq> b \<longrightarrow> dmem d' b' = dmem d b')"
proof -
  obtain h where h: "d' = d\<lparr>nor_hw := h\<rparr>" "hok h" "\<And>p. p \<notin> X \<Longrightarrow> store h p = store (nor_hw d) p" and r: "\<not> rel"
    using assms(1) by (auto simp: hw_bad_def)
  have "dmem d' b' = dmem d b'" if "b' \<noteq> b" for b'
  proof (rule dmem_other [OF _ that])
    fix p assume "p \<notin> {base b..<base b + unat (block_size C)}"
    then have "p \<notin> X" using assms(3) by blast
    then show "store (nor_hw d') p = store (nor_hw d) p" using h(1,3) by simp
  qed
  moreover have "ddok d'" using ddok_upd [OF assms(2) h(2)] h(1) by simp
  ultimately show ?thesis using r by blast
qed

lemma wp_storage_failure: "wp (storage_failure m) Q E s =
  wp m Q (\<lambda>e. E (if e = SECUREFLASH_NO_RESULT then PSA_NO_RESULT else PSA_ERROR_STORAGE_FAILURE)) s"
  by (simp add: storage_failure_def wp_fun)

lemma read_block_wp:
  assumes d: "ddok d" and b: "b < ucast (num_blocks C)" and le: "unat off + unat len \<le> unat (block_size C)"
  shows "wp (etss_secureflash_read hal C b off len)
    (\<lambda>bs d'. bs = bslice (unat off) (unat len) (dmem d b) \<and> ddok d' \<and> dmem d' = dmem d)
    (\<lambda>_ d'. \<not> rel \<and> ddok d' \<and> dmem d' = dmem d) d"
proof -
  have ph: "unat (get_phys_address C b off) = base b + unat off" by (rule phys_address [OF b]) (use le in simp)
  have same: "ddok d' \<and> dmem d' = dmem d" if "dev_to d (store (nor_hw d)) d'" for d'
    using that ddok_upd [OF d] by (auto simp: dev_to_def intro: dmem_cong)
  show ?thesis
    unfolding etss_secureflash_read_def wp_withS wp_storage_failure
  proof (rule wp_mono [OF secure_read_area_wp [OF d]])
    show "unat (flash_area_addr C) \<le> unat (get_phys_address C b off)" using ph by simp
    show "unat (get_phys_address C b off) + unat len \<le> area_end C" using ph le block_end [OF b] by simp
  qed (use ph le same dmem_slice [OF b le] in auto)
qed

lemma write_block_wp:
  assumes d: "ddok d" and b: "b < ucast (num_blocks C)" and le: "unat off + unat len \<le> unat (block_size C)"
    and n: "unat len \<le> length data"
    and er: "bslice (unat off) (unat len) (dmem d b) = replicate (unat len) (erase_val C)"
  shows "wp (etss_secureflash_write hal C b data off len)
    (\<lambda>_ d'. ddok d' \<and> dmem d' = (dmem d)(b := bsplice (unat off) (take (unat len) data) (dmem d b)))
    (\<lambda>_ d'. \<not> rel \<and> ddok d' \<and> (\<forall>b'. b' \<noteq> b \<longrightarrow> dmem d' b' = dmem d b')) d"
proof -
  have ph: "unat (get_phys_address C b off) = base b + unat off" by (rule phys_address [OF b]) (use le in simp)
  show ?thesis
    unfolding etss_secureflash_write_def wp_withS wp_storage_failure
  proof (rule wp_mono [OF secure_program_area_wp [OF d _ _ n]])
    show "unat (flash_area_addr C) \<le> unat (get_phys_address C b off)" using ph by simp
    show "unat (get_phys_address C b off) + unat len \<le> area_end C" using ph le block_end [OF b] by simp
    fix p assume p: "unat (get_phys_address C b off) \<le> p" "p < unat (get_phys_address C b off) + unat len"
    then have "p - (base b + unat off) < unat len" using ph by simp
    then have "bslice (unat off) (unat len) (dmem d b) ! (p - (base b + unat off)) = erase_val C" using er by simp
    then show "store (nor_hw d) p = erase_val C" using p ph dmem_slice [OF b le, of d] by simp
  next
    fix u d' assume "dev_to d (put_bytes (store (nor_hw d)) (unat (get_phys_address C b off)) data (unat len)) d'"
    then obtain h where h: "d' = d\<lparr>nor_hw := h\<rparr>" "hok h" "store h = put_bytes (store (nor_hw d)) (base b + unat off) data (unat len)"
      using ph by (auto simp: dev_to_def)
    have "dmem d' b = bsplice (unat off) (take (unat len) data) (dmem d b)"
      using h n le b by (intro nth_equalityI) (auto simp: nth_bsplice dmem_def put_bytes_def)
    moreover have "dmem d' b' = dmem d b'" if "b' \<noteq> b" for b'
      by (rule dmem_other [OF _ that]) (use h le in \<open>auto simp: put_bytes_def\<close>)
    ultimately show "ddok d' \<and> dmem d' = (dmem d)(b := bsplice (unat off) (take (unat len) data) (dmem d b))"
      using ddok_upd [OF d h(2)] h(1) by (auto simp: fun_eq_iff)
  next
    fix e d' assume "hw_bad d {unat (get_phys_address C b off)..<unat (get_phys_address C b off) + unat len} d'"
    then show "\<not> rel \<and> ddok d' \<and> (\<forall>b'. b' \<noteq> b \<longrightarrow> dmem d' b' = dmem d b')"
      by (rule hw_bad_dmem [OF _ d]) (use ph le in auto)
  qed
qed

lemma hw_bad_trans:
  assumes "hw_bad u X u'" and u: "u = d\<lparr>nor_hw := h\<rparr>" and "\<And>p. p \<notin> Y \<Longrightarrow> store h p = store (nor_hw d) p" and "X \<subseteq> Y"
  shows "hw_bad d Y u'"
proof -
  obtain h' where h': "u' = u\<lparr>nor_hw := h'\<rparr>" "hok h'" "\<And>p. p \<notin> X \<Longrightarrow> store h' p = store (nor_hw u) p" "\<not> rel"
    using assms(1) by (auto simp: hw_bad_def)
  have "store h' p = store (nor_hw d) p" if "p \<notin> Y" for p
    using h'(3) [of p] assms(3) [OF that] assms(4) that u by auto
  moreover have "u' = d\<lparr>nor_hw := h'\<rparr>" using h'(1) u by simp
  ultimately show ?thesis using h'(2,4) unfolding hw_bad_def by blast
qed

text \<open>The sectors from the \<open>k\<close>-th on.\<close>

lemma erase_sectors_wp:
  assumes d: "ddok d" and b: "b < ucast (num_blocks C)"
    and off: "unat off = k * unat (sector_size C)" and N: "unat (block_size C) = (k + n) * unat (sector_size C)"
    and fuel: "n < fuel" and wrap: "unat (block_size C) + unat (sector_size C) < 4294967296"
  shows "wp (erase_sectors fuel hal C b off)
    (\<lambda>_. dev_to d (\<lambda>p. if p \<in> {base b + unat off..<base b + unat (block_size C)} then erase_val C else store (nor_hw d) p))
    (\<lambda>_. hw_bad d {base b + unat off..<base b + unat (block_size C)}) d"
  using d off N fuel
proof (induction n arbitrary: k off d fuel)
  case 0
  then obtain f where f: "fuel = Suc f" by (cases fuel) auto
  have "\<not> off < block_size C" using "0.prems" by (simp add: word_less_nat_alt)
  moreover have "dev_to d (store (nor_hw d)) d"
    using ddokD(4) [OF "0.prems"(1)] unfolding dev_to_def by (intro exI [of _ "nor_hw d"]) simp
  moreover have "{base b + unat off..<base b + unat (block_size C)} = {}" using "0.prems" by simp
  ultimately show ?case using f by simp
next
  case (Suc n)
  then obtain f where f: "fuel = Suc f" "n < f" by (cases fuel) auto
  let ?S = "sector_size C" and ?B = "unat (block_size C)" and ?U = "regions_min_secure_erase_size P"
  have S: "0 < unat ?S" "unat ?U dvd unat ?S" "unat ?S dvd ?B" "unat ?U dvd unat (flash_area_addr C)"
    using geometry by (simp_all add: geometry_ok_def word_less_nat_alt)
  have le: "unat off + unat ?S \<le> ?B" using Suc.prems(2,3) by simp
  have lt: "off < block_size C" using le S(1) by (simp add: word_less_nat_alt)
  have ph: "unat (get_phys_address C b off) = base b + unat off" by (rule phys_address [OF b]) (use le in simp)
  have off': "unat (off + ?S) = Suc k * unat ?S" using Suc.prems(2) le wrap by (subst unat_add_u32) simp_all
  have dv: "unat ?U dvd unat (get_phys_address C b off)"
    unfolding ph Suc.prems(2) using S(2,3,4) by (meson dvd_add dvd_mult dvd_trans)
  let ?A = "unat (get_phys_address C b off)"
  have "wp (secureflash_secure_erase hal (get_phys_address C b off) ?S (secureflash_app_id d))
     (\<lambda>_. wp (erase_sectors f hal C b (off + ?S))
       (\<lambda>_. dev_to d (\<lambda>p. if p \<in> {base b + unat off..<base b + ?B} then erase_val C else store (nor_hw d) p))
       (\<lambda>_. hw_bad d {base b + unat off..<base b + ?B}))
     (\<lambda>_. hw_bad d {base b + unat off..<base b + ?B}) d"
  proof (rule wp_mono [OF secure_erase_area_wp [OF Suc.prems(1)]])
    show "unat (flash_area_addr C) \<le> ?A" "?A + unat ?S \<le> area_end C" using ph le block_end [OF b] by simp_all
    show "unat ?U dvd ?A" "unat ?U dvd unat ?S" using dv S by simp_all
  next
    fix u d' assume "dev_to d (\<lambda>p. if p \<in> {?A..<?A + unat ?S} then erase_val C else store (nor_hw d) p) d'"
    then obtain h where h: "d' = d\<lparr>nor_hw := h\<rparr>" "hok h"
      "store h = (\<lambda>p. if p \<in> {?A..<?A + unat ?S} then erase_val C else store (nor_hw d) p)" by (auto simp: dev_to_def)
    have d': "ddok d'" using ddok_upd [OF Suc.prems(1) h(2)] h(1) by simp
    have "wp (erase_sectors f hal C b (off + ?S))
       (\<lambda>_. dev_to d' (\<lambda>p. if p \<in> {base b + unat (off + ?S)..<base b + ?B} then erase_val C else store (nor_hw d') p))
       (\<lambda>_. hw_bad d' {base b + unat (off + ?S)..<base b + ?B}) d'"
      by (rule Suc.IH [OF d' off']) (use Suc.prems(3) f in simp_all)
    then show "wp (erase_sectors f hal C b (off + ?S))
       (\<lambda>_. dev_to d (\<lambda>p. if p \<in> {base b + unat off..<base b + ?B} then erase_val C else store (nor_hw d) p))
       (\<lambda>_. hw_bad d {base b + unat off..<base b + ?B}) d'"
    proof (rule wp_mono)
      fix u d2 assume "dev_to d' (\<lambda>p. if p \<in> {base b + unat (off + ?S)..<base b + ?B} then erase_val C else store (nor_hw d') p) d2"
      then show "dev_to d (\<lambda>p. if p \<in> {base b + unat off..<base b + ?B} then erase_val C else store (nor_hw d) p) d2"
        using h ph off' Suc.prems(2) le by (auto simp: dev_to_def fun_eq_iff)
    next
      fix e d2 assume "hw_bad d' {base b + unat (off + ?S)..<base b + ?B} d2"
      then show "hw_bad d {base b + unat off..<base b + ?B} d2"
        by (rule hw_bad_trans [OF _ h(1)]) (use h(3) ph off' Suc.prems(2) le in auto)
    qed
  next
    fix e d' assume "hw_bad d {?A..<?A + unat ?S} d'"
    then show "hw_bad d {base b + unat off..<base b + ?B} d'"
      using ph le unfolding hw_bad_def by (elim exE conjE) (intro conjI exI, auto)
  qed
  then show ?case using f(1) lt by (simp add: wp_storage_failure)
qed

lemma erase_block_wp:
  assumes d: "ddok d" and b: "b < ucast (num_blocks C)"
  shows "wp (etss_secureflash_erase hal C b)
    (\<lambda>_ d'. ddok d' \<and> dmem d' = (dmem d)(b := replicate (unat (block_size C)) (erase_val C)))
    (\<lambda>_ d'. \<not> rel \<and> ddok d' \<and> (\<forall>b'. b' \<noteq> b \<longrightarrow> dmem d' b' = dmem d b')) d"
proof -
  have S: "0 < unat (sector_size C)" "unat (sector_size C) dvd unat (block_size C)"
    using geometry by (simp_all add: geometry_ok_def word_less_nat_alt)
  then obtain n where n: "unat (block_size C) = (0 + n) * unat (sector_size C)" by (metis add_0 dvd_def mult.commute)
  have nf: "n < unat (block_size C) div unat (sector_size C) + 2" using n S(1) by simp
  have "2 * unat (block_size C) \<le> unat (num_blocks C) * unat (block_size C)"
    using cfg_okD(2) [OF valid_cfg] by (rule mult_le_mono1)
  moreover have "area_end C < 4294967296"
    using geometry unat_u32_less [of "secure_zone_total_size P"] by (simp add: geometry_ok_def)
  moreover have "unat (sector_size C) \<le> unat (block_size C)" if "0 < unat (block_size C)" using S(2) that by (rule dvd_imp_le)
  moreover have "0 < unat (block_size C)" using cfg_okD(3) [OF valid_cfg] by (simp add: foff_def)
  ultimately have wrap: "unat (block_size C) + unat (sector_size C) < 4294967296" unfolding area_end_def by linarith
  show ?thesis
    unfolding etss_secureflash_erase_def
  proof (rule wp_mono [OF erase_sectors_wp [OF d b _ n nf wrap]])
    show "unat (0 :: u32) = 0 * unat (sector_size C)" by simp
    fix u d' assume "dev_to d (\<lambda>p. if p \<in> {base b + unat (0 :: u32)..<base b + unat (block_size C)} then erase_val C else store (nor_hw d) p) d'"
    then obtain h where h: "d' = d\<lparr>nor_hw := h\<rparr>" "hok h"
      "store h = (\<lambda>p. if p \<in> {base b..<base b + unat (block_size C)} then erase_val C else store (nor_hw d) p)" by (auto simp: dev_to_def)
    have "dmem d' b = replicate (unat (block_size C)) (erase_val C)"
      using h b by (intro nth_equalityI) (auto simp: dmem_def)
    moreover have "dmem d' b' = dmem d b'" if "b' \<noteq> b" for b'
      by (rule dmem_other [OF _ that]) (use h in auto)
    ultimately show "ddok d' \<and> dmem d' = (dmem d)(b := replicate (unat (block_size C)) (erase_val C))"
      using ddok_upd [OF d h(2)] h(1) by (auto simp: fun_eq_iff)
  next
    fix e d' assume "hw_bad d {base b + unat (0 :: u32)..<base b + unat (block_size C)} d'"
    then show "\<not> rel \<and> ddok d' \<and> (\<forall>b'. b' \<noteq> b \<longrightarrow> dmem d' b' = dmem d b')"
      by (rule hw_bad_dmem [OF _ d]) simp
  qed
qed

section \<open>Start-up of the device\<close>

definition spi_same :: "('h, 'm) nor_state_scheme \<Rightarrow> ('h, 'm) nor_state_scheme \<Rightarrow> bool" where
  "spi_same s s' \<longleftrightarrow> (\<exists>p h. s' = s\<lparr>cmd_packet := p, nor_hw := h\<rparr> \<and> hpre h \<and> store h = store (nor_hw s) \<and>
     length (np_tx_buf p) = BUFFER_SIZE)"

definition spi_ok :: "('h, 'm) nor_state_scheme \<Rightarrow> bool" where
  "spi_ok s \<longleftrightarrow> hpre (nor_hw s) \<and> length (np_tx_buf (cmd_packet s)) = BUFFER_SIZE"

lemma spi_same_ok: "spi_same s s' \<Longrightarrow> spi_ok s'"
  by (auto simp: spi_same_def spi_ok_def)

lemma spi_same_trans: "spi_same s s' \<Longrightarrow> spi_same s' s'' \<Longrightarrow> spi_same s s''"
  unfolding spi_same_def by (elim exE conjE) (simp, blast)

lemma spi_same_hw: "spi_ok s \<Longrightarrow> hpre h \<Longrightarrow> store h = store (nor_hw s) \<Longrightarrow> spi_same s (s\<lparr>nor_hw := h\<rparr>)"
  unfolding spi_same_def spi_ok_def by (intro exI [of _ "cmd_packet s"] exI [of _ h]) simp

text \<open>A packed command is one byte on the wire.\<close>

lemma pack_command_wp:
  assumes "spi_ok s"
    and "\<And>p. take (unat (np_tx_len p)) (np_tx_buf p) = [c] \<Longrightarrow> length (np_tx_buf p) = BUFFER_SIZE \<Longrightarrow> Q () (s\<lparr>cmd_packet := p\<rparr>)"
  shows "wp (pack_command c) Q E s"
proof -
  let ?p = "(cmd_packet s)\<lparr>np_cmd := c, np_addr_len := 0, np_dummy_len := 0, np_data := None\<rparr>"
  have "take (unat (np_tx_len (cmd_packing ?p))) (np_tx_buf (cmd_packing ?p)) = [c]"
    "length (np_tx_buf (cmd_packing ?p)) = BUFFER_SIZE"
    using cmd_packing_wire [of ?p] assms(1) by (simp_all add: spi_ok_def BUFFER_SIZE_def)
  then show ?thesis using assms(2) by (simp add: pack_command_def)
qed

lemma send_command_wp:
  assumes s: "spi_ok s"
  shows "wp (send_command (hal_spi hal) c) (\<lambda>_. spi_same s) E s"
  unfolding send_command_def wp_bindE
proof (rule pack_command_wp [OF s], goal_cases)
  case (1 p)
  let ?a = "drv_control_ss (hal_spi hal) True (nor_hw s)"
  let ?b = "drv_send (hal_spi hal) [c] ?a"
  have "hpre (nor_hw s)" using s by (simp add: spi_ok_def)
  then have a: "hpre ?a" "store ?a = store (nor_hw s)" using spi_select by auto
  then have b: "hpre ?b" "store ?b = store (nor_hw s)" using spi_send by auto
  then have "hpre (drv_control_ss (hal_spi hal) False ?b) \<and> store (drv_control_ss (hal_spi hal) False ?b) = store (nor_hw s)"
    using spi_select by auto
  then show ?case using 1 by (auto simp: spi_write_def wp_on_hw wp_hw_do wp_fun spi_same_def)
qed

lemma query_command_wp:
  assumes s: "spi_ok s"
  shows "wp (query_command (hal_spi hal) c n) (\<lambda>bs s'. spi_same s s' \<and>
      (\<exists>h'. drv_receive (hal_spi hal) n (drv_send (hal_spi hal) [c] (drv_control_ss (hal_spi hal) True (nor_hw s))) = (bs, h'))) E s"
  unfolding query_command_def wp_bindE
proof (rule pack_command_wp [OF s], goal_cases)
  case (1 p)
  let ?a = "drv_control_ss (hal_spi hal) True (nor_hw s)"
  let ?b = "drv_send (hal_spi hal) [c] ?a"
  obtain bs h where r: "drv_receive (hal_spi hal) n ?b = (bs, h)" by (cases "drv_receive (hal_spi hal) n ?b")
  have "hpre (nor_hw s)" using s by (simp add: spi_ok_def)
  then have a: "hpre ?a" "store ?a = store (nor_hw s)" using spi_select by auto
  then have b: "hpre ?b" "store ?b = store (nor_hw s)" using spi_send by auto
  then have h: "hpre h" "store h = store (nor_hw s)" using spi_receive [OF _ r] by auto
  then have "hpre (drv_control_ss (hal_spi hal) False h) \<and> store (drv_control_ss (hal_spi hal) False h) = store (nor_hw s)"
    using spi_select by auto
  then show ?case using 1 r by (auto simp: wp_spi_read wp_on_hw spi_same_def)
qed

lemma spi_nor_init_wp:
  assumes s: "spi_ok s"
  shows "wp (spi_nor_init (hal_spi hal)) (\<lambda>_. spi_same s) (\<lambda>_ s'. \<not> rel \<and> spi_same s s') s"
proof -
  obtain ok h where i: "drv_initialize (hal_spi hal) (nor_hw s) = (ok, h)" by (cases "drv_initialize (hal_spi hal) (nor_hw s)")
  have h: "hpre h" "store h = store (nor_hw s)" "rel \<Longrightarrow> ok" using spi_initialize [OF _ i] s by (auto simp: spi_ok_def)
  have s1: "spi_same s (s\<lparr>nor_hw := h\<rparr>)" using spi_same_hw [OF s h(1,2)] .
  have w: "spi_same s (t\<lparr>nor_hw := drv_wait_ms (hal_spi hal) 1 (nor_hw t)\<rparr>)" if "spi_same s t" for t
    using spi_same_trans [OF that spi_same_hw [OF spi_same_ok [OF that]]] spi_wait spi_same_ok [OF that] by (simp add: spi_ok_def)
  have r: "wp (spi_nor_software_reset (hal_spi hal)) (\<lambda>_. spi_same s) (\<lambda>_ _. False) (s\<lparr>nor_hw := h\<rparr>)"
    unfolding spi_nor_software_reset_def spi_nor_reset_enable_def spi_nor_reset_def wp_bindE wp_orError
  proof (rule wp_mono [OF send_command_wp [OF spi_same_ok [OF s1], where E = "\<lambda>_ _. False"]], goal_cases)
    case (1 u t)
    then have t: "spi_same s t" using s1 spi_same_trans by blast
    show ?case
      unfolding wp_bindE wp_orError
      by (rule wp_mono [OF send_command_wp [OF spi_same_ok [OF t], where E = "\<lambda>_ _. False"]])
        (use t w spi_same_trans in \<open>auto simp: wp_on_hw wp_hw_do\<close>)
  qed
  have "wp (on_hw (spi_nor_hc_init (hal_spi hal))) (\<lambda>_. wp (orError (spi_nor_software_reset (hal_spi hal)) (-1)) (\<lambda>_. spi_same s) (\<lambda>_ s'. \<not> rel \<and> spi_same s s'))
      (\<lambda>_ s'. \<not> rel \<and> spi_same s s') s"
  proof (cases ok)
    case True
    have "wp (orError (spi_nor_software_reset (hal_spi hal)) (-1)) (\<lambda>_. spi_same s) (\<lambda>_ s'. \<not> rel \<and> spi_same s s') (s\<lparr>nor_hw := h\<rparr>)"
      unfolding wp_orError by (rule wp_mono [OF r]) auto
    then show ?thesis using i True by (simp add: spi_nor_hc_init_def wp_def on_hw_def)
  next
    case False
    then have "\<not> rel \<and> spi_same s (s\<lparr>nor_hw := h\<rparr>)" using h(3) s1 by blast
    then show ?thesis using i False unfolding spi_nor_hc_init_def wp_def on_hw_def by simp
  qed
  then show ?thesis by (simp add: spi_nor_init_def)
qed

lemma probe_dev_wp:
  fixes d :: "('h, 'v) etss_dev"
  assumes s: "spi_ok d"
  shows "wp (secureflash_probe hal) (\<lambda>_ d'. spi_ok d' \<and> store (nor_hw d') = store (nor_hw d) \<and> flash_vendor d' = Some V \<and>
       flash_profile d' = P \<and> is_initialized d' = is_initialized d \<and> secureflash_app_id d' = secureflash_app_id d) E d"
  unfolding secureflash_probe_def spi_nor_read_id_def wp_bindE wp_orError
proof (rule wp_mono [OF query_command_wp [OF s, where E = "\<lambda>_ _. False"]], goal_cases)
  case (1 ident d1)
  then obtain h' where r: "drv_receive (hal_spi hal) (hal_max_id_len hal)
      (drv_send (hal_spi hal) [STD_INST_RDID] (drv_control_ss (hal_spi hal) True (nor_hw d))) = (ident, h')" by blast
  have "hpre (nor_hw d)" using s by (simp add: spi_ok_def)
  then obtain e where e: "match_id_loop (hal_flash_info hal) ident [0..<4 * length (hal_flash_info hal)] = Inr e"
    "dev_vendor e = V" "dev_profile e = P" using read_id [OF _ r] by blast
  obtain p h where d1: "d1 = d\<lparr>cmd_packet := p, nor_hw := h\<rparr>" "hpre h" "store h = store (nor_hw d)" "length (np_tx_buf p) = BUFFER_SIZE"
    using 1 by (auto simp: spi_same_def)
  show ?case using e d1 set_vendor [OF d1(2)] by (simp add: secureflash_match_id_def spi_ok_def wp_fun)
qed simp

text \<open>\<open>good d d'\<close>: the device is ready, with the content and the application of \<open>d\<close>.\<close>

definition good :: "('h, 'v) etss_dev \<Rightarrow> ('h, 'v) etss_dev \<Rightarrow> bool" where
  "good d d' \<longleftrightarrow> ready d' \<and> secureflash_app_id d' = secureflash_app_id d \<and> store (nor_hw d') = store (nor_hw d)"

lemma sf_init_wp:
  assumes d: "dpre d"
  shows "wp (secureflash_init hal) (\<lambda>_. good d) (\<lambda>_ d'. \<not> rel \<and> dpre d' \<and> store (nor_hw d') = store (nor_hw d)) d"
proof -
  let ?E = "\<lambda>_ d'. \<not> rel \<and> dpre d' \<and> store (nor_hw d') = store (nor_hw d)"
  let ?d1 = "(if is_initialized d then d else d\<lparr>init_ref_count := 0\<rparr>)"
  let ?d2 = "?d1\<lparr>init_ref_count := init_ref_count ?d1 + 1\<rparr>"
  have sm: "store (nor_hw ?d2) = store (nor_hw d)" "spi_ok ?d2" using d by (simp_all add: dpre_def spi_ok_def)
  have fail: "?E e t" if "\<not> rel" "spi_ok t" "store (nor_hw t) = store (nor_hw d)" "\<not> is_initialized t" for e :: sf_error and t
    using that unfolding dpre_def spi_ok_def by simp
  show ?thesis
  proof (cases "init_ref_count ?d2 \<noteq> 1")
    case True
    then have i: "is_initialized d" by (cases "is_initialized d") simp_all
    have "good d ?d2" using d i by (simp add: dpre_def good_def ready_def)
    then show ?thesis using True i by (simp add: secureflash_init_def)
  next
    case False
    have rc: "is_initialized d \<Longrightarrow> rel \<or> init_ref_count d \<noteq> 0" using d unfolding dpre_def by blast
    have ni: "\<not> is_initialized d" if "\<not> rel"
      using False rc that by (auto split: if_splits)
    let ?good = "\<lambda>t. spi_ok t \<and> store (nor_hw t) = store (nor_hw d) \<and> is_initialized t = is_initialized d \<and>
        secureflash_app_id t = secureflash_app_id d"
    have fl: "?E e t" if "\<not> rel" "?good t" for e :: sf_error and t
      using fail [OF that(1), of t] that ni by blast
    have last: "wp (bindE (orError (on_hw (jedec_secure_init hal (hal_authen_key_id hal))) SECUREFLASH_ERROR_SECURE_INIT) (\<lambda>_.
       modifyS (\<lambda>s. s\<lparr>is_initialized := True\<rparr>))) (\<lambda>_. good d) ?E t"
      if t: "?good t" "flash_profile t = P" "app_info t = A" for t
      unfolding wp_bindE wp_orError wp_on_hw wp_modifyS
    proof (rule wp_mono [OF secure_init], goal_cases)
      case (2 u h)
      let ?t = "t\<lparr>nor_hw := h, is_initialized := True\<rparr>"
      show ?case using t 2 by (simp add: good_def ready_def spi_ok_def)
    next
      case (3 e h)
      then show ?case using t by (intro fl) (auto simp: spi_ok_def)
    qed (use t in \<open>simp add: spi_ok_def\<close>)
    have apps: "wp (bindE (modifyS (\<lambda>s. s\<lparr>app_info := no_app_info\<rparr>)) (\<lambda>_.
       bindE (secureflash_get_app_info hal) (\<lambda>_.
       bindE (orError (on_hw (jedec_secure_init hal (hal_authen_key_id hal))) SECUREFLASH_ERROR_SECURE_INIT) (\<lambda>_.
       modifyS (\<lambda>s. s\<lparr>is_initialized := True\<rparr>))))) (\<lambda>_. good d) ?E t"
      if t: "?good t" "flash_profile t = P" "flash_vendor t = Some V" for t
    proof -
      let ?t = "t\<lparr>app_info := no_app_info\<rparr>"
      have "wp (vendor_get_app_info hal V)
          (\<lambda>(n, ds) h. wp (bindE (orError (on_hw (jedec_secure_init hal (hal_authen_key_id hal))) SECUREFLASH_ERROR_SECURE_INIT) (\<lambda>_.
             modifyS (\<lambda>s. s\<lparr>is_initialized := True\<rparr>))) (\<lambda>_. good d) ?E
             (t\<lparr>nor_hw := h, app_info := no_app_info\<lparr>app_num := n, app_data := ds\<rparr>\<rparr>))
          (\<lambda>_ h. ?E SECUREFLASH_ERROR_GET_PROVISION_INFO (?t\<lparr>nor_hw := h\<rparr>)) (nor_hw t)"
      proof (rule wp_mono [OF get_app_info], goal_cases)
        case (2 r h)
        obtain n ds where r: "r = (n, ds)" by (cases r)
        have "no_app_info\<lparr>app_num := n, app_data := ds\<rparr> = A" using 2 r by simp
        then show ?case using t 2 r by (simp del: wp_bindE) (intro last, simp_all add: spi_ok_def)
      next
        case (3 e h)
        then show ?case using t by (intro fl) (auto simp: spi_ok_def)
      qed (use t in \<open>simp add: spi_ok_def\<close>)
      then show ?thesis using t(3)
        by (simp add: secureflash_get_app_info_def wp_on_hw wp_fun case_prod_unfold del: wp_bindE)
    qed
    have pr: "is_initialized ?d2 = is_initialized d" "secureflash_app_id ?d2 = secureflash_app_id d" by simp_all
    have good: "?good t" if "spi_same ?d2 t" for t
    proof -
      obtain p h where t: "t = ?d2\<lparr>cmd_packet := p, nor_hw := h\<rparr>" "hpre h" "store h = store (nor_hw ?d2)" "length (np_tx_buf p) = BUFFER_SIZE"
        using \<open>spi_same ?d2 t\<close> unfolding spi_same_def by blast
      have "is_initialized t = is_initialized ?d2" "secureflash_app_id t = secureflash_app_id ?d2" unfolding t(1) by simp_all
      moreover have "spi_ok t" by (rule spi_same_ok [OF that])
      moreover have "store (nor_hw t) = store h" unfolding t(1) by simp
      ultimately show ?thesis using pr sm(1) t(3) by simp
    qed
    have start: "wp (spi_nor_init (hal_spi hal)) (\<lambda>_. wp (bindE (secureflash_probe hal) (\<lambda>_.
       bindE (modifyS (\<lambda>s. s\<lparr>app_info := no_app_info\<rparr>)) (\<lambda>_.
       bindE (secureflash_get_app_info hal) (\<lambda>_.
       bindE (orError (on_hw (jedec_secure_init hal (hal_authen_key_id hal))) SECUREFLASH_ERROR_SECURE_INIT) (\<lambda>_.
       modifyS (\<lambda>s. s\<lparr>is_initialized := True\<rparr>)))))) (\<lambda>_. good d) ?E)
       (\<lambda>_. ?E SECUREFLASH_ERROR_INITIAL) ?d2"
    proof (rule wp_mono [OF spi_nor_init_wp [OF sm(2)]], goal_cases)
      case (1 u t)
      then have g: "?good t" by (rule good)
      show ?case
        unfolding wp_bindE [of "secureflash_probe hal"]
        by (rule wp_mono [OF probe_dev_wp [where E = "\<lambda>_ _. False"]]) (use g apps in \<open>auto simp del: wp_bindE\<close>)
    next
      case (2 e t)
      then have "?good t" using good by blast
      then show ?case using 2 fl by blast
    qed
    show ?thesis
      unfolding secureflash_init_def wp_bindE [of "modifyS _"] wp_modifyS wp_withS if_not_P [OF False]
        wp_bindE [of "orError _ _"] wp_orError
      by (rule start)
  qed
qed

lemma init_dev_wp:
  assumes d: "dpre d"
  shows "wp (etss_secureflash_init hal C) (\<lambda>_ d'. ddok d' \<and> dmem d' = dmem d) (\<lambda>_ d'. \<not> rel \<and> dpre d' \<and> dmem d' = dmem d) d"
proof -
  let ?d = "d\<lparr>secureflash_app_id := hal_SP_ETSS hal\<rparr>"
  have d': "dpre ?d" using d by (simp add: dpre_def ready_def)
  show ?thesis
    unfolding etss_secureflash_init_def wp_bindE wp_modifyS wp_storage_failure
  proof (rule wp_mono [OF sf_init_wp [OF d']], goal_cases)
    case (1 u t)
    then show ?case using etss_access dmem_cong [of t d] by (simp add: good_def ddok_def)
  next
    case (2 e t)
    have "dmem t = dmem d" by (rule dmem_cong) (use 2 in simp)
    then show ?case using 2 by blast
  qed
qed


end

sublocale secure_hal \<subseteq> fs: fs_dev "etss_secure_flash_fs_ops hal" C dmem ddok dpre rel
proof
  fix d b off len data
  show "length (dmem d b) = unat (block_size C)" if "ddok d" "b < ucast (num_blocks C)" by simp
  show "dpre d" if r: "rel" and "ddok d"
    using that(2) hok_hpre unfolding dpre_def ddok_def using r unfolding ready_def by blast
  show "wp (ops_init (etss_secure_flash_fs_ops hal) C) (\<lambda>_ d'. ddok d' \<and> dmem d' = dmem d)
      (\<lambda>_ d'. \<not> rel \<and> dpre d' \<and> dmem d' = dmem d) d" if "dpre d"
    using init_dev_wp [OF that] by (simp add: etss_secure_flash_fs_ops_def)
  show "wp (ops_read (etss_secure_flash_fs_ops hal) C b off len)
      (\<lambda>bs d'. bs = bslice (unat off) (unat len) (dmem d b) \<and> ddok d' \<and> dmem d' = dmem d)
      (\<lambda>_ d'. \<not> rel \<and> ddok d' \<and> dmem d' = dmem d) d"
    if "ddok d" "b < ucast (num_blocks C)" "unat off + unat len \<le> unat (block_size C)"
    using read_block_wp [OF that] by (simp add: etss_secure_flash_fs_ops_def)
  show "wp (ops_write (etss_secure_flash_fs_ops hal) C b data off len)
      (\<lambda>_ d'. ddok d' \<and> dmem d' = (dmem d)(b := bsplice (unat off) (take (unat len) data) (dmem d b)))
      (\<lambda>_ d'. \<not> rel \<and> ddok d' \<and> (\<forall>b'. b' \<noteq> b \<longrightarrow> dmem d' b' = dmem d b')) d"
    if "ddok d" "b < ucast (num_blocks C)" "unat off + unat len \<le> unat (block_size C)" "unat len \<le> length data"
      "bslice (unat off) (unat len) (dmem d b) = replicate (unat len) (erase_val C)"
    using write_block_wp [OF that] by (simp add: etss_secure_flash_fs_ops_def)
  show "wp (ops_flush (etss_secure_flash_fs_ops hal) C b) (\<lambda>_ d'. ddok d' \<and> dmem d' = dmem d)
      (\<lambda>_ d'. \<not> rel \<and> ddok d' \<and> dmem d' = dmem d) d" if "ddok d" "b < ucast (num_blocks C)"
    using that(1) by (simp add: etss_secure_flash_fs_ops_def etss_secureflash_flush_def)
  show "wp (ops_erase (etss_secure_flash_fs_ops hal) C b)
      (\<lambda>_ d'. ddok d' \<and> dmem d' = (dmem d)(b := replicate (unat (block_size C)) (erase_val C)))
      (\<lambda>_ d'. \<not> rel \<and> ddok d' \<and> (\<forall>b'. b' \<noteq> b \<longrightarrow> dmem d' b' = dmem d b')) d"
    if "ddok d" "b < ucast (num_blocks C)"
    using erase_block_wp [OF that] by (simp add: etss_secure_flash_fs_ops_def)
qed (rule valid_cfg)

section \<open>The rest of the device\<close>

text \<open>
  The contract also holds with the bytes outside the area of the file system held fixed: no operation of
  this file system changes them.
\<close>

definition outside :: "etss_flash_fs_config_t \<Rightarrow> nat \<Rightarrow> bool" where
  "outside C p \<longleftrightarrow> p < unat (flash_area_addr C) \<or> area_end C \<le> p"

definition keeps :: "etss_flash_fs_config_t \<Rightarrow> ('h \<Rightarrow> nat \<Rightarrow> u8) \<Rightarrow> (nat \<Rightarrow> u8) \<Rightarrow> 'h \<Rightarrow> bool" where
  "keeps C store F h \<longleftrightarrow> (\<forall>p. outside C p \<longrightarrow> store h p = F p)"

lemma keeps_cong: "store h' = store h \<Longrightarrow> keeps C store F h \<Longrightarrow> keeps C store F h'"
  by (simp add: keeps_def)

lemma keeps_range:
  assumes "keeps C store F h" and "in_area C a n" and "\<And>p. p \<notin> {a..<a + n} \<Longrightarrow> store h' p = store h p"
  shows "keeps C store F h'"
  using assms by (fastforce simp: keeps_def outside_def in_area_def)

context secure_hal
begin

lemma fs_contract: "fs_dev (etss_secure_flash_fs_ops hal) C dmem ddok dpre rel"
  by (rule fs.fs_dev_axioms)

lemma frame:
  "secure_hal hal C P A V store (\<lambda>h. hok h \<and> keeps C store F h) (\<lambda>h. hpre h \<and> keeps C store F h)
     (\<lambda>k h. sess k h \<and> keeps C store F h) rel"
proof (rule secure_hal.intro, goal_cases)
  case (13 h)
  then show ?case by (intro wp_mono [OF get_app_info]) (auto intro: keeps_cong)
next
  case (14 h)
  then show ?case by (intro wp_mono [OF secure_init]) (auto intro: keeps_cong)
next
  case (15 h key)
  then show ?case by (intro wp_mono [OF create_session]) (auto intro: keeps_cong)
next
  case (16 k h)
  then show ?case by (intro wp_mono [OF terminate_session]) (auto intro: keeps_cong)
next
  case (17 k h addr n)
  then show ?case by (intro wp_mono [OF secure_read]) (auto intro: keeps_cong)
next
  case (18 k h addr n bs)
  then have K: "keeps C store F h" "in_area C (unat addr) (unat n)" by simp_all
  have h: "sess k h" and bs: "length bs = unat n" and er: "\<And>p. unat addr \<le> p \<Longrightarrow> p < unat addr + unat n \<Longrightarrow> store h p = erase_val C"
    using 18 by blast+
  show ?case
    by (rule wp_mono [OF secure_program [OF h K(2) 18(3) bs er]]) (auto intro: keeps_range [OF K])
next
  case (19 k h addr)
  then have K: "keeps C store F h" "in_area C (unat addr) (unat (regions_min_secure_erase_size P))" by simp_all
  have h: "sess k h" using 19 by blast
  show ?case
    by (rule wp_mono [OF secure_erase [OF h K(2) 19(3)]]) (auto intro: keeps_range [OF K])
next
  case (6 h ok h')
  then show ?case using spi_initialize [of h ok h'] keeps_cong [of store h' h C F] by blast
next
  case (9 h n bs h')
  then show ?case using spi_receive [of h n bs h'] keeps_cong [of store h' h C F] by blast
next
  case (11 h ident h')
  then show ?case using read_id [of h ident h'] by blast
qed (use valid_cfg geometry etss_access hok_hpre sess_hok spi_select spi_send spi_wait set_vendor in
    \<open>auto intro: keeps_cong\<close>)

end

section \<open>A simulated device\<close>

text \<open>
  A JEDEC layer over an array of bytes, with the geometry of a small secure flash, two provisioned
  applications and an area for each. It shows that the contract can be met, and it is the device of the examples.
\<close>

type_synonym ram = "nat \<Rightarrow> u8"

definition sim_arch :: architecture_t where
  "sim_arch = \<lparr>security_feature = \<lparr>security_storage = True, puf = True, rng = False, rpmc = True\<rparr>, secure_zone_size = 512, secure_zone_total_size = 1024, secure_read_size = 32,
     secure_program_size = 16, regions_min_secure_erase_size = 32\<rparr>"

definition sim_cfg :: etss_flash_fs_config_t where
  "sim_cfg = \<lparr>flash_area_addr = 0, sector_size = 64, block_size = 128, num_blocks = 2, program_unit = 1,
     max_file_size = 16, max_num_files = 2, erase_val = 0xFF\<rparr>"

definition sim_cfg2 :: etss_flash_fs_config_t where
  "sim_cfg2 = sim_cfg\<lparr>flash_area_addr := 512\<rparr>"

definition sim_apps :: app_info_t where
  "sim_apps = \<lparr>app_num = 2, app_data = [\<lparr>app_id = 7, key_id = 1, zone_id = 0, mc_id = 0\<rparr>, \<lparr>app_id = 9, key_id = 2, zone_id = 1, mc_id = 0\<rparr>]\<rparr>"

definition sim_spi :: "ram arm_driver_spi" where
  "sim_spi = \<lparr>drv_initialize = Pair True, drv_control_ss = (\<lambda>_ h. h), drv_send = (\<lambda>_ h. h),
     drv_receive = (\<lambda>n h. (replicate (unat n) 0xC2, h)), drv_wait_ms = (\<lambda>_ h. h)\<rparr>"

definition sim_hal :: "(ram, unit) sf_hal" where
  "sim_hal = \<lparr>hal_spi = sim_spi, hal_flash_info = [\<lparr>dev_id = [0xC2, 0xC2, 0xC2], dev_vendor = (), dev_profile = sim_arch\<rparr>],
     hal_max_id_len = 6, hal_SP_ETSS = -1, hal_authen_key_id = 0, jedec_set_vendor = (\<lambda>_ h. h),
     vendor_get_app_info = (\<lambda>_. returnE (app_num sim_apps, app_data sim_apps)), vendor_perform_and_verify = (\<lambda>_ _ _. returnE ()),
     jedec_secure_init = (\<lambda>_. returnE ()), jedec_secure_uninit = (\<lambda>_. returnE ()),
     jedec_create_session = (\<lambda>k. returnE k), jedec_terminate_session = (\<lambda>_. returnE ()),
     jedec_secure_read = (\<lambda>addr n _ h. (Inr (map h [unat addr..<unat addr + unat n]), h)),
     jedec_secure_program = (\<lambda>addr bs n _. modifyS (\<lambda>h p. if p \<in> {unat addr..<unat addr + unat n} then bs ! (p - unat addr) else h p)),
     jedec_secure_erase = (\<lambda>addr n _. modifyS (\<lambda>h p. if p \<in> {unat addr..<unat addr + unat n} then 0xFF else h p))\<rparr>"

lemma sim_grants: "unat (addr :: u32) \<le> 256 \<Longrightarrow> addr div 512 = 0" "512 \<le> unat addr \<Longrightarrow> unat addr \<le> 768 \<Longrightarrow> addr div 512 = 1"
  by (simp_all add: word_unat_eq_iff unat_div_distrib div_nat_eqI)

lemma sim_has_access: "app \<in> {-1, 7} \<Longrightarrow> has_access sim_hal sim_cfg sim_arch sim_apps app"
  using sim_grants(1) by (auto simp: has_access_def grants_def sim_cfg_def sim_arch_def sim_apps_def area_end_def sim_hal_def)

lemma sim_has_access2: "app \<in> {-1, 9} \<Longrightarrow> has_access sim_hal sim_cfg2 sim_arch sim_apps app"
  using sim_grants(2) by (auto simp: has_access_def grants_def sim_cfg2_def sim_cfg_def sim_arch_def sim_apps_def area_end_def sim_hal_def)

lemma sim_geometry: "cfg_ok sim_cfg" "cfg_ok sim_cfg2" "geometry_ok sim_cfg sim_arch" "geometry_ok sim_cfg2 sim_arch"
  by (simp_all add: cfg_ok_iff sim_cfg2_def sim_cfg_def foff_def mnf_def nad_def geometry_ok_def sim_arch_def area_end_def dvd_def)

lemma sim_SP_ETSS: "hal_SP_ETSS sim_hal = -1"
  by (simp add: sim_hal_def)

interpretation sim: secure_hal sim_hal sim_cfg sim_arch sim_apps "()" "\<lambda>h. h" "\<lambda>_. True" "\<lambda>_. True" "\<lambda>_ _. True" True
proof
  show "has_access sim_hal sim_cfg sim_arch sim_apps (hal_SP_ETSS sim_hal)" by (rule sim_has_access) (simp add: sim_SP_ETSS)
qed (auto simp: sim_geometry, auto simp: sim_hal_def sim_spi_def sim_apps_def sim_cfg_def sim_arch_def wp_def sem_defs upt_rec)

interpretation sim2: secure_hal sim_hal sim_cfg2 sim_arch sim_apps "()" "\<lambda>h. h" "\<lambda>_. True" "\<lambda>_. True" "\<lambda>_ _. True" True
proof
  show "has_access sim_hal sim_cfg2 sim_arch sim_apps (hal_SP_ETSS sim_hal)" by (rule sim_has_access2) (simp add: sim_SP_ETSS)
qed (auto simp: sim_geometry, auto simp: sim_hal_def sim_spi_def sim_apps_def sim_cfg2_def sim_cfg_def sim_arch_def wp_def sem_defs upt_rec)

end
