(* ===== verification/Psa_Service.thy ===== *)
theory Psa_Service
  imports Prelude
begin

text \<open>
  What the secure partitions use of the PSA Firmware Framework, which is not part of the repository:
  messages, and the record \<open>psa_api\<close> of the framework's calls over the framework's own state \<open>'q\<close>.
  \<open>psa_read\<close> returns the bytes it copies to the caller's buffer (its result in C is their number). The
  locale \<open>psa_vectors\<close> states the documented behaviour of \<open>psa_read\<close> and \<open>psa_write\<close> on the vectors
  of the message that is being handled.
\<close>

type_synonym psa_handle_t = int

record psa_msg_t =
  msg_type :: int
  msg_handle :: psa_handle_t
  msg_client_id :: int
  in_size :: "u32 list"
  out_size :: "u32 list"

definition PSA_IPC_CONNECT :: int where "PSA_IPC_CONNECT = -1"

definition PSA_IPC_CALL :: int where "PSA_IPC_CALL = 0"

definition PSA_IPC_DISCONNECT :: int where "PSA_IPC_DISCONNECT = -2"

record 'q psa_api =
  psa_wait :: "u32 \<Rightarrow> 'q \<Rightarrow> u32 \<times> 'q"
  psa_get :: "u32 \<Rightarrow> ('q, psa_error, psa_msg_t) sem"
  psa_reply :: "psa_handle_t \<Rightarrow> int \<Rightarrow> 'q \<Rightarrow> 'q"
  psa_read :: "psa_handle_t \<Rightarrow> nat \<Rightarrow> u32 \<Rightarrow> 'q \<Rightarrow> buf \<times> 'q"
  psa_write :: "psa_handle_t \<Rightarrow> nat \<Rightarrow> buf \<Rightarrow> 'q \<Rightarrow> 'q"

text \<open>
  \<open>invec q i\<close> are the bytes of input vector \<open>i\<close> that have not been read, \<open>outvec q i\<close> the bytes
  written to output vector \<open>i\<close>, and \<open>room q i\<close> the size of that vector: to write more is a programmer
  error of the partition.
\<close>

locale psa_vectors =
  fixes api :: "'q psa_api"
    and invec :: "'q \<Rightarrow> nat \<Rightarrow> buf"
    and outvec :: "'q \<Rightarrow> nat \<Rightarrow> buf"
    and room :: "'q \<Rightarrow> nat \<Rightarrow> nat"
  assumes read_law: "psa_read api h i n q = (bs, q') \<Longrightarrow>
      bs = take (unat n) (invec q i) \<and> invec q' = (invec q)(i := drop (unat n) (invec q i)) \<and>
      outvec q' = outvec q \<and> room q' = room q"
    and write_law: "length (outvec q i) + length bs \<le> room q i \<Longrightarrow>
      outvec (psa_write api h i bs q) = (outvec q)(i := outvec q i @ bs) \<and>
      invec (psa_write api h i bs q) = invec q \<and> room (psa_write api h i bs q) = room q"
begin

lemma read_all: "psa_read api h i n q = (bs, q') \<Longrightarrow> length (invec q i) \<le> unat n \<Longrightarrow> bs = invec q i \<and> invec q' i = []"
  using read_law by fastforce

end

section \<open>Clients\<close>

text \<open>
  The client side of the framework over a state \<open>'w\<close> of the whole system: \<open>psa_call\<close> takes the input
  vectors and the sizes of the output vectors, and gives the status and what the output vectors hold
  afterwards (the framework sets \<^verbatim>\<open>out_vec[i].len\<close> to that length).
\<close>

record 'w psa_client =
  psa_connect :: "u32 \<Rightarrow> u32 \<Rightarrow> 'w \<Rightarrow> psa_handle_t \<times> 'w"
  psa_call :: "psa_handle_t \<Rightarrow> int \<Rightarrow> buf list \<Rightarrow> u32 list \<Rightarrow> 'w \<Rightarrow> (int \<times> buf list) \<times> 'w"
  psa_close :: "psa_handle_t \<Rightarrow> 'w \<Rightarrow> 'w"

definition PSA_HANDLE_IS_VALID :: "psa_handle_t \<Rightarrow> bool" where
  "PSA_HANDLE_IS_VALID h \<longleftrightarrow> h > 0"

section \<open>A simulated framework\<close>

text \<open>
  A queue of messages with their input vectors; the message in hand, its vectors, and the replies.
\<close>

record sim_call =
  sc_signal :: u32
  sc_msg :: psa_msg_t
  sc_in :: "buf list"

record sim_psa =
  sq_pending :: "sim_call list"
  sq_in :: "nat \<Rightarrow> buf"
  sq_out :: "nat \<Rightarrow> buf"
  sq_room :: "nat \<Rightarrow> nat"
  sq_replies :: "(psa_handle_t \<times> int) list"

definition sim_api :: "sim_psa psa_api" where
  "sim_api = \<lparr>psa_wait = (\<lambda>_ q. (case sq_pending q of [] \<Rightarrow> 0 | c # _ \<Rightarrow> sc_signal c, q)),
     psa_get = (\<lambda>sig q. case sq_pending q of
       [] \<Rightarrow> (Inl PSA_ERROR_DOES_NOT_EXIST, q)
     | c # cs \<Rightarrow> (Inr (sc_msg c), q\<lparr>sq_pending := cs, sq_in := (\<lambda>i. if i < length (sc_in c) then sc_in c ! i else []),
         sq_out := (\<lambda>_. []), sq_room := (\<lambda>i. if i < length (out_size (sc_msg c)) then unat (out_size (sc_msg c) ! i) else 0)\<rparr>)),
     psa_reply = (\<lambda>h r q. q\<lparr>sq_replies := sq_replies q @ [(h, r)]\<rparr>),
     psa_read = (\<lambda>_ i n q. (take (unat n) (sq_in q i), q\<lparr>sq_in := (sq_in q)(i := drop (unat n) (sq_in q i))\<rparr>)),
     psa_write = (\<lambda>_ i bs q. q\<lparr>sq_out := (sq_out q)(i := sq_out q i @ bs)\<rparr>)\<rparr>"

interpretation simq: psa_vectors sim_api sq_in sq_out sq_room
  by unfold_locales (auto simp: sim_api_def)

end
