(* ===== verification/Etss_Service.thy ===== *)
theory Etss_Service
  imports Etss_Secureflash Psa_Service
begin

text \<open>
  The storage service, \<open>external_trusted_secure_storage.c\<close>, in its default build configuration
  (\<open>MULTI_CLIENT_ISOLATION\<close> and \<open>ETSS_CREATE_FLASH_LAYOUT\<close> on): the table of the clients with a
  file system of their own each, start-up, and the operations on assets. The constants of
  \<open>secureflash_layout.h\<close> (not in the repository) and of the build configuration are the record
  \<open>sf_layout\<close>. Local arrays that the code reads before it writes them are arguments
  (\<open>stack_bytes\<close>, \<open>stack_size\<close>).
\<close>

section \<open>Error codes\<close>

text \<open>
  The codes of \<open>etss_defs.h\<close> up to \<open>ETSS_ERR_INVALID_SIGNATURE\<close> are the PSA codes of the same name, so
  the cast \<^verbatim>\<open>(etss_err_t)status\<close> is the constructor \<open>ETSS_ERR\<close>.
\<close>

datatype etss_err_t =
    ETSS_ERR psa_error
  | ETSS_ERR_SF_UNPROVISIONED
  | ETSS_ERR_SF_INIT
  | ETSS_ERR_SF_PROVISION

abbreviation "ETSS_ERR_PROGRAMMER_ERROR \<equiv> ETSS_ERR PSA_ERROR_PROGRAMMER_ERROR"
abbreviation "ETSS_ERR_GENERIC_ERROR \<equiv> ETSS_ERR PSA_ERROR_GENERIC_ERROR"
abbreviation "ETSS_ERR_NOT_PERMITTED \<equiv> ETSS_ERR PSA_ERROR_NOT_PERMITTED"
abbreviation "ETSS_ERR_NOT_SUPPORTED \<equiv> ETSS_ERR PSA_ERROR_NOT_SUPPORTED"
abbreviation "ETSS_ERR_INVALID_ARGUMENT \<equiv> ETSS_ERR PSA_ERROR_INVALID_ARGUMENT"
abbreviation "ETSS_ERR_DOES_NOT_EXIST \<equiv> ETSS_ERR PSA_ERROR_DOES_NOT_EXIST"
abbreviation "ETSS_ERR_STORAGE_FAILURE \<equiv> ETSS_ERR PSA_ERROR_STORAGE_FAILURE"

fun etss_code :: "etss_err_t \<Rightarrow> int" where
  "etss_code (ETSS_ERR e) = psa_code e"
| "etss_code ETSS_ERR_SF_UNPROVISIONED = -158"
| "etss_code ETSS_ERR_SF_INIT = -159"
| "etss_code ETSS_ERR_SF_PROVISION = -160"

section \<open>State\<close>

record client_layout =
  cl_area_start_addr :: u32
  cl_area_size :: u32
  cl_sectors_per_block :: u32
  cl_client_id :: int

record sf_layout =
  SECURE_FLASH_SECTOR_SIZE :: u32
  SECURE_FLASH_ERASED_VALUE :: u8
  SECURE_FLASH_CLIENTS :: "client_layout list"
  ETSS_FLASH_ALIGNMENT :: u16
  ETSS_MAX_ASSET_SIZE :: u32
  ETSS_NUM_ASSETS :: u16
  PROV_BLOB_LEN_MAX :: u32

text \<open>\<open>fs_ctx_etss_ptr\<close> points into the table: it is an index, or \<open>None\<close> before its first use.\<close>

record ('h, 'v, 'q) etss_state =
  secureflash :: "('h, 'v) etss_dev"
  etss_fs_ctx_tbl :: "(int \<times> ('h, 'v) etss_dev etss_flash_fs_ctx_t) list"
  fs_ctx_etss_ptr :: "nat option"
  asset_data :: buf
  etss_msg :: psa_msg_t
  framework :: 'q

type_synonym ('h, 'v, 'q, 'a) etss_op = "(('h, 'v, 'q) etss_state, etss_err_t, 'a) sem"

text \<open>A file system context together with the device, and back.\<close>

definition fs_of :: "'d etss_flash_fs_ctx_t \<Rightarrow> 'd \<Rightarrow> 'd fs_state" where
  "fs_of c d = \<lparr>ctx_cfg = ctx_cfg c, ctx_ops = ctx_ops c, meta_block_header = meta_block_header c,
     active_metablock = active_metablock c, scratch_metablock = scratch_metablock c, flash = d\<rparr>"

definition ctx_of :: "'d fs_state \<Rightarrow> 'd etss_flash_fs_ctx_t" where
  "ctx_of f = \<lparr>ctx_cfg = ctx_cfg f, ctx_ops = ctx_ops f, meta_block_header = meta_block_header f,
     active_metablock = active_metablock f, scratch_metablock = scratch_metablock f\<rparr>"

definition client_fs :: "('h, 'v, 'q) etss_state \<Rightarrow> nat \<Rightarrow> ('h, 'v) etss_dev fs_state" where
  "client_fs s i = fs_of (snd (etss_fs_ctx_tbl s ! i)) (secureflash s)"

definition put_fs :: "nat \<Rightarrow> ('h, 'v) etss_dev fs_state \<Rightarrow> ('h, 'v, 'q) etss_state \<Rightarrow> ('h, 'v, 'q) etss_state" where
  "put_fs i f s = s\<lparr>secureflash := flash f,
     etss_fs_ctx_tbl := (etss_fs_ctx_tbl s)[i := (fst (etss_fs_ctx_tbl s ! i), ctx_of f)]\<rparr>"

text \<open>A file system call on the context in slot \<open>i\<close>, and on the context \<open>fs_ctx_etss_ptr\<close> points to.\<close>

definition on_fs_at :: "nat \<Rightarrow> (('h, 'v) etss_dev, 'a) fs_op \<Rightarrow> (('h, 'v, 'q) etss_state, psa_error, 'a) sem" where
  "on_fs_at i m = (\<lambda>s. if i < length (etss_fs_ctx_tbl s)
     then (case m (client_fs s i) of (r, f) \<Rightarrow> (r, put_fs i f s)) else (Inl PSA_NO_RESULT, s))"

definition on_fs :: "(('h, 'v) etss_dev, 'a) fs_op \<Rightarrow> (('h, 'v, 'q) etss_state, psa_error, 'a) sem" where
  "on_fs m = withS (\<lambda>s. case fs_ctx_etss_ptr s of None \<Rightarrow> throwE PSA_NO_RESULT | Some i \<Rightarrow> on_fs_at i m)"

definition on_dev :: "(('h, 'v) etss_dev, 'e, 'a) sem \<Rightarrow> (('h, 'v, 'q) etss_state, 'e, 'a) sem" where
  "on_dev m = (\<lambda>s. case m (secureflash s) of (r, d) \<Rightarrow> (r, s\<lparr>secureflash := d\<rparr>))"

definition cast_status :: "('s, psa_error, 'a) sem \<Rightarrow> ('s, etss_err_t, 'a) sem" where
  "cast_status m = tryE m (\<lambda>r. case r of Inl e \<Rightarrow> throwE (ETSS_ERR e) | Inr a \<Rightarrow> returnE a)"

section \<open>Messages of the caller\<close>

definition etss_req_mngr_read :: "'q psa_api \<Rightarrow> u32 \<Rightarrow> ('h, 'v, 'q, buf) etss_op" where
  "etss_req_mngr_read api num_bytes = (\<lambda>s. case psa_read api (msg_handle (etss_msg s)) 1 num_bytes (framework s) of
     (bs, q) \<Rightarrow> (Inr bs, s\<lparr>framework := q\<rparr>))"

definition etss_req_mngr_write :: "'q psa_api \<Rightarrow> buf \<Rightarrow> ('h, 'v, 'q, unit) etss_op" where
  "etss_req_mngr_write api bs =
     modifyS (\<lambda>s. s\<lparr>framework := psa_write api (msg_handle (etss_msg s)) 0 bs (framework s)\<rparr>)"

section \<open>Clients and files\<close>

definition le64 :: "u64 \<Rightarrow> buf" where
  "le64 w = map (\<lambda>i. ucast (drop_bit (8 * i) w)) [0..<8]"

definition etss_get_fid :: "int \<Rightarrow> u64 \<Rightarrow> buf" where
  "etss_get_fid client_id uid = le32 (word_of_int client_id) @ le64 uid"

definition etss_get_fs_ctx :: "(int \<times> 'c) list \<Rightarrow> int \<Rightarrow> nat option" where
  "etss_get_fs_ctx tbl client_id = List.find (\<lambda>i. fst (tbl ! i) = client_id) [0..<length tbl]"

text \<open>The common start of the operations on assets: the client id goes to the flash layer, and the
  context of the client is selected.\<close>

definition select_client :: "int \<Rightarrow> ('h, 'v, 'q, unit) etss_op" where
  "select_client client_id =
     bindE (cast_status (on_dev (etss_client_id_pass_on client_id))) (\<lambda>_.
     withS (\<lambda>s. case etss_get_fs_ctx (etss_fs_ctx_tbl s) client_id of
       None \<Rightarrow> throwE ETSS_ERR_NOT_PERMITTED
     | Some i \<Rightarrow> modifyS (\<lambda>s. s\<lparr>fs_ctx_etss_ptr := Some i\<rparr>)))"

definition features :: "('h, 'v, 'q) etss_state \<Rightarrow> security_feature_t" where
  "features s = security_feature (flash_profile (secureflash s))"

section \<open>Start-up\<close>

definition client_cfg :: "sf_layout \<Rightarrow> nat \<Rightarrow> etss_flash_fs_config_t" where
  "client_cfg L i =
     (let cl = SECURE_FLASH_CLIENTS L ! i; bs = SECURE_FLASH_SECTOR_SIZE L * cl_sectors_per_block cl in
      \<lparr>flash_area_addr = (if i < 4 then cl_area_start_addr cl else 0), sector_size = SECURE_FLASH_SECTOR_SIZE L,
       block_size = (if i < 4 then bs else 0), num_blocks = (if i < 4 then ucast (cl_area_size cl div bs) else 0),
       program_unit = ETSS_FLASH_ALIGNMENT L,
       max_file_size = ucast (ETSS_UTILS_ALIGN (ETSS_MAX_ASSET_SIZE L) (ucast (ETSS_FLASH_ALIGNMENT L))),
       max_num_files = ETSS_NUM_ASSETS L + 1, erase_val = SECURE_FLASH_ERASED_VALUE L\<rparr>)"

text \<open>Clients from the fifth on are not configured (\<open>TODO\<close> in the source): their entries stay 0.\<close>

definition init_fs_cfg :: "sf_layout \<Rightarrow> ('h, 'v, 'q, etss_flash_fs_config_t list) etss_op" where
  "init_fs_cfg L =
     bindE (modifyS (\<lambda>s. s\<lparr>etss_fs_ctx_tbl := map (\<lambda>i.
       (if i < 4 then cl_client_id (SECURE_FLASH_CLIENTS L ! i) else fst (etss_fs_ctx_tbl s ! i), snd (etss_fs_ctx_tbl s ! i)))
       [0..<length (SECURE_FLASH_CLIENTS L)]\<rparr>)) (\<lambda>_.
     returnE (map (client_cfg L) [0..<length (SECURE_FLASH_CLIENTS L)]))"

definition etss_flash_fs_init_ctx_and_prepare :: "('h, 'v) sf_hal \<Rightarrow> nat \<Rightarrow> etss_flash_fs_config_t \<Rightarrow> ('h, 'v, 'q, unit) etss_op" where
  "etss_flash_fs_init_ctx_and_prepare hal i fs_cfg =
     bindE (orError (on_fs_at i (etss_flash_fs_init_ctx (Some fs_cfg) (Some (etss_secure_flash_fs_ops hal))))
       ETSS_ERR_STORAGE_FAILURE) (\<lambda>_.
     tryE (on_fs_at i etss_flash_fs_prepare) (\<lambda>r. case r of
       Inr _ \<Rightarrow> returnE ()
     | Inl _ \<Rightarrow>
         bindE (cast_status (on_fs_at i etss_flash_fs_wipe_all)) (\<lambda>_.
         orError (on_fs_at i etss_flash_fs_prepare) ETSS_ERR_STORAGE_FAILURE)))"

fun init_contexts :: "('h, 'v) sf_hal \<Rightarrow> (nat \<times> etss_flash_fs_config_t) list \<Rightarrow> ('h, 'v, 'q, unit) etss_op" where
  "init_contexts hal [] = returnE ()"
| "init_contexts hal ((i, cfg) # rest) =
     bindE (orError (etss_flash_fs_init_ctx_and_prepare hal i cfg) ETSS_ERR_STORAGE_FAILURE) (\<lambda>_.
     init_contexts hal rest)"

definition etss_init :: "('h, 'v) sf_hal \<Rightarrow> sf_layout \<Rightarrow> ('h, 'v, 'q, unit) etss_op" where
  "etss_init hal L =
     tryE (on_dev (secureflash_init hal)) (\<lambda>r. case r of
       Inl e \<Rightarrow> throwE (if e = SECUREFLASH_NO_RESULT then ETSS_ERR PSA_NO_RESULT
         else if e = SECUREFLASH_ERROR_GET_PROVISION_INFO \<or> e = SECUREFLASH_ERROR_SECURE_INIT then ETSS_ERR_SF_UNPROVISIONED
         else ETSS_ERR_SF_INIT)
     | Inr _ \<Rightarrow> withS (\<lambda>s. if security_storage (features s) then
           bindE (init_fs_cfg L) (\<lambda>cfgs. init_contexts hal (zip [0..<length cfgs] cfgs))
         else returnE ()))"

definition etss_secure_flash_provisioning :: "('h, 'v) sf_hal \<Rightarrow> buf \<Rightarrow> u32 \<Rightarrow> ('h, 'v, 'q, unit) etss_op" where
  "etss_secure_flash_provisioning hal prov_data data_length =
     tryE (on_dev (secureflash_provision hal prov_data data_length)) (\<lambda>r. case r of
       Inl e \<Rightarrow> throwE (if e = SECUREFLASH_NO_RESULT then ETSS_ERR PSA_NO_RESULT else ETSS_ERR_SF_PROVISION)
     | Inr _ \<Rightarrow> returnE ())"

section \<open>Operations on assets\<close>

definition ETSS_INVALID_UID :: u64 where "ETSS_INVALID_UID = 0"

definition PSA_STORAGE_FLAG_WRITE_ONCE :: u32 where "PSA_STORAGE_FLAG_WRITE_ONCE = 1"

definition PSA_STORAGE_FLAG_NO_CONFIDENTIALITY :: u32 where "PSA_STORAGE_FLAG_NO_CONFIDENTIALITY = 2"

definition PSA_STORAGE_FLAG_NO_REPLAY_PROTECTION :: u32 where "PSA_STORAGE_FLAG_NO_REPLAY_PROTECTION = 4"

text \<open>\<open>n\<close> bytes from the caller to the start of \<open>asset_data\<close>; a short read leaves the rest as it was.\<close>

definition fill_asset_data :: "buf \<Rightarrow> ('h, 'v, 'q, unit) etss_op" where
  "fill_asset_data bs = modifyS (\<lambda>s. s\<lparr>asset_data := bsplice 0 bs (asset_data s)\<rparr>)"

text \<open>
  \<^verbatim>\<open>do { ... } while (data_length > 0)\<close>. \<open>asz\<close> is \<^verbatim>\<open>sizeof(asset_data)\<close>; with an empty buffer the loop
  would not end.
\<close>

function etss_set_loop :: "'q psa_api \<Rightarrow> buf \<Rightarrow> u32 \<Rightarrow> u32 \<Rightarrow> u32 \<Rightarrow> u32 \<Rightarrow> ('h, 'v, 'q, unit) etss_op" where
  "etss_set_loop api fid asz flags offset data_length =
     (let write_size = ETSS_UTILS_MIN data_length asz in
      bindE (etss_req_mngr_read api write_size) (\<lambda>bs.
      bindE (fill_asset_data bs) (\<lambda>_.
      bindE (withS (\<lambda>s. cast_status (on_fs (etss_flash_fs_file_write fid flags data_length write_size offset (asset_data s))))) (\<lambda>_.
      if data_length - write_size = 0 then returnE ()
      else if asz = 0 then throwE (ETSS_ERR PSA_NO_RESULT)
      else etss_set_loop api fid asz (flags AND NOT (ETSS_FLASH_FS_FLAG_CREATE OR ETSS_FLASH_FS_FLAG_TRUNCATE))
             (offset + write_size) (data_length - write_size)))))"
  by pat_completeness auto

lemma min_decreases:
  fixes n k :: u32
  assumes "n - ETSS_UTILS_MIN n k \<noteq> 0" and "k \<noteq> 0"
  shows "unat (n - ETSS_UTILS_MIN n k) < unat n"
proof -
  have "k < n" using assms(1) by (auto simp: ETSS_UTILS_MIN_def split: if_splits)
  moreover have "0 < unat k" using assms(2) by (simp add: unat_gt_0)
  ultimately show ?thesis by (auto simp: ETSS_UTILS_MIN_def word_less_nat_alt unat_sub_u32)
qed

termination etss_set_loop
  by (relation "measure (\<lambda>(api, fid, asz, fl, off, n). unat n)") (auto intro: min_decreases)

declare etss_set_loop.simps [simp del]

definition etss_set :: "'q psa_api \<Rightarrow> int \<Rightarrow> u64 \<Rightarrow> u32 \<Rightarrow> u32 \<Rightarrow> ('h, 'v, 'q, unit) etss_op" where
  "etss_set api client_id uid data_length create_flags = withS (\<lambda>s.
     if \<not> security_storage (features s) then throwE ETSS_ERR_NOT_SUPPORTED
     else if uid = ETSS_INVALID_UID then throwE ETSS_ERR_INVALID_ARGUMENT
     else if create_flags AND NOT (PSA_STORAGE_FLAG_WRITE_ONCE OR PSA_STORAGE_FLAG_NO_CONFIDENTIALITY OR
            PSA_STORAGE_FLAG_NO_REPLAY_PROTECTION) \<noteq> 0 then throwE ETSS_ERR_NOT_SUPPORTED
     else
       (let fid = etss_get_fid client_id uid in
        bindE (select_client client_id) (\<lambda>_.
        bindE (tryE (on_fs (etss_flash_fs_file_get_info fid)) (\<lambda>r. case r of
            Inr info \<Rightarrow> if info_flags info AND PSA_STORAGE_FLAG_WRITE_ONCE \<noteq> 0 then throwE ETSS_ERR_NOT_PERMITTED
                        else returnE ()
          | Inl e \<Rightarrow> if e \<noteq> PSA_ERROR_DOES_NOT_EXIST then throwE (ETSS_ERR e) else returnE ())) (\<lambda>_.
        etss_set_loop api fid (of_nat (length (asset_data s)))
          (create_flags OR (ETSS_FLASH_FS_FLAG_CREATE OR ETSS_FLASH_FS_FLAG_TRUNCATE)) 0 data_length))))"

function etss_get_loop :: "'q psa_api \<Rightarrow> buf \<Rightarrow> u32 \<Rightarrow> u32 \<Rightarrow> u32 \<Rightarrow> ('h, 'v, 'q, unit) etss_op" where
  "etss_get_loop api fid asz data_offset data_size =
     (let read_size = ETSS_UTILS_MIN data_size asz in
      bindE (cast_status (on_fs (etss_flash_fs_file_read fid read_size data_offset))) (\<lambda>bs.
      bindE (fill_asset_data bs) (\<lambda>_.
      bindE (withS (\<lambda>s. etss_req_mngr_write api (take (unat read_size) (asset_data s)))) (\<lambda>_.
      if data_size - read_size = 0 then returnE ()
      else if asz = 0 then throwE (ETSS_ERR PSA_NO_RESULT)
      else etss_get_loop api fid asz (data_offset + read_size) (data_size - read_size)))))"
  by pat_completeness auto

termination etss_get_loop
  by (relation "measure (\<lambda>(api, fid, asz, off, n). unat n)") (auto intro: min_decreases)

declare etss_get_loop.simps [simp del]

text \<open>The result is \<open>*p_data_length\<close>.\<close>

definition etss_get :: "'q psa_api \<Rightarrow> int \<Rightarrow> u64 \<Rightarrow> u32 \<Rightarrow> u32 \<Rightarrow> ('h, 'v, 'q, u32) etss_op" where
  "etss_get api client_id uid data_offset data_size = withS (\<lambda>s.
     if \<not> security_storage (features s) then throwE ETSS_ERR_NOT_SUPPORTED
     else if uid = ETSS_INVALID_UID then throwE ETSS_ERR_INVALID_ARGUMENT
     else
       (let fid = etss_get_fid client_id uid in
        bindE (select_client client_id) (\<lambda>_.
        bindE (cast_status (on_fs (etss_flash_fs_file_get_info fid))) (\<lambda>info.
        if data_offset > size_current info then throwE ETSS_ERR_INVALID_ARGUMENT
        else
          (let len = ETSS_UTILS_MIN data_size (size_current info - data_offset) in
           bindE (etss_get_loop api fid (of_nat (length (asset_data s))) data_offset len) (\<lambda>_.
           returnE len))))))"

record psa_storage_info_t =
  capacity :: u32
  info_size :: u32
  psa_flags :: u32

definition etss_get_info :: "int \<Rightarrow> u64 \<Rightarrow> ('h, 'v, 'q, psa_storage_info_t) etss_op" where
  "etss_get_info client_id uid = withS (\<lambda>s.
     if \<not> security_storage (features s) then throwE ETSS_ERR_NOT_SUPPORTED
     else if uid = ETSS_INVALID_UID then throwE ETSS_ERR_INVALID_ARGUMENT
     else
       bindE (select_client client_id) (\<lambda>_.
       bindE (cast_status (on_fs (etss_flash_fs_file_get_info (etss_get_fid client_id uid)))) (\<lambda>info.
       returnE \<lparr>capacity = size_current info, info_size = size_current info, psa_flags = info_flags info\<rparr>)))"

definition etss_remove :: "int \<Rightarrow> u64 \<Rightarrow> ('h, 'v, 'q, unit) etss_op" where
  "etss_remove client_id uid = withS (\<lambda>s.
     if \<not> security_storage (features s) then throwE ETSS_ERR_NOT_SUPPORTED
     else if uid = ETSS_INVALID_UID then throwE ETSS_ERR_INVALID_ARGUMENT
     else
       (let fid = etss_get_fid client_id uid in
        bindE (select_client client_id) (\<lambda>_.
        bindE (cast_status (on_fs (etss_flash_fs_file_get_info fid))) (\<lambda>info.
        if info_flags info AND PSA_STORAGE_FLAG_WRITE_ONCE \<noteq> 0 then throwE ETSS_ERR_NOT_PERMITTED
        else cast_status (on_fs (etss_flash_fs_file_delete fid))))))"

section \<open>Other security features\<close>

text \<open>
  \<open>secureflash_get_puf\<close>, \<open>secureflash_get_trng\<close> and \<open>secureflash_get_mc\<close> write neither the buffer nor
  \<^verbatim>\<open>actual_size\<close>: what is sent are the bytes \<open>stack_bytes\<close> and the size \<open>stack_size\<close> found on the stack.
\<close>

definition etss_get_puf :: "'q psa_api \<Rightarrow> buf \<Rightarrow> u8 \<Rightarrow> u32 \<Rightarrow> ('h, 'v, 'q, u32) etss_op" where
  "etss_get_puf api stack_bytes stack_size buf_size = withS (\<lambda>s.
     if puf (features s) then
       bindE (orError (on_dev secureflash_get_puf) ETSS_ERR_STORAGE_FAILURE) (\<lambda>_.
       (let n = ETSS_UTILS_MIN buf_size (ucast stack_size) in
        bindE (etss_req_mngr_write api (take (unat n) stack_bytes)) (\<lambda>_. returnE n)))
     else throwE ETSS_ERR_NOT_SUPPORTED)"

text \<open>
  The first argument bounds the steps of \<^verbatim>\<open>while (buf_size > 0)\<close>: each step sends a byte or more, unless the
  size found on the stack is 0, and then the loop does not end.
\<close>

primrec random_loop :: "nat \<Rightarrow> 'q psa_api \<Rightarrow> buf \<Rightarrow> u8 \<Rightarrow> u32 \<Rightarrow> u32 \<Rightarrow> ('h, 'v, 'q, u32) etss_op" where
  "random_loop 0 api stack_bytes actual_size buf_size random_len = throwE (ETSS_ERR PSA_NO_RESULT)"
| "random_loop (Suc fuel) api stack_bytes actual_size buf_size random_len =
     (if buf_size = 0 then returnE random_len
      else
        bindE (orError (on_dev secureflash_get_trng) ETSS_ERR_STORAGE_FAILURE) (\<lambda>_.
        (let n = ucast (ETSS_UTILS_MIN buf_size (ucast actual_size)) :: u8 in
         bindE (etss_req_mngr_write api (take (unat n) stack_bytes)) (\<lambda>_.
         random_loop fuel api stack_bytes n (buf_size - ucast n) (random_len + ucast n)))))"

definition etss_generate_random_number :: "'q psa_api \<Rightarrow> buf \<Rightarrow> u8 \<Rightarrow> u32 \<Rightarrow> ('h, 'v, 'q, u32) etss_op" where
  "etss_generate_random_number api stack_bytes stack_size buf_size = withS (\<lambda>s.
     if rng (features s) then random_loop (unat buf_size + 1) api stack_bytes stack_size buf_size 0
     else throwE ETSS_ERR_NOT_SUPPORTED)"

definition etss_mc_increment :: "u8 \<Rightarrow> ('h, 'v, 'q, unit) etss_op" where
  "etss_mc_increment mc = withS (\<lambda>s.
     if rpmc (features s) then orError (on_dev secureflash_increase_mc) ETSS_ERR_STORAGE_FAILURE
     else throwE ETSS_ERR_NOT_SUPPORTED)"

definition etss_mc_get :: "'q psa_api \<Rightarrow> buf \<Rightarrow> u8 \<Rightarrow> u8 \<Rightarrow> u32 \<Rightarrow> ('h, 'v, 'q, unit) etss_op" where
  "etss_mc_get api stack_bytes stack_size mc sz = withS (\<lambda>s.
     if rpmc (features s) then
       bindE (orError (on_dev secureflash_get_mc) ETSS_ERR_STORAGE_FAILURE) (\<lambda>_.
       etss_req_mngr_write api (take (unat (ETSS_UTILS_MIN sz (ucast stack_size))) stack_bytes))
     else throwE ETSS_ERR_NOT_SUPPORTED)"

end
