(* ===== verification/Etss_Store.thy ===== *)
theory Etss_Store
  imports Etss_Service
begin

text \<open>
  What the operations of the storage service do for one client, over any device that keeps the
  contract \<open>secure_hal\<close> and any framework that keeps \<open>psa_vectors\<close>: the assets of the client are a map
  from uids to files, and set, get, get-info and remove act on it as on an abstract store.
\<close>

section \<open>File ids\<close>

lemma le64_nth: "i < 8 \<Longrightarrow> le64 w ! i = ucast (drop_bit (8 * i) w)"
  by (simp add: le64_def)

lemma length_le64 [simp]: "length (le64 w) = 8"
  by (simp add: le64_def)

lemma le64_inject [simp]: "le64 v = le64 w \<longleftrightarrow> v = w"
proof
  assume eq: "le64 v = le64 w"
  show "v = w"
  proof (rule bit_word_eqI)
    fix n assume "n < LENGTH(64)"
    then have n: "n div 8 < 8" "8 * (n div 8) + n mod 8 = n" "n mod 8 < 8" by simp_all
    have "bit (le64 v ! (n div 8)) (n mod 8) = bit (le64 w ! (n div 8)) (n mod 8)" using eq by simp
    then show "bit v n = bit w n"
      using n \<open>n < LENGTH(64)\<close> by (simp add: le64_nth bit_simps)
  qed
qed simp

lemma le32_inject [simp]: "le32 v = le32 w \<longleftrightarrow> v = w"
  using de32_le32 [of v "[]"] de32_le32 [of w "[]"] by (metis append_Nil2)

lemma length_fid [simp]: "length (etss_get_fid c uid) = 12"
  by (simp add: etss_get_fid_def)

lemma word_of_int32_inject:
  assumes "- (2 ^ 31) \<le> c" "c < 2 ^ 31" "- (2 ^ 31) \<le> c'" "c' < 2 ^ 31"
  shows "(word_of_int c :: u32) = word_of_int c' \<longleftrightarrow> c = c'"
proof -
  have "c = c'" if "c mod 2 ^ 32 = c' mod 2 ^ 32"
  proof (rule ccontr)
    assume "c \<noteq> c'"
    moreover have "2 ^ 32 dvd c - c'" using that by (simp add: mod_eq_dvd_iff)
    ultimately have "\<bar>2 ^ 32\<bar> \<le> \<bar>c - c'\<bar>" by (intro dvd_imp_le_int) simp_all
    then show False using assms by simp
  qed
  then show ?thesis by (auto simp: word_of_int_eq_iff take_bit_eq_mod)
qed

lemma fid_inject:
  assumes "- (2 ^ 31) \<le> c" "c < 2 ^ 31" "- (2 ^ 31) \<le> c'" "c' < 2 ^ 31"
  shows "etss_get_fid c uid = etss_get_fid c' uid' \<longleftrightarrow> c = c' \<and> uid = uid'"
  using word_of_int32_inject [OF assms] by (simp add: etss_get_fid_def)

lemma fid_valid: "uid \<noteq> 0 \<Longrightarrow> etss_utils_validate_fid (etss_get_fid c uid) = Inr ()"
proof -
  assume "uid \<noteq> 0"
  then have "le64 uid \<noteq> le64 0" by simp
  moreover have "le64 0 = replicate 8 0" by (simp add: le64_def map_replicate_const)
  ultimately have "etss_get_fid c uid \<noteq> replicate 4 0 @ replicate 8 0" by (auto simp: etss_get_fid_def)
  then show ?thesis by (subst validate_fid_Inr_iff) (simp_all flip: replicate_add)
qed

section \<open>The view of a client\<close>

lemma fs_of_ctx_of [simp]: "fs_of (ctx_of f) (flash f) = f"
  by (simp add: fs_of_def ctx_of_def)

lemma fs_of_simps [simp]: "ctx_cfg (fs_of c d) = ctx_cfg c" "flash (fs_of c d) = d" "(fs_of c d)\<lparr>flash := d'\<rparr> = fs_of c d'"
  by (simp_all add: fs_of_def)

lemma fs_of_upd [simp]: "fs_of (ctx_of f) d = f\<lparr>flash := d\<rparr>"
  by (simp add: fs_of_def ctx_of_def)

lemma ctx_of_fs_of [simp]: "ctx_of (fs_of c d) = c"
  by (cases c) (simp add: fs_of_def ctx_of_def)

lemma put_fs_simps [simp]:
  "secureflash (put_fs i f s) = flash f" "framework (put_fs i f s) = framework s" "asset_data (put_fs i f s) = asset_data s"
  "etss_msg (put_fs i f s) = etss_msg s" "fs_ctx_etss_ptr (put_fs i f s) = fs_ctx_etss_ptr s"
  "length (etss_fs_ctx_tbl (put_fs i f s)) = length (etss_fs_ctx_tbl s)"
  by (simp_all add: put_fs_def)

lemma client_fs_put [simp]: "i < length (etss_fs_ctx_tbl s) \<Longrightarrow> client_fs (put_fs i f s) i = f"
  by (simp add: client_fs_def put_fs_def)

lemma get_fs_ctx_put [simp]: "etss_get_fs_ctx (etss_fs_ctx_tbl (put_fs i f s)) cid = etss_get_fs_ctx (etss_fs_ctx_tbl s) cid"
proof -
  have "fst (etss_fs_ctx_tbl (put_fs i f s) ! j) = fst (etss_fs_ctx_tbl s ! j)" if "j < length (etss_fs_ctx_tbl s)" for j
    using that by (cases "i = j") (simp_all add: put_fs_def)
  then show ?thesis
    unfolding etss_get_fs_ctx_def put_fs_simps by (intro find_cong) auto
qed

lemma get_fs_ctx_Some: "etss_get_fs_ctx tbl cid = Some i \<Longrightarrow> i < length tbl \<and> fst (tbl ! i) = cid"
  by (auto simp: etss_get_fs_ctx_def find_Some_iff)

lemma wp_on_fs:
  assumes "fs_ctx_etss_ptr s = Some i" and "i < length (etss_fs_ctx_tbl s)"
  shows "wp (on_fs m) Q E s = wp m (\<lambda>a f. Q a (put_fs i f s)) (\<lambda>e f. E e (put_fs i f s)) (client_fs s i)"
  using assms by (simp add: on_fs_def on_fs_at_def wp_def withS_def split: prod.splits sum.splits)

lemma wp_cast_status [wp_rules]: "wp (cast_status m) Q E s = wp m Q (\<lambda>e. E (ETSS_ERR e)) s"
  by (simp add: cast_status_def wp_fun)

text \<open>The state in which an operation for client \<open>cid\<close> with slot \<open>i\<close> meets the file system.\<close>

definition entered :: "int \<Rightarrow> nat \<Rightarrow> ('h, 'v, 'q) etss_state \<Rightarrow> ('h, 'v, 'q) etss_state" where
  "entered cid i s = s\<lparr>secureflash := (secureflash s)\<lparr>secureflash_app_id := cid\<rparr>, fs_ctx_etss_ptr := Some i\<rparr>"

lemma entered_simps [simp]:
  "fs_ctx_etss_ptr (entered cid i s) = Some i" "etss_fs_ctx_tbl (entered cid i s) = etss_fs_ctx_tbl s"
  "framework (entered cid i s) = framework s" "asset_data (entered cid i s) = asset_data s" "etss_msg (entered cid i s) = etss_msg s"
  "flash_profile (secureflash (entered cid i s)) = flash_profile (secureflash s)"
  "secureflash (entered cid i s) = (secureflash s)\<lparr>secureflash_app_id := cid\<rparr>"
  by (simp_all add: entered_def)

lemma wp_select_client:
  assumes "etss_get_fs_ctx (etss_fs_ctx_tbl s) cid = Some i"
  shows "wp (select_client cid) Q E s = Q () (entered cid i s)"
  using assms by (simp add: select_client_def wp_cast_status on_dev_def wp_def etss_client_id_pass_on_def sem_defs cast_status_def entered_def)

section \<open>The abstract store\<close>

definition psa_info :: "afile \<Rightarrow> psa_storage_info_t" where
  "psa_info f = \<lparr>capacity = of_nat (length (af_data f)), info_size = of_nat (length (af_data f)), psa_flags = af_flags f\<rparr>"

definition write_once :: "afile \<Rightarrow> bool" where
  "write_once f \<longleftrightarrow> af_flags f AND PSA_STORAGE_FLAG_WRITE_ONCE \<noteq> 0"

text \<open>The asset that a set request of \<open>n\<close> bytes creates, and the errors of the file system for it.\<close>

definition set_afile :: "etss_flash_fs_config_t \<Rightarrow> u32 \<Rightarrow> u32 \<Rightarrow> buf \<Rightarrow> afile" where
  "set_afile C n fl D = \<lparr>af_flags = fl, af_max = ETSS_UTILS_ALIGN n (ucast (program_unit C)), af_data = D\<rparr>"

definition supported_flags :: "u32 \<Rightarrow> bool" where
  "supported_flags fl \<longleftrightarrow> fl AND NOT (PSA_STORAGE_FLAG_WRITE_ONCE OR PSA_STORAGE_FLAG_NO_CONFIDENTIALITY OR
     PSA_STORAGE_FLAG_NO_REPLAY_PROTECTION) = 0"

definition set_error :: "etss_flash_fs_config_t \<Rightarrow> u32 \<Rightarrow> etss_err_t \<Rightarrow> bool" where
  "set_error C n e \<longleftrightarrow>
     unat (max_file_size C) < unat (ETSS_UTILS_ALIGN n (ucast (program_unit C))) \<and> e = ETSS_ERR_INVALID_ARGUMENT \<or>
     e = ETSS_ERR PSA_ERROR_INSUFFICIENT_STORAGE"

text \<open>The buffer \<open>asset_data\<close> has room for \<open>n\<close> bytes rounded up to the program unit.\<close>

definition fits_buffer :: "etss_flash_fs_config_t \<Rightarrow> u32 \<Rightarrow> buf \<Rightarrow> bool" where
  "fits_buffer C n data \<longleftrightarrow> unat n \<le> unat (ETSS_UTILS_ALIGN n (ucast (program_unit C))) \<and>
     unat (ETSS_UTILS_ALIGN n (ucast (program_unit C))) \<le> length data"

lemma fid_upd: "(\<lambda>u. (m(etss_get_fid cid uid := x)) (etss_get_fid cid u)) = (\<lambda>u. m (etss_get_fid cid u))(uid := x)"
  by (auto simp: fun_eq_iff etss_get_fid_def)

lemma storage_flags:
  assumes "fl AND NOT (PSA_STORAGE_FLAG_WRITE_ONCE OR PSA_STORAGE_FLAG_NO_CONFIDENTIALITY OR PSA_STORAGE_FLAG_NO_REPLAY_PROTECTION) = 0"
  defines "g \<equiv> fl OR (ETSS_FLASH_FS_FLAG_CREATE OR ETSS_FLASH_FS_FLAG_TRUNCATE)"
  shows "g AND ETSS_FLASH_FS_INTERNAL_FLAGS_MASK = 0" "g AND ETSS_FLASH_FS_FLAG_TRUNCATE \<noteq> 0"
    "g AND ETSS_FLASH_FS_FLAG_CREATE \<noteq> 0" "g AND ETSS_FLASH_FS_USER_FLAGS_MASK = fl"
proof -
  have "fl AND NOT 7 = 0"
    using assms(1) by (simp add: PSA_STORAGE_FLAG_WRITE_ONCE_def PSA_STORAGE_FLAG_NO_CONFIDENTIALITY_def
        PSA_STORAGE_FLAG_NO_REPLAY_PROTECTION_def)
  then have "fl AND NOT (mask 3) = 0" by (simp add: mask_numeral)
  then have "unat fl - unat fl mod 8 = 0" using and_not_mask_unat [of fl 3] by simp
  then have lt: "unat fl < 8" using mod_less_divisor [of 8 "unat fl"] by linarith
  define n where "n = unat fl"
  have "n = 0 \<or> n = 1 \<or> n = 2 \<or> n = 3 \<or> n = 4 \<or> n = 5 \<or> n = 6 \<or> n = 7" using lt n_def by linarith
  moreover have "fl = of_nat n" by (simp add: n_def)
  ultimately have c: "fl = 0 \<or> fl = 1 \<or> fl = 2 \<or> fl = 3 \<or> fl = 4 \<or> fl = 5 \<or> fl = 6 \<or> fl = 7" by auto
  show "g AND ETSS_FLASH_FS_INTERNAL_FLAGS_MASK = 0" "g AND ETSS_FLASH_FS_FLAG_TRUNCATE \<noteq> 0"
    "g AND ETSS_FLASH_FS_FLAG_CREATE \<noteq> 0" "g AND ETSS_FLASH_FS_USER_FLAGS_MASK = fl"
    using c by (elim disjE; simp add: g_def ETSS_FLASH_FS_INTERNAL_FLAGS_MASK_def ETSS_FLASH_FS_FLAG_CREATE_def
        ETSS_FLASH_FS_FLAG_TRUNCATE_def ETSS_FLASH_FS_USER_FLAGS_MASK_def)+
qed

section \<open>The transfer buffer\<close>

abbreviation same_buffer :: "('h, 'v, 'q) etss_state \<Rightarrow> ('h, 'v, 'q) etss_state \<Rightarrow> bool" where
  "same_buffer s s' \<equiv> length (asset_data s') = length (asset_data s)"

lemma on_fs_frame:
  "(\<And>a v. asset_data v = asset_data u \<Longrightarrow> framework v = framework u \<Longrightarrow> Q a v) \<Longrightarrow>
   (\<And>e v. asset_data v = asset_data u \<Longrightarrow> framework v = framework u \<Longrightarrow> E e v) \<Longrightarrow> wp (on_fs m) Q E u"
  by (auto simp: wp_def on_fs_def withS_def on_fs_at_def throwE_def put_fs_def split: prod.splits sum.splits option.splits)

lemma get_info_frame:
  "wp (etss_get_info cid uid) (\<lambda>_ s'. same_buffer s s' \<and> framework s' = framework s) (\<lambda>_ s'. same_buffer s s' \<and> framework s' = framework s) s"
proof (cases "etss_get_fs_ctx (etss_fs_ctx_tbl s) cid")
  case None
  then show ?thesis by (simp add: etss_get_info_def select_client_def on_dev_def etss_client_id_pass_on_def wp_def sem_defs cast_status_def)
next
  case (Some i)
  show ?thesis by (auto simp: etss_get_info_def wp_select_client [OF Some] wp_cast_status intro!: on_fs_frame)
qed

lemma remove_frame:
  "wp (etss_remove cid uid) (\<lambda>_ s'. same_buffer s s' \<and> framework s' = framework s) (\<lambda>_ s'. same_buffer s s' \<and> framework s' = framework s) s"
proof (cases "etss_get_fs_ctx (etss_fs_ctx_tbl s) cid")
  case None
  then show ?thesis by (simp add: etss_remove_def select_client_def on_dev_def etss_client_id_pass_on_def wp_def sem_defs cast_status_def Let_def)
next
  case (Some i)
  show ?thesis by (auto simp: etss_remove_def Let_def wp_select_client [OF Some] wp_cast_status intro!: on_fs_frame)
qed

context secure_hal
begin

text \<open>Client \<open>cid\<close> has the area of \<open>C\<close> with its file system in slot \<open>i\<close>.\<close>

definition client_ok :: "int \<Rightarrow> nat \<Rightarrow> ('h, 'v, 'q) etss_state \<Rightarrow> bool" where
  "client_ok cid i s \<longleftrightarrow> etss_get_fs_ctx (etss_fs_ctx_tbl s) cid = Some i \<and> has_access hal C P A cid \<and>
     fs.at_rest (client_fs (entered cid i s) i)"

definition assets :: "int \<Rightarrow> nat \<Rightarrow> ('h, 'v, 'q) etss_state \<Rightarrow> u64 \<Rightarrow> afile option" where
  "assets cid i s uid = fs.fs_abs (client_fs (entered cid i s) i) (etss_get_fid cid uid)"

lemma ready_app [simp]: "ready (d\<lparr>secureflash_app_id := c\<rparr>) = ready d"
  by (simp add: ready_def)

lemma dmem_app [simp]: "dmem (d\<lparr>secureflash_app_id := c\<rparr>) = dmem d"
  by (simp add: dmem_def fun_eq_iff)

lemma at_rest_ddok: "fs.at_rest f \<Longrightarrow> ddok (flash f)"
proof -
  assume "fs.at_rest f"
  then have "fs.metas f" by (simp add: fs.at_rest_def fs.fs_inv_def fs.tabs_ok_def)
  then show ?thesis unfolding fs.metas_def fs.sok_def by blast
qed

lemma at_rest_ready: "fs.at_rest f \<Longrightarrow> ready (flash f)"
  using at_rest_ddok by (simp add: ddok_def)

lemma client_okD:
  assumes "client_ok cid i s"
  shows "etss_get_fs_ctx (etss_fs_ctx_tbl s) cid = Some i" "i < length (etss_fs_ctx_tbl s)" "ready (secureflash s)"
    "has_access hal C P A cid" "fs.at_rest (client_fs (entered cid i s) i)" "features s = security_feature P"
proof -
  show "etss_get_fs_ctx (etss_fs_ctx_tbl s) cid = Some i" "has_access hal C P A cid" "fs.at_rest (client_fs (entered cid i s) i)"
    using assms by (simp_all add: client_ok_def)
  then show "i < length (etss_fs_ctx_tbl s)" using get_fs_ctx_Some by blast
  show r: "ready (secureflash s)"
    using at_rest_ready [OF \<open>fs.at_rest (client_fs (entered cid i s) i)\<close>] by (simp add: client_fs_def)
  then show "features s = security_feature P" by (simp add: features_def ready_def)
qed

text \<open>Steps that keep the contexts and the content of the flash keep the assets.\<close>

lemma client_ok_same:
  assumes c: "client_ok cid i s" and g: "etss_get_fs_ctx (etss_fs_ctx_tbl s') cid = Some i"
    and t: "etss_fs_ctx_tbl s' ! i = etss_fs_ctx_tbl s ! i"
    and d: "ready (secureflash s')" "dmem (secureflash s') = dmem (secureflash s)"
  shows "client_ok cid i s'" "assets cid i s' = assets cid i s"
proof -
  let ?d = "(secureflash s')\<lparr>secureflash_app_id := cid\<rparr>"
  note cd = client_okD [OF c]
  have e: "client_fs (entered cid i s') i = (client_fs (entered cid i s) i)\<lparr>flash := ?d\<rparr>"
    using t by (simp add: client_fs_def)
  have "ddok ?d" using d(1) cd(4) by (simp add: ddok_def)
  moreover have "dmem ?d = dmem (flash (client_fs (entered cid i s) i))" using d(2) by (simp add: client_fs_def)
  ultimately have r: "fs.at_rest (client_fs (entered cid i s') i)"
    "fs.fs_abs (client_fs (entered cid i s') i) = fs.fs_abs (client_fs (entered cid i s) i)"
    using fs.at_rest_flash [OF cd(5)] e by simp_all
  show "client_ok cid i s'" using r(1) cd(4) g by (simp add: client_ok_def)
  show "assets cid i s' = assets cid i s" using r(2) by (simp add: assets_def fun_eq_iff)
qed

lemma client_ok_keep:
  assumes "client_ok cid i s" and "etss_fs_ctx_tbl s' = etss_fs_ctx_tbl s"
    and "ready (secureflash s')" "dmem (secureflash s') = dmem (secureflash s)"
  shows "client_ok cid i s'" "assets cid i s' = assets cid i s"
  by (rule client_ok_same [OF assms(1)]; use assms(2-4) client_okD(1) [OF assms(1)] in simp)+

text \<open>A step of the file system in slot \<open>i\<close>.\<close>

lemma client_ok_new:
  assumes g: "etss_get_fs_ctx (etss_fs_ctx_tbl s') cid = Some i" and a: "has_access hal C P A cid" and f: "fs.at_rest f"
    and t: "snd (etss_fs_ctx_tbl s' ! i) = ctx_of f" "secureflash s' = flash f"
  shows "client_ok cid i s'" "assets cid i s' = (\<lambda>uid. fs.fs_abs f (etss_get_fid cid uid))"
proof -
  let ?d = "(flash f)\<lparr>secureflash_app_id := cid\<rparr>"
  have e: "client_fs (entered cid i s') i = f\<lparr>flash := ?d\<rparr>" using t by (simp add: client_fs_def)
  have "ddok ?d" using at_rest_ready [OF f] a by (simp add: ddok_def)
  then have r: "fs.at_rest (client_fs (entered cid i s') i)" "fs.fs_abs (client_fs (entered cid i s') i) = fs.fs_abs f"
    using fs.at_rest_flash [OF f, of ?d] e by simp_all
  show "client_ok cid i s'" using r(1) g a by (simp add: client_ok_def)
  show "assets cid i s' = (\<lambda>uid. fs.fs_abs f (etss_get_fid cid uid))" using r(2) by (simp add: assets_def fun_eq_iff)
qed

lemma client_ok_put:
  assumes c: "client_ok cid i s" and f: "fs.at_rest f"
    and t: "etss_fs_ctx_tbl s' = etss_fs_ctx_tbl (put_fs i f s)" "secureflash s' = flash f"
  shows "client_ok cid i s'" "assets cid i s' = (\<lambda>uid. fs.fs_abs f (etss_get_fid cid uid))"
proof -
  note cd = client_okD [OF c]
  have "etss_get_fs_ctx (etss_fs_ctx_tbl s') cid = Some i" "snd (etss_fs_ctx_tbl s' ! i) = ctx_of f"
    using t(1) cd(1,2) by (simp, simp add: put_fs_def)
  from client_ok_new [OF this(1) cd(4) f this(2) t(2)]
  show "client_ok cid i s'" "assets cid i s' = (\<lambda>uid. fs.fs_abs f (etss_get_fid cid uid))" .
qed

text \<open>The state during an operation for client \<open>cid\<close>.\<close>

definition in_call :: "int \<Rightarrow> nat \<Rightarrow> ('h, 'v, 'q) etss_state \<Rightarrow> bool" where
  "in_call cid i s \<longleftrightarrow> client_ok cid i s \<and> fs_ctx_etss_ptr s = Some i \<and> ddok (secureflash s)"

lemma in_callD:
  assumes "in_call cid i s"
  shows "client_ok cid i s" "fs_ctx_etss_ptr s = Some i" "ddok (secureflash s)" "i < length (etss_fs_ctx_tbl s)"
    "fs.at_rest (client_fs s i)" "fs.fs_abs (client_fs s i) (etss_get_fid cid uid) = assets cid i s uid"
proof -
  show c: "client_ok cid i s" "fs_ctx_etss_ptr s = Some i" "ddok (secureflash s)" using assms by (simp_all add: in_call_def)
  show "i < length (etss_fs_ctx_tbl s)" by (rule client_okD(2) [OF c(1)])
  have e: "client_fs s i = (client_fs (entered cid i s) i)\<lparr>flash := secureflash s\<rparr>" by (simp add: client_fs_def)
  show "fs.at_rest (client_fs s i)" "fs.fs_abs (client_fs s i) (etss_get_fid cid uid) = assets cid i s uid"
    using fs.at_rest_flash [OF client_okD(5) [OF c(1)] c(3)] by (simp_all add: e assets_def client_fs_def)
qed

lemma in_call_keep:
  assumes "in_call cid i s" and "etss_fs_ctx_tbl s' = etss_fs_ctx_tbl s" "fs_ctx_etss_ptr s' = fs_ctx_etss_ptr s"
    and "ddok (secureflash s')" "dmem (secureflash s') = dmem (secureflash s)"
  shows "in_call cid i s'" "assets cid i s' = assets cid i s"
  using assms client_ok_keep [of cid i s s'] by (auto simp: in_call_def ddok_def)

lemma in_call_entered:
  assumes c: "client_ok cid i s"
  shows "in_call cid i (entered cid i s)" "assets cid i (entered cid i s) = assets cid i s"
  using client_ok_keep [OF c, of "entered cid i s"] client_okD(3,4) [OF c] by (simp_all add: in_call_def ddok_def)

text \<open>Calls that only read, and calls that leave the file system \<open>g\<close> behind.\<close>

lemma on_fs_reads:
  assumes c: "in_call cid i s" and r: "fs.reads m (client_fs s i) r"
    and Q: "\<And>a s'. r = Inr a \<Longrightarrow> in_call cid i s' \<Longrightarrow> assets cid i s' = assets cid i s \<Longrightarrow> asset_data s' = asset_data s \<Longrightarrow>
      framework s' = framework s \<Longrightarrow> etss_msg s' = etss_msg s \<Longrightarrow>
      fs.no_room (client_fs s' i) = fs.no_room (client_fs s i) \<Longrightarrow> Q a s'"
    and E: "\<And>e s'. r = Inl e \<or> \<not> rel \<Longrightarrow> in_call cid i s' \<Longrightarrow> assets cid i s' = assets cid i s \<Longrightarrow> framework s' = framework s \<Longrightarrow>
      asset_data s' = asset_data s \<Longrightarrow> etss_msg s' = etss_msg s \<Longrightarrow>
      fs.no_room (client_fs s' i) = fs.no_room (client_fs s i) \<Longrightarrow> E e s'"
  shows "wp (on_fs m) Q E s"
proof -
  note cd = in_callD [OF c]
  have u: "put_fs i ((client_fs s i)\<lparr>flash := d\<rparr>) s = s\<lparr>secureflash := d\<rparr>" for d
    using cd(4) by (simp add: put_fs_def client_fs_def)
  have k: "in_call cid i (s\<lparr>secureflash := d\<rparr>)" "assets cid i (s\<lparr>secureflash := d\<rparr>) = assets cid i s"
    if "ddok d" "dmem d = dmem (secureflash s)" for d
    using in_call_keep [OF c, of "s\<lparr>secureflash := d\<rparr>"] that by simp_all
  have n: "fs.no_room (client_fs (s\<lparr>secureflash := d\<rparr>) i) = fs.no_room (client_fs s i)" if "dmem d = dmem (secureflash s)" for d
    using that by (intro ext) (simp add: fs.no_room_def fs.free_entries_def client_fs_def fs_of_def)
  show ?thesis
    unfolding wp_on_fs [OF cd(2,4)]
  proof (rule fs.reads_wp [OF r])
    fix a d assume "r = Inr a" "ddok d" "dmem d = dmem (flash (client_fs s i))"
    then have d: "r = Inr a" "ddok d" "dmem d = dmem (secureflash s)" by (simp_all add: client_fs_def)
    show "Q a (put_fs i ((client_fs s i)\<lparr>flash := d\<rparr>) s)"
      unfolding u by (rule Q [OF d(1) k [OF d(2,3)] _ _ _ n [OF d(3)]]) simp_all
  next
    fix e d assume "r = Inl e \<or> \<not> rel" "ddok d" "dmem d = dmem (flash (client_fs s i))"
    then have d: "r = Inl e \<or> \<not> rel" "ddok d" "dmem d = dmem (secureflash s)" by (simp_all add: client_fs_def)
    show "E e (put_fs i ((client_fs s i)\<lparr>flash := d\<rparr>) s)"
      unfolding u by (rule E [OF d(1) k [OF d(2,3)] _ _ _ n [OF d(3)]]) simp_all
  qed
qed

section \<open>Information and removal\<close>

lemma info_reads:
  assumes "in_call cid i s" and "uid \<noteq> 0"
  shows "fs.reads (etss_flash_fs_file_get_info (etss_get_fid cid uid)) (client_fs s i)
    (case assets cid i s uid of None \<Rightarrow> Inl PSA_ERROR_DOES_NOT_EXIST | Some f \<Rightarrow> Inr (ainfo f))"
  using fs.get_info_rest [OF in_callD(5) [OF assms(1)] fid_valid [OF assms(2)], of cid] in_callD(6) [OF assms(1)] by simp

lemma get_info_wp:
  assumes c: "client_ok cid i s" and st: "security_storage (security_feature P)" and uid: "uid \<noteq> 0"
  shows "wp (etss_get_info cid uid)
    (\<lambda>info s'. client_ok cid i s' \<and> assets cid i s' = assets cid i s \<and> map_option psa_info (assets cid i s uid) = Some info)
    (\<lambda>e s'. client_ok cid i s' \<and> assets cid i s' = assets cid i s \<and>
       (assets cid i s uid = None \<and> e = ETSS_ERR_DOES_NOT_EXIST \<or> \<not> rel)) s"
proof -
  note cd = client_okD [OF c] and ie = in_call_entered [OF c]
  show ?thesis
    unfolding etss_get_info_def wp_withS
    using st uid cd(6) ie(2)
    by (auto simp: ETSS_INVALID_UID_def wp_select_client [OF cd(1)] wp_cast_status psa_info_def ainfo_def dest: in_callD(1)
        split: option.splits intro!: on_fs_reads [OF ie(1) info_reads [OF ie(1) uid]])
qed

text \<open>The assets that the next start-up finds, also after an operation that failed on the way.\<close>

definition recorded :: "int \<Rightarrow> nat \<Rightarrow> ('h, 'v, 'q) etss_state \<Rightarrow> u64 \<Rightarrow> afile option" where
  "recorded cid i s uid = fs.fs_rec (client_fs (entered cid i s) i) (etss_get_fid cid uid)"

text \<open>
  What a set request leaves behind that is refused for want of storage: the device is ready, start-up finds
  the old files, and, unless the request was to replace an asset of another size, the client is served as
  before.
\<close>

definition refused :: "int \<Rightarrow> nat \<Rightarrow> (u64 \<Rightarrow> afile option) \<Rightarrow> u64 \<Rightarrow> u32 \<Rightarrow> ('h, 'v, 'q) etss_state \<Rightarrow> bool" where
  "refused cid i X uid n s' \<longleftrightarrow> ready (secureflash s') \<and>
     (\<exists>F. fs.found (dmem (secureflash s')) F \<and> (\<lambda>v. F (etss_get_fid cid v)) = X) \<and>
     ((\<forall>f. X uid = Some f \<longrightarrow> af_max f = ETSS_UTILS_ALIGN n (ucast (program_unit C))) \<longrightarrow>
       client_ok cid i s' \<and> assets cid i s' = X)"

text \<open>There is no room for an asset of \<open>n\<close> bytes: no block has the space, or no file entry is free.\<close>

definition out_of_room :: "int \<Rightarrow> nat \<Rightarrow> ('h, 'v, 'q) etss_state \<Rightarrow> u64 \<Rightarrow> u32 \<Rightarrow> bool" where
  "out_of_room cid i s uid n \<longleftrightarrow> (let m = ETSS_UTILS_ALIGN n (ucast (program_unit C)) in
     fs.no_room (client_fs s i) m (\<exists>f. assets cid i s uid = Some f \<and> af_max f \<noteq> m))"

lemma recorded_rest: "client_ok cid i s \<Longrightarrow> recorded cid i s = assets cid i s"
  using client_okD(5) [of cid i s] by (simp add: recorded_def assets_def fun_eq_iff fs.fs_rec_rest)

lemma recorded_put:
  assumes "i < length (etss_fs_ctx_tbl s)" and "etss_fs_ctx_tbl s' = etss_fs_ctx_tbl (put_fs i f s)" "secureflash s' = flash f"
  shows "recorded cid i s' = (\<lambda>uid. fs.fs_rec f (etss_get_fid cid uid))"
proof -
  have "client_fs (entered cid i s') i = f\<lparr>flash := (flash f)\<lparr>secureflash_app_id := cid\<rparr>\<rparr>"
    using assms by (simp add: client_fs_def put_fs_def)
  then show ?thesis by (simp add: recorded_def fun_eq_iff fs.fs_rec_def)
qed

lemma assets_eq: "assets cid i s = (\<lambda>uid. fs.fs_abs (client_fs (entered cid i s) i) (etss_get_fid cid uid))"
  by (simp add: fun_eq_iff assets_def)

lemma remove_wp:
  assumes c: "client_ok cid i s" and st: "security_storage (security_feature P)" and uid: "uid \<noteq> 0"
    and nz: "\<And>f. assets cid i s uid = Some f \<Longrightarrow> af_max f \<noteq> 0"
  shows "wp (etss_remove cid uid)
    (\<lambda>_ s'. client_ok cid i s' \<and> (\<exists>f. assets cid i s uid = Some f \<and> \<not> write_once f) \<and>
       assets cid i s' = (assets cid i s)(uid := None))
    (\<lambda>e s'. ready (secureflash s') \<and> (recorded cid i s' = assets cid i s \<and> (rel \<longrightarrow> client_ok cid i s' \<and>
         (assets cid i s uid = None \<and> e = ETSS_ERR_DOES_NOT_EXIST \<or>
          (\<exists>f. assets cid i s uid = Some f \<and> write_once f) \<and> e = ETSS_ERR_NOT_PERMITTED)) \<or>
       \<not> rel \<and> recorded cid i s' = (assets cid i s)(uid := None))) s" (is "wp _ ?Q ?E s")
proof -
  note cd = client_okD [OF c] and ie = in_call_entered [OF c]
  have del: "wp (on_fs (etss_flash_fs_file_delete (etss_get_fid cid uid))) ?Q (\<lambda>e. ?E (ETSS_ERR e)) u"
    if u: "in_call cid i u" "assets cid i u = assets cid i s" and f: "assets cid i s uid = Some f" "\<not> write_once f" for f u
  proof -
    note ud = in_callD [OF u(1)]
    let ?F = "fs.fs_abs (client_fs u i)"
    have ab: "(\<lambda>v. ?F (etss_get_fid cid v)) = assets cid i s" using ud(6) u(2) by (simp add: fun_eq_iff)
    have nz': "af_max f' \<noteq> 0" if "?F (etss_get_fid cid uid) = Some f'" for f' using nz that ud(6) u(2) by simp
    show ?thesis
      unfolding wp_on_fs [OF ud(2,4)]
    proof (rule wp_mono [OF fs.file_delete_wp [OF ud(5) fid_valid [OF uid] nz']], goal_cases)
      case (2 a g)
      then have g: "fs.at_rest g" "fs.fs_abs g = ?F(etss_get_fid cid uid := None)" by simp_all
      note cp = client_ok_put [OF ud(1) g(1) refl put_fs_simps(1)]
      have "assets cid i (put_fs i g u) = (assets cid i s)(uid := None)" using cp(2) unfolding g(2) fid_upd ab .
      then show ?case using f cp(1) by simp
    next
      case (3 e g)
      have q: "recorded cid i (put_fs i g u) = (\<lambda>v. fs.fs_rec g (etss_get_fid cid v))"
        by (rule recorded_put [OF ud(4)]) simp_all
      have n: "?F (etss_get_fid cid uid) = Some f" using f(1) ud(6) u(2) by simp
      have nr: "\<not> rel" using 3 n by auto
      have rd: "ready (secureflash (put_fs i g u))" using 3 fs.sokD(3) [of g] by (simp add: ddok_def)
      from 3 show ?case
      proof (elim disjE conjE)
        assume "fs.fs_rec g = ?F"
        then show ?thesis using nr rd unfolding q ab [symmetric] by simp
      next
        assume g: "fs.fs_rec g = ?F(etss_get_fid cid uid := None)"
        show ?thesis using nr rd unfolding q g fid_upd ab by simp
      qed
    qed
  qed
  have "wp (on_fs (etss_flash_fs_file_get_info (etss_get_fid cid uid)))
      (\<lambda>info. wp (if info_flags info AND PSA_STORAGE_FLAG_WRITE_ONCE \<noteq> 0 then throwE ETSS_ERR_NOT_PERMITTED
         else cast_status (on_fs (etss_flash_fs_file_delete (etss_get_fid cid uid)))) ?Q ?E) (\<lambda>e. ?E (ETSS_ERR e)) (entered cid i s)"
  proof (rule on_fs_reads [OF ie(1) info_reads [OF ie(1) uid]], goal_cases)
    case (1 info u)
    then obtain f where f: "assets cid i s uid = Some f" "info = ainfo f" using ie(2) by (auto split: option.splits)
    have a: "assets cid i u = assets cid i s" using 1 ie(2) by simp
    show ?case
      using del [OF 1(2) a f(1)] f recorded_rest [OF in_callD(1) [OF 1(2)]] in_callD(1) [OF 1(2)] a client_okD(3) [OF in_callD(1) [OF 1(2)]]
      by (simp add: wp_cast_status ainfo_def write_once_def)
  next
    case (2 e u)
    have r: "recorded cid i u = assets cid i s" using recorded_rest [OF in_callD(1) [OF 2(2)]] 2(3) ie(2) by simp
    show ?case
      using 2(1) r in_callD(1) [OF 2(2)] client_okD(3) [OF in_callD(1) [OF 2(2)]] ie(2) by (auto split: option.splits)
  qed
  then show ?thesis
    unfolding etss_remove_def wp_withS
    using st uid cd(6) by (simp add: ETSS_INVALID_UID_def wp_select_client [OF cd(1)] wp_cast_status Let_def)
qed

lemma asset_len:
  assumes c: "in_call cid i s" and uid: "uid \<noteq> 0" and f: "assets cid i s uid = Some f"
  shows "length (af_data f) < 4294967296"
proof -
  have a: "fs.fs_abs (client_fs s i) (etss_get_fid cid uid) = Some f" using in_callD(6) [OF c] f by simp
  show ?thesis
  proof (cases rule: fs.at_rest_cases [OF in_callD(5) [OF c] fid_valid [OF uid], of cid, case_names found none])
    case (found k)
    then show ?thesis using a unat_u32_less by (auto simp: afile_of_def)
  qed (use a in simp)
qed

lemma read_reads:
  assumes "in_call cid i s" and "uid \<noteq> 0"
  shows "fs.reads (etss_flash_fs_file_read (etss_get_fid cid uid) len off) (client_fs s i) (aread (assets cid i s uid) len off)"
  using fs.read_rest [OF in_callD(5) [OF assms(1)] fid_valid [OF assms(2)], of cid len off] in_callD(6) [OF assms(1)] by simp

end

section \<open>Reading and writing assets\<close>

locale etss_client = secure_hal hal C P A V store hok hpre sess rel + psa_vectors api invec outvec room
  for hal :: "('h, 'v) sf_hal" and C P A V store hok hpre sess rel
    and api :: "'q psa_api" and invec outvec room
begin

lemma get_loop_wp:
  assumes "in_call cid i s" and uid: "uid \<noteq> 0" and "assets cid i s uid = Some f"
    and "unat off + unat n \<le> length (af_data f)" and "length (asset_data s) = unat asz" and "asz = 0 \<longrightarrow> n = 0"
    and "length (outvec (framework s) 0) + unat n \<le> room (framework s) 0"
  shows "wp (etss_get_loop api (etss_get_fid cid uid) asz off n)
    (\<lambda>_ s'. in_call cid i s' \<and> length (asset_data s') = unat asz \<and> assets cid i s' = assets cid i s \<and>
       outvec (framework s') 0 = outvec (framework s) 0 @ bslice (unat off) (unat n) (af_data f))
    (\<lambda>_ s'. \<not> rel \<and> in_call cid i s' \<and> length (asset_data s') = unat asz \<and> assets cid i s' = assets cid i s) s"
  using assms(1,3-)
proof (induction n arbitrary: off s rule: measure_induct_rule [of unat])
  case (less n)
  let ?k = "ETSS_UTILS_MIN n asz"
  have k: "unat ?k = min (unat n) (unat asz)" by (rule ETSS_UTILS_MIN_eq)
  have len: "length (af_data f) < 4294967296" by (rule asset_len [OF less.prems(1) uid less.prems(2)])
  have r: "aread (assets cid i s uid) ?k off = Inr (bslice (unat off) (unat ?k) (af_data f))"
    using less.prems(2,3) k by (simp add: aread_def)
  show ?case
    unfolding etss_get_loop.simps [of api _ asz off n] Let_def wp_bindE wp_cast_status
  proof (rule on_fs_reads [OF less.prems(1) read_reads [OF less.prems(1) uid]], goal_cases)
    case (1 bs u)
    then have bs: "bs = bslice (unat off) (unat ?k) (af_data f)" using r by simp
    have bl: "length bs = unat ?k" using bs less.prems(3) k by (simp add: length_bslice)
    let ?q = "psa_write api (msg_handle (etss_msg u)) 0 bs (framework u)"
    let ?v = "u\<lparr>asset_data := bsplice 0 bs (asset_data u), framework := ?q\<rparr>"
    have q: "outvec ?q = (outvec (framework s))(0 := outvec (framework s) 0 @ bs) \<and> invec ?q = invec (framework s) \<and> room ?q = room (framework s)"
      using write_law [of "framework u" 0 bs] 1(5) less.prems(6) bl k by simp
    have tk: "take (unat ?k) (bsplice 0 bs (asset_data u)) = bs" using bl by (simp add: bsplice_def)
    have iv: "in_call cid i ?v" "assets cid i ?v = assets cid i s"
      using in_call_keep [OF 1(2), of ?v] 1(3) in_callD(3) [OF 1(2)] by simp_all
    have al: "length (asset_data ?v) = unat asz" using 1(4) less.prems(4) bl k by simp
    have w: "wp (fill_asset_data bs) (\<lambda>_. wp (withS (\<lambda>s. etss_req_mngr_write api (take (unat ?k) (asset_data s)))) Q E) E u = Q () ?v"
      for Q and E :: "etss_err_t \<Rightarrow> _"
      using tk by (simp add: fill_asset_data_def etss_req_mngr_write_def)
    show ?case
      unfolding wp_bindE w
    proof (cases "n - ?k = 0")
      case True
      then have "unat ?k = unat n" by (simp add: right_minus_eq)
      then show "wp (if n - ?k = 0 then returnE () else if asz = 0 then throwE (ETSS_ERR PSA_NO_RESULT)
          else etss_get_loop api (etss_get_fid cid uid) asz (off + ?k) (n - ?k))
        (\<lambda>_ s'. in_call cid i s' \<and> length (asset_data s') = unat asz \<and> assets cid i s' = assets cid i s \<and>
           outvec (framework s') 0 = outvec (framework s) 0 @ bslice (unat off) (unat n) (af_data f))
        (\<lambda>_ s'. \<not> rel \<and> in_call cid i s' \<and> length (asset_data s') = unat asz \<and> assets cid i s' = assets cid i s) ?v"
        using iv q bs True al by simp
    next
      case False
      then have a0: "asz \<noteq> 0" using less.prems(5) by (auto simp: ETSS_UTILS_MIN_def)
      have lt: "unat (n - ?k) < unat n" by (rule min_decreases [OF False a0])
      have nk: "unat (n - ?k) = unat n - unat ?k" using k by (intro unat_sub_u32) simp
      have ok: "unat (off + ?k) = unat off + unat ?k" using less.prems(3) len k by (intro unat_add_u32) simp
      have "wp (etss_get_loop api (etss_get_fid cid uid) asz (off + ?k) (n - ?k))
        (\<lambda>_ s'. in_call cid i s' \<and> length (asset_data s') = unat asz \<and> assets cid i s' = assets cid i ?v \<and>
           outvec (framework s') 0 = outvec (framework ?v) 0 @ bslice (unat (off + ?k)) (unat (n - ?k)) (af_data f))
        (\<lambda>_ s'. \<not> rel \<and> in_call cid i s' \<and> length (asset_data s') = unat asz \<and> assets cid i s' = assets cid i ?v) ?v"
        by (rule less.IH [OF lt iv(1)]) (use iv(2) less.prems(2,3,6) a0 al ok nk k q bl in simp_all)
      moreover have "bslice (unat off) (unat n) (af_data f) = bs @ bslice (unat (off + ?k)) (unat (n - ?k)) (af_data f)"
        unfolding bs ok nk using bslice_append_adjacent [of "unat off" "unat ?k" "unat n - unat ?k" "af_data f"] less.prems(3) k by simp
      ultimately show "wp (if n - ?k = 0 then returnE () else if asz = 0 then throwE (ETSS_ERR PSA_NO_RESULT)
          else etss_get_loop api (etss_get_fid cid uid) asz (off + ?k) (n - ?k))
        (\<lambda>_ s'. in_call cid i s' \<and> length (asset_data s') = unat asz \<and> assets cid i s' = assets cid i s \<and>
           outvec (framework s') 0 = outvec (framework s) 0 @ bslice (unat off) (unat n) (af_data f))
        (\<lambda>_ s'. \<not> rel \<and> in_call cid i s' \<and> length (asset_data s') = unat asz \<and> assets cid i s' = assets cid i s) ?v"
        using False a0 iv(2) q by (simp del: bslice_bslice)
    qed
  next
    case (2 e u)
    then show ?case using r less.prems(4) by auto
  qed
qed

lemma get_wp:
  assumes c: "client_ok cid i s" and st: "security_storage (security_feature P)" and uid: "uid \<noteq> 0"
    and ad: "0 < length (asset_data s)" "length (asset_data s) < 4294967296"
    and rm: "length (outvec (framework s) 0) + unat sz \<le> room (framework s) 0"
  shows "wp (etss_get api cid uid off sz)
    (\<lambda>len s'. client_ok cid i s' \<and> length (asset_data s') = length (asset_data s) \<and> assets cid i s' = assets cid i s \<and>
       (\<exists>f. assets cid i s uid = Some f \<and> unat off \<le> length (af_data f) \<and> unat len = min (unat sz) (length (af_data f) - unat off) \<and>
         outvec (framework s') 0 = outvec (framework s) 0 @ bslice (unat off) (unat len) (af_data f)))
    (\<lambda>e s'. client_ok cid i s' \<and> length (asset_data s') = length (asset_data s) \<and> assets cid i s' = assets cid i s \<and> (rel \<longrightarrow> framework s' = framework s \<and>
       (assets cid i s uid = None \<and> e = ETSS_ERR_DOES_NOT_EXIST \<or>
        (\<exists>f. assets cid i s uid = Some f \<and> length (af_data f) < unat off) \<and> e = ETSS_ERR_INVALID_ARGUMENT))) s" (is "wp _ ?Q ?E s")
proof -
  note cd = client_okD [OF c] and ie = in_call_entered [OF c]
  let ?asz = "of_nat (length (asset_data s)) :: u32"
  have az: "unat ?asz = length (asset_data s)" by (rule unat_of_nat_u32 [OF ad(2)])
  have "wp (on_fs (etss_flash_fs_file_get_info (etss_get_fid cid uid)))
      (\<lambda>info. wp (if off > size_current info then throwE ETSS_ERR_INVALID_ARGUMENT
         else let len = ETSS_UTILS_MIN sz (size_current info - off) in
           bindE (etss_get_loop api (etss_get_fid cid uid) ?asz off len) (\<lambda>_. returnE len)) ?Q ?E)
      (\<lambda>e. ?E (ETSS_ERR e)) (entered cid i s)"
  proof (rule on_fs_reads [OF ie(1) info_reads [OF ie(1) uid]], goal_cases)
    case (1 info u)
    then obtain f where f: "assets cid i s uid = Some f" "info = ainfo f" using ie(2) by (auto split: option.splits)
    have a: "assets cid i u = assets cid i s" using 1 ie(2) by simp
    have fw: "framework u = framework s" using 1 by simp
    have cu: "unat (size_current info) = length (af_data f)"
      using asset_len [OF ie(1) uid] f ie(2) by (simp add: ainfo_def unat_of_nat_u32)
    show ?case
    proof (cases "off > size_current info")
      case True
      then show ?thesis using f(1) a fw in_callD(1) [OF 1(2)] cu 1(4) by (auto simp: word_less_nat_alt)
    next
      case False
      let ?n = "ETSS_UTILS_MIN sz (size_current info - off)"
      have le: "unat off \<le> length (af_data f)" using False cu by (simp add: word_less_nat_alt)
      have n: "unat ?n = min (unat sz) (length (af_data f) - unat off)"
        using le cu by (simp add: ETSS_UTILS_MIN_eq unat_sub_u32)
      have "wp (etss_get_loop api (etss_get_fid cid uid) ?asz off ?n)
        (\<lambda>_ s'. in_call cid i s' \<and> length (asset_data s') = unat ?asz \<and> assets cid i s' = assets cid i u \<and>
           outvec (framework s') 0 = outvec (framework u) 0 @ bslice (unat off) (unat ?n) (af_data f))
        (\<lambda>_ s'. \<not> rel \<and> in_call cid i s' \<and> length (asset_data s') = unat ?asz \<and> assets cid i s' = assets cid i u) u"
        by (rule get_loop_wp [OF 1(2) uid]) (use f(1) a le n az ad(1) 1(4) fw rm in auto)
      then have "wp (etss_get_loop api (etss_get_fid cid uid) ?asz off ?n) (\<lambda>_. ?Q ?n) ?E u"
        by (rule wp_mono) (use a fw f(1) le n az in \<open>auto dest: in_callD(1)\<close>)
      then show ?thesis using False by (simp add: Let_def wp_fun)
    qed
  next
    case (2 e u)
    then show ?case using ie(2) by (auto dest: in_callD(1) split: option.splits)
  qed
  then show ?thesis
    unfolding etss_get_def wp_withS
    using st uid cd(6) by (simp add: ETSS_INVALID_UID_def wp_select_client [OF cd(1)] wp_cast_status Let_def)
qed

lemma wp_req_read:
  "psa_read api (msg_handle (etss_msg s)) 1 n (framework s) = (bs, q) \<Longrightarrow>
   wp (etss_req_mngr_read api n) Q E s = Q bs (s\<lparr>framework := q\<rparr>)"
  by (simp add: etss_req_mngr_read_def wp_def)

lemma set_loop_buffer:
  "length (asset_data u) = unat asz \<Longrightarrow>
   wp (etss_set_loop api fid asz fl off n) (\<lambda>_ s'. length (asset_data s') = unat asz) (\<lambda>_ s'. length (asset_data s') = unat asz) u"
proof (induction n arbitrary: fl off u rule: measure_induct_rule [of unat])
  case (less n)
  let ?k = "ETSS_UTILS_MIN n asz"
  obtain bs q where rd: "psa_read api (msg_handle (etss_msg u)) 1 ?k (framework u) = (bs, q)" by force
  have bl: "length bs \<le> unat asz" using read_law [OF rd] by (simp add: ETSS_UTILS_MIN_eq)
  let ?v = "u\<lparr>framework := q, asset_data := bsplice 0 bs (asset_data u)\<rparr>"
  have v: "length (asset_data ?v) = unat asz" using bl less.prems by simp
  show ?case
    by (subst etss_set_loop.simps)
      (use less.IH [OF min_decreases] v in \<open>auto simp: Let_def wp_req_read [OF rd] fill_asset_data_def wp_cast_status wp_fun intro!: on_fs_frame\<close>)
qed

lemma set_buffer:
  assumes "length (asset_data s) < 4294967296"
  shows "wp (etss_set api cid uid n fl) (\<lambda>_. same_buffer s) (\<lambda>_. same_buffer s) s"
proof (cases "etss_get_fs_ctx (etss_fs_ctx_tbl s) cid")
  case None
  then show ?thesis by (simp add: etss_set_def select_client_def on_dev_def etss_client_id_pass_on_def wp_def sem_defs cast_status_def Let_def)
next
  case (Some i)
  have l: "wp (etss_set_loop api fid (of_nat (length (asset_data s))) f 0 n) (\<lambda>_. same_buffer s) (\<lambda>_. same_buffer s) u"
    if "asset_data u = asset_data s" for u fid f
    using set_loop_buffer [of u "of_nat (length (asset_data s))" fid f 0 n] that unat_of_nat_u32 [OF assms] by simp
  show ?thesis
    using l by (auto simp: etss_set_def Let_def wp_select_client [OF Some] wp_cast_status wp_fun intro!: on_fs_frame)
qed

lemma set_loop_wp:
  assumes c: "in_call cid i s" and uid: "uid \<noteq> 0" and fl: "supported_flags fl"
    and D: "invec (framework s) 1 = D" "length D = unat n" and n: "unat n \<le> unat asz"
    and ad: "length (asset_data s) = unat asz" and bf: "fits_buffer C n (asset_data s)"
    and nz: "\<And>f. assets cid i s uid = Some f \<Longrightarrow> af_max f = 0 \<Longrightarrow> n = 0"
  shows "wp (etss_set_loop api (etss_get_fid cid uid) asz (fl OR (ETSS_FLASH_FS_FLAG_CREATE OR ETSS_FLASH_FS_FLAG_TRUNCATE)) 0 n)
    (\<lambda>_ s'. client_ok cid i s' \<and> assets cid i s' = (assets cid i s)(uid \<mapsto> set_afile C n fl D))
    (\<lambda>e s'. ready (secureflash s') \<and>
      (recorded cid i s' = assets cid i s \<and> (rel \<longrightarrow> set_error C n e \<and> refused cid i (assets cid i s) uid n s' \<and>
          (e = ETSS_ERR PSA_ERROR_INSUFFICIENT_STORAGE \<longrightarrow> out_of_room cid i s uid n)) \<or>
       \<not> rel \<and> recorded cid i s' = (assets cid i s)(uid \<mapsto> set_afile C n fl D))) s"
    (is "wp _ ?Q ?E s")
proof -
  let ?g = "fl OR (ETSS_FLASH_FS_FLAG_CREATE OR ETSS_FLASH_FS_FLAG_TRUNCATE)" and ?fid = "etss_get_fid cid uid"
  note fg = storage_flags [OF fl [unfolded supported_flags_def]]
  obtain bs q where rd: "psa_read api (msg_handle (etss_msg s)) 1 n (framework s) = (bs, q)" by force
  have bs: "bs = D" using read_law [OF rd] D by simp
  let ?data = "bsplice 0 D (asset_data s)"
  let ?u = "s\<lparr>framework := q, asset_data := ?data\<rparr>"
  have mn: "ETSS_UTILS_MIN n asz = n" using n by (auto simp: ETSS_UTILS_MIN_def word_less_nat_alt intro: word_unat_eq_iff [THEN iffD2])
  have dl: "length ?data = length (asset_data s)" using D(2) n ad by simp
  have bf': "fs.buf_ok n ?data" using bf dl by (simp add: fs.buf_ok_def fits_buffer_def fs.plen_def)
  have u: "in_call cid i ?u" "assets cid i ?u = assets cid i s"
    using in_call_keep [OF c, of ?u] in_callD(3) [OF c] by simp_all
  note ud = in_callD [OF u(1)]
  let ?F = "fs.fs_abs (client_fs ?u i)"
  have ab: "(\<lambda>v. ?F (etss_get_fid cid v)) = assets cid i s" using ud(6) u(2) by (simp add: fun_eq_iff)
  have nz': "af_max f \<noteq> 0" if "?F ?fid = Some f" "areplace (?F ?fid) ?g (ETSS_UTILS_ALIGN n (ucast (program_unit C)))" for f
    using nz [of f] that ud(6) [of uid] u(2) by (auto simp: areplace_def ETSS_UTILS_ALIGN_def)
  have at: "atarget x ?g (fs.plen n) = Some (new_afile ?g (fs.plen n))" for x
    using fg(2,3) by (cases x) (simp_all add: atarget_def)
  have ap: "aput C (new_afile ?g (fs.plen n)) 0 n ?data = set_afile C n fl D"
    using fg(4) bf D(2)
    by (auto simp: aput_def new_afile_def set_afile_def wr_content_def fits_buffer_def fs.plen_def bsplice_def min_def)
  have aa: "aargs C (new_afile ?g (fs.plen n)) 0 n"
    by (simp add: aargs_def new_afile_def fs.plen_def ETSS_UTILS_IS_ALIGNED_def)
  have err: "set_error C n (ETSS_ERR e)" if "fs.put_err (client_fs ?u i) ?fid ?g (ETSS_UTILS_ALIGN n (ucast (program_unit C))) 0 n e" for e
    using that at aa unfolding fs.put_err_def set_error_def fs.plen_def by auto
  have post: "fs.fs_rec g = ?F(?fid \<mapsto> set_afile C n fl D)" if "fs.put_post (client_fs ?u i) ?fid ?g (fs.plen n) 0 n ?data g" for g
    using that at ap unfolding fs.put_post_def by simp
  have refused: "refused cid i (assets cid i s) uid n (put_fs i h ?u)"
    if "fs.put_fail (client_fs ?u i) ?fid ?g (ETSS_UTILS_ALIGN n (ucast (program_unit C))) 0 n ?data e h" and rel for e h
  proof -
    have pf: "fs.sok h" "fs.quiet (client_fs ?u i) h"
      "\<not> areplace (?F ?fid) ?g (ETSS_UTILS_ALIGN n (ucast (program_unit C))) \<longrightarrow> fs.at_rest h \<and> fs.fs_abs h = ?F"
      using that unfolding fs.put_fail_def by blast+
    have "ready (flash h)" using fs.sokD(3) [OF pf(1)] by (simp add: ddok_def)
    moreover have "fs.found (dmem (flash h)) ?F" by (rule fs.quiet_found [OF ud(5) pf(2)])
    moreover have "client_ok cid i (put_fs i h ?u)" "assets cid i (put_fs i h ?u) = assets cid i s"
      if "\<forall>f. assets cid i s uid = Some f \<longrightarrow> af_max f = ETSS_UTILS_ALIGN n (ucast (program_unit C))"
    proof -
      have "\<not> areplace (?F ?fid) ?g (ETSS_UTILS_ALIGN n (ucast (program_unit C)))"
        using that ud(6) [of uid] u(2) by (auto simp: areplace_def split: option.splits)
      then have h: "fs.at_rest h" "fs.fs_abs h = ?F" using pf(3) by simp_all
      note cp = client_ok_put [OF ud(1) h(1) refl put_fs_simps(1)]
      show "client_ok cid i (put_fs i h ?u)" by (rule cp(1))
      show "assets cid i (put_fs i h ?u) = assets cid i s" using cp(2) unfolding h(2) ab .
    qed
    ultimately show ?thesis using ab unfolding refused_def by auto
  qed
  have "wp (etss_flash_fs_file_write ?fid ?g n n 0 ?data) (\<lambda>a h. ?Q a (put_fs i h ?u)) (\<lambda>e h. ?E (ETSS_ERR e) (put_fs i h ?u)) (client_fs ?u i)"
  proof (rule wp_mono [OF fs.file_write_wp [OF ud(5) fid_valid [OF uid] length_fid fg(1) bf' nz']], goal_cases)
    case (3 a h)
    then have h: "fs.at_rest h" "fs.fs_abs h = ?F(?fid \<mapsto> set_afile C n fl D)"
      using post [of h] fs.fs_rec_rest [of h] by (simp_all add: fs.plen_def)
    note cp = client_ok_put [OF ud(1) h(1) refl put_fs_simps(1)]
    have "assets cid i (put_fs i h ?u) = (assets cid i s)(uid \<mapsto> set_afile C n fl D)" using cp(2) unfolding h(2) fid_upd ab .
    then show ?case using cp(1) by simp
  next
    case (4 e h)
    have q: "recorded cid i (put_fs i h ?u) = (\<lambda>v. fs.fs_rec h (etss_get_fid cid v))"
      by (rule recorded_put [OF ud(4)]) simp_all
    have rd: "ready (secureflash (put_fs i h ?u))"
      using 4 fs.sokD(3) [of h] unfolding fs.put_fail_def by (simp add: ddok_def)
    have rf: "refused cid i (assets cid i s) uid n (put_fs i h ?u)" if rel using refused [OF 4 that] .
    have rm: "out_of_room cid i s uid n" if rel "e = PSA_ERROR_INSUFFICIENT_STORAGE"
    proof -
      let ?m = "ETSS_UTILS_ALIGN n (ucast (program_unit C))"
      have pe: "fs.put_err (client_fs ?u i) ?fid ?g ?m 0 n e" using 4 that unfolding fs.put_fail_def fs.plen_def by blast
      have "fs.no_room (client_fs ?u i) ?m (areplace (?F ?fid) ?g ?m)" using pe that(2) unfolding fs.put_err_def by auto
      moreover have "areplace (?F ?fid) ?g ?m = (\<exists>f. assets cid i s uid = Some f \<and> af_max f \<noteq> ?m)"
        using ud(6) [of uid] u(2) fg(2) by (auto simp: areplace_def split: option.splits)
      moreover have "client_fs ?u i = client_fs s i" by (simp add: client_fs_def)
      ultimately show ?thesis by (simp add: out_of_room_def Let_def)
    qed
    have "fs.fs_rec h = ?F \<and> (rel \<longrightarrow> set_error C n (ETSS_ERR e)) \<or> \<not> rel \<and> fs.fs_rec h = ?F(?fid \<mapsto> set_afile C n fl D)"
      using 4 post [of h] err [of e] unfolding fs.put_fail_def fs.plen_def by blast
    then show ?case
    proof (elim disjE conjE)
      assume "fs.fs_rec h = ?F" "rel \<longrightarrow> set_error C n (ETSS_ERR e)"
      then show ?thesis using rf rd rm unfolding q ab [symmetric] by simp
    next
      assume nr: "\<not> rel" and g: "fs.fs_rec h = ?F(?fid \<mapsto> set_afile C n fl D)"
      show ?thesis using nr rd unfolding q g fid_upd ab by simp
    qed
  qed auto
  then have "wp (on_fs (etss_flash_fs_file_write ?fid ?g n n 0 ?data)) ?Q (\<lambda>e. ?E (ETSS_ERR e)) ?u"
    unfolding wp_on_fs [OF ud(2,4)] .
  then show ?thesis
    using bs by (subst etss_set_loop.simps) (simp add: Let_def mn wp_req_read [OF rd] fill_asset_data_def wp_cast_status wp_fun)
qed

lemma set_wp:
  assumes c: "client_ok cid i s" and st: "security_storage (security_feature P)" and uid: "uid \<noteq> 0" and fl: "supported_flags fl"
    and D: "invec (framework s) 1 = D" "length D = unat n"
    and ad: "unat n \<le> length (asset_data s)" "length (asset_data s) < 4294967296" and bf: "fits_buffer C n (asset_data s)"
    and nz: "\<And>f. assets cid i s uid = Some f \<Longrightarrow> af_max f = 0 \<Longrightarrow> n = 0"
  shows "wp (etss_set api cid uid n fl)
    (\<lambda>_ s'. client_ok cid i s' \<and> (rel \<longrightarrow> \<not> (\<exists>f. assets cid i s uid = Some f \<and> write_once f)) \<and>
       assets cid i s' = (assets cid i s)(uid \<mapsto> set_afile C n fl D))
    (\<lambda>e s'. ready (secureflash s') \<and> (recorded cid i s' = assets cid i s \<and> (rel \<longrightarrow>
         (\<exists>f. assets cid i s uid = Some f \<and> write_once f) \<and> e = ETSS_ERR_NOT_PERMITTED \<and> client_ok cid i s' \<or>
         \<not> (\<exists>f. assets cid i s uid = Some f \<and> write_once f) \<and> set_error C n e \<and> refused cid i (assets cid i s) uid n s' \<and>
          (e = ETSS_ERR PSA_ERROR_INSUFFICIENT_STORAGE \<longrightarrow> out_of_room cid i s uid n)) \<or>
       \<not> rel \<and> recorded cid i s' = (assets cid i s)(uid \<mapsto> set_afile C n fl D))) s" (is "wp _ ?Q ?E s")
proof -
  note cd = client_okD [OF c] and ie = in_call_entered [OF c]
  let ?W = "\<exists>f. assets cid i s uid = Some f \<and> write_once f"
  let ?asz = "of_nat (length (asset_data s)) :: u32"
  have az: "unat ?asz = length (asset_data s)" by (rule unat_of_nat_u32 [OF ad(2)])
  let ?loop = "etss_set_loop api (etss_get_fid cid uid) ?asz (fl OR (ETSS_FLASH_FS_FLAG_CREATE OR ETSS_FLASH_FS_FLAG_TRUNCATE)) 0 n"
  have loop: "wp ?loop ?Q ?E u"
    if u: "in_call cid i u" "assets cid i u = assets cid i s" "framework u = framework s" "asset_data u = asset_data s"
      "fs.no_room (client_fs u i) = fs.no_room (client_fs (entered cid i s) i)" and w: "rel \<longrightarrow> \<not> ?W" for u
  proof -
    have "fs.no_room (client_fs (entered cid i s) i) = fs.no_room (client_fs s i)"
      by (intro ext) (simp add: fs.no_room_def fs.free_entries_def client_fs_def fs_of_def)
    then have "out_of_room cid i u uid n = out_of_room cid i s uid n" using u(2,5) by (simp add: out_of_room_def)
    then show ?thesis by (intro wp_mono [OF set_loop_wp [OF u(1) uid fl _ D(2)]]) (use u w D ad(1) az bf nz in auto)
  qed
  have "wp (on_fs (etss_flash_fs_file_get_info (etss_get_fid cid uid)))
      (\<lambda>info. wp (bindE (if info_flags info AND PSA_STORAGE_FLAG_WRITE_ONCE \<noteq> 0 then throwE ETSS_ERR_NOT_PERMITTED else returnE ()) (\<lambda>_. ?loop)) ?Q ?E)
      (\<lambda>e. wp (bindE (if e \<noteq> PSA_ERROR_DOES_NOT_EXIST then throwE (ETSS_ERR e) else returnE ()) (\<lambda>_. ?loop)) ?Q ?E) (entered cid i s)"
  proof (rule on_fs_reads [OF ie(1) info_reads [OF ie(1) uid]], goal_cases)
    case (1 info u)
    then obtain f where f: "assets cid i s uid = Some f" "info = ainfo f" using ie(2) by (auto split: option.splits)
    have a: "assets cid i u = assets cid i s" using 1 ie(2) by simp
    show ?case
      using loop [OF 1(2) a] f client_okD(3) [OF in_callD(1) [OF 1(2)]] recorded_rest [OF in_callD(1) [OF 1(2)]] in_callD(1) [OF 1(2)] a 1(4,5,7)
      by (simp add: ainfo_def write_once_def)
  next
    case (2 e u)
    have a: "assets cid i u = assets cid i s" using 2 ie(2) by simp
    have r: "recorded cid i u = assets cid i s" using recorded_rest [OF in_callD(1) [OF 2(2)]] a by simp
    show ?case
    proof (cases "assets cid i s uid")
      case None
      then show ?thesis using loop [OF 2(2) a] 2(1,4,5,7) r ie(2) client_okD(3) [OF in_callD(1) [OF 2(2)]] by auto
    next
      case (Some f)
      then have nr: "\<not> rel" using 2(1) ie(2) by auto
      have "wp ?loop ?Q ?E u" by (rule loop [OF 2(2) a]) (use 2(4,5,7) nr in simp_all)
      then show ?thesis using nr r client_okD(3) [OF in_callD(1) [OF 2(2)]] by simp
    qed
  qed
  then show ?thesis
    unfolding etss_set_def wp_withS
    using st uid cd(6) fl
    by (simp add: ETSS_INVALID_UID_def supported_flags_def wp_select_client [OF cd(1)] Let_def wp_fun)
qed

end

interpretation simc: etss_client sim_hal sim_cfg sim_arch sim_apps "()" "\<lambda>h. h" "\<lambda>_. True" "\<lambda>_. True" "\<lambda>_ _. True" True
  sim_api sq_in sq_out sq_room
  ..

end
