(* ===== verification/Etss_Isolation.thy ===== *)
theory Etss_Isolation
  imports Etss_Store
begin

text \<open>
  The clients of the service do not disturb each other: an operation for one client works on its own
  context only, and, by the frame of the device contract, on its own area only, so the file systems of the
  other clients and their assets stay as they are.
\<close>

section \<open>Contexts of the other clients\<close>

definition slots_same :: "nat \<Rightarrow> ('h, 'v, 'q) etss_state \<Rightarrow> ('h, 'v, 'q) etss_state \<Rightarrow> bool" where
  "slots_same i s s' \<longleftrightarrow> map fst (etss_fs_ctx_tbl s') = map fst (etss_fs_ctx_tbl s) \<and>
     (\<forall>j. j \<noteq> i \<longrightarrow> etss_fs_ctx_tbl s' ! j = etss_fs_ctx_tbl s ! j)"

definition others_same :: "nat \<Rightarrow> ('h, 'v, 'q) etss_state \<Rightarrow> ('h, 'v, 'q) etss_state \<Rightarrow> bool" where
  "others_same i s s' \<longleftrightarrow> fs_ctx_etss_ptr s' = Some i \<and> slots_same i s s'"

abbreviation keeps_others :: "nat \<Rightarrow> ('h, 'v, 'q) etss_state \<Rightarrow> ('h, 'v, 'q, 'a) etss_op \<Rightarrow> ('h, 'v, 'q) etss_state \<Rightarrow> bool" where
  "keeps_others i s m u \<equiv> wp m (\<lambda>_. others_same i s) (\<lambda>_. others_same i s) u"

lemma slots_same_put: "slots_same i s u \<Longrightarrow> slots_same i s (put_fs i g u)"
proof -
  assume s: "slots_same i s u"
  have "map fst (etss_fs_ctx_tbl (put_fs i g u)) = map fst (etss_fs_ctx_tbl u)"
  proof (rule nth_equalityI)
    fix k assume "k < length (map fst (etss_fs_ctx_tbl (put_fs i g u)))"
    then show "map fst (etss_fs_ctx_tbl (put_fs i g u)) ! k = map fst (etss_fs_ctx_tbl u) ! k"
      by (cases "i = k") (simp_all add: put_fs_def)
  qed simp
  then show ?thesis using s by (simp add: slots_same_def put_fs_def)
qed

lemma slots_same_refl [simp]: "slots_same i s s"
  by (simp add: slots_same_def)

lemma others_same_put: "others_same i s u \<Longrightarrow> others_same i s (put_fs i g u)"
  by (simp add: others_same_def slots_same_put)

lemma others_same_upd:
  "others_same i s u \<Longrightarrow> etss_fs_ctx_tbl v = etss_fs_ctx_tbl u \<Longrightarrow> fs_ctx_etss_ptr v = fs_ctx_etss_ptr u \<Longrightarrow> others_same i s v"
  by (simp add: others_same_def slots_same_def)

lemma on_fs_others:
  assumes u: "others_same i s u" and Q: "\<And>a v. others_same i s v \<Longrightarrow> Q a v" and E: "\<And>e v. others_same i s v \<Longrightarrow> E e v"
  shows "wp (on_fs m) Q E u"
  using assms others_same_put [OF u]
  by (auto simp: wp_def on_fs_def withS_def on_fs_at_def throwE_def others_same_def [of i s u] split: prod.splits sum.splits)

lemma set_loop_others: "others_same i s u \<Longrightarrow> keeps_others i s (etss_set_loop api fid asz fl off n) u"
proof (induction api fid asz fl off n arbitrary: u rule: etss_set_loop.induct)
  case (1 api fid asz fl off n)
  let ?k = "ETSS_UTILS_MIN n asz"
  obtain bs q where rd: "psa_read api (msg_handle (etss_msg u)) 1 ?k (framework u) = (bs, q)" by force
  let ?v = "u\<lparr>framework := q, asset_data := bsplice 0 bs (asset_data u)\<rparr>"
  have v: "others_same i s ?v" by (rule others_same_upd [OF "1.prems"]) simp_all
  have r: "wp (etss_req_mngr_read api ?k) Q E u = Q bs (u\<lparr>framework := q\<rparr>)" for Q E
    using rd by (simp add: etss_req_mngr_read_def wp_def)
  show ?case
    by (subst etss_set_loop.simps)
      (use "1.IH" in \<open>auto simp: Let_def r fill_asset_data_def wp_cast_status wp_fun intro!: on_fs_others [OF v]\<close>)
qed

lemma get_loop_others: "others_same i s u \<Longrightarrow> keeps_others i s (etss_get_loop api fid asz off n) u"
proof (induction api fid asz off n arbitrary: u rule: etss_get_loop.induct)
  case (1 api fid asz off n)
  let ?k = "ETSS_UTILS_MIN n asz"
  have w: "keeps_others i s (if n - ?k = 0 then returnE () else if asz = 0 then throwE (ETSS_ERR PSA_NO_RESULT)
       else etss_get_loop api fid asz (off + ?k) (n - ?k)) (v\<lparr>asset_data := x, framework := y\<rparr>)" if v: "others_same i s v" for v x y
    using "1.IH" others_same_upd [OF v, of "v\<lparr>asset_data := x, framework := y\<rparr>"] by auto
  show ?case
    by (subst etss_get_loop.simps)
      (use w in \<open>auto simp: Let_def fill_asset_data_def etss_req_mngr_write_def wp_cast_status wp_fun
        intro!: on_fs_others [OF "1.prems"]\<close>)
qed

lemma others_entered: "others_same i s (entered cid i s)"
  by (simp add: others_same_def slots_same_def)

lemma service_others:
  assumes "etss_get_fs_ctx (etss_fs_ctx_tbl s) cid = Some i" and "uid \<noteq> 0" and "security_storage (features s)"
  shows "keeps_others i s (etss_set api cid uid n fl) s \<or> \<not> supported_flags fl"
    and "keeps_others i s (etss_get api cid uid off n) s"
    and "keeps_others i s (etss_get_info cid uid) s"
    and "keeps_others i s (etss_remove cid uid) s"
proof -
  note sel = wp_select_client [OF assms(1)] and e = others_entered [of i s cid]
  show "keeps_others i s (etss_get_info cid uid) s"
    using assms(2,3) by (auto simp: etss_get_info_def ETSS_INVALID_UID_def sel wp_cast_status intro!: on_fs_others [OF e])
  show "keeps_others i s (etss_remove cid uid) s"
    using assms(2,3) by (auto simp: etss_remove_def ETSS_INVALID_UID_def Let_def sel wp_cast_status intro!: on_fs_others [OF e] intro: on_fs_others)
  show "keeps_others i s (etss_get api cid uid off n) s"
    using assms(2,3) get_loop_others
    by (auto simp: etss_get_def ETSS_INVALID_UID_def Let_def sel wp_cast_status wp_fun intro!: on_fs_others [OF e])
  show "keeps_others i s (etss_set api cid uid n fl) s \<or> \<not> supported_flags fl"
    using assms(2,3) set_loop_others
    by (auto simp: etss_set_def supported_flags_def ETSS_INVALID_UID_def Let_def sel wp_fun intro!: on_fs_others [OF e])
qed

section \<open>Areas of the other clients\<close>

lemma get_fs_ctx_cong: "map fst tbl = map fst tbl' \<Longrightarrow> etss_get_fs_ctx tbl c = etss_get_fs_ctx tbl' c"
proof -
  assume m: "map fst tbl = map fst tbl'"
  then have l: "length tbl = length tbl'" using map_eq_imp_length_eq by blast
  have "fst (tbl ! k) = fst (tbl' ! k)" if "k < length tbl'" for k
    using arg_cong [OF m, of "\<lambda>xs. xs ! k"] that l by simp
  then show ?thesis unfolding etss_get_fs_ctx_def l by (intro find_cong) auto
qed

lemma at_rest_dok:
  assumes "fs_dev ops C mem dok pre rel" and "fs_dev ops C mem dok' pre' rel'"
    and "fs_dev.at_rest ops C mem dok s" and "dok' (flash s)"
  shows "fs_dev.at_rest ops C mem dok' s"
  using assms(3,4)
  unfolding fs_dev.at_rest_def [OF assms(1)] fs_dev.at_rest_def [OF assms(2)] fs_dev.fs_inv_def [OF assms(1)] fs_dev.fs_inv_def [OF assms(2)]
    fs_dev.tabs_ok_def [OF assms(1)] fs_dev.tabs_ok_def [OF assms(2)] fs_dev.metas_def [OF assms(1)] fs_dev.metas_def [OF assms(2)]
    flash_dev.sok_def [OF fs_dev.axioms(1) [OF assms(1)]] flash_dev.sok_def [OF fs_dev.axioms(1) [OF assms(2)]]
  by blast

text \<open>Client \<open>c'\<close> with the area of \<open>C'\<close> and slot \<open>j\<close>, after an operation on slot \<open>i\<close> that kept the area of \<open>C'\<close>.\<close>

context secure_hal
begin

lemma dmem_area:
  assumes k: "\<And>p. \<not> outside C p \<Longrightarrow> store (nor_hw d') p = store (nor_hw d) p"
  shows "dmem d' = dmem d"
proof
  fix b
  have "\<not> outside C (base b + p)" if "b < ucast (num_blocks C)" "p < unat (block_size C)" for p
    using block_end [OF that(1)] that(2) by (simp add: outside_def)
  then show "dmem d' b = dmem d b" using k by (simp add: dmem_def)
qed

lemma other_client_kept:
  assumes o: "slots_same i s s'" and j: "client_ok c j s" "j \<noteq> i" and d: "ready (secureflash s')"
    and k: "\<And>p. \<not> outside C p \<Longrightarrow> store (nor_hw (secureflash s')) p = store (nor_hw (secureflash s)) p"
  shows "client_ok c j s'" "assets c j s' = assets c j s"
proof -
  have g: "etss_get_fs_ctx (etss_fs_ctx_tbl s') c = Some j"
    using get_fs_ctx_cong [of "etss_fs_ctx_tbl s'" "etss_fs_ctx_tbl s" c] o client_okD(1) [OF j(1)] by (simp add: slots_same_def)
  have t: "etss_fs_ctx_tbl s' ! j = etss_fs_ctx_tbl s ! j" using o j(2) by (simp add: slots_same_def)
  have m: "dmem (secureflash s') = dmem (secureflash s)" by (rule dmem_area) (rule k)
  show "client_ok c j s'" "assets c j s' = assets c j s" by (rule client_ok_same [OF j(1) g t d m])+
qed

text \<open>The frame of the device, seen from the service.\<close>

abbreviation "framed F \<equiv> \<lambda>h. hok h \<and> keeps C store F h"

lemma client_ok_framed:
  assumes "client_ok cid i s" and "keeps C store F (nor_hw (secureflash s))"
  shows "secure_hal.client_ok hal C P A store (framed F) cid i s"
proof -
  note fr = frame [of F]
  note cd = client_okD [OF assms(1)]
  have r: "fs.at_rest (client_fs (entered cid i s) i)" by (rule cd(5))
  have "secure_hal.ddok hal C P A (framed F) (flash (client_fs (entered cid i s) i))"
    using cd(3,4) assms(2) unfolding secure_hal.ddok_def [OF fr] secure_hal.ready_def [OF fr] ready_def
    by (simp add: client_fs_def)
  then have "fs_dev.at_rest (etss_secure_flash_fs_ops hal) C dmem (secure_hal.ddok hal C P A (framed F)) (client_fs (entered cid i s) i)"
    by (rule at_rest_dok [OF fs_contract secure_hal.fs_contract [OF fr] r])
  then show ?thesis unfolding secure_hal.client_ok_def [OF fr] using cd(1,4) by simp
qed

lemma client_ok_unframed:
  assumes "secure_hal.client_ok hal C P A store (framed F) cid i s"
  shows "client_ok cid i s"
proof -
  note fr = frame [of F] and cd = secure_hal.client_okD [OF frame [of F] assms]
  have "secure_hal.ddok hal C P A (framed F) (flash (client_fs (entered cid i s) i))"
    using cd(3,4) unfolding secure_hal.ddok_def [OF fr] by (simp add: client_fs_def secure_hal.ready_def [OF fr])
  then have "ddok (flash (client_fs (entered cid i s) i))"
    unfolding secure_hal.ddok_def [OF fr] secure_hal.ready_def [OF fr] ddok_def ready_def by blast
  then have "fs.at_rest (client_fs (entered cid i s) i)"
    by (rule at_rest_dok [OF secure_hal.fs_contract [OF fr] fs_contract cd(5)])
  then show ?thesis using cd(1,4) by (simp add: client_ok_def)
qed

lemma framed_ok:
  assumes "secure_hal.client_ok hal C P A store (framed F) cid i s"
  shows "ready (secureflash s)" "keeps C store F (nor_hw (secureflash s))"
  using secure_hal.client_okD(3) [OF frame assms] unfolding secure_hal.ready_def [OF frame] ready_def by simp_all

end

text \<open>What another client keeps when an operation on the area of \<open>C\<close> leaves the device ready.\<close>

lemma other_client_ready:
  assumes hal: "secure_hal hal C P A V store hok hpre sess rel" and hal': "secure_hal hal C' P A V store hok hpre sess rel"
    and apart: "\<And>p. outside C p \<or> outside C' p"
    and o: "slots_same i s s'" and j: "secure_hal.client_ok hal C' P A store hok c' j s" "j \<noteq> i"
    and rd: "secure_hal.ready P A (\<lambda>h. hok h \<and> keeps C store (store (nor_hw (secureflash s))) h) (secureflash s')"
  shows "secure_hal.client_ok hal C' P A store hok c' j s' \<and>
    secure_hal.assets C' store c' j s' = secure_hal.assets C' store c' j s"
proof -
  note fh = secure_hal.frame [OF hal, of "store (nor_hw (secureflash s))"]
  have r: "secure_hal.ready P A hok (secureflash s')" "keeps C store (store (nor_hw (secureflash s))) (nor_hw (secureflash s'))"
    using rd unfolding secure_hal.ready_def [OF fh] secure_hal.ready_def [OF hal] by simp_all
  have k: "store (nor_hw (secureflash s')) p = store (nor_hw (secureflash s)) p" if "\<not> outside C' p" for p
    using r(2) apart [of p] that by (simp add: keeps_def)
  show ?thesis using secure_hal.other_client_kept [OF hal' o j r(1) k] by blast
qed

section \<open>Isolation\<close>

lemma etss_client_frame:
  assumes "etss_client hal C P A V store hok hpre sess rel api invec outvec room"
  shows "etss_client hal C P A V store (\<lambda>h. hok h \<and> keeps C store F h) (\<lambda>h. hpre h \<and> keeps C store F h)
    (\<lambda>k h. sess k h \<and> keeps C store F h) rel api invec outvec room"
  by (rule etss_client.intro [OF secure_hal.frame [OF etss_client.axioms(1) [OF assms]] etss_client.axioms(2) [OF assms]])

lemma wp_both: "wp m Q E s \<Longrightarrow> wp m Q' E' s \<Longrightarrow> (\<And>a t. Q a t \<Longrightarrow> Q' a t \<Longrightarrow> Q'' a t) \<Longrightarrow> (\<And>e t. E e t \<Longrightarrow> E' e t \<Longrightarrow> E'' e t) \<Longrightarrow>
  wp m Q'' E'' s"
  by (auto simp: wp_def split: prod.splits sum.splits)

end
