(* ===== verification/Etss_Startup.thy ===== *)
theory Etss_Startup
  imports Etss_Isolation
begin

text \<open>
  Start-up of the service on a device that does not fail: every client's area that holds a file system is
  mounted with its files, every other area is formatted, and no client's start-up disturbs another.
\<close>

section \<open>One client\<close>

lemma wp_on_fs_at:
  "i < length (etss_fs_ctx_tbl s) \<Longrightarrow>
   wp (on_fs_at i m) Q E s = wp m (\<lambda>a f. Q a (put_fs i f s)) (\<lambda>e f. E e (put_fs i f s)) (client_fs s i)"
  by (simp add: on_fs_at_def wp_def split: prod.splits sum.splits)

lemma wp_on_dev:
  "wp (on_dev m) Q E s = wp m (\<lambda>a d. Q a (s\<lparr>secureflash := d\<rparr>)) (\<lambda>e d. E e (s\<lparr>secureflash := d\<rparr>)) (secureflash s)"
  by (simp add: on_dev_def wp_def split: prod.splits sum.splits)

lemma put_put [simp]: "i < length (etss_fs_ctx_tbl s) \<Longrightarrow> put_fs i g (put_fs i f s) = put_fs i g s"
  by (simp add: put_fs_def)

context secure_hal
begin

lemma ready_dpre: "rel \<Longrightarrow> ready d \<Longrightarrow> dpre d"
proof -
  assume r: rel and d: "ready d"
  show "dpre d" unfolding dpre_def using d r hok_hpre unfolding ready_def by blast
qed

lemma init_client_wp:
  assumes rel: "rel" and i: "i < length (etss_fs_ctx_tbl s)" and d: "dpre (secureflash s)" and f: "fs.found (dmem (secureflash s)) X"
  shows "wp (etss_flash_fs_init_ctx_and_prepare hal i C)
    (\<lambda>_ s'. \<exists>g. s' = put_fs i g s \<and> fs.at_rest g \<and> fs.fs_abs g = X) (\<lambda>_ _. False) s"
proof -
  let ?f = "(client_fs s i)\<lparr>ctx_cfg := C, ctx_ops := etss_secure_flash_fs_ops hal, meta_block_header := zero_header,
    active_metablock := 0, scratch_metablock := 0\<rparr>"
  let ?u = "put_fs i ?f s"
  have v: "etss_flash_fs_validate_config C = Inr ()" using valid_cfg by (simp add: cfg_ok_def)
  have fl: "flash ?f = secureflash s" by (simp add: client_fs_def)
  have b: "fs.booted ?f" unfolding fs.booted_def fs.boot_def using d fl by simp
  have "wp start_up (\<lambda>_ s'. fs.at_rest s' \<and> fs.fs_abs s' = X) (\<lambda>_ _. False) ?f"
    by (rule fs.start_up_wp [OF rel b]) (use f fl in simp)
  then have st: "wp etss_flash_fs_prepare (\<lambda>_ g. fs.at_rest g \<and> fs.fs_abs g = X)
     (\<lambda>_. wp etss_flash_fs_wipe_all (\<lambda>_. wp etss_flash_fs_prepare (\<lambda>_ s'. fs.at_rest s' \<and> fs.fs_abs s' = X) (\<lambda>_ _. False)) (\<lambda>_ _. False)) ?f"
    by (simp add: start_up_def wp_fun)
  let ?Q = "\<lambda>_ s'. \<exists>g. s' = put_fs i g s \<and> fs.at_rest g \<and> fs.fs_abs g = X"
  let ?E = "\<lambda>_ _. False"
  have iu: "i < length (etss_fs_ctx_tbl ?u)" using i by simp
  have "wp etss_flash_fs_prepare (\<lambda>a g. ?Q a (put_fs i g ?u))
     (\<lambda>_ g. wp (bindE (cast_status (on_fs_at i etss_flash_fs_wipe_all)) (\<lambda>_.
         orError (on_fs_at i etss_flash_fs_prepare) ETSS_ERR_STORAGE_FAILURE)) ?Q ?E (put_fs i g ?u)) ?f"
  proof (rule wp_mono [OF st], goal_cases)
    case (1 a g)
    then show ?case using i by auto
  next
    case (2 e g)
    then show ?case
      using i by (simp add: wp_cast_status wp_on_fs_at wp_fun) (erule wp_mono, erule wp_mono, auto simp: wp_on_fs_at elim: wp_mono)
  qed
  then show ?thesis
    using i iu v by (simp add: etss_flash_fs_init_ctx_and_prepare_def wp_on_fs_at etss_flash_fs_init_ctx_def)
qed

end

section \<open>All clients\<close>

text \<open>A layout whose areas the device grants to their clients, and which do not overlap.\<close>

locale etss_system =
  fixes hal :: "('h, 'v) sf_hal" and P :: architecture_t and A :: app_info_t and V :: 'v
    and store :: "'h \<Rightarrow> nat \<Rightarrow> u8" and hok hpre :: "'h \<Rightarrow> bool" and sess :: "u32 \<Rightarrow> 'h \<Rightarrow> bool" and L :: sf_layout
  assumes some_client: "0 < length (SECURE_FLASH_CLIENTS L)" and four_clients: "length (SECURE_FLASH_CLIENTS L) \<le> 4"
    and client_hal: "i < length (SECURE_FLASH_CLIENTS L) \<Longrightarrow> secure_hal hal (client_cfg L i) P A V store hok hpre sess True"
    and client_access: "i < length (SECURE_FLASH_CLIENTS L) \<Longrightarrow> has_access hal (client_cfg L i) P A (cl_client_id (SECURE_FLASH_CLIENTS L ! i))"
    and client_ids: "distinct (map cl_client_id (SECURE_FLASH_CLIENTS L))"
    and areas_apart: "i < length (SECURE_FLASH_CLIENTS L) \<Longrightarrow> j < length (SECURE_FLASH_CLIENTS L) \<Longrightarrow> i \<noteq> j \<Longrightarrow>
      outside (client_cfg L i) p \<or> outside (client_cfg L j) p"
    and storage: "security_storage (security_feature P)"
begin

abbreviation "cnum \<equiv> length (SECURE_FLASH_CLIENTS L)"
abbreviation "cid j \<equiv> cl_client_id (SECURE_FLASH_CLIENTS L ! j)"
abbreviation "cids \<equiv> map cl_client_id (SECURE_FLASH_CLIENTS L)"

text \<open>Client \<open>j\<close> has a file system in order, with the assets \<open>X\<close>.\<close>

definition served :: "nat \<Rightarrow> (buf \<Rightarrow> afile option) \<Rightarrow> ('h, 'v, 'q) etss_state \<Rightarrow> bool" where
  "served j X s \<longleftrightarrow> secure_hal.client_ok hal (client_cfg L j) P A store hok (cid j) j s \<and>
     secure_hal.assets (client_cfg L j) store (cid j) j s = (\<lambda>uid. X (etss_get_fid (cid j) uid))"

text \<open>The area of client \<open>j\<close> holds the files \<open>X\<close>.\<close>

definition holds :: "nat \<Rightarrow> (buf \<Rightarrow> afile option) \<Rightarrow> ('h, 'v, 'q) etss_state \<Rightarrow> bool" where
  "holds j X s \<longleftrightarrow> fs_dev.found (client_cfg L j) True (secure_hal.dmem (client_cfg L j) store (secureflash s)) X"

lemma find_slot: "map fst tbl = cids \<Longrightarrow> j < cnum \<Longrightarrow> etss_get_fs_ctx tbl (cid j) = Some j"
proof -
  assume m: "map fst tbl = cids" and j: "j < cnum"
  have l: "length tbl = cnum" using arg_cong [OF m, of length] by simp
  have f: "fst (tbl ! k) = cid k" if "k < cnum" for k using arg_cong [OF m, of "\<lambda>xs. xs ! k"] that l by simp
  have "cid k \<noteq> cid j" if "k < j" for k
    using nth_eq_iff_index_eq [OF client_ids, of k j] that j by simp
  then show ?thesis using f j l unfolding etss_get_fs_ctx_def by (auto simp: find_Some_iff intro!: exI [of _ j])
qed

lemma init_client_framed:
  assumes j: "j < cnum" and t: "map fst (etss_fs_ctx_tbl s) = cids" and d: "secure_hal.dpre P A hok hpre True (secureflash s)"
    and X: "holds j X s"
  shows "wp (etss_flash_fs_init_ctx_and_prepare hal j (client_cfg L j))
    (\<lambda>_ s'. slots_same j s s' \<and> secure_hal.ready P A hok (secureflash s') \<and>
       keeps (client_cfg L j) store (store (nor_hw (secureflash s))) (nor_hw (secureflash s')) \<and> served j X s')
    (\<lambda>_ _. False) s"
proof -
  let ?C = "client_cfg L j" and ?F = "store (nor_hw (secureflash s))"
  let ?K = "keeps ?C store ?F"
  note hal = client_hal [OF j]
  note fr = secure_hal.frame [OF hal, of ?F]
  have K: "?K (nor_hw (secureflash s))" by (simp add: keeps_def)
  have d': "secure_hal.dpre P A (\<lambda>h. hok h \<and> ?K h) (\<lambda>h. hpre h \<and> ?K h) True (secureflash s)"
    using d K unfolding secure_hal.dpre_def [OF fr] secure_hal.dpre_def [OF hal] secure_hal.ready_def [OF fr] secure_hal.ready_def [OF hal] by blast
  have l: "j < length (etss_fs_ctx_tbl s)" using arg_cong [OF t, of length] j by simp
  have "wp (etss_flash_fs_init_ctx_and_prepare hal j ?C)
     (\<lambda>_ s'. \<exists>g. s' = put_fs j g s \<and>
        fs_dev.at_rest (etss_secure_flash_fs_ops hal) ?C (secure_hal.dmem ?C store) (secure_hal.ddok hal ?C P A (\<lambda>h. hok h \<and> ?K h)) g \<and>
        fs_dev.fs_abs ?C (secure_hal.dmem ?C store) g = X) (\<lambda>_ _. False) s"
    using secure_hal.init_client_wp [OF fr TrueI l d'] X unfolding holds_def .
  then show ?thesis
  proof (rule wp_mono, goal_cases)
    case (1 a s')
    then obtain g where g: "s' = put_fs j g s" "fs_dev.at_rest (etss_secure_flash_fs_ops hal) ?C (secure_hal.dmem ?C store)
        (secure_hal.ddok hal ?C P A (\<lambda>h. hok h \<and> ?K h)) g" "fs_dev.fs_abs ?C (secure_hal.dmem ?C store) g = X" by blast
    have dg: "secure_hal.ddok hal ?C P A (\<lambda>h. hok h \<and> ?K h) (flash g)" by (rule secure_hal.at_rest_ddok [OF fr g(2)])
    then have r': "secure_hal.ready P A hok (flash g)" "?K (nor_hw (flash g))"
      unfolding secure_hal.ddok_def [OF fr] secure_hal.ready_def [OF fr] secure_hal.ready_def [OF hal] by simp_all
    have "secure_hal.ddok hal ?C P A hok (flash g)"
      using r' dg unfolding secure_hal.ddok_def [OF hal] secure_hal.ddok_def [OF fr] by simp
    then have ar: "fs_dev.at_rest (etss_secure_flash_fs_ops hal) ?C (secure_hal.dmem ?C store) (secure_hal.ddok hal ?C P A hok) g"
      by (rule at_rest_dok [OF secure_hal.fs_contract [OF fr] secure_hal.fs_contract [OF hal] g(2)])
    have ss: "slots_same j s s'" unfolding g(1) by (rule slots_same_put) simp
    have gc: "etss_get_fs_ctx (etss_fs_ctx_tbl s') (cid j) = Some j"
      by (rule find_slot) (use ss t j in \<open>simp_all add: slots_same_def\<close>)
    have sn: "snd (etss_fs_ctx_tbl s' ! j) = ctx_of g" using g(1) l by (simp add: put_fs_def)
    have "served j X s'"
      unfolding served_def using secure_hal.client_ok_new [OF hal gc client_access [OF j] ar sn] g by simp
    then show ?case using ss r' g(1) by simp
  qed simp
qed

lemma served_kept:
  assumes j: "j < cnum" "k < cnum" "j \<noteq> k" and s: "slots_same k s s'" and r: "secure_hal.ready P A hok (secureflash s')"
    and K: "keeps (client_cfg L k) store (store (nor_hw (secureflash s))) (nor_hw (secureflash s'))"
  shows "served j X s \<Longrightarrow> served j X s'" and "holds j X s \<Longrightarrow> holds j X s'"
proof -
  have e: "store (nor_hw (secureflash s')) p = store (nor_hw (secureflash s)) p" if "\<not> outside (client_cfg L j) p" for p
    using areas_apart [OF j, of p] K that by (simp add: keeps_def)
  show "served j X s'" if "served j X s"
    using that secure_hal.other_client_kept [OF client_hal [OF j(1)] s _ j(3) r e] by (simp add: served_def)
  have "secure_hal.dmem (client_cfg L j) store (secureflash s') = secure_hal.dmem (client_cfg L j) store (secureflash s)"
    by (rule secure_hal.dmem_area [OF client_hal [OF j(1)] e])
  then show "holds j X s'" if "holds j X s" using that by (simp add: holds_def)
qed

lemma init_contexts_wp:
  assumes "k \<le> cnum" and "map fst (etss_fs_ctx_tbl s) = cids" and "secure_hal.dpre P A hok hpre True (secureflash s)"
    and "\<And>j. j < k \<Longrightarrow> served j (X j) s" and "\<And>j. k \<le> j \<Longrightarrow> j < cnum \<Longrightarrow> holds j (X j) s"
  shows "wp (init_contexts hal (zip [k..<cnum] (map (client_cfg L) [k..<cnum]))) (\<lambda>_ s'. \<forall>j<cnum. served j (X j) s') (\<lambda>_ _. False) s"
  using assms
proof (induction "cnum - k" arbitrary: k s)
  case 0
  then show ?case by simp
next
  case (Suc m)
  then have k: "k < cnum" by simp
  have u: "[k..<cnum] = k # [Suc k..<cnum]" using k by (simp add: upt_conv_Cons)
  have "wp (init_contexts hal (zip [Suc k..<cnum] (map (client_cfg L) [Suc k..<cnum]))) (\<lambda>_ s'. \<forall>j<cnum. served j (X j) s') (\<lambda>_ _. False) t"
    if t: "slots_same k s t" "secure_hal.ready P A hok (secureflash t)"
      "keeps (client_cfg L k) store (store (nor_hw (secureflash s))) (nor_hw (secureflash t))" "served k (X k) t" for t
  proof (rule Suc.hyps(1))
    show "m = cnum - Suc k" using Suc.hyps(2) by simp
    show "Suc k \<le> cnum" using k by simp
    show "map fst (etss_fs_ctx_tbl t) = cids" using t(1) Suc.prems(2) by (simp add: slots_same_def)
    show "secure_hal.dpre P A hok hpre True (secureflash t)" by (rule secure_hal.ready_dpre [OF client_hal [OF k] TrueI t(2)])
    show "served j (X j) t" if "j < Suc k" for j
      using served_kept(1) [OF _ k _ t(1-3), of j] Suc.prems(4) [of j] that k t(4) by (cases "j = k") auto
    show "holds j (X j) t" if "Suc k \<le> j" "j < cnum" for j
      using served_kept(2) [OF that(2) k _ t(1-3)] Suc.prems(5) [of j] that by simp
  qed
  then have "wp (etss_flash_fs_init_ctx_and_prepare hal k (client_cfg L k))
     (\<lambda>_. wp (init_contexts hal (zip [Suc k..<cnum] (map (client_cfg L) [Suc k..<cnum]))) (\<lambda>_ s'. \<forall>j<cnum. served j (X j) s') (\<lambda>_ _. False))
     (\<lambda>_ _. False) s"
    by (intro wp_mono [OF init_client_framed [OF k Suc.prems(2,3) Suc.prems(5) [OF le_refl k]]]) blast+
  then show ?case unfolding u by simp
qed

text \<open>The whole start-up.\<close>

lemma init_wp:
  assumes t: "length (etss_fs_ctx_tbl s) = cnum" and d: "secure_hal.dpre P A hok hpre True (secureflash s)"
    and X: "\<And>j. j < cnum \<Longrightarrow> holds j (X j) s"
  shows "wp (etss_init hal L) (\<lambda>_ s'. \<forall>j<cnum. served j (X j) s') (\<lambda>_ _. False) s"
proof -
  note hal = client_hal [OF some_client]
  let ?ctx = "init_contexts hal (zip [0..<cnum] (map (client_cfg L) [0..<cnum]))"
  let ?tbl = "\<lambda>u. map (\<lambda>i. (if i < 4 then cid i else fst (etss_fs_ctx_tbl u ! i), snd (etss_fs_ctx_tbl u ! i))) [0..<cnum]"
  let ?m = "withS (\<lambda>s. if security_storage (features s)
      then bindE (init_fs_cfg L) (\<lambda>cfgs. init_contexts hal (zip [0..<length cfgs] cfgs)) else returnE ())"
  let ?Q = "\<lambda>_ s'. \<forall>j<cnum. served j (X j) s'"
  have "wp ?m ?Q (\<lambda>_ _. False) (s\<lparr>secureflash := d'\<rparr>)" if g: "secure_hal.good P A store hok (secureflash s) d'" for d'
  proof -
    let ?u = "s\<lparr>secureflash := d', etss_fs_ctx_tbl := ?tbl (s\<lparr>secureflash := d'\<rparr>)\<rparr>"
    have g': "secure_hal.ready P A hok d'" "store (nor_hw d') = store (nor_hw (secureflash s))"
      using g unfolding secure_hal.good_def [OF hal] by simp_all
    have "wp ?ctx ?Q (\<lambda>_ _. False) ?u"
    proof (rule init_contexts_wp)
      show "map fst (etss_fs_ctx_tbl ?u) = cids" using four_clients by (intro nth_equalityI) auto
      show "secure_hal.dpre P A hok hpre True (secureflash ?u)" using secure_hal.ready_dpre [OF hal TrueI g'(1)] by simp
      show "holds j (X j) ?u" if "j < cnum" for j
        using X [OF that] secure_hal.dmem_cong [OF client_hal [OF that] g'(2)] by (simp add: holds_def)
    qed auto
    moreover have "security_storage (features (s\<lparr>secureflash := d'\<rparr>))"
      using g'(1) storage unfolding secure_hal.ready_def [OF hal] by (simp add: features_def)
    ultimately show ?thesis by (simp add: init_fs_cfg_def cong: if_weak_cong)
  qed
  then have "wp (secureflash_init hal) (\<lambda>_ d'. wp ?m ?Q (\<lambda>_ _. False) (s\<lparr>secureflash := d'\<rparr>)) (\<lambda>_ _. False) (secureflash s)"
    by (intro wp_mono [OF secure_hal.sf_init_wp [OF hal d]]) blast+
  then show ?thesis
    by (simp add: etss_init_def wp_on_dev wp_fun)
qed

end

end
