(* ===== verification/Etss_Req_Mngr.thy ===== *)
theory Etss_Req_Mngr
  imports Etss_Service
begin

text \<open>
  The request manager of the service, \<open>etss_req_mngr.c\<close>: handlers that take the arguments of a call
  from the vectors of the message, the handling of a signal, and the service loop, started after
  \<open>etss_init\<close>. The signals come from the generated \<open>psa_manifest/etss.h\<close>. The loops run forever in
  the source; the model runs a given number of their iterations.
\<close>

section \<open>Handlers\<close>

definition de64 :: "buf \<Rightarrow> u64" where
  "de64 bs = fold (\<lambda>i w. w OR push_bit (8 * i) (ucast (bs ! i))) [0..<8] 0"

definition msg_read :: "'q psa_api \<Rightarrow> nat \<Rightarrow> u32 \<Rightarrow> ('h, 'v, 'q, buf) etss_op" where
  "msg_read api i n = (\<lambda>s. case psa_read api (msg_handle (etss_msg s)) i n (framework s) of
     (bs, q) \<Rightarrow> (Inr bs, s\<lparr>framework := q\<rparr>))"

text \<open>\<^verbatim>\<open>num = psa_read(msg.handle, i, &x, sizeof(x)); if (num != sizeof(x)) return ETSS_ERR_PROGRAMMER_ERROR;\<close>\<close>

definition read_arg :: "'q psa_api \<Rightarrow> nat \<Rightarrow> u32 \<Rightarrow> ('h, 'v, 'q, buf) etss_op" where
  "read_arg api i n = bindE (msg_read api i n) (\<lambda>bs.
     if length bs \<noteq> unat n then throwE ETSS_ERR_PROGRAMMER_ERROR else returnE bs)"

definition etss_set_ipc :: "'q psa_api \<Rightarrow> ('h, 'v, 'q, unit) etss_op" where
  "etss_set_ipc api = withS (\<lambda>s. let msg = etss_msg s in
     if in_size msg ! 0 \<noteq> 8 \<or> in_size msg ! 2 \<noteq> 4 then throwE ETSS_ERR_PROGRAMMER_ERROR
     else
       bindE (read_arg api 0 8) (\<lambda>uid.
       bindE (read_arg api 2 4) (\<lambda>create_flags.
       etss_set api (msg_client_id msg) (de64 uid) (in_size msg ! 1) (de32 create_flags))))"

definition etss_get_ipc :: "'q psa_api \<Rightarrow> ('h, 'v, 'q, unit) etss_op" where
  "etss_get_ipc api = withS (\<lambda>s. let msg = etss_msg s in
     if in_size msg ! 0 \<noteq> 8 \<or> in_size msg ! 1 \<noteq> 4 then throwE ETSS_ERR_PROGRAMMER_ERROR
     else
       bindE (read_arg api 0 8) (\<lambda>uid.
       bindE (read_arg api 1 4) (\<lambda>data_offset.
       bindE (etss_get api (msg_client_id msg) (de64 uid) (de32 data_offset) (out_size msg ! 0)) (\<lambda>_. returnE ()))))"

definition encode_info :: "psa_storage_info_t \<Rightarrow> buf" where
  "encode_info i = le32 (capacity i) @ le32 (info_size i) @ le32 (psa_flags i)"

definition etss_get_info_ipc :: "'q psa_api \<Rightarrow> ('h, 'v, 'q, unit) etss_op" where
  "etss_get_info_ipc api = withS (\<lambda>s. let msg = etss_msg s in
     if in_size msg ! 0 \<noteq> 8 \<or> out_size msg ! 0 \<noteq> 12 then throwE ETSS_ERR_PROGRAMMER_ERROR
     else
       bindE (read_arg api 0 8) (\<lambda>uid.
       bindE (etss_get_info (msg_client_id msg) (de64 uid)) (\<lambda>info.
       etss_req_mngr_write api (encode_info info))))"

definition etss_remove_ipc :: "'q psa_api \<Rightarrow> ('h, 'v, 'q, unit) etss_op" where
  "etss_remove_ipc api = withS (\<lambda>s. let msg = etss_msg s in
     if in_size msg ! 0 \<noteq> 8 then throwE ETSS_ERR_PROGRAMMER_ERROR
     else
       bindE (read_arg api 0 8) (\<lambda>uid.
       etss_remove (msg_client_id msg) (de64 uid)))"

definition etss_get_puf_ipc :: "'q psa_api \<Rightarrow> buf \<Rightarrow> u8 \<Rightarrow> ('h, 'v, 'q, unit) etss_op" where
  "etss_get_puf_ipc api stack_bytes stack_size = withS (\<lambda>s.
     bindE (etss_get_puf api stack_bytes stack_size (out_size (etss_msg s) ! 0)) (\<lambda>_. returnE ()))"

definition etss_generate_random_number_ipc :: "'q psa_api \<Rightarrow> buf \<Rightarrow> u8 \<Rightarrow> ('h, 'v, 'q, unit) etss_op" where
  "etss_generate_random_number_ipc api stack_bytes stack_size = withS (\<lambda>s.
     bindE (etss_generate_random_number api stack_bytes stack_size (out_size (etss_msg s) ! 0)) (\<lambda>_. returnE ()))"

definition etss_mc_increment_ipc :: "'q psa_api \<Rightarrow> ('h, 'v, 'q, unit) etss_op" where
  "etss_mc_increment_ipc api =
     bindE (read_arg api 0 1) (\<lambda>mc. etss_mc_increment (mc ! 0))"

definition etss_mc_get_ipc :: "'q psa_api \<Rightarrow> buf \<Rightarrow> u8 \<Rightarrow> ('h, 'v, 'q, unit) etss_op" where
  "etss_mc_get_ipc api stack_bytes stack_size =
     bindE (read_arg api 0 1) (\<lambda>mc.
     withS (\<lambda>s. etss_mc_get api stack_bytes stack_size (mc ! 0) (out_size (etss_msg s) ! 0)))"

definition etss_secure_flash_provisioning_ipc :: "'q psa_api \<Rightarrow> ('h, 'v) sf_hal \<Rightarrow> sf_layout \<Rightarrow> ('h, 'v, 'q, unit) etss_op" where
  "etss_secure_flash_provisioning_ipc api hal L = withS (\<lambda>s.
     let data_length = in_size (etss_msg s) ! 0 in
     if data_length > PROV_BLOB_LEN_MAX L then throwE ETSS_ERR_GENERIC_ERROR
     else
       bindE (read_arg api 0 data_length) (\<lambda>bs.
       etss_secure_flash_provisioning hal (bsplice 0 bs (replicate (unat (PROV_BLOB_LEN_MAX L)) 0)) data_length))"

section \<open>Signals\<close>

text \<open>How the service stops: \<open>psa_panic\<close>, \<open>tfm_hal_system_reset\<close>, or a run with no result in C.\<close>

datatype service_stop = Panic | System_Reset | Stuck

record etss_signals =
  ETSS_SET_SIGNAL :: u32
  ETSS_GET_SIGNAL :: u32
  ETSS_GET_INFO_SIGNAL :: u32
  ETSS_REMOVE_SIGNAL :: u32
  ETSS_GET_PUF_SIGNAL :: u32
  ETSS_GENERATE_RANDOM_NUMBER_SIGNAL :: u32
  ETSS_MC_INCREMENT_SIGNAL :: u32
  ETSS_MC_GET_SIGNAL :: u32
  ETSS_SECURE_FLASH_PROVISIONING_SIGNAL :: u32
  PSA_WAIT_ANY :: u32

type_synonym ('h, 'v, 'q) etss_step = "(('h, 'v, 'q) etss_state, service_stop, unit) sem"

definition reply :: "'q psa_api \<Rightarrow> int \<Rightarrow> ('h, 'v, 'q) etss_step" where
  "reply api status = modifyS (\<lambda>s. s\<lparr>framework := psa_reply api (msg_handle (etss_msg s)) status (framework s)\<rparr>)"

text \<open>\<^verbatim>\<open>status = (psa_status_t)pfn(); psa_reply(msg.handle, status);\<close>\<close>

definition call_and_reply :: "'q psa_api \<Rightarrow> ('h, 'v, 'q, unit) etss_op \<Rightarrow> ('h, 'v, 'q) etss_step" where
  "call_and_reply api pfn = tryE pfn (\<lambda>r. case r of
     Inr _ \<Rightarrow> reply api 0
   | Inl e \<Rightarrow> if e = ETSS_ERR PSA_NO_RESULT then throwE Stuck else reply api (etss_code e))"

definition get_msg :: "'q psa_api \<Rightarrow> u32 \<Rightarrow> (('h, 'v, 'q) etss_state, psa_error, unit) sem" where
  "get_msg api signal = (\<lambda>s. case psa_get api signal (framework s) of
     (Inl e, q) \<Rightarrow> (Inl e, s\<lparr>framework := q\<rparr>)
   | (Inr m, q) \<Rightarrow> (Inr (), s\<lparr>framework := q, etss_msg := m\<rparr>))"

definition etss_signal_handle :: "'q psa_api \<Rightarrow> u32 \<Rightarrow> ('h, 'v, 'q, unit) etss_op \<Rightarrow> ('h, 'v, 'q) etss_step" where
  "etss_signal_handle api signal pfn = tryE (get_msg api signal) (\<lambda>r. case r of
     Inl _ \<Rightarrow> returnE ()
   | Inr _ \<Rightarrow> withS (\<lambda>s.
       if msg_type (etss_msg s) = PSA_IPC_CONNECT then reply api 0
       else if msg_type (etss_msg s) = PSA_IPC_CALL then call_and_reply api pfn
       else if msg_type (etss_msg s) = PSA_IPC_DISCONNECT then reply api 0
       else throwE Panic))"

definition etss_dispatch :: "'q psa_api \<Rightarrow> etss_signals \<Rightarrow> buf \<Rightarrow> u8 \<Rightarrow> u32 \<Rightarrow> ('h, 'v, 'q) etss_step" where
  "etss_dispatch api sg stack_bytes stack_size signals =
     (if signals AND ETSS_SET_SIGNAL sg \<noteq> 0 then etss_signal_handle api (ETSS_SET_SIGNAL sg) (etss_set_ipc api)
      else if signals AND ETSS_GET_SIGNAL sg \<noteq> 0 then etss_signal_handle api (ETSS_GET_SIGNAL sg) (etss_get_ipc api)
      else if signals AND ETSS_GET_INFO_SIGNAL sg \<noteq> 0 then
        etss_signal_handle api (ETSS_GET_INFO_SIGNAL sg) (etss_get_info_ipc api)
      else if signals AND ETSS_REMOVE_SIGNAL sg \<noteq> 0 then
        etss_signal_handle api (ETSS_REMOVE_SIGNAL sg) (etss_remove_ipc api)
      else if signals AND ETSS_GET_PUF_SIGNAL sg \<noteq> 0 then
        etss_signal_handle api (ETSS_GET_PUF_SIGNAL sg) (etss_get_puf_ipc api stack_bytes stack_size)
      else if signals AND ETSS_GENERATE_RANDOM_NUMBER_SIGNAL sg \<noteq> 0 then
        etss_signal_handle api (ETSS_GENERATE_RANDOM_NUMBER_SIGNAL sg) (etss_generate_random_number_ipc api stack_bytes stack_size)
      else if signals AND ETSS_MC_INCREMENT_SIGNAL sg \<noteq> 0 then
        etss_signal_handle api (ETSS_MC_INCREMENT_SIGNAL sg) (etss_mc_increment_ipc api)
      else if signals AND ETSS_MC_GET_SIGNAL sg \<noteq> 0 then
        etss_signal_handle api (ETSS_MC_GET_SIGNAL sg) (etss_mc_get_ipc api stack_bytes stack_size)
      else throwE Panic)"

definition wait_signals :: "'q psa_api \<Rightarrow> u32 \<Rightarrow> (('h, 'v, 'q) etss_state, service_stop, u32) sem" where
  "wait_signals api signal_mask = (\<lambda>s. case psa_wait api signal_mask (framework s) of (signals, q) \<Rightarrow> (Inr signals, s\<lparr>framework := q\<rparr>))"

text \<open>The first \<open>n\<close> iterations of \<^verbatim>\<open>while (1)\<close>.\<close>

primrec etss_service_loop :: "nat \<Rightarrow> 'q psa_api \<Rightarrow> etss_signals \<Rightarrow> buf \<Rightarrow> u8 \<Rightarrow> ('h, 'v, 'q) etss_step" where
  "etss_service_loop 0 api sg stack_bytes stack_size = returnE ()"
| "etss_service_loop (Suc n) api sg stack_bytes stack_size =
     bindE (wait_signals api (PSA_WAIT_ANY sg)) (\<lambda>signals.
     bindE (etss_dispatch api sg stack_bytes stack_size signals) (\<lambda>_.
     etss_service_loop n api sg stack_bytes stack_size))"

text \<open>
  The loop of a device that has not been provisioned: the result of \<open>psa_get\<close> is not looked at, so after a
  failure the previous message is handled again; a message of another type gets no reply.
\<close>

primrec provisioning_loop :: "nat \<Rightarrow> 'q psa_api \<Rightarrow> ('h, 'v) sf_hal \<Rightarrow> sf_layout \<Rightarrow> etss_signals \<Rightarrow> ('h, 'v, 'q) etss_step" where
  "provisioning_loop 0 api hal L sg = returnE ()"
| "provisioning_loop (Suc n) api hal L sg =
     bindE (wait_signals api (ETSS_SECURE_FLASH_PROVISIONING_SIGNAL sg)) (\<lambda>_.
     bindE (tryE (get_msg api (ETSS_SECURE_FLASH_PROVISIONING_SIGNAL sg)) (\<lambda>_. returnE ())) (\<lambda>_.
     bindE (withS (\<lambda>s.
       if msg_type (etss_msg s) = PSA_IPC_CONNECT \<or> msg_type (etss_msg s) = PSA_IPC_DISCONNECT then reply api 0
       else if msg_type (etss_msg s) = PSA_IPC_CALL then call_and_reply api (etss_secure_flash_provisioning_ipc api hal L)
       else returnE ())) (\<lambda>_.
     provisioning_loop n api hal L sg)))"

definition etss_req_mngr_init :: "nat \<Rightarrow> 'q psa_api \<Rightarrow> ('h, 'v) sf_hal \<Rightarrow> sf_layout \<Rightarrow> etss_signals \<Rightarrow> buf \<Rightarrow> u8 \<Rightarrow>
    ('h, 'v, 'q) etss_step" where
  "etss_req_mngr_init n api hal L sg stack_bytes stack_size = tryE (etss_init hal L) (\<lambda>r. case r of
     Inr _ \<Rightarrow> etss_service_loop n api sg stack_bytes stack_size
   | Inl e \<Rightarrow> if e = ETSS_ERR_SF_UNPROVISIONED then provisioning_loop n api hal L sg
              else if e = ETSS_ERR PSA_NO_RESULT then throwE Stuck else throwE System_Reset)"

end
