(* ===== verification/Etss_Session.thy ===== *)
theory Etss_Session
  imports Etss_Startup Etss_Req_Mngr
begin

text \<open>
  Requests as they arrive in messages, the abstract store that each client sees, and the handlers of the
  request manager as its implementation.
\<close>

section \<open>Arguments in messages\<close>

lemma upt8: "[0..<8] = [0, 1, 2, 3, 4, 5, 6, 7 :: nat]"
  by (simp add: upt_rec)

lemma le64_halves: "le64 w = le32 (ucast w) @ le32 (ucast (drop_bit 32 w))"
proof -
  have b: "(ucast (drop_bit k (ucast v :: u32)) :: u8) = ucast (drop_bit k v)" if "k \<le> 24" for k and v :: u64
    by (rule bit_word_eqI) (use that in \<open>simp add: bit_simps\<close>)
  show ?thesis using b [of 0] by (simp add: le64_def le32_def upt8 b)
qed

lemma de64_halves:
  assumes "length xs = 4"
  shows "de64 (xs @ ys) = ucast (de32 xs) OR push_bit 32 (ucast (de32 ys))"
proof -
  have p: "(ucast (push_bit k (ucast b :: u32)) :: u64) = push_bit k (ucast b)" if "k \<le> 24" for k and b :: u8
    by (rule bit_word_eqI) (use that in \<open>auto simp: bit_simps dest: bit_imp_le_length\<close>)
  have q: "(ucast (ucast b :: u32) :: u64) = ucast b" for b :: u8 using p [of 0 b] by simp
  show ?thesis using assms by (simp add: de64_def de32_def upt8 nth_append unsigned_or_eq p q ac_simps push_bit_or)
qed

lemma de64_le64 [simp]: "de64 (le64 w) = w"
proof -
  have "ucast (ucast w :: u32) OR push_bit 32 (ucast (ucast (drop_bit 32 w) :: u32)) = w"
    by (rule bit_word_eqI) (auto simp: bit_simps)
  then show ?thesis by (simp add: le64_halves de64_halves)
qed

section \<open>The abstract store\<close>

datatype asset_request =
    Req_Set u64 buf u32
  | Req_Get u64 u32 u32
  | Req_Info u64
  | Req_Remove u64

text \<open>\<open>carries req m q\<close>: the message \<open>m\<close> with the vectors in \<open>q\<close> is the request \<open>req\<close>.\<close>

fun carries :: "('q \<Rightarrow> nat \<Rightarrow> buf) \<Rightarrow> ('q \<Rightarrow> nat \<Rightarrow> buf) \<Rightarrow> ('q \<Rightarrow> nat \<Rightarrow> nat) \<Rightarrow> asset_request \<Rightarrow> psa_msg_t \<Rightarrow> 'q \<Rightarrow> bool" where
  "carries inq outv room (Req_Set uid D fl) m q \<longleftrightarrow> in_size m ! 0 = 8 \<and> in_size m ! 2 = 4 \<and> unat (in_size m ! 1) = length D \<and>
     inq q 0 = le64 uid \<and> inq q 1 = D \<and> inq q 2 = le32 fl"
| "carries inq outv room (Req_Get uid off sz) m q \<longleftrightarrow> in_size m ! 0 = 8 \<and> in_size m ! 1 = 4 \<and> out_size m ! 0 = sz \<and>
     inq q 0 = le64 uid \<and> inq q 1 = le32 off \<and> outv q 0 = [] \<and> room q 0 = unat sz"
| "carries inq outv room (Req_Info uid) m q \<longleftrightarrow> in_size m ! 0 = 8 \<and> out_size m ! 0 = 12 \<and>
     inq q 0 = le64 uid \<and> outv q 0 = [] \<and> room q 0 = 12"
| "carries inq outv room (Req_Remove uid) m q \<longleftrightarrow> in_size m ! 0 = 8 \<and> inq q 0 = le64 uid"

fun request_handler :: "'q psa_api \<Rightarrow> asset_request \<Rightarrow> ('h, 'v, 'q, unit) etss_op" where
  "request_handler api (Req_Set uid D fl) = etss_set_ipc api"
| "request_handler api (Req_Get uid off sz) = etss_get_ipc api"
| "request_handler api (Req_Info uid) = etss_get_info_ipc api"
| "request_handler api (Req_Remove uid) = etss_remove_ipc api"

fun request_uid :: "asset_request \<Rightarrow> u64" where
  "request_uid (Req_Set uid D fl) = uid"
| "request_uid (Req_Get uid off sz) = uid"
| "request_uid (Req_Info uid) = uid"
| "request_uid (Req_Remove uid) = uid"

fun request_len :: "asset_request \<Rightarrow> u32" where
  "request_len (Req_Set uid D fl) = of_nat (length D)"
| "request_len _ = 0"

text \<open>
  When a request succeeds on the assets \<open>X\<close> of its client and what it then sends, and what it does to the
  assets.
\<close>

fun store_answers :: "asset_request \<Rightarrow> (u64 \<Rightarrow> afile option) \<Rightarrow> buf \<Rightarrow> bool" where
  "store_answers (Req_Set uid D fl) X out \<longleftrightarrow> \<not> (\<exists>f. X uid = Some f \<and> write_once f)"
| "store_answers (Req_Get uid off sz) X out \<longleftrightarrow>
     (\<exists>f. X uid = Some f \<and> unat off \<le> length (af_data f) \<and> out = take (unat sz) (drop (unat off) (af_data f)))"
| "store_answers (Req_Info uid) X out \<longleftrightarrow> (\<exists>f. X uid = Some f \<and> out = encode_info (psa_info f))"
| "store_answers (Req_Remove uid) X out \<longleftrightarrow> (\<exists>f. X uid = Some f \<and> \<not> write_once f)"

fun store_effect :: "etss_flash_fs_config_t \<Rightarrow> asset_request \<Rightarrow> (u64 \<Rightarrow> afile option) \<Rightarrow> u64 \<Rightarrow> afile option" where
  "store_effect C (Req_Set uid D fl) X = X(uid \<mapsto> set_afile C (of_nat (length D)) fl D)"
| "store_effect C (Req_Remove uid) X = X(uid := None)"
| "store_effect C req X = X"

text \<open>The errors of a request on a device that does not fail.\<close>

fun store_rejects :: "asset_request \<Rightarrow> (u64 \<Rightarrow> afile option) \<Rightarrow> etss_err_t \<Rightarrow> bool" where
  "store_rejects (Req_Set uid D fl) X e \<longleftrightarrow> (\<exists>f. X uid = Some f \<and> write_once f) \<and> e = ETSS_ERR_NOT_PERMITTED"
| "store_rejects (Req_Get uid off sz) X e \<longleftrightarrow> X uid = None \<and> e = ETSS_ERR_DOES_NOT_EXIST \<or>
     (\<exists>f. X uid = Some f \<and> length (af_data f) < unat off) \<and> e = ETSS_ERR_INVALID_ARGUMENT"
| "store_rejects (Req_Info uid) X e \<longleftrightarrow> X uid = None \<and> e = ETSS_ERR_DOES_NOT_EXIST"
| "store_rejects (Req_Remove uid) X e \<longleftrightarrow> X uid = None \<and> e = ETSS_ERR_DOES_NOT_EXIST \<or>
     (\<exists>f. X uid = Some f \<and> write_once f) \<and> e = ETSS_ERR_NOT_PERMITTED"

text \<open>A set request that is refused for want of storage.\<close>

fun store_refuses :: "etss_flash_fs_config_t \<Rightarrow> asset_request \<Rightarrow> (u64 \<Rightarrow> afile option) \<Rightarrow> etss_err_t \<Rightarrow> bool" where
  "store_refuses C (Req_Set uid D fl) X e \<longleftrightarrow> \<not> (\<exists>f. X uid = Some f \<and> write_once f) \<and> set_error C (of_nat (length D)) e"
| "store_refuses C _ X e \<longleftrightarrow> False"

text \<open>The operation behind a handler.\<close>

fun request_core :: "'q psa_api \<Rightarrow> int \<Rightarrow> asset_request \<Rightarrow> ('h, 'v, 'q, unit) etss_op" where
  "request_core api cid (Req_Set uid D fl) = etss_set api cid uid (of_nat (length D)) fl"
| "request_core api cid (Req_Get uid off sz) = bindE (etss_get api cid uid off sz) (\<lambda>_. returnE ())"
| "request_core api cid (Req_Info uid) = bindE (etss_get_info cid uid) (\<lambda>info. etss_req_mngr_write api (encode_info info))"
| "request_core api cid (Req_Remove uid) = etss_remove cid uid"

text \<open>The requests considered: an asset id, flags the service knows, and data that fits the transfer buffer.\<close>

fun request_ok :: "etss_flash_fs_config_t \<Rightarrow> nat \<Rightarrow> asset_request \<Rightarrow> bool" where
  "request_ok C asz (Req_Set uid D fl) \<longleftrightarrow> uid \<noteq> 0 \<and> supported_flags fl \<and> D \<noteq> [] \<and> length D \<le> asz \<and>
     fits_buffer C (of_nat (length D)) (replicate asz 0)"
| "request_ok C asz req \<longleftrightarrow> request_uid req \<noteq> 0"

lemma fits_buffer_cong: "length d = length d' \<Longrightarrow> fits_buffer C n d = fits_buffer C n d'"
  by (simp add: fits_buffer_def)

section \<open>The handlers\<close>

context etss_client
begin

lemma read_arg_wp:
  assumes "invec (framework s) i = bs" and "length bs = unat n"
    and "\<And>q. invec q = (invec (framework s))(i := []) \<Longrightarrow> outvec q = outvec (framework s) \<Longrightarrow> room q = room (framework s) \<Longrightarrow>
      Q bs (s\<lparr>framework := q\<rparr>)"
  shows "wp (read_arg api i n) Q E s"
proof -
  obtain as q where r: "psa_read api (msg_handle (etss_msg s)) i n (framework s) = (as, q)" by force
  note l = read_law [OF r]
  have "as = bs" "invec q = (invec (framework s))(i := [])" "outvec q = outvec (framework s)" "room q = room (framework s)"
    using l assms(1,2) by auto
  moreover from this have "wp (msg_read api i n) Q' E' s = Q' bs (s\<lparr>framework := q\<rparr>)" for Q' E'
    using r by (simp add: wp_def msg_read_def)
  ultimately show ?thesis using assms(2,3) by (simp add: read_arg_def)
qed

lemma handler_core:
  assumes car: "carries invec outvec room req (etss_msg s) (framework s)" and cid: "msg_client_id (etss_msg s) = cid"
    and core: "\<And>q. invec q 1 = invec (framework s) 1 \<or> \<not> (\<exists>uid D fl. req = Req_Set uid D fl) \<Longrightarrow> outvec q = outvec (framework s) \<Longrightarrow>
      room q = room (framework s) \<Longrightarrow> wp (request_core api cid req) Q E (s\<lparr>framework := q\<rparr>)"
  shows "wp (request_handler api req) Q E s"
proof (cases req)
  case (Req_Set uid D fl)
  have "length D = unat (in_size (etss_msg s) ! 1)" using car Req_Set by simp
  then have n: "in_size (etss_msg s) ! 1 = of_nat (length D)" by simp
  show ?thesis
    using car cid n unfolding Req_Set request_handler.simps etss_set_ipc_def wp_withS Let_def
  proof (simp, intro read_arg_wp [where bs = "le64 uid"], goal_cases)
    case (3 q)
    then show ?case
    proof (simp, intro read_arg_wp [where bs = "le32 fl"], goal_cases)
      case (3 q')
      then show ?case using core [of q'] Req_Set by simp
    qed simp_all
  qed simp_all
next
  case (Req_Get uid off sz)
  show ?thesis
    using car cid unfolding Req_Get request_handler.simps etss_get_ipc_def wp_withS Let_def
  proof (simp, intro read_arg_wp [where bs = "le64 uid"], goal_cases)
    case (3 q)
    then show ?case
    proof (simp, intro read_arg_wp [where bs = "le32 off"], goal_cases)
      case (3 q')
      then show ?case using core [of q'] Req_Get by simp
    qed simp_all
  qed simp_all
next
  case (Req_Info uid)
  show ?thesis
    using car cid unfolding Req_Info request_handler.simps etss_get_info_ipc_def wp_withS Let_def
  proof (simp, intro read_arg_wp [where bs = "le64 uid"], goal_cases)
    case (3 q)
    then show ?case using core [of q] Req_Info by simp
  qed simp_all
next
  case (Req_Remove uid)
  show ?thesis
    using car cid unfolding Req_Remove request_handler.simps etss_remove_ipc_def wp_withS Let_def
  proof (simp, intro read_arg_wp [where bs = "le64 uid"], goal_cases)
    case (3 q)
    then show ?case using core [of q] Req_Remove by simp
  qed simp_all
qed

text \<open>A state that differs in the vectors of the message only.\<close>

lemma client_ok_framework:
  assumes "client_ok cid i s"
  shows "client_ok cid i (s\<lparr>framework := q\<rparr>)" "assets cid i (s\<lparr>framework := q\<rparr>) = assets cid i s"
  using client_ok_keep [OF assms, of "s\<lparr>framework := q\<rparr>"] client_okD(3) [OF assms] by simp_all

definition answers :: "int \<Rightarrow> nat \<Rightarrow> asset_request \<Rightarrow> ('h, 'v, 'q) etss_state \<Rightarrow> ('h, 'v, 'q) etss_state \<Rightarrow> bool" where
  "answers cid i req s s' \<longleftrightarrow> same_buffer s s' \<and> client_ok cid i s' \<and>
     store_answers req (assets cid i s) (outvec (framework s') 0) \<and> assets cid i s' = store_effect C req (assets cid i s)"

definition fails :: "int \<Rightarrow> nat \<Rightarrow> asset_request \<Rightarrow> ('h, 'v, 'q) etss_state \<Rightarrow> etss_err_t \<Rightarrow> ('h, 'v, 'q) etss_state \<Rightarrow> bool" where
  "fails cid i req s e s' \<longleftrightarrow> same_buffer s s' \<and>
     (store_rejects req (assets cid i s) e \<and> client_ok cid i s' \<and> assets cid i s' = assets cid i s \<or>
      store_refuses C req (assets cid i s) e \<and>
        refused cid i (assets cid i s) (request_uid req) (request_len req) s')"

lemma core_wp:
  assumes c: "client_ok cid i s" and st: "security_storage (security_feature P)" and rel: "rel"
    and req: "request_ok C (length (asset_data s)) req" and car: "carries invec outvec room req m (framework s)"
    and u: "u = s\<lparr>framework := q\<rparr>" and q: "invec q 1 = invec (framework s) 1 \<or> \<not> (\<exists>uid D fl. req = Req_Set uid D fl)"
      "outvec q = outvec (framework s)" "room q = room (framework s)"
    and ad: "0 < length (asset_data s)" "length (asset_data s) < 4294967296"
    and nz: "\<And>uid f. assets cid i s uid = Some f \<Longrightarrow> af_max f \<noteq> 0"
  shows "wp (request_core api cid req) (\<lambda>_. answers cid i req s) (fails cid i req s) u"
proof (cases req)
  case (Req_Set uid D fl)
  note co = client_ok_framework [OF c, of q]
  have bf: "fits_buffer C (of_nat (length D)) (asset_data s)"
    using req Req_Set fits_buffer_cong [of "asset_data s" "replicate (length (asset_data s)) 0"] by simp
  have n: "length D = unat (of_nat (length D) :: u32)" using req Req_Set ad by (simp add: unat_of_nat_u32)
  have w: "wp (etss_set api cid uid (of_nat (length D)) fl) (\<lambda>_. same_buffer u) (\<lambda>_. same_buffer u) u" by (rule set_buffer) (use ad u in simp)
  show ?thesis
    unfolding answers_def fails_def u Req_Set request_core.simps
    by (rule wp_both [OF w [unfolded u] set_wp [OF co(1) st _ _ _ n]])
      (use q req car Req_Set ad bf nz co(2) rel n in \<open>auto simp: recorded_rest\<close>)
next
  case (Req_Get uid off sz)
  note co = client_ok_framework [OF c, of q]
  have t: "bslice (unat off) (min (unat sz) (length d - unat off)) d = take (unat sz) (drop (unat off) d)" for d :: buf
    by (auto simp: bslice_def min_def)
  show ?thesis
    unfolding answers_def fails_def u Req_Get request_core.simps wp_bindE wp_fun
    by (rule wp_mono [OF get_wp [OF co(1) st]]) (use q req car Req_Get ad co(2) rel t in auto)
next
  case (Req_Info uid)
  note co = client_ok_framework [OF c, of q]
  have w: "wp (etss_req_mngr_write api bs) Q E t = Q () (t\<lparr>framework := psa_write api (msg_handle (etss_msg t)) 0 bs (framework t)\<rparr>)" for bs Q E t
    by (simp add: etss_req_mngr_write_def)
  have o: "outvec (psa_write api h 0 (encode_info a) q) 0 = encode_info a" for h a
    using write_law [of q 0 "encode_info a" h] q car Req_Info by (simp add: encode_info_def)
  show ?thesis
    unfolding answers_def fails_def u Req_Info request_core.simps wp_bindE w
    by (rule wp_both [OF get_info_frame get_info_wp [OF co(1) st]])
      (use req Req_Info co(2) rel o in \<open>auto simp: client_ok_framework\<close>)
next
  case (Req_Remove uid)
  note co = client_ok_framework [OF c, of q]
  show ?thesis
    unfolding answers_def fails_def u Req_Remove request_core.simps
    by (rule wp_both [OF remove_frame remove_wp [OF co(1) st]])
      (use req Req_Remove co(2) rel nz in \<open>auto simp: recorded_rest\<close>)
qed

theorem handler_wp:
  assumes c: "client_ok cid i s" and st: "security_storage (security_feature P)" and rel: "rel"
    and req: "request_ok C (length (asset_data s)) req"
    and car: "carries invec outvec room req (etss_msg s) (framework s)" and cid: "msg_client_id (etss_msg s) = cid"
    and ad: "0 < length (asset_data s)" "length (asset_data s) < 4294967296"
    and nz: "\<And>uid f. assets cid i s uid = Some f \<Longrightarrow> af_max f \<noteq> 0"
  shows "wp (request_handler api req) (\<lambda>_. answers cid i req s) (fails cid i req s) s"
  by (rule handler_core [OF car cid], rule core_wp [OF c st rel req car refl _ _ _ ad nz])

lemma handler_others:
  assumes "client_ok cid i s" and st: "security_storage (security_feature P)" and req: "request_ok C asz req"
    and car: "carries invec outvec room req (etss_msg s) (framework s)" and cid: "msg_client_id (etss_msg s) = cid"
  shows "wp (request_handler api req) (\<lambda>_. slots_same i s) (\<lambda>_. slots_same i s) s"
proof (rule handler_core [OF car cid])
  fix q
  let ?u = "s\<lparr>framework := q\<rparr>"
  note co = client_ok_framework [OF assms(1), of q]
  have g: "etss_get_fs_ctx (etss_fs_ctx_tbl ?u) cid = Some i" "security_storage (features ?u)"
    using client_okD [OF co(1)] st by simp_all
  have uid: "request_uid req \<noteq> 0" using req by (cases req) simp_all
  have s: "slots_same i s t" if "others_same i ?u t" for t using that by (simp add: others_same_def slots_same_def)
  note so = service_others [OF g(1) _ g(2)]
  have w: "wp (etss_req_mngr_write api bs) Q E t = Q () (t\<lparr>framework := psa_write api (msg_handle (etss_msg t)) 0 bs (framework t)\<rparr>)" for bs Q E t
    by (simp add: etss_req_mngr_write_def)
  show "wp (request_core api cid req) (\<lambda>_. slots_same i s) (\<lambda>_. slots_same i s) ?u"
  proof (cases req)
    case (Req_Set uid D fl)
    then have "keeps_others i ?u (etss_set api cid uid (of_nat (length D)) fl) ?u" using so(1) req by fastforce
    then show ?thesis unfolding Req_Set request_core.simps by (rule wp_mono) (rule s, assumption)+
  next
    case (Req_Get uid off sz)
    then show ?thesis using uid unfolding Req_Get request_core.simps wp_bindE wp_fun by (intro wp_mono [OF so(2)]) (auto intro: s)
  next
    case (Req_Info uid)
    have s': "slots_same i s (t\<lparr>framework := y\<rparr>)" if "others_same i ?u t" for t y using s [OF that] by (simp add: slots_same_def)
    show ?thesis using uid Req_Info unfolding Req_Info request_core.simps wp_bindE w by (intro wp_mono [OF so(3)]) (auto intro: s s')
  next
    case (Req_Remove uid)
    then show ?thesis using uid unfolding Req_Remove request_core.simps by (intro wp_mono [OF so(4)]) (auto intro: s)
  qed
qed

end

end
