(* ===== verification/Etss_Runs.thy ===== *)
theory Etss_Runs
  imports Etss_Session
begin

text \<open>
  Runs of the whole service: start-up, requests of all clients in any order, and power cycles. The service
  implements a store of assets for each client, over every run.
\<close>

section \<open>The abstract service\<close>

text \<open>A request of the client in slot \<open>j\<close> with its result and what was sent; or power off and on.\<close>

datatype site_event = Request nat asset_request "etss_err_t + unit" buf | Power_Cycle

type_synonym vault = "nat \<Rightarrow> u64 \<Rightarrow> afile option"

text \<open>The set request was to replace an asset by one of another size.\<close>

fun resizes :: "etss_flash_fs_config_t \<Rightarrow> asset_request \<Rightarrow> (u64 \<Rightarrow> afile option) \<Rightarrow> bool" where
  "resizes C (Req_Set uid D fl) X \<longleftrightarrow>
     (\<exists>f. X uid = Some f \<and> \<not> write_once f \<and> af_max f \<noteq> ETSS_UTILS_ALIGN (of_nat (length D)) (ucast (program_unit C)))"
| "resizes C req X \<longleftrightarrow> False"

text \<open>
  The clients that are served and the assets of every client. A client whose asset could not be replaced is not
  served again before the next power cycle.
\<close>

fun event_effect :: "sf_layout \<Rightarrow> site_event \<Rightarrow> nat set \<times> vault \<Rightarrow> nat set \<times> vault" where
  "event_effect L (Request j req (Inr _) out) (U, V) = (U, V(j := store_effect (client_cfg L j) req (V j)))"
| "event_effect L (Request j req (Inl e) out) (U, V) = (if resizes (client_cfg L j) req (V j) then U - {j} else U, V)"
| "event_effect L Power_Cycle (U, V) = ({..<length (SECURE_FLASH_CLIENTS L)}, V)"

fun event_right :: "sf_layout \<Rightarrow> site_event \<Rightarrow> nat set \<times> vault \<Rightarrow> bool" where
  "event_right L (Request j req (Inr _) out) (U, V) \<longleftrightarrow> store_answers req (V j) out"
| "event_right L (Request j req (Inl e) out) (U, V) \<longleftrightarrow>
     store_rejects req (V j) e \<or> store_refuses (client_cfg L j) req (V j) e"
| "event_right L Power_Cycle UV \<longleftrightarrow> True"

definition after_events :: "sf_layout \<Rightarrow> site_event list \<Rightarrow> vault \<Rightarrow> nat set \<times> vault" where
  "after_events L evs V = fold (event_effect L) evs ({..<length (SECURE_FLASH_CLIENTS L)}, V)"

definition history_right :: "sf_layout \<Rightarrow> site_event list \<Rightarrow> vault \<Rightarrow> bool" where
  "history_right L evs V \<longleftrightarrow> (\<forall>k<length evs. event_right L (evs ! k) (after_events L (take k evs) V))"

lemma after_events_simps [simp]:
  "after_events L [] V = ({..<length (SECURE_FLASH_CLIENTS L)}, V)"
  "after_events L (evs @ [ev]) V = event_effect L ev (after_events L evs V)"
  by (simp_all add: after_events_def)

lemma history_right_snoc [simp]:
  "history_right L [] V"
  "history_right L (evs @ [ev]) V \<longleftrightarrow> history_right L evs V \<and> event_right L ev (after_events L evs V)"
  by (auto simp: history_right_def nth_append less_Suc_eq)

lemma effect_max:
  assumes "request_ok C asz req" and "\<And>uid f. X uid = Some f \<Longrightarrow> af_max f \<noteq> 0" and "store_effect C req X uid = Some f"
    and "asz < 4294967296"
  shows "af_max f \<noteq> 0"
proof (cases req)
  case (Req_Set u D fl)
  let ?m = "ETSS_UTILS_ALIGN (of_nat (length D)) (ucast (program_unit C)) :: u32"
  have D: "D \<noteq> []" "length D \<le> asz" "unat (of_nat (length D) :: u32) \<le> unat ?m"
    using assms(1) by (simp_all add: Req_Set fits_buffer_def)
  have "0 < length D" using D(1) by simp
  also have "length D = unat (of_nat (length D) :: u32)" using D(2) assms(4) by (simp add: unat_of_nat_u32)
  also note D(3)
  finally have "?m \<noteq> 0" by (metis less_irrefl unat_0)
  then show ?thesis using assms(2) [of uid] assms(3) by (cases "uid = u") (auto simp: Req_Set set_afile_def)
qed (use assms(2,3) in \<open>auto split: if_splits\<close>)

section \<open>Runs\<close>

text \<open>After a power cycle the memory of the service is new, and the flash holds what it held.\<close>

definition powered_on :: "('h \<Rightarrow> nat \<Rightarrow> u8) \<Rightarrow> ('h \<Rightarrow> bool) \<Rightarrow> sf_layout \<Rightarrow> (nat \<Rightarrow> u8) \<Rightarrow> ('h, 'v, 'q) etss_state \<Rightarrow> bool" where
  "powered_on store hpre L F s \<longleftrightarrow> store (nor_hw (secureflash s)) = F \<and> hpre (nor_hw (secureflash s)) \<and>
     \<not> is_initialized (secureflash s) \<and> length (np_tx_buf (cmd_packet (secureflash s))) = BUFFER_SIZE \<and>
     length (etss_fs_ctx_tbl s) = length (SECURE_FLASH_CLIENTS L) \<and>
     0 < length (asset_data s) \<and> length (asset_data s) < 4294967296"

inductive site_run :: "('h, 'v) sf_hal \<Rightarrow> sf_layout \<Rightarrow> ('h \<Rightarrow> nat \<Rightarrow> u8) \<Rightarrow> ('h \<Rightarrow> bool) \<Rightarrow> 'q psa_api \<Rightarrow>
    ('q \<Rightarrow> nat \<Rightarrow> buf) \<Rightarrow> ('q \<Rightarrow> nat \<Rightarrow> buf) \<Rightarrow> ('q \<Rightarrow> nat \<Rightarrow> nat) \<Rightarrow> (nat \<Rightarrow> u8) \<Rightarrow> vault \<Rightarrow>
    site_event list \<Rightarrow> ('h, 'v, 'q) etss_state \<Rightarrow> bool"
  for hal L store hpre api invec outvec room F V
where
  Start: "powered_on store hpre L F s0 \<Longrightarrow> etss_init hal L s0 = (Inr (), s) \<Longrightarrow>
    site_run hal L store hpre api invec outvec room F V [] s"
| Serve: "site_run hal L store hpre api invec outvec room F V evs s \<Longrightarrow>
    j \<in> fst (after_events L evs V) \<Longrightarrow> request_ok (client_cfg L j) (length (asset_data s)) req \<Longrightarrow>
    carries invec outvec room req m q \<Longrightarrow> msg_client_id m = cl_client_id (SECURE_FLASH_CLIENTS L ! j) \<Longrightarrow>
    request_handler api req (s\<lparr>etss_msg := m, framework := q\<rparr>) = (r, s') \<Longrightarrow>
    site_run hal L store hpre api invec outvec room F V (evs @ [Request j req r (outvec (framework s') 0)]) s'"
| Restart: "site_run hal L store hpre api invec outvec room F V evs s \<Longrightarrow>
    powered_on store hpre L (store (nor_hw (secureflash s))) s1 \<Longrightarrow> etss_init hal L s1 = (Inr (), s') \<Longrightarrow>
    site_run hal L store hpre api invec outvec room F V (evs @ [Power_Cycle]) s'"

section \<open>The invariant of the service\<close>

lemma on_fs_at_frame:
  "(\<And>a v. asset_data v = asset_data u \<Longrightarrow> Q a v) \<Longrightarrow> (\<And>e v. asset_data v = asset_data u \<Longrightarrow> E e v) \<Longrightarrow> wp (on_fs_at i m) Q E u"
  by (auto simp: wp_def on_fs_at_def put_fs_def split: prod.splits sum.splits)

lemma init_contexts_frame:
  "asset_data u = b \<Longrightarrow> wp (init_contexts hal cs) (\<lambda>_ s'. asset_data s' = b) (\<lambda>_ _. True) u"
proof (induction cs arbitrary: u)
  case (Cons c cs)
  have "wp (etss_flash_fs_init_ctx_and_prepare hal (fst c) (snd c)) (\<lambda>_ s'. asset_data s' = b) (\<lambda>_ _. True) u"
    using Cons.prems by (auto simp: etss_flash_fs_init_ctx_and_prepare_def wp_cast_status wp_fun intro!: on_fs_at_frame)
  then show ?case using Cons.IH by (cases c) (auto elim!: wp_mono)
qed simp

lemma init_frame: "wp (etss_init hal L) (\<lambda>_ s'. asset_data s' = asset_data s) (\<lambda>_ _. True) s"
proof -
  have "asset_data t = asset_data u" if "init_contexts hal cs u = (Inr (), t)" for cs t and u :: "('a, 'b, 'c) etss_state"
    using wp_InrD [OF init_contexts_frame [OF refl] that] .
  then show ?thesis
    by (auto simp: etss_init_def wp_on_dev init_fs_cfg_def wp_fun) (auto simp: wp_def split: prod.splits sum.splits)
qed

context etss_system
begin

text \<open>Client \<open>j\<close> is served and has the assets \<open>X\<close>; the flash holds the assets \<open>X\<close> of client \<open>j\<close>.\<close>

definition up :: "nat \<Rightarrow> (u64 \<Rightarrow> afile option) \<Rightarrow> ('h, 'v, 'q) etss_state \<Rightarrow> bool" where
  "up j X s \<longleftrightarrow> secure_hal.client_ok hal (client_cfg L j) P A store hok (cid j) j s \<and>
     secure_hal.assets (client_cfg L j) store (cid j) j s = X"

definition kept :: "nat \<Rightarrow> (u64 \<Rightarrow> afile option) \<Rightarrow> ('h, 'v, 'q) etss_state \<Rightarrow> bool" where
  "kept j X s \<longleftrightarrow> (\<exists>F. holds j F s \<and> (\<lambda>uid. F (etss_get_fid (cid j) uid)) = X)"

definition site :: "nat set \<times> vault \<Rightarrow> ('h, 'v, 'q) etss_state \<Rightarrow> bool" where
  "site UV s \<longleftrightarrow> (case UV of (U, V) \<Rightarrow> U \<subseteq> {..<cnum} \<and> secure_hal.ready P A hok (secureflash s) \<and>
     0 < length (asset_data s) \<and> length (asset_data s) < 4294967296 \<and>
     (\<forall>j<cnum. (\<forall>uid f. V j uid = Some f \<longrightarrow> af_max f \<noteq> 0) \<and> kept j (V j) s \<and> (j \<in> U \<longrightarrow> up j (V j) s)))"

lemma up_kept: "j < cnum \<Longrightarrow> up j X s \<Longrightarrow> kept j X s"
proof -
  assume j: "j < cnum" and u: "up j X s"
  note hal = client_hal [OF j]
  let ?f = "client_fs (entered (cid j) j s) j"
  let ?F = "fs_dev.fs_abs (client_cfg L j) (secure_hal.dmem (client_cfg L j) store) ?f"
  have c: "secure_hal.client_ok hal (client_cfg L j) P A store hok (cid j) j s" and x: "secure_hal.assets (client_cfg L j) store (cid j) j s = X"
    using u by (simp_all add: up_def)
  have "fs_dev.found (client_cfg L j) True (secure_hal.dmem (client_cfg L j) store (flash ?f)) ?F"
    by (rule fs_dev.rest_found [OF secure_hal.fs_contract [OF hal] secure_hal.client_okD(5) [OF hal c]])
  moreover have "secure_hal.dmem (client_cfg L j) store (flash ?f) = secure_hal.dmem (client_cfg L j) store (secureflash s)"
    by (rule secure_hal.dmem_cong [OF hal]) (simp add: client_fs_def)
  ultimately have "holds j ?F s" by (simp add: holds_def)
  moreover have "(\<lambda>uid. ?F (etss_get_fid (cid j) uid)) = X" using x unfolding secure_hal.assets_eq [OF hal] .
  ultimately show ?thesis unfolding kept_def by blast
qed

lemma others_kept:
  assumes j: "j < cnum" "k < cnum" "j \<noteq> k" and s: "slots_same k s s'" and r: "secure_hal.ready P A hok (secureflash s')"
    and K: "keeps (client_cfg L k) store (store (nor_hw (secureflash s))) (nor_hw (secureflash s'))"
  shows "up j X s \<Longrightarrow> up j X s'" and "kept j X s \<Longrightarrow> kept j X s'"
proof -
  have e: "store (nor_hw (secureflash s')) p = store (nor_hw (secureflash s)) p" if "\<not> outside (client_cfg L j) p" for p
    using areas_apart [OF j, of p] K that by (simp add: keeps_def)
  show "up j X s'" if "up j X s"
    using that secure_hal.other_client_kept [OF client_hal [OF j(1)] s _ j(3) r e] by (simp add: up_def)
  show "kept j X s'" if "kept j X s" using that served_kept(2) [OF j s r K] by (auto simp: kept_def)
qed

lemma kept_cong: "j < cnum \<Longrightarrow> store (nor_hw (secureflash t)) = store (nor_hw (secureflash s)) \<Longrightarrow> kept j X s \<Longrightarrow> kept j X t"
  using secure_hal.dmem_cong [OF client_hal, of j "secureflash t" "secureflash s"] by (simp add: kept_def holds_def)

lemma site_message:
  assumes "site UV s"
  shows "site UV (s\<lparr>etss_msg := m, framework := q\<rparr>)"
proof -
  let ?u = "s\<lparr>etss_msg := m, framework := q\<rparr>"
  obtain U Y where UV: "UV = (U, Y)" by force
  have rd: "secure_hal.ready P A hok (secureflash s)" using assms UV by (simp add: site_def)
  have "up j X ?u" if "j < cnum" "up j X s" for j X
    using secure_hal.client_ok_keep [OF client_hal [OF that(1)], of "cid j" j s ?u] that(2) rd by (simp add: up_def)
  moreover have "kept j X ?u" if "kept j X s" for j X using that by (simp add: kept_def holds_def)
  ultimately show ?thesis using assms UV by (auto simp: site_def)
qed

lemma init_site:
  assumes on: "powered_on store hpre L F s" and X: "\<And>j. j < cnum \<Longrightarrow> kept j (X j) s"
    and nz: "\<And>j uid f. j < cnum \<Longrightarrow> X j uid = Some f \<Longrightarrow> af_max f \<noteq> 0"
  shows "wp (etss_init hal L) (\<lambda>_. site ({..<cnum}, X)) (\<lambda>_ _. False) s"
proof -
  note hal = client_hal [OF some_client]
  have d: "secure_hal.dpre P A hok hpre True (secureflash s)" using on unfolding secure_hal.dpre_def [OF hal] powered_on_def by simp
  obtain F where F: "\<And>j. j < cnum \<Longrightarrow> holds j (F j) s \<and> (\<lambda>uid. F j (etss_get_fid (cid j) uid)) = X j"
    using X unfolding kept_def by metis
  have "wp (etss_init hal L) (\<lambda>_ s'. \<forall>j<cnum. served j (F j) s') (\<lambda>_ _. False) s"
    by (rule init_wp [OF _ d]) (use on F in \<open>simp_all add: powered_on_def\<close>)
  then show ?thesis
  proof (rule wp_both [OF _ init_frame], goal_cases)
    case (1 a t)
    then have u: "up j (X j) t" if "j < cnum" for j using that F [OF that] by (simp add: up_def served_def)
    have "secure_hal.ready P A hok (secureflash t)"
      using u [OF some_client] secure_hal.client_okD(3) [OF hal] unfolding up_def by blast
    then show ?case using u up_kept 1(2) on nz by (auto simp: site_def powered_on_def)
  qed
qed

end

section \<open>Requests\<close>

text \<open>The service of a platform together with the framework that brings its requests.\<close>

locale etss_site = etss_system hal P A V store hok hpre sess L + psa_vectors api invec outvec room
  for hal :: "('h, 'v) sf_hal" and P A V store hok hpre sess L and api :: "'q psa_api" and invec outvec room
begin

lemma serve_site:
  assumes s: "site (U, X) s" and j: "j \<in> U" and req: "request_ok (client_cfg L j) (length (asset_data s)) req"
    and car: "carries invec outvec room req (etss_msg s) (framework s)" and cid: "msg_client_id (etss_msg s) = cid j"
  shows "wp (request_handler api req)
    (\<lambda>_ s'. site (event_effect L (Request j req (Inr ()) out) (U, X)) s' \<and>
       event_right L (Request j req (Inr ()) (outvec (framework s') 0)) (U, X))
    (\<lambda>e s'. site (event_effect L (Request j req (Inl e) out) (U, X)) s' \<and>
       event_right L (Request j req (Inl e) out) (U, X)) s"
proof -
  let ?C = "client_cfg L j" and ?F = "store (nor_hw (secureflash s))"
  let ?hok = "\<lambda>h. hok h \<and> keeps ?C store ?F h"
  have jc: "j < cnum" and bl: "0 < length (asset_data s)" "length (asset_data s) < 4294967296"
    and nz: "\<And>uid f. X j uid = Some f \<Longrightarrow> af_max f \<noteq> 0" and u: "up j (X j) s"
    using s j by (auto simp: site_def)
  note hal = client_hal [OF jc]
  have cl: "etss_client hal ?C P A V store hok hpre sess True api invec outvec room"
    by (rule etss_client.intro [OF hal psa_vectors_axioms])
  note fr = etss_client_frame [OF cl, of ?F] and fh = secure_hal.frame [OF hal, of ?F]
  have c: "secure_hal.client_ok hal ?C P A store hok (cid j) j s" and a: "secure_hal.assets ?C store (cid j) j s = X j"
    using u by (simp_all add: up_def)
  have cf: "secure_hal.client_ok hal ?C P A store ?hok (cid j) j s"
    by (rule secure_hal.client_ok_framed [OF hal c]) (simp add: keeps_def)
  have unframed: "secure_hal.client_ok hal ?C P A store hok (cid j) j t"
    if "secure_hal.client_ok hal ?C P A store ?hok (cid j) j t" for t
    by (rule secure_hal.client_ok_unframed [OF hal that])
  have others: "site (U', X(j := Y)) t"
    if t: "slots_same j s t" "secure_hal.ready P A hok (secureflash t)" "keeps ?C store ?F (nor_hw (secureflash t))"
      "length (asset_data t) = length (asset_data s)" and Y: "kept j Y t" "\<And>uid f. Y uid = Some f \<Longrightarrow> af_max f \<noteq> 0"
      and U': "U' \<subseteq> U" "j \<in> U' \<longrightarrow> up j Y t" for t U' Y
  proof -
    have "kept k (X k) t" "k \<in> U' \<Longrightarrow> up k (X k) t" if "k < cnum" "k \<noteq> j" for k
      using others_kept [OF that(1) jc that(2) t(1-3), of "X k"] s that U' by (auto simp: site_def)
    then show ?thesis using s t Y U' by (auto simp: site_def)
  qed
  have "wp (request_handler api req) (\<lambda>_. etss_client.answers hal ?C P A store ?hok outvec (cid j) j req s)
      (etss_client.fails hal ?C P A store ?hok True (cid j) j req s) s"
    by (rule etss_client.handler_wp [OF fr cf storage TrueI req car cid bl]) (use nz a in simp)
  moreover have "wp (request_handler api req) (\<lambda>_. slots_same j s) (\<lambda>_. slots_same j s) s"
    by (rule etss_client.handler_others [OF cl c storage req car cid])
  ultimately show ?thesis
  proof (rule wp_both, goal_cases)
    case (1 r t)
    then have t: "slots_same j s t" and an: "same_buffer s t" "secure_hal.client_ok hal ?C P A store ?hok (cid j) j t"
        "store_answers req (X j) (outvec (framework t) 0)" "secure_hal.assets ?C store (cid j) j t = store_effect ?C req (X j)"
      unfolding etss_client.answers_def [OF fr] a by simp_all
    note f = secure_hal.framed_ok [OF hal an(2)]
    have up: "up j (store_effect ?C req (X j)) t" using unframed [OF an(2)] an(4) by (simp add: up_def)
    have "site (U, X(j := store_effect ?C req (X j))) t"
      by (rule others [OF t f an(1) up_kept [OF jc up]]) (use up effect_max [OF req nz _ bl(2)] in auto)
    then show ?case using an(3) by simp
  next
    case (2 e t)
    then have t: "slots_same j s t" and fl: "same_buffer s t"
        "store_rejects req (X j) e \<and> secure_hal.client_ok hal ?C P A store ?hok (cid j) j t \<and>
           secure_hal.assets ?C store (cid j) j t = X j \<or>
         store_refuses ?C req (X j) e \<and> secure_hal.refused hal ?C P A store ?hok True (cid j) j (X j) (request_uid req) (request_len req) t"
      unfolding etss_client.fails_def [OF fr] a by simp_all
    let ?U = "if resizes ?C req (X j) then U - {j} else U"
    have fin: ?case if "secure_hal.ready P A hok (secureflash t)" "keeps ?C store ?F (nor_hw (secureflash t))" "kept j (X j) t"
      "j \<in> ?U \<Longrightarrow> up j (X j) t" "store_rejects req (X j) e \<or> store_refuses ?C req (X j) e"
    proof -
      have "site (?U, X(j := X j)) t" by (rule others [OF t that(1,2) fl(1) that(3) nz]) (use that(4) in auto)
      then show ?thesis using that(5) by simp
    qed
    from fl(2) show ?case
    proof (elim disjE conjE)
      assume r: "store_rejects req (X j) e" "secure_hal.client_ok hal ?C P A store ?hok (cid j) j t"
        "secure_hal.assets ?C store (cid j) j t = X j"
      have up: "up j (X j) t" using unframed [OF r(2)] r(3) by (simp add: up_def)
      show ?thesis by (rule fin [OF secure_hal.framed_ok [OF hal r(2)] up_kept [OF jc up]]) (use up r(1) in simp_all)
    next
      assume r: "store_refuses ?C req (X j) e"
        and rf: "secure_hal.refused hal ?C P A store ?hok True (cid j) j (X j) (request_uid req) (request_len req) t"
      note rf = rf [unfolded secure_hal.refused_def [OF fh]]
      have rd: "secure_hal.ready P A hok (secureflash t)" "keeps ?C store ?F (nor_hw (secureflash t))"
        using rf unfolding secure_hal.ready_def [OF fh] secure_hal.ready_def [OF hal] by simp_all
      have "kept j (X j) t" using rf unfolding kept_def holds_def by blast
      moreover have "up j (X j) t" if "j \<in> ?U"
      proof -
        have "\<forall>f. X j (request_uid req) = Some f \<longrightarrow> af_max f = ETSS_UTILS_ALIGN (request_len req) (ucast (program_unit ?C))"
          using that r by (cases req) (auto split: if_splits)
        then have "secure_hal.client_ok hal ?C P A store ?hok (cid j) j t" "secure_hal.assets ?C store (cid j) j t = X j"
          using rf by blast+
        then show ?thesis using unframed by (simp add: up_def)
      qed
      ultimately show ?thesis by (intro fin rd) (use r in simp_all)
    qed
  qed
qed

text \<open>Every run: each result is right, and the invariant holds for the abstract state that the events lead to.\<close>

theorem run_right:
  assumes run: "site_run hal L store hpre api invec outvec room F X evs s"
    and start: "powered_on store hpre L F s0" "\<And>j. j < cnum \<Longrightarrow> kept j (X j) s0"
    and nz: "\<And>j uid f. j < cnum \<Longrightarrow> X j uid = Some f \<Longrightarrow> af_max f \<noteq> 0"
  shows "history_right L evs X \<and> site (after_events L evs X) s"
  using run
proof induction
  case (Start s1 s)
  have "kept j (X j) s1" if "j < cnum" for j
    by (rule kept_cong [OF that _ start(2) [OF that]]) (use Start(1) start(1) in \<open>simp add: powered_on_def\<close>)
  from wp_InrD [OF init_site [OF Start(1) this nz] Start(2)] show ?case by simp
next
  case (Serve evs s j req m q r s')
  obtain U Y where UY: "after_events L evs X = (U, Y)" by force
  let ?u = "s\<lparr>etss_msg := m, framework := q\<rparr>"
  have "site (U, Y) ?u" by (rule site_message) (use Serve UY in simp)
  then have "wp (request_handler api req)
    (\<lambda>_ s'. site (event_effect L (Request j req (Inr ()) []) (U, Y)) s' \<and>
       event_right L (Request j req (Inr ()) (outvec (framework s') 0)) (U, Y))
    (\<lambda>e s'. site (event_effect L (Request j req (Inl e) []) (U, Y)) s' \<and>
       event_right L (Request j req (Inl e) []) (U, Y)) ?u"
    by (rule serve_site) (use Serve UY in simp_all)
  then show ?case using Serve UY by (cases r) (auto simp: wp_def)
next
  case (Restart evs s s1 s')
  obtain U Y where UY: "after_events L evs X = (U, Y)" by force
  have st: "site (U, Y) s" using Restart UY by simp
  have "kept j (Y j) s1" if "j < cnum" for j
    by (rule kept_cong [OF that, of _ s]) (use that st Restart(2) in \<open>auto simp: site_def powered_on_def\<close>)
  moreover have "af_max f \<noteq> 0" if "j < cnum" "Y j uid = Some f" for j uid f using st that by (auto simp: site_def)
  ultimately have "site ({..<cnum}, Y) s'" using wp_InrD [OF init_site [OF Restart(2)] Restart(3)] by blast
  then show ?case using Restart UY by simp
qed

end

section \<open>What a client can rely on\<close>

definition touches :: "u64 \<Rightarrow> asset_request \<Rightarrow> bool" where
  "touches uid req \<longleftrightarrow> (\<exists>D fl. req = Req_Set uid D fl) \<or> req = Req_Remove uid"

definition untouched :: "nat \<Rightarrow> u64 \<Rightarrow> site_event list \<Rightarrow> bool" where
  "untouched j uid evs \<longleftrightarrow> (\<forall>req out. Request j req (Inr ()) out \<in> set evs \<longrightarrow> \<not> touches uid req)"

lemma effect_untouched: "\<not> touches uid req \<Longrightarrow> store_effect C req X uid = X uid"
  by (cases req) (auto simp: touches_def)

lemma event_untouched: "untouched j uid [ev] \<Longrightarrow> snd (event_effect L ev UV) j uid = snd UV j uid"
  by (cases UV; cases "(L, ev, UV)" rule: event_effect.cases) (auto simp: untouched_def effect_untouched)

lemma events_untouched: "untouched j uid evs \<Longrightarrow> snd (after_events L (evs0 @ evs) X) j uid = snd (after_events L evs0 X) j uid"
proof (induction evs rule: rev_induct)
  case (snoc ev evs)
  then have "untouched j uid evs" "untouched j uid [ev]" by (auto simp: untouched_def)
  then show ?case using snoc.IH event_untouched by (simp flip: append_assoc)
qed simp

lemma history_right_prefix: "history_right L (evs @ evs') X \<Longrightarrow> history_right L evs X"
  by (induction evs' rule: rev_induct) (auto simp flip: append_assoc)

lemma after_set:
  "snd (after_events L (evs @ [Request j (Req_Set uid D fl) (Inr ()) out]) X) j uid =
     Some (set_afile (client_cfg L j) (of_nat (length D)) fl D)"
  by (cases "after_events L evs X") simp

lemma write_once_untouched:
  assumes "history_right L (evs0 @ evs) X" and "snd (after_events L evs0 X) j uid = Some f" and "write_once f"
  shows "untouched j uid evs"
  using assms(1)
proof (induction evs rule: rev_induct)
  case (snoc ev evs)
  have h: "history_right L ((evs0 @ evs) @ [ev]) X" using snoc.prems by simp
  then have u: "untouched j uid evs" and r: "event_right L ev (after_events L (evs0 @ evs) X)"
    using snoc.IH by (simp_all only: history_right_snoc)
  obtain U Y where UY: "after_events L (evs0 @ evs) X = (U, Y)" by force
  have "Y j uid = Some f" using events_untouched [OF u, of L evs0 X] assms(2) UY by simp
  then have "untouched j uid [ev]" using r assms(3) UY by (auto simp: untouched_def touches_def)
  then show ?case using u by (auto simp: untouched_def)
qed (simp add: untouched_def)

end
