(* ===== verification/Sim_System.thy ===== *)
theory Sim_System
  imports Etss_Runs
begin

text \<open>
  Concrete states on the simulated device, at which the properties of the development are evaluated: a
  blank device, the file system after its first start-up, and the service with two clients.
\<close>

definition sim_dev :: "(ram, unit) etss_dev" where
  "sim_dev = \<lparr>cmd_packet = \<lparr>np_cmd = 0, np_addr = replicate 4 0, np_addr_len = 0, np_dummy_len = 0, np_data = None, np_data_len = 0,
       np_tx_buf = replicate BUFFER_SIZE 0, np_tx_len = 0\<rparr>, nor_hw = (\<lambda>_. 0xFF), init_ref_count = 0, is_initialized = False,
     app_info = no_app_info, flash_id = [], flash_vendor = None, flash_profile = sim_arch, secureflash_app_id = 0\<rparr>"

definition sim_ctx :: "(ram, unit) etss_dev etss_flash_fs_ctx_t" where
  "sim_ctx = \<lparr>ctx_cfg = sim_cfg, ctx_ops = etss_secure_flash_fs_ops sim_hal, meta_block_header = zero_header,
     active_metablock = 0, scratch_metablock = 0\<rparr>"

definition sim_blank :: "(ram, unit) etss_dev fs_state" where
  "sim_blank = fs_of sim_ctx sim_dev"

definition sim_ready :: "(ram, unit) etss_dev fs_state" where
  "sim_ready = snd (start_up sim_blank)"

lemma sim_blank_booted: "sim.fs.booted sim_blank"
  by (simp add: sim.fs.booted_def sim.fs.boot_def sim_blank_def sim_ctx_def fs_of_def sim_dev_def sim.dpre_def)

lemma sim_blank_mem: "b < 2 \<Longrightarrow> sim.dmem (flash sim_blank) b = replicate 128 0xFF"
proof -
  assume "b < 2"
  moreover have "unat (block_size sim_cfg) = 128" "ucast (num_blocks sim_cfg) = (2 :: u32)" by (simp_all add: sim_cfg_def)
  ultimately show ?thesis
    unfolding sim.dmem_def by (simp add: sim_blank_def fs_of_def sim_dev_def map_replicate_const)
qed

lemma sim_blank_not_valid: "b < 2 \<Longrightarrow> \<not> sim.fs.header_valid (sim.dmem (flash sim_blank)) b"
proof -
  assume b: "b < 2"
  have c: "unat (block_size sim_cfg) = 128" "erase_val sim_cfg = 0xFF" by (simp_all add: sim_cfg_def)
  show ?thesis by (rule sim.fs.erased_not_valid) (auto simp: sim_blank_mem [OF b] sim.fs.erased_on_def c)
qed

lemma sim_ready_rest: "sim.fs.at_rest sim_ready" "sim.fs.fs_abs sim_ready = (\<lambda>_. None)"
proof -
  have "wp start_up (\<lambda>_ s'. sim.fs.at_rest s' \<and> sim.fs.fs_abs s' = (\<lambda>_. None)) (\<lambda>_ _. False) sim_blank"
    unfolding start_up_def
    by (rule sim.fs.first_boot_wp) (simp_all add: sim_blank_booted sim_blank_not_valid)
  then show "sim.fs.at_rest sim_ready" "sim.fs.fs_abs sim_ready = (\<lambda>_. None)"
    by (auto simp: sim_ready_def elim: wp_noerrorE)
qed

section \<open>The service with two clients\<close>

definition sim_layout :: sf_layout where
  "sim_layout = \<lparr>SECURE_FLASH_SECTOR_SIZE = 64, SECURE_FLASH_ERASED_VALUE = 0xFF,
     SECURE_FLASH_CLIENTS = [\<lparr>cl_area_start_addr = 0, cl_area_size = 256, cl_sectors_per_block = 2, cl_client_id = 7\<rparr>,
       \<lparr>cl_area_start_addr = 512, cl_area_size = 256, cl_sectors_per_block = 2, cl_client_id = 9\<rparr>],
     ETSS_FLASH_ALIGNMENT = 1, ETSS_MAX_ASSET_SIZE = 16, ETSS_NUM_ASSETS = 1, PROV_BLOB_LEN_MAX = 64\<rparr>"

definition sim_off :: "(ram, unit, sim_psa) etss_state" where
  "sim_off = \<lparr>secureflash = sim_dev, etss_fs_ctx_tbl = [(0, sim_ctx), (0, sim_ctx)], fs_ctx_etss_ptr = None,
     asset_data = replicate 16 0, etss_msg = \<lparr>msg_type = 0, msg_handle = 0, msg_client_id = 0, in_size = [0, 0, 0, 0],
       out_size = [0, 0, 0, 0]\<rparr>,
     framework = \<lparr>sq_pending = [], sq_in = (\<lambda>_. []), sq_out = (\<lambda>_. []), sq_room = (\<lambda>_. 0), sq_replies = []\<rparr>\<rparr>"

definition sim_on :: "(ram, unit, sim_psa) etss_state" where
  "sim_on = snd (etss_init sim_hal sim_layout sim_off)"

text \<open>The service with a request of client 7 whose second argument is \<open>D\<close>.\<close>

definition sim_service :: "buf \<Rightarrow> (ram, unit, sim_psa) etss_state" where
  "sim_service D = sim_on\<lparr>asset_data := replicate 16 0,
     etss_msg := \<lparr>msg_type = PSA_IPC_CALL, msg_handle = 1, msg_client_id = 7, in_size = [8, of_nat (length D), 4, 0],
       out_size = [16, 0, 0, 0]\<rparr>,
     framework := \<lparr>sq_pending = [], sq_in = (\<lambda>i. if i = 1 then D else []), sq_out = (\<lambda>_. []), sq_room = (\<lambda>_. 16), sq_replies = []\<rparr>\<rparr>"

lemma sim_service_simps [simp]:
  "asset_data (sim_service D) = replicate 16 0" "sq_in (framework (sim_service D)) (Suc 0) = D"
  "sq_out (framework (sim_service D)) 0 = []" "sq_room (framework (sim_service D)) 0 = 16"
  "etss_fs_ctx_tbl (sim_service D) = etss_fs_ctx_tbl sim_on" "secureflash (sim_service D) = secureflash sim_on"
  by (simp_all add: sim_service_def)

lemma sim_client_cfg: "client_cfg sim_layout 0 = sim_cfg" "client_cfg sim_layout 1 = sim_cfg2" "client_cfg sim_layout (Suc 0) = sim_cfg2"
  by (simp_all add: client_cfg_def sim_layout_def sim_cfg_def sim_cfg2_def ETSS_UTILS_ALIGN_def Let_def)

lemma sim_cids: "length (SECURE_FLASH_CLIENTS sim_layout) = 2" "cl_client_id (SECURE_FLASH_CLIENTS sim_layout ! 0) = 7"
  "cl_client_id (SECURE_FLASH_CLIENTS sim_layout ! Suc 0) = 9"
  by (simp_all add: sim_layout_def)

lemma sim_apart: "outside sim_cfg p \<or> outside sim_cfg2 p"
  by (auto simp: outside_def sim_cfg_def sim_cfg2_def area_end_def)

interpretation simsys: etss_system sim_hal sim_arch sim_apps "()" "\<lambda>h. h" "\<lambda>_. True" "\<lambda>_. True" "\<lambda>_ _. True" sim_layout
proof (rule etss_system.intro)
  note two = less_2_cases_iff
  show "secure_hal sim_hal (client_cfg sim_layout i) sim_arch sim_apps () (\<lambda>h. h) (\<lambda>_. True) (\<lambda>_. True) (\<lambda>_ _. True) True"
    if "i < length (SECURE_FLASH_CLIENTS sim_layout)" for i
    using that sim.secure_hal_axioms sim2.secure_hal_axioms by (auto simp: sim_cids two sim_client_cfg)
  show "has_access sim_hal (client_cfg sim_layout i) sim_arch sim_apps (cl_client_id (SECURE_FLASH_CLIENTS sim_layout ! i))"
    if "i < length (SECURE_FLASH_CLIENTS sim_layout)" for i
    using that sim_has_access [of 7] sim_has_access2 [of 9] by (auto simp: sim_cids two sim_client_cfg)
  show "outside (client_cfg sim_layout i) p \<or> outside (client_cfg sim_layout j) p"
    if "i < length (SECURE_FLASH_CLIENTS sim_layout)" "j < length (SECURE_FLASH_CLIENTS sim_layout)" "i \<noteq> j" for i j p
    using that sim_apart [of p] by (auto simp: sim_cids two sim_client_cfg)
qed (simp_all add: sim_layout_def sim_arch_def)

interpretation simsite: etss_site sim_hal sim_arch sim_apps "()" "\<lambda>h. h" "\<lambda>_. True" "\<lambda>_. True" "\<lambda>_ _. True" sim_layout
  sim_api sq_in sq_out sq_room
  ..

lemma sim_dev_pre: "sim.dpre sim_dev"
  by (simp add: sim_dev_def sim.dpre_def)

lemma sim2_not_valid: "b < 2 \<Longrightarrow> \<not> sim2.fs.header_valid (sim2.dmem sim_dev) b"
proof -
  assume b: "b < 2"
  have c: "unat (block_size sim_cfg2) = 128" "erase_val sim_cfg2 = 0xFF" "ucast (num_blocks sim_cfg2) = (2 :: u32)"
    by (simp_all add: sim_cfg2_def sim_cfg_def)
  have "sim2.dmem sim_dev b = replicate 128 0xFF"
    unfolding sim2.dmem_def using b c by (simp add: sim_dev_def map_replicate_const)
  then show ?thesis by (intro sim2.fs.erased_not_valid) (auto simp: sim2.fs.erased_on_def c)
qed

lemma sim_off_holds: "j < 2 \<Longrightarrow> simsys.holds j (\<lambda>_. None) sim_off"
proof -
  assume j: "j < 2"
  have b: "(0 :: u32) < 2" "(1 :: u32) < 2" by simp_all
  have s: "secureflash sim_off = sim_dev" by (simp add: sim_off_def)
  have "sim.fs.found (sim.dmem sim_dev) (\<lambda>_. None)"
    using sim_blank_not_valid b by (simp add: sim.fs.found_def sim_blank_def fs_of_def)
  moreover have "sim2.fs.found (sim2.dmem sim_dev) (\<lambda>_. None)"
    using sim2_not_valid b by (simp add: sim2.fs.found_def)
  ultimately show ?thesis using j by (auto simp: simsys.holds_def s less_2_cases_iff sim_client_cfg)
qed

lemma sim_off_kept: "j < 2 \<Longrightarrow> simsys.kept j (\<lambda>_. None) sim_off"
  using sim_off_holds by (auto simp: simsys.kept_def)

lemma sim_off_powered: "powered_on (\<lambda>h. h) (\<lambda>_. True) sim_layout (\<lambda>_. 0xFF) sim_off"
  by (simp add: powered_on_def sim_off_def sim_dev_def sim_layout_def)

lemma sim_on_served: "j < 2 \<Longrightarrow> simsys.served j (\<lambda>_. None) sim_on"
proof -
  assume j: "j < 2"
  have "wp (etss_init sim_hal sim_layout) (\<lambda>_ s'. \<forall>j<length (SECURE_FLASH_CLIENTS sim_layout). simsys.served j (\<lambda>_. None) s') (\<lambda>_ _. False) sim_off"
    by (rule simsys.init_wp [where X = "\<lambda>_ _. None"]) (use sim_off_holds sim_dev_pre in \<open>auto simp: sim_off_def sim_cids\<close>)
  then show ?thesis using j by (auto simp: sim_on_def sim_cids elim: wp_noerrorE)
qed

lemma sim_on_ok: "sim.client_ok 7 0 sim_on" "sim.assets 7 0 sim_on = (\<lambda>_. None)"
  "sim2.client_ok 9 1 sim_on" "sim2.assets 9 1 sim_on = (\<lambda>_. None)"
  using sim_on_served [of 0] sim_on_served [of 1] by (simp_all add: simsys.served_def sim_client_cfg sim_cids)

lemma sim_service_ok: "sim.client_ok 7 0 (sim_service D)" "sim.assets 7 0 (sim_service D) = (\<lambda>_. None)"
  "sim2.client_ok 9 1 (sim_service D)" "sim2.assets 9 1 (sim_service D) = (\<lambda>_. None)"
proof -
  have r: "sim.ready (secureflash sim_on)" "sim2.ready (secureflash sim_on)"
    using sim.client_okD [OF sim_on_ok(1)] sim2.client_okD [OF sim_on_ok(3)] by simp_all
  show "sim.client_ok 7 0 (sim_service D)" "sim.assets 7 0 (sim_service D) = (\<lambda>_. None)"
    using sim.client_ok_same [OF sim_on_ok(1), of "sim_service D"] sim.client_okD [OF sim_on_ok(1)] r sim_on_ok(2) by simp_all
  show "sim2.client_ok 9 1 (sim_service D)" "sim2.assets 9 1 (sim_service D) = (\<lambda>_. None)"
    using sim2.client_ok_same [OF sim_on_ok(3), of "sim_service D"] sim2.client_okD [OF sim_on_ok(3)] r sim_on_ok(4) by simp_all
qed

end
