(* ===== verification/Flash_Fs_Props.thy ===== *)
theory Flash_Fs_Props
  imports Sim_System
begin

text \<open>
  The properties of the flash file system, over any device with the contract \<open>fs_dev\<close>: \<open>rel\<close> says that the
  device never fails; without it every flash operation may fail at any time. \<open>fs_abs\<close> is the abstract
  content of a file system at rest, a map from file ids to files, and \<open>fs_rec\<close> what a start-up would
  recover from the flash. The witnesses run on the simulated device.
\<close>

lemma sim_fs: "fs_dev (etss_secure_flash_fs_ops sim_hal) sim_cfg sim.dmem sim.ddok sim.dpre True"
  by (rule sim.fs.fs_dev_axioms)

abbreviation "sim_fid \<equiv> etss_get_fid 7 1"
abbreviation "sim_put \<equiv> ETSS_FLASH_FS_FLAG_CREATE OR ETSS_FLASH_FS_FLAG_TRUNCATE"

lemma sim_put_flags:
  "sim_put AND ETSS_FLASH_FS_INTERNAL_FLAGS_MASK = 0" "sim_put AND ETSS_FLASH_FS_FLAG_CREATE \<noteq> 0"
  "sim_put AND ETSS_FLASH_FS_FLAG_TRUNCATE \<noteq> 0"
  by (simp_all add: ETSS_FLASH_FS_FLAG_CREATE_def ETSS_FLASH_FS_FLAG_TRUNCATE_def ETSS_FLASH_FS_INTERNAL_FLAGS_MASK_def)

lemma sim_unit: "ucast (program_unit sim_cfg) = (1 :: u32)" "ETSS_UTILS_ALIGN n 1 = n"
  by (simp_all add: sim_cfg_def ETSS_UTILS_ALIGN_def)

section \<open>Writing\<close>



section \<open>Deleting\<close>



section \<open>Reading\<close>

text \<open>
  C14. Reading a file returns exactly the requested bytes of its abstract content, or the error that the
  abstract read gives (no such file, range not inside the file); a device that fails may give another error,
  but never other bytes. The file system stays at rest with the same content.
\<close>

theorem file_read_exact:
  assumes dev: "fs_dev ops C mem dok pre rel" and rest: "fs_dev.at_rest ops C mem dok s"
    and fid: "etss_utils_validate_fid fid = Inr ()"
  shows "wp (etss_flash_fs_file_read fid len off)
    (\<lambda>bs s'. aread (fs_dev.fs_abs C mem s fid) len off = Inr bs \<and> fs_dev.at_rest ops C mem dok s' \<and>
       fs_dev.fs_abs C mem s' = fs_dev.fs_abs C mem s)
    (\<lambda>e s'. (aread (fs_dev.fs_abs C mem s fid) len off = Inl e \<or> \<not> rel) \<and> fs_dev.at_rest ops C mem dok s' \<and>
       fs_dev.fs_abs C mem s' = fs_dev.fs_abs C mem s) s"
  by (rule flash_dev.reads_wp [OF fs_dev.axioms(1) [OF dev] fs_dev.read_rest [OF dev rest fid]])
    (use fs_dev.at_rest_flash [OF dev rest] in auto)

theorem file_read_exact_witness:
  "wp (etss_flash_fs_file_read sim_fid 1 0) (\<lambda>_ _. False) (\<lambda>e s'. e = PSA_ERROR_DOES_NOT_EXIST) sim_ready"
  by (rule wp_mono [OF file_read_exact [OF sim_fs sim_ready_rest(1) fid_valid]]) (simp_all add: sim_ready_rest(2) aread_def)

text \<open>
  C15. The information about a file is that of its abstract content: current size, maximum size, user
  flags; the file system stays at rest with the same content.
\<close>

theorem file_get_info_exact:
  assumes dev: "fs_dev ops C mem dok pre rel" and rest: "fs_dev.at_rest ops C mem dok s"
    and fid: "etss_utils_validate_fid fid = Inr ()"
  shows "wp (etss_flash_fs_file_get_info fid)
    (\<lambda>info s'. map_option ainfo (fs_dev.fs_abs C mem s fid) = Some info \<and> fs_dev.at_rest ops C mem dok s' \<and>
       fs_dev.fs_abs C mem s' = fs_dev.fs_abs C mem s)
    (\<lambda>e s'. (fs_dev.fs_abs C mem s fid = None \<and> e = PSA_ERROR_DOES_NOT_EXIST \<or> \<not> rel) \<and>
       fs_dev.at_rest ops C mem dok s' \<and> fs_dev.fs_abs C mem s' = fs_dev.fs_abs C mem s) s"
  by (rule flash_dev.reads_wp [OF fs_dev.axioms(1) [OF dev] fs_dev.get_info_rest [OF dev rest fid]])
    (use fs_dev.at_rest_flash [OF dev rest] in \<open>auto split: option.splits\<close>)

theorem file_get_info_exact_witness:
  "wp (etss_flash_fs_file_get_info sim_fid) (\<lambda>_ _. False) (\<lambda>e s'. e = PSA_ERROR_DOES_NOT_EXIST) sim_ready"
  by (rule wp_mono [OF file_get_info_exact [OF sim_fs sim_ready_rest(1) fid_valid]]) (simp_all add: sim_ready_rest(2))

section \<open>Start-up\<close>


lemma sim_ready_booted: "sim.fs.booted sim_ready"
  by (rule sim.fs.act_ok_booted) (use sim_ready_rest(1) in \<open>simp_all add: sim.fs.at_rest_def sim.fs.fs_inv_def sim.fs.tabs_okD\<close>)


text \<open>
  C17. Shutting down and starting again loses nothing: from any context on the flash of a file system at
  rest, start-up ends at rest with the same files.
\<close>

theorem remount_same_files:
  assumes dev: "fs_dev ops C mem dok pre rel" and rest: "fs_dev.at_rest ops C mem dok s"
    and boot: "fs_dev.booted ops C pre s0" and flash: "mem (flash s0) = mem (flash s)"
  shows "wp etss_flash_fs_prepare
    (\<lambda>_ s'. fs_dev.at_rest ops C mem dok s' \<and> fs_dev.fs_abs C mem s' = fs_dev.fs_abs C mem s) (\<lambda>e s'. \<not> rel) s0"
  by (rule fs_dev.remount_wp [OF dev rest boot flash])

theorem remount_same_files_witness:
  "wp etss_flash_fs_prepare (\<lambda>_ s'. sim.fs.at_rest s' \<and> sim.fs.fs_abs s' = (\<lambda>_. None)) (\<lambda>_ _. False)
     (sim_ready\<lparr>meta_block_header := zero_header, active_metablock := 0, scratch_metablock := 0\<rparr>)"
  by (rule wp_mono [OF remount_same_files [OF sim_fs sim_ready_rest(1)]])
    (use sim_ready_booted in \<open>auto simp: sim_ready_rest(2) sim.fs.booted_def sim.fs.boot_def\<close>)

text \<open>
  C18. The first start-up of a device: when neither metadata block has a valid header and the device does not
  fail, prepare fails, the area is wiped, and prepare then succeeds on the empty file system.
\<close>

theorem first_start_up:
  assumes dev: "fs_dev ops C mem dok pre True" and boot: "fs_dev.booted ops C pre s"
    and blank: "\<not> fs_dev.header_valid C (mem (flash s)) 0" "\<not> fs_dev.header_valid C (mem (flash s)) 1"
  shows "wp (tryE etss_flash_fs_prepare (\<lambda>r. case r of
      Inr _ \<Rightarrow> returnE () | Inl _ \<Rightarrow> bindE etss_flash_fs_wipe_all (\<lambda>_. etss_flash_fs_prepare)))
    (\<lambda>_ s'. fs_dev.at_rest ops C mem dok s' \<and> fs_dev.fs_abs C mem s' = (\<lambda>_. None)) (\<lambda>_ _. False) s"
  by (rule fs_dev.first_boot_wp [OF dev TrueI boot blank])

theorem first_start_up_witness:
  "\<exists>s'. start_up sim_blank = (Inr (), s') \<and> sim.fs.at_rest s' \<and> sim.fs.fs_abs s' = (\<lambda>_. None)"
proof -
  have "(0 :: u32) < 2" "(1 :: u32) < 2" by simp_all
  then show ?thesis
    using first_start_up [OF sim_fs sim_blank_booted sim_blank_not_valid sim_blank_not_valid]
    by (auto simp: start_up_def [symmetric] elim!: wp_noerrorE)
qed

text \<open>
  C19. Wiping formats the area whatever it holds: on a device that does not fail, wipe followed by prepare
  succeeds and ends at rest with no files.
\<close>

theorem wipe_formats:
  assumes dev: "fs_dev ops C mem dok pre True" and act: "fs_dev.act_ok ops C dok s"
  shows "wp (bindE etss_flash_fs_wipe_all (\<lambda>_. etss_flash_fs_prepare))
    (\<lambda>_ s'. fs_dev.at_rest ops C mem dok s' \<and> fs_dev.fs_abs C mem s' = (\<lambda>_. None)) (\<lambda>_ _. False) s"
  by (rule fs_dev.format_wp [OF dev TrueI act])

theorem wipe_formats_witness:
  "\<exists>s'. bindE etss_flash_fs_wipe_all (\<lambda>_. etss_flash_fs_prepare) sim_ready = (Inr (), s') \<and> sim.fs.fs_abs s' = (\<lambda>_. None)"
proof -
  have "sim.fs.act_ok sim_ready" using sim_ready_rest(1) by (simp add: sim.fs.at_rest_def sim.fs.fs_inv_def sim.fs.tabs_okD)
  from wipe_formats [OF sim_fs this] show ?thesis by (rule wp_noerrorE) auto
qed

end
