(* ===== verification/Secureflash_Props.thy ===== *)
theory Secureflash_Props
  imports Sim_System
begin

text \<open>
  Properties of the secure flash layer and of the flash operations built on it: access control, start-up,
  and the contract that the file system relies on, with the confinement of every operation to the area of
  its file system.
\<close>

lemma find_None_all: "(\<And>x. x \<in> set xs \<Longrightarrow> \<not> Q x) \<Longrightarrow> List.find Q xs = None"
  by (simp add: find_None_iff)





section \<open>The flash operations\<close>

text \<open>
  C12. The flash operations of the file system implement block storage on the secure flash: over any device
  that keeps the contract of the JEDEC layer, reading a range of a block returns its bytes, writing an erased
  range and erasing a block have exactly this effect, and start-up makes the device ready, whatever the units
  of the device into which the accesses are cut.
\<close>

theorem flash_ops_implement_blocks:
  assumes "secure_hal hal C P A V store hok hpre sess rel"
  shows "fs_dev (etss_secure_flash_fs_ops hal) C (secure_hal.dmem C store) (secure_hal.ddok hal C P A hok)
    (secure_hal.dpre P A hok hpre rel) rel"
  by (rule secure_hal.fs_contract [OF assms])

theorem flash_ops_implement_blocks_witness:
  "fs_dev (etss_secure_flash_fs_ops sim_hal) sim_cfg (secure_hal.dmem sim_cfg (\<lambda>h. h))
     (secure_hal.ddok sim_hal sim_cfg sim_arch sim_apps (\<lambda>_. True)) (secure_hal.dpre sim_arch sim_apps (\<lambda>_. True) (\<lambda>_. True) True) True"
  by (rule flash_ops_implement_blocks [OF sim.secure_hal_axioms])

text \<open>
  C13. No flash operation of a file system reaches beyond its area: writing or erasing a block, also when it
  fails on the way, leaves every byte of the device outside the area as it was, and the device ready.
\<close>

theorem area_confined:
  assumes hal: "secure_hal hal C P A V store hok hpre sess rel" and d: "secure_hal.ddok hal C P A hok d"
    and b: "b < ucast (num_blocks C)" and range: "unat off + unat len \<le> unat (block_size C)" "unat len \<le> length data"
    and erased: "bslice (unat off) (unat len) (secure_hal.dmem C store d b) = replicate (unat len) (erase_val C)"
  shows "wp (etss_secureflash_write hal C b data off len)
      (\<lambda>_ d'. \<forall>p. outside C p \<longrightarrow> store (nor_hw d') p = store (nor_hw d) p)
      (\<lambda>_ d'. \<forall>p. outside C p \<longrightarrow> store (nor_hw d') p = store (nor_hw d) p) d \<and>
    wp (etss_secureflash_erase hal C b)
      (\<lambda>_ d'. \<forall>p. outside C p \<longrightarrow> store (nor_hw d') p = store (nor_hw d) p)
      (\<lambda>_ d'. \<forall>p. outside C p \<longrightarrow> store (nor_hw d') p = store (nor_hw d) p) d"
proof -
  let ?F = "store (nor_hw d)"
  let ?hok = "\<lambda>h. hok h \<and> keeps C store ?F h" and ?hpre = "\<lambda>h. hpre h \<and> keeps C store ?F h"
    and ?sess = "\<lambda>k h. sess k h \<and> keeps C store ?F h"
  have fr: "secure_hal hal C P A V store ?hok ?hpre ?sess rel" by (rule secure_hal.frame [OF hal])
  note defs = secure_hal.ddok_def [OF fr] secure_hal.ready_def [OF fr]
  have d': "secure_hal.ddok hal C P A ?hok d"
    using d unfolding defs secure_hal.ddok_def [OF hal] secure_hal.ready_def [OF hal] by (simp add: keeps_def)
  have k: "\<forall>p. outside C p \<longrightarrow> store (nor_hw u) p = ?F p" if "secure_hal.ddok hal C P A ?hok u" for u
    using that unfolding defs by (simp add: keeps_def)
  show ?thesis
    by (intro conjI wp_mono [OF secure_hal.write_block_wp [OF fr d' b range erased]]
        wp_mono [OF secure_hal.erase_block_wp [OF fr d' b]]) (use k in blast)+
qed

lemma sim_ready_ddok: "secure_hal.ddok sim_hal sim_cfg sim_arch sim_apps (\<lambda>_. True) (flash sim_ready)"
  using sim_ready_rest(1) unfolding sim.fs.at_rest_def sim.fs.fs_inv_def sim.fs.tabs_ok_def sim.fs.metas_def sim.fs.sok_def by blast

theorem area_confined_witness:
  "wp (etss_secureflash_erase sim_hal sim_cfg 0)
      (\<lambda>_ d'. \<forall>p. outside sim_cfg p \<longrightarrow> nor_hw d' p = nor_hw (flash sim_ready) p)
      (\<lambda>_ d'. \<forall>p. outside sim_cfg p \<longrightarrow> nor_hw d' p = nor_hw (flash sim_ready) p) (flash sim_ready)"
  by (rule conjunct2 [OF area_confined [OF sim.secure_hal_axioms sim_ready_ddok, where len = 0 and off = 0 and data = "[]"]])
    (simp_all add: sim_cfg_def)

end
