(* ===== verification/Etss_Api.thy ===== *)
theory Etss_Api
  imports Etss_Req_Mngr
begin

text \<open>
  The client interface of the service, \<open>etss_secure_api.c\<close>: each function connects to the service,
  makes one call and closes the connection. (\<open>etss_ipc_api.c\<close> has the same functions for clients on the
  non-secure side.) A result is the status and, when the call was made, what its output vectors hold.
\<close>

record etss_sids =
  ETSS_SECURE_FLASH_PROVISIONING_SID :: "u32 \<times> u32"
  ETSS_SET_SID :: "u32 \<times> u32"
  ETSS_GET_SID :: "u32 \<times> u32"
  ETSS_GET_INFO_SID :: "u32 \<times> u32"
  ETSS_REMOVE_SID :: "u32 \<times> u32"
  ETSS_GET_PUF_SID :: "u32 \<times> u32"
  ETSS_GENERATE_RANDOM_NUMBER_SID :: "u32 \<times> u32"
  ETSS_MC_INCREMENT_SID :: "u32 \<times> u32"
  ETSS_MC_GET_SID :: "u32 \<times> u32"

text \<open>
  \<^verbatim>\<open>handle = psa_connect(SID, VERSION); if (!PSA_HANDLE_IS_VALID(handle)) return ETSS_ERR_GENERIC_ERROR;
  status = psa_call(handle, PSA_IPC_CALL, ...); psa_close(handle);\<close>
\<close>

definition etss_request :: "'w psa_client \<Rightarrow> u32 \<times> u32 \<Rightarrow> buf list \<Rightarrow> u32 list \<Rightarrow> 'w \<Rightarrow> (int \<times> buf list option) \<times> 'w" where
  "etss_request cl sid in_vec out_vec w =
     (case psa_connect cl (fst sid) (snd sid) w of (handle, w1) \<Rightarrow>
      if \<not> PSA_HANDLE_IS_VALID handle then ((etss_code ETSS_ERR_GENERIC_ERROR, None), w1)
      else (case psa_call cl handle PSA_IPC_CALL in_vec out_vec w1 of ((status, outs), w2) \<Rightarrow>
        ((status, Some outs), psa_close cl handle w2)))"

text \<open>The length of an input vector is a \<open>size_t\<close> argument: the vector is that many bytes of the buffer.\<close>

definition tfm_etss_secure_flash_provisioning :: "'w psa_client \<Rightarrow> etss_sids \<Rightarrow> u32 \<Rightarrow> buf \<Rightarrow> 'w \<Rightarrow> int \<times> 'w" where
  "tfm_etss_secure_flash_provisioning cl sids data_length p_data w =
     (case etss_request cl (ETSS_SECURE_FLASH_PROVISIONING_SID sids) [take (unat data_length) p_data] [] w of
        ((status, _), w') \<Rightarrow> (status, w'))"

definition tfm_etss_set :: "'w psa_client \<Rightarrow> etss_sids \<Rightarrow> u64 \<Rightarrow> u32 \<Rightarrow> buf \<Rightarrow> u32 \<Rightarrow> 'w \<Rightarrow> int \<times> 'w" where
  "tfm_etss_set cl sids uid data_length p_data create_flags w =
     (case etss_request cl (ETSS_SET_SID sids) [le64 uid, take (unat data_length) p_data, le32 create_flags] [] w of
        ((status, _), w') \<Rightarrow> (status, w'))"

text \<open>The second component is what is in \<open>p_data\<close> and \<open>*p_data_length\<close>, if they are written.\<close>

definition tfm_etss_get :: "'w psa_client \<Rightarrow> etss_sids \<Rightarrow> u64 \<Rightarrow> u32 \<Rightarrow> u32 \<Rightarrow> bool \<Rightarrow> 'w \<Rightarrow> (int \<times> buf option) \<times> 'w" where
  "tfm_etss_get cl sids uid data_offset data_size p_data_length_null w =
     (if p_data_length_null then ((etss_code ETSS_ERR_INVALID_ARGUMENT, None), w)
      else (case etss_request cl (ETSS_GET_SID sids) [le64 uid, le32 data_offset] [data_size] w of
        ((status, outs), w') \<Rightarrow> ((status, map_option hd outs), w')))"

definition tfm_etss_get_info :: "'w psa_client \<Rightarrow> etss_sids \<Rightarrow> u64 \<Rightarrow> 'w \<Rightarrow> (int \<times> buf option) \<times> 'w" where
  "tfm_etss_get_info cl sids uid w =
     (case etss_request cl (ETSS_GET_INFO_SID sids) [le64 uid] [12] w of
        ((status, outs), w') \<Rightarrow> ((status, map_option hd outs), w'))"

definition tfm_etss_remove :: "'w psa_client \<Rightarrow> etss_sids \<Rightarrow> u64 \<Rightarrow> 'w \<Rightarrow> int \<times> 'w" where
  "tfm_etss_remove cl sids uid w =
     (case etss_request cl (ETSS_REMOVE_SID sids) [le64 uid] [] w of ((status, _), w') \<Rightarrow> (status, w'))"

definition tfm_etss_get_puf :: "'w psa_client \<Rightarrow> etss_sids \<Rightarrow> u32 \<Rightarrow> bool \<Rightarrow> 'w \<Rightarrow> (int \<times> buf option) \<times> 'w" where
  "tfm_etss_get_puf cl sids buf_size puf_len_null w =
     (if puf_len_null then ((etss_code ETSS_ERR_INVALID_ARGUMENT, None), w)
      else (case etss_request cl (ETSS_GET_PUF_SID sids) [] [buf_size] w of
        ((status, outs), w') \<Rightarrow> ((status, map_option hd outs), w')))"

definition tfm_etss_generate_random_number :: "'w psa_client \<Rightarrow> etss_sids \<Rightarrow> u32 \<Rightarrow> 'w \<Rightarrow> (int \<times> buf option) \<times> 'w" where
  "tfm_etss_generate_random_number cl sids buf_size w =
     (case etss_request cl (ETSS_GENERATE_RANDOM_NUMBER_SID sids) [] [buf_size] w of
        ((status, outs), w') \<Rightarrow> ((status, map_option hd outs), w'))"

definition tfm_etss_mc_increment :: "'w psa_client \<Rightarrow> etss_sids \<Rightarrow> u8 \<Rightarrow> 'w \<Rightarrow> int \<times> 'w" where
  "tfm_etss_mc_increment cl sids mc w =
     (case etss_request cl (ETSS_MC_INCREMENT_SID sids) [[mc]] [] w of ((status, _), w') \<Rightarrow> (status, w'))"

definition tfm_etss_mc_get :: "'w psa_client \<Rightarrow> etss_sids \<Rightarrow> u8 \<Rightarrow> u32 \<Rightarrow> 'w \<Rightarrow> (int \<times> buf option) \<times> 'w" where
  "tfm_etss_mc_get cl sids mc buf_size w =
     (case etss_request cl (ETSS_MC_GET_SID sids) [[mc]] [buf_size] w of
        ((status, outs), w') \<Rightarrow> ((status, map_option hd outs), w'))"

end
