(* ===== verification/Measured_Boot.thy ===== *)
theory Measured_Boot
  imports Psa_Service
begin

text \<open>
  The measured boot partition, \<open>measured_boot.c\<close>: 32 slots that each hold one measurement with its metadata,
  the extension of a measurement, reading it, and the collection of the measurements of the boot stages. The
  build options, the hash of the crypto service, the boot data that the framework hands over and the layout of
  its records (headers of Trusted Firmware-M) are parameters, collected in \<open>mb_env\<close>. The messages that
  \<open>log_extend_measurement\<close> prints are not modelled.
\<close>

section \<open>Data\<close>

definition MEASUREMENT_VALUE_MIN_SIZE :: u32 where "MEASUREMENT_VALUE_MIN_SIZE = 32"

definition MEASUREMENT_VALUE_MAX_SIZE :: u32 where "MEASUREMENT_VALUE_MAX_SIZE = 64"

definition SIGNER_ID_MIN_SIZE :: u32 where "SIGNER_ID_MIN_SIZE = MEASUREMENT_VALUE_MIN_SIZE"

definition SIGNER_ID_MAX_SIZE :: u32 where "SIGNER_ID_MAX_SIZE = MEASUREMENT_VALUE_MAX_SIZE"

definition VERSION_MAX_SIZE :: u32 where "VERSION_MAX_SIZE = 14"

definition SW_TYPE_MAX_SIZE :: u32 where "SW_TYPE_MAX_SIZE = 20"

definition NUM_OF_MEASUREMENT_SLOTS :: u32 where "NUM_OF_MEASUREMENT_SLOTS = 32"

definition MEASUREMENT_VALUE_INIT_PATTERN :: u8 where "MEASUREMENT_VALUE_INIT_PATTERN = 0"

lemmas mb_sizes = MEASUREMENT_VALUE_MIN_SIZE_def MEASUREMENT_VALUE_MAX_SIZE_def SIGNER_ID_MIN_SIZE_def
  SIGNER_ID_MAX_SIZE_def VERSION_MAX_SIZE_def SW_TYPE_MAX_SIZE_def NUM_OF_MEASUREMENT_SLOTS_def
  MEASUREMENT_VALUE_INIT_PATTERN_def

record measurement_metadata_t =
  md_signer_id :: buf
  md_signer_id_size :: u32
  md_version :: buf
  md_version_size :: u8
  md_measurement_algo :: u32
  md_sw_type :: buf
  md_sw_type_size :: u8

record measurement_value_t =
  hash_buf :: buf
  hash_buf_size :: u8

record measurement_t =
  mvalue :: measurement_value_t
  metadata :: measurement_metadata_t

record measured_boot_slot_t =
  is_locked :: bool
  is_populated :: bool
  is_common :: bool
  measurement :: measurement_t

text \<open>
  The static data of the partition: the slots, the copy of the shared boot data, the client of the request
  in hand (\<open>measured_boot_req_mngr.c\<close>), and the state \<open>'q\<close> of the framework and the crypto service.
\<close>

record 'q mb_state =
  measurement_slot :: "measured_boot_slot_t list"
  boot_measurements :: buf
  g_measured_boot_caller_id :: int
  mb_framework :: 'q

text \<open>A record of the boot stages, \<^verbatim>\<open>struct boot_measurement_metadata\<close>, and the layout of the boot data.\<close>

record boot_measurement_metadata =
  bm_measurement_type :: u32
  bm_signer_id :: buf
  bm_signer_id_size :: u32
  bm_sw_type :: buf
  bm_sw_version :: buf

record boot_data_format =
  tlv_magic :: "buf \<Rightarrow> u16"
  tlv_tot_len :: "buf \<Rightarrow> u16"
  SHARED_DATA_TLV_INFO_MAGIC :: u16
  shared_data_tlv_header_size :: nat
  SHARED_DATA_ENTRY_HEADER_SIZE :: nat
  tlv_type :: "buf \<Rightarrow> u16"
  tlv_len :: "buf \<Rightarrow> u16"
  GET_MBS_CLAIM :: "u16 \<Rightarrow> u8"
  GET_MBS_SLOT :: "u16 \<Rightarrow> u8"
  SW_MEASURE_METADATA :: u8
  SW_MEASURE_VALUE :: u8
  SW_MEASURE_VALUE_NON_EXTENDABLE :: u8
  boot_measurement_metadata_size :: nat
  metadata_at :: "buf \<Rightarrow> boot_measurement_metadata"

text \<open>
  \<open>psa_hash_compute alg input n\<close> gives the hash (at most \<open>n\<close> bytes) or an error;
  \<open>tfm_core_get_boot_data n\<close> the bytes of the boot data (\<open>n\<close> of them) or an error.
\<close>

record 'q mb_env =
  TFM_MEASURED_BOOT_HASH_ALG :: u32
  MEASUREMENT_VALUE_SIZE :: u32
  psa_hash_compute :: "u32 \<Rightarrow> buf \<Rightarrow> u32 \<Rightarrow> ('q, psa_error, buf) sem"
  tfm_core_get_boot_data :: "nat \<Rightarrow> ('q, int, buf) sem"
  boot_format :: boot_data_format
  boot_measurements_size :: nat

type_synonym ('q, 'a) mb_op = "('q mb_state, psa_error, 'a) sem"

section \<open>Slots\<close>

definition upd_slot :: "u8 \<Rightarrow> (measured_boot_slot_t \<Rightarrow> measured_boot_slot_t) \<Rightarrow> ('q, unit) mb_op" where
  "upd_slot index f = modifyS (\<lambda>s. s\<lparr>measurement_slot :=
     (measurement_slot s)[unat index := f (measurement_slot s ! unat index)]\<rparr>)"

text \<open>\<^verbatim>\<open>memcmp(signer_id, stored_signer_id, stored_signer_id_size) != 0\<close>\<close>

definition is_signer_id_different :: "measured_boot_slot_t \<Rightarrow> buf \<Rightarrow> bool" where
  "is_signer_id_different slot signer_id \<longleftrightarrow>
     (let n = unat (md_signer_id_size (metadata (measurement slot))) in
      take n signer_id \<noteq> take n (md_signer_id (metadata (measurement slot))))"

definition is_slot_access_prohibited :: "measured_boot_slot_t \<Rightarrow> buf \<Rightarrow> bool" where
  "is_slot_access_prohibited slot signer_id \<longleftrightarrow>
     (if is_signer_id_different slot signer_id then (if is_common slot then False else True) else False)"

definition is_read_access_prohibited :: "u8 \<Rightarrow> bool" where
  "is_read_access_prohibited slot_index \<longleftrightarrow> False"

text \<open>
  What a successful read delivers: each buffer with its length, the algorithm and the lock. A size argument is
  the size of the caller's buffer.
\<close>

record measurement_out =
  mo_signer_id :: buf
  mo_version :: buf
  mo_measurement_algo :: u32
  mo_sw_type :: buf
  mo_measurement_value :: buf
  mo_is_locked :: bool

definition measured_boot_read_measurement ::
    "u8 \<Rightarrow> u32 \<Rightarrow> u32 \<Rightarrow> u32 \<Rightarrow> u32 \<Rightarrow> ('q, measurement_out) mb_op" where
  "measured_boot_read_measurement index signer_id_size version_size sw_type_size measurement_value_size = withS (\<lambda>s.
     let slot = measurement_slot s ! unat index; md = metadata (measurement slot); v = mvalue (measurement slot) in
     if is_read_access_prohibited index then throwE PSA_ERROR_NOT_PERMITTED
     else if is_populated slot then
       if version_size < ucast (md_version_size md) \<or> sw_type_size < ucast (md_sw_type_size md) \<or>
          signer_id_size < md_signer_id_size md \<or> measurement_value_size < ucast (hash_buf_size v)
       then throwE PSA_ERROR_INVALID_ARGUMENT
       else returnE \<lparr>mo_signer_id = take (unat (md_signer_id_size md)) (md_signer_id md),
              mo_version = take (unat (md_version_size md)) (md_version md),
              mo_measurement_algo = md_measurement_algo md,
              mo_sw_type = take (unat (md_sw_type_size md)) (md_sw_type md),
              mo_measurement_value = take (unat (hash_buf_size v)) (hash_buf v),
              mo_is_locked = is_locked slot\<rparr>
     else throwE PSA_ERROR_DOES_NOT_EXIST)"

definition update_metadata :: "u8 \<Rightarrow> buf \<Rightarrow> u32 \<Rightarrow> buf \<Rightarrow> u32 \<Rightarrow> u32 \<Rightarrow> buf \<Rightarrow> u32 \<Rightarrow> ('q, unit) mb_op" where
  "update_metadata index signer_id signer_id_size version version_size measurement_algo sw_type sw_type_size =
     upd_slot index (\<lambda>slot. slot\<lparr>measurement := (measurement slot)\<lparr>metadata :=
       (let md = metadata (measurement slot) in
        md\<lparr>md_signer_id_size := signer_id_size, md_version_size := ucast version_size, md_sw_type_size := ucast sw_type_size,
           md_signer_id := bsplice 0 (take (unat signer_id_size) signer_id) (md_signer_id md),
           md_version := bsplice 0 (take (unat version_size) version) (md_version md),
           md_measurement_algo := measurement_algo,
           md_sw_type := bsplice 0 (take (unat sw_type_size) sw_type) (md_sw_type md)\<rparr>)\<rparr>\<rparr>)"

definition extend_metadata :: "u8 \<Rightarrow> ('q, unit) mb_op" where
  "extend_metadata index = upd_slot index (\<lambda>slot. slot\<lparr>measurement := (measurement slot)\<lparr>metadata :=
     (metadata (measurement slot))\<lparr>md_version_size := 0, md_sw_type_size := 0,
        md_version := replicate (unat VERSION_MAX_SIZE) 0, md_sw_type := replicate (unat SW_TYPE_MAX_SIZE) 0\<rparr>\<rparr>\<rparr>)"

definition store_measurement_value :: "u8 \<Rightarrow> buf \<Rightarrow> ('q, unit) mb_op" where
  "store_measurement_value index src_value = upd_slot index (\<lambda>slot. slot\<lparr>measurement := (measurement slot)\<lparr>mvalue :=
     \<lparr>hash_buf = bsplice 0 src_value (hash_buf (mvalue (measurement slot))), hash_buf_size = of_nat (length src_value)\<rparr>\<rparr>\<rparr>)"

definition lock_measurement_slot :: "u8 \<Rightarrow> ('q, unit) mb_op" where
  "lock_measurement_slot index = upd_slot index (\<lambda>slot. slot\<lparr>is_locked := True\<rparr>)"

definition mark_slot_as_occupied :: "u8 \<Rightarrow> ('q, unit) mb_op" where
  "mark_slot_as_occupied index = upd_slot index (\<lambda>slot. slot\<lparr>is_populated := True\<rparr>)"

definition get_stored_measurement_value :: "'q mb_env \<Rightarrow> u8 \<Rightarrow> 'q mb_state \<Rightarrow> buf" where
  "get_stored_measurement_value env index s =
     take (unat (MEASUREMENT_VALUE_SIZE env)) (hash_buf (mvalue (measurement (measurement_slot s ! unat index))))"

text \<open>A call of the framework or the crypto service.\<close>

definition on_framework :: "('q, 'e, 'a) sem \<Rightarrow> ('q mb_state, 'e, 'a) sem" where
  "on_framework m = (\<lambda>s. case m (mb_framework s) of (r, q) \<Rightarrow> (r, s\<lparr>mb_framework := q\<rparr>))"

text \<open>The hash of the stored value followed by the new one, in a buffer of \<^verbatim>\<open>TEMP_BUFFER_SIZE\<close> bytes.\<close>

definition extend_measurement_value :: "'q mb_env \<Rightarrow> u8 \<Rightarrow> buf \<Rightarrow> u32 \<Rightarrow> ('q, buf) mb_op" where
  "extend_measurement_value env index measurement_value measurement_size = withS (\<lambda>s.
     on_framework (psa_hash_compute env (TFM_MEASURED_BOOT_HASH_ALG env)
       (get_stored_measurement_value env index s @ take (unat measurement_size) measurement_value)
       (MEASUREMENT_VALUE_SIZE env)))"

text \<open>
  An index outside of \<^verbatim>\<open>measurement_slot\<close> is undefined in C; so is a size above that of the array
  that is written or behind the end of the buffer that is read.
\<close>

definition extend_defined :: "'q mb_state \<Rightarrow> u8 \<Rightarrow> buf \<Rightarrow> u32 \<Rightarrow> buf \<Rightarrow> u8 \<Rightarrow> buf \<Rightarrow> u8 \<Rightarrow> buf \<Rightarrow> u32 \<Rightarrow> bool" where
  "extend_defined s index signer_id signer_id_size version version_size sw_type sw_type_size value value_size \<longleftrightarrow>
     unat index < length (measurement_slot s) \<and>
     unat (md_signer_id_size (metadata (measurement (measurement_slot s ! unat index)))) \<le> length signer_id \<and>
     unat signer_id_size \<le> min (length signer_id) (unat SIGNER_ID_MAX_SIZE) \<and>
     unat version_size \<le> min (length version) (unat VERSION_MAX_SIZE) \<and>
     unat sw_type_size \<le> min (length sw_type) (unat SW_TYPE_MAX_SIZE) \<and>
     unat value_size \<le> min (length value) (unat MEASUREMENT_VALUE_MAX_SIZE)"

definition measured_boot_extend_measurement ::
    "'q mb_env \<Rightarrow> u8 \<Rightarrow> buf \<Rightarrow> u32 \<Rightarrow> buf \<Rightarrow> u8 \<Rightarrow> u32 \<Rightarrow> buf \<Rightarrow> u8 \<Rightarrow> buf \<Rightarrow> u32 \<Rightarrow> u8 \<Rightarrow> ('q, unit) mb_op" where
  "measured_boot_extend_measurement env index signer_id signer_id_size version version_size measurement_algo
       sw_type sw_type_size measurement_value measurement_value_size lock_measurement = withS (\<lambda>s.
     let slot = measurement_slot s ! unat index in
     if \<not> extend_defined s index signer_id signer_id_size version version_size sw_type sw_type_size
            measurement_value measurement_value_size
     then throwE PSA_NO_RESULT
     else if is_slot_access_prohibited slot signer_id then throwE PSA_ERROR_NOT_PERMITTED
     else if is_locked slot then throwE PSA_ERROR_BAD_STATE
     else
       bindE (if is_populated slot then extend_metadata index
              else bindE (update_metadata index signer_id signer_id_size version (ucast version_size) measurement_algo
                     sw_type (ucast sw_type_size)) (\<lambda>_.
                   mark_slot_as_occupied index)) (\<lambda>_.
       bindE (extend_measurement_value env index measurement_value measurement_value_size) (\<lambda>hash_result.
       bindE (store_measurement_value index hash_result) (\<lambda>_.
       if lock_measurement \<noteq> 0 then lock_measurement_slot index else returnE ()))))"

section \<open>Initialisation\<close>

definition clear_metadata :: measurement_metadata_t where
  "clear_metadata = \<lparr>md_signer_id = replicate (unat SIGNER_ID_MAX_SIZE) 0, md_signer_id_size = 0,
     md_version = replicate (unat VERSION_MAX_SIZE) 0, md_version_size = 0, md_measurement_algo = 0,
     md_sw_type = replicate (unat SW_TYPE_MAX_SIZE) 0, md_sw_type_size = 0\<rparr>"

text \<open>The loop body for one slot; the size of the value is not touched.\<close>

definition initialise_slot :: "measured_boot_slot_t \<Rightarrow> measured_boot_slot_t" where
  "initialise_slot slot = slot\<lparr>is_locked := False, is_populated := False, is_common := False,
     measurement := \<lparr>mvalue = (mvalue (measurement slot))\<lparr>hash_buf :=
        replicate (unat MEASUREMENT_VALUE_MAX_SIZE) MEASUREMENT_VALUE_INIT_PATTERN\<rparr>, metadata = clear_metadata\<rparr>\<rparr>"

definition initialise_all_measurements :: "('q mb_state, 'e, unit) sem" where
  "initialise_all_measurements = modifyS (\<lambda>s. s\<lparr>measurement_slot := map initialise_slot (measurement_slot s)\<rparr>)"

section \<open>The measurements of the boot stages\<close>

text \<open>
  \<open>tlv_curr\<close> and \<open>tlv_end\<close> are \<^verbatim>\<open>tlv_curr\<close> and \<^verbatim>\<open>tlv_end\<close> as offsets into the boot data. A read behind the
  boot data is undefined. \<open>strnlen xs n\<close>: the bytes before the first 0, \<open>n\<close> at most.
\<close>

definition strnlen :: "buf \<Rightarrow> nat \<Rightarrow> nat" where
  "strnlen xs n = length (takeWhile (\<lambda>b. b \<noteq> 0) (take n xs))"

definition tlv_read :: "nat \<Rightarrow> nat \<Rightarrow> ('q, buf) mb_op" where
  "tlv_read off n = withS (\<lambda>s.
     if off + n \<le> length (boot_measurements s) then returnE (bslice off n (boot_measurements s)) else throwE PSA_NO_RESULT)"

text \<open>One measurement: a metadata entry and the value entry behind it. The result is the offset behind both.\<close>

definition collect_one :: "'q mb_env \<Rightarrow> nat \<Rightarrow> ('q, nat) mb_op" where
  "collect_one env tlv_curr =
     (let F = boot_format env; H = SHARED_DATA_ENTRY_HEADER_SIZE F in
      bindE (tlv_read tlv_curr H) (\<lambda>entry.
      if GET_MBS_CLAIM F (tlv_type F entry) \<noteq> SW_MEASURE_METADATA F \<or>
         unat (tlv_len F entry) \<noteq> boot_measurement_metadata_size F
      then throwE PSA_ERROR_GENERIC_ERROR
      else
        bindE (tlv_read (tlv_curr + H) (boot_measurement_metadata_size F)) (\<lambda>bs.
        let md = metadata_at F bs; tlv_curr = tlv_curr + (H + unat (tlv_len F entry)) in
        bindE (tlv_read tlv_curr H) (\<lambda>entry.
        let claim = GET_MBS_CLAIM F (tlv_type F entry); n = ucast (tlv_len F entry) :: u32 in
        if claim \<noteq> SW_MEASURE_VALUE F \<and> claim \<noteq> SW_MEASURE_VALUE_NON_EXTENDABLE F then throwE PSA_ERROR_GENERIC_ERROR
        else if bm_signer_id_size md < SIGNER_ID_MIN_SIZE \<or> bm_signer_id_size md > SIGNER_ID_MAX_SIZE \<or>
                n < MEASUREMENT_VALUE_MIN_SIZE \<or> n > MEASUREMENT_VALUE_MAX_SIZE
        then throwE PSA_ERROR_GENERIC_ERROR
        else
          bindE (tlv_read (tlv_curr + H) (unat n)) (\<lambda>value.
          bindE (measured_boot_extend_measurement env (GET_MBS_SLOT F (tlv_type F entry))
                   (bm_signer_id md) (bm_signer_id_size md)
                   (bm_sw_version md) (of_nat (strnlen (bm_sw_version md) (length (bm_sw_version md))))
                   (bm_measurement_type md)
                   (bm_sw_type md) (of_nat (strnlen (bm_sw_type md) (length (bm_sw_type md))))
                   value n (if claim = SW_MEASURE_VALUE_NON_EXTENDABLE F then 1 else 0)) (\<lambda>_.
          returnE (tlv_curr + (H + unat n))))))))"

text \<open>A measurement that is stored takes at least \<open>MEASUREMENT_VALUE_MIN_SIZE\<close> bytes, so the loop makes progress.\<close>

lemma collect_one_progress:
  "wp (collect_one env tlv_curr) (\<lambda>next_pos _. tlv_curr < next_pos) (\<lambda>_ _. True) s"
proof -
  have triv: "wp m Q (\<lambda>_ _. True) u" if "\<And>a t. Q a t" for m :: "('s, psa_error, 'x) sem" and Q u
    using that by (auto simp: wp_def split: prod.splits sum.splits)
  show ?thesis
    by (auto simp: collect_one_def tlv_read_def Let_def wp_fun mb_sizes word_less_nat_alt word_le_nat_alt intro!: triv)
qed

text \<open>
  \<^verbatim>\<open>while (tlv_curr < tlv_end)\<close>; the status of the last measurement, \<open>PSA_ERROR_GENERIC_ERROR\<close> when there
  is none.
\<close>

function collect_loop :: "'q mb_env \<Rightarrow> nat \<Rightarrow> nat \<Rightarrow> psa_error + unit \<Rightarrow> ('q, unit) mb_op" where
  "collect_loop env tlv_curr tlv_end status s =
     (if \<not> tlv_curr < tlv_end then (status, s)
      else (case collect_one env tlv_curr s of
        (Inl e, s') \<Rightarrow> (Inl e, s')
      | (Inr next_pos, s') \<Rightarrow> collect_loop env next_pos tlv_end (Inr ()) s'))"
  by pat_completeness auto
termination by (relation "measure (\<lambda>(env, tlv_curr, tlv_end, status, s). tlv_end - tlv_curr)")
  (auto dest!: wp_InrD [OF collect_one_progress, OF sym] intro: diff_less_mono2)

definition collect_shared_measurements :: "'q mb_env \<Rightarrow> ('q, unit) mb_op" where
  "collect_shared_measurements env =
     (let F = boot_format env in
      tryE (on_framework (tfm_core_get_boot_data env (boot_measurements_size env))) (\<lambda>r. case r of
        Inl _ \<Rightarrow> throwE PSA_ERROR_GENERIC_ERROR
      | Inr data \<Rightarrow>
          bindE (modifyS (\<lambda>s. s\<lparr>boot_measurements := data\<rparr>)) (\<lambda>_.
          if tlv_magic F data \<noteq> SHARED_DATA_TLV_INFO_MAGIC F then throwE PSA_ERROR_GENERIC_ERROR
          else collect_loop env (shared_data_tlv_header_size F) (unat (tlv_tot_len F data)) (Inl PSA_ERROR_GENERIC_ERROR))))"

declare collect_loop.simps [simp del]

end
