(* ===== verification/Measured_Boot_Req_Mngr.thy ===== *)
theory Measured_Boot_Req_Mngr
  imports Measured_Boot
begin

text \<open>
  The request manager of the measured boot partition, \<open>measured_boot_req_mngr.c\<close>, with the structures of
  its messages (\<open>measured_boot_defs.h\<close>), and its client interface, \<open>measured_boot_api.c\<close>. The signals and the
  handle come from generated files. The service loop runs forever in the source; the model runs a given number
  of its iterations.
\<close>

section \<open>Structures of messages\<close>

definition TFM_MEASURED_BOOT_READ :: int where "TFM_MEASURED_BOOT_READ = 1001"

definition TFM_MEASURED_BOOT_EXTEND :: int where "TFM_MEASURED_BOOT_EXTEND = 1002"

record measured_boot_read_iovec_in_t =
  ri_index :: u8
  ri_sw_type_size :: u8
  ri_version_size :: u8

record measured_boot_read_iovec_out_t =
  ro_is_locked :: u8
  ro_measurement_algo :: u32
  ro_sw_type :: buf
  ro_sw_type_len :: u8
  ro_version :: buf
  ro_version_len :: u8

record measured_boot_extend_iovec_t =
  ei_index :: u8
  ei_lock_measurement :: u8
  ei_measurement_algo :: u32
  ei_sw_type :: buf
  ei_sw_type_size :: u8

text \<open>
  The bytes of the structures: a 32-bit field is aligned to 4 bytes, and a structure with such a field is padded
  to a multiple of 4 bytes. Padding is written as 0.
\<close>

definition encode_read_in :: "measured_boot_read_iovec_in_t \<Rightarrow> buf" where
  "encode_read_in r = [ri_index r, ri_sw_type_size r, ri_version_size r]"

definition decode_read_in :: "buf \<Rightarrow> measured_boot_read_iovec_in_t" where
  "decode_read_in bs = \<lparr>ri_index = bs ! 0, ri_sw_type_size = bs ! 1, ri_version_size = bs ! 2\<rparr>"

definition encode_read_out :: "measured_boot_read_iovec_out_t \<Rightarrow> buf" where
  "encode_read_out r = [ro_is_locked r, 0, 0, 0] @ le32 (ro_measurement_algo r) @ ro_sw_type r @ [ro_sw_type_len r] @
     ro_version r @ [ro_version_len r]"

definition decode_read_out :: "buf \<Rightarrow> measured_boot_read_iovec_out_t" where
  "decode_read_out bs = \<lparr>ro_is_locked = bs ! 0, ro_measurement_algo = de32 (drop 4 bs), ro_sw_type = take 20 (drop 8 bs),
     ro_sw_type_len = bs ! 28, ro_version = take 14 (drop 29 bs), ro_version_len = bs ! 43\<rparr>"

definition encode_extend :: "measured_boot_extend_iovec_t \<Rightarrow> buf" where
  "encode_extend r = [ei_index r, ei_lock_measurement r, 0, 0] @ le32 (ei_measurement_algo r) @ ei_sw_type r @
     [ei_sw_type_size r, 0, 0, 0]"

definition decode_extend :: "buf \<Rightarrow> measured_boot_extend_iovec_t" where
  "decode_extend bs = \<lparr>ei_index = bs ! 0, ei_lock_measurement = bs ! 1, ei_measurement_algo = de32 (drop 4 bs),
     ei_sw_type = take 20 (drop 8 bs), ei_sw_type_size = bs ! 28\<rparr>"

definition read_in_size :: u32 where "read_in_size = 3"

definition read_out_size :: u32 where "read_out_size = 44"

definition extend_size :: u32 where "extend_size = 32"

lemma decode_encode_read_in [simp]: "decode_read_in (encode_read_in r) = r"
  by (simp add: decode_read_in_def encode_read_in_def)

lemma decode_encode_extend [simp]: "length (ei_sw_type r) = 20 \<Longrightarrow> decode_extend (encode_extend r) = r"
  by (simp add: decode_extend_def encode_extend_def nth_append)

lemma decode_encode_read_out [simp]:
  "length (ro_sw_type r) = 20 \<Longrightarrow> length (ro_version r) = 14 \<Longrightarrow> decode_read_out (encode_read_out r) = r"
  by (simp add: decode_read_out_def encode_read_out_def nth_append)

lemma length_encode [simp]:
  "length (encode_read_in r) = 3"
  "length (ei_sw_type e) = 20 \<Longrightarrow> length (encode_extend e) = 32"
  "length (ro_sw_type ro) = 20 \<Longrightarrow> length (ro_version ro) = 14 \<Longrightarrow> length (encode_read_out ro) = 44"
  by (simp_all add: encode_read_in_def encode_extend_def encode_read_out_def)

section \<open>Handlers\<close>

text \<open>\<^verbatim>\<open>num = psa_read(msg->handle, i, buf, n); if (num != n) return PSA_ERROR_PROGRAMMER_ERROR;\<close>\<close>

definition mb_read_arg :: "'q psa_api \<Rightarrow> psa_msg_t \<Rightarrow> nat \<Rightarrow> u32 \<Rightarrow> ('q, buf) mb_op" where
  "mb_read_arg api msg i n = bindE (on_framework (\<lambda>q. case psa_read api (msg_handle msg) i n q of (bs, q') \<Rightarrow> (Inr bs, q'))) (\<lambda>bs.
     if length bs \<noteq> unat n then throwE PSA_ERROR_PROGRAMMER_ERROR else returnE bs)"

definition mb_write :: "'q psa_api \<Rightarrow> psa_msg_t \<Rightarrow> nat \<Rightarrow> buf \<Rightarrow> ('q, unit) mb_op" where
  "mb_write api msg i bs = on_framework (\<lambda>q. (Inr (), psa_write api (msg_handle msg) i bs q))"

definition send_measurement :: "'q psa_api \<Rightarrow> psa_msg_t \<Rightarrow> measurement_out \<Rightarrow> ('q, unit) mb_op" where
  "send_measurement api msg m =
     (let read_iov_out = \<lparr>ro_is_locked = (if mo_is_locked m then 1 else 0), ro_measurement_algo = mo_measurement_algo m,
          ro_sw_type = bsplice 0 (mo_sw_type m) (replicate (unat SW_TYPE_MAX_SIZE) 0),
          ro_sw_type_len = of_nat (length (mo_sw_type m)),
          ro_version = bsplice 0 (mo_version m) (replicate (unat VERSION_MAX_SIZE) 0),
          ro_version_len = of_nat (length (mo_version m))\<rparr> in
      bindE (mb_write api msg 0 (encode_read_out read_iov_out)) (\<lambda>_.
      bindE (mb_write api msg 1 (mo_signer_id m)) (\<lambda>_.
      mb_write api msg 2 (mo_measurement_value m))))"

definition read_measurements :: "'q psa_api \<Rightarrow> psa_msg_t \<Rightarrow> ('q, unit) mb_op" where
  "read_measurements api msg =
     bindE (modifyS (\<lambda>s. s\<lparr>g_measured_boot_caller_id := msg_client_id msg\<rparr>)) (\<lambda>_.
     let signer_id_size = out_size msg ! 1; measurement_value_size = out_size msg ! 2 in
     if in_size msg ! 0 \<noteq> read_in_size \<or> out_size msg ! 0 \<noteq> read_out_size then throwE PSA_ERROR_PROGRAMMER_ERROR
     else
       bindE (mb_read_arg api msg 0 read_in_size) (\<lambda>bs.
       let read_iov_in = decode_read_in bs in
       if ucast (ri_index read_iov_in) \<ge> NUM_OF_MEASUREMENT_SLOTS then throwE PSA_ERROR_INVALID_ARGUMENT
       else
         bindE (measured_boot_read_measurement (ri_index read_iov_in) signer_id_size
                  (ucast (ri_version_size read_iov_in)) (ucast (ri_sw_type_size read_iov_in)) measurement_value_size)
           (send_measurement api msg)))"

text \<open>The sizes and the slot of a request that are refused.\<close>

definition extend_refused :: "psa_msg_t \<Rightarrow> measured_boot_extend_iovec_t \<Rightarrow> bool" where
  "extend_refused msg extend_iov \<longleftrightarrow>
     (let signer_id_size = in_size msg ! 1; version_size = in_size msg ! 2; measurement_value_size = in_size msg ! 3 in
      (signer_id_size < SIGNER_ID_MIN_SIZE \<or> signer_id_size > SIGNER_ID_MAX_SIZE \<or> version_size > VERSION_MAX_SIZE \<or>
       measurement_value_size < MEASUREMENT_VALUE_MIN_SIZE \<or> measurement_value_size > MEASUREMENT_VALUE_MAX_SIZE \<or>
       ucast (ei_sw_type_size extend_iov) > SW_TYPE_MAX_SIZE) \<or>
      ucast (ei_index extend_iov) \<ge> NUM_OF_MEASUREMENT_SLOTS)"

text \<open>The rest of the handler: it reads the signer, the version and the value, and extends the slot.\<close>

definition extend_from :: "'q mb_env \<Rightarrow> 'q psa_api \<Rightarrow> psa_msg_t \<Rightarrow> measured_boot_extend_iovec_t \<Rightarrow> ('q, unit) mb_op" where
  "extend_from env api msg extend_iov =
     (let signer_id_size = in_size msg ! 1; version_size = in_size msg ! 2; measurement_value_size = in_size msg ! 3 in
      bindE (mb_read_arg api msg 1 signer_id_size) (\<lambda>signer_id.
      bindE (mb_read_arg api msg 2 version_size) (\<lambda>version.
      bindE (mb_read_arg api msg 3 measurement_value_size) (\<lambda>measurement_value.
      measured_boot_extend_measurement env (ei_index extend_iov)
        (bsplice 0 signer_id (replicate (unat SIGNER_ID_MAX_SIZE) 0)) signer_id_size
        (bsplice 0 version (replicate (unat VERSION_MAX_SIZE) 0)) (ucast version_size) (ei_measurement_algo extend_iov)
        (ei_sw_type extend_iov) (ei_sw_type_size extend_iov)
        (bsplice 0 measurement_value (replicate (unat MEASUREMENT_VALUE_MAX_SIZE) 0)) measurement_value_size
        (ei_lock_measurement extend_iov)))))"

definition extend_measurement :: "'q mb_env \<Rightarrow> 'q psa_api \<Rightarrow> psa_msg_t \<Rightarrow> ('q, unit) mb_op" where
  "extend_measurement env api msg =
     bindE (modifyS (\<lambda>s. s\<lparr>g_measured_boot_caller_id := msg_client_id msg\<rparr>)) (\<lambda>_.
     if in_size msg ! 0 \<noteq> extend_size then throwE PSA_ERROR_PROGRAMMER_ERROR
     else
       bindE (mb_read_arg api msg 0 extend_size) (\<lambda>bs.
       if extend_refused msg (decode_extend bs) then throwE PSA_ERROR_INVALID_ARGUMENT
       else extend_from env api msg (decode_extend bs)))"

section \<open>Signals\<close>

text \<open>How the partition stops: \<open>psa_panic\<close>, or a run with no result in C.\<close>

datatype partition_stop = Partition_Panic | Partition_Stuck

type_synonym 'q mb_step = "('q mb_state, partition_stop, unit) sem"

definition reply_status :: "'q psa_api \<Rightarrow> psa_msg_t \<Rightarrow> ('q, unit) mb_op \<Rightarrow> 'q mb_step" where
  "reply_status api msg op = tryE op (\<lambda>r. case r of
     Inr _ \<Rightarrow> on_framework (\<lambda>q. (Inr (), psa_reply api (msg_handle msg) 0 q))
   | Inl e \<Rightarrow> if e = PSA_NO_RESULT then throwE Partition_Stuck
              else on_framework (\<lambda>q. (Inr (), psa_reply api (msg_handle msg) (psa_code e) q)))"

text \<open>A message of another type gets no reply.\<close>

definition measured_boot_signal_handle :: "'q mb_env \<Rightarrow> 'q psa_api \<Rightarrow> u32 \<Rightarrow> 'q mb_step" where
  "measured_boot_signal_handle env api signal = tryE (on_framework (psa_get api signal)) (\<lambda>r. case r of
     Inl _ \<Rightarrow> returnE ()
   | Inr msg \<Rightarrow>
       if msg_type msg = TFM_MEASURED_BOOT_READ then reply_status api msg (read_measurements api msg)
       else if msg_type msg = TFM_MEASURED_BOOT_EXTEND then reply_status api msg (extend_measurement env api msg)
       else returnE ())"

text \<open>The first \<open>n\<close> iterations of the service loop for the signal \<open>TFM_MEASURED_BOOT_SIGNAL\<close>.\<close>

primrec measured_boot_loop :: "nat \<Rightarrow> 'q mb_env \<Rightarrow> 'q psa_api \<Rightarrow> u32 \<Rightarrow> u32 \<Rightarrow> 'q mb_step" where
  "measured_boot_loop 0 env api wait_any mb_signal = returnE ()"
| "measured_boot_loop (Suc n) env api wait_any mb_signal =
     bindE (on_framework (\<lambda>q. case psa_wait api wait_any q of (signals, q') \<Rightarrow> (Inr signals, q'))) (\<lambda>signals.
     if signals AND mb_signal \<noteq> 0 then
       bindE (measured_boot_signal_handle env api mb_signal) (\<lambda>_. measured_boot_loop n env api wait_any mb_signal)
     else throwE Partition_Panic)"

text \<open>\<open>store\<close>: the build option \<^verbatim>\<open>CONFIG_TFM_BOOT_STORE_MEASUREMENTS\<close>.\<close>

definition tfm_measured_boot_init :: "nat \<Rightarrow> 'q mb_env \<Rightarrow> bool \<Rightarrow> 'q psa_api \<Rightarrow> u32 \<Rightarrow> u32 \<Rightarrow> 'q mb_step" where
  "tfm_measured_boot_init n env store api wait_any mb_signal =
     bindE initialise_all_measurements (\<lambda>_.
     tryE (if store then collect_shared_measurements env else returnE ()) (\<lambda>r. case r of
       Inr _ \<Rightarrow> measured_boot_loop n env api wait_any mb_signal
     | Inl e \<Rightarrow> throwE (if e = PSA_NO_RESULT then Partition_Stuck else Partition_Panic)))"

section \<open>The client interface\<close>

text \<open>
  \<open>handle\<close> is \<^verbatim>\<open>TFM_MEASURED_BOOT_HANDLE\<close>. The sizes of the caller's buffers become bytes in the message. The
  lengths that the call delivers are the lengths of the buffers of the result.
\<close>

definition tfm_measured_boot_read_measurement ::
    "'w psa_client \<Rightarrow> psa_handle_t \<Rightarrow> u8 \<Rightarrow> u32 \<Rightarrow> u32 \<Rightarrow> u32 \<Rightarrow> u32 \<Rightarrow> 'w \<Rightarrow> (int + measurement_out) \<times> 'w" where
  "tfm_measured_boot_read_measurement cl handle index signer_id_size version_size sw_type_size measurement_value_size w =
     (case psa_call cl handle TFM_MEASURED_BOOT_READ
         [encode_read_in \<lparr>ri_index = index, ri_sw_type_size = ucast sw_type_size, ri_version_size = ucast version_size\<rparr>]
         [read_out_size, signer_id_size, measurement_value_size] w of
        ((status, outs), w') \<Rightarrow>
          (if status = 0 then
             (let read_iov_out = decode_read_out (outs ! 0) in
              Inr \<lparr>mo_signer_id = outs ! 1, mo_version = take (unat (ro_version_len read_iov_out)) (ro_version read_iov_out),
                mo_measurement_algo = ro_measurement_algo read_iov_out,
                mo_sw_type = take (unat (ro_sw_type_len read_iov_out)) (ro_sw_type read_iov_out),
                mo_measurement_value = outs ! 2, mo_is_locked = (ro_is_locked read_iov_out \<noteq> 0)\<rparr>)
           else Inl status, w'))"

text \<open>\<open>sw_type\<close> is \<open>None\<close> for a null pointer.\<close>

definition tfm_measured_boot_extend_measurement ::
    "'w psa_client \<Rightarrow> psa_handle_t \<Rightarrow> u8 \<Rightarrow> buf \<Rightarrow> buf \<Rightarrow> u32 \<Rightarrow> buf option \<Rightarrow> u32 \<Rightarrow> buf \<Rightarrow> bool \<Rightarrow> 'w \<Rightarrow> int \<times> 'w" where
  "tfm_measured_boot_extend_measurement cl handle index signer_id version measurement_algo sw_type sw_type_size
       measurement_value lock_measurement w =
     (if sw_type \<noteq> None \<and> sw_type_size > SW_TYPE_MAX_SIZE then (psa_code PSA_ERROR_INVALID_ARGUMENT, w)
      else
        (let extend_iov = \<lparr>ei_index = index, ei_lock_measurement = (if lock_measurement then 1 else 0),
             ei_measurement_algo = measurement_algo,
             ei_sw_type = (case sw_type of None \<Rightarrow> replicate 20 0
               | Some t \<Rightarrow> bsplice 0 (take (unat sw_type_size) t) (replicate 20 0)),
             ei_sw_type_size = ucast sw_type_size\<rparr> in
         case psa_call cl handle TFM_MEASURED_BOOT_EXTEND [encode_extend extend_iov, signer_id, version, measurement_value] [] w of
           ((status, _), w') \<Rightarrow> (status, w')))"

end
