(* ===== verification/Delegated_Attest.thy ===== *)
theory Delegated_Attest
  imports Measured_Boot_Req_Mngr
begin

text \<open>
  The delegated attestation partition, \<open>delegated_attest.c\<close>: the boot state that it collects from the measured boot
  partition and encodes in CBOR, the key it derives from that state, and the token of the platform for the hash
  of the public key. The crypto service, the initial attestation service and the CBOR library are parameters
  (\<open>da_env\<close>) over the state \<open>'w\<close> of everything outside of the partition; the measured boot partition is
  reached with its client function. The static buffers of the partition are written before they are read in
  every request: what they hold is a value of the model.
\<close>

section \<open>The services that the partition uses\<close>

text \<open>The attributes that the partition sets of a key.\<close>

record psa_key_attributes_t =
  psa_key_usage_flags :: u32
  psa_key_type :: u16
  psa_key_bits :: u32

text \<open>The CBOR library: \<open>'c\<close> is the encoding context. \<open>QCBOREncode_Finish\<close> gives the encoded bytes.\<close>

datatype qcbor_error = QCBOR_ERR_BUFFER_TOO_SMALL | QCBOR_ERR_OTHER

record 'c qcbor =
  QCBOREncode_Init :: "u32 \<Rightarrow> 'c"
  QCBOREncode_OpenArray :: "'c \<Rightarrow> 'c"
  QCBOREncode_CloseArray :: "'c \<Rightarrow> 'c"
  QCBOREncode_OpenMap :: "'c \<Rightarrow> 'c"
  QCBOREncode_CloseMap :: "'c \<Rightarrow> 'c"
  QCBOREncode_AddBytesToMapN :: "int \<Rightarrow> buf \<Rightarrow> 'c \<Rightarrow> 'c"
  QCBOREncode_AddTextToMapN :: "int \<Rightarrow> buf \<Rightarrow> 'c \<Rightarrow> 'c"
  QCBOREncode_Finish :: "'c \<Rightarrow> qcbor_error + buf"

text \<open>
  Operations of the crypto service have a local context: \<open>'h\<close> of a hash, \<open>'o\<close> of a key derivation. A call leaves
  it changed also when it fails. \<open>psa_key_derivation_output_key\<close> writes the identifier of the key in both cases.
\<close>

record ('w, 'h, 'o, 'c) da_env =
  psa_hash_setup :: "u32 \<Rightarrow> 'w \<Rightarrow> (psa_error + unit) \<times> 'h \<times> 'w"
  psa_hash_abort :: "'h \<Rightarrow> 'w \<Rightarrow> (psa_error + unit) \<times> 'w"
  psa_hash_compare :: "u32 \<Rightarrow> buf \<Rightarrow> buf \<Rightarrow> 'w \<Rightarrow> (psa_error + unit) \<times> 'w"
  psa_export_public_key :: "u32 \<Rightarrow> u32 \<Rightarrow> 'w \<Rightarrow> (psa_error + buf) \<times> 'w"
  psa_export_key :: "u32 \<Rightarrow> u32 \<Rightarrow> 'w \<Rightarrow> (psa_error + buf) \<times> 'w"
  psa_destroy_key :: "u32 \<Rightarrow> 'w \<Rightarrow> (psa_error + unit) \<times> 'w"
  psa_key_derivation_setup :: "u32 \<Rightarrow> 'w \<Rightarrow> (psa_error + unit) \<times> 'o \<times> 'w"
  psa_key_derivation_input_key :: "'o \<Rightarrow> u16 \<Rightarrow> u32 \<Rightarrow> 'w \<Rightarrow> (psa_error + unit) \<times> 'o \<times> 'w"
  psa_key_derivation_input_bytes :: "'o \<Rightarrow> u16 \<Rightarrow> buf \<Rightarrow> 'w \<Rightarrow> (psa_error + unit) \<times> 'o \<times> 'w"
  psa_key_derivation_output_key :: "psa_key_attributes_t \<Rightarrow> 'o \<Rightarrow> 'w \<Rightarrow> (psa_error + unit) \<times> u32 \<times> 'o \<times> 'w"
  psa_key_derivation_abort :: "'o \<Rightarrow> 'w \<Rightarrow> (psa_error + unit) \<times> 'w"
  psa_initial_attest_get_token :: "buf \<Rightarrow> u32 \<Rightarrow> 'w \<Rightarrow> (psa_error + buf) \<times> 'w"
  measured_boot_client :: "'w psa_client"
  TFM_MEASURED_BOOT_HANDLE :: psa_handle_t
  cbor :: "'c qcbor"
  PSA_ALG_NONE :: u32
  PSA_ALG_SHA_256 :: u32
  PSA_ALG_SHA_384 :: u32
  PSA_ALG_SHA_512 :: u32
  PSA_ALG_HKDF :: "u32 \<Rightarrow> u32"
  PSA_HASH_LENGTH :: "u32 \<Rightarrow> u32"
  PSA_ECC_FAMILY_SECP_R1 :: u8
  PSA_KEY_USAGE_EXPORT :: u32
  PSA_KEY_TYPE_ECC_KEY_PAIR :: "u8 \<Rightarrow> u16"
  PSA_KEY_EXPORT_ECC_PUBLIC_KEY_MAX_SIZE :: "u32 \<Rightarrow> u32"
  PSA_KEY_EXPORT_ECC_KEY_PAIR_MAX_SIZE :: "u32 \<Rightarrow> u32"
  PSA_KEY_DERIVATION_INPUT_SECRET :: u16
  PSA_KEY_DERIVATION_INPUT_INFO :: u16
  TFM_BUILTIN_KEY_ID_DAK_SEED :: u32
  IAT_SW_COMPONENT_SIGNER_ID :: int
  IAT_SW_COMPONENT_VERSION :: int
  IAT_SW_COMPONENT_MEASUREMENT_TYPE :: int
  IAT_SW_COMPONENT_MEASUREMENT_DESC :: int
  IAT_SW_COMPONENT_MEASUREMENT_VALUE :: int
  TFM_ATTEST_BOOT_RECORDS_MAX_SIZE :: u32
  PSA_INITIAL_ATTEST_TOKEN_MAX_SIZE :: u32

text \<open>The static data of the partition, and everything outside of it.\<close>

record 'w da_state =
  dak_key_id :: u32
  dak_requested :: bool
  dak_pub_hash_algo :: u32
  da_world :: 'w

type_synonym ('w, 'a) da_op = "('w da_state, psa_error, 'a) sem"

definition on_world :: "('w \<Rightarrow> ('e + 'a) \<times> 'w) \<Rightarrow> ('w da_state, 'e, 'a) sem" where
  "on_world m = (\<lambda>s. case m (da_world s) of (r, w) \<Rightarrow> (r, s\<lparr>da_world := w\<rparr>))"

text \<open>A call whose status is kept with what it leaves in the local context.\<close>

definition with_context :: "('w \<Rightarrow> 'r \<times> 'o \<times> 'w) \<Rightarrow> ('w, 'r \<times> 'o) da_op" where
  "with_context m = (\<lambda>s. case m (da_world s) of (r, op, w) \<Rightarrow> (Inr (r, op), s\<lparr>da_world := w\<rparr>))"

section \<open>The public key\<close>

definition verify_dak_pub_hash :: "('w, 'h, 'o, 'c) da_env \<Rightarrow> buf \<Rightarrow> ('w, unit) da_op" where
  "verify_dak_pub_hash env dak_pub_hash = withS (\<lambda>s.
     if of_nat (length dak_pub_hash) \<noteq> PSA_HASH_LENGTH env (dak_pub_hash_algo s) then throwE PSA_ERROR_INVALID_ARGUMENT
     else
       bindE (orError (on_world (psa_export_public_key env (dak_key_id s) (PSA_KEY_EXPORT_ECC_PUBLIC_KEY_MAX_SIZE env 521)))
         PSA_ERROR_GENERIC_ERROR) (\<lambda>pub_key.
       orError (on_world (psa_hash_compare env (dak_pub_hash_algo s) pub_key dak_pub_hash)) PSA_ERROR_INVALID_ARGUMENT))"

section \<open>The boot state\<close>

definition get_firmware_measurement_description :: "('w, 'h, 'o, 'c) da_env \<Rightarrow> u32 \<Rightarrow> psa_error + buf" where
  "get_firmware_measurement_description env algorithm =
     (if algorithm = PSA_ALG_SHA_256 env then Inr [115, 104, 97, 45, 50, 53, 54]
      else if algorithm = PSA_ALG_SHA_384 env then Inr [115, 104, 97, 45, 51, 56, 52]
      else if algorithm = PSA_ALG_SHA_512 env then Inr [115, 104, 97, 45, 53, 49, 50]
      else Inl PSA_ERROR_NOT_SUPPORTED)"

definition encode_firmware_measurement :: "('w, 'h, 'o, 'c) da_env \<Rightarrow> buf \<Rightarrow> buf \<Rightarrow> buf \<Rightarrow> buf \<Rightarrow> buf \<Rightarrow> 'c \<Rightarrow> 'c" where
  "encode_firmware_measurement env signer_id sw_version sw_type measurement_desc measurement_value ctx0 =
     (let q = cbor env;
        ctx1 = QCBOREncode_OpenMap q ctx0;
        ctx2 = QCBOREncode_AddBytesToMapN q (IAT_SW_COMPONENT_SIGNER_ID env) signer_id ctx1;
        ctx3 = QCBOREncode_AddTextToMapN q (IAT_SW_COMPONENT_VERSION env) sw_version ctx2;
        ctx4 = QCBOREncode_AddTextToMapN q (IAT_SW_COMPONENT_MEASUREMENT_TYPE env) sw_type ctx3;
        ctx5 = QCBOREncode_AddTextToMapN q (IAT_SW_COMPONENT_MEASUREMENT_DESC env) measurement_desc ctx4;
        ctx6 = QCBOREncode_AddBytesToMapN q (IAT_SW_COMPONENT_MEASUREMENT_VALUE env) measurement_value ctx5
      in QCBOREncode_CloseMap q ctx6)"

text \<open>The lengths of the four stack buffers, which a successful read overwrites with the lengths of what it delivers.\<close>

record boot_buffers =
  signer_id_len :: u32
  sw_version_len :: u32
  sw_type_len :: u32
  measurement_len :: u32

definition make_boot_buffers :: boot_buffers where
  "make_boot_buffers = \<lparr>signer_id_len = SIGNER_ID_MAX_SIZE, sw_version_len = VERSION_MAX_SIZE, sw_type_len = SW_TYPE_MAX_SIZE,
     measurement_len = MEASUREMENT_VALUE_MAX_SIZE\<rparr>"

definition shrink_buffers :: "measurement_out \<Rightarrow> boot_buffers" where
  "shrink_buffers m = \<lparr>signer_id_len = of_nat (length (mo_signer_id m)), sw_version_len = of_nat (length (mo_version m)),
     sw_type_len = of_nat (length (mo_sw_type m)), measurement_len = of_nat (length (mo_measurement_value m))\<rparr>"

definition read_slot :: "('w, 'h, 'o, 'c) da_env \<Rightarrow> u8 \<Rightarrow> boot_buffers \<Rightarrow> ('w da_state, int, measurement_out) sem" where
  "read_slot env slot_index b = on_world (tfm_measured_boot_read_measurement (measured_boot_client env) (TFM_MEASURED_BOOT_HANDLE env)
     slot_index (signer_id_len b) (sw_version_len b) (sw_type_len b) (measurement_len b))"

text \<open>The loop over the slots: a slot that cannot be read is left out.\<close>

primrec read_slots :: "('w, 'h, 'o, 'c) da_env \<Rightarrow> u8 list \<Rightarrow> boot_buffers \<Rightarrow> u32 \<Rightarrow> 'c \<Rightarrow> ('w, u32 \<times> 'c) da_op" where
  "read_slots env [] b measurement_cnt ctx = returnE (measurement_cnt, ctx)"
| "read_slots env (slot_index # slots) b measurement_cnt ctx =
     tryE (read_slot env slot_index b) (\<lambda>r. case r of
       Inl _ \<Rightarrow> read_slots env slots b measurement_cnt ctx
     | Inr m \<Rightarrow>
         (let ctx' = (if measurement_cnt + 1 = 1 then QCBOREncode_OpenArray (cbor env) ctx else ctx) in
          case get_firmware_measurement_description env (mo_measurement_algo m) of
            Inl _ \<Rightarrow> throwE PSA_ERROR_GENERIC_ERROR
          | Inr measurement_desc \<Rightarrow> read_slots env slots (shrink_buffers m) (measurement_cnt + 1)
              (encode_firmware_measurement env (mo_signer_id m) (mo_version m) (mo_sw_type m) measurement_desc
                 (mo_measurement_value m) ctx')))"

definition get_platform_boot_state :: "('w, 'h, 'o, 'c) da_env \<Rightarrow> u32 \<Rightarrow> ('w, buf) da_op" where
  "get_platform_boot_state env boot_state_len =
     (if boot_state_len = 0 then throwE PSA_ERROR_INVALID_ARGUMENT
      else
        bindE (read_slots env (map of_nat [0..<unat NUM_OF_MEASUREMENT_SLOTS]) make_boot_buffers 0
          (QCBOREncode_Init (cbor env) boot_state_len)) (\<lambda>(measurement_cnt, ctx).
        case QCBOREncode_Finish (cbor env) (if measurement_cnt \<noteq> 0 then QCBOREncode_CloseArray (cbor env) ctx else ctx) of
          Inl QCBOR_ERR_BUFFER_TOO_SMALL \<Rightarrow> throwE PSA_ERROR_BUFFER_TOO_SMALL
        | Inl QCBOR_ERR_OTHER \<Rightarrow> throwE PSA_ERROR_GENERIC_ERROR
        | Inr boot_state \<Rightarrow> returnE boot_state))"

section \<open>The key\<close>

text \<open>The labels \<^verbatim>\<open>err_release_op\<close> and \<^verbatim>\<open>err_release_key\<close>.\<close>

definition err_release_op :: "('w, 'h, 'o, 'c) da_env \<Rightarrow> 'o \<Rightarrow> ('w, buf) da_op" where
  "err_release_op env op = tryE (on_world (psa_key_derivation_abort env op)) (\<lambda>_. throwE PSA_ERROR_GENERIC_ERROR)"

definition err_release_key :: "('w, 'h, 'o, 'c) da_env \<Rightarrow> 'o \<Rightarrow> ('w, buf) da_op" where
  "err_release_key env op = withS (\<lambda>s. tryE (on_world (psa_destroy_key env (dak_key_id s))) (\<lambda>_. err_release_op env op))"

definition export_dak :: "('w, 'h, 'o, 'c) da_env \<Rightarrow> 'o \<Rightarrow> u32 \<Rightarrow> ('w, buf) da_op" where
  "export_dak env op key_buf_len = withS (\<lambda>s.
     tryE (on_world (psa_export_key env (dak_key_id s) key_buf_len)) (\<lambda>r. case r of
       Inl _ \<Rightarrow> err_release_key env op
     | Inr key \<Rightarrow> bindE (on_world (psa_key_derivation_abort env op)) (\<lambda>_. returnE key)))"

definition create_dak :: "('w, 'h, 'o, 'c) da_env \<Rightarrow> psa_key_attributes_t \<Rightarrow> 'o \<Rightarrow> u32 \<Rightarrow> ('w, buf) da_op" where
  "create_dak env attributes op key_buf_len =
     bindE (with_context (\<lambda>w. case psa_key_derivation_output_key env attributes op w of (r, key_id, op', w') \<Rightarrow> ((r, key_id), op', w')))
       (\<lambda>((r, key_id), op').
     bindE (modifyS (\<lambda>s. s\<lparr>dak_key_id := key_id\<rparr>)) (\<lambda>_.
     case r of Inl _ \<Rightarrow> err_release_op env op' | Inr _ \<Rightarrow> export_dak env op' key_buf_len))"

definition derive_dak :: "('w, 'h, 'o, 'c) da_env \<Rightarrow> psa_key_attributes_t \<Rightarrow> buf \<Rightarrow> u32 \<Rightarrow> ('w, buf) da_op" where
  "derive_dak env attributes salt key_buf_len =
     bindE (with_context (psa_key_derivation_setup env (PSA_ALG_HKDF env (PSA_ALG_SHA_256 env)))) (\<lambda>(r, op).
     case r of Inl e \<Rightarrow> throwE e
     | Inr _ \<Rightarrow>
       bindE (with_context (psa_key_derivation_input_key env op (PSA_KEY_DERIVATION_INPUT_SECRET env) (TFM_BUILTIN_KEY_ID_DAK_SEED env)))
         (\<lambda>(r, op).
       case r of Inl _ \<Rightarrow> err_release_op env op
       | Inr _ \<Rightarrow>
         bindE (with_context (psa_key_derivation_input_bytes env op (PSA_KEY_DERIVATION_INPUT_INFO env) salt)) (\<lambda>(r, op).
         case r of Inl _ \<Rightarrow> err_release_op env op
         | Inr _ \<Rightarrow> create_dak env attributes op key_buf_len)))"

definition derive_delegated_attestation_key :: "('w, 'h, 'o, 'c) da_env \<Rightarrow> u8 \<Rightarrow> u32 \<Rightarrow> buf \<Rightarrow> u32 \<Rightarrow> ('w, buf) da_op" where
  "derive_delegated_attestation_key env ecc_curve key_bits salt key_buf_len =
     (if length salt = 0 then throwE PSA_ERROR_INVALID_ARGUMENT
      else
        (let attributes = \<lparr>psa_key_usage_flags = PSA_KEY_USAGE_EXPORT env, psa_key_type = PSA_KEY_TYPE_ECC_KEY_PAIR env ecc_curve,
           psa_key_bits = key_bits\<rparr> in
         withS (\<lambda>s. tryE (on_world (psa_destroy_key env (dak_key_id s))) (\<lambda>r. case r of
           Inl e \<Rightarrow> if e \<noteq> PSA_ERROR_INVALID_HANDLE then throwE e else derive_dak env attributes salt key_buf_len
         | Inr _ \<Rightarrow> derive_dak env attributes salt key_buf_len))))"

definition check_hash_algo :: "('w, 'h, 'o, 'c) da_env \<Rightarrow> u32 \<Rightarrow> ('w, unit) da_op" where
  "check_hash_algo env hash_algo =
     bindE (with_context (psa_hash_setup env hash_algo)) (\<lambda>(status, hash_op).
     tryE (on_world (psa_hash_abort env hash_op)) (\<lambda>_. liftE status))"

definition delegated_attest_get_delegated_key :: "('w, 'h, 'o, 'c) da_env \<Rightarrow> u8 \<Rightarrow> u32 \<Rightarrow> u32 \<Rightarrow> u32 \<Rightarrow> ('w, buf) da_op" where
  "delegated_attest_get_delegated_key env ecc_curve key_bits key_buf_size hash_algo =
     bindE (check_hash_algo env hash_algo) (\<lambda>_.
     bindE (get_platform_boot_state env (TFM_ATTEST_BOOT_RECORDS_MAX_SIZE env)) (\<lambda>boot_state.
     bindE (derive_delegated_attestation_key env ecc_curve key_bits boot_state key_buf_size) (\<lambda>key.
     bindE (modifyS (\<lambda>s. s\<lparr>dak_requested := True, dak_pub_hash_algo := hash_algo\<rparr>)) (\<lambda>_.
     returnE key))))"

section \<open>The token\<close>

definition delegated_attest_get_platform_token :: "('w, 'h, 'o, 'c) da_env \<Rightarrow> buf \<Rightarrow> u32 \<Rightarrow> ('w, buf) da_op" where
  "delegated_attest_get_platform_token env dak_pub_hash token_buf_size = withS (\<lambda>s.
     if \<not> dak_requested s then throwE PSA_ERROR_INVALID_ARGUMENT
     else
       bindE (verify_dak_pub_hash env dak_pub_hash) (\<lambda>_.
       on_world (psa_initial_attest_get_token env dak_pub_hash token_buf_size)))"

end
