(* ===== verification/Delegated_Attest_Req_Mngr.thy ===== *)
theory Delegated_Attest_Req_Mngr
  imports Delegated_Attest
begin

text \<open>
  The service of the delegated attestation partition, \<open>delegated_attest_req_mngr.c\<close>: its two handlers, the dispatch
  of a message and the service loop; and the client functions of \<open>tfm_delegated_attestation_api.c\<close>.
\<close>

definition DELEGATED_ATTEST_GET_DELEGATED_KEY :: int where "DELEGATED_ATTEST_GET_DELEGATED_KEY = 1001"

definition DELEGATED_ATTEST_GET_PLATFORM_TOKEN :: int where "DELEGATED_ATTEST_GET_PLATFORM_TOKEN = 1002"

definition DELEGATED_ATTEST_KEY_MAX_SIZE :: "('w, 'h, 'o, 'c) da_env \<Rightarrow> u32" where
  "DELEGATED_ATTEST_KEY_MAX_SIZE env = PSA_KEY_EXPORT_ECC_KEY_PAIR_MAX_SIZE env 521"

section \<open>Handlers\<close>

definition da_read :: "'w psa_api \<Rightarrow> psa_msg_t \<Rightarrow> nat \<Rightarrow> u32 \<Rightarrow> ('w, buf) da_op" where
  "da_read api msg i n = on_world (\<lambda>w. case psa_read api (msg_handle msg) i n w of (bs, w') \<Rightarrow> (Inr bs, w'))"

text \<open>\<^verbatim>\<open>bytes_read = psa_read(msg->handle, i, buf, n); if (bytes_read != n) return PSA_ERROR_GENERIC_ERROR;\<close>\<close>

definition da_read_arg :: "'w psa_api \<Rightarrow> psa_msg_t \<Rightarrow> nat \<Rightarrow> u32 \<Rightarrow> ('w, buf) da_op" where
  "da_read_arg api msg i n = bindE (da_read api msg i n) (\<lambda>bs.
     if length bs \<noteq> unat n then throwE PSA_ERROR_GENERIC_ERROR else returnE bs)"

definition da_write :: "'w psa_api \<Rightarrow> psa_msg_t \<Rightarrow> nat \<Rightarrow> buf \<Rightarrow> ('w, unit) da_op" where
  "da_write api msg i bs = on_world (\<lambda>w. (Inr (), psa_write api (msg_handle msg) i bs w))"

text \<open>The handler after it has read its three arguments.\<close>

definition key_from :: "('w, 'h, 'o, 'c) da_env \<Rightarrow> 'w psa_api \<Rightarrow> psa_msg_t \<Rightarrow> u8 \<Rightarrow> u32 \<Rightarrow> u32 \<Rightarrow> ('w, unit) da_op" where
  "key_from env api msg ecc_curve key_bits hash_algo =
     (if ecc_curve \<noteq> PSA_ECC_FAMILY_SECP_R1 env then throwE PSA_ERROR_INVALID_ARGUMENT
      else if key_bits \<noteq> 256 \<and> key_bits \<noteq> 384 \<and> key_bits \<noteq> 521 then throwE PSA_ERROR_INVALID_ARGUMENT
      else if out_size msg ! 0 < PSA_KEY_EXPORT_ECC_KEY_PAIR_MAX_SIZE env key_bits then throwE PSA_ERROR_BUFFER_TOO_SMALL
      else
        (let key_buf_size = (if out_size msg ! 0 < DELEGATED_ATTEST_KEY_MAX_SIZE env then out_size msg ! 0
           else DELEGATED_ATTEST_KEY_MAX_SIZE env) in
         bindE (delegated_attest_get_delegated_key env ecc_curve key_bits key_buf_size hash_algo) (da_write api msg 0)))"

definition get_delegated_attestation_key :: "('w, 'h, 'o, 'c) da_env \<Rightarrow> 'w psa_api \<Rightarrow> psa_msg_t \<Rightarrow> ('w, unit) da_op" where
  "get_delegated_attestation_key env api msg =
     (if in_size msg ! 0 \<noteq> 1 \<or> in_size msg ! 1 \<noteq> 4 \<or> in_size msg ! 2 \<noteq> 4 then throwE PSA_ERROR_PROGRAMMER_ERROR
      else
        bindE (da_read_arg api msg 0 1) (\<lambda>ecc_curve.
        bindE (da_read_arg api msg 1 4) (\<lambda>key_bits.
        bindE (da_read_arg api msg 2 4) (\<lambda>hash_algo.
        key_from env api msg (ecc_curve ! 0) (de32 key_bits) (de32 hash_algo)))))"

text \<open>
  The input vector is read into a buffer of the largest hash before its size is checked: more bytes overflow it,
  which has no result in C.
\<close>

definition token_from :: "('w, 'h, 'o, 'c) da_env \<Rightarrow> 'w psa_api \<Rightarrow> psa_msg_t \<Rightarrow> buf \<Rightarrow> ('w, unit) da_op" where
  "token_from env api msg dak_pub_hash =
     (let dak_pub_hash_size = in_size msg ! 0;
        token_buf_size = (if out_size msg ! 0 < PSA_INITIAL_ATTEST_TOKEN_MAX_SIZE env then out_size msg ! 0
          else PSA_INITIAL_ATTEST_TOKEN_MAX_SIZE env) in
      if dak_pub_hash_size \<noteq> PSA_HASH_LENGTH env (PSA_ALG_SHA_256 env) \<and>
         dak_pub_hash_size \<noteq> PSA_HASH_LENGTH env (PSA_ALG_SHA_384 env) \<and>
         dak_pub_hash_size \<noteq> PSA_HASH_LENGTH env (PSA_ALG_SHA_512 env) then throwE PSA_ERROR_INVALID_ARGUMENT
      else bindE (delegated_attest_get_platform_token env dak_pub_hash token_buf_size) (da_write api msg 0))"

definition get_platform_attestation_token :: "('w, 'h, 'o, 'c) da_env \<Rightarrow> 'w psa_api \<Rightarrow> psa_msg_t \<Rightarrow> ('w, unit) da_op" where
  "get_platform_attestation_token env api msg =
     bindE (da_read api msg 0 (in_size msg ! 0)) (\<lambda>dak_pub_hash.
     if length dak_pub_hash > unat (PSA_HASH_LENGTH env (PSA_ALG_SHA_512 env)) then throwE PSA_NO_RESULT
     else if length dak_pub_hash \<noteq> unat (in_size msg ! 0) then throwE PSA_ERROR_GENERIC_ERROR
     else token_from env api msg dak_pub_hash)"

section \<open>Signals\<close>

type_synonym 'w da_step = "('w da_state, partition_stop, unit) sem"

definition da_reply :: "'w psa_api \<Rightarrow> psa_msg_t \<Rightarrow> ('w, unit) da_op \<Rightarrow> 'w da_step" where
  "da_reply api msg op = tryE op (\<lambda>r. case r of
     Inr _ \<Rightarrow> on_world (\<lambda>w. (Inr (), psa_reply api (msg_handle msg) 0 w))
   | Inl e \<Rightarrow> if e = PSA_NO_RESULT then throwE Partition_Stuck
              else on_world (\<lambda>w. (Inr (), psa_reply api (msg_handle msg) (psa_code e) w)))"

definition delegated_attestation_signal_handle :: "('w, 'h, 'o, 'c) da_env \<Rightarrow> 'w psa_api \<Rightarrow> u32 \<Rightarrow> 'w da_step" where
  "delegated_attestation_signal_handle env api signal = tryE (on_world (psa_get api signal)) (\<lambda>r. case r of
     Inl _ \<Rightarrow> returnE ()
   | Inr msg \<Rightarrow>
       if msg_type msg = DELEGATED_ATTEST_GET_DELEGATED_KEY then da_reply api msg (get_delegated_attestation_key env api msg)
       else if msg_type msg = DELEGATED_ATTEST_GET_PLATFORM_TOKEN then da_reply api msg (get_platform_attestation_token env api msg)
       else throwE Partition_Panic)"

text \<open>The first \<open>n\<close> iterations of the service loop for the signal \<open>TFM_DELEGATED_ATTESTATION_SIGNAL\<close>.\<close>

primrec delegated_attest_partition_main :: "nat \<Rightarrow> ('w, 'h, 'o, 'c) da_env \<Rightarrow> 'w psa_api \<Rightarrow> u32 \<Rightarrow> u32 \<Rightarrow> 'w da_step" where
  "delegated_attest_partition_main 0 env api wait_any da_signal = returnE ()"
| "delegated_attest_partition_main (Suc n) env api wait_any da_signal =
     bindE (on_world (\<lambda>w. case psa_wait api wait_any w of (signals, w') \<Rightarrow> (Inr signals, w'))) (\<lambda>signals.
     if signals AND da_signal \<noteq> 0 then
       bindE (delegated_attestation_signal_handle env api da_signal) (\<lambda>_.
       delegated_attest_partition_main n env api wait_any da_signal)
     else throwE Partition_Panic)"

section \<open>The client interface\<close>

text \<open>
  \<open>handle\<close> is \<^verbatim>\<open>TFM_DELEGATED_ATTESTATION_HANDLE\<close>. \<open>want\<close> is false for a null pointer in the place of the length
  of the result, which is the length of the buffer that the call delivers.
\<close>

definition tfm_delegated_attest_get_delegated_key :: "'w psa_client \<Rightarrow> psa_handle_t \<Rightarrow> u8 \<Rightarrow> u32 \<Rightarrow> u32 \<Rightarrow> bool \<Rightarrow> u32 \<Rightarrow> 'w \<Rightarrow> (int + buf) \<times> 'w" where
  "tfm_delegated_attest_get_delegated_key cl handle ecc_curve key_bits key_buf_size want hash_algo w =
     (if \<not> want then (Inl (psa_code PSA_ERROR_INVALID_ARGUMENT), w)
      else case psa_call cl handle DELEGATED_ATTEST_GET_DELEGATED_KEY [[ecc_curve], le32 key_bits, le32 hash_algo] [key_buf_size] w of
        ((status, outs), w') \<Rightarrow> (if status = 0 then Inr (outs ! 0) else Inl status, w'))"

definition tfm_delegated_attest_get_token :: "'w psa_client \<Rightarrow> psa_handle_t \<Rightarrow> buf \<Rightarrow> u32 \<Rightarrow> bool \<Rightarrow> 'w \<Rightarrow> (int + buf) \<times> 'w" where
  "tfm_delegated_attest_get_token cl handle dak_pub_hash token_buf_size want w =
     (if \<not> want then (Inl (psa_code PSA_ERROR_INVALID_ARGUMENT), w)
      else case psa_call cl handle DELEGATED_ATTEST_GET_PLATFORM_TOKEN [dak_pub_hash] [token_buf_size] w of
        ((status, outs), w') \<Rightarrow> (if status = 0 then Inr (outs ! 0) else Inl status, w'))"

end
