(* ===== verification/Measured_Boot_Log.thy ===== *)
theory Measured_Boot_Log
  imports Measured_Boot_Req_Mngr
begin

text \<open>
  What the measured boot partition promises: a slot is determined by the log of the extensions it was given.
  Its value is the chain of hashes over the log, its metadata are those of the first extension, it is locked
  by the first extension that asks for it, and only the signer of the first extension extends it. The
  operations and the handlers of messages implement this, whatever the crypto service answers.
\<close>

section \<open>Logs\<close>

text \<open>
  A request to extend, with the buffer of 64 bytes that holds the signer. \<open>x_done\<close>: the hash was computed;
  otherwise the request has set the metadata only.
\<close>

record mb_extension =
  x_signer :: buf
  x_signer_size :: nat
  x_version :: buf
  x_algo :: u32
  x_type :: buf
  x_value :: buf
  x_lock :: bool
  x_done :: bool

definition padded :: "nat \<Rightarrow> buf \<Rightarrow> buf" where
  "padded n xs = xs @ replicate (n - length xs) 0"

text \<open>The comparison of signers: as many bytes as the recorded signer has.\<close>

definition same_signer :: "mb_extension \<Rightarrow> mb_extension \<Rightarrow> bool" where
  "same_signer x y \<longleftrightarrow> take (x_signer_size x) (x_signer y) = take (x_signer_size x) (x_signer x)"

definition hash_chain :: "(buf \<Rightarrow> buf) \<Rightarrow> nat \<Rightarrow> buf list \<Rightarrow> buf" where
  "hash_chain H n ms = foldl (\<lambda>v m. H (v @ m)) (replicate n 0) ms"

definition measured :: "mb_extension list \<Rightarrow> buf list" where
  "measured log = map x_value (filter x_done log)"

definition locked :: "mb_extension list \<Rightarrow> bool" where
  "locked log \<longleftrightarrow> (\<exists>x\<in>set log. x_done x \<and> x_lock x)"

definition admits :: "mb_extension list \<Rightarrow> mb_extension \<Rightarrow> bool" where
  "admits log x \<longleftrightarrow> log = [] \<or> same_signer (hd log) x"

definition extension_ok :: "mb_extension \<Rightarrow> bool" where
  "extension_ok x \<longleftrightarrow> length (x_signer x) = 64 \<and> 32 \<le> x_signer_size x \<and> x_signer_size x \<le> 64 \<and> length (x_version x) \<le> 14 \<and>
     length (x_type x) \<le> 20 \<and> 32 \<le> length (x_value x) \<and> length (x_value x) \<le> 64"

text \<open>The version and the type of software of a slot are those of its only extension, and none after a second one.\<close>

fun log_version :: "mb_extension list \<Rightarrow> buf" where
  "log_version [x] = x_version x"
| "log_version _ = []"

fun log_type :: "mb_extension list \<Rightarrow> buf" where
  "log_type [x] = x_type x"
| "log_type _ = []"

fun log_signer :: "mb_extension list \<Rightarrow> buf" where
  "log_signer [] = []"
| "log_signer (x # xs) = take (x_signer_size x) (x_signer x)"

fun log_algo :: "mb_extension list \<Rightarrow> u32" where
  "log_algo [] = 0"
| "log_algo (x # xs) = x_algo x"

definition log_metadata :: "mb_extension list \<Rightarrow> measurement_metadata_t" where
  "log_metadata log = \<lparr>md_signer_id = padded 64 (log_signer log), md_signer_id_size = of_nat (length (log_signer log)),
     md_version = padded 14 (log_version log), md_version_size = of_nat (length (log_version log)),
     md_measurement_algo = log_algo log,
     md_sw_type = padded 20 (log_type log), md_sw_type_size = of_nat (length (log_type log))\<rparr>"

definition log_value :: "(buf \<Rightarrow> buf) \<Rightarrow> nat \<Rightarrow> mb_extension list \<Rightarrow> measurement_value_t" where
  "log_value H n log = \<lparr>hash_buf = padded 64 (hash_chain H n (measured log)),
     hash_buf_size = (if measured log = [] then 0 else of_nat n)\<rparr>"

definition slot_of :: "(buf \<Rightarrow> buf) \<Rightarrow> nat \<Rightarrow> mb_extension list \<Rightarrow> measured_boot_slot_t" where
  "slot_of H n log = \<lparr>is_locked = locked log, is_populated = (log \<noteq> []), is_common = False,
     measurement = \<lparr>mvalue = log_value H n log, metadata = log_metadata log\<rparr>\<rparr>"

definition view_of :: "(buf \<Rightarrow> buf) \<Rightarrow> nat \<Rightarrow> mb_extension list \<Rightarrow> measurement_out" where
  "view_of H n log = \<lparr>mo_signer_id = log_signer log, mo_version = log_version log, mo_measurement_algo = log_algo log,
     mo_sw_type = log_type log, mo_measurement_value = (if measured log = [] then [] else hash_chain H n (measured log)),
     mo_is_locked = locked log\<rparr>"

text \<open>The slots of the partition are those of the logs.\<close>

definition slots_have :: "(buf \<Rightarrow> buf) \<Rightarrow> nat \<Rightarrow> (nat \<Rightarrow> mb_extension list) \<Rightarrow> 'q mb_state \<Rightarrow> bool" where
  "slots_have H n logs s \<longleftrightarrow> measurement_slot s = map (\<lambda>i. slot_of H n (logs i)) [0..<32] \<and>
     (\<forall>i<32. \<forall>x\<in>set (logs i). extension_ok x)"

section \<open>Facts on logs\<close>

lemma length_padded [simp]: "length xs \<le> n \<Longrightarrow> length (padded n xs) = n"
  by (simp add: padded_def)

lemma take_padded [simp]: "take (length xs) (padded n xs) = xs"
  by (simp add: padded_def)

lemma padded_Nil [simp]: "padded n [] = replicate n 0"
  by (simp add: padded_def)

lemma bsplice_replicate: "length xs \<le> n \<Longrightarrow> bsplice 0 xs (replicate n 0) = padded n xs"
  by (simp add: bsplice_def padded_def)

lemma bsplice_padded: "length xs = length ys \<Longrightarrow> length ys \<le> n \<Longrightarrow> bsplice 0 xs (padded n ys) = padded n xs"
  by (simp add: bsplice_def padded_def)

lemma measured_simps [simp]:
  "measured [] = []"
  "measured (log @ [x]) = measured log @ (if x_done x then [x_value x] else [])"
  by (simp_all add: measured_def)

lemma locked_simps [simp]:
  "locked [] \<longleftrightarrow> False"
  "locked (log @ [x]) \<longleftrightarrow> locked log \<or> x_done x \<and> x_lock x"
  by (auto simp: locked_def)

lemma hash_chain_simps [simp]:
  "hash_chain H n [] = replicate n 0"
  "hash_chain H n (ms @ [m]) = H (hash_chain H n ms @ m)"
  by (simp_all add: hash_chain_def)

lemma length_hash_chain: "(\<And>x. length (H x) = n) \<Longrightarrow> length (hash_chain H n ms) = n"
  by (cases ms rule: rev_cases) simp_all

lemma log_snoc [simp]:
  "log \<noteq> [] \<Longrightarrow> log_version (log @ [x]) = []"
  "log \<noteq> [] \<Longrightarrow> log_type (log @ [x]) = []"
  "log \<noteq> [] \<Longrightarrow> log_signer (log @ [x]) = log_signer log"
  "log \<noteq> [] \<Longrightarrow> log_algo (log @ [x]) = log_algo log"
  "log_signer [x] = take (x_signer_size x) (x_signer x)" "log_algo [x] = x_algo x"
  by (cases log rule: list.exhaust; cases "tl log"; simp)+

lemma log_lengths:
  assumes "\<forall>x\<in>set log. extension_ok x"
  shows "length (log_signer log) \<le> 64" "length (log_version log) \<le> 14" "length (log_type log) \<le> 20"
  using assms by (cases log; cases "tl log"; simp add: extension_ok_def)+

text \<open>
  The value of a slot binds the measurements: two logs with the same value have the same measurements, or the
  hashes that were computed for them show a collision or an input with the initial value.
\<close>

fun hash_inputs :: "(buf \<Rightarrow> buf) \<Rightarrow> buf \<Rightarrow> buf list \<Rightarrow> buf list" where
  "hash_inputs H v [] = []"
| "hash_inputs H v (m # ms) = (v @ m) # hash_inputs H (H (v @ m)) ms"

lemma hash_inputs_snoc [simp]: "hash_inputs H v (ms @ [m]) = hash_inputs H v ms @ [foldl (\<lambda>v m. H (v @ m)) v ms @ m]"
  by (induction ms arbitrary: v) simp_all

lemma hash_chain_binding:
  assumes n: "\<And>x. length (H x) = n" and eq: "hash_chain H n xs = hash_chain H n ys"
    and free: "inj_on H (set (hash_inputs H (replicate n 0) xs) \<union> set (hash_inputs H (replicate n 0) ys))"
    and start: "\<forall>x\<in>set (hash_inputs H (replicate n 0) xs) \<union> set (hash_inputs H (replicate n 0) ys). H x \<noteq> replicate n 0"
  shows "xs = ys"
  using eq free start
proof (induction xs arbitrary: ys rule: rev_induct)
  case Nil
  then show ?case by (cases ys rule: rev_cases) (auto simp: hash_chain_def)
next
  case (snoc x xs)
  show ?case
  proof (cases ys rule: rev_cases)
    case Nil
    then show ?thesis using snoc.prems by (auto simp: hash_chain_def)
  next
    case (snoc zs z)
    have "hash_chain H n xs @ x = hash_chain H n zs @ z"
      by (rule inj_onD [OF snoc.prems(2)]) (use snoc.prems(1) snoc in \<open>simp_all add: hash_chain_def\<close>)
    then have "hash_chain H n xs = hash_chain H n zs" "x = z"
      using length_hash_chain [of H n, OF n] by (metis append_eq_append_conv)+
    moreover have "xs = zs"
      using calculation(1) snoc.prems(2,3) snoc by (intro snoc.IH) (auto intro: inj_on_subset)
    ultimately show ?thesis using snoc by simp
  qed
qed

end
