(* ===== verification/Measured_Boot_Spec.thy ===== *)
theory Measured_Boot_Spec
  imports Measured_Boot_Log
begin

text \<open>
  The operations and the handlers of the measured boot partition against the logs of its slots, over any
  framework with the contract \<open>psa_vectors\<close> and any crypto service that computes a hash or fails.
\<close>

section \<open>Slots\<close>

lemma slot_at: "slots_have H n logs s \<Longrightarrow> i < 32 \<Longrightarrow> measurement_slot s ! i = slot_of H n (logs i)"
  by (simp add: slots_have_def)

lemma slots_length: "slots_have H n logs s \<Longrightarrow> length (measurement_slot s) = 32"
  by (simp add: slots_have_def)

lemma slots_upd:
  assumes "slots_have H n logs s" and "\<forall>x\<in>set log. extension_ok x"
    and "measurement_slot s' = (measurement_slot s)[i := slot_of H n log]" and "i < 32"
  shows "slots_have H n (logs(i := log)) s'"
proof -
  have "(map (\<lambda>i. slot_of H n (logs i)) [0..<32])[i := slot_of H n log] = map (\<lambda>j. slot_of H n ((logs(i := log)) j)) [0..<32]"
    by (rule nth_equalityI) (auto simp: nth_list_update)
  then show ?thesis using assms by (simp add: slots_have_def)
qed

lemma slots_same: "measurement_slot s' = measurement_slot s \<Longrightarrow> slots_have H n logs s' = slots_have H n logs s"
  by (simp add: slots_have_def)

lemma slot_first:
  assumes "extension_ok x"
  shows "(slot_of H n [])\<lparr>is_populated := True, measurement := (measurement (slot_of H n []))\<lparr>metadata :=
      (metadata (measurement (slot_of H n [])))\<lparr>md_signer_id_size := of_nat (x_signer_size x),
         md_version_size := of_nat (length (x_version x)), md_sw_type_size := of_nat (length (x_type x)),
         md_signer_id := bsplice 0 (take (x_signer_size x) (x_signer x)) (replicate 64 0),
         md_version := bsplice 0 (x_version x) (replicate 14 0), md_measurement_algo := x_algo x,
         md_sw_type := bsplice 0 (x_type x) (replicate 20 0)\<rparr>\<rparr>\<rparr> =
    slot_of H n [x\<lparr>x_done := False\<rparr>]"
  using assms
  by (cases "x_signer_size x = 64")
    (simp_all add: slot_of_def log_metadata_def log_value_def locked_def measured_def extension_ok_def bsplice_replicate min_def)

lemma slot_next:
  assumes "log \<noteq> []"
  shows "(slot_of H n log)\<lparr>measurement := (measurement (slot_of H n log))\<lparr>metadata := (metadata (measurement (slot_of H n log)))
      \<lparr>md_version_size := 0, md_sw_type_size := 0, md_version := replicate 14 0, md_sw_type := replicate 20 0\<rparr>\<rparr>\<rparr> =
    slot_of H n (log @ [x\<lparr>x_done := False\<rparr>])"
  using assms by (simp add: slot_of_def log_metadata_def log_value_def)

lemma slot_stored:
  assumes "length (hash_chain H n (measured log)) = n" and "length h = n" and "n \<le> 64"
    and "h = H (hash_chain H n (measured log) @ x_value x)"
  shows "(slot_of H n (log @ [x\<lparr>x_done := False\<rparr>]))\<lparr>measurement := (measurement (slot_of H n (log @ [x\<lparr>x_done := False\<rparr>])))
      \<lparr>mvalue := \<lparr>hash_buf = bsplice 0 h (hash_buf (mvalue (measurement (slot_of H n (log @ [x\<lparr>x_done := False\<rparr>]))))),
         hash_buf_size = of_nat n\<rparr>\<rparr>\<rparr> =
    slot_of H n (log @ [x\<lparr>x_done := True, x_lock := False\<rparr>])"
  using assms
  by (cases "log = []") (auto simp: slot_of_def log_metadata_def log_value_def bsplice_padded locked_def measured_def hash_chain_def)

lemma slot_locked:
  "(slot_of H n (log @ [x\<lparr>x_done := True, x_lock := False\<rparr>]))\<lparr>is_locked := True\<rparr> =
   slot_of H n (log @ [x\<lparr>x_done := True, x_lock := True\<rparr>])"
  by (cases "log = []") (auto simp: slot_of_def log_metadata_def log_value_def locked_def measured_def)

section \<open>Operations\<close>

lemma ucast_ucast_8 [simp]: "ucast (ucast (b :: u8) :: u32) = b"
  by (rule bit_word_eqI) (auto simp: bit_simps)

lemma upd_slots:
  assumes "slots_have H n logs s" and "unat index < 32" and "f (slot_of H n (logs (unat index))) = slot_of H n log"
    and "\<forall>x\<in>set log. extension_ok x"
    and "\<And>s'. slots_have H n (logs(unat index := log)) s' \<Longrightarrow> mb_framework s' = mb_framework s \<Longrightarrow>
      boot_measurements s' = boot_measurements s \<Longrightarrow> Q () s'"
  shows "wp (upd_slot index f) Q E s"
  unfolding upd_slot_def wp_modifyS
  by (rule assms(5), rule slots_upd [OF assms(1,4) _ assms(2)]) (use assms(1-3) in \<open>simp_all add: slot_at\<close>)

lemma upd_upd_slot:
  "unat index < length (measurement_slot s) \<Longrightarrow>
   wp (bindE (upd_slot index f) (\<lambda>_. upd_slot index g)) Q E s = wp (upd_slot index (\<lambda>slot. g (f slot))) Q E s"
  by (simp add: upd_slot_def)

lemma wp_on_framework:
  "wp (on_framework m) Q E s = wp m (\<lambda>a q. Q a (s\<lparr>mb_framework := q\<rparr>)) (\<lambda>e q. E e (s\<lparr>mb_framework := q\<rparr>)) (mb_framework s)"
  by (simp add: wp_def on_framework_def split: prod.splits sum.splits)

text \<open>The arguments of a call that describe the extension \<open>x\<close>: buffers and their sizes.\<close>

definition describes :: "buf \<Rightarrow> u32 \<Rightarrow> buf \<Rightarrow> u8 \<Rightarrow> u32 \<Rightarrow> buf \<Rightarrow> u8 \<Rightarrow> buf \<Rightarrow> u32 \<Rightarrow> u8 \<Rightarrow> mb_extension \<Rightarrow> bool" where
  "describes sb sn vb vn algo tb tn mb mn lock x \<longleftrightarrow> extension_ok x \<and> sb = x_signer x \<and> unat sn = x_signer_size x \<and>
     unat vn \<le> length vb \<and> take (unat vn) vb = x_version x \<and> algo = x_algo x \<and> unat tn \<le> length tb \<and> take (unat tn) tb = x_type x \<and>
     unat mn \<le> length mb \<and> take (unat mn) mb = x_value x \<and> (lock \<noteq> 0 \<longleftrightarrow> x_lock x)"

lemma access_slot:
  assumes "\<forall>y\<in>set log. extension_ok y" and "extension_ok x"
  shows "is_slot_access_prohibited (slot_of H n log) (x_signer x) \<longleftrightarrow> \<not> admits log x"
proof (cases log)
  case Nil
  then show ?thesis by (simp add: is_slot_access_prohibited_def is_signer_id_different_def slot_of_def log_metadata_def admits_def)
next
  case (Cons y ys)
  have "unat (of_nat (x_signer_size y) :: u32) = x_signer_size y" "length (take (x_signer_size y) (x_signer y)) = x_signer_size y"
    using assms(1) Cons by (simp_all add: extension_ok_def unat_of_nat_u32)
  moreover from this have "take (x_signer_size y) (padded 64 (take (x_signer_size y) (x_signer y))) = take (x_signer_size y) (x_signer y)"
    by (metis take_padded)
  ultimately show ?thesis
    by (simp add: Cons is_slot_access_prohibited_def is_signer_id_different_def slot_of_def log_metadata_def admits_def same_signer_def Let_def)
qed

lemma describes_defined:
  assumes "slots_have H n logs s" and "unat index < 32" and "describes sb sn vb vn algo tb tn mb mn lock x"
  shows "extend_defined s index sb sn vb vn tb tn mb mn"
proof -
  have ok: "extension_ok x" "\<forall>y\<in>set (logs (unat index)). extension_ok y"
    using assms by (simp_all add: describes_def slots_have_def)
  have "unat (of_nat (length (log_signer (logs (unat index)))) :: u32) \<le> 64"
    using log_lengths(1) [OF ok(2)] by (simp add: unat_of_nat_u32)
  moreover have "length (take (unat vn) vb) \<le> 14" "length (take (unat tn) tb) \<le> 20" "length (take (unat mn) mb) \<le> 64"
    using assms(3) ok(1) by (auto simp: describes_def extension_ok_def)
  ultimately show ?thesis using assms ok(1)
    by (auto simp: extend_defined_def slot_at slots_length describes_def extension_ok_def slot_of_def log_metadata_def mb_sizes)
qed

text \<open>The buffers of a reader are large enough.\<close>

definition buffers_fit :: "nat \<Rightarrow> mb_extension list \<Rightarrow> u32 \<Rightarrow> u32 \<Rightarrow> u32 \<Rightarrow> u32 \<Rightarrow> bool" where
  "buffers_fit n log sn vn tn mn \<longleftrightarrow> length (log_signer log) \<le> unat sn \<and> length (log_version log) \<le> unat vn \<and>
     length (log_type log) \<le> unat tn \<and> (measured log \<noteq> [] \<longrightarrow> n \<le> unat mn)"

text \<open>\<open>rel\<close> says that the crypto service does not fail.\<close>

locale measured_boot = psa_vectors api invec outvec room
  for api :: "'q psa_api" and invec :: "'q \<Rightarrow> nat \<Rightarrow> buf" and outvec :: "'q \<Rightarrow> nat \<Rightarrow> buf" and room :: "'q \<Rightarrow> nat \<Rightarrow> nat" +
  fixes env :: "'q mb_env"
    and H :: "buf \<Rightarrow> buf"
    and rel :: bool
  assumes hash_law: "psa_hash_compute env (TFM_MEASURED_BOOT_HASH_ALG env) x (MEASUREMENT_VALUE_SIZE env) q = (r, q') \<Longrightarrow>
      (\<forall>h. r = Inr h \<longrightarrow> h = H x) \<and> r \<noteq> Inl PSA_NO_RESULT \<and> (rel \<longrightarrow> (\<exists>h. r = Inr h)) \<and> invec q' = invec q \<and> outvec q' = outvec q \<and> room q' = room q"
    and hash_length: "length (H x) = unat (MEASUREMENT_VALUE_SIZE env)"
    and value_size: "0 < MEASUREMENT_VALUE_SIZE env" "MEASUREMENT_VALUE_SIZE env \<le> 64"
begin

abbreviation hsize :: nat where "hsize \<equiv> unat (MEASUREMENT_VALUE_SIZE env)"

abbreviation same_vectors :: "'q mb_state \<Rightarrow> 'q mb_state \<Rightarrow> bool" where
  "same_vectors s s' \<equiv> invec (mb_framework s') = invec (mb_framework s) \<and> outvec (mb_framework s') = outvec (mb_framework s) \<and>
     room (mb_framework s') = room (mb_framework s)"

lemma hsize: "hsize \<le> 64" "0 < hsize"
  using value_size by (simp_all add: word_le_nat_alt word_less_nat_alt)

lemma length_chain [simp]: "length (hash_chain H hsize ms) = hsize"
  by (rule length_hash_chain) (rule hash_length)

text \<open>The three steps of an extension: the metadata, the hash, and the new value with the lock.\<close>

abbreviation grown_by :: "(nat \<Rightarrow> mb_extension list) \<Rightarrow> u8 \<Rightarrow> mb_extension \<Rightarrow> nat \<Rightarrow> mb_extension list" where
  "grown_by logs index x \<equiv> logs(unat index := logs (unat index) @ [x])"

lemma metadata_wp:
  assumes s: "slots_have H hsize logs s" and i: "unat index < 32"
    and x: "describes sb sn vb vn algo tb tn mb mn lock x"
    and post: "\<And>s'. slots_have H hsize (grown_by logs index (x\<lparr>x_done := False\<rparr>)) s' \<Longrightarrow> mb_framework s' = mb_framework s \<Longrightarrow>
      boot_measurements s' = boot_measurements s \<Longrightarrow> Q () s'"
  shows "wp (if is_populated (slot_of H hsize (logs (unat index))) then extend_metadata index
      else bindE (update_metadata index sb sn vb (ucast vn) algo tb (ucast tn)) (\<lambda>_. mark_slot_as_occupied index)) Q E s"
proof -
  let ?log = "logs (unat index)" and ?F = "x\<lparr>x_done := False\<rparr>"
  have ok: "extension_ok x" and okn: "\<forall>y\<in>set (?log @ [?F]). extension_ok y"
    using x s i by (auto simp: describes_def slots_have_def extension_ok_def)
  show ?thesis
  proof (cases "?log = []")
    case True
    let ?f = "\<lambda>slot. (slot\<lparr>measurement := (measurement slot)\<lparr>metadata := (let md = metadata (measurement slot) in
        md\<lparr>md_signer_id_size := sn, md_version_size := ucast (ucast vn :: u32), md_sw_type_size := ucast (ucast tn :: u32),
           md_signer_id := bsplice 0 (take (unat sn) sb) (md_signer_id md),
           md_version := bsplice 0 (take (unat (ucast vn :: u32)) vb) (md_version md), md_measurement_algo := algo,
           md_sw_type := bsplice 0 (take (unat (ucast tn :: u32)) tb) (md_sw_type md)\<rparr>)\<rparr>\<rparr>)\<lparr>is_populated := True\<rparr>"
    have sizes: "length (x_version x) = unat vn" "length (x_type x) = unat tn" "x_signer_size x = unat sn"
      using x unfolding describes_def by (metis length_take min.absorb2)+
    have f: "?f (slot_of H hsize ?log) = slot_of H hsize (?log @ [?F])"
      using slot_first [OF ok, of H hsize] x True
      by (simp add: describes_def slot_of_def log_metadata_def Let_def sizes)
    have "wp (upd_slot index ?f) Q E s"
      by (rule upd_slots [where f = ?f and log = "?log @ [?F]", OF s i f okn]) (rule post)
    then show ?thesis using True i slots_length [OF s]
      by (simp add: slot_of_def update_metadata_def mark_slot_as_occupied_def upd_upd_slot del: wp_bindE)
  next
    case False
    have "wp (extend_metadata index) Q E s"
      unfolding extend_metadata_def
      by (rule upd_slots [where log = "?log @ [?F]", OF s i _ okn], use slot_next [OF False] in \<open>simp add: mb_sizes\<close>) (rule post)
    then show ?thesis using False by (simp add: slot_of_def)
  qed
qed

lemma hash_wp:
  assumes u: "slots_have H hsize (grown_by logs index y) u" and i: "unat index < 32" and y: "\<not> x_done y"
    and m: "take (unat mn) mb = m"
  shows "wp (extend_measurement_value env index mb mn)
      (\<lambda>h t. h = H (hash_chain H hsize (measured (logs (unat index))) @ m) \<and> slots_have H hsize (grown_by logs index y) t \<and>
         same_vectors u t \<and> boot_measurements t = boot_measurements u)
      (\<lambda>e t. \<not> rel \<and> e \<noteq> PSA_NO_RESULT \<and> slots_have H hsize (grown_by logs index y) t \<and> same_vectors u t \<and>
         boot_measurements t = boot_measurements u) u"
proof -
  have v: "get_stored_measurement_value env index u = hash_chain H hsize (measured (logs (unat index)))"
    using slot_at [OF u i] y by (simp add: get_stored_measurement_value_def slot_of_def log_value_def) (metis length_chain take_padded)
  show ?thesis unfolding extend_measurement_value_def wp_withS wp_on_framework v m
    by (rule wpI) (use u in \<open>auto dest!: hash_law simp: slots_have_def\<close>)
qed

lemma value_wp:
  assumes u: "slots_have H hsize (grown_by logs index (x\<lparr>x_done := False\<rparr>)) u" and i: "unat index < 32"
    and h: "h = H (hash_chain H hsize (measured (logs (unat index))) @ x_value x)" and lock: "lock \<noteq> 0 \<longleftrightarrow> x_lock x"
  shows "wp (bindE (store_measurement_value index h) (\<lambda>_. if lock \<noteq> 0 then lock_measurement_slot index else returnE ()))
      (\<lambda>_ t. slots_have H hsize (grown_by logs index (x\<lparr>x_done := True\<rparr>)) t \<and> mb_framework t = mb_framework u \<and>
         boot_measurements t = boot_measurements u) E u"
  unfolding wp_bindE store_measurement_value_def
proof (rule upd_slots [where log = "logs (unat index) @ [x\<lparr>x_done := True, x_lock := False\<rparr>]", OF u i])
  let ?log = "logs (unat index)" and ?T = "x\<lparr>x_done := True, x_lock := False\<rparr>" and ?D = "x\<lparr>x_done := True\<rparr>"
  let ?S = "slot_of H hsize (grown_by logs index (x\<lparr>x_done := False\<rparr>) (unat index))"
  have oks: "\<forall>y\<in>set (?log @ [x\<lparr>x_done := False\<rparr>]). extension_ok y"
    using u i by (auto simp: slots_have_def)
  then show okT: "\<forall>y\<in>set (?log @ [?T]). extension_ok y" by (auto simp: extension_ok_def)
  have okD: "\<forall>y\<in>set (?log @ [?D]). extension_ok y" using oks by (auto simp: extension_ok_def)
  have "length h = hsize" using h by (simp add: hash_length)
  then show "?S\<lparr>measurement := (measurement ?S)\<lparr>mvalue := \<lparr>hash_buf = bsplice 0 h (hash_buf (mvalue (measurement ?S))),
      hash_buf_size = of_nat (length h)\<rparr>\<rparr>\<rparr> = slot_of H hsize (?log @ [?T])"
    using slot_stored [where H = H and n = hsize and log = ?log and h = h and x = x] hsize(1) h by simp
  fix t assume t: "slots_have H hsize ((grown_by logs index (x\<lparr>x_done := False\<rparr>))(unat index := ?log @ [?T])) t"
    "mb_framework t = mb_framework u" "boot_measurements t = boot_measurements u"
  then have T: "slots_have H hsize (grown_by logs index ?T) t" by simp
  have D: "x\<lparr>x_done := True, x_lock := b\<rparr> = ?D" if "x_lock x = b" for b using that by (cases x) simp
  show "wp (if lock \<noteq> 0 then lock_measurement_slot index else returnE ()) (\<lambda>_ t. slots_have H hsize (grown_by logs index ?D) t \<and>
      mb_framework t = mb_framework u \<and> boot_measurements t = boot_measurements u) E t"
  proof (cases "x_lock x")
    case True
    have "(slot_of H hsize (grown_by logs index ?T (unat index)))\<lparr>is_locked := True\<rparr> = slot_of H hsize (?log @ [?D])"
      using slot_locked [of H hsize ?log x] unfolding D [OF True [THEN eqTrueI]] by simp
    then have "wp (lock_measurement_slot index) (\<lambda>_ t. slots_have H hsize (grown_by logs index ?D) t \<and>
        mb_framework t = mb_framework u \<and> boot_measurements t = boot_measurements u) E t"
      unfolding lock_measurement_slot_def
      by (rule upd_slots [where log = "?log @ [?D]", OF T i _ okD]) (use t in simp)
    then show ?thesis using True lock by simp
  next
    case False
    then have "x_lock x = False" by simp
    from T [unfolded D [OF this]] show ?thesis using False t(2,3) lock by simp
  qed
qed

lemma extend_wp:
  assumes s: "slots_have H hsize logs s" and i: "unat index < 32"
    and x: "describes sb sn vb vn algo tb tn mb mn lock x"
  shows "wp (measured_boot_extend_measurement env index sb sn vb vn algo tb tn mb mn lock)
    (\<lambda>_ s'. admits (logs (unat index)) x \<and> \<not> locked (logs (unat index)) \<and> same_vectors s s' \<and>
       boot_measurements s' = boot_measurements s \<and> slots_have H hsize (grown_by logs index (x\<lparr>x_done := True\<rparr>)) s')
    (\<lambda>e s'. e \<noteq> PSA_NO_RESULT \<and> same_vectors s s' \<and> boot_measurements s' = boot_measurements s \<and>
       (if \<not> admits (logs (unat index)) x then e = PSA_ERROR_NOT_PERMITTED \<and> slots_have H hsize logs s'
        else if locked (logs (unat index)) then e = PSA_ERROR_BAD_STATE \<and> slots_have H hsize logs s'
        else \<not> rel \<and> slots_have H hsize (grown_by logs index (x\<lparr>x_done := False\<rparr>)) s')) s"
proof -
  let ?log = "logs (unat index)" and ?F = "x\<lparr>x_done := False\<rparr>"
  let ?rest = "bindE (extend_measurement_value env index mb mn) (\<lambda>h.
      bindE (store_measurement_value index h) (\<lambda>_. if lock \<noteq> 0 then lock_measurement_slot index else returnE ()))"
  have ok: "extension_ok x" "sb = x_signer x" "take (unat mn) mb = x_value x" "lock \<noteq> 0 \<longleftrightarrow> x_lock x"
    and oks: "\<forall>y\<in>set ?log. extension_ok y" using x s i by (simp_all add: describes_def slots_have_def)
  have acc: "is_slot_access_prohibited (slot_of H hsize ?log) sb \<longleftrightarrow> \<not> admits ?log x"
    using access_slot [OF oks ok(1)] ok(2) by simp
  have lk: "is_locked (slot_of H hsize ?log) \<longleftrightarrow> locked ?log" by (simp add: slot_of_def)
  have rest: "wp ?rest
      (\<lambda>_ t. same_vectors s t \<and> boot_measurements t = boot_measurements s \<and> slots_have H hsize (grown_by logs index (x\<lparr>x_done := True\<rparr>)) t)
      (\<lambda>e t. \<not> rel \<and> e \<noteq> PSA_NO_RESULT \<and> same_vectors s t \<and> boot_measurements t = boot_measurements s \<and>
         slots_have H hsize (grown_by logs index ?F) t) u"
    if u: "slots_have H hsize (grown_by logs index ?F) u" "mb_framework u = mb_framework s" "boot_measurements u = boot_measurements s" for u
    unfolding wp_bindE [of "extend_measurement_value env index mb mn"]
  proof (rule wp_mono [OF hash_wp [OF u(1) i _ ok(3)]], goal_cases)
    case (2 h t)
    then show ?case using u by (intro wp_mono [OF value_wp [OF _ i _ ok(4)]]) auto
  qed (use u in auto)
  have "wp (bindE (if is_populated (slot_of H hsize ?log) then extend_metadata index
       else bindE (update_metadata index sb sn vb (ucast vn) algo tb (ucast tn)) (\<lambda>_. mark_slot_as_occupied index)) (\<lambda>_. ?rest))
      (\<lambda>_ t. same_vectors s t \<and> boot_measurements t = boot_measurements s \<and> slots_have H hsize (grown_by logs index (x\<lparr>x_done := True\<rparr>)) t)
      (\<lambda>e t. \<not> rel \<and> e \<noteq> PSA_NO_RESULT \<and> same_vectors s t \<and> boot_measurements t = boot_measurements s \<and>
         slots_have H hsize (grown_by logs index ?F) t) s"
    unfolding wp_bindE [of "if _ then _ else _"] by (rule metadata_wp [OF s i x]) (rule rest)
  then show ?thesis
    using describes_defined [OF s i x] s
    unfolding measured_boot_extend_measurement_def wp_withS Let_def slot_at [OF s i] acc lk
    by (auto elim!: wp_mono)
qed

lemma read_wp:
  assumes s: "slots_have H hsize logs s" and i: "unat index < 32" and log: "log = logs (unat index)"
  shows "wp (measured_boot_read_measurement index sn vn tn mn)
    (\<lambda>m s'. s' = s \<and> log \<noteq> [] \<and> buffers_fit hsize log sn vn tn mn \<and> m = view_of H hsize log)
    (\<lambda>e s'. s' = s \<and> (if log = [] then e = PSA_ERROR_DOES_NOT_EXIST
       else \<not> buffers_fit hsize log sn vn tn mn \<and> e = PSA_ERROR_INVALID_ARGUMENT)) s"
proof -
  have oks: "\<forall>x\<in>set log. extension_ok x" using s i log by (simp add: slots_have_def)
  note len = log_lengths [OF oks]
  have b: "unat (of_nat (length (log_signer log)) :: u32) = length (log_signer log)"
    "unat (of_nat (length (log_version log)) :: u8) = length (log_version log)"
    "unat (of_nat (length (log_type log)) :: u8) = length (log_type log)" "unat (ucast (MEASUREMENT_VALUE_SIZE env) :: u8) = hsize"
    using len hsize by (simp_all add: unat_of_nat unsigned_ucast_eq take_bit_nat_eq_self)
  have c: "take hsize (padded 64 (hash_chain H hsize ms)) = hash_chain H hsize ms" for ms
    using take_padded [of "hash_chain H hsize ms" 64] by (simp del: take_padded)
  show ?thesis
    using b c
    by (auto simp: measured_boot_read_measurement_def Let_def slot_at [OF s i] is_read_access_prohibited_def slot_of_def
        log [symmetric] log_metadata_def log_value_def buffers_fit_def view_of_def word_less_nat_alt)
qed

end

end
