(* ===== verification/Measured_Boot_Runs.thy ===== *)
theory Measured_Boot_Runs
  imports Measured_Boot_Spec
begin

text \<open>
  Runs of the measured boot partition: messages of any clients in any order. Every reply and everything that is
  sent is determined by the logs, and the logs only grow, and no more once a slot is locked.
\<close>

section \<open>Requests in messages\<close>

datatype mb_request =
    Mb_Extend measured_boot_extend_iovec_t buf buf buf
  | Mb_Read measured_boot_read_iovec_in_t u32 u32

text \<open>\<open>mb_carries req m q\<close>: the message \<open>m\<close> with the vectors in \<open>q\<close> is the request \<open>req\<close>.\<close>

fun mb_carries :: "('q \<Rightarrow> nat \<Rightarrow> buf) \<Rightarrow> ('q \<Rightarrow> nat \<Rightarrow> buf) \<Rightarrow> ('q \<Rightarrow> nat \<Rightarrow> nat) \<Rightarrow> mb_request \<Rightarrow> psa_msg_t \<Rightarrow> 'q \<Rightarrow> bool" where
  "mb_carries inq outv room (Mb_Extend iov signer version val) m q \<longleftrightarrow> length (ei_sw_type iov) = 20 \<and>
     in_size m ! 0 = extend_size \<and> unat (in_size m ! 1) = length signer \<and> unat (in_size m ! 2) = length version \<and>
     unat (in_size m ! 3) = length val \<and>
     inq q 0 = encode_extend iov \<and> inq q 1 = signer \<and> inq q 2 = version \<and> inq q 3 = val"
| "mb_carries inq outv room (Mb_Read ri sn mn) m q \<longleftrightarrow> in_size m ! 0 = read_in_size \<and> out_size m ! 0 = read_out_size \<and>
     out_size m ! 1 = sn \<and> out_size m ! 2 = mn \<and> inq q 0 = encode_read_in ri \<and>
     (\<forall>i<3. outv q i = [] \<and> room q i = unat (out_size m ! i))"

fun mb_handler :: "'q mb_env \<Rightarrow> 'q psa_api \<Rightarrow> mb_request \<Rightarrow> psa_msg_t \<Rightarrow> ('q, unit) mb_op" where
  "mb_handler env api (Mb_Extend iov signer version val) m = extend_measurement env api m"
| "mb_handler env api (Mb_Read ri sn mn) m = read_measurements api m"

section \<open>The abstract partition\<close>

text \<open>The extension that a request describes, when its sizes and its slot are those that the partition takes.\<close>

definition valid_extension :: "measured_boot_extend_iovec_t \<Rightarrow> buf \<Rightarrow> buf \<Rightarrow> buf \<Rightarrow> bool" where
  "valid_extension iov signer version val \<longleftrightarrow> 32 \<le> length signer \<and> length signer \<le> 64 \<and> length version \<le> 14 \<and>
     32 \<le> length val \<and> length val \<le> 64 \<and> ei_sw_type_size iov \<le> 20 \<and> ei_index iov < 32"

definition extension_of :: "measured_boot_extend_iovec_t \<Rightarrow> buf \<Rightarrow> buf \<Rightarrow> buf \<Rightarrow> bool \<Rightarrow> mb_extension" where
  "extension_of iov signer version val ok = \<lparr>x_signer = padded 64 signer, x_signer_size = length signer, x_version = version,
     x_algo = ei_measurement_algo iov, x_type = take (unat (ei_sw_type_size iov)) (ei_sw_type iov), x_value = val,
     x_lock = (ei_lock_measurement iov \<noteq> 0), x_done = ok\<rparr>"

type_synonym mb_logs = "nat \<Rightarrow> mb_extension list"

text \<open>The slot takes the extension.\<close>

definition accepts :: "mb_logs \<Rightarrow> measured_boot_extend_iovec_t \<Rightarrow> buf \<Rightarrow> buf \<Rightarrow> buf \<Rightarrow> bool" where
  "accepts logs iov signer version val \<longleftrightarrow> valid_extension iov signer version val \<and>
     admits (logs (unat (ei_index iov))) (extension_of iov signer version val True) \<and> \<not> locked (logs (unat (ei_index iov)))"

fun mb_effect :: "mb_request \<Rightarrow> psa_error + unit \<Rightarrow> mb_logs \<Rightarrow> mb_logs" where
  "mb_effect (Mb_Extend iov signer version val) r logs =
     (if accepts logs iov signer version val
      then logs(unat (ei_index iov) := logs (unat (ei_index iov)) @ [extension_of iov signer version val (r = Inr ())])
      else logs)"
| "mb_effect (Mb_Read ri sn mn) r logs = logs"

definition encode_view :: "measurement_out \<Rightarrow> buf" where
  "encode_view m = encode_read_out \<lparr>ro_is_locked = (if mo_is_locked m then 1 else 0), ro_measurement_algo = mo_measurement_algo m,
     ro_sw_type = padded 20 (mo_sw_type m), ro_sw_type_len = of_nat (length (mo_sw_type m)),
     ro_version = padded 14 (mo_version m), ro_version_len = of_nat (length (mo_version m))\<rparr>"

text \<open>The status of a request and what it sends. An extension that is accepted fails only with the crypto
  service.\<close>

fun mb_right :: "bool \<Rightarrow> (buf \<Rightarrow> buf) \<Rightarrow> nat \<Rightarrow> mb_logs \<Rightarrow> mb_request \<Rightarrow> psa_error + unit \<Rightarrow> (nat \<Rightarrow> buf) \<Rightarrow> bool" where
  "mb_right rel H n logs (Mb_Extend iov signer version val) r out \<longleftrightarrow>
     (if \<not> valid_extension iov signer version val then r = Inl PSA_ERROR_INVALID_ARGUMENT
      else if \<not> admits (logs (unat (ei_index iov))) (extension_of iov signer version val True) then r = Inl PSA_ERROR_NOT_PERMITTED
      else if locked (logs (unat (ei_index iov))) then r = Inl PSA_ERROR_BAD_STATE
      else r \<noteq> Inl PSA_NO_RESULT \<and> (rel \<longrightarrow> r = Inr ()))"
| "mb_right rel H n logs (Mb_Read ri sn mn) r out \<longleftrightarrow>
     (let log = logs (unat (ri_index ri)) in
      if \<not> ri_index ri < 32 then r = Inl PSA_ERROR_INVALID_ARGUMENT
      else if log = [] then r = Inl PSA_ERROR_DOES_NOT_EXIST
      else if \<not> buffers_fit n log sn (ucast (ri_version_size ri)) (ucast (ri_sw_type_size ri)) mn then r = Inl PSA_ERROR_INVALID_ARGUMENT
      else r = Inr () \<and> out 0 = encode_view (view_of H n log) \<and> out 1 = mo_signer_id (view_of H n log) \<and>
        out 2 = mo_measurement_value (view_of H n log))"

section \<open>The handlers\<close>

context measured_boot
begin

lemma mb_read_arg_wp:
  assumes "invec (mb_framework s) i = bs" and "length bs = unat n" and "slots_have H hsize logs s"
    and "\<And>s'. slots_have H hsize logs s' \<Longrightarrow> invec (mb_framework s') = (invec (mb_framework s))(i := []) \<Longrightarrow>
      outvec (mb_framework s') = outvec (mb_framework s) \<Longrightarrow> room (mb_framework s') = room (mb_framework s) \<Longrightarrow> Q bs s'"
  shows "wp (mb_read_arg api m i n) Q E s"
proof -
  obtain as q where r: "psa_read api (msg_handle m) i n (mb_framework s) = (as, q)" by force
  have "as = bs" "invec q = (invec (mb_framework s))(i := [])" "outvec q = outvec (mb_framework s)" "room q = room (mb_framework s)"
    using read_law [OF r] assms(1,2) by auto
  then show ?thesis using assms(2-4) r by (simp add: mb_read_arg_def wp_on_framework) (simp add: wp_def slots_have_def)
qed

lemma mb_write_wp:
  assumes "length (outvec (mb_framework s) i) + length bs \<le> room (mb_framework s) i" and "slots_have H hsize logs s"
    and "\<And>s'. slots_have H hsize logs s' \<Longrightarrow> outvec (mb_framework s') = (outvec (mb_framework s))(i := outvec (mb_framework s) i @ bs) \<Longrightarrow>
      room (mb_framework s') = room (mb_framework s) \<Longrightarrow> Q () s'"
  shows "wp (mb_write api m i bs) Q E s"
proof -
  have "wp (mb_write api m i bs) Q E s = Q () (s\<lparr>mb_framework := psa_write api (msg_handle m) i bs (mb_framework s)\<rparr>)"
    by (simp add: mb_write_def wp_on_framework) (simp add: wp_def)
  then show ?thesis using write_law [OF assms(1)] assms(2,3) by (simp add: slots_have_def)
qed

lemma refused_iff:
  assumes "mb_carries invec outvec room (Mb_Extend iov signer version val) m q"
  shows "extend_refused m iov \<longleftrightarrow> \<not> valid_extension iov signer version val"
  using assms by (auto simp: extend_refused_def valid_extension_def mb_sizes word_less_nat_alt word_le_nat_alt Let_def)

lemma message_describes:
  assumes car: "mb_carries invec outvec room (Mb_Extend iov signer version val) m q"
    and v: "valid_extension iov signer version val"
  shows "describes (bsplice 0 signer (replicate (unat SIGNER_ID_MAX_SIZE) 0)) (in_size m ! 1)
      (bsplice 0 version (replicate (unat VERSION_MAX_SIZE) 0)) (ucast (in_size m ! 2)) (ei_measurement_algo iov)
      (ei_sw_type iov) (ei_sw_type_size iov)
      (bsplice 0 val (replicate (unat MEASUREMENT_VALUE_MAX_SIZE) 0)) (in_size m ! 3) (ei_lock_measurement iov)
      (extension_of iov signer version val True)"
proof -
  have "unat (ucast (in_size m ! 2) :: u8) = length version"
    using car v by (simp add: valid_extension_def unsigned_ucast_eq take_bit_nat_eq_self)
  then show ?thesis using v car
    by (simp add: describes_def extension_of_def extension_ok_def valid_extension_def mb_sizes bsplice_replicate word_le_nat_alt)
qed

lemma extend_from_wp:
  assumes s: "slots_have H hsize logs s" and inv: "invec (mb_framework s) 1 = signer" "invec (mb_framework s) 2 = version"
      "invec (mb_framework s) 3 = val"
    and car: "mb_carries invec outvec room (Mb_Extend iov signer version val) m q" and v: "valid_extension iov signer version val"
  shows "wp (extend_from env api m iov)
    (\<lambda>_ s'. accepts logs iov signer version val \<and> slots_have H hsize (mb_effect (Mb_Extend iov signer version val) (Inr ()) logs) s')
    (\<lambda>e s'. mb_right rel H hsize logs (Mb_Extend iov signer version val) (Inl e) out \<and>
       slots_have H hsize (mb_effect (Mb_Extend iov signer version val) (Inl e) logs) s') s"
proof -
  have i: "unat (ei_index iov) < 32" using v by (simp add: valid_extension_def word_less_nat_alt)
  note run = wp_mono [OF extend_wp [OF _ i message_describes [OF car v]]]
  show ?thesis
    unfolding extend_from_def Let_def wp_fun wp_bindE
    by (rule mb_read_arg_wp [where bs = signer, OF _ _ s], use inv in simp, use car in simp,
        rule mb_read_arg_wp [where bs = version], use inv in simp, use car in simp, assumption,
        rule mb_read_arg_wp [where bs = val], use inv in simp, use car in simp, assumption, rule run, assumption)
      (use v in \<open>auto simp: accepts_def extension_of_def\<close>)
qed

lemma extend_handler:
  assumes s: "slots_have H hsize logs s" and car: "mb_carries invec outvec room (Mb_Extend iov signer version val) m (mb_framework s)"
  shows "wp (extend_measurement env api m)
    (\<lambda>_ s'. mb_right rel H hsize logs (Mb_Extend iov signer version val) (Inr ()) (outvec (mb_framework s')) \<and>
       slots_have H hsize (mb_effect (Mb_Extend iov signer version val) (Inr ()) logs) s')
    (\<lambda>e s'. mb_right rel H hsize logs (Mb_Extend iov signer version val) (Inl e) (outvec (mb_framework s')) \<and>
       slots_have H hsize (mb_effect (Mb_Extend iov signer version val) (Inl e) logs) s') s"
proof -
  have s': "slots_have H hsize logs (s\<lparr>g_measured_boot_caller_id := msg_client_id m\<rparr>)" using s by (simp add: slots_have_def)
  have d: "decode_extend (encode_extend iov) = iov" and z: "in_size m ! 0 = extend_size" using car by simp_all
  show ?thesis
    unfolding extend_measurement_def wp_bindE wp_modifyS wp_if z not_True_eq_False if_False simp_thms
  proof (rule mb_read_arg_wp [where bs = "encode_extend iov", OF _ _ s'], goal_cases)
    case (3 u)
    then show ?case
      using refused_iff [OF car] wp_mono [OF extend_from_wp [OF 3(1) _ _ _ car]] car
      by (cases "valid_extension iov signer version val") (auto simp: d accepts_def elim!: wp_mono)
  qed (use car in \<open>simp_all add: extend_size_def\<close>)
qed

lemma send_wp:
  assumes s: "slots_have H hsize logs s" and i: "i < 32" and fit: "buffers_fit hsize (logs i) sn vn tn mn"
    and out: "\<And>j. j < 3 \<Longrightarrow> outvec (mb_framework s) j = []" "room (mb_framework s) 0 = 44" "room (mb_framework s) 1 = unat sn"
      "room (mb_framework s) 2 = unat mn"
    and post: "\<And>s'. slots_have H hsize logs s' \<Longrightarrow> outvec (mb_framework s') 0 = encode_view (view_of H hsize (logs i)) \<Longrightarrow>
      outvec (mb_framework s') 1 = mo_signer_id (view_of H hsize (logs i)) \<Longrightarrow>
      outvec (mb_framework s') 2 = mo_measurement_value (view_of H hsize (logs i)) \<Longrightarrow> Q () s'"
  shows "wp (send_measurement api m (view_of H hsize (logs i))) Q E s"
proof -
  let ?v = "view_of H hsize (logs i)"
  have len: "length (log_signer (logs i)) \<le> 64" "length (log_version (logs i)) \<le> 14" "length (log_type (logs i)) \<le> 20"
    using log_lengths [of "logs i"] s i by (simp_all add: slots_have_def)
  then have enc: "encode_read_out \<lparr>ro_is_locked = (if mo_is_locked ?v then 1 else 0), ro_measurement_algo = mo_measurement_algo ?v,
      ro_sw_type = bsplice 0 (mo_sw_type ?v) (replicate (unat SW_TYPE_MAX_SIZE) 0), ro_sw_type_len = of_nat (length (mo_sw_type ?v)),
      ro_version = bsplice 0 (mo_version ?v) (replicate (unat VERSION_MAX_SIZE) 0), ro_version_len = of_nat (length (mo_version ?v))\<rparr> =
    encode_view ?v" and l44: "length (encode_view ?v) = 44"
    by (simp_all add: encode_view_def view_of_def mb_sizes bsplice_replicate)
  have sizes: "length (mo_signer_id ?v) \<le> unat sn" "length (mo_measurement_value ?v) \<le> unat mn"
    using fit by (auto simp: buffers_fit_def view_of_def)
  show ?thesis
    unfolding send_measurement_def Let_def enc wp_fun wp_bindE
    by (rule mb_write_wp [OF _ s], use out l44 in simp, rule mb_write_wp, use out sizes in simp, assumption,
        rule mb_write_wp, use out sizes in simp, assumption, rule post) (use out in simp_all)
qed

lemma read_handler:
  assumes s: "slots_have H hsize logs s" and car: "mb_carries invec outvec room (Mb_Read ri sn mn) m (mb_framework s)"
  shows "wp (read_measurements api m)
    (\<lambda>_ s'. mb_right rel H hsize logs (Mb_Read ri sn mn) (Inr ()) (outvec (mb_framework s')) \<and> slots_have H hsize logs s')
    (\<lambda>e s'. mb_right rel H hsize logs (Mb_Read ri sn mn) (Inl e) (outvec (mb_framework s')) \<and> slots_have H hsize logs s') s"
proof -
  have s': "slots_have H hsize logs (s\<lparr>g_measured_boot_caller_id := msg_client_id m\<rparr>)" using s by (simp add: slots_have_def)
  have z: "in_size m ! 0 = read_in_size" "out_size m ! 0 = read_out_size" "out_size m ! 1 = sn" "out_size m ! 2 = mn"
    using car by simp_all
  show ?thesis
    unfolding read_measurements_def wp_bindE wp_modifyS wp_if z Let_def not_True_eq_False if_False simp_thms
  proof (rule mb_read_arg_wp [where bs = "encode_read_in ri", OF _ _ s'], goal_cases)
    case (3 u)
    show ?case
    proof (cases "ri_index ri < 32")
      case False
      then show ?thesis using 3 by (simp add: mb_sizes word_le_nat_alt word_less_nat_alt)
    next
      case True
      then have i: "unat (ri_index ri) < 32" and n: "(NUM_OF_MEASUREMENT_SLOTS \<le> ucast (ri_index ri)) = False"
        by (simp_all add: word_less_nat_alt word_le_nat_alt mb_sizes)
      have out: "outvec (mb_framework u) j = []" "room (mb_framework u) j = unat (out_size m ! j)" if "j < 3" for j
        using 3(3,4) car that by simp_all
      show ?thesis
        unfolding decode_encode_read_in n if_False wp_fun wp_bindE wp_if
      proof (rule wp_mono [OF read_wp [OF 3(1) i refl]], goal_cases)
        case (1 v t)
        then show ?case
          using out [of 0] out [of 1] out [of 2] z True
          by (auto intro!: send_wp [OF 3(1) i] simp: out read_out_size_def)
      qed (use 3(1) True in \<open>auto split: if_splits\<close>)
    qed
  qed (use car in \<open>simp_all add: read_in_size_def\<close>)
qed

end

end
