(* ===== verification/Measured_Boot_History.thy ===== *)
theory Measured_Boot_History
  imports Measured_Boot_Runs
begin

text \<open>
  The life of the measured boot partition: the measurements of the boot stages are the first extensions of the
  logs, messages add to them, and what a locked slot holds is final.
\<close>

section \<open>The measurements of the boot stages\<close>

definition boot_extension :: "boot_measurement_metadata \<Rightarrow> buf \<Rightarrow> bool \<Rightarrow> mb_extension" where
  "boot_extension md val lock = \<lparr>x_signer = bm_signer_id md, x_signer_size = unat (bm_signer_id_size md),
     x_version = take (unat (of_nat (strnlen (bm_sw_version md) (length (bm_sw_version md))) :: u8)) (bm_sw_version md),
     x_algo = bm_measurement_type md,
     x_type = take (unat (of_nat (strnlen (bm_sw_type md) (length (bm_sw_type md))) :: u8)) (bm_sw_type md),
     x_value = val, x_lock = lock, x_done = True\<rparr>"

text \<open>One record at a position of the boot data: its slot, the extension and the position behind it.\<close>

definition boot_step :: "boot_data_format \<Rightarrow> buf \<Rightarrow> nat \<Rightarrow> (u8 \<times> mb_extension \<times> nat) option" where
  "boot_step F data pos =
     (let hd = SHARED_DATA_ENTRY_HEADER_SIZE F; M = boot_measurement_metadata_size F;
          e1 = bslice pos hd data; md = metadata_at F (bslice (pos + hd) M data);
          e2 = bslice (pos + (hd + M)) hd data; claim = GET_MBS_CLAIM F (tlv_type F e2); n = unat (tlv_len F e2);
          x = boot_extension md (bslice (pos + (hd + M) + hd) n data) (claim = SW_MEASURE_VALUE_NON_EXTENDABLE F);
          slot = GET_MBS_SLOT F (tlv_type F e2) in
      if pos + (hd + M) + hd + n \<le> length data \<and> GET_MBS_CLAIM F (tlv_type F e1) = SW_MEASURE_METADATA F \<and>
         unat (tlv_len F e1) = M \<and> (claim = SW_MEASURE_VALUE F \<or> claim = SW_MEASURE_VALUE_NON_EXTENDABLE F) \<and>
         extension_ok x \<and> slot < 32
      then Some (slot, x, pos + (hd + M) + (hd + n)) else None)"

lemma length_bslice_le: "m \<le> length (bslice off n xs) \<Longrightarrow> m \<le> n"
  by (simp add: bslice_def)

lemma boot_step_progress: "boot_step F data pos = Some (i, x, next_pos) \<Longrightarrow> pos < next_pos"
  unfolding boot_step_def Let_def extension_ok_def boot_extension_def
  by (simp split: if_splits) (use length_bslice_le in fastforce)

function boot_records :: "boot_data_format \<Rightarrow> buf \<Rightarrow> nat \<Rightarrow> nat \<Rightarrow> (u8 \<times> mb_extension) list option" where
  "boot_records F data pos tlv_end =
     (if \<not> pos < tlv_end then Some []
      else (case boot_step F data pos of
        None \<Rightarrow> None
      | Some (i, x, next_pos) \<Rightarrow> map_option (\<lambda>rs. (i, x) # rs) (boot_records F data next_pos tlv_end)))"
  by pat_completeness auto
termination by (relation "measure (\<lambda>(F, data, pos, tlv_end). tlv_end - pos)")
  (auto dest!: boot_step_progress intro: diff_less_mono2)

declare boot_records.simps [simp del]

definition add_record :: "u8 \<times> mb_extension \<Rightarrow> mb_logs \<Rightarrow> mb_logs" where
  "add_record r logs = (case r of (i, x) \<Rightarrow> logs(unat i := logs (unat i) @ [x]))"

text \<open>Every record is accepted by its slot, after the records before it.\<close>

fun records_accepted :: "mb_logs \<Rightarrow> (u8 \<times> mb_extension) list \<Rightarrow> bool" where
  "records_accepted logs [] \<longleftrightarrow> True"
| "records_accepted logs (r # rs) \<longleftrightarrow> admits (logs (unat (fst r))) (snd r) \<and> \<not> locked (logs (unat (fst r))) \<and>
     records_accepted (add_record r logs) rs"

locale measured_boot_store = measured_boot +
  assumes signer_field: "length (bm_signer_id (metadata_at (boot_format env) bs)) = 64"
begin

lemma boot_describes:
  assumes "extension_ok (boot_extension md val lk)" and "unat n = length val"
  shows "describes (bm_signer_id md) (bm_signer_id_size md)
      (bm_sw_version md) (of_nat (strnlen (bm_sw_version md) (length (bm_sw_version md)))) (bm_measurement_type md)
      (bm_sw_type md) (of_nat (strnlen (bm_sw_type md) (length (bm_sw_type md)))) val n (if lk then 1 else 0)
      (boot_extension md val lk)"
proof -
  have "unat (of_nat (strnlen xs (length xs)) :: u8) \<le> length xs" for xs
  proof -
    have "unat (of_nat (strnlen xs (length xs)) :: u8) \<le> strnlen xs (length xs)" by (simp add: unat_of_nat)
    also have "\<dots> \<le> length xs" by (simp add: strnlen_def length_takeWhile_le)
    finally show ?thesis .
  qed
  then show ?thesis using assms by (simp add: describes_def boot_extension_def)
qed

lemma boot_undefined:
  assumes "\<not> (extension_ok (boot_extension md val lk) \<and> i < 32)" and s: "slots_have H hsize logs s"
    and "length (bm_signer_id md) = 64" and "32 \<le> unat (bm_signer_id_size md)" "unat (bm_signer_id_size md) \<le> 64"
    and "unat n = length val" "32 \<le> length val" "length val \<le> 64"
  shows "\<not> extend_defined s i (bm_signer_id md) (bm_signer_id_size md)
      (bm_sw_version md) (of_nat (strnlen (bm_sw_version md) (length (bm_sw_version md))))
      (bm_sw_type md) (of_nat (strnlen (bm_sw_type md) (length (bm_sw_type md)))) val n"
  using assms slots_length [OF s]
  by (auto simp: extend_defined_def extension_ok_def boot_extension_def mb_sizes word_less_nat_alt)

lemma boot_extend_wp:
  assumes s: "slots_have H hsize logs s" and sg: "length (bm_signer_id md) = 64"
    and sizes: "32 \<le> unat (bm_signer_id_size md)" "unat (bm_signer_id_size md) \<le> 64" "unat n = length val" "32 \<le> length val" "length val \<le> 64"
    and x: "boot_extension md val lk = x"
  shows "wp (measured_boot_extend_measurement env slot (bm_signer_id md) (bm_signer_id_size md)
      (bm_sw_version md) (of_nat (strnlen (bm_sw_version md) (length (bm_sw_version md)))) (bm_measurement_type md)
      (bm_sw_type md) (of_nat (strnlen (bm_sw_type md) (length (bm_sw_type md)))) val n (if lk then 1 else 0))
    (\<lambda>_ s'. extension_ok x \<and> slot < 32 \<and> admits (logs (unat slot)) x \<and> \<not> locked (logs (unat slot)) \<and>
       slots_have H hsize (add_record (slot, x) logs) s' \<and> boot_measurements s' = boot_measurements s)
    (\<lambda>_ _. extension_ok x \<and> slot < 32 \<longrightarrow> admits (logs (unat slot)) x \<and> \<not> locked (logs (unat slot)) \<longrightarrow> \<not> rel) s"
proof (cases "extension_ok x \<and> slot < 32")
  case True
  have i: "unat slot < 32" using True by (simp add: word_less_nat_alt)
  have d: "x\<lparr>x_done := True\<rparr> = x" using x by (auto simp: boot_extension_def)
  have "wp (measured_boot_extend_measurement env slot (bm_signer_id md) (bm_signer_id_size md)
      (bm_sw_version md) (of_nat (strnlen (bm_sw_version md) (length (bm_sw_version md)))) (bm_measurement_type md)
      (bm_sw_type md) (of_nat (strnlen (bm_sw_type md) (length (bm_sw_type md)))) val n (if lk then 1 else 0))
    (\<lambda>_ s'. admits (logs (unat slot)) x \<and> \<not> locked (logs (unat slot)) \<and> same_vectors s s' \<and>
       boot_measurements s' = boot_measurements s \<and> slots_have H hsize (grown_by logs slot x) s')
    (\<lambda>e s'. e \<noteq> PSA_NO_RESULT \<and> same_vectors s s' \<and> boot_measurements s' = boot_measurements s \<and>
       (if \<not> admits (logs (unat slot)) x then e = PSA_ERROR_NOT_PERMITTED \<and> slots_have H hsize logs s'
        else if locked (logs (unat slot)) then e = PSA_ERROR_BAD_STATE \<and> slots_have H hsize logs s'
        else \<not> rel \<and> slots_have H hsize (grown_by logs slot (x\<lparr>x_done := False\<rparr>)) s')) s"
    using extend_wp [OF s i, of "bm_signer_id md" "bm_signer_id_size md" "bm_sw_version md" _ "bm_measurement_type md" "bm_sw_type md"
        _ val n _ x] boot_describes [of md val lk n] True sizes(3) unfolding x d by blast
  then show ?thesis by (rule wp_mono) (use True in \<open>auto simp: add_record_def split: if_splits\<close>)
next
  case False
  then show ?thesis
    using boot_undefined [OF _ s sg sizes(1-3), of lk slot] sizes(4,5)
    unfolding measured_boot_extend_measurement_def wp_withS Let_def x by auto
qed

lemma collect_one_wp:
  assumes s: "slots_have H hsize logs s" and data: "boot_measurements s = data" and F: "boot_format env = F"
  shows "wp (collect_one env pos)
    (\<lambda>next_pos s'. \<exists>i x. boot_step F data pos = Some (i, x, next_pos) \<and> admits (logs (unat i)) x \<and> \<not> locked (logs (unat i)) \<and>
       slots_have H hsize (add_record (i, x) logs) s' \<and> boot_measurements s' = data)
    (\<lambda>e s'. \<forall>i x next_pos. boot_step F data pos = Some (i, x, next_pos) \<longrightarrow> admits (logs (unat i)) x \<and> \<not> locked (logs (unat i)) \<longrightarrow> \<not> rel) s"
proof -
  let ?hd = "SHARED_DATA_ENTRY_HEADER_SIZE F" and ?M = "boot_measurement_metadata_size F"
  let ?e1 = "bslice pos ?hd data" and ?md = "metadata_at F (bslice (pos + ?hd) ?M data)"
  let ?e2 = "bslice (pos + (?hd + ?M)) ?hd data"
  let ?claim = "GET_MBS_CLAIM F (tlv_type F ?e2)" and ?n = "unat (tlv_len F ?e2)" and ?slot = "GET_MBS_SLOT F (tlv_type F ?e2)"
  let ?val = "bslice (pos + (?hd + ?M) + ?hd) ?n data"
  let ?lk = "?claim = SW_MEASURE_VALUE_NON_EXTENDABLE F"
  let ?x = "boot_extension ?md ?val ?lk"
  let ?E = "\<lambda>e s'. \<forall>i x next_pos. boot_step F data pos = Some (i, x, next_pos) \<longrightarrow> admits (logs (unat i)) x \<and> \<not> locked (logs (unat i)) \<longrightarrow> \<not> rel"
  have sg: "length (bm_signer_id ?md) = 64" using signer_field F by simp
  let ?fits = "pos + (?hd + ?M) + ?hd + ?n \<le> length data \<and> GET_MBS_CLAIM F (tlv_type F ?e1) = SW_MEASURE_METADATA F \<and>
    unat (tlv_len F ?e1) = ?M \<and> (?claim = SW_MEASURE_VALUE F \<or> ?claim = SW_MEASURE_VALUE_NON_EXTENDABLE F) \<and>
    32 \<le> unat (bm_signer_id_size ?md) \<and> unat (bm_signer_id_size ?md) \<le> 64 \<and> 32 \<le> ?n \<and> ?n \<le> 64"
  show ?thesis
  proof (cases ?fits)
    case True
    have v: "length ?val = ?n" using True by (simp add: length_bslice)
    have n: "unat (ucast (tlv_len F ?e2) :: u32) = length ?val" using v by simp
    have st: "boot_step F data pos = (if extension_ok ?x \<and> ?slot < 32 then Some (?slot, ?x, pos + (?hd + ?M) + (?hd + ?n)) else None)"
      using True by (simp add: boot_step_def Let_def)
    have sizes: "32 \<le> unat (bm_signer_id_size ?md)" "unat (bm_signer_id_size ?md) \<le> 64" "32 \<le> length ?val" "length ?val \<le> 64"
      using True v by simp_all
    have run: "wp (measured_boot_extend_measurement env ?slot (bm_signer_id ?md) (bm_signer_id_size ?md)
        (bm_sw_version ?md) (of_nat (strnlen (bm_sw_version ?md) (length (bm_sw_version ?md)))) (bm_measurement_type ?md)
        (bm_sw_type ?md) (of_nat (strnlen (bm_sw_type ?md) (length (bm_sw_type ?md)))) ?val (ucast (tlv_len F ?e2)) (if ?lk then 1 else 0))
      (\<lambda>_ s'. boot_step F data pos = Some (?slot, ?x, pos + (?hd + ?M) + (?hd + ?n)) \<and> admits (logs (unat ?slot)) ?x \<and>
         \<not> locked (logs (unat ?slot)) \<and> slots_have H hsize (add_record (?slot, ?x) logs) s' \<and> boot_measurements s' = data) ?E s"
      by (rule wp_mono [OF boot_extend_wp [OF s sg sizes(1,2) n sizes(3,4) refl]]) (auto simp: st data)
    have c: "\<not> (bm_signer_id_size ?md < SIGNER_ID_MIN_SIZE \<or> SIGNER_ID_MAX_SIZE < bm_signer_id_size ?md \<or>
        ucast (tlv_len F ?e2) < MEASUREMENT_VALUE_MIN_SIZE \<or> MEASUREMENT_VALUE_MAX_SIZE < (ucast (tlv_len F ?e2) :: u32))"
      using True by (simp add: mb_sizes word_less_nat_alt)
    show ?thesis
      using True c run by (simp add: collect_one_def Let_def F tlv_read_def data wp_fun) (auto elim!: wp_mono)
  next
    case False
    then have "boot_step F data pos = None"
      by (auto simp: boot_step_def Let_def extension_ok_def boot_extension_def length_bslice)
    moreover have "wp (collect_one env pos) (\<lambda>_ _. False) (\<lambda>_ _. True) s"
      using False by (auto simp: collect_one_def Let_def F tlv_read_def data wp_fun mb_sizes word_less_nat_alt word_le_nat_alt add.assoc)
    ultimately show ?thesis by (auto elim: wp_mono)
  qed
qed

lemma collect_loop_wp:
  assumes "slots_have H hsize logs s" and "boot_measurements s = data"
  shows "wp (collect_loop env pos tlv_end status)
    (\<lambda>_ s'. \<exists>rs. boot_records (boot_format env) data pos tlv_end = Some rs \<and> records_accepted logs rs \<and>
       (rs = [] \<longrightarrow> status = Inr ()) \<and> slots_have H hsize (fold add_record rs logs) s' \<and> boot_measurements s' = data)
    (\<lambda>e s'. \<forall>rs. boot_records (boot_format env) data pos tlv_end = Some rs \<longrightarrow> records_accepted logs rs \<longrightarrow>
       (rs = [] \<longrightarrow> status = Inr ()) \<longrightarrow> \<not> rel) s"
  using assms
proof (induction "tlv_end - pos" arbitrary: pos status s logs rule: less_induct)
  case less
  let ?F = "boot_format env"
  note s = less.prems(1) and d = less.prems(2)
  show ?case
  proof (cases "pos < tlv_end")
    case False
    then show ?thesis using s d
      by (auto simp: collect_loop.simps [of env pos tlv_end status s] boot_records.simps [of ?F data pos] wp_def split: sum.splits)
  next
    case True
    note one = collect_one_wp [OF s d refl, of pos]
    show ?thesis
    proof (cases "collect_one env pos s")
      case (Pair r s')
      show ?thesis
      proof (cases r)
        case (Inl e)
        have "\<forall>i x next_pos. boot_step ?F data pos = Some (i, x, next_pos) \<longrightarrow> admits (logs (unat i)) x \<and> \<not> locked (logs (unat i)) \<longrightarrow> \<not> rel"
          using wp_InlD [OF one] Pair Inl by simp
        then show ?thesis using Pair Inl True
          by (auto simp: collect_loop.simps [of env pos tlv_end status s] boot_records.simps [of ?F data pos] wp_def split: option.splits)
      next
        case (Inr next_pos)
        obtain i x where st: "boot_step ?F data pos = Some (i, x, next_pos)" and ok: "admits (logs (unat i)) x" "\<not> locked (logs (unat i))"
          and s': "slots_have H hsize (add_record (i, x) logs) s'" "boot_measurements s' = data"
          using wp_InrD [OF one] Pair Inr by auto
        have "tlv_end - next_pos < tlv_end - pos" using boot_step_progress [OF st] True by simp
        from less.hyps [OF this s', where status = "Inr ()"] show ?thesis
          using True Pair Inr st ok
          by (auto simp: collect_loop.simps [of env pos tlv_end status s] boot_records.simps [of ?F data pos] wp_def
              split: prod.splits sum.splits)
      qed
    qed
  qed
qed

text \<open>The records of the boot data as a whole; without a record the boot data is refused.\<close>

definition boot_log :: "buf \<Rightarrow> (u8 \<times> mb_extension) list option" where
  "boot_log data = (let F = boot_format env in
     if tlv_magic F data \<noteq> SHARED_DATA_TLV_INFO_MAGIC F then None
     else (case boot_records F data (shared_data_tlv_header_size F) (unat (tlv_tot_len F data)) of
       Some [] \<Rightarrow> None | rs \<Rightarrow> rs))"

lemma collect_wp:
  assumes s: "slots_have H hsize logs s"
  shows "wp (collect_shared_measurements env)
    (\<lambda>_ s'. \<exists>data q rs. tfm_core_get_boot_data env (boot_measurements_size env) (mb_framework s) = (Inr data, q) \<and> boot_log data = Some rs \<and>
       records_accepted logs rs \<and> slots_have H hsize (fold add_record rs logs) s')
    (\<lambda>e s'. \<forall>data q rs. tfm_core_get_boot_data env (boot_measurements_size env) (mb_framework s) = (Inr data, q) \<longrightarrow>
       boot_log data = Some rs \<longrightarrow> records_accepted logs rs \<longrightarrow> \<not> rel) s"
proof (cases "tfm_core_get_boot_data env (boot_measurements_size env) (mb_framework s)")
  case (Pair r q)
  show ?thesis
  proof (cases r)
    case (Inl e)
    then show ?thesis using Pair by (simp add: collect_shared_measurements_def Let_def wp_on_framework) (simp add: wp_def)
  next
    case (Inr data)
    let ?s = "s\<lparr>mb_framework := q, boot_measurements := data\<rparr>" and ?F = "boot_format env"
    have "slots_have H hsize logs ?s" using s by (simp add: slots_have_def)
    note loop = collect_loop_wp [OF this, of data "shared_data_tlv_header_size ?F" "unat (tlv_tot_len ?F data)" "Inl PSA_ERROR_GENERIC_ERROR", simplified]
    have bl: "boot_log data = Some rs \<longleftrightarrow> tlv_magic ?F data = SHARED_DATA_TLV_INFO_MAGIC ?F \<and> rs \<noteq> [] \<and>
        boot_records ?F data (shared_data_tlv_header_size ?F) (unat (tlv_tot_len ?F data)) = Some rs" for rs
      by (auto simp: boot_log_def Let_def split: option.splits list.splits)
    have "wp (collect_shared_measurements env) Q E s =
        (if tlv_magic ?F data \<noteq> SHARED_DATA_TLV_INFO_MAGIC ?F then E PSA_ERROR_GENERIC_ERROR ?s
         else wp (collect_loop env (shared_data_tlv_header_size ?F) (unat (tlv_tot_len ?F data)) (Inl PSA_ERROR_GENERIC_ERROR)) Q E ?s)" for Q E
      using Pair Inr by (simp add: collect_shared_measurements_def Let_def wp_on_framework) (simp add: wp_def)
    then show ?thesis
      using Pair Inr loop by (auto simp: bl elim!: wp_mono)
  qed
qed

end

section \<open>Start-up\<close>

text \<open>The memory of the partition before it starts: static data is 0.\<close>

definition zeroed :: "'q mb_state \<Rightarrow> bool" where
  "zeroed s \<longleftrightarrow> length (measurement_slot s) = 32 \<and> (\<forall>slot\<in>set (measurement_slot s). hash_buf_size (mvalue (measurement slot)) = 0)"

lemma padded_replicate: "k \<le> n \<Longrightarrow> padded n (replicate k 0) = replicate n 0"
  by (simp add: padded_def flip: replicate_add)

lemma initialise_wp:
  assumes "zeroed s" and "n \<le> 64"
  shows "wp initialise_all_measurements (\<lambda>_ s'. slots_have H n (\<lambda>_. []) s' \<and> mb_framework s' = mb_framework s) E s"
proof -
  have "initialise_slot slot = slot_of H n []" if "hash_buf_size (mvalue (measurement slot)) = 0" for slot
    using that assms(2) by (cases slot; cases "mvalue (measurement slot)") (simp add: padded_replicate initialise_slot_def slot_of_def log_metadata_def log_value_def clear_metadata_def mb_sizes)
  then have "map initialise_slot (measurement_slot s) = map (\<lambda>i. slot_of H n []) [0..<32]"
    using assms by (intro nth_equalityI) (auto simp: zeroed_def)
  then show ?thesis by (simp add: initialise_all_measurements_def slots_have_def)
qed

context measured_boot_store
begin

text \<open>The logs with which the partition starts: those of the boot data, or none without the build option.\<close>

definition boot_logs :: "bool \<Rightarrow> buf \<Rightarrow> mb_logs option" where
  "boot_logs store data = (if store then (case boot_log data of
       Some rs \<Rightarrow> if records_accepted (\<lambda>_. []) rs then Some (fold add_record rs (\<lambda>_. [])) else None | None \<Rightarrow> None)
     else Some (\<lambda>_. []))"

definition boot_data :: "bool \<Rightarrow> 'a mb_state \<Rightarrow> buf option" where
  "boot_data store s = (if store then (case fst (tfm_core_get_boot_data env (boot_measurements_size env) (mb_framework s)) of
       Inr data \<Rightarrow> Some data | Inl _ \<Rightarrow> None) else Some [])"

lemma init_wp:
  assumes "zeroed s"
  shows "wp (tfm_measured_boot_init 0 env store api wait_any mb_signal)
    (\<lambda>_ s'. \<exists>data logs. boot_data store s = Some data \<and> boot_logs store data = Some logs \<and> slots_have H hsize logs s')
    (\<lambda>e s'. \<forall>data logs. boot_data store s = Some data \<longrightarrow> boot_logs store data = Some logs \<longrightarrow> \<not> rel) s"
  unfolding tfm_measured_boot_init_def wp_bindE wp_tryE
proof (rule wp_mono [OF initialise_wp [OF assms hsize(1), of H]], goal_cases)
  case (1 u s')
  then show ?case
    by (cases store; cases "tfm_core_get_boot_data env (boot_measurements_size env) (mb_framework s)")
      (auto simp: boot_data_def boot_logs_def elim!: wp_mono [OF collect_wp] split: sum.splits option.splits if_splits)
qed simp

end

section \<open>Runs\<close>

text \<open>An event is a request with its status and what it sent.\<close>

type_synonym mb_event = "mb_request \<times> (psa_error + unit) \<times> (nat \<Rightarrow> buf)"

definition mb_logs_after :: "mb_logs \<Rightarrow> mb_event list \<Rightarrow> mb_logs" where
  "mb_logs_after logs evs = fold (\<lambda>(req, r, out). mb_effect req r) evs logs"

definition mb_history_right :: "bool \<Rightarrow> (buf \<Rightarrow> buf) \<Rightarrow> nat \<Rightarrow> mb_logs \<Rightarrow> mb_event list \<Rightarrow> bool" where
  "mb_history_right rel H n logs evs \<longleftrightarrow>
     (\<forall>k<length evs. case evs ! k of (req, r, out) \<Rightarrow> mb_right rel H n (mb_logs_after logs (take k evs)) req r out)"

inductive mb_run :: "'q mb_env \<Rightarrow> 'q psa_api \<Rightarrow> ('q \<Rightarrow> nat \<Rightarrow> buf) \<Rightarrow> ('q \<Rightarrow> nat \<Rightarrow> buf) \<Rightarrow> ('q \<Rightarrow> nat \<Rightarrow> nat) \<Rightarrow> bool \<Rightarrow>
    'q mb_state \<Rightarrow> mb_event list \<Rightarrow> 'q mb_state \<Rightarrow> bool"
  for env api invec outvec room store s0
where
  Boot: "zeroed s0 \<Longrightarrow> tfm_measured_boot_init 0 env store api wait_any mb_signal s0 = (Inr (), s) \<Longrightarrow>
    mb_run env api invec outvec room store s0 [] s"
| Message: "mb_run env api invec outvec room store s0 evs s \<Longrightarrow> mb_carries invec outvec room req m q \<Longrightarrow>
    mb_handler env api req m (s\<lparr>mb_framework := q\<rparr>) = (r, s') \<Longrightarrow>
    mb_run env api invec outvec room store s0 (evs @ [(req, r, outvec (mb_framework s'))]) s'"

lemma mb_logs_after_simps [simp]:
  "mb_logs_after logs [] = logs"
  "mb_logs_after logs (evs @ [(req, r, out)]) = mb_effect req r (mb_logs_after logs evs)"
  by (simp_all add: mb_logs_after_def)

lemma mb_logs_after_append: "mb_logs_after logs (evs @ evs') = mb_logs_after (mb_logs_after logs evs) evs'"
  by (simp add: mb_logs_after_def)

lemma mb_history_right_snoc [simp]:
  "mb_history_right rel H n logs []"
  "mb_history_right rel H n logs (evs @ [(req, r, out)]) \<longleftrightarrow>
     mb_history_right rel H n logs evs \<and> mb_right rel H n (mb_logs_after logs evs) req r out"
  by (auto simp: mb_history_right_def nth_append less_Suc_eq)

text \<open>A log only grows, with extensions of the same signer, and not at all once it is locked.\<close>

lemma effect_grows: "\<exists>more. mb_effect req r logs i = logs i @ more"
  by (cases req) auto

lemma logs_grow: "\<exists>more. mb_logs_after logs evs i = logs i @ more"
proof (induction evs rule: rev_induct)
  case (snoc ev evs)
  then show ?case using effect_grows [of "fst ev" "fst (snd ev)" "mb_logs_after logs evs" i]
    by (cases ev) auto
qed simp

lemma effect_locked: "locked (logs i) \<Longrightarrow> mb_effect req r logs i = logs i"
  by (cases req) (auto simp: accepts_def)

lemma logs_locked: "locked (logs i) \<Longrightarrow> mb_logs_after logs evs i = logs i"
proof (induction evs rule: rev_induct)
  case (snoc ev evs)
  then show ?case using effect_locked [of "mb_logs_after logs evs" i]
    by (cases ev) simp
qed simp

definition one_signer :: "mb_extension list \<Rightarrow> bool" where
  "one_signer log \<longleftrightarrow> (\<forall>x\<in>set log. same_signer (hd log) x)"

lemma effect_one_signer: "one_signer (logs i) \<Longrightarrow> one_signer (mb_effect req r logs i)"
proof (cases req)
  case (Mb_Extend iov signer version val)
  assume "one_signer (logs i)"
  then show ?thesis
    by (cases "logs i") (auto simp: Mb_Extend accepts_def admits_def one_signer_def same_signer_def extension_of_def)
qed simp

lemma logs_one_signer: "one_signer (logs i) \<Longrightarrow> one_signer (mb_logs_after logs evs i)"
proof (induction evs rule: rev_induct)
  case (snoc ev evs)
  then show ?case using effect_one_signer by (cases ev) simp
qed simp

context measured_boot_store
begin

theorem run_right:
  assumes "mb_run env api invec outvec room store s0 evs s"
  shows "\<exists>data logs. boot_data store s0 = Some data \<and> boot_logs store data = Some logs \<and>
    mb_history_right rel H hsize logs evs \<and> slots_have H hsize (mb_logs_after logs evs) s"
  using assms
proof induction
  case (Boot wait_any mb_signal s)
  then show ?case using wp_InrD [OF init_wp, of s0 store wait_any mb_signal] by auto
next
  case (Message evs s req m q r s')
  then obtain data logs where b: "boot_data store s0 = Some data" "boot_logs store data = Some logs"
    and h: "mb_history_right rel H hsize logs evs" and s: "slots_have H hsize (mb_logs_after logs evs) s" by blast
  have s1: "slots_have H hsize (mb_logs_after logs evs) (s\<lparr>mb_framework := q\<rparr>)" using s by (simp add: slots_have_def)
  have "wp (mb_handler env api req m)
    (\<lambda>_ s'. mb_right rel H hsize (mb_logs_after logs evs) req (Inr ()) (outvec (mb_framework s')) \<and>
       slots_have H hsize (mb_effect req (Inr ()) (mb_logs_after logs evs)) s')
    (\<lambda>e s'. mb_right rel H hsize (mb_logs_after logs evs) req (Inl e) (outvec (mb_framework s')) \<and>
       slots_have H hsize (mb_effect req (Inl e) (mb_logs_after logs evs)) s') (s\<lparr>mb_framework := q\<rparr>)"
  proof (cases req)
    case (Mb_Extend iov signer version val)
    then show ?thesis using extend_handler [OF s1, of iov signer version val m] Message.hyps by simp
  next
    case (Mb_Read ri sn mn)
    then show ?thesis using read_handler [OF s1, of ri sn mn m] Message.hyps by simp
  qed
  then have "mb_right rel H hsize (mb_logs_after logs evs) req r (outvec (mb_framework s')) \<and>
      slots_have H hsize (mb_effect req r (mb_logs_after logs evs)) s'"
    using Message.hyps by (auto simp: wp_def split: sum.splits)
  with b h show ?case by auto
qed

end

end
