(* ===== verification/Measured_Boot_Client.thy ===== *)
theory Measured_Boot_Client
  imports Measured_Boot_History
begin

text \<open>
  The client interface of measured boot linked to the partition: what \<open>psa_call\<close> delivers and returns is the
  interface between the two, and through it a client reads exactly what the logs of the slots say.
\<close>

section \<open>The link\<close>

lemma psa_code_nonzero [simp]: "psa_code e \<noteq> 0"
  by (cases e) simp_all

text \<open>
  \<open>psa_call\<close> of the framework: a message with the input vectors of the caller and room for the output vectors is
  handled, the caller gets the status of the reply and what was written to the output vectors. The world is the
  state of the partition.
\<close>

definition delivers :: "('q \<Rightarrow> nat \<Rightarrow> buf) \<Rightarrow> ('q \<Rightarrow> nat \<Rightarrow> buf) \<Rightarrow> ('q \<Rightarrow> nat \<Rightarrow> nat) \<Rightarrow> int \<Rightarrow> buf list \<Rightarrow> u32 list \<Rightarrow> psa_msg_t \<Rightarrow> 'q \<Rightarrow> bool" where
  "delivers invec outvec room type ins outs m q \<longleftrightarrow> msg_type m = type \<and>
     (\<forall>i<length ins. unat (in_size m ! i) = length (ins ! i) \<and> invec q i = ins ! i) \<and>
     (\<forall>i<length outs. out_size m ! i = outs ! i \<and> outvec q i = [] \<and> room q i = unat (outs ! i))"

definition status_code :: "psa_error + unit \<Rightarrow> int" where
  "status_code r = (case r of Inl e \<Rightarrow> psa_code e | Inr _ \<Rightarrow> 0)"

definition served :: "'q mb_env \<Rightarrow> 'q psa_api \<Rightarrow> int \<Rightarrow> psa_msg_t \<Rightarrow> ('q, unit) mb_op" where
  "served env api type m = (if type = TFM_MEASURED_BOOT_READ then read_measurements api m else extend_measurement env api m)"

text \<open>What the client sends to extend a slot: the size of the type of software is a byte, too.\<close>

definition sent_extension :: "u8 \<Rightarrow> u32 \<Rightarrow> buf option \<Rightarrow> u32 \<Rightarrow> bool \<Rightarrow> measured_boot_extend_iovec_t" where
  "sent_extension index algo sw_type tn lock = \<lparr>ei_index = index, ei_lock_measurement = (if lock then 1 else 0), ei_measurement_algo = algo,
     ei_sw_type = (case sw_type of None \<Rightarrow> replicate 20 0 | Some t \<Rightarrow> padded 20 (take (unat tn) t)), ei_sw_type_size = ucast tn\<rparr>"

locale measured_boot_link = measured_boot_store +
  fixes client :: "'a mb_state psa_client" and handle :: psa_handle_t
  assumes call_law: "psa_call client handle type ins outs s = ((status, res), s') \<Longrightarrow>
      type = TFM_MEASURED_BOOT_READ \<or> type = TFM_MEASURED_BOOT_EXTEND \<Longrightarrow>
      (\<forall>x\<in>set ins. length x < 4294967296) \<Longrightarrow>
      \<exists>m q r. delivers invec outvec room type ins outs m q \<and> served env api type m (s\<lparr>mb_framework := q\<rparr>) = (r, s') \<and>
        status = status_code r \<and> (\<forall>i<length outs. res ! i = outvec (mb_framework s') i)"
begin

lemma decode_view:
  assumes "\<forall>x\<in>set log. extension_ok x"
  shows "decode_read_out (encode_view (view_of H hsize log)) = \<lparr>ro_is_locked = (if locked log then 1 else 0),
      ro_measurement_algo = log_algo log, ro_sw_type = padded 20 (log_type log), ro_sw_type_len = of_nat (length (log_type log)),
      ro_version = padded 14 (log_version log), ro_version_len = of_nat (length (log_version log))\<rparr>"
  using log_lengths [OF assms] by (simp add: encode_view_def view_of_def)

text \<open>A call as the request it is, with its reply.\<close>

lemma handled:
  assumes s: "slots_have H hsize logs s" and car: "mb_carries invec outvec room req m q"
    and run: "mb_handler env api req m (s\<lparr>mb_framework := q\<rparr>) = (r, s')"
  shows "mb_right rel H hsize logs req r (outvec (mb_framework s')) \<and> slots_have H hsize (mb_effect req r logs) s'"
proof -
  have s1: "slots_have H hsize logs (s\<lparr>mb_framework := q\<rparr>)" using s by (simp add: slots_have_def)
  have car': "mb_carries invec outvec room req m (mb_framework (s\<lparr>mb_framework := q\<rparr>))"
    using car by (simp del: mb_carries.simps)
  have "wp (mb_handler env api req m)
    (\<lambda>_ s'. mb_right rel H hsize logs req (Inr ()) (outvec (mb_framework s')) \<and> slots_have H hsize (mb_effect req (Inr ()) logs) s')
    (\<lambda>e s'. mb_right rel H hsize logs req (Inl e) (outvec (mb_framework s')) \<and> slots_have H hsize (mb_effect req (Inl e) logs) s')
    (s\<lparr>mb_framework := q\<rparr>)"
    by (cases req) (use extend_handler [OF s1] read_handler [OF s1] car' in \<open>simp_all del: mb_carries.simps mb_right.simps mb_effect.simps(1)\<close>)
  then show ?thesis using run by (cases r) (simp_all add: wp_def)
qed

lemma read_call:
  assumes s: "slots_have H hsize logs s"
    and c: "psa_call client handle TFM_MEASURED_BOOT_READ [encode_read_in ri] [read_out_size, sn, mn] s = ((status, res), s')"
  shows "\<exists>r out. mb_right rel H hsize logs (Mb_Read ri sn mn) r out \<and> slots_have H hsize logs s' \<and> (status = 0 \<longleftrightarrow> r = Inr ()) \<and>
    (\<forall>i<3. res ! i = out i)"
proof -
  obtain m q r where d: "delivers invec outvec room TFM_MEASURED_BOOT_READ [encode_read_in ri] [read_out_size, sn, mn] m q"
    and run: "read_measurements api m (s\<lparr>mb_framework := q\<rparr>) = (r, s')" and st: "status = status_code r"
    and res: "\<forall>i<3. res ! i = outvec (mb_framework s') i"
    using call_law [OF c] by (auto simp: served_def)
  have "unat (in_size m ! 0) = 3" "invec q 0 = encode_read_in ri" using d by (simp_all add: delivers_def)
  then have a: "in_size m ! 0 = read_in_size" "invec q 0 = encode_read_in ri" by (simp_all add: read_in_size_def word_unat_eq_iff)
  have b: "out_size m ! i = [read_out_size, sn, mn] ! i \<and> outvec q i = [] \<and> room q i = unat ([read_out_size, sn, mn] ! i)" if "i < 3" for i
    using d that unfolding delivers_def by simp
  have car: "mb_carries invec outvec room (Mb_Read ri sn mn) m q"
    using a b [of 0] b [of 1] b [of 2] b by (simp add: mb_carries.simps(2))
  have "status = 0 \<longleftrightarrow> r = Inr ()" using st by (auto simp: status_code_def split: sum.splits)
  with handled [OF s car] run res show ?thesis
    unfolding mb_handler.simps mb_effect.simps(2) by blast
qed

text \<open>The sizes of the version and of the type of software are sent as bytes.\<close>

lemma client_read:
  assumes s: "slots_have H hsize logs s"
    and call: "tfm_measured_boot_read_measurement client handle index sn vn tn mn s = (r, s')"
  shows "slots_have H hsize logs s' \<and>
    (if index < 32 \<and> logs (unat index) \<noteq> [] \<and> buffers_fit hsize (logs (unat index)) sn (ucast (ucast vn :: u8)) (ucast (ucast tn :: u8)) mn
     then r = Inr (view_of H hsize (logs (unat index))) else (\<exists>e. r = Inl e))"
proof -
  let ?ri = "\<lparr>ri_index = index, ri_sw_type_size = ucast tn, ri_version_size = ucast vn\<rparr>" and ?log = "logs (unat index)"
  obtain status res where c: "psa_call client handle TFM_MEASURED_BOOT_READ [encode_read_in ?ri] [read_out_size, sn, mn] s = ((status, res), s')"
    using call by (auto simp: tfm_measured_boot_read_measurement_def split: prod.splits)
  obtain r' out where right: "mb_right rel H hsize logs (Mb_Read ?ri sn mn) r' out" and s': "slots_have H hsize logs s'"
    and code: "status = 0 \<longleftrightarrow> r' = Inr ()" and res: "\<forall>i<3. res ! i = out i"
    using read_call [OF s c] by blast
  have r: "r = (if status = 0 then (let o' = decode_read_out (res ! 0) in
       Inr \<lparr>mo_signer_id = res ! 1, mo_version = take (unat (ro_version_len o')) (ro_version o'), mo_measurement_algo = ro_measurement_algo o',
         mo_sw_type = take (unat (ro_sw_type_len o')) (ro_sw_type o'), mo_measurement_value = res ! 2, mo_is_locked = (ro_is_locked o' \<noteq> 0)\<rparr>)
     else Inl status)"
    using call c by (simp add: tfm_measured_boot_read_measurement_def)
  show ?thesis
  proof (cases "index < 32 \<and> ?log \<noteq> [] \<and> buffers_fit hsize ?log sn (ucast (ucast vn :: u8)) (ucast (ucast tn :: u8)) mn")
    case True
    then have o: "r' = Inr ()" "res ! 0 = encode_view (view_of H hsize ?log)" "res ! 1 = log_signer ?log"
      "res ! 2 = mo_measurement_value (view_of H hsize ?log)"
      using right res by (auto simp: Let_def view_of_def)
    have "unat index < 32" using True by (simp add: word_less_nat_alt)
    then have ok: "\<forall>x\<in>set ?log. extension_ok x" using s unfolding slots_have_def by blast
    have "unat (of_nat (length (log_version ?log)) :: u8) = length (log_version ?log)"
      "unat (of_nat (length (log_type ?log)) :: u8) = length (log_type ?log)"
      using log_lengths [OF ok] by (simp_all add: unat_of_nat)
    then show ?thesis
      using True s' o code r by (simp add: Let_def decode_view [OF ok]) (simp add: view_of_def)
  next
    case False
    then have "r' \<noteq> Inr ()" using right by (auto simp: Let_def split: if_splits)
    then show ?thesis using False s' r code by auto
  qed
qed

lemma client_extend:
  assumes s: "slots_have H hsize logs s"
    and call: "tfm_measured_boot_extend_measurement client handle index signer version algo sw_type tn val lock s = (status, s')"
    and fits: "\<not> (sw_type \<noteq> None \<and> tn > SW_TYPE_MAX_SIZE)"
    and len: "length signer < 4294967296" "length version < 4294967296" "length val < 4294967296"
  shows "\<exists>r out. status = status_code r \<and> mb_right rel H hsize logs (Mb_Extend (sent_extension index algo sw_type tn lock) signer version val) r out \<and>
    slots_have H hsize (mb_effect (Mb_Extend (sent_extension index algo sw_type tn lock) signer version val) r logs) s'"
proof -
  let ?iov = "sent_extension index algo sw_type tn lock"
  have t20: "length (take (unat tn) t) \<le> 20" if "sw_type = Some t" for t
    using fits that by (simp add: mb_sizes word_le_nat_alt word_less_nat_alt)
  have l20: "length (ei_sw_type ?iov) = 20"
    using t20 by (cases sw_type) (simp_all add: sent_extension_def del: length_take)
  have iov: "?iov = \<lparr>ei_index = index, ei_lock_measurement = (if lock then 1 else 0), ei_measurement_algo = algo,
      ei_sw_type = (case sw_type of None \<Rightarrow> replicate 20 0 | Some t \<Rightarrow> bsplice 0 (take (unat tn) t) (replicate 20 0)), ei_sw_type_size = ucast tn\<rparr>"
    using t20 by (cases sw_type) (simp_all add: sent_extension_def bsplice_replicate del: length_take)
  obtain res where c: "psa_call client handle TFM_MEASURED_BOOT_EXTEND [encode_extend ?iov, signer, version, val] [] s = ((status, res), s')"
    using call fits unfolding tfm_measured_boot_extend_measurement_def iov [symmetric] Let_def by (auto split: prod.splits)
  obtain m q r where d: "delivers invec outvec room TFM_MEASURED_BOOT_EXTEND [encode_extend ?iov, signer, version, val] [] m q"
    and run: "extend_measurement env api m (s\<lparr>mb_framework := q\<rparr>) = (r, s')" and st: "status = status_code r"
    using call_law [OF c] l20 len by (auto simp: served_def TFM_MEASURED_BOOT_EXTEND_def TFM_MEASURED_BOOT_READ_def)
  have b: "unat (in_size m ! i) = length ([encode_extend ?iov, signer, version, val] ! i) \<and> invec q i = [encode_extend ?iov, signer, version, val] ! i"
    if "i < 4" for i using d that unfolding delivers_def by simp
  have "in_size m ! 0 = extend_size" using b [of 0] l20 by (simp add: extend_size_def word_unat_eq_iff)
  then have car: "mb_carries invec outvec room (Mb_Extend ?iov signer version val) m q"
    using b [of 0] b [of 1] b [of 2] b [of 3] l20 by (simp add: mb_carries.simps(1))
  show ?thesis
    using handled [OF s car, of r s'] run st unfolding mb_handler.simps by blast
qed

end

end
