(* ===== verification/Delegated_Attest_Spec.thy ===== *)
theory Delegated_Attest_Spec
  imports Delegated_Attest_Req_Mngr Measured_Boot_Client
begin

text \<open>
  What the delegated attestation partition promises, over the logs of the measured boot partition and the keys of
  the crypto service: which measurements go into the boot state, which key is derived from them, and for which
  hashes a token is given.
\<close>

section \<open>The measurements that are attested\<close>

text \<open>
  What any client of measured boot relies on: a read delivers the view of the log of the slot. \<open>has logs w\<close>: in
  the state \<open>w\<close> the slots of the measured boot partition hold \<open>logs\<close>.
\<close>

locale boot_reader =
  fixes client :: "'w psa_client" and handle :: psa_handle_t and H :: "buf \<Rightarrow> buf" and n :: nat
    and has :: "mb_logs \<Rightarrow> 'w \<Rightarrow> bool"
  assumes log_law: "has logs w \<Longrightarrow> ext \<in> set (logs i) \<Longrightarrow> i < 32 \<Longrightarrow> extension_ok ext"
    and hash_law: "length (H x) = n" "n \<le> 64"
    and slot_law: "has logs w \<Longrightarrow> tfm_measured_boot_read_measurement client handle index sn vn tn mn w = (r, w') \<Longrightarrow>
      has logs w' \<and>
      (if index < 32 \<and> logs (unat index) \<noteq> [] \<and> buffers_fit n (logs (unat index)) sn (ucast (ucast vn :: u8)) (ucast (ucast tn :: u8)) mn
       then r = Inr (view_of H n (logs (unat index))) else (\<exists>e. r = Inl e))"

text \<open>The measured boot partition, linked to a client, gives that contract.\<close>

sublocale measured_boot_link \<subseteq> reader: boot_reader client handle H hsize "slots_have H hsize"
proof unfold_locales
  show "extension_ok x" if "slots_have H hsize logs s" "x \<in> set (logs i)" "i < 32" for logs and s :: "'a mb_state" and x i
    using that by (auto simp: slots_have_def)
  show "length (H x) = hsize" "hsize \<le> 64" for x
    using hash_length hsize(1) by auto
  show "slots_have H hsize logs s' \<and>
      (if index < 32 \<and> logs (unat index) \<noteq> [] \<and> buffers_fit hsize (logs (unat index)) sn (ucast (ucast vn :: u8)) (ucast (ucast tn :: u8)) mn
       then r = Inr (view_of H hsize (logs (unat index))) else (\<exists>e. r = Inl e))"
    if "slots_have H hsize logs s" "tfm_measured_boot_read_measurement client handle index sn vn tn mn s = (r, s')"
    for logs s index sn vn tn mn r s'
    by (rule client_read [OF that])
qed

text \<open>
  The slots that go into the boot state: those that are populated and whose lengths do not exceed those of the slot
  that was attested before (the sizes of the buffers for the first one).
\<close>

fun attested :: "(buf \<Rightarrow> buf) \<Rightarrow> nat \<Rightarrow> boot_buffers \<Rightarrow> mb_extension list list \<Rightarrow> measurement_out list" where
  "attested H n b [] = []"
| "attested H n b (log # logs) =
     (if log \<noteq> [] \<and> buffers_fit n log (signer_id_len b) (sw_version_len b) (sw_type_len b) (measurement_len b)
      then view_of H n log # attested H n (shrink_buffers (view_of H n log)) logs else attested H n b logs)"

definition boot_views :: "(buf \<Rightarrow> buf) \<Rightarrow> nat \<Rightarrow> mb_logs \<Rightarrow> measurement_out list" where
  "boot_views H n logs = attested H n make_boot_buffers (map logs [0..<32])"

definition add_view :: "('w, 'h, 'o, 'c) da_env \<Rightarrow> 'c \<Rightarrow> measurement_out \<Rightarrow> 'c" where
  "add_view env ctx m = encode_firmware_measurement env (mo_signer_id m) (mo_version m) (mo_sw_type m)
     (case get_firmware_measurement_description env (mo_measurement_algo m) of Inr d \<Rightarrow> d | Inl _ \<Rightarrow> []) (mo_measurement_value m) ctx"

definition describable :: "('w, 'h, 'o, 'c) da_env \<Rightarrow> measurement_out \<Rightarrow> bool" where
  "describable env m \<longleftrightarrow> mo_measurement_algo m \<in> {PSA_ALG_SHA_256 env, PSA_ALG_SHA_384 env, PSA_ALG_SHA_512 env}"

text \<open>The boot state: an array of the attested measurements in CBOR, and the empty encoding without any.\<close>

definition encode_views :: "('w, 'h, 'o, 'c) da_env \<Rightarrow> measurement_out list \<Rightarrow> 'c" where
  "encode_views env ms = (let ctx = QCBOREncode_Init (cbor env) (TFM_ATTEST_BOOT_RECORDS_MAX_SIZE env) in
     if ms = [] then ctx
     else QCBOREncode_CloseArray (cbor env) (foldl (add_view env) (QCBOREncode_OpenArray (cbor env) ctx) ms))"

definition encoding_error :: "qcbor_error \<Rightarrow> psa_error" where
  "encoding_error e = (case e of QCBOR_ERR_BUFFER_TOO_SMALL \<Rightarrow> PSA_ERROR_BUFFER_TOO_SMALL | QCBOR_ERR_OTHER \<Rightarrow> PSA_ERROR_GENERIC_ERROR)"

definition boot_state_of :: "('w, 'h, 'o, 'c) da_env \<Rightarrow> measurement_out list \<Rightarrow> psa_error + buf" where
  "boot_state_of env ms =
     (if \<not> (\<forall>m\<in>set ms. describable env m) then Inl PSA_ERROR_GENERIC_ERROR
      else case QCBOREncode_Finish (cbor env) (encode_views env ms) of
        Inl e \<Rightarrow> Inl (encoding_error e) | Inr bs \<Rightarrow> Inr bs)"

lemma description_simps:
  "describable env m \<Longrightarrow> \<exists>d. get_firmware_measurement_description env (mo_measurement_algo m) = Inr d"
  "\<not> describable env m \<Longrightarrow> \<exists>e. get_firmware_measurement_description env (mo_measurement_algo m) = Inl e"
  by (auto simp: describable_def get_firmware_measurement_description_def)

lemma wp_on_world [wp_rules, simp]:
  "wp (on_world m) Q E s = (case m (da_world s) of (Inl e, w) \<Rightarrow> E e (s\<lparr>da_world := w\<rparr>) | (Inr a, w) \<Rightarrow> Q a (s\<lparr>da_world := w\<rparr>))"
  by (simp add: wp_def on_world_def split: prod.splits sum.splits)

lemma wp_with_context [wp_rules, simp]:
  "wp (with_context m) Q E s = (case m (da_world s) of (r, op, w) \<Rightarrow> Q (r, op) (s\<lparr>da_world := w\<rparr>))"
  by (simp add: wp_def with_context_def split: prod.splits)

lemma map_only_key: "dom m \<subseteq> {k} \<Longrightarrow> m(k := None) = Map.empty"
  by (auto simp: fun_eq_iff dom_def subset_iff)

text \<open>The lengths in the buffers are those of the arrays.\<close>

definition buffers_ok :: "boot_buffers \<Rightarrow> bool" where
  "buffers_ok b \<longleftrightarrow> unat (sw_version_len b) < 256 \<and> unat (sw_type_len b) < 256"

lemma ucast_byte: "unat (x :: u32) < 256 \<Longrightarrow> ucast (ucast x :: u8) = x"
  by (simp add: word_unat_eq_iff unsigned_ucast_eq unsigned_take_bit_eq take_bit_nat_eq_self)

lemma make_boot_buffers_ok: "buffers_ok make_boot_buffers"
  by (simp add: buffers_ok_def make_boot_buffers_def mb_sizes)

section \<open>The services\<close>

text \<open>What a key is derived from: its attributes, the algorithm, the secret key and the information that was supplied.\<close>

record kd_material =
  km_alg :: u32
  km_secret :: "u32 option"
  km_info :: "buf option"

type_synonym dak = "psa_key_attributes_t \<times> kd_material"

definition dak_for :: "('w, 'h, 'o, 'c) da_env \<Rightarrow> u8 \<Rightarrow> u32 \<Rightarrow> buf \<Rightarrow> dak" where
  "dak_for env ecc_curve key_bits boot_state =
     (\<lparr>psa_key_usage_flags = PSA_KEY_USAGE_EXPORT env, psa_key_type = PSA_KEY_TYPE_ECC_KEY_PAIR env ecc_curve, psa_key_bits = key_bits\<rparr>,
      \<lparr>km_alg = PSA_ALG_HKDF env (PSA_ALG_SHA_256 env), km_secret = Some (TFM_BUILTIN_KEY_ID_DAK_SEED env), km_info = Some boot_state\<rparr>)"

text \<open>What every call of a service leaves as it is: the vectors of the message in hand and the slots of measured boot.\<close>

definition da_same :: "('w \<Rightarrow> nat \<Rightarrow> buf) \<Rightarrow> ('w \<Rightarrow> nat \<Rightarrow> buf) \<Rightarrow> ('w \<Rightarrow> nat \<Rightarrow> nat) \<Rightarrow> (mb_logs \<Rightarrow> 'w \<Rightarrow> bool) \<Rightarrow> 'w \<Rightarrow> 'w \<Rightarrow> bool" where
  "da_same invec outvec room has w w' \<longleftrightarrow> invec w' = invec w \<and> outvec w' = outvec w \<and> room w' = room w \<and> (\<forall>logs. has logs w \<longrightarrow> has logs w')"

text \<open>
  The documented behaviour of the services over an abstract store: \<open>keys w k\<close> is the key with the identifier \<open>k\<close>,
  \<open>material w op\<close> what was supplied to the key derivation \<open>op\<close>; \<open>priv\<close> and \<open>pub\<close> are the two parts of a key, \<open>hash\<close> the
  hash of an algorithm, and \<open>certifies t h\<close> that \<open>t\<close> is a token of the platform for the hash \<open>h\<close>. Every call may
  fail; with \<open>rel\<close> those of the crypto service do not, as long as the partition has no other key when it creates one. No call changes what the measured boot partition holds or the
  vectors of the message in hand.
\<close>

locale delegated_attest =
  boot_reader "measured_boot_client env" "TFM_MEASURED_BOOT_HANDLE env" H n has + psa_vectors api invec outvec room
  for env :: "('w, 'h, 'o, 'c) da_env" and H n has api invec outvec room +
  fixes keys :: "'w \<Rightarrow> u32 \<Rightarrow> dak option" and material :: "'w \<Rightarrow> 'o \<Rightarrow> kd_material"
    and priv pub :: "dak \<Rightarrow> buf" and hash :: "u32 \<Rightarrow> buf \<Rightarrow> buf" and hash_ok :: "u32 \<Rightarrow> bool"
    and certifies :: "buf \<Rightarrow> buf \<Rightarrow> bool" and rel :: bool
  assumes read_keeps: "psa_read api h i m w = (bs, w') \<Longrightarrow> keys w' = keys w \<and> (has logs w \<longrightarrow> has logs w')"
    and write_keeps: "keys (psa_write api h i bs w) = keys w \<and> (has logs w \<longrightarrow> has logs (psa_write api h i bs w))"
    and slot_keeps: "tfm_measured_boot_read_measurement (measured_boot_client env) (TFM_MEASURED_BOOT_HANDLE env) index sn vn tn mn w = (mr, w') \<Longrightarrow>
      keys w' = keys w \<and> invec w' = invec w \<and> outvec w' = outvec w \<and> room w' = room w"
    and hash_setup_law: "psa_hash_setup env alg w = (r, ho, w') \<Longrightarrow>
      da_same invec outvec room has w w' \<and> keys w' = keys w \<and> r \<noteq> Inl PSA_NO_RESULT \<and> (rel \<longrightarrow> (r = Inr ()) = hash_ok alg)"
    and hash_abort_law: "psa_hash_abort env ho w = (r, w') \<Longrightarrow> da_same invec outvec room has w w' \<and> keys w' = keys w"
    and hash_compare_law: "psa_hash_compare env alg x y w = (r, w') \<Longrightarrow> da_same invec outvec room has w w' \<and> keys w' = keys w \<and> (r = Inr () \<longrightarrow> hash alg x = y)"
    and public_law: "psa_export_public_key env k m w = (br, w') \<Longrightarrow> da_same invec outvec room has w w' \<and> keys w' = keys w \<and>
      (\<forall>bs. br = Inr bs \<longrightarrow> (\<exists>d. keys w k = Some d \<and> bs = pub d))"
    and export_law: "psa_export_key env k m w = (br, w') \<Longrightarrow> da_same invec outvec room has w w' \<and> keys w' = keys w \<and>
      (\<forall>bs. br = Inr bs \<longrightarrow> (\<exists>d. keys w k = Some d \<and> bs = priv d \<and> length (priv d) \<le> unat m)) \<and>
      (rel \<longrightarrow> (\<forall>d. keys w k = Some d \<longrightarrow> length (priv d) \<le> unat m \<longrightarrow> br = Inr (priv d)))"
    and destroy_law: "psa_destroy_key env k w = (r, w') \<Longrightarrow> da_same invec outvec room has w w' \<and> r \<noteq> Inl PSA_NO_RESULT \<and>
      keys w' = (if r = Inr () then (keys w)(k := None) else keys w) \<and> (r = Inl PSA_ERROR_INVALID_HANDLE \<longrightarrow> keys w k = None) \<and>
      (rel \<longrightarrow> r = Inr () \<or> r = Inl PSA_ERROR_INVALID_HANDLE)"
    and null_law: "keys w 0 = None"
    and setup_law: "psa_key_derivation_setup env alg w = (r, op, w') \<Longrightarrow> da_same invec outvec room has w w' \<and> keys w' = keys w \<and> r \<noteq> Inl PSA_NO_RESULT \<and>
      (r = Inr () \<longrightarrow> material w' op = \<lparr>km_alg = alg, km_secret = None, km_info = None\<rparr>) \<and> (rel \<longrightarrow> r = Inr ())"
    and input_key_law: "psa_key_derivation_input_key env op step k w = (r, op', w') \<Longrightarrow> da_same invec outvec room has w w' \<and> keys w' = keys w \<and>
      (r = Inr () \<longrightarrow> step = PSA_KEY_DERIVATION_INPUT_SECRET env \<longrightarrow> material w' op' = (material w op)\<lparr>km_secret := Some k\<rparr>) \<and> (rel \<longrightarrow> r = Inr ())"
    and input_bytes_law: "psa_key_derivation_input_bytes env op step bs w = (r, op', w') \<Longrightarrow> da_same invec outvec room has w w' \<and> keys w' = keys w \<and>
      (r = Inr () \<longrightarrow> step = PSA_KEY_DERIVATION_INPUT_INFO env \<longrightarrow> material w' op' = (material w op)\<lparr>km_info := Some bs\<rparr>) \<and> (rel \<longrightarrow> r = Inr ())"
    and output_law: "psa_key_derivation_output_key env att op w = (r, k, op', w') \<Longrightarrow> da_same invec outvec room has w w' \<and> (rel \<and> keys w = Map.empty \<longrightarrow> r = Inr ()) \<and>
      (if r = Inr () then keys w k = None \<and> keys w' = (keys w)(k \<mapsto> (att, material w op)) else k = 0 \<and> keys w' = keys w)"
    and kd_abort_law: "psa_key_derivation_abort env op w = (r, w') \<Longrightarrow> da_same invec outvec room has w w' \<and> keys w' = keys w \<and> r \<noteq> Inl PSA_NO_RESULT \<and> (rel \<longrightarrow> r = Inr ())"
    and token_law: "psa_initial_attest_get_token env x m w = (br, w') \<Longrightarrow> da_same invec outvec room has w w' \<and> keys w' = keys w \<and> br \<noteq> Inl PSA_NO_RESULT \<and>
      (\<forall>t. br = Inr t \<longrightarrow> certifies t x \<and> length t \<le> unat m)"
    and key_size_law: "b \<in> {256, 384, 521} \<Longrightarrow>
      length (priv (dak_for env c b salt)) \<le> unat (PSA_KEY_EXPORT_ECC_KEY_PAIR_MAX_SIZE env b) \<and>
      PSA_KEY_EXPORT_ECC_KEY_PAIR_MAX_SIZE env b \<le> PSA_KEY_EXPORT_ECC_KEY_PAIR_MAX_SIZE env 521"
    and records_size_law: "TFM_ATTEST_BOOT_RECORDS_MAX_SIZE env \<noteq> 0"
begin

abbreviation same :: "'w \<Rightarrow> 'w \<Rightarrow> bool" where
  "same \<equiv> da_same invec outvec room has"

lemma same_refl [simp]: "same w w"
  by (simp add: da_same_def)

lemma same_trans: "same w w' \<Longrightarrow> same w' w'' \<Longrightarrow> same w w''"
  by (simp add: da_same_def)

lemma same_has: "same w w' \<Longrightarrow> has logs w \<Longrightarrow> has logs w'"
  by (simp add: da_same_def)

lemma view_buffers:
  assumes "has logs w" and "i < 32"
  shows "buffers_ok (shrink_buffers (view_of H n (logs i)))"
proof -
  have "\<forall>x\<in>set (logs i). extension_ok x" using log_law assms by blast
  from log_lengths [OF this] show ?thesis
    by (simp add: buffers_ok_def shrink_buffers_def view_of_def unat_of_nat)
qed

text \<open>The loop over the slots adds the views that are attested, and fails at the first one that it cannot describe.\<close>

definition kept :: "'w da_state \<Rightarrow> 'w da_state \<Rightarrow> bool" where
  "kept s s' \<longleftrightarrow> same (da_world s) (da_world s') \<and> keys (da_world s') = keys (da_world s) \<and> s' = s\<lparr>da_world := da_world s'\<rparr>"

lemma kept_refl [simp]: "kept s s"
  by (simp add: kept_def)

lemma kept_world: "same (da_world s) w \<Longrightarrow> keys w = keys (da_world s) \<Longrightarrow> kept s (s\<lparr>da_world := w\<rparr>)"
  by (simp add: kept_def)

lemma kept_trans: "kept s s' \<Longrightarrow> kept s' s'' \<Longrightarrow> kept s s''"
  unfolding kept_def by (metis same_trans da_state.surjective da_state.update_convs(4))

definition slots_read :: "'w da_state \<Rightarrow> u32 \<Rightarrow> 'c \<Rightarrow> measurement_out list \<Rightarrow> u32 \<times> 'c \<Rightarrow> 'w da_state \<Rightarrow> bool" where
  "slots_read s cnt ctx ms res s' \<longleftrightarrow> (\<forall>m\<in>set ms. describable env m) \<and> (fst res = 0 \<longleftrightarrow> cnt = 0 \<and> ms = []) \<and>
     snd res = foldl (add_view env) (if cnt = 0 \<and> ms \<noteq> [] then QCBOREncode_OpenArray (cbor env) ctx else ctx) ms \<and> kept s s'"

definition slots_fail :: "'w da_state \<Rightarrow> measurement_out list \<Rightarrow> psa_error \<Rightarrow> 'w da_state \<Rightarrow> bool" where
  "slots_fail s ms e s' \<longleftrightarrow> e = PSA_ERROR_GENERIC_ERROR \<and> \<not> (\<forall>m\<in>set ms. describable env m) \<and> kept s s'"

lemma slots_read_Cons:
  assumes "slots_read s1 (cnt + 1) (add_view env (if cnt = 0 then QCBOREncode_OpenArray (cbor env) ctx else ctx) m) ms res s'"
    and "kept s s1" and "describable env m" and "cnt + 1 \<noteq> 0"
  shows "slots_read s cnt ctx (m # ms) res s'"
  using assms kept_trans unfolding slots_read_def by auto

lemma read_slots_wp:
  assumes "has logs (da_world s)" and "buffers_ok b" and "\<forall>i\<in>set is. unat i < 32" and "unat cnt + length is < 4294967296"
  shows "wp (read_slots env is b cnt ctx) (slots_read s cnt ctx (attested H n b (map (\<lambda>i. logs (unat i)) is)))
    (slots_fail s (attested H n b (map (\<lambda>i. logs (unat i)) is))) s"
  using assms
proof (induction "is" arbitrary: s b cnt ctx)
  case Nil
  then show ?case by (simp add: slots_read_def)
next
  case (Cons i "is")
  let ?log = "logs (unat i)" and ?rest = "map (\<lambda>i. logs (unat i)) is"
  obtain r w where c: "tfm_measured_boot_read_measurement (measured_boot_client env) (TFM_MEASURED_BOOT_HANDLE env)
     i (signer_id_len b) (sw_version_len b) (sw_type_len b) (measurement_len b) (da_world s) = (r, w)" by force
  have i: "unat i < 32" "i < 32" using Cons.prems(3) by (simp_all add: word_less_nat_alt)
  have w: "has logs w" "kept s (s\<lparr>da_world := w\<rparr>)"
    using slot_law [OF Cons.prems(1) c] slot_law [OF _ c] slot_keeps [OF c] by (auto simp: da_same_def intro!: kept_world)
  have r: "if ?log \<noteq> [] \<and> buffers_fit n ?log (signer_id_len b) (sw_version_len b) (sw_type_len b) (measurement_len b)
       then r = Inr (view_of H n ?log) else (\<exists>e. r = Inl e)"
    using slot_law [OF Cons.prems(1) c] Cons.prems(2) i by (simp add: ucast_byte buffers_ok_def)
  have cnt: "unat (cnt + 1) = Suc (unat cnt)" "cnt + 1 \<noteq> 0"
    using Cons.prems(4) unat_add_u32 [of cnt 1] by auto
  note IH = Cons.IH [of "s\<lparr>da_world := w\<rparr>", simplified, OF w(1)]
  show ?case
  proof (cases "?log \<noteq> [] \<and> buffers_fit n ?log (signer_id_len b) (sw_version_len b) (sw_type_len b) (measurement_len b)")
    case False
    then obtain e where e: "r = Inl e" using r by auto
    have a: "attested H n b (?log # ?rest) = attested H n b ?rest" using False by auto
    have "wp (read_slots env is b cnt ctx) (slots_read s cnt ctx (attested H n b ?rest)) (slots_fail s (attested H n b ?rest)) (s\<lparr>da_world := w\<rparr>)"
      by (rule wp_mono [OF IH [of b cnt ctx]])
        (use Cons.prems(2-4) w kept_trans in \<open>auto simp: slots_read_def slots_fail_def\<close>)
    then show ?thesis by (simp add: read_slot_def c e a del: attested.simps)
  next
    case True
    let ?v = "view_of H n ?log"
    have e: "r = Inr ?v" using True r by simp
    have a: "attested H n b (?log # ?rest) = ?v # attested H n (shrink_buffers ?v) ?rest" using True by auto
    show ?thesis
    proof (cases "describable env ?v")
      case False
      then obtain x where "get_firmware_measurement_description env (mo_measurement_algo ?v) = Inl x"
        using description_simps by blast
      then show ?thesis using False w by (simp add: read_slot_def c e a slots_fail_def Let_def del: attested.simps)
    next
      case desc: True
      then obtain d where d: "get_firmware_measurement_description env (mo_measurement_algo ?v) = Inr d"
        using description_simps by blast
      let ?ctx = "if cnt = 0 then QCBOREncode_OpenArray (cbor env) ctx else ctx"
      have add: "encode_firmware_measurement env (mo_signer_id ?v) (mo_version ?v) (mo_sw_type ?v) d (mo_measurement_value ?v) c = add_view env c ?v" for c
        by (simp add: add_view_def d)
      have cntI: "(cnt + 1 = 1) = (cnt = 0)" by simp
      have "wp (read_slots env is (shrink_buffers ?v) (cnt + 1) (add_view env ?ctx ?v))
          (slots_read s cnt ctx (?v # attested H n (shrink_buffers ?v) ?rest)) (slots_fail s (?v # attested H n (shrink_buffers ?v) ?rest)) (s\<lparr>da_world := w\<rparr>)"
        by (rule wp_mono [OF IH [OF view_buffers [OF Cons.prems(1) i(1)], of "cnt + 1" "add_view env ?ctx ?v"]])
          (use Cons.prems(3,4) w(2) cnt desc kept_trans in \<open>auto simp: slots_fail_def intro: slots_read_Cons\<close>)
      then show ?thesis by (simp only: list.map read_slots.simps a wp_tryE)
          (simp add: read_slot_def c e d Let_def add del: attested.simps)
    qed
  qed
qed

lemma boot_wp:
  assumes "has logs (da_world s)"
  shows "wp (get_platform_boot_state env (TFM_ATTEST_BOOT_RECORDS_MAX_SIZE env))
    (\<lambda>bs s'. boot_state_of env (boot_views H n logs) = Inr bs \<and> kept s s')
    (\<lambda>e s'. boot_state_of env (boot_views H n logs) = Inl e \<and> kept s s') s"
proof -
  let ?is = "map of_nat [0..<unat NUM_OF_MEASUREMENT_SLOTS] :: u8 list"
  have "map (\<lambda>i. logs (unat i)) ?is = map logs [0..<32]"
    by (simp add: mb_sizes comp_def unat_of_nat)
  then have v: "attested H n make_boot_buffers (map (\<lambda>i. logs (unat i)) ?is) = boot_views H n logs"
    by (simp only: boot_views_def)
  have "\<forall>i\<in>set ?is. unat i < 32" by (auto simp: mb_sizes unat_of_nat)
  note run = read_slots_wp [OF assms make_boot_buffers_ok this, of 0, unfolded v]
  show ?thesis
    using records_size_law
    by (simp add: get_platform_boot_state_def)
      (rule wp_mono [OF run]; auto simp: mb_sizes slots_read_def slots_fail_def boot_state_of_def encode_views_def encoding_error_def Let_def
         split: sum.splits qcbor_error.splits if_splits)
qed

text \<open>
  The key that a request leaves: none, the one that was derived, or the old one when it could not be destroyed.
  The partition never owns another key than that of its identifier.
\<close>

definition one_key :: "'w da_state \<Rightarrow> bool" where
  "one_key s \<longleftrightarrow> dom (keys (da_world s)) \<subseteq> {dak_key_id s}"

definition rekeyed :: "'w da_state \<Rightarrow> dak \<Rightarrow> 'w da_state \<Rightarrow> bool" where
  "rekeyed s d s' \<longleftrightarrow> same (da_world s) (da_world s') \<and> dak_requested s' = dak_requested s \<and> dak_pub_hash_algo s' = dak_pub_hash_algo s \<and> one_key s' \<and>
     (keys (da_world s') (dak_key_id s') = None \<or> keys (da_world s') (dak_key_id s') = Some d \<or>
      keys (da_world s') = keys (da_world s) \<and> dak_key_id s' = dak_key_id s)"

lemma err_release_op_wp:
  assumes "rekeyed s d s1" and "\<not> rel"
  shows "wp (err_release_op env op) Q (\<lambda>e s'. e = PSA_ERROR_GENERIC_ERROR \<and> rekeyed s d s') s1"
proof -
  obtain r w where a: "psa_key_derivation_abort env op (da_world s1) = (r, w)" by force
  show ?thesis using assms kd_abort_law [OF a] same_trans
    by (simp add: err_release_op_def a rekeyed_def one_key_def split: sum.splits) metis
qed

lemma err_release_key_wp:
  assumes "rekeyed s d s1" and "keys (da_world s1) (dak_key_id s1) = Some d" and "\<not> rel"
  shows "wp (err_release_key env op) Q (\<lambda>e s'. e = PSA_ERROR_GENERIC_ERROR \<and> rekeyed s d s') s1"
proof -
  obtain r w where a: "psa_destroy_key env (dak_key_id s1) (da_world s1) = (r, w)" by force
  have "rekeyed s d (s1\<lparr>da_world := w\<rparr>)"
    using assms destroy_law [OF a] same_trans by (auto simp: rekeyed_def one_key_def split: if_splits)
  from err_release_op_wp [OF this assms(3)] show ?thesis
    by (simp add: err_release_key_def a split: sum.splits)
qed

text \<open>With a size for which the export does not fail for want of room, \<open>rel\<close> makes it succeed.\<close>

lemma export_dak_wp:
  assumes s: "rekeyed s d s1" and k: "keys (da_world s1) (dak_key_id s1) = Some d" and m: "length (priv d) \<le> unat m"
  shows "wp (export_dak env op m) (\<lambda>key s'. key = priv d \<and> rekeyed s d s' \<and> keys (da_world s') (dak_key_id s') = Some d)
    (\<lambda>e s'. \<not> rel \<and> e \<noteq> PSA_NO_RESULT \<and> rekeyed s d s') s1"
proof -
  obtain r w where a: "psa_export_key env (dak_key_id s1) m (da_world s1) = (r, w)" by force
  have w: "rekeyed s d (s1\<lparr>da_world := w\<rparr>)" "keys w (dak_key_id s1) = Some d"
    using s k export_law [OF a] same_trans by (auto simp: rekeyed_def one_key_def)
  show ?thesis
  proof (cases r)
    case (Inl e)
    then have "\<not> rel" using export_law [OF a] k m by auto
    show ?thesis
      by (simp add: export_dak_def a Inl)
        (rule wp_mono [OF err_release_key_wp [OF w(1) _ \<open>\<not> rel\<close>]], use w(2) \<open>\<not> rel\<close> in auto)
  next
    case (Inr key)
    obtain r' w' where b: "psa_key_derivation_abort env op w = (r', w')" by force
    have "rekeyed s d (s1\<lparr>da_world := w'\<rparr>)" "keys w' (dak_key_id s1) = Some d"
      using w kd_abort_law [OF b] same_trans by (auto simp: rekeyed_def one_key_def)
    moreover have "key = priv d" using export_law [OF a] k Inr by auto
    ultimately show ?thesis using kd_abort_law [OF b]
      by (auto simp: export_dak_def a Inr b split: sum.splits)
  qed
qed

lemma derive_wp:
  fixes curve :: u8 and bits :: u32 and salt :: buf
  defines "d \<equiv> dak_for env curve bits salt"
  assumes m: "length (priv d) \<le> unat m" and salt: "salt \<noteq> []" and one: "one_key s"
  shows "wp (derive_delegated_attestation_key env curve bits salt m)
    (\<lambda>key s'. key = priv d \<and> rekeyed s d s' \<and> keys (da_world s') (dak_key_id s') = Some d)
    (\<lambda>e s'. \<not> rel \<and> e \<noteq> PSA_NO_RESULT \<and> rekeyed s d s') s"
  (is "wp _ ?Q ?E s")
proof -
  let ?att = "fst (dak_for env curve bits salt)"
  have fail: "wp (err_release_op env op) ?Q ?E s'" if "rekeyed s d s'" "\<not> rel" for op s'
    by (rule wp_mono [OF err_release_op_wp [OF that]]) (use that(2) in auto)
  have fail': "wp (err_release_op env op) ?Q (\<lambda>e s'. e \<noteq> PSA_NO_RESULT \<and> rekeyed s d s') s'" if "rekeyed s d s'" "\<not> rel" for op s'
    by (rule wp_mono [OF fail [OF that]]) auto
  have create: "wp (create_dak env ?att op m) ?Q ?E s1"
    if s1: "rekeyed s d s1" and none: "keys (da_world s1) = Map.empty" and mat: "material (da_world s1) op = snd (dak_for env curve bits salt)" for op s1
  proof -
    obtain r k op' w where a: "psa_key_derivation_output_key env ?att op (da_world s1) = (r, k, op', w)" by (metis prod_cases4)
    show ?thesis
    proof (cases r)
      case (Inl e)
      then have "rekeyed s d (s1\<lparr>da_world := w, dak_key_id := k\<rparr>)" "\<not> rel"
        using s1 output_law [OF a] same_trans null_law none by (auto simp: rekeyed_def one_key_def)
      from fail [OF this] show ?thesis by (simp add: create_dak_def a Inl)
    next
      case (Inr u)
      then have "rekeyed s d (s1\<lparr>da_world := w, dak_key_id := k\<rparr>)" "keys w k = Some d"
        using s1 output_law [OF a] same_trans mat none by (auto simp: rekeyed_def one_key_def d_def)
      then show ?thesis by (simp add: create_dak_def a Inr) (rule export_dak_wp [OF _ _ m]; simp)
    qed
  qed
  have derive: "wp (derive_dak env ?att salt m) ?Q ?E s1" if s1: "rekeyed s d s1" and none: "keys (da_world s1) = Map.empty" for s1
  proof -
    have keep: "rekeyed s d (s2\<lparr>da_world := w\<rparr>)" if "rekeyed s d s2" "same (da_world s2) w" "keys w = keys (da_world s2)" for s2 w
      using that same_trans by (auto simp: rekeyed_def one_key_def)
    obtain r1 o1 w1 where a1: "psa_key_derivation_setup env (PSA_ALG_HKDF env (PSA_ALG_SHA_256 env)) (da_world s1) = (r1, o1, w1)"
      by (metis prod_cases3)
    note l1 = setup_law [OF a1]
    obtain r2 o2 w2 where a2: "psa_key_derivation_input_key env o1 (PSA_KEY_DERIVATION_INPUT_SECRET env) (TFM_BUILTIN_KEY_ID_DAK_SEED env) w1 = (r2, o2, w2)"
      by (metis prod_cases3)
    note l2 = input_key_law [OF a2]
    obtain r3 o3 w3 where a3: "psa_key_derivation_input_bytes env o2 (PSA_KEY_DERIVATION_INPUT_INFO env) salt w2 = (r3, o3, w3)"
      by (metis prod_cases3)
    note l3 = input_bytes_law [OF a3]
    have s2: "rekeyed s d (s1\<lparr>da_world := w1\<rparr>)" using keep [OF s1] l1 by simp
    have s3: "rekeyed s d (s1\<lparr>da_world := w2\<rparr>)" using keep [OF s2, of w2] l2 by simp
    have s4: "rekeyed s d (s1\<lparr>da_world := w3\<rparr>)" using keep [OF s3, of w3] l3 by simp
    have mat: "r1 = Inr () \<Longrightarrow> r2 = Inr () \<Longrightarrow> r3 = Inr () \<Longrightarrow> material w3 o3 = snd (dak_for env curve bits salt)"
      using l1 l2 l3 by (simp add: dak_for_def)
    show ?thesis
      using l1 l2 l3 s2 s3 s4 mat none
      by (cases r1; cases r2; cases r3) (auto simp: derive_dak_def a1 a2 a3 intro!: fail fail' create)
  qed
  obtain r w where a: "psa_destroy_key env (dak_key_id s) (da_world s) = (r, w)" by force
  have w: "r = Inr () \<or> r = Inl PSA_ERROR_INVALID_HANDLE \<Longrightarrow> rekeyed s d (s\<lparr>da_world := w\<rparr>) \<and> keys w = Map.empty"
    "r = Inl e \<Longrightarrow> e \<noteq> PSA_ERROR_INVALID_HANDLE \<Longrightarrow> \<not> rel \<and> e \<noteq> PSA_NO_RESULT \<and> rekeyed s d (s\<lparr>da_world := w\<rparr>)" for e
    using destroy_law [OF a] one map_only_key [of "keys (da_world s)" "dak_key_id s"] by (auto simp: rekeyed_def one_key_def)
  show ?thesis
    using salt w derive by (cases r) (auto simp: derive_delegated_attestation_key_def a dak_for_def Let_def)
qed

end

end
