(* ===== verification/Delegated_Attest_Runs.thy ===== *)
theory Delegated_Attest_Runs
  imports Delegated_Attest_Spec
begin

text \<open>
  The handlers of the delegated attestation partition against its specification: what a request for the key and a
  request for the token reply, and what they leave in the state of the partition.
\<close>

section \<open>Requests\<close>

datatype da_request =
    Da_Key u8 u32 u32 u32
  | Da_Token buf u32

text \<open>\<open>da_carries req m w\<close>: the message \<open>m\<close> with the vectors in \<open>w\<close> is the request \<open>req\<close>.\<close>

fun da_carries :: "('w \<Rightarrow> nat \<Rightarrow> buf) \<Rightarrow> ('w \<Rightarrow> nat \<Rightarrow> buf) \<Rightarrow> ('w \<Rightarrow> nat \<Rightarrow> nat) \<Rightarrow> da_request \<Rightarrow> psa_msg_t \<Rightarrow> 'w \<Rightarrow> bool" where
  "da_carries invec outvec room (Da_Key curve bits algo sz) m w \<longleftrightarrow> in_size m ! 0 = 1 \<and> in_size m ! 1 = 4 \<and> in_size m ! 2 = 4 \<and>
     invec w 0 = [curve] \<and> invec w 1 = le32 bits \<and> invec w 2 = le32 algo \<and> out_size m ! 0 = sz \<and> outvec w 0 = [] \<and> room w 0 = unat sz"
| "da_carries invec outvec room (Da_Token h sz) m w \<longleftrightarrow> unat (in_size m ! 0) = length h \<and> invec w 0 = h \<and>
     out_size m ! 0 = sz \<and> outvec w 0 = [] \<and> room w 0 = unat sz"

fun da_handler :: "('w, 'h, 'o, 'c) da_env \<Rightarrow> 'w psa_api \<Rightarrow> da_request \<Rightarrow> psa_msg_t \<Rightarrow> ('w, unit) da_op" where
  "da_handler env api (Da_Key curve bits algo sz) m = get_delegated_attestation_key env api m"
| "da_handler env api (Da_Token h sz) m = get_platform_attestation_token env api m"

section \<open>Replies\<close>

text \<open>The arguments of a request for the key that are refused.\<close>

definition key_refused :: "('w, 'h, 'o, 'c) da_env \<Rightarrow> u8 \<Rightarrow> u32 \<Rightarrow> u32 \<Rightarrow> psa_error option" where
  "key_refused env curve bits sz =
     (if curve \<noteq> PSA_ECC_FAMILY_SECP_R1 env \<or> bits \<notin> {256, 384, 521} then Some PSA_ERROR_INVALID_ARGUMENT
      else if sz < PSA_KEY_EXPORT_ECC_KEY_PAIR_MAX_SIZE env bits then Some PSA_ERROR_BUFFER_TOO_SMALL else None)"

text \<open>What the key is derived from: the boot state, which must not be empty.\<close>

definition boot_salt :: "('w, 'h, 'o, 'c) da_env \<Rightarrow> measurement_out list \<Rightarrow> psa_error + buf" where
  "boot_salt env ms = (case boot_state_of env ms of Inl e \<Rightarrow> Inl e
     | Inr bs \<Rightarrow> if bs = [] then Inl PSA_ERROR_INVALID_ARGUMENT else Inr bs)"

definition key_reply :: "('w, 'h, 'o, 'c) da_env \<Rightarrow> (dak \<Rightarrow> buf) \<Rightarrow> bool \<Rightarrow> measurement_out list \<Rightarrow> u8 \<Rightarrow> u32 \<Rightarrow> u32 \<Rightarrow>
    psa_error + unit \<Rightarrow> buf \<Rightarrow> bool" where
  "key_reply env priv sure ms curve bits sz r out \<longleftrightarrow>
     (case key_refused env curve bits sz of
        Some e \<Rightarrow> r = Inl e \<and> out = []
      | None \<Rightarrow> (case r of
          Inr _ \<Rightarrow> (\<exists>salt. boot_salt env ms = Inr salt \<and> out = priv (dak_for env curve bits salt))
        | Inl e \<Rightarrow> out = [] \<and> e \<noteq> PSA_NO_RESULT \<and> (sure \<longrightarrow> boot_salt env ms = Inl e)))"

definition token_reply :: "('w, 'h, 'o, 'c) da_env \<Rightarrow> (dak \<Rightarrow> buf) \<Rightarrow> (u32 \<Rightarrow> buf \<Rightarrow> buf) \<Rightarrow> (buf \<Rightarrow> buf \<Rightarrow> bool) \<Rightarrow>
    bool \<Rightarrow> u32 \<Rightarrow> dak option \<Rightarrow> buf \<Rightarrow> psa_error + unit \<Rightarrow> buf \<Rightarrow> bool" where
  "token_reply env pub hash certifies requested algo key h r out \<longleftrightarrow>
     (if length h > unat (PSA_HASH_LENGTH env (PSA_ALG_SHA_512 env)) then r = Inl PSA_NO_RESULT
      else if length h \<notin> (unat \<circ> PSA_HASH_LENGTH env) ` {PSA_ALG_SHA_256 env, PSA_ALG_SHA_384 env, PSA_ALG_SHA_512 env} \<or>
        \<not> requested \<or> length h \<noteq> unat (PSA_HASH_LENGTH env algo) then r = Inl PSA_ERROR_INVALID_ARGUMENT \<and> out = []
      else (case r of
          Inr _ \<Rightarrow> (\<exists>d. key = Some d \<and> hash algo (pub d) = h) \<and> certifies out h
        | Inl e \<Rightarrow> out = [] \<and> e \<noteq> PSA_NO_RESULT))"

section \<open>The handlers\<close>

context delegated_attest
begin

text \<open>The state of the partition and what other partitions hold are as they were, whatever the vectors.\<close>

definition idle :: "mb_logs \<Rightarrow> 'w da_state \<Rightarrow> 'w da_state \<Rightarrow> bool" where
  "idle logs s s' \<longleftrightarrow> has logs (da_world s') \<and> keys (da_world s') = keys (da_world s) \<and> s' = s\<lparr>da_world := da_world s'\<rparr>"

lemma kept_idle: "kept s s' \<Longrightarrow> has logs (da_world s) \<Longrightarrow> idle logs s s'"
  by (auto simp: kept_def idle_def same_has)

lemma idle_trans: "idle logs s s' \<Longrightarrow> idle logs s' s'' \<Longrightarrow> idle logs s s''"
  unfolding idle_def by (metis da_state.surjective da_state.update_convs(4))

lemma idle_refl: "has logs (da_world s) \<Longrightarrow> idle logs s s"
  by (simp add: idle_def)

lemma da_read_wp:
  assumes "has logs (da_world s)" and "length (invec (da_world s) i) \<le> unat k"
    and "\<And>s'. idle logs s s' \<Longrightarrow> invec (da_world s') = (invec (da_world s))(i := []) \<Longrightarrow> outvec (da_world s') = outvec (da_world s) \<Longrightarrow>
      room (da_world s') = room (da_world s) \<Longrightarrow> Q (invec (da_world s) i) s'"
  shows "wp (da_read api m i k) Q E s"
proof -
  obtain bs w where r: "psa_read api (msg_handle m) i k (da_world s) = (bs, w)" by force
  then show ?thesis using assms read_law [OF r] read_keeps [OF r] by (simp add: da_read_def idle_def)
qed

lemma da_read_arg_wp:
  assumes "has logs (da_world s)" and "length (invec (da_world s) i) = unat k"
    and "\<And>s'. idle logs s s' \<Longrightarrow> invec (da_world s') = (invec (da_world s))(i := []) \<Longrightarrow> outvec (da_world s') = outvec (da_world s) \<Longrightarrow>
      room (da_world s') = room (da_world s) \<Longrightarrow> Q (invec (da_world s) i) s'"
  shows "wp (da_read_arg api m i k) Q E s"
  unfolding da_read_arg_def wp_bindE
  by (rule da_read_wp [OF assms(1)]) (use assms(2,3) in auto)

lemma da_write_wp:
  assumes "has logs (da_world s)" and "length (outvec (da_world s) i) + length bs \<le> room (da_world s) i"
    and "\<And>s'. idle logs s s' \<Longrightarrow> outvec (da_world s') = (outvec (da_world s))(i := outvec (da_world s) i @ bs) \<Longrightarrow> Q () s'"
  shows "wp (da_write api m i bs) Q E s"
  using assms write_law [OF assms(2)] write_keeps by (simp add: da_write_def idle_def)

lemma check_hash_wp:
  "wp (check_hash_algo env algo) (\<lambda>_ s'. kept s s' \<and> (rel \<longrightarrow> hash_ok algo)) (\<lambda>e s'. kept s s' \<and> e \<noteq> PSA_NO_RESULT \<and> (rel \<longrightarrow> \<not> hash_ok algo)) s"
proof -
  obtain r h w where a: "psa_hash_setup env algo (da_world s) = (r, h, w)" by (metis prod_cases3)
  obtain r' w' where b: "psa_hash_abort env h w = (r', w')" by force
  have "kept s (s\<lparr>da_world := w'\<rparr>)"
    using hash_setup_law [OF a] hash_abort_law [OF b] same_trans by (auto intro!: kept_world)
  then show ?thesis using hash_setup_law [OF a]
    by (cases r; cases r') (auto simp: check_hash_algo_def a b)
qed

lemma kept_one_key: "kept s s' \<Longrightarrow> one_key s \<Longrightarrow> one_key s'"
  unfolding kept_def one_key_def by (metis da_state.select_convs(1) da_state.surjective da_state.update_convs(4))

lemma kept_rekeyed: "kept s s' \<Longrightarrow> one_key s \<Longrightarrow> rekeyed s d s'"
  using kept_one_key [of s s'] unfolding kept_def rekeyed_def by (metis da_state.select_convs(1-3) da_state.surjective da_state.update_convs(4))

lemma rekeyed_kept: "kept s s' \<Longrightarrow> rekeyed s' d t \<Longrightarrow> rekeyed s d t"
  unfolding rekeyed_def kept_def
  by (metis same_trans da_state.select_convs(1-3) da_state.surjective da_state.update_convs(4))

lemma rekeyed_same: "rekeyed s d s' \<Longrightarrow> same (da_world s) (da_world s')"
  by (simp add: rekeyed_def)

lemma rekeyed_one: "rekeyed s d s' \<Longrightarrow> one_key (s'\<lparr>dak_requested := req, dak_pub_hash_algo := a\<rparr>)"
  by (simp add: rekeyed_def one_key_def)

text \<open>The key in the state of the partition after a request that was not refused.\<close>

lemma delegated_key_wp:
  fixes curve :: u8 and bits :: u32
  assumes s: "has logs (da_world s)" and one: "one_key s" and m: "\<And>salt. length (priv (dak_for env curve bits salt)) \<le> unat k"
  shows "wp (delegated_attest_get_delegated_key env curve bits k algo)
    (\<lambda>key s'. \<exists>salt. boot_salt env (boot_views H n logs) = Inr salt \<and> key = priv (dak_for env curve bits salt) \<and>
       same (da_world s) (da_world s') \<and> one_key s' \<and> dak_requested s' \<and> dak_pub_hash_algo s' = algo \<and>
       keys (da_world s') (dak_key_id s') = Some (dak_for env curve bits salt))
    (\<lambda>e s'. e \<noteq> PSA_NO_RESULT \<and> (rel \<and> hash_ok algo \<longrightarrow> boot_salt env (boot_views H n logs) = Inl e) \<and>
       (\<exists>salt. rekeyed s (dak_for env curve bits salt) s' \<and> (kept s s' \<or> boot_salt env (boot_views H n logs) = Inr salt))) s"
  (is "wp _ ?Q ?E s")
proof -
  have state_error: "e \<noteq> PSA_NO_RESULT" if "boot_state_of env ms = Inl e" for e ms
    using that by (auto simp: boot_state_of_def encoding_error_def split: sum.splits if_splits qcbor_error.splits)
  have derive: "wp (derive_delegated_attestation_key env curve bits bs k) (\<lambda>key. ?Q key \<circ> (\<lambda>s. s\<lparr>dak_requested := True, dak_pub_hash_algo := algo\<rparr>)) ?E s'"
    if bs: "boot_state_of env (boot_views H n logs) = Inr bs" and s': "kept s s'" for bs s'
  proof (cases "bs = []")
    case True
    then show ?thesis using kept_rekeyed [OF s' one] s' bs by (auto simp: derive_delegated_attestation_key_def boot_salt_def)
  next
    case False
    show ?thesis
      by (rule wp_mono [OF derive_wp [OF m False kept_one_key [OF s' one]]])
        (use bs False rekeyed_kept [OF s', of "dak_for env curve bits bs"] rekeyed_same [of s "dak_for env curve bits bs"]
            rekeyed_one [of s "dak_for env curve bits bs"] in \<open>auto simp: boot_salt_def\<close>)
  qed
  show ?thesis
    unfolding delegated_attest_get_delegated_key_def wp_bindE
    apply (rule wp_mono [OF check_hash_wp])
    subgoal for u s1
      apply (rule wp_mono [OF boot_wp [OF same_has [OF _ s]]])
      subgoal by (simp add: kept_def)
      subgoal for bs s2
        by (rule wp_mono [OF derive]) (auto dest: kept_trans)
      subgoal for e s2
        using kept_rekeyed [OF _ one, of s2 "dak_for env curve bits []"] state_error by (auto simp: boot_salt_def dest: kept_trans)
      done
    subgoal for e s1 using kept_rekeyed [OF _ one, of s1 "dak_for env curve bits []"] by auto
    done
qed

text \<open>
  What a request for the key leaves: after a success the key of the reply with its hash algorithm; after a failure
  whether a key was requested, and for which algorithm, is as before, but the key may be gone or be the new one.
\<close>

definition key_effect :: "mb_logs \<Rightarrow> u8 \<Rightarrow> u32 \<Rightarrow> u32 \<Rightarrow> 'w da_state \<Rightarrow> psa_error + unit \<Rightarrow> 'w da_state \<Rightarrow> bool" where
  "key_effect logs curve bits algo s r s' \<longleftrightarrow> has logs (da_world s') \<and> one_key s' \<and>
     (if r = Inr () then dak_requested s' \<and> dak_pub_hash_algo s' = algo \<and>
        (\<exists>salt. boot_salt env (boot_views H n logs) = Inr salt \<and> keys (da_world s') (dak_key_id s') = Some (dak_for env curve bits salt))
      else dak_requested s' = dak_requested s \<and> dak_pub_hash_algo s' = dak_pub_hash_algo s \<and>
        (keys (da_world s') (dak_key_id s') = None \<or>
         (\<exists>salt. boot_salt env (boot_views H n logs) = Inr salt \<and> keys (da_world s') (dak_key_id s') = Some (dak_for env curve bits salt)) \<or>
         keys (da_world s') = keys (da_world s) \<and> dak_key_id s' = dak_key_id s))"

lemma idle_one_key: "idle logs s s' \<Longrightarrow> one_key s \<Longrightarrow> one_key s'"
  unfolding idle_def one_key_def by (metis da_state.select_convs(1) da_state.surjective da_state.update_convs(4))

lemma idle_key_effect: "idle logs s s' \<Longrightarrow> one_key s \<Longrightarrow> key_effect logs curve bits algo s (Inl e) s'"
  using idle_one_key [of logs s s']
  unfolding idle_def key_effect_def by (metis da_state.select_convs(1-3) da_state.surjective da_state.update_convs(4) sum.distinct(1))

lemma idle_then_key_effect: "idle logs s s1 \<Longrightarrow> key_effect logs curve bits algo s1 r s' \<Longrightarrow> key_effect logs curve bits algo s r s'"
  unfolding idle_def key_effect_def by (metis da_state.select_convs(1-3) da_state.surjective da_state.update_convs(4))

lemma key_effect_then_idle: "key_effect logs curve bits algo s r s1 \<Longrightarrow> idle logs s1 s' \<Longrightarrow> key_effect logs curve bits algo s r s'"
  using idle_one_key [of logs s1 s'] unfolding idle_def key_effect_def by (metis da_state.select_convs(1-3) da_state.surjective da_state.update_convs(4))

lemma key_from_wp:
  assumes s: "has logs (da_world s)" and one: "one_key s"
    and v: "outvec (da_world s) 0 = []" "room (da_world s) 0 = unat sz" "out_size m ! 0 = sz"
  shows "wp (key_from env api m curve bits algo)
    (\<lambda>_ s'. key_reply env priv (rel \<and> hash_ok algo) (boot_views H n logs) curve bits sz (Inr ()) (outvec (da_world s') 0) \<and>
       key_effect logs curve bits algo s (Inr ()) s')
    (\<lambda>e s'. key_reply env priv (rel \<and> hash_ok algo) (boot_views H n logs) curve bits sz (Inl e) (outvec (da_world s') 0) \<and>
       key_effect logs curve bits algo s (Inl e) s') s"
proof (cases "key_refused env curve bits sz")
  case (Some e)
  then show ?thesis using v idle_key_effect [OF idle_refl [OF s] one]
    by (auto simp: key_from_def key_refused_def key_reply_def split: if_splits)
next
  case ok: None
  let ?k = "if sz < DELEGATED_ATTEST_KEY_MAX_SIZE env then sz else DELEGATED_ATTEST_KEY_MAX_SIZE env"
  have "bits \<in> {256, 384, 521}" "PSA_KEY_EXPORT_ECC_KEY_PAIR_MAX_SIZE env bits \<le> sz"
    using ok by (auto simp: key_refused_def split: if_splits)
  then have l: "length (priv (dak_for env curve bits salt)) \<le> unat ?k" "length (priv (dak_for env curve bits salt)) \<le> unat sz" for salt
    using key_size_law [of bits curve salt] by (auto simp: DELEGATED_ATTEST_KEY_MAX_SIZE_def word_le_nat_alt)
  have f: "key_from env api m curve bits algo = bindE (delegated_attest_get_delegated_key env curve bits ?k algo) (da_write api m 0)"
    using ok v by (auto simp: key_from_def key_refused_def split: if_splits)
  show ?thesis
    unfolding f wp_bindE
  proof (rule wp_mono [OF delegated_key_wp [OF s one l(1)]], goal_cases)
    case (1 key s1)
    then obtain salt where salt: "boot_salt env (boot_views H n logs) = Inr salt" "key = priv (dak_for env curve bits salt)"
      and s1: "same (da_world s) (da_world s1)" and e: "key_effect logs curve bits algo s (Inr ()) s1"
      using same_has s by (auto simp: key_effect_def)
    have "has logs (da_world s1)" "outvec (da_world s1) 0 = []" "room (da_world s1) 0 = unat sz"
      using s1 s v by (simp_all add: da_same_def)
    then show ?case
      by (intro da_write_wp [where logs = logs])
        (use salt l key_effect_then_idle [OF e] ok in \<open>auto simp: key_reply_def\<close>)
  next
    case (2 e s1)
    then obtain salt where r: "rekeyed s (dak_for env curve bits salt) s1" "kept s s1 \<or> boot_salt env (boot_views H n logs) = Inr salt" by blast
    have "key_effect logs curve bits algo s (Inl e) s1"
    proof (cases "kept s s1")
      case True
      then show ?thesis using idle_key_effect [OF kept_idle] s one by blast
    next
      case False
      then show ?thesis using r s same_has [OF rekeyed_same [OF r(1)] s] by (auto simp: key_effect_def rekeyed_def)
    qed
    moreover have "outvec (da_world s1) 0 = []" using rekeyed_same [OF r(1)] v by (simp add: da_same_def)
    ultimately show ?case using 2 ok by (simp add: key_reply_def)
  qed
qed

lemma key_handler:
  assumes s: "has logs (da_world s)" and one: "one_key s" and car: "da_carries invec outvec room (Da_Key curve bits algo sz) m (da_world s)"
  shows "wp (get_delegated_attestation_key env api m)
    (\<lambda>_ s'. key_reply env priv (rel \<and> hash_ok algo) (boot_views H n logs) curve bits sz (Inr ()) (outvec (da_world s') 0) \<and>
       key_effect logs curve bits algo s (Inr ()) s')
    (\<lambda>e s'. key_reply env priv (rel \<and> hash_ok algo) (boot_views H n logs) curve bits sz (Inl e) (outvec (da_world s') 0) \<and>
       key_effect logs curve bits algo s (Inl e) s') s"
proof -
  have z: "\<not> (in_size m ! 0 \<noteq> 1 \<or> in_size m ! 1 \<noteq> 4 \<or> in_size m ! 2 \<noteq> 4)"
    and v: "invec (da_world s) 0 = [curve]" "invec (da_world s) 1 = le32 bits" "invec (da_world s) 2 = le32 algo"
      "outvec (da_world s) 0 = []" "room (da_world s) 0 = unat sz" "out_size m ! 0 = sz"
    using car by simp_all
  show ?thesis
    unfolding get_delegated_attestation_key_def wp_bindE if_not_P [OF z]
  proof (rule da_read_arg_wp [OF s], use v in simp, rule da_read_arg_wp [where logs = logs], goal_cases)
    case (3 s1 s2)
    show ?case
    proof (rule da_read_arg_wp [where logs = logs], goal_cases)
      case (3 s3)
      have i: "idle logs s s3" using 3 \<open>idle logs s s1\<close> \<open>idle logs s1 s2\<close> idle_trans by blast
      have a: "invec (da_world s) 0 ! 0 = curve" "de32 (invec (da_world s1) 1) = bits" "de32 (invec (da_world s2) 2) = algo"
        using v \<open>invec (da_world s1) = _\<close> \<open>invec (da_world s2) = _\<close> by simp_all
      have "has logs (da_world s3)" using i by (simp add: idle_def)
      note run = key_from_wp [OF this idle_one_key [OF i one], of sz m curve bits algo]
      show ?case unfolding a
        by (rule wp_mono [OF run])
          (use v 3 \<open>outvec (da_world s1) = _\<close> \<open>outvec (da_world s2) = _\<close> \<open>room (da_world s1) = _\<close> \<open>room (da_world s2) = _\<close>
             idle_then_key_effect [OF i] in simp_all)
    qed (use 3 v in \<open>simp_all add: idle_def\<close>)
  qed (use v in \<open>simp_all add: idle_def\<close>)
qed

lemma verify_wp:
  "wp (verify_dak_pub_hash env h)
    (\<lambda>_ s'. kept s s' \<and> of_nat (length h) = PSA_HASH_LENGTH env (dak_pub_hash_algo s) \<and>
       (\<exists>d. keys (da_world s) (dak_key_id s) = Some d \<and> hash (dak_pub_hash_algo s) (pub d) = h))
    (\<lambda>e s'. kept s s' \<and> e \<noteq> PSA_NO_RESULT \<and> (of_nat (length h) \<noteq> PSA_HASH_LENGTH env (dak_pub_hash_algo s) \<longrightarrow> e = PSA_ERROR_INVALID_ARGUMENT)) s"
proof -
  obtain r w where a: "psa_export_public_key env (dak_key_id s) (PSA_KEY_EXPORT_ECC_PUBLIC_KEY_MAX_SIZE env 521) (da_world s) = (r, w)" by force
  have w: "kept s (s\<lparr>da_world := w\<rparr>)" using public_law [OF a] by (auto intro: kept_world)
  have c: "kept s (s\<lparr>da_world := w'\<rparr>)" "u = Inr () \<Longrightarrow> hash (dak_pub_hash_algo s) bs = h"
    if "psa_hash_compare env (dak_pub_hash_algo s) bs h w = (u, w')" for bs u w'
    using hash_compare_law [OF that] kept_trans [OF w kept_world [of "s\<lparr>da_world := w\<rparr>" w']] public_law [OF a] by auto
  show ?thesis
    using w c public_law [OF a]
    by (cases r) (auto simp: verify_dak_pub_hash_def a split: prod.splits sum.splits)
qed

lemma platform_token_wp:
  "wp (delegated_attest_get_platform_token env h k)
    (\<lambda>t s'. kept s s' \<and> dak_requested s \<and> of_nat (length h) = PSA_HASH_LENGTH env (dak_pub_hash_algo s) \<and>
       (\<exists>d. keys (da_world s) (dak_key_id s) = Some d \<and> hash (dak_pub_hash_algo s) (pub d) = h) \<and> certifies t h \<and> length t \<le> unat k)
    (\<lambda>e s'. kept s s' \<and> e \<noteq> PSA_NO_RESULT \<and>
       (\<not> dak_requested s \<or> of_nat (length h) \<noteq> PSA_HASH_LENGTH env (dak_pub_hash_algo s) \<longrightarrow> e = PSA_ERROR_INVALID_ARGUMENT)) s"
proof (cases "dak_requested s")
  case True
  then show ?thesis
    unfolding delegated_attest_get_platform_token_def wp_withS wp_bindE if_not_P [of "\<not> dak_requested s", simplified]
  proof (simp, intro wp_mono [OF verify_wp], goal_cases)
    case (1 u s1)
    obtain r w where a: "psa_initial_attest_get_token env h k (da_world s1) = (r, w)" by force
    have "kept s1 (s1\<lparr>da_world := w\<rparr>)" using token_law [OF a] by (auto intro: kept_world)
    then have "kept s (s1\<lparr>da_world := w\<rparr>)" using 1 kept_trans by blast
    then show ?case using token_law [OF a] 1 by (auto simp: a split: sum.splits)
  qed (use True in auto)
qed (simp add: delegated_attest_get_platform_token_def)

text \<open>The hash has one of the three lengths.\<close>

definition hash_sized :: "buf \<Rightarrow> bool" where
  "hash_sized h \<longleftrightarrow> length h \<in> (unat \<circ> PSA_HASH_LENGTH env) ` {PSA_ALG_SHA_256 env, PSA_ALG_SHA_384 env, PSA_ALG_SHA_512 env}"

definition token_right :: "'w da_state \<Rightarrow> buf \<Rightarrow> psa_error + unit \<Rightarrow> buf \<Rightarrow> bool" where
  "token_right s h = token_reply env pub hash certifies (dak_requested s) (dak_pub_hash_algo s) (keys (da_world s) (dak_key_id s)) h"

lemma token_right_simps:
  assumes "length h \<le> unat (PSA_HASH_LENGTH env (PSA_ALG_SHA_512 env))"
  shows "\<not> hash_sized h \<Longrightarrow> token_right s h (Inl PSA_ERROR_INVALID_ARGUMENT) []"
    "hash_sized h \<Longrightarrow> dak_requested s \<Longrightarrow> length h = unat (PSA_HASH_LENGTH env (dak_pub_hash_algo s)) \<Longrightarrow>
      keys (da_world s) (dak_key_id s) = Some d \<Longrightarrow> hash (dak_pub_hash_algo s) (pub d) = h \<Longrightarrow> certifies out h \<Longrightarrow> token_right s h (Inr ()) out"
    "hash_sized h \<Longrightarrow> e \<noteq> PSA_NO_RESULT \<Longrightarrow>
      (\<not> dak_requested s \<or> length h \<noteq> unat (PSA_HASH_LENGTH env (dak_pub_hash_algo s)) \<longrightarrow> e = PSA_ERROR_INVALID_ARGUMENT) \<Longrightarrow>
      token_right s h (Inl e) []"
  using assms unfolding token_right_def token_reply_def hash_sized_def by auto

lemma idle_token_right:
  assumes "idle logs s s1"
  shows "token_right s1 h = token_right s h"
proof -
  have "s1 = s\<lparr>da_world := da_world s1\<rparr>" "keys (da_world s1) = keys (da_world s)" using assms by (simp_all add: idle_def)
  then obtain w where "s1 = s\<lparr>da_world := w\<rparr>" "keys w = keys (da_world s)" by blast
  then show ?thesis by (simp add: token_right_def)
qed

lemma token_from_wp:
  assumes s: "has logs (da_world s)" and v: "outvec (da_world s) 0 = []" "room (da_world s) 0 = unat sz" "out_size m ! 0 = sz"
    and h: "unat (in_size m ! 0) = length h" and l: "length h \<le> unat (PSA_HASH_LENGTH env (PSA_ALG_SHA_512 env))"
  shows "wp (token_from env api m h)
    (\<lambda>_ s'. token_right s h (Inr ()) (outvec (da_world s') 0) \<and> idle logs s s')
    (\<lambda>e s'. token_right s h (Inl e) (outvec (da_world s') 0) \<and> idle logs s s') s"
proof -
  let ?k = "if sz < PSA_INITIAL_ATTEST_TOKEN_MAX_SIZE env then sz else PSA_INITIAL_ATTEST_TOKEN_MAX_SIZE env"
  have h': "in_size m ! 0 = of_nat (length h)" unfolding h [symmetric] by simp
  have len: "(of_nat (length h) = PSA_HASH_LENGTH env alg) = (length h = unat (PSA_HASH_LENGTH env alg))" for alg
    unfolding h' [symmetric] h [symmetric] by (simp add: word_unat_eq_iff)
  have f: "token_from env api m h = (if \<not> hash_sized h then throwE PSA_ERROR_INVALID_ARGUMENT
      else bindE (delegated_attest_get_platform_token env h ?k) (da_write api m 0))"
    unfolding token_from_def Let_def hash_sized_def h' len v by auto
  show ?thesis
  proof (cases "hash_sized h")
    case False
    then show ?thesis using v idle_refl [OF s] token_right_simps(1) [OF l] by (simp add: f)
  next
    case True
    then have g: "token_from env api m h = bindE (delegated_attest_get_platform_token env h ?k) (da_write api m 0)" by (simp add: f)
    show ?thesis
      unfolding g wp_bindE
    proof (rule wp_mono [OF platform_token_wp], goal_cases)
      case (1 t s1)
      then have k: "kept s s1" and t: "length t \<le> unat ?k" and right: "token_right s h (Inr ()) t"
        using token_right_simps(2) [OF l True] len by auto
      have s1: "idle logs s s1" by (rule kept_idle [OF k s])
      have o: "outvec (da_world s1) 0 = []" "room (da_world s1) 0 = unat sz" using k v by (simp_all add: kept_def da_same_def)
      have "length t \<le> unat sz" using t by (auto simp: word_less_nat_alt split: if_splits)
      moreover have "has logs (da_world s1)" using s1 by (simp add: idle_def)
      ultimately show ?case
        by (intro da_write_wp [where logs = logs]) (use o right idle_trans [OF s1] in simp_all)
    next
      case (2 e s1)
      then have "outvec (da_world s1) 0 = []" using v by (simp add: kept_def da_same_def)
      then show ?case using 2 kept_idle [OF _ s] token_right_simps(3) [OF l True] len by auto
    qed
  qed
qed

lemma token_handler:
  assumes s: "has logs (da_world s)" and car: "da_carries invec outvec room (Da_Token h sz) m (da_world s)"
  shows "wp (get_platform_attestation_token env api m)
    (\<lambda>_ s'. token_right s h (Inr ()) (outvec (da_world s') 0) \<and> idle logs s s')
    (\<lambda>e s'. token_right s h (Inl e) (outvec (da_world s') 0) \<and> idle logs s s') s"
proof -
  have v: "unat (in_size m ! 0) = length h" "invec (da_world s) 0 = h" "out_size m ! 0 = sz" "outvec (da_world s) 0 = []"
      "room (da_world s) 0 = unat sz"
    using car by simp_all
  show ?thesis
    unfolding get_platform_attestation_token_def wp_bindE
  proof (rule da_read_wp [OF s], use v in simp, goal_cases)
    case (1 s1)
    have s1: "has logs (da_world s1)" using 1 by (simp add: idle_def)
    show ?case
    proof (cases "length h > unat (PSA_HASH_LENGTH env (PSA_ALG_SHA_512 env))")
      case True
      then show ?thesis using 1 v by (simp add: token_right_def token_reply_def)
    next
      case False
      then have l: "length h \<le> unat (PSA_HASH_LENGTH env (PSA_ALG_SHA_512 env))" by simp
      have "wp (token_from env api m h) (\<lambda>_ s'. token_right s1 h (Inr ()) (outvec (da_world s') 0) \<and> idle logs s1 s')
          (\<lambda>e s'. token_right s1 h (Inl e) (outvec (da_world s') 0) \<and> idle logs s1 s') s1"
        by (rule token_from_wp [OF s1 _ _ v(3) v(1) l]) (use 1 v in simp_all)
      then have "wp (token_from env api m h) (\<lambda>_ s'. token_right s h (Inr ()) (outvec (da_world s') 0) \<and> idle logs s s')
          (\<lambda>e s'. token_right s h (Inl e) (outvec (da_world s') 0) \<and> idle logs s s') s1"
        by (rule wp_mono) (use idle_trans [OF 1(1)] in \<open>simp_all add: idle_token_right [OF 1(1)]\<close>)
      then show ?thesis using False v by simp
    qed
  qed
qed

end

end
