(* ===== verification/Delegated_Attest_History.thy ===== *)
theory Delegated_Attest_History
  imports Delegated_Attest_Runs
begin

text \<open>
  Runs of the delegated attestation partition: sequences of requests from the start, between which other partitions
  run (they extend measurements, but leave the keys of this partition alone), and what the replies say about the
  keys and tokens that were handed out.
\<close>

section \<open>Histories\<close>

text \<open>An event: what the measured boot partition held, the request, its status and what was written for the caller.\<close>

type_synonym da_event = "mb_logs \<times> da_request \<times> (psa_error + unit) \<times> buf"

text \<open>Whether a key was handed out, and the hash algorithm of the last request that was successful.\<close>

definition requested_in :: "('w, 'h, 'o, 'c) da_env \<Rightarrow> da_event list \<Rightarrow> bool \<times> u32" where
  "requested_in env evs = fold (\<lambda>(logs, req, r, out) st. case req of
     Da_Key curve bits algo sz \<Rightarrow> if r = Inr () then (True, algo) else st | Da_Token h sz \<Rightarrow> st) evs (False, PSA_ALG_NONE env)"

text \<open>The keys that the requests of a history have derived.\<close>

definition derived_in :: "('w, 'h, 'o, 'c) da_env \<Rightarrow> (buf \<Rightarrow> buf) \<Rightarrow> nat \<Rightarrow> da_event list \<Rightarrow> dak set" where
  "derived_in env H n evs = {dak_for env curve bits salt | curve bits salt.
     \<exists>logs algo sz r out. (logs, Da_Key curve bits algo sz, r, out) \<in> set evs \<and> boot_salt env (boot_views H n logs) = Inr salt}"

text \<open>The reply to a request after the history \<open>evs\<close>.\<close>

fun da_right :: "('w, 'h, 'o, 'c) da_env \<Rightarrow> (buf \<Rightarrow> buf) \<Rightarrow> nat \<Rightarrow> (dak \<Rightarrow> buf) \<Rightarrow> (dak \<Rightarrow> buf) \<Rightarrow> (u32 \<Rightarrow> buf \<Rightarrow> buf) \<Rightarrow>
    (u32 \<Rightarrow> bool) \<Rightarrow> (buf \<Rightarrow> buf \<Rightarrow> bool) \<Rightarrow> bool \<Rightarrow> da_event list \<Rightarrow> da_event \<Rightarrow> bool" where
  "da_right env H n priv pub hash hash_ok certifies rel evs (logs, Da_Key curve bits algo sz, r, out) \<longleftrightarrow>
     key_reply env priv (rel \<and> hash_ok algo) (boot_views H n logs) curve bits sz r out"
| "da_right env H n priv pub hash hash_ok certifies rel evs (logs, Da_Token h sz, r, out) \<longleftrightarrow>
     (\<exists>key. set_option key \<subseteq> derived_in env H n evs \<and>
       token_reply env pub hash certifies (fst (requested_in env evs)) (snd (requested_in env evs)) key h r out)"

definition da_history_right :: "('w, 'h, 'o, 'c) da_env \<Rightarrow> (buf \<Rightarrow> buf) \<Rightarrow> nat \<Rightarrow> (dak \<Rightarrow> buf) \<Rightarrow> (dak \<Rightarrow> buf) \<Rightarrow> (u32 \<Rightarrow> buf \<Rightarrow> buf) \<Rightarrow>
    (u32 \<Rightarrow> bool) \<Rightarrow> (buf \<Rightarrow> buf \<Rightarrow> bool) \<Rightarrow> bool \<Rightarrow> da_event list \<Rightarrow> bool" where
  "da_history_right env H n priv pub hash hash_ok certifies rel evs \<longleftrightarrow>
     (\<forall>i<length evs. da_right env H n priv pub hash hash_ok certifies rel (take i evs) (evs ! i))"

text \<open>Runs from the start of the partition, when its static data has its initial values and it owns no key.\<close>

inductive da_run :: "('w, 'h, 'o, 'c) da_env \<Rightarrow> 'w psa_api \<Rightarrow> ('w \<Rightarrow> nat \<Rightarrow> buf) \<Rightarrow> ('w \<Rightarrow> nat \<Rightarrow> buf) \<Rightarrow> ('w \<Rightarrow> nat \<Rightarrow> nat) \<Rightarrow>
    ('w \<Rightarrow> u32 \<Rightarrow> dak option) \<Rightarrow> (mb_logs \<Rightarrow> 'w \<Rightarrow> bool) \<Rightarrow> da_event list \<Rightarrow> 'w da_state \<Rightarrow> bool"
  for env api invec outvec room keys has
where
  Start: "dak_key_id s = 0 \<Longrightarrow> \<not> dak_requested s \<Longrightarrow> dak_pub_hash_algo s = PSA_ALG_NONE env \<Longrightarrow> keys (da_world s) = Map.empty \<Longrightarrow>
    da_run env api invec outvec room keys has [] s"
| Request: "da_run env api invec outvec room keys has evs s \<Longrightarrow> keys w = keys (da_world s) \<Longrightarrow> has logs w \<Longrightarrow>
    da_carries invec outvec room req m w \<Longrightarrow> da_handler env api req m (s\<lparr>da_world := w\<rparr>) = (r, s') \<Longrightarrow>
    da_run env api invec outvec room keys has (evs @ [(logs, req, r, outvec (da_world s') 0)]) s'"

lemma requested_in_simps [simp]:
  "requested_in env [] = (False, PSA_ALG_NONE env)"
  "requested_in env (evs @ [(logs, Da_Key curve bits algo sz, r, out)]) = (if r = Inr () then (True, algo) else requested_in env evs)"
  "requested_in env (evs @ [(logs, Da_Token h sz, r, out)]) = requested_in env evs"
  by (simp_all add: requested_in_def)

lemma derived_inI: "(logs, Da_Key curve bits algo sz, r, out) \<in> set evs \<Longrightarrow> boot_salt env (boot_views H n logs) = Inr salt \<Longrightarrow>
   dak_for env curve bits salt \<in> derived_in env H n evs"
  unfolding derived_in_def by blast

lemma derived_in_mono: "derived_in env H n evs \<subseteq> derived_in env H n (evs @ evs')"
  unfolding derived_in_def by fastforce

lemma derived_in_last: "boot_salt env (boot_views H n logs) = Inr salt \<Longrightarrow>
   dak_for env curve bits salt \<in> derived_in env H n (evs @ [(logs, Da_Key curve bits algo sz, r, out)])"
  by (rule derived_inI) auto

lemma da_history_right_snoc [simp]:
  "da_history_right env H n priv pub hash hash_ok certifies rel []"
  "da_history_right env H n priv pub hash hash_ok certifies rel (evs @ [ev]) \<longleftrightarrow>
     da_history_right env H n priv pub hash hash_ok certifies rel evs \<and> da_right env H n priv pub hash hash_ok certifies rel evs ev"
  by (auto simp: da_history_right_def nth_append less_Suc_eq)

text \<open>A key that was requested successfully is behind every algorithm.\<close>

lemma requested_event: "fst (requested_in env evs) \<Longrightarrow>
   \<exists>logs curve bits sz out. (logs, Da_Key curve bits (snd (requested_in env evs)) sz, Inr (), out) \<in> set evs"
proof (induction evs rule: rev_induct)
  case (snoc ev evs)
  obtain logs req r out where ev: "ev = (logs, req, r, out)" by (cases ev)
  show ?case
  proof (cases req)
    case (Da_Key curve bits algo sz)
    then show ?thesis using snoc by (cases "r = Inr ()") (auto simp: ev; blast)+
  next
    case (Da_Token h sz)
    then show ?thesis using snoc by (auto simp: ev)
  qed
qed simp

section \<open>Runs\<close>

context delegated_attest
begin

text \<open>The state of the partition after a history.\<close>

definition da_state_after :: "da_event list \<Rightarrow> 'w da_state \<Rightarrow> bool" where
  "da_state_after evs s \<longleftrightarrow> (dak_requested s, dak_pub_hash_algo s) = requested_in env evs \<and> one_key s \<and>
     set_option (keys (da_world s) (dak_key_id s)) \<subseteq> derived_in env H n evs"

lemma key_step:
  assumes s: "da_state_after evs s" and e: "key_effect logs curve bits algo s r s'"
  shows "da_state_after (evs @ [(logs, Da_Key curve bits algo sz, r, out)]) s'"
proof -
  let ?evs = "evs @ [(logs, Da_Key curve bits algo sz, r, out)]"
  have "set_option (keys (da_world s') (dak_key_id s')) \<subseteq> derived_in env H n ?evs"
    using s e derived_in_mono [of env H n evs] derived_in_last
    by (cases "r = Inr ()") (fastforce simp: key_effect_def da_state_after_def)+
  moreover have "(dak_requested s', dak_pub_hash_algo s') = requested_in env ?evs"
    using s e by (auto simp: key_effect_def da_state_after_def)
  ultimately show ?thesis using e by (simp add: da_state_after_def key_effect_def)
qed

lemma token_step:
  assumes s: "da_state_after evs s" and i: "idle logs s s'"
  shows "da_state_after (evs @ [(logs, Da_Token h sz, r, out)]) s'"
proof -
  have "s' = s\<lparr>da_world := da_world s'\<rparr>" "keys (da_world s') = keys (da_world s)" using i by (simp_all add: idle_def)
  then obtain w where "s' = s\<lparr>da_world := w\<rparr>" "keys w = keys (da_world s)" by blast
  then show ?thesis using s derived_in_mono [of env H n evs] by (auto simp: da_state_after_def one_key_def)
qed

lemma request_step:
  assumes s: "da_state_after evs s" and l: "has logs (da_world s)" and car: "da_carries invec outvec room req m (da_world s)"
    and run: "da_handler env api req m s = (r, s')"
  shows "da_right env H n priv pub hash hash_ok certifies rel evs (logs, req, r, outvec (da_world s') 0) \<and>
    da_state_after (evs @ [(logs, req, r, outvec (da_world s') 0)]) s'"
proof (cases req)
  case (Da_Key curve bits algo sz)
  have "key_reply env priv (rel \<and> hash_ok algo) (boot_views H n logs) curve bits sz r (outvec (da_world s') 0) \<and>
      key_effect logs curve bits algo s r s'"
    using key_handler [OF l, of curve bits algo sz m] car run s by (cases r) (simp_all add: Da_Key wp_def da_state_after_def)
  then show ?thesis using key_step [OF s] by (simp add: Da_Key)
next
  case (Da_Token h sz)
  have "token_right s h r (outvec (da_world s') 0) \<and> idle logs s s'"
    using token_handler [OF l, of h sz m] car run by (cases r) (simp_all add: Da_Token wp_def)
  then show ?thesis using token_step [OF s] s
    by (simp add: Da_Token token_right_def da_state_after_def) (metis fst_conv snd_conv)
qed

theorem run_right:
  assumes "da_run env api invec outvec room keys has evs s"
  shows "da_history_right env H n priv pub hash hash_ok certifies rel evs \<and> da_state_after evs s"
  using assms
proof induction
  case (Start s)
  then show ?case by (simp add: da_state_after_def one_key_def)
next
  case (Request evs s w logs req m r s')
  then have "da_state_after evs (s\<lparr>da_world := w\<rparr>)" by (simp add: da_state_after_def one_key_def)
  from request_step [OF this] Request show ?case by simp
qed

end

end
