(* ===== verification/Measured_Boot_Typed.thy ===== *)
theory Measured_Boot_Typed
  imports Measured_Boot_Spec
begin

text \<open>
  Memory safety of the measured boot service: whatever message arrives, with any type, sizes and contents of its
  vectors, handling it stays within the arrays of the slots and leaves them well-typed.
\<close>

text \<open>The arrays of a slot have their sizes, and the stored lengths lie within them.\<close>

definition slot_typed :: "measured_boot_slot_t \<Rightarrow> bool" where
  "slot_typed slot \<longleftrightarrow>
     (let v = mvalue (measurement slot); md = metadata (measurement slot) in
      length (hash_buf v) = 64 \<and> unat (hash_buf_size v) \<le> 64 \<and> length (md_signer_id md) = 64 \<and> unat (md_signer_id_size md) \<le> 64 \<and>
      length (md_version md) = 14 \<and> unat (md_version_size md) \<le> 14 \<and> length (md_sw_type md) = 20 \<and> unat (md_sw_type_size md) \<le> 20)"

definition slots_typed :: "'q mb_state \<Rightarrow> bool" where
  "slots_typed s \<longleftrightarrow> length (measurement_slot s) = 32 \<and> (\<forall>slot\<in>set (measurement_slot s). slot_typed slot)"

lemma slots_typed_at: "slots_typed s \<Longrightarrow> i < 32 \<Longrightarrow> slot_typed (measurement_slot s ! i)"
  by (simp add: slots_typed_def)

lemma slots_typed_framework [simp]: "slots_typed (s\<lparr>mb_framework := q\<rparr>) = slots_typed s"
  "slots_typed (s\<lparr>g_measured_boot_caller_id := c\<rparr>) = slots_typed s"
  by (simp_all add: slots_typed_def)

text \<open>
  \<open>safe ok m\<close>: the operation \<open>m\<close> leaves the slots well-typed, and when it fails then with an error in \<open>ok\<close>. The
  errors of a service function that has a result in C are those in \<open>defined\<close>.
\<close>

definition safe :: "('e \<Rightarrow> bool) \<Rightarrow> ('q mb_state, 'e, 'a) sem \<Rightarrow> bool" where
  "safe ok m \<longleftrightarrow> (\<forall>s. slots_typed s \<longrightarrow> wp m (\<lambda>_ s'. slots_typed s') (\<lambda>e s'. ok e \<and> slots_typed s') s)"

abbreviation defined :: "psa_error \<Rightarrow> bool" where
  "defined e \<equiv> e \<noteq> PSA_NO_RESULT"

named_theorems safe_intros "rules for safe operations"

lemma safe_basic [safe_intros]:
  "safe ok (returnE a)" "ok e \<Longrightarrow> safe ok (throwE e)" "(\<And>s. slots_typed s \<Longrightarrow> slots_typed (f s)) \<Longrightarrow> safe ok (modifyS f)"
  by (simp_all add: safe_def)

lemma safe_if [safe_intros]: "(b \<Longrightarrow> safe ok m) \<Longrightarrow> (\<not> b \<Longrightarrow> safe ok m') \<Longrightarrow> safe ok (if b then m else m')"
  by simp

lemma safe_bindE: "safe ok m \<Longrightarrow> (\<And>a. safe ok (f a)) \<Longrightarrow> safe ok (bindE m f)"
  unfolding safe_def wp_bindE by (blast intro: wp_mono)

lemma safe_tryE: "safe ok m \<Longrightarrow> (\<And>a. safe ok' (k (Inr a))) \<Longrightarrow> (\<And>e. ok e \<Longrightarrow> safe ok' (k (Inl e))) \<Longrightarrow> safe ok' (tryE m k)"
  unfolding safe_def wp_tryE by (blast intro: wp_mono)

lemma safe_on_framework: "(\<And>q e q'. m q = (Inl e, q') \<Longrightarrow> ok e) \<Longrightarrow> safe ok (on_framework m)"
  unfolding safe_def wp_on_framework by (auto simp: wp_def split: prod.splits sum.splits)

lemma safe_withS: "(\<And>s. slots_typed s \<Longrightarrow> wp (f s) (\<lambda>_ s'. slots_typed s') (\<lambda>e s'. ok e \<and> slots_typed s') s) \<Longrightarrow> safe ok (withS f)"
  by (simp add: safe_def)

lemma safe_upd_slot:
  assumes "unat index < 32" and "\<And>slot. slot_typed slot \<Longrightarrow> slot_typed (f slot)"
  shows "safe ok (upd_slot index f)"
  unfolding safe_def
proof (intro allI impI)
  fix s :: "'a mb_state" assume s: "slots_typed s"
  then have "slots_typed (s\<lparr>measurement_slot := (measurement_slot s)[unat index := f (measurement_slot s ! unat index)]\<rparr>)"
    using assms slots_typed_at [of s "unat index"] by (auto simp: slots_typed_def dest!: set_update_subset_insert [THEN subsetD])
  then show "wp (upd_slot index f) (\<lambda>_ s'. slots_typed s') (\<lambda>e s'. ok e \<and> slots_typed s') s" by (simp add: upd_slot_def)
qed

section \<open>Extending a slot\<close>

text \<open>What the operations rely on of the crypto service: a hash has at most the length of its buffer.\<close>

definition hash_fits :: "'q mb_env \<Rightarrow> bool" where
  "hash_fits env \<longleftrightarrow> MEASUREMENT_VALUE_SIZE env \<le> 64 \<and>
     (\<forall>x q. case fst (psa_hash_compute env (TFM_MEASURED_BOOT_HASH_ALG env) x (MEASUREMENT_VALUE_SIZE env) q) of
        Inl e \<Rightarrow> defined e | Inr h \<Rightarrow> length h \<le> unat (MEASUREMENT_VALUE_SIZE env))"

lemma safe_hash:
  assumes env: "hash_fits env" and f: "\<And>h. length h \<le> 64 \<Longrightarrow> safe defined (f h)"
  shows "safe defined (bindE (extend_measurement_value env index val n) f)"
  unfolding safe_def
proof (intro allI impI)
  fix s :: "'a mb_state" assume s: "slots_typed s"
  let ?x = "get_stored_measurement_value env index s @ take (unat n) val"
  obtain r q where r: "psa_hash_compute env (TFM_MEASURED_BOOT_HASH_ALG env) ?x (MEASUREMENT_VALUE_SIZE env) (mb_framework s) = (r, q)" by force
  have "case r of Inl e \<Rightarrow> defined e | Inr h \<Rightarrow> length h \<le> unat (MEASUREMENT_VALUE_SIZE env)" "unat (MEASUREMENT_VALUE_SIZE env) \<le> 64"
    using env r unfolding hash_fits_def by (metis fst_conv, simp add: word_le_nat_alt)
  then have h: "r = Inr h \<Longrightarrow> length h \<le> 64" "r = Inl e \<Longrightarrow> defined e" for h e by auto
  have "extend_measurement_value env index val n s = (r, s\<lparr>mb_framework := q\<rparr>)"
    by (simp add: extend_measurement_value_def withS_def on_framework_def r)
  then show "wp (bindE (extend_measurement_value env index val n) f) (\<lambda>_ s'. slots_typed s') (\<lambda>e s'. defined e \<and> slots_typed s') s"
    using s h f unfolding wp_bindE by (cases r) (auto simp: wp_def [of "extend_measurement_value env index val n"] safe_def)
qed

text \<open>The sizes of the arguments of an extension.\<close>

definition arguments_typed :: "u8 \<Rightarrow> buf \<Rightarrow> u32 \<Rightarrow> buf \<Rightarrow> u8 \<Rightarrow> buf \<Rightarrow> u8 \<Rightarrow> buf \<Rightarrow> u32 \<Rightarrow> bool" where
  "arguments_typed index signer sn version vn sw_type tn val mn \<longleftrightarrow> unat index < 32 \<and> length signer = 64 \<and> unat sn \<le> 64 \<and>
     length version = 14 \<and> unat vn \<le> 14 \<and> length sw_type = 20 \<and> unat tn \<le> 20 \<and> length val = 64 \<and> unat mn \<le> 64"

lemma safe_slot_updates:
  assumes "arguments_typed index signer sn version vn sw_type tn val mn"
  shows "safe ok (update_metadata index signer sn version (ucast vn) algo sw_type (ucast tn))" "safe ok (extend_metadata index)"
    "safe ok (mark_slot_as_occupied index)" "safe ok (lock_measurement_slot index)" "length h \<le> 64 \<Longrightarrow> safe ok (store_measurement_value index h)"
  unfolding update_metadata_def extend_metadata_def mark_slot_as_occupied_def lock_measurement_slot_def store_measurement_value_def
  using assms by (auto simp: arguments_typed_def slot_typed_def Let_def mb_sizes unat_of_nat intro!: safe_upd_slot)

lemma safe_extend:
  assumes env: "hash_fits env" and args: "arguments_typed index signer sn version vn sw_type tn val mn"
  shows "safe defined (measured_boot_extend_measurement env index signer sn version vn algo sw_type tn val mn lock)"
  unfolding measured_boot_extend_measurement_def Let_def
proof (rule safe_withS, goal_cases)
  case (1 s)
  let ?extend = "bindE (if is_populated (measurement_slot s ! unat index) then extend_metadata index
       else bindE (update_metadata index signer sn version (ucast vn) algo sw_type (ucast tn)) (\<lambda>_. mark_slot_as_occupied index)) (\<lambda>_.
     bindE (extend_measurement_value env index val mn) (\<lambda>h. bindE (store_measurement_value index h) (\<lambda>_.
     if lock \<noteq> 0 then lock_measurement_slot index else returnE ())))"
  have "safe defined ?extend"
    by (intro safe_bindE safe_hash [OF env] safe_intros safe_slot_updates [OF args])
  then have run: "wp ?extend (\<lambda>_ s'. slots_typed s') (\<lambda>e s'. defined e \<and> slots_typed s') s" using 1 by (simp only: safe_def)
  have "unat index < 32" using args by (simp add: arguments_typed_def)
  then have d: "extend_defined s index signer sn version vn sw_type tn val mn"
    using args 1 slots_typed_at [OF 1] by (simp add: extend_defined_def arguments_typed_def slots_typed_def slot_typed_def mb_sizes Let_def)
  show ?case using run d 1 by (simp del: wp_bindE)
qed

section \<open>Messages\<close>

lemma safe_read_arg:
  assumes "\<And>bs. length bs = unat k \<Longrightarrow> safe defined (f bs)"
  shows "safe defined (bindE (mb_read_arg api m i k) f)"
  unfolding safe_def
proof (intro allI impI)
  fix s :: "'a mb_state" assume s: "slots_typed s"
  obtain bs q where r: "psa_read api (msg_handle m) i k (mb_framework s) = (bs, q)" by force
  have "mb_read_arg api m i k s = (if length bs \<noteq> unat k then Inl PSA_ERROR_PROGRAMMER_ERROR else Inr bs, s\<lparr>mb_framework := q\<rparr>)"
    by (simp add: mb_read_arg_def sem_defs on_framework_def r)
  then show "wp (bindE (mb_read_arg api m i k) f) (\<lambda>_ s'. slots_typed s') (\<lambda>e s'. defined e \<and> slots_typed s') s"
    using s assms unfolding wp_bindE by (simp add: wp_def [of "mb_read_arg api m i k"] safe_def)
qed

lemma safe_write [safe_intros]: "safe ok (mb_write api m i bs)"
  unfolding mb_write_def by (rule safe_on_framework) simp

lemma safe_read_message: "safe defined (read_measurements api m)"
proof -
  have read: "safe defined (measured_boot_read_measurement i a b c d)" for i a b c d
    unfolding measured_boot_read_measurement_def by (rule safe_withS) (simp add: Let_def)
  show ?thesis
    unfolding read_measurements_def send_measurement_def Let_def
    by (intro safe_bindE [of defined "modifyS _"] safe_read_arg safe_intros) (auto intro!: safe_bindE safe_intros read)
qed

lemma refused_typed:
  assumes "\<not> extend_refused m iov"
  shows "unat (in_size m ! 1) \<le> 64" "unat (in_size m ! 2) \<le> 14" "unat (in_size m ! 3) \<le> 64" "unat (ei_sw_type_size iov) \<le> 20" "unat (ei_index iov) < 32"
  using assms by (auto simp: extend_refused_def Let_def mb_sizes word_less_nat_alt word_le_nat_alt not_less)

lemma safe_extend_message:
  assumes env: "hash_fits env"
  shows "safe defined (extend_measurement env api m)"
proof -
  have "safe defined (extend_from env api m iov)" if ok: "\<not> extend_refused m iov" and l: "length (ei_sw_type iov) = 20" for iov
  proof -
    note sizes = refused_typed [OF ok]
    have vn: "unat (ucast (in_size m ! 2) :: u8) = unat (in_size m ! 2)"
      using sizes(2) by (simp add: unsigned_ucast_eq take_bit_nat_eq_self)
    show ?thesis
      unfolding extend_from_def Let_def
      by (intro safe_read_arg safe_extend [OF env]) (use sizes l vn in \<open>auto simp: arguments_typed_def mb_sizes\<close>)
  qed
  moreover have "length (ei_sw_type (decode_extend bs)) = 20" if "length bs = unat extend_size" for bs
    using that by (simp add: decode_extend_def bslice_def extend_size_def)
  ultimately show ?thesis
    unfolding extend_measurement_def by (intro safe_bindE [of defined "modifyS _"] safe_read_arg safe_intros) auto
qed

definition panics :: "partition_stop \<Rightarrow> bool" where
  "panics e \<longleftrightarrow> e = Partition_Panic"

lemma safe_reply: "safe defined op \<Longrightarrow> safe panics (reply_status api m op)"
  unfolding reply_status_def by (erule safe_tryE) (auto intro!: safe_on_framework)

lemma safe_signal: "hash_fits env \<Longrightarrow> safe panics (measured_boot_signal_handle env api sig)"
  unfolding measured_boot_signal_handle_def
  by (rule safe_tryE [where ok = "\<lambda>_. True"]) (auto intro!: safe_on_framework safe_intros safe_reply safe_read_message safe_extend_message)

lemma safe_loop:
  assumes env: "hash_fits env"
  shows "safe panics (measured_boot_loop n env api wait_any sig)"
proof (induction n)
  case (Suc n)
  then show ?case
    by (auto simp: panics_def [of Partition_Panic] split: prod.splits intro!: safe_bindE safe_on_framework safe_intros safe_signal [OF env])
qed (simp add: safe_intros)

end
