(* ===== verification/Measured_Boot_Props.thy ===== *)
theory Measured_Boot_Props
  imports Measured_Boot_Client Measured_Boot_Typed
begin

text \<open>
  The properties of the measured boot partition, and a simulated crypto service, boot data and client at which
  they are evaluated.
\<close>

section \<open>A simulated system\<close>

definition sim_hash :: "buf \<Rightarrow> buf" where
  "sim_hash x = 1 # take 31 (rev x @ replicate 31 0)"

definition de16 :: "buf \<Rightarrow> u16" where
  "de16 bs = ucast (bs ! 0) OR push_bit 8 (ucast (bs ! 1))"

definition sim_format :: boot_data_format where
  "sim_format = \<lparr>tlv_magic = de16, tlv_tot_len = (\<lambda>bs. de16 (drop 2 bs)), SHARED_DATA_TLV_INFO_MAGIC = 0x2016,
     shared_data_tlv_header_size = 4, SHARED_DATA_ENTRY_HEADER_SIZE = 4, tlv_type = de16, tlv_len = (\<lambda>bs. de16 (drop 2 bs)),
     GET_MBS_CLAIM = (\<lambda>t. ucast (t AND 0x3F)), GET_MBS_SLOT = (\<lambda>t. ucast (drop_bit 6 t)),
     SW_MEASURE_METADATA = 9, SW_MEASURE_VALUE = 8, SW_MEASURE_VALUE_NON_EXTENDABLE = 10,
     boot_measurement_metadata_size = 104,
     metadata_at = (\<lambda>bs. \<lparr>bm_measurement_type = de32 bs, bm_signer_id = padded 64 (bslice 4 64 bs), bm_signer_id_size = de32 (drop 68 bs),
       bm_sw_type = bslice 72 20 bs, bm_sw_version = bslice 92 12 bs\<rparr>)\<rparr>"

definition sim_boot_data :: buf where
  "sim_boot_data = [0x16, 0x20, 148, 0] @ [9, 0, 104, 0] @ le32 0x02000009 @ replicate 64 7 @ le32 32 @ padded 20 [66, 76, 50] @
     padded 12 [49, 46, 48] @ [8, 0, 32, 0] @ replicate 32 5"

definition sim_mb_env :: "sim_psa mb_env" where
  "sim_mb_env = \<lparr>TFM_MEASURED_BOOT_HASH_ALG = 0x02000009, MEASUREMENT_VALUE_SIZE = 32,
     psa_hash_compute = (\<lambda>_ x _ q. (Inr (sim_hash x), q)), tfm_core_get_boot_data = (\<lambda>_ q. (Inr sim_boot_data, q)),
     boot_format = sim_format, boot_measurements_size = 800\<rparr>"

text \<open>The message that a call becomes, and its vectors.\<close>

definition sim_message :: "int \<Rightarrow> buf list \<Rightarrow> u32 list \<Rightarrow> psa_msg_t" where
  "sim_message type ins outs = \<lparr>msg_type = type, msg_handle = 1, msg_client_id = 1, in_size = map (\<lambda>x. of_nat (length x)) ins, out_size = outs\<rparr>"

definition sim_vectors :: "buf list \<Rightarrow> u32 list \<Rightarrow> sim_psa" where
  "sim_vectors ins outs = \<lparr>sq_pending = [], sq_in = (\<lambda>i. if i < length ins then ins ! i else []), sq_out = (\<lambda>_. []),
     sq_room = (\<lambda>i. if i < length outs then unat (outs ! i) else 0), sq_replies = []\<rparr>"

definition sim_mb_client :: "sim_psa mb_state psa_client" where
  "sim_mb_client = \<lparr>psa_connect = (\<lambda>_ _ s. (1, s)),
     psa_call = (\<lambda>h type ins outs s. case served sim_mb_env sim_api type (sim_message type ins outs) (s\<lparr>mb_framework := sim_vectors ins outs\<rparr>) of
       (r, s') \<Rightarrow> ((status_code r, map (sq_out (mb_framework s')) [0..<length outs]), s')),
     psa_close = (\<lambda>_ s. s)\<rparr>"

lemma sim_delivers: "(\<forall>x\<in>set ins. length x < 4294967296) \<Longrightarrow>
   delivers sq_in sq_out sq_room type ins outs (sim_message type ins outs) (sim_vectors ins outs)"
  by (simp add: delivers_def sim_message_def sim_vectors_def unat_of_nat_u32)

interpretation simmb: measured_boot_link sim_api sq_in sq_out sq_room sim_mb_env sim_hash True sim_mb_client 1
proof unfold_locales
  show "length (sim_hash x) = unat (MEASUREMENT_VALUE_SIZE sim_mb_env)" for x
    by (simp add: sim_hash_def sim_mb_env_def)
  show "length (bm_signer_id (metadata_at (boot_format sim_mb_env) bs)) = 64" for bs
    by (simp add: sim_mb_env_def sim_format_def bslice_def)
  show "\<exists>m q r. delivers sq_in sq_out sq_room type ins outs m q \<and> served sim_mb_env sim_api type m (s\<lparr>mb_framework := q\<rparr>) = (r, s') \<and>
      status = status_code r \<and> (\<forall>i<length outs. res ! i = sq_out (mb_framework s') i)"
    if "psa_call sim_mb_client 1 type ins outs s = ((status, res), s')" and "\<forall>x\<in>set ins. length x < 4294967296" for type ins outs s status res s'
    using that sim_delivers [OF that(2), of type outs] by (fastforce simp: sim_mb_client_def split: prod.splits)
qed (simp_all add: sim_mb_env_def)

text \<open>The record of the boot data.\<close>

definition sim_record :: mb_extension where
  "sim_record = \<lparr>x_signer = replicate 64 7, x_signer_size = 32, x_version = [49, 46, 48], x_algo = 0x02000009, x_type = [66, 76, 50],
     x_value = replicate 32 5, x_lock = False, x_done = True\<rparr>"

lemma sim_boot_step: "boot_step sim_format sim_boot_data 4 = Some (0, sim_record, 148)"
  by code_simp

lemma sim_env [simp]: "boot_format sim_mb_env = sim_format" "MEASUREMENT_VALUE_SIZE sim_mb_env = 32"
  by (simp_all add: sim_mb_env_def)

lemma sim_boot_log: "simmb.boot_log sim_boot_data = Some [(0, sim_record)]"
proof -
  have "tlv_magic sim_format sim_boot_data = SHARED_DATA_TLV_INFO_MAGIC sim_format" "unat (tlv_tot_len sim_format sim_boot_data) = 148"
    "shared_data_tlv_header_size sim_format = 4" by code_simp+
  then show ?thesis
    by (simp add: simmb.boot_log_def Let_def sim_boot_step
        boot_records.simps [of sim_format sim_boot_data 4] boot_records.simps [of sim_format sim_boot_data 148])
qed

text \<open>The memory before the start, the partition after it, and after one message.\<close>

definition sim_mb0 :: "sim_psa mb_state" where
  "sim_mb0 = \<lparr>measurement_slot = replicate 32 (slot_of sim_hash 32 []), boot_measurements = [], g_measured_boot_caller_id = 0,
     mb_framework = sim_vectors [] []\<rparr>"

definition sim_mb1 :: "sim_psa mb_state" where
  "sim_mb1 = snd (tfm_measured_boot_init 0 sim_mb_env True sim_api 1 1 sim_mb0)"

lemma sim_zeroed: "zeroed sim_mb0"
  by (simp add: zeroed_def sim_mb0_def slot_of_def log_value_def)

definition sim_logs :: mb_logs where
  "sim_logs = (\<lambda>_. [])(0 := [sim_record])"

lemma sim_boot: "simmb.boot_data True sim_mb0 = Some sim_boot_data" "simmb.boot_logs True sim_boot_data = Some sim_logs"
  by (simp_all add: simmb.boot_data_def simmb.boot_logs_def sim_boot_log add_record_def admits_def sim_logs_def)
    (simp add: sim_mb_env_def)

lemma sim_booted: "tfm_measured_boot_init 0 sim_mb_env True sim_api 1 1 sim_mb0 = (Inr (), sim_mb1)" "slots_have sim_hash 32 sim_logs sim_mb1"
  using simmb.init_wp [OF sim_zeroed, of True 1 1] by (auto simp: wp_def sim_mb1_def sim_boot split: prod.splits sum.splits)

lemma sim_run_boot: "mb_run sim_mb_env sim_api sq_in sq_out sq_room True sim_mb0 [] sim_mb1"
  by (rule mb_run.Boot [OF sim_zeroed sim_booted(1)])

definition sim_iov :: measured_boot_extend_iovec_t where
  "sim_iov = \<lparr>ei_index = 3, ei_lock_measurement = 1, ei_measurement_algo = 1, ei_sw_type = replicate 20 0, ei_sw_type_size = 0\<rparr>"

definition sim_request :: mb_request where
  "sim_request = Mb_Extend sim_iov (replicate 32 9) [] (replicate 32 8)"

text \<open>The partition after an extension of slot 3 that locks it.\<close>

definition sim_handled :: "mb_request \<Rightarrow> int \<Rightarrow> buf list \<Rightarrow> u32 list \<Rightarrow> sim_psa mb_state \<Rightarrow> (psa_error + unit) \<times> sim_psa mb_state" where
  "sim_handled req type ins outs s = mb_handler sim_mb_env sim_api req (sim_message type ins outs) (s\<lparr>mb_framework := sim_vectors ins outs\<rparr>)"

definition sim_sent :: "buf list" where
  "sim_sent = [encode_extend sim_iov, replicate 32 9, [], replicate 32 8]"

definition sim_mb2 :: "sim_psa mb_state" where
  "sim_mb2 = snd (sim_handled sim_request 1002 sim_sent [] sim_mb1)"

lemma sim_carries: "mb_carries sq_in sq_out sq_room sim_request (sim_message 1002 sim_sent []) (sim_vectors sim_sent [])"
  by (simp add: sim_request_def sim_sent_def sim_iov_def sim_message_def sim_vectors_def extend_size_def)

lemma sim_extended:
  "sim_handled sim_request 1002 sim_sent [] sim_mb1 = (Inr (), sim_mb2)"
  "slots_have sim_hash 32 (mb_effect sim_request (Inr ()) sim_logs) sim_mb2"
proof -
  obtain r s' where h: "sim_handled sim_request 1002 sim_sent [] sim_mb1 = (r, s')" by force
  have ok: "mb_right True sim_hash 32 sim_logs sim_request r (sq_out (mb_framework s')) \<and> slots_have sim_hash 32 (mb_effect sim_request r sim_logs) s'"
    using simmb.handled [OF _ sim_carries h [unfolded sim_handled_def]] sim_booted(2) by simp
  then have "r = Inr ()"
    by (simp add: sim_request_def sim_iov_def valid_extension_def admits_def sim_logs_def)
  with h ok show "sim_handled sim_request 1002 sim_sent [] sim_mb1 = (Inr (), sim_mb2)"
    "slots_have sim_hash 32 (mb_effect sim_request (Inr ()) sim_logs) sim_mb2" by (simp_all add: sim_mb2_def)
qed

lemma sim_run_extended: "mb_run sim_mb_env sim_api sq_in sq_out sq_room True sim_mb0 [(sim_request, Inr (), sq_out (mb_framework sim_mb2))] sim_mb2"
  using mb_run.Message [OF sim_run_boot sim_carries sim_extended(1) [unfolded sim_handled_def]] by simp

section \<open>Properties\<close>

lemma sim_store: "measured_boot_store sim_api sq_in sq_out sq_room sim_mb_env sim_hash True"
  by (rule simmb.measured_boot_store_axioms)

lemma sim_link: "measured_boot_link sim_api sq_in sq_out sq_room sim_mb_env sim_hash True sim_mb_client 1"
  by (rule simmb.measured_boot_link_axioms)

text \<open>
  C26. The measured boot partition implements its logs: over every run from the start, with messages of any
  clients in any order and whatever the crypto service does, every status and everything that is sent is what the
  logs of the slots say, and every slot holds the metadata of its first extension, the chain of hashes over its
  log and the lock.
\<close>

theorem measured_boot_runs_right:
  assumes sys: "measured_boot_store api invec outvec room env H rel"
    and run: "mb_run env api invec outvec room store s0 evs s"
  shows "\<exists>data logs. measured_boot_store.boot_data env store s0 = Some data \<and> measured_boot_store.boot_logs env store data = Some logs \<and>
    mb_history_right rel H (unat (MEASUREMENT_VALUE_SIZE env)) logs evs \<and>
    slots_have H (unat (MEASUREMENT_VALUE_SIZE env)) (mb_logs_after logs evs) s"
  by (rule measured_boot_store.run_right [OF sys run])

theorem measured_boot_runs_right_witness:
  "slots_have sim_hash 32 (mb_logs_after sim_logs [(sim_request, Inr (), sq_out (mb_framework sim_mb2))]) sim_mb2"
  using measured_boot_runs_right [OF sim_store sim_run_extended] by (auto simp: sim_boot)

text \<open>
  C27. A locked slot is final: once a slot is locked, nothing that happens before the next start changes anything
  of it.
\<close>

theorem locked_slot_final:
  assumes sys: "measured_boot_store api invec outvec room env H rel"
    and before: "mb_run env api invec outvec room store s0 evs s" and after: "mb_run env api invec outvec room store s0 (evs @ evs') s'"
    and i: "i < 32" and lock: "is_locked (measurement_slot s ! i)"
  shows "measurement_slot s' ! i = measurement_slot s ! i"
proof -
  obtain logs where s: "slots_have H (unat (MEASUREMENT_VALUE_SIZE env)) (mb_logs_after logs evs) s"
    and s': "slots_have H (unat (MEASUREMENT_VALUE_SIZE env)) (mb_logs_after logs (evs @ evs')) s'"
    using measured_boot_store.run_right [OF sys before] measured_boot_store.run_right [OF sys after] by auto
  have "locked (mb_logs_after logs evs i)" using lock slot_at [OF s i] by (simp add: slot_of_def)
  then show ?thesis
    using slot_at [OF s i] slot_at [OF s' i] logs_locked [of "mb_logs_after logs evs" i evs'] by (simp add: mb_logs_after_append)
qed

lemma sim_locked: "is_locked (measurement_slot sim_mb2 ! 3)"
  using slot_at [OF sim_extended(2), of 3]
  by (simp add: slot_of_def locked_def sim_request_def accepts_def sim_iov_def valid_extension_def admits_def sim_logs_def extension_of_def)

definition sim_mb3 :: "(psa_error + unit) \<times> sim_psa mb_state" where
  "sim_mb3 = sim_handled sim_request 1002 sim_sent [] sim_mb2"

lemma sim_run_twice: "mb_run sim_mb_env sim_api sq_in sq_out sq_room True sim_mb0
   ([(sim_request, Inr (), sq_out (mb_framework sim_mb2))] @ [(sim_request, fst sim_mb3, sq_out (mb_framework (snd sim_mb3)))]) (snd sim_mb3)"
  by (rule mb_run.Message [OF sim_run_extended sim_carries]) (simp add: sim_mb3_def sim_handled_def)

theorem locked_slot_final_witness:
  "measurement_slot (snd sim_mb3) ! 3 = measurement_slot sim_mb2 ! 3"
  by (rule locked_slot_final [OF sim_store sim_run_extended sim_run_twice _ sim_locked]) simp

definition hash_broken :: "(buf \<Rightarrow> buf) \<Rightarrow> nat \<Rightarrow> buf list \<Rightarrow> bool" where
  "hash_broken H n xs \<longleftrightarrow> (\<exists>x\<in>set xs. H x = replicate n 0) \<or> (\<exists>x\<in>set xs. \<exists>y\<in>set xs. x \<noteq> y \<and> H x = H y)"

lemma hash_bound:
  assumes "\<And>x. length (H x) = n" and "n \<le> 64" and "padded 64 (hash_chain H n xs) = padded 64 (hash_chain H n ys)"
  shows "xs = ys \<or> hash_broken H n (hash_inputs H (replicate n 0) xs @ hash_inputs H (replicate n 0) ys)"
proof -
  have "hash_chain H n xs = hash_chain H n ys"
    using arg_cong [OF assms(3), of "take n"] length_hash_chain [of H n, OF assms(1)] take_padded by metis
  then show ?thesis
    using hash_chain_binding [of H n xs ys, OF assms(1)] by (auto simp: hash_broken_def inj_on_def)
qed



definition lock_last :: "mb_extension list \<Rightarrow> bool" where
  "lock_last log \<longleftrightarrow> (\<forall>k<length log. x_done (log ! k) \<and> x_lock (log ! k) \<longrightarrow> Suc k = length log)"

lemma effect_lock_last: "lock_last (logs i) \<Longrightarrow> lock_last (mb_effect req r logs i)"
proof (cases req)
  case (Mb_Extend iov signer version val)
  assume "lock_last (logs i)"
  then show ?thesis
    by (auto simp: Mb_Extend lock_last_def accepts_def locked_def nth_append all_set_conv_all_nth less_Suc_eq)
qed simp

lemma record_invariant:
  assumes "records_accepted logs rs" and "one_signer (logs i)" "lock_last (logs i)"
  shows "one_signer (fold add_record rs logs i) \<and> lock_last (fold add_record rs logs i)"
  using assms
proof (induction rs arbitrary: logs)
  case (Cons rec rs)
  obtain j x where rec: "rec = (j, x)" by force
  have "one_signer (add_record rec logs i)" "lock_last (add_record rec logs i)"
    using Cons.prems
    by (cases "logs i"; auto simp: rec add_record_def admits_def one_signer_def same_signer_def lock_last_def locked_def nth_append less_Suc_eq;
        metis nth_mem nth_Cons_0 nth_Cons_Suc set_ConsD length_Cons list.set_intros)+
  then show ?case using Cons by simp
qed simp



text \<open>
  C30. The partition starts exactly when it should: without the build option always; with it when the boot data is
  there, is a well-formed non-empty sequence of records, and every record is accepted by its slot after the ones
  before it (and, for starting, as long as the crypto service does not fail). It then holds the measurements of the
  boot stages.
\<close>

theorem measured_boot_starts:
  assumes sys: "measured_boot_store api invec outvec room env H rel" and zero: "zeroed s"
  shows "wp (tfm_measured_boot_init 0 env store api wait_any mb_signal)
    (\<lambda>_ s'. \<exists>data logs. measured_boot_store.boot_data env store s = Some data \<and> measured_boot_store.boot_logs env store data = Some logs \<and>
       slots_have H (unat (MEASUREMENT_VALUE_SIZE env)) logs s')
    (\<lambda>e s'. \<forall>data logs. measured_boot_store.boot_data env store s = Some data \<longrightarrow>
       measured_boot_store.boot_logs env store data = Some logs \<longrightarrow> \<not> rel) s"
  by (rule measured_boot_store.init_wp [OF sys zero])

theorem measured_boot_starts_witness:
  "wp (tfm_measured_boot_init 0 sim_mb_env True sim_api 1 1)
    (\<lambda>_ s'. slots_have sim_hash 32 ((\<lambda>_. [])(0 := [sim_record])) s') (\<lambda>_ _. False) sim_mb0"
  by (rule wp_mono [OF measured_boot_starts [OF sim_store sim_zeroed]]) (auto simp: sim_boot sim_logs_def)

text \<open>
  C31. A client reads what the log says: through the client function, the framework and the partition a read delivers
  the signer, version, type, value and lock of the slot exactly when the slot is populated and the buffers of
  the caller, whose sizes for the version and the type are taken modulo 256, are large enough; and it changes no slot.
\<close>

theorem client_reads_log:
  assumes sys: "measured_boot_link api invec outvec room env H rel client handle"
    and s: "slots_have H (unat (MEASUREMENT_VALUE_SIZE env)) logs s"
    and call: "tfm_measured_boot_read_measurement client handle index sn vn tn mn s = (r, s')"
  shows "slots_have H (unat (MEASUREMENT_VALUE_SIZE env)) logs s' \<and>
    (if index < 32 \<and> logs (unat index) \<noteq> [] \<and>
        buffers_fit (unat (MEASUREMENT_VALUE_SIZE env)) (logs (unat index)) sn (ucast (ucast vn :: u8)) (ucast (ucast tn :: u8)) mn
     then r = Inr (view_of H (unat (MEASUREMENT_VALUE_SIZE env)) (logs (unat index))) else (\<exists>e. r = Inl e))"
  by (rule measured_boot_link.client_read [OF sys s call])

theorem client_reads_log_witness:
  "fst (tfm_measured_boot_read_measurement sim_mb_client 1 0 64 14 20 64 sim_mb1) = Inr (view_of sim_hash 32 [sim_record])"
proof -
  obtain r s' where c: "tfm_measured_boot_read_measurement sim_mb_client 1 0 64 14 20 64 sim_mb1 = (r, s')" by force
  have "slots_have sim_hash (unat (MEASUREMENT_VALUE_SIZE sim_mb_env)) sim_logs sim_mb1" using sim_booted(2) by simp
  from client_reads_log [OF sim_link this c] show ?thesis
    unfolding c by (simp add: sim_logs_def buffers_fit_def sim_record_def measured_def split: if_splits)
qed

text \<open>
  C32. A client extends the slot it names: through the client function, the framework and the partition the status is
  that of the request that carries the arguments of the caller, and the log of the slot grows by exactly this
  extension when the slot accepts it.
\<close>

theorem client_extends_log:
  assumes sys: "measured_boot_link api invec outvec room env H rel client handle"
    and s: "slots_have H (unat (MEASUREMENT_VALUE_SIZE env)) logs s"
    and call: "tfm_measured_boot_extend_measurement client handle index signer version algo sw_type tn val lock s = (status, s')"
    and fits: "\<not> (sw_type \<noteq> None \<and> tn > SW_TYPE_MAX_SIZE)"
    and len: "length signer < 4294967296" "length version < 4294967296" "length val < 4294967296"
  shows "\<exists>r out. status = status_code r \<and>
    mb_right rel H (unat (MEASUREMENT_VALUE_SIZE env)) logs (Mb_Extend (sent_extension index algo sw_type tn lock) signer version val) r out \<and>
    slots_have H (unat (MEASUREMENT_VALUE_SIZE env)) (mb_effect (Mb_Extend (sent_extension index algo sw_type tn lock) signer version val) r logs) s'"
  by (rule measured_boot_link.client_extend [OF sys s call fits len])

theorem client_extends_log_witness:
  "fst (tfm_measured_boot_extend_measurement sim_mb_client 1 5 (replicate 32 1) [] 1 None 0 (replicate 32 2) False sim_mb1) = 0"
proof -
  obtain r s' where c: "tfm_measured_boot_extend_measurement sim_mb_client 1 5 (replicate 32 1) [] 1 None 0 (replicate 32 2) False sim_mb1 = (r, s')"
    by force
  have "slots_have sim_hash (unat (MEASUREMENT_VALUE_SIZE sim_mb_env)) sim_logs sim_mb1" using sim_booted(2) by simp
  from client_extends_log [OF sim_link this c] show ?thesis
    unfolding c by (auto simp: sim_logs_def valid_extension_def sent_extension_def admits_def status_code_def locked_def)
qed



end
