(* ===== verification/Delegated_Attest_Props.thy ===== *)
theory Delegated_Attest_Props
  imports Delegated_Attest_History Measured_Boot_Props
begin

text \<open>
  The properties of the delegated attestation partition, and a simulated crypto service, attestation service and
  CBOR encoder at which they are evaluated, on top of the simulated measured boot partition.
\<close>

section \<open>A simulated system\<close>

text \<open>The measured boot partition, the framework, and the key of the partition, which has the identifier 1.\<close>

record da_sim =
  ds_boot :: "sim_psa mb_state"
  ds_psa :: sim_psa
  ds_key :: "dak option"

definition sim_da_client :: "da_sim psa_client" where
  "sim_da_client = \<lparr>psa_connect = (\<lambda>_ _ w. (1, w)),
     psa_call = (\<lambda>h type ins outs w. case psa_call sim_mb_client h type ins outs (ds_boot w) of (x, b) \<Rightarrow> (x, w\<lparr>ds_boot := b\<rparr>)),
     psa_close = (\<lambda>_ w. w)\<rparr>"

definition sim_da_api :: "da_sim psa_api" where
  "sim_da_api = \<lparr>psa_wait = (\<lambda>x w. case psa_wait sim_api x (ds_psa w) of (r, q) \<Rightarrow> (r, w\<lparr>ds_psa := q\<rparr>)),
     psa_get = (\<lambda>x w. case psa_get sim_api x (ds_psa w) of (r, q) \<Rightarrow> (r, w\<lparr>ds_psa := q\<rparr>)),
     psa_reply = (\<lambda>h r w. w\<lparr>ds_psa := psa_reply sim_api h r (ds_psa w)\<rparr>),
     psa_read = (\<lambda>h i k w. case psa_read sim_api h i k (ds_psa w) of (bs, q) \<Rightarrow> (bs, w\<lparr>ds_psa := q\<rparr>)),
     psa_write = (\<lambda>h i bs w. w\<lparr>ds_psa := psa_write sim_api h i bs (ds_psa w)\<rparr>)\<rparr>"

text \<open>The context of the encoder: the size of the buffer, and the bytes.\<close>

definition sim_cbor :: "(u32 \<times> buf) qcbor" where
  "sim_cbor = \<lparr>QCBOREncode_Init = (\<lambda>k. (k, [])), QCBOREncode_OpenArray = (\<lambda>(k, bs). (k, bs @ [0x9F])),
     QCBOREncode_CloseArray = (\<lambda>(k, bs). (k, bs @ [0xFF])), QCBOREncode_OpenMap = (\<lambda>(k, bs). (k, bs @ [0xBF])),
     QCBOREncode_CloseMap = (\<lambda>(k, bs). (k, bs @ [0xFF])),
     QCBOREncode_AddBytesToMapN = (\<lambda>l x (k, bs). (k, bs @ [of_int l, 0x58, of_nat (length x)] @ x)),
     QCBOREncode_AddTextToMapN = (\<lambda>l x (k, bs). (k, bs @ [of_int l, 0x78, of_nat (length x)] @ x)),
     QCBOREncode_Finish = (\<lambda>(k, bs). if length bs \<le> unat k then Inr bs else Inl QCBOR_ERR_BUFFER_TOO_SMALL)\<rparr>"

definition sim_hash_length :: "u32 \<Rightarrow> u32" where
  "sim_hash_length alg = (if alg = 0x02000009 then 32 else if alg = 0x0200000A then 48 else if alg = 0x0200000B then 64 else 0)"

definition sim_hash_of :: "u32 \<Rightarrow> buf \<Rightarrow> buf" where
  "sim_hash_of alg x = padded (unat (sim_hash_length alg)) (take (unat (sim_hash_length alg)) x)"

definition sim_priv :: "dak \<Rightarrow> buf" where
  "sim_priv d = padded 32 (take 32 (case km_info (snd d) of None \<Rightarrow> [] | Some bs \<Rightarrow> drop 8 bs))"

definition sim_pub :: "dak \<Rightarrow> buf" where
  "sim_pub d = 4 # map NOT (sim_priv d)"

definition sim_da_env :: "(da_sim, unit, kd_material, u32 \<times> buf) da_env" where
  "sim_da_env = \<lparr>
     psa_hash_setup = (\<lambda>alg w. (if sim_hash_length alg \<noteq> 0 then Inr () else Inl PSA_ERROR_NOT_SUPPORTED, (), w)),
     psa_hash_abort = (\<lambda>_ w. (Inr (), w)),
     psa_hash_compare = (\<lambda>alg x y w. (if sim_hash_of alg x = y then Inr () else Inl PSA_ERROR_INVALID_SIGNATURE, w)),
     psa_export_public_key = (\<lambda>k m w. (case ds_key w of Some d \<Rightarrow> if k = 1 then Inr (sim_pub d) else Inl PSA_ERROR_INVALID_HANDLE
        | None \<Rightarrow> Inl PSA_ERROR_INVALID_HANDLE, w)),
     psa_export_key = (\<lambda>k m w. (case ds_key w of
          Some d \<Rightarrow> if k \<noteq> 1 then Inl PSA_ERROR_INVALID_HANDLE else if 32 \<le> unat m then Inr (sim_priv d) else Inl PSA_ERROR_BUFFER_TOO_SMALL
        | None \<Rightarrow> Inl PSA_ERROR_INVALID_HANDLE, w)),
     psa_destroy_key = (\<lambda>k w. (Inr (), if k = 1 then w\<lparr>ds_key := None\<rparr> else w)),
     psa_key_derivation_setup = (\<lambda>alg w. (Inr (), \<lparr>km_alg = alg, km_secret = None, km_info = None\<rparr>, w)),
     psa_key_derivation_input_key = (\<lambda>op step k w. (Inr (), op\<lparr>km_secret := Some k\<rparr>, w)),
     psa_key_derivation_input_bytes = (\<lambda>op step bs w. (Inr (), op\<lparr>km_info := Some bs\<rparr>, w)),
     psa_key_derivation_output_key = (\<lambda>att op w. if ds_key w = None then (Inr (), 1, op, w\<lparr>ds_key := Some (att, op)\<rparr>)
        else (Inl PSA_ERROR_INSUFFICIENT_MEMORY, 0, op, w)),
     psa_key_derivation_abort = (\<lambda>_ w. (Inr (), w)),
     psa_initial_attest_get_token = (\<lambda>x m w. (if length x < unat m then Inr (0xD2 # x) else Inl PSA_ERROR_BUFFER_TOO_SMALL, w)),
     measured_boot_client = sim_da_client, TFM_MEASURED_BOOT_HANDLE = 1, cbor = sim_cbor, PSA_ALG_NONE = 0,
     PSA_ALG_SHA_256 = 0x02000009, PSA_ALG_SHA_384 = 0x0200000A, PSA_ALG_SHA_512 = 0x0200000B,
     PSA_ALG_HKDF = (\<lambda>alg. 0x08000100 OR (alg AND 0xFF)), PSA_HASH_LENGTH = sim_hash_length, PSA_ECC_FAMILY_SECP_R1 = 0x12,
     PSA_KEY_USAGE_EXPORT = 1, PSA_KEY_TYPE_ECC_KEY_PAIR = (\<lambda>curve. 0x7100 OR ucast curve),
     PSA_KEY_EXPORT_ECC_PUBLIC_KEY_MAX_SIZE = (\<lambda>b. 2 * ((b + 7) div 8) + 1),
     PSA_KEY_EXPORT_ECC_KEY_PAIR_MAX_SIZE = (\<lambda>b. (b + 7) div 8),
     PSA_KEY_DERIVATION_INPUT_SECRET = 0x0101, PSA_KEY_DERIVATION_INPUT_INFO = 0x0203, TFM_BUILTIN_KEY_ID_DAK_SEED = 0x7FFF815E,
     IAT_SW_COMPONENT_SIGNER_ID = 5, IAT_SW_COMPONENT_VERSION = 4, IAT_SW_COMPONENT_MEASUREMENT_TYPE = 1,
     IAT_SW_COMPONENT_MEASUREMENT_DESC = 6, IAT_SW_COMPONENT_MEASUREMENT_VALUE = 2,
     TFM_ATTEST_BOOT_RECORDS_MAX_SIZE = 0x400, PSA_INITIAL_ATTEST_TOKEN_MAX_SIZE = 0x250\<rparr>"

definition sim_keys :: "da_sim \<Rightarrow> u32 \<Rightarrow> dak option" where
  "sim_keys w k = (if k = 1 then ds_key w else None)"

definition sim_certifies :: "buf \<Rightarrow> buf \<Rightarrow> bool" where
  "sim_certifies t h \<longleftrightarrow> t = 0xD2 # h"

definition sim_has :: "mb_logs \<Rightarrow> da_sim \<Rightarrow> bool" where
  "sim_has logs w \<longleftrightarrow> slots_have sim_hash 32 logs (ds_boot w)"

lemma sim_da_read: "tfm_measured_boot_read_measurement sim_da_client h index sn vn tn mn w =
   (case tfm_measured_boot_read_measurement sim_mb_client h index sn vn tn mn (ds_boot w) of (r, b) \<Rightarrow> (r, w\<lparr>ds_boot := b\<rparr>))"
  by (simp add: tfm_measured_boot_read_measurement_def sim_da_client_def split: prod.splits)

lemmas sim_da_defs = sim_da_env_def da_same_def sim_keys_def sim_has_def

lemma length_sim_priv [simp]: "length (sim_priv d) = 32"
  by (simp add: sim_priv_def)

lemma sim_key_size: "b \<in> {256, 384, 521} \<Longrightarrow> length (sim_priv d) \<le> unat ((b + 7) div 8 :: u32) \<and> (b + 7) div 8 \<le> (521 + 7 :: u32) div 8"
  by auto

interpretation simda: delegated_attest sim_da_env sim_hash 32 sim_has sim_da_api "\<lambda>w. sq_in (ds_psa w)" "\<lambda>w. sq_out (ds_psa w)"
  "\<lambda>w. sq_room (ds_psa w)" sim_keys "\<lambda>w op. op" sim_priv sim_pub sim_hash_of "\<lambda>alg. sim_hash_length alg \<noteq> 0" sim_certifies True
proof (unfold_locales, goal_cases)
  case (1 logs w ext i)
  then show ?case by (auto simp: sim_has_def slots_have_def)
next
  case (2 x)
  then show ?case by (simp add: sim_hash_def)
next
  case (4 logs w index sn vn tn mn r w')
  then obtain b where b: "tfm_measured_boot_read_measurement sim_mb_client 1 index sn vn tn mn (ds_boot w) = (r, b)" "w' = w\<lparr>ds_boot := b\<rparr>"
    by (auto simp: sim_da_env_def sim_da_read split: prod.splits)
  have "slots_have sim_hash (unat (MEASUREMENT_VALUE_SIZE sim_mb_env)) logs (ds_boot w)" using 4 by (simp add: sim_has_def)
  from simmb.client_read [OF this b(1)] show ?case by (simp add: b(2) sim_has_def)
qed (auto simp: sim_da_defs sim_key_size sim_da_read sim_da_api_def sim_api_def sim_certifies_def fun_eq_iff split: prod.splits if_splits option.splits)

lemmas sim_da_system = simda.delegated_attest_axioms

text \<open>The system after the start of measured boot, with the vectors of a message.\<close>

definition sim_da_world :: "buf list \<Rightarrow> u32 list \<Rightarrow> dak option \<Rightarrow> da_sim" where
  "sim_da_world ins outs key = \<lparr>ds_boot = sim_mb1, ds_psa = sim_vectors ins outs, ds_key = key\<rparr>"

definition sim_da0 :: "da_sim da_state" where
  "sim_da0 = \<lparr>dak_key_id = 0, dak_requested = False, dak_pub_hash_algo = 0, da_world = sim_da_world [] [] None\<rparr>"

definition sim_key_request :: da_request where
  "sim_key_request = Da_Key 0x12 256 0x02000009 66"

definition sim_key_ins :: "buf list" where
  "sim_key_ins = [[0x12], le32 256, le32 0x02000009]"

definition sim_da1 :: "(psa_error + unit) \<times> da_sim da_state" where
  "sim_da1 = da_handler sim_da_env sim_da_api sim_key_request (sim_message 1001 sim_key_ins [66])
     (sim_da0\<lparr>da_world := sim_da_world sim_key_ins [66] None\<rparr>)"

definition sim_views :: "measurement_out list" where
  "sim_views = [view_of sim_hash 32 [sim_record]]"

lemma sim_da_views: "boot_views sim_hash 32 sim_logs = sim_views"
  by (simp add: boot_views_def sim_logs_def sim_views_def upt_rec [of _ 32] buffers_fit_def make_boot_buffers_def mb_sizes sim_record_def measured_def)

text \<open>The key that the request derives, and the run of a request for the key and one for the token.\<close>

definition sim_salt :: buf where
  "sim_salt = (case boot_salt sim_da_env sim_views of Inr bs \<Rightarrow> bs | Inl _ \<Rightarrow> [])"

lemma sim_da_salt: "boot_salt sim_da_env sim_views = Inr sim_salt"
  by code_simp

definition sim_dak :: dak where
  "sim_dak = dak_for sim_da_env 0x12 256 sim_salt"

lemma sim_has_logs: "sim_has sim_logs (sim_da_world ins outs key)"
  using sim_booted(2) by (simp add: sim_has_def sim_da_world_def)

lemma sim_key_carries: "da_carries (\<lambda>w. sq_in (ds_psa w)) (\<lambda>w. sq_out (ds_psa w)) (\<lambda>w. sq_room (ds_psa w)) sim_key_request
    (sim_message 1001 sim_key_ins [66]) (sim_da_world sim_key_ins [66] key)"
  by (simp add: sim_key_request_def sim_message_def sim_key_ins_def sim_da_world_def sim_vectors_def)

lemma sim_da_key: "fst sim_da1 = Inr ()" "sq_out (ds_psa (da_world (snd sim_da1))) 0 = sim_priv sim_dak"
  "dak_requested (snd sim_da1)" "dak_pub_hash_algo (snd sim_da1) = 0x02000009"
  "sim_keys (da_world (snd sim_da1)) (dak_key_id (snd sim_da1)) = Some sim_dak" "sim_has sim_logs (da_world (snd sim_da1))"
proof -
  let ?s = "sim_da0\<lparr>da_world := sim_da_world sim_key_ins [66] None\<rparr>"
  obtain r s where rs: "sim_da1 = (r, s)" by force
  have refused: "key_refused sim_da_env 0x12 256 66 = None"
    by (simp add: key_refused_def sim_da_env_def)
  have l: "sim_has sim_logs (da_world ?s)" using sim_has_logs by simp
  have car: "da_carries (\<lambda>w. sq_in (ds_psa w)) (\<lambda>w. sq_out (ds_psa w)) (\<lambda>w. sq_room (ds_psa w)) (Da_Key 0x12 256 0x02000009 66)
      (sim_message 1001 sim_key_ins [66]) (da_world ?s)"
    using sim_key_carries [of None] unfolding sim_key_request_def da_state.select_convs da_state.update_convs sim_da0_def by assumption
  have one: "simda.one_key ?s" by (simp add: simda.one_key_def sim_keys_def sim_da_world_def dom_def)
  have "key_reply sim_da_env sim_priv (True \<and> sim_hash_length 0x02000009 \<noteq> 0) sim_views 0x12 256 66 r (sq_out (ds_psa (da_world s)) 0) \<and>
      simda.key_effect sim_logs 0x12 256 0x02000009 ?s r s"
    using simda.key_handler [OF l one car] rs
    by (cases r) (simp_all add: sim_da1_def sim_key_request_def wp_def sim_da_views)
  then show "fst sim_da1 = Inr ()" "sq_out (ds_psa (da_world (snd sim_da1))) 0 = sim_priv sim_dak"
    "dak_requested (snd sim_da1)" "dak_pub_hash_algo (snd sim_da1) = 0x02000009"
    "sim_keys (da_world (snd sim_da1)) (dak_key_id (snd sim_da1)) = Some sim_dak" "sim_has sim_logs (da_world (snd sim_da1))"
    by (cases r; auto simp: rs key_reply_def refused sim_da_salt sim_hash_length_def sim_dak_def simda.key_effect_def sim_da_views)+
qed

abbreviation sim_da_run :: "da_event list \<Rightarrow> da_sim da_state \<Rightarrow> bool" where
  "sim_da_run \<equiv> da_run sim_da_env sim_da_api (\<lambda>w. sq_in (ds_psa w)) (\<lambda>w. sq_out (ds_psa w)) (\<lambda>w. sq_room (ds_psa w)) sim_keys sim_has"

definition sim_key_event :: da_event where
  "sim_key_event = (sim_logs, sim_key_request, Inr (), sim_priv sim_dak)"

lemma sim_da_run_key: "sim_da_run [sim_key_event] (snd sim_da1)"
proof -
  have start: "sim_da_run [] sim_da0"
    by (rule da_run.Start) (simp_all add: sim_da0_def sim_da_env_def sim_keys_def sim_da_world_def fun_eq_iff)
  have keys: "sim_keys (sim_da_world sim_key_ins [66] None) = sim_keys (da_world sim_da0)"
    by (simp add: fun_eq_iff sim_keys_def sim_da_world_def sim_da0_def)
  have run: "da_handler sim_da_env sim_da_api sim_key_request (sim_message 1001 sim_key_ins [66])
      (sim_da0\<lparr>da_world := sim_da_world sim_key_ins [66] None\<rparr>) = (Inr (), snd sim_da1)"
    using sim_da_key(1) by (simp add: sim_da1_def prod_eq_iff)
  show ?thesis
    using da_run.Request [OF start keys sim_has_logs sim_key_carries run] sim_da_key(2) by (simp add: sim_key_event_def)
qed

definition sim_pub_hash :: buf where
  "sim_pub_hash = sim_hash_of 0x02000009 (sim_pub sim_dak)"

lemma length_sim_pub_hash [simp]: "length sim_pub_hash = 32"
  by (simp add: sim_pub_hash_def sim_hash_of_def sim_hash_length_def sim_pub_def)

definition sim_da2 :: "(psa_error + unit) \<times> da_sim da_state" where
  "sim_da2 = da_handler sim_da_env sim_da_api (Da_Token sim_pub_hash 100) (sim_message 1002 [sim_pub_hash] [100])
     ((snd sim_da1)\<lparr>da_world := (da_world (snd sim_da1))\<lparr>ds_psa := sim_vectors [sim_pub_hash] [100]\<rparr>\<rparr>)"

definition sim_token_event :: da_event where
  "sim_token_event = (sim_logs, Da_Token sim_pub_hash 100, Inr (), 0xD2 # sim_pub_hash)"

lemma sim_da_token: "fst sim_da2 = Inr ()" "sq_out (ds_psa (da_world (snd sim_da2))) 0 = 0xD2 # sim_pub_hash"
proof -
  have k: "ds_key (da_world (snd sim_da1)) = Some sim_dak" "dak_key_id (snd sim_da1) = 1"
    using sim_da_key(5) by (simp_all add: sim_keys_def split: if_splits)
  note e = sem_defs on_world_def sim_da2_def get_platform_attestation_token_def da_read_def token_from_def da_write_def
    delegated_attest_get_platform_token_def verify_dak_pub_hash_def sim_message_def sim_vectors_def sim_da_env_def sim_da_api_def
    sim_api_def sim_hash_length_def
  show "fst sim_da2 = Inr ()" "sq_out (ds_psa (da_world (snd sim_da2))) 0 = 0xD2 # sim_pub_hash"
    using k sim_da_key(3,4) by (simp_all add: e Let_def sim_pub_hash_def [symmetric])
qed

lemma sim_da_run_token: "sim_da_run [sim_key_event, sim_token_event] (snd sim_da2)"
proof -
  let ?w = "(da_world (snd sim_da1))\<lparr>ds_psa := sim_vectors [sim_pub_hash] [100]\<rparr>"
  have "sim_keys ?w = sim_keys (da_world (snd sim_da1))" "sim_has sim_logs ?w"
    using sim_da_key(6) by (simp_all add: fun_eq_iff sim_keys_def sim_has_def)
  moreover have "da_carries (\<lambda>w. sq_in (ds_psa w)) (\<lambda>w. sq_out (ds_psa w)) (\<lambda>w. sq_room (ds_psa w)) (Da_Token sim_pub_hash 100)
      (sim_message 1002 [sim_pub_hash] [100]) ?w"
    by (simp add: sim_message_def sim_vectors_def)
  moreover have "da_handler sim_da_env sim_da_api (Da_Token sim_pub_hash 100) (sim_message 1002 [sim_pub_hash] [100])
      ((snd sim_da1)\<lparr>da_world := ?w\<rparr>) = (Inr (), snd sim_da2)"
    using sim_da_token(1) by (simp add: sim_da2_def prod_eq_iff)
  ultimately show ?thesis
    using da_run.Request [OF sim_da_run_key] sim_da_token(2) by (fastforce simp: sim_token_event_def)
qed

section \<open>Which slots are attested\<close>

text \<open>The lengths of a view do not exceed those of another one.\<close>

definition no_longer :: "measurement_out \<Rightarrow> measurement_out \<Rightarrow> bool" where
  "no_longer v' v \<longleftrightarrow> length (mo_signer_id v') \<le> length (mo_signer_id v) \<and> length (mo_version v') \<le> length (mo_version v) \<and>
     length (mo_sw_type v') \<le> length (mo_sw_type v) \<and> length (mo_measurement_value v') \<le> length (mo_measurement_value v)"

lemma fits_shrunk:
  assumes "\<forall>x\<in>set log. extension_ok x" and n: "\<And>x. length (H x) = n" "n \<le> 64"
    and "no_longer (view_of H n log') (view_of H n log)"
  shows "buffers_fit n log' (signer_id_len (shrink_buffers (view_of H n log))) (sw_version_len (shrink_buffers (view_of H n log)))
     (sw_type_len (shrink_buffers (view_of H n log))) (measurement_len (shrink_buffers (view_of H n log)))"
proof -
  have "length (hash_chain H n ms) = n" for ms using length_hash_chain [of H n, OF n(1)] .
  moreover from this have "hash_chain H n ms = [] \<Longrightarrow> n = 0" for ms by (metis list.size(3))
  ultimately show ?thesis
    using assms(4) log_lengths [OF assms(1)] n(2)
    by (auto simp: buffers_fit_def no_longer_def shrink_buffers_def view_of_def unat_of_nat split: if_splits)
qed

lemma fits_initial:
  assumes "\<forall>x\<in>set log. extension_ok x" and "n \<le> 64"
  shows "buffers_fit n log (signer_id_len make_boot_buffers) (sw_version_len make_boot_buffers) (sw_type_len make_boot_buffers)
    (measurement_len make_boot_buffers)"
  using log_lengths [OF assms(1)] assms(2) by (simp add: buffers_fit_def make_boot_buffers_def mb_sizes)

lemma attested_all:
  assumes n: "\<And>x. length (H x) = n" "n \<le> 64" and "\<forall>log\<in>set ls. \<forall>x\<in>set log. extension_ok x"
    and "\<forall>log\<in>set ls. log \<noteq> [] \<longrightarrow> buffers_fit n log (signer_id_len b) (sw_version_len b) (sw_type_len b) (measurement_len b)"
    and "sorted_wrt (\<lambda>log log'. log \<noteq> [] \<longrightarrow> log' \<noteq> [] \<longrightarrow> no_longer (view_of H n log') (view_of H n log)) ls"
  shows "attested H n b ls = map (view_of H n) (filter (\<lambda>log. log \<noteq> []) ls)"
  using assms(3-)
proof (induction ls arbitrary: b)
  case (Cons log ls)
  show ?case
  proof (cases "log = []")
    case True
    then show ?thesis using Cons by simp
  next
    case False
    have "buffers_fit n log' (signer_id_len (shrink_buffers (view_of H n log))) (sw_version_len (shrink_buffers (view_of H n log)))
        (sw_type_len (shrink_buffers (view_of H n log))) (measurement_len (shrink_buffers (view_of H n log)))"
      if "log' \<in> set ls" "log' \<noteq> []" for log'
      using fits_shrunk [of log H n log'] n Cons.prems that False by auto
    then show ?thesis using Cons False by simp
  qed
qed simp

text \<open>After an attested slot without a version no slot with a version is attested.\<close>

lemma attested_no_version:
  assumes "sw_version_len b = 0" and "log_version log \<noteq> []" "log_version log' \<noteq> []"
  shows "attested H n b (ls @ log # ls') = attested H n b (ls @ log' # ls')"
  using assms(1)
proof (induction ls arbitrary: b)
  case Nil
  then show ?case using assms(2,3) by (auto simp: buffers_fit_def)
next
  case (Cons l ls)
  then show ?case by (auto simp: buffers_fit_def shrink_buffers_def view_of_def)
qed

lemma attested_skip: "\<forall>log\<in>set ls. log = [] \<Longrightarrow> attested H n b (ls @ ls') = attested H n b ls'"
  by (induction ls) auto

lemma hidden_slot:
  assumes "\<forall>k<i. logs k = []" and "logs i \<noteq> []" and "log_version (logs i) = []" and "\<forall>x\<in>set (logs i). extension_ok x" and "n \<le> 64"
    and ij: "i < j" "j < 32" and v: "log_version (logs j) \<noteq> []" "log_version log' \<noteq> []"
  shows "boot_views H n (logs(j := log')) = boot_views H n logs"
proof -
  have u: "[0..<32] = [0..<i] @ i # [Suc i..<j] @ j # [Suc j..<32]"
    using ij upt_add_eq_append [of 0 i "32 - i"] upt_add_eq_append [of "Suc i" j "32 - j"] upt_conv_Cons [of i 32] upt_conv_Cons [of j 32] by simp
  let ?b = "shrink_buffers (view_of H n (logs i))"
  have b: "sw_version_len ?b = 0" using assms(3) by (simp add: shrink_buffers_def view_of_def)
  have w: "boot_views H n f = view_of H n (logs i) # attested H n ?b (map f [Suc i..<j] @ f j # map f [Suc j..<32])"
    if "\<forall>k\<le>i. f k = logs k" for f
  proof -
    have "\<forall>log\<in>set (map f [0..<i]). log = []" using that assms(1) by auto
    then show ?thesis
      unfolding boot_views_def u map_append list.map using that assms(2) fits_initial [OF assms(4,5)] by (simp add: attested_skip)
  qed
  have "map (logs(j := log')) [Suc i..<j] = map logs [Suc i..<j]" "map (logs(j := log')) [Suc j..<32] = map logs [Suc j..<32]" by simp_all
  with ij w [of logs] w [of "logs(j := log')"] attested_no_version [OF b v, of H n] show ?thesis by simp
qed

section \<open>Properties\<close>



text \<open>
  C34. A token is given only for a delegated key: when a request for a token succeeds, an earlier request of the run
  handed out a key for a hash algorithm, and the hash that the token certifies is, with that algorithm, the hash of
  the public part of a key that an earlier request derived from the measurements of that time.
\<close>

theorem token_only_for_delegated_key:
  assumes sys: "delegated_attest env H n has api invec outvec room keys material priv pub hash hash_ok certifies rel"
    and run: "da_run env api invec outvec room keys has (evs @ (logs, Da_Token h sz, Inr (), out) # evs') s"
  shows "certifies out h \<and> (\<exists>logs1 curve1 bits1 algo sz1 out1 logs2 curve2 bits2 algo2 sz2 r2 out2 salt.
     (logs1, Da_Key curve1 bits1 algo sz1, Inr (), out1) \<in> set evs \<and>
     (logs2, Da_Key curve2 bits2 algo2 sz2, r2, out2) \<in> set evs \<and> boot_salt env (boot_views H n logs2) = Inr salt \<and>
     h = hash algo (pub (dak_for env curve2 bits2 salt)))"
proof -
  have "da_right env H n priv pub hash hash_ok certifies rel evs (logs, Da_Token h sz, Inr (), out)"
    using delegated_attest.run_right [OF sys run] unfolding da_history_right_def
    by (auto dest!: spec [of _ "length evs"])
  then obtain d where d: "d \<in> derived_in env H n evs" "hash (snd (requested_in env evs)) (pub d) = h" and c: "certifies out h"
    and r: "fst (requested_in env evs)"
    by (auto simp: token_reply_def split: if_splits)
  obtain logs1 curve1 bits1 sz1 out1 where 1: "(logs1, Da_Key curve1 bits1 (snd (requested_in env evs)) sz1, Inr (), out1) \<in> set evs"
    using requested_event [OF r] by blast
  obtain logs2 curve2 bits2 algo2 sz2 r2 out2 salt where 2: "(logs2, Da_Key curve2 bits2 algo2 sz2, r2, out2) \<in> set evs"
      "boot_salt env (boot_views H n logs2) = Inr salt" "d = dak_for env curve2 bits2 salt"
    using d(1) unfolding derived_in_def by blast
  show ?thesis using 1 2 c d(2) by blast
qed

theorem token_only_for_delegated_key_witness:
  "sim_certifies (0xD2 # sim_pub_hash) sim_pub_hash"
  using token_only_for_delegated_key [OF sim_da_system, of "[sim_key_event]"] sim_da_run_token
  unfolding sim_token_event_def by fastforce

text \<open>
  C38. The partition owns at most one key, the one whose identifier it has stored: over every run no key of the crypto
  service is left behind, also when a derivation, an export or the destruction of a key fails.
\<close>

theorem no_key_left_behind:
  assumes sys: "delegated_attest env H n has api invec outvec room keys material priv pub hash hash_ok certifies rel"
    and run: "da_run env api invec outvec room keys has evs s"
  shows "dom (keys (da_world s)) \<subseteq> {dak_key_id s}"
  using delegated_attest.run_right [OF sys run]
  by (simp add: delegated_attest.da_state_after_def [OF sys] delegated_attest.one_key_def [OF sys])

theorem no_key_left_behind_witness:
  "dom (sim_keys (da_world (snd sim_da2))) \<subseteq> {dak_key_id (snd sim_da2)}"
  by (rule no_key_left_behind [OF sim_da_system sim_da_run_token])

text \<open>
  C37. The key follows the boot state: two requests for a key of the same kind, in any two runs, give the same key when
  the measured boot partition shows the same measurements at both times, whatever happened before and in between:
  the one that is derived from their encoding.
\<close>

theorem same_measurements_same_key:
  assumes sys: "delegated_attest env H n has api invec outvec room keys material priv pub hash hash_ok certifies rel"
    and run: "da_run env api invec outvec room keys has evs s" "da_run env api invec outvec room keys has evs' s'"
    and ev: "(logs, Da_Key curve bits algo sz, Inr (), out) \<in> set evs" "(logs', Da_Key curve bits algo' sz', Inr (), out') \<in> set evs'"
    and same: "boot_views H n logs = boot_views H n logs'"
  shows "\<exists>salt. boot_salt env (boot_views H n logs) = Inr salt \<and> out = priv (dak_for env curve bits salt) \<and> out' = out"
proof -
  have right: "\<exists>salt. boot_salt env (boot_views H n l) = Inr salt \<and> x = priv (dak_for env curve bits salt)"
    if es: "da_run env api invec outvec room keys has es t" and x: "(l, Da_Key curve bits a z, Inr (), x) \<in> set es" for es t l a z x
  proof -
    obtain i where "i < length es" "es ! i = (l, Da_Key curve bits a z, Inr (), x)" using x by (auto simp: in_set_conv_nth)
    moreover have "da_history_right env H n priv pub hash hash_ok certifies rel es"
      using delegated_attest.run_right [OF sys es] by blast
    ultimately have "key_reply env priv (rel \<and> hash_ok a) (boot_views H n l) curve bits z (Inr ()) x"
      unfolding da_history_right_def by force
    then show ?thesis by (auto simp: key_reply_def split: option.splits)
  qed
  show ?thesis using right [OF run(1) ev(1)] right [OF run(2) ev(2)] same by auto
qed

theorem same_measurements_same_key_witness:
  "\<exists>salt. boot_salt sim_da_env (boot_views sim_hash 32 sim_logs) = Inr salt \<and> sim_priv sim_dak = sim_priv (dak_for sim_da_env 0x12 256 salt) \<and>
    sim_priv sim_dak = sim_priv sim_dak"
  by (rule same_measurements_same_key [OF sim_da_system sim_da_run_key sim_da_run_token])
    (auto simp: sim_key_event_def sim_key_request_def)

lemma boot_state_fst:
  assumes "delegated_attest env H n has api invec outvec room keys material priv pub hash hash_ok certifies rel" and "has logs (da_world s)"
  shows "fst (get_platform_boot_state env (TFM_ATTEST_BOOT_RECORDS_MAX_SIZE env) s) = boot_state_of env (boot_views H n logs)"
  using delegated_attest.boot_wp [OF assms] by (auto simp: wp_def split: prod.splits sum.splits)

text \<open>
  C36. The boot state is complete when the metadata do not grow: if no populated slot has a longer signer, version, type
  or value than a populated slot before it, the partition encodes the measurements of exactly the populated
  slots, in their order.
\<close>

theorem boot_state_complete:
  assumes sys: "delegated_attest env H n has api invec outvec room keys material priv pub hash hash_ok certifies rel"
    and logs: "has logs (da_world s)"
    and mono: "\<forall>i j. i < j \<longrightarrow> j < 32 \<longrightarrow> logs i \<noteq> [] \<longrightarrow> logs j \<noteq> [] \<longrightarrow> no_longer (view_of H n (logs j)) (view_of H n (logs i))"
  shows "fst (get_platform_boot_state env (TFM_ATTEST_BOOT_RECORDS_MAX_SIZE env) s) =
    boot_state_of env (map (view_of H n \<circ> logs) (filter (\<lambda>i. logs i \<noteq> []) [0..<32]))"
proof -
  have reader: "boot_reader (measured_boot_client env) (TFM_MEASURED_BOOT_HANDLE env) H n has" using sys by (rule delegated_attest.axioms)
  note h = boot_reader.hash_law [OF reader]
  have ok: "\<forall>x\<in>set (logs i). extension_ok x" if "i < 32" for i using boot_reader.log_law [OF reader logs _ that] by blast
  have "sorted_wrt (\<lambda>log log'. log \<noteq> [] \<longrightarrow> log' \<noteq> [] \<longrightarrow> no_longer (view_of H n log') (view_of H n log)) (map logs [0..<32])"
    using mono by (auto simp: sorted_wrt_iff_nth_less)
  then have "boot_views H n logs = map (view_of H n) (filter (\<lambda>log. log \<noteq> []) (map logs [0..<32]))"
    unfolding boot_views_def by (intro attested_all [OF h]) (use ok fits_initial h(2) in auto)
  also have "\<dots> = map (view_of H n \<circ> logs) (filter (\<lambda>i. logs i \<noteq> []) [0..<32])"
    by (simp add: filter_map comp_def)
  finally show ?thesis
    using boot_state_fst [OF sys logs] by simp
qed

theorem boot_state_complete_witness:
  "fst (get_platform_boot_state sim_da_env (TFM_ATTEST_BOOT_RECORDS_MAX_SIZE sim_da_env) sim_da0) =
    boot_state_of sim_da_env (map (view_of sim_hash 32 \<circ> sim_logs) (filter (\<lambda>i. sim_logs i \<noteq> []) [0..<32]))"
  by (rule boot_state_complete [OF sim_da_system], simp add: sim_da0_def sim_has_logs) (simp add: sim_logs_def)

text \<open>
  C35. A measurement can be hidden: when the first populated slot shows no version (because it was extended twice, say),
  a later slot that shows one is not part of the boot state, so that the boot state, and with it the key, stays the
  same whatever firmware is measured into that slot.
\<close>

theorem slot_hidden_from_boot_state:
  assumes sys: "delegated_attest env H n has api invec outvec room keys material priv pub hash hash_ok certifies rel"
    and logs: "has logs (da_world s)" "has (logs(j := log')) (da_world s')"
    and first: "\<forall>k<i. logs k = []" "logs i \<noteq> []" "log_version (logs i) = []" and ij: "i < j" "j < 32"
    and v: "log_version (logs j) \<noteq> []" "log_version log' \<noteq> []"
  shows "fst (get_platform_boot_state env (TFM_ATTEST_BOOT_RECORDS_MAX_SIZE env) s') =
    fst (get_platform_boot_state env (TFM_ATTEST_BOOT_RECORDS_MAX_SIZE env) s)"
proof -
  have reader: "boot_reader (measured_boot_client env) (TFM_MEASURED_BOOT_HANDLE env) H n has" using sys by (rule delegated_attest.axioms)
  have "\<forall>x\<in>set (logs i). extension_ok x" using boot_reader.log_law [OF reader logs(1)] ij by auto
  then have "boot_views H n (logs(j := log')) = boot_views H n logs"
    by (rule hidden_slot [OF first _ boot_reader.hash_law(2) [OF reader] ij v])
  then show ?thesis
    using boot_state_fst [OF sys logs(1)] boot_state_fst [OF sys logs(2)] by (simp del: fun_upd_apply)
qed

text \<open>Two systems that differ in the firmware of slot 1.\<close>

definition sim_hidden_logs :: "buf \<Rightarrow> mb_logs" where
  "sim_hidden_logs firmware = (\<lambda>_. [])(0 := [sim_record, sim_record], 1 := [sim_record\<lparr>x_value := firmware\<rparr>])"

definition sim_hidden :: "buf \<Rightarrow> da_sim da_state" where
  "sim_hidden firmware = sim_da0\<lparr>da_world := (sim_da_world [] [] None)\<lparr>ds_boot :=
     sim_mb1\<lparr>measurement_slot := map (\<lambda>i. slot_of sim_hash 32 (sim_hidden_logs firmware i)) [0..<32]\<rparr>\<rparr>\<rparr>"

lemma sim_hidden_has: "length firmware = 32 \<Longrightarrow> sim_has (sim_hidden_logs firmware) (da_world (sim_hidden firmware))"
  by (auto simp: sim_has_def slots_have_def sim_hidden_def sim_hidden_logs_def sim_record_def extension_ok_def)

theorem slot_hidden_from_boot_state_witness:
  "fst (get_platform_boot_state sim_da_env (TFM_ATTEST_BOOT_RECORDS_MAX_SIZE sim_da_env) (sim_hidden (replicate 32 1))) =
    fst (get_platform_boot_state sim_da_env (TFM_ATTEST_BOOT_RECORDS_MAX_SIZE sim_da_env) (sim_hidden (replicate 32 2)))"
proof -
  have "(sim_hidden_logs (replicate 32 2))(1 := [sim_record\<lparr>x_value := replicate 32 1\<rparr>]) = sim_hidden_logs (replicate 32 1)"
    by (simp add: sim_hidden_logs_def fun_eq_iff)
  then have 1: "sim_has ((sim_hidden_logs (replicate 32 2))(1 := [sim_record\<lparr>x_value := replicate 32 1\<rparr>])) (da_world (sim_hidden (replicate 32 1)))"
    using sim_hidden_has by simp
  show ?thesis
    by (rule slot_hidden_from_boot_state [OF sim_da_system sim_hidden_has 1, of 0]) (simp_all add: sim_hidden_logs_def sim_record_def)
qed

end
