(* ===== verification/Plat_Template.thy ===== *)
theory Plat_Template
  imports Prelude
begin

text \<open>
  The template of the platform: the SPI driver of \<open>low_level_spi.c\<close> over the STM32 hardware abstraction layer, and the
  store of the provisioning information of \<open>plat_secure_flash.c\<close> over a CMSIS flash driver. Both layers below
  are parameters.
\<close>

section \<open>The SPI driver\<close>

text \<open>
  The calls of the hardware abstraction layer over the hardware \<open>'h\<close>: pins with their ports and settings are
  the values of \<open>'p\<close>, the settings of the SPI instance those of \<open>'i\<close>. Whether a call succeeded is \<open>HAL_OK\<close>.
\<close>

record ('h, 'p, 'i) stm32_hal =
  HAL_GPIO_Init :: "'p \<Rightarrow> 'h \<Rightarrow> 'h"
  HAL_GPIO_WritePin_CS :: "bool \<Rightarrow> 'h \<Rightarrow> 'h"
  GPIO_CLK_ENABLE :: "'p \<Rightarrow> 'h \<Rightarrow> 'h"
  SPI_CLK_ENABLE :: "'h \<Rightarrow> 'h"
  HAL_PWREx_EnableVddIO2 :: "'h \<Rightarrow> 'h"
  SPI_CS_PIN :: 'p
  SPI_MISO_PIN :: 'p
  SPI_MOSI_PIN :: 'p
  SPI_SCK_PIN :: 'p
  hspi3_Init :: 'i
  HAL_SPI_Init :: "'i \<Rightarrow> 'h \<Rightarrow> bool \<times> 'h"
  HAL_SPI_DeInit :: "'h \<Rightarrow> bool \<times> 'h"
  HAL_SPI_READY :: "'h \<Rightarrow> bool"
  HAL_SPI_Transmit :: "buf \<Rightarrow> 'h \<Rightarrow> 'h"
  HAL_SPI_Receive :: "u16 \<Rightarrow> 'h \<Rightarrow> buf \<times> 'h"

datatype arm_driver_error = ARM_DRIVER_ERROR | ARM_DRIVER_ERROR_BUSY | ARM_DRIVER_ERROR_UNSUPPORTED | ARM_DRIVER_ERROR_PARAMETER

text \<open>\<open>secure\<close>: \<^verbatim>\<open>!defined(__DOMAIN_NS)\<close>.\<close>

definition spi3_pins :: "('h, 'p, 'i) stm32_hal \<Rightarrow> 'h \<Rightarrow> 'h" where
  "spi3_pins hal h =
     (let h1 = HAL_GPIO_WritePin_CS hal True (HAL_GPIO_Init hal (SPI_CS_PIN hal) (GPIO_CLK_ENABLE hal (SPI_CS_PIN hal) h));
        h2 = HAL_PWREx_EnableVddIO2 hal (SPI_CLK_ENABLE hal h1);
        h3 = HAL_GPIO_Init hal (SPI_MISO_PIN hal) (GPIO_CLK_ENABLE hal (SPI_MISO_PIN hal) h2);
        h4 = HAL_GPIO_Init hal (SPI_MOSI_PIN hal) (GPIO_CLK_ENABLE hal (SPI_MOSI_PIN hal) h3)
      in HAL_GPIO_Init hal (SPI_SCK_PIN hal) (GPIO_CLK_ENABLE hal (SPI_SCK_PIN hal) h4))"

definition SPI3_Initialize :: "bool \<Rightarrow> ('h, 'p, 'i) stm32_hal \<Rightarrow> ('h, arm_driver_error, unit) sem" where
  "SPI3_Initialize secure hal h = (case HAL_SPI_Init hal (hspi3_Init hal) (if secure then spi3_pins hal h else h) of
     (ok, h') \<Rightarrow> (if ok then Inr () else Inl ARM_DRIVER_ERROR, h'))"

definition SPI3_Uninitialize :: "('h, 'p, 'i) stm32_hal \<Rightarrow> ('h, arm_driver_error, unit) sem" where
  "SPI3_Uninitialize hal h = (case HAL_SPI_DeInit hal h of (ok, h') \<Rightarrow> (if ok then Inr () else Inl ARM_DRIVER_ERROR, h'))"

text \<open>\<open>None\<close> is a null pointer. The result of the transfer is ignored, and the length
  of a transfer is an \<open>uint16_t\<close> of the hardware abstraction layer.\<close>

definition SPI3_Send :: "('h, 'p, 'i) stm32_hal \<Rightarrow> buf option \<Rightarrow> u32 \<Rightarrow> ('h, arm_driver_error, unit) sem" where
  "SPI3_Send hal data num h =
     (case data of None \<Rightarrow> (Inl ARM_DRIVER_ERROR_PARAMETER, h)
      | Some bs \<Rightarrow>
          if num = 0 then (Inl ARM_DRIVER_ERROR_PARAMETER, h)
          else if \<not> HAL_SPI_READY hal h then (Inl ARM_DRIVER_ERROR_BUSY, h)
          else (Inr (), HAL_SPI_Transmit hal (take (unat (ucast num :: u16)) bs) h))"

definition SPI3_Receive :: "('h, 'p, 'i) stm32_hal \<Rightarrow> buf option \<Rightarrow> u32 \<Rightarrow> ('h, arm_driver_error, buf) sem" where
  "SPI3_Receive hal data num h =
     (case data of None \<Rightarrow> (Inl ARM_DRIVER_ERROR_PARAMETER, h)
      | Some bs \<Rightarrow>
          if num = 0 then (Inl ARM_DRIVER_ERROR_PARAMETER, h)
          else if \<not> HAL_SPI_READY hal h then (Inl ARM_DRIVER_ERROR_BUSY, h)
          else (case HAL_SPI_Receive hal (ucast num) h of (rx, h') \<Rightarrow> (Inr (bsplice 0 rx bs), h')))"

definition SPI3_Transfer :: "('h, 'p, 'i) stm32_hal \<Rightarrow> buf \<Rightarrow> buf \<Rightarrow> u32 \<Rightarrow> ('h, arm_driver_error, buf) sem" where
  "SPI3_Transfer hal data_out data_in num h =
     (case HAL_SPI_Receive hal (ucast num) (HAL_SPI_Transmit hal (take (unat (ucast num :: u16)) data_out) h) of (rx, h') \<Rightarrow> (Inr (bsplice 0 rx data_in), h'))"

text \<open>The constants of \<open>Driver_SPI.h\<close>. The line is active low: an inactive one (\<^verbatim>\<open>ARM_SPI_SS_INACTIVE\<close>, 0) is set.\<close>

definition ARM_SPI_CONTROL_Msk :: u32 where "ARM_SPI_CONTROL_Msk = 0xFF"

definition ARM_SPI_CONTROL_SS :: u32 where "ARM_SPI_CONTROL_SS = 0x13"

definition SPI3_Control :: "('h, 'p, 'i) stm32_hal \<Rightarrow> u32 \<Rightarrow> u32 \<Rightarrow> ('h, arm_driver_error, unit) sem" where
  "SPI3_Control hal control arg h =
     (if control AND ARM_SPI_CONTROL_Msk = ARM_SPI_CONTROL_SS then (Inr (), HAL_GPIO_WritePin_CS hal (arg = 0) h)
      else (Inl ARM_DRIVER_ERROR_UNSUPPORTED, h))"

section \<open>The provisioning information\<close>

text \<open>
  The flash driver over the state \<open>'f\<close>: a call has a status, of which 0 is \<open>ARM_DRIVER_OK\<close>. \<open>ReadData\<close> gives what it writes
  into the buffer of the caller.
\<close>

record 'f arm_driver_flash =
  ospi_initialize :: "'f \<Rightarrow> int \<times> 'f"
  ReadData :: "u32 \<Rightarrow> u32 \<Rightarrow> 'f \<Rightarrow> int \<times> buf \<times> 'f"
  ProgramData :: "u32 \<Rightarrow> buf \<Rightarrow> 'f \<Rightarrow> int \<times> 'f"
  EraseSector :: "u32 \<Rightarrow> 'f \<Rightarrow> int \<times> 'f"

record 'f plat_state =
  plat_initialized :: bool
  ospi_flash :: 'f

definition SECUREFLASH_PROV_INFO_OFFSET :: u32 where "SECUREFLASH_PROV_INFO_OFFSET = 0x10000"

definition plat_call :: "('f \<Rightarrow> int \<times> 'f) \<Rightarrow> ('f plat_state, int, unit) sem" where
  "plat_call m s = (case m (ospi_flash s) of (status, f) \<Rightarrow> (if status \<noteq> 0 then Inl (-1) else Inr (), s\<lparr>ospi_flash := f\<rparr>))"

definition plat_initialize :: "'f arm_driver_flash \<Rightarrow> ('f plat_state, int, unit) sem" where
  "plat_initialize drv = withS (\<lambda>s. if plat_initialized s then returnE ()
     else bindE (plat_call (ospi_initialize drv)) (\<lambda>_. modifyS (\<lambda>s. s\<lparr>plat_initialized := True\<rparr>)))"

text \<open>The status of the read is ignored.\<close>

definition plat_get_secure_flash_provision_info :: "'f arm_driver_flash \<Rightarrow> buf \<Rightarrow> u32 \<Rightarrow> ('f plat_state, int, buf) sem" where
  "plat_get_secure_flash_provision_info drv buffer sz =
     bindE (plat_initialize drv) (\<lambda>_ s.
     case ReadData drv SECUREFLASH_PROV_INFO_OFFSET sz (ospi_flash s) of (status, bs, f) \<Rightarrow> (Inr (bsplice 0 bs buffer), s\<lparr>ospi_flash := f\<rparr>))"

definition plat_store_secure_flash_provision_info :: "'f arm_driver_flash \<Rightarrow> buf \<Rightarrow> u32 \<Rightarrow> ('f plat_state, int, unit) sem" where
  "plat_store_secure_flash_provision_info drv buffer sz =
     bindE (plat_initialize drv) (\<lambda>_.
     bindE (plat_call (EraseSector drv SECUREFLASH_PROV_INFO_OFFSET)) (\<lambda>_.
     plat_call (ProgramData drv SECUREFLASH_PROV_INFO_OFFSET (take (unat sz) buffer))))"

text \<open>
  What the store relies on of the flash driver, whose content is \<open>cells\<close>: initialization and reading leave it, erasing
  makes the sector blank, programming blank cells makes them the data; \<open>sector\<close> is the size of the sector. With
  \<open>rel\<close> reads deliver the content.
\<close>

lemma wp_plat_call: "wp (plat_call m) Q E s =
   (case m (ospi_flash s) of (status, f) \<Rightarrow> if status \<noteq> 0 then E (-1) (s\<lparr>ospi_flash := f\<rparr>) else Q () (s\<lparr>ospi_flash := f\<rparr>))"
  by (simp add: wp_def plat_call_def split: prod.splits)

locale provision_flash =
  fixes drv :: "'f arm_driver_flash" and cells :: "'f \<Rightarrow> nat \<Rightarrow> u8" and sector :: nat and rel :: bool
  assumes initialize_law: "ospi_initialize drv f = (status, f') \<Longrightarrow> cells f' = cells f"
    and read_law: "ReadData drv a n f = (status, bs, f') \<Longrightarrow> cells f' = cells f \<and> length bs \<le> unat n \<and>
      (rel \<longrightarrow> bs = map (cells f) [unat a..<unat a + unat n])"
    and erase_law: "EraseSector drv a f = (0, f') \<Longrightarrow> unat a \<le> p \<Longrightarrow> p < unat a + sector \<Longrightarrow> cells f' p = 0xFF"
    and program_law: "ProgramData drv a data f = (0, f') \<Longrightarrow> (\<forall>p. unat a \<le> p \<and> p < unat a + length data \<longrightarrow> cells f p = 0xFF) \<Longrightarrow>
      map (cells f') [unat a..<unat a + length data] = data"
begin

lemma plat_initialize_keeps: "wp (plat_initialize drv) (\<lambda>_ s'. cells (ospi_flash s') = cells (ospi_flash s)) (\<lambda>e _. e = -1) s"
proof -
  obtain status f where "ospi_initialize drv (ospi_flash s) = (status, f)" by force
  with initialize_law [OF this] show ?thesis by (simp add: plat_initialize_def wp_plat_call)
qed

lemma store_get:
  assumes store: "plat_store_secure_flash_provision_info drv buffer sz s = (Inr (), s')"
    and sz: "unat sz \<le> length buffer" "unat sz \<le> sector" and out: "length out = unat sz"
    and get: "plat_get_secure_flash_provision_info drv out sz s' = (Inr got, s'')" and rel
  shows "got = take (unat sz) buffer"
proof -
  let ?a = SECUREFLASH_PROV_INFO_OFFSET
  obtain s1 :: "'f plat_state" and f2 f3 where e: "EraseSector drv ?a (ospi_flash s1) = (0, f2)" and p: "ProgramData drv ?a (take (unat sz) buffer) f2 = (0, f3)"
    and s': "ospi_flash s' = f3"
    using store by (auto simp: plat_store_secure_flash_provision_info_def sem_defs plat_call_def split: prod.splits sum.splits if_splits)
  have data: "map (cells f3) [unat ?a..<unat ?a + unat sz] = take (unat sz) buffer"
    using program_law [OF p] erase_law [OF e] sz by auto
  obtain s1' status bs f where i: "plat_initialize drv s' = (Inr (), s1')" and r: "ReadData drv ?a sz (ospi_flash s1') = (status, bs, f)"
    and got: "got = bsplice 0 bs out"
    using get by (auto simp: plat_get_secure_flash_provision_info_def sem_defs split: prod.splits sum.splits)
  have "cells (ospi_flash s1') = cells f3" using wp_InrD [OF plat_initialize_keeps i] s' by simp
  then have "bs = take (unat sz) buffer" using read_law [OF r] \<open>rel\<close> data by simp
  then show ?thesis using got out sz by (simp add: bsplice_def)
qed

end

section \<open>A simulated flash driver\<close>

definition sim_flash :: "(nat \<Rightarrow> u8) arm_driver_flash" where
  "sim_flash = \<lparr>ospi_initialize = (\<lambda>f. (0, f)),
     ReadData = (\<lambda>a n f. (0, map f [unat a..<unat a + unat n], f)),
     ProgramData = (\<lambda>a data f. (0, \<lambda>p. if unat a \<le> p \<and> p < unat a + length data then f p AND data ! (p - unat a) else f p)),
     EraseSector = (\<lambda>a f. (0, \<lambda>p. if unat a \<le> p \<and> p < unat a + 4096 then 0xFF else f p))\<rparr>"

interpretation simpf: provision_flash sim_flash "\<lambda>f. f" 4096 True
proof (unfold_locales, goal_cases)
  case (4 a data f f')
  have "(255 :: u8) = - 1" by simp
  then have "(255 :: u8) AND x = x" for x by (simp only: and.left_neutral)
  with 4 show ?case by (auto simp: sim_flash_def intro!: nth_equalityI)
qed (auto simp: sim_flash_def)

text \<open>
  C40. Provisioning information that was stored is what is read back: after a successful store that fits the sector, a
  successful get of the same size gives exactly these bytes, whether or not the flash had been initialized before, as
  long as reads of the flash do not fail (their status is not looked at).
\<close>

theorem provision_roundtrip:
  assumes sys: "provision_flash drv cells sector True"
    and store: "plat_store_secure_flash_provision_info drv buffer sz s = (Inr (), s')"
    and sz: "unat sz \<le> length buffer" "unat sz \<le> sector" and out: "length out = unat sz"
    and get: "plat_get_secure_flash_provision_info drv out sz s' = (Inr got, s'')"
  shows "got = take (unat sz) buffer"
  by (rule provision_flash.store_get [OF sys store sz out get]) simp

theorem provision_roundtrip_witness:
  "fst (plat_get_secure_flash_provision_info sim_flash [0, 0, 0] 3
     (snd (plat_store_secure_flash_provision_info sim_flash [1, 2, 3, 4] 3 \<lparr>plat_initialized = False, ospi_flash = \<lambda>_. 7\<rparr>))) = Inr [1, 2, 3]"
proof -
  let ?s = "\<lparr>plat_initialized = False, ospi_flash = \<lambda>_. 7\<rparr> :: (nat \<Rightarrow> u8) plat_state"
  obtain s' where store: "plat_store_secure_flash_provision_info sim_flash [1, 2, 3, 4] 3 ?s = (Inr (), s')"
    by (simp add: plat_store_secure_flash_provision_info_def plat_initialize_def plat_call_def sem_defs sim_flash_def)
  obtain got s'' where get: "plat_get_secure_flash_provision_info sim_flash [0, 0, 0] 3 s' = (Inr got, s'')"
    by (cases "plat_initialized s'") (simp_all add: plat_get_secure_flash_provision_info_def plat_initialize_def plat_call_def sem_defs sim_flash_def)
  have "got = take (unat (3 :: u32)) [1, 2, 3, 4]"
    by (rule provision_roundtrip [OF simpf.provision_flash_axioms store _ _ _ get]) simp_all
  then show ?thesis using store get by simp
qed

end
