(* ===== verification/Spec2Isabelle.thy ===== *)
theory Spec2Isabelle
  imports Flash_Fs_Props Secureflash_Props Etss_Api Delegated_Attest_Props Plat_Template
begin

text \<open>
  A verification of the secure partitions of \<open>tf-m-extras\<close> that hold its core logic, which are services of
  Trusted Firmware-M: external trusted secure storage (ETSS), measured boot and delegated attestation.

  \<^bold>\<open>The program.\<close> A client calls a function of the client interface of a service, which sends a message through the
  PSA framework; the request manager of the partition reads the arguments from the message, calls the service and
  replies. (All paths are below \<^verbatim>\<open>src/partitions\<close>.)
  \<^item> ETSS (\<^verbatim>\<open>external_trusted_secure_storage\<close>) stores assets of several clients on an external flash.
    \<^verbatim>\<open>etss_secure_api.c\<close> is its client interface, \<^verbatim>\<open>etss_req_mngr.c\<close> its request manager and
    \<^verbatim>\<open>external_trusted_secure_storage.c\<close> the service. Each client has a file system of its own
    (\<^verbatim>\<open>etss_flash_fs.c\<close>, \<^verbatim>\<open>etss_flash_fs_mblock.c\<close>, \<^verbatim>\<open>etss_flash_fs_dblock.c\<close>) with two metadata blocks that
    are updated in turn. It runs on flash operations (\<^verbatim>\<open>etss_secureflash.c\<close>) over the secure flash layer
    (\<^verbatim>\<open>secureflash.c\<close>: identification, access rights, sessions) over a SPI NOR driver (\<^verbatim>\<open>spi_nor.c\<close>, \<^verbatim>\<open>spi_nor_hc.c\<close>).
  \<^item> Measured boot (\<^verbatim>\<open>measured_boot\<close>) keeps 32 slots of measurements that are extended by hashing
    (\<^verbatim>\<open>measured_boot.c\<close>, \<^verbatim>\<open>measured_boot_req_mngr.c\<close>, \<^verbatim>\<open>measured_boot_api.c\<close>); at the start it collects those of the boot stages.
  \<^item> Delegated attestation (\<^verbatim>\<open>delegated_attestation\<close>) reads the measurements, derives a key from them with the crypto
    service, and gives a token of the platform for the hash of the public key (\<^verbatim>\<open>delegated_attest.c\<close>,
    \<^verbatim>\<open>delegated_attest_req_mngr.c\<close>, \<^verbatim>\<open>tfm_delegated_attestation_api.c\<close>).

  \<^bold>\<open>The model.\<close> A C function over static data becomes a function into a state and error monad (\<open>sem\<close> in \<open>Prelude\<close>):
  the state is a record of the static data and of the world behind it, an error is a value, and the state is as the
  function leaves it also when it fails. Names are those of the source; out-parameters are results. Machine integers
  are words of their width, with their wrap-around; structures that are written to flash or sent have their bytes.
  \<open>PSA_NO_RESULT\<close> is the value of what has no result in C (undefined behaviour, a loop without end). Code that is not
  in the repository (framework, crypto service, attestation service, CBOR library, SPI bus, boot data format) is a
  record of functions that is an argument of the model; what the program relies on of it is a locale, and every
  locale has an interpretation on the model with simulated outside parts, which the witnesses of the properties use.

  \<^bold>\<open>The theories.\<close>
  \<^item> \<open>Prelude\<close>: words, status codes, the monad with its weakest preconditions, slices of buffers, byte fields;
    \<open>Psa_Service\<close>: messages and the calls of the framework (locale \<open>psa_vectors\<close>); \<open>Etss_Utils\<close>: \<^verbatim>\<open>etss_utils.h\<close>, \<^verbatim>\<open>etss_utils.c\<close>.
  \<^item> The file system: \<open>Flash_Fs_Types\<close> (data), \<open>Flash_Fs_Mblock\<close>, \<open>Flash_Fs_Dblock\<close>, \<open>Flash_Fs\<close> (the three layers of the
    code). \<open>Flash_Dev\<close> is the contract of the flash operations (locale \<open>flash_dev\<close>: reads, programming of bytes, erasing,
    and failures at any operation). \<open>Flash_Fs_Layout\<close>, \<open>Flash_Fs_Query\<close> (locale \<open>fs_dev\<close>), \<open>Flash_Fs_Inv\<close>, \<open>Flash_Fs_Update\<close>,
    \<open>Flash_Fs_Stage\<close>, \<open>Flash_Fs_Commit\<close>, \<open>Flash_Fs_Write\<close>, \<open>Flash_Fs_Written\<close>, \<open>Flash_Fs_Store\<close>, \<open>Flash_Fs_File_Write\<close>,
    \<open>Flash_Fs_Delete\<close>, \<open>Flash_Fs_Remove\<close>, \<open>Flash_Fs_Ops\<close>, \<open>Flash_Fs_Mount\<close>, \<open>Flash_Fs_Wipe\<close> and \<open>Flash_Fs_Startup\<close> prove that the
    layers implement a finite map from file identifiers to contents, atomically and with recovery at start-up;
    \<open>Flash_Fs_Props\<close> states the properties.
  \<^item> The device: \<open>Spi_Nor\<close>, \<open>Secureflash\<close>, \<open>Etss_Secureflash\<close>. The latter proves that the flash operations over a
    device with the contract \<open>secure_hal\<close> keep the contract of the file system (a \<open>sublocale\<close>), and that they stay within
    the area of their file system; \<open>Secureflash_Props\<close> states the properties. \<open>Plat_Template\<close> is the template of the platform:
    the SPI driver (\<^verbatim>\<open>low_level_spi.c\<close>) and the store of the provisioning information (\<^verbatim>\<open>plat_secure_flash.c\<close>, locale
    \<open>provision_flash\<close>).
  \<^item> The storage service: \<open>Etss_Service\<close>, \<open>Etss_Req_Mngr\<close>, \<open>Etss_Api\<close> are the code; \<open>Etss_Store\<close> (locale \<open>etss_client\<close>)
    the operations for one client; \<open>Etss_Isolation\<close> the independence of the others; \<open>Etss_Session\<close> messages as requests to
    an abstract store; \<open>Etss_Startup\<close> and \<open>Etss_Runs\<close> (locales \<open>etss_system\<close>, \<open>etss_site\<close>) the start and runs of requests
    of all clients and power cycles; \<open>Sim_System\<close> a simulated system; the properties are in this theory.
  \<^item> Measured boot: \<open>Measured_Boot\<close>, \<open>Measured_Boot_Req_Mngr\<close> are the code; \<open>Measured_Boot_Log\<close> is the abstract
    specification, a log of extensions for each slot; \<open>Measured_Boot_Spec\<close> (locale \<open>measured_boot\<close>), \<open>Measured_Boot_Runs\<close>,
    \<open>Measured_Boot_History\<close> (locale \<open>measured_boot_store\<close>, boot data included) and \<open>Measured_Boot_Client\<close> (locale
    \<open>measured_boot_link\<close>, through \<open>psa_call\<close>) prove the refinement; \<open>Measured_Boot_Typed\<close> that any message, also a malformed
    one, is handled within the arrays; \<open>Measured_Boot_Props\<close> states the properties.
  \<^item> Delegated attestation: \<open>Delegated_Attest\<close>, \<open>Delegated_Attest_Req_Mngr\<close> are the code; \<open>Delegated_Attest_Spec\<close> (locale
    \<open>boot_reader\<close>, which a \<open>measured_boot_link\<close> provides by a \<open>sublocale\<close>, and \<open>delegated_attest\<close>, the services over an
    abstract store of keys), \<open>Delegated_Attest_Runs\<close> and \<open>Delegated_Attest_History\<close> prove what requests reply and leave;
    \<open>Delegated_Attest_Props\<close> states the properties.

  \<^bold>\<open>What is shown.\<close> For storage: over every run every result is that of an abstract store per client, a set is
  atomic, write-once assets are never replaced, clients do not disturb each other also when the device fails, a start-up
  recovers exactly what is recorded, and no access happens without a provisioned right. For measured boot: over every run
  status, data and slots are what the logs say, a locked slot is final, a value binds the sequence of what was measured,
  and clients see this through the framework. For delegated attestation: replies over every run, with other partitions
  in between; tokens are given only for keys that were derived on request; no key is left behind; the key is a
  function of the measurements, which are all of them when their metadata do not grow from slot to slot, while a slot
  can be hidden otherwise.

  \<^bold>\<open>Bounds.\<close> Loops end by a measure or run over a list. Three kinds of loops have a number of iterations as their first
  argument: the service loops (\<^verbatim>\<open>while (1)\<close>), about which the statements hold for every number; the loops that erase
  units and sectors, which get the number of units (sectors) plus one, enough for every size that is a multiple of the unit, and whose
  success is proved as such; and the loop of the random number service, which need not end because the function that
  should deliver its bytes is a stub (its value is then \<open>PSA_NO_RESULT\<close>). The file system
  theorems hold for every configuration that the code accepts. \<open>rel\<close> in a statement says that the device or the
  crypto service does not fail; without it every operation may fail.

  \<^bold>\<open>Not modelled.\<close> The log output of measured boot, the DMA-350 and voice activity partitions and the examples (hardware access and glue around
  drivers and libraries that are not in the repository), and the test suites.
\<close>

section \<open>The storage service\<close>

lemma sim_client: "etss_client sim_hal sim_cfg sim_arch sim_apps () (\<lambda>h. h) (\<lambda>_. True) (\<lambda>_. True) (\<lambda>_ _. True) True
    sim_api sq_in sq_out sq_room"
  by (rule simc.etss_client_axioms)

lemma sim_storage: "security_storage (security_feature sim_arch)"
  by (simp add: sim_arch_def)



text \<open>
  C8. Getting an asset returns its data: on success the bytes sent to the caller are exactly the bytes of the
  asset from the requested offset, as many as fit the caller's buffer and the asset, however the transfer is
  cut into chunks; on an error of a device that does not fail nothing is sent, and the error is that the asset
  does not exist or the offset lies behind its end. The assets stay as they are.
\<close>

theorem etss_get_returns:
  assumes sys: "etss_client hal C P A V store hok hpre sess rel api invec outvec room"
    and ok: "secure_hal.client_ok hal C P A store hok cid i s"
    and feature: "security_storage (security_feature P)" and uid: "uid \<noteq> 0"
    and buffer: "0 < length (asset_data s)" "length (asset_data s) < 4294967296"
    and room: "length (outvec (framework s) 0) + unat sz \<le> room (framework s) 0"
  shows "wp (etss_get api cid uid off sz)
    (\<lambda>len s'. secure_hal.client_ok hal C P A store hok cid i s' \<and>
       secure_hal.assets C store cid i s' = secure_hal.assets C store cid i s \<and>
       (\<exists>f. secure_hal.assets C store cid i s uid = Some f \<and> unat off \<le> length (af_data f) \<and>
         unat len = min (unat sz) (length (af_data f) - unat off) \<and>
         outvec (framework s') 0 = outvec (framework s) 0 @ bslice (unat off) (unat len) (af_data f)))
    (\<lambda>e s'. secure_hal.client_ok hal C P A store hok cid i s' \<and>
       secure_hal.assets C store cid i s' = secure_hal.assets C store cid i s \<and> (rel \<longrightarrow> framework s' = framework s \<and>
       (secure_hal.assets C store cid i s uid = None \<and> e = ETSS_ERR_DOES_NOT_EXIST \<or>
        (\<exists>f. secure_hal.assets C store cid i s uid = Some f \<and> length (af_data f) < unat off) \<and> e = ETSS_ERR_INVALID_ARGUMENT))) s"
  by (rule wp_mono [OF etss_client.get_wp [OF sys ok feature uid buffer room]]) auto

theorem etss_get_returns_witness:
  "wp (etss_get sim_api 7 5 0 16) (\<lambda>_ _. False) (\<lambda>e s'. e = ETSS_ERR_DOES_NOT_EXIST \<and> sq_out (framework s') 0 = []) (sim_service [])"
  by (rule wp_mono [OF etss_get_returns [OF sim_client sim_service_ok(1) sim_storage]])
    (auto simp: sim_service_ok(2))



text \<open>
  C16. The information about an asset is its size (as capacity and as size) and its flags; a missing asset gives
  \<open>DOES_NOT_EXIST\<close>; the assets stay as they are.
\<close>

theorem etss_get_info_exact:
  assumes sys: "secure_hal hal C P A V store hok hpre sess rel"
    and ok: "secure_hal.client_ok hal C P A store hok cid i s"
    and feature: "security_storage (security_feature P)" and uid: "uid \<noteq> 0"
  shows "wp (etss_get_info cid uid)
    (\<lambda>info s'. secure_hal.client_ok hal C P A store hok cid i s' \<and>
       secure_hal.assets C store cid i s' = secure_hal.assets C store cid i s \<and>
       map_option psa_info (secure_hal.assets C store cid i s uid) = Some info)
    (\<lambda>e s'. secure_hal.client_ok hal C P A store hok cid i s' \<and>
       secure_hal.assets C store cid i s' = secure_hal.assets C store cid i s \<and>
       (secure_hal.assets C store cid i s uid = None \<and> e = ETSS_ERR_DOES_NOT_EXIST \<or> \<not> rel)) s"
  by (rule secure_hal.get_info_wp [OF sys ok feature uid])

theorem etss_get_info_exact_witness:
  "wp (etss_get_info 7 5) (\<lambda>_ _. False) (\<lambda>e s'. e = ETSS_ERR_DOES_NOT_EXIST) (sim_service [])"
  by (rule wp_mono [OF etss_get_info_exact [OF sim.secure_hal_axioms sim_service_ok(1) sim_storage]])
    (auto simp: sim_service_ok(2))

section \<open>Isolation\<close>

text \<open>
  C3. The clients of the service are isolated: whatever one client asks for, and however it ends, also with a
  failure of the device at any flash operation, the file system of another client with an area of its own is
  in order afterwards, with the same assets.
\<close>

theorem clients_isolated:
  assumes sys: "etss_client hal C P A V store hok hpre sess rel api invec outvec room"
    and hal': "secure_hal hal C' P A V store hok hpre sess rel" and apart: "\<And>p. outside C p \<or> outside C' p"
    and own: "secure_hal.client_ok hal C P A store hok cid i s"
    and other: "secure_hal.client_ok hal C' P A store hok c' j s" "j \<noteq> i"
    and feature: "security_storage (security_feature P)" and uid: "uid \<noteq> 0" and flags: "supported_flags fl"
    and data: "length (invec (framework s) 1) = unat n"
    and buffer: "0 < length (asset_data s)" "unat n \<le> length (asset_data s)" "length (asset_data s) < 4294967296"
      "fits_buffer C n (asset_data s)"
    and nonempty: "\<And>f. secure_hal.assets C store cid i s uid = Some f \<Longrightarrow> af_max f \<noteq> 0"
    and room: "length (outvec (framework s) 0) + unat sz \<le> room (framework s) 0"
  defines "kept \<equiv> \<lambda>s'. secure_hal.client_ok hal C' P A store hok c' j s' \<and>
    secure_hal.assets C' store c' j s' = secure_hal.assets C' store c' j s"
  shows "wp (etss_set api cid uid n fl) (\<lambda>_. kept) (\<lambda>_. kept) s \<and>
    wp (etss_remove cid uid) (\<lambda>_. kept) (\<lambda>_. kept) s \<and>
    wp (etss_get api cid uid off sz) (\<lambda>_. kept) (\<lambda>_. kept) s \<and>
    wp (etss_get_info cid uid) (\<lambda>_. kept) (\<lambda>_. kept) s"
proof -
  let ?F = "store (nor_hw (secureflash s))"
  let ?hok = "\<lambda>h. hok h \<and> keeps C store ?F h"
  note hal = etss_client.axioms(1) [OF sys]
  note fr = etss_client_frame [OF sys, of ?F] and fh = secure_hal.frame [OF hal, of ?F]
  have cf: "secure_hal.client_ok hal C P A store ?hok cid i s"
    by (rule secure_hal.client_ok_framed [OF hal own]) (simp add: keeps_def)
  have g: "etss_get_fs_ctx (etss_fs_ctx_tbl s) cid = Some i" "security_storage (features s)"
    using secure_hal.client_okD [OF hal own] feature by simp_all
  note so = service_others [OF g(1) uid g(2)]
  have kr: "kept s'" if "others_same i s s'" "secure_hal.ready P A ?hok (secureflash s')" for s'
    unfolding kept_def
    by (rule other_client_ready [OF hal hal' apart _ other that(2)]) (use that(1) in \<open>simp add: others_same_def\<close>)
  have k: "kept s'" if "others_same i s s'" "secure_hal.client_ok hal C P A store ?hok cid i s'" for s'
    using kr that secure_hal.client_okD(3) [OF fh that(2)] by blast
  have "wp (etss_set api cid uid n fl) (\<lambda>_. others_same i s) (\<lambda>_. others_same i s) s" using so(1) [of api n fl] flags by blast
  then have "wp (etss_set api cid uid n fl) (\<lambda>_. kept) (\<lambda>_. kept) s"
    by (rule wp_both [OF _ etss_client.set_wp [OF fr cf feature uid flags refl data buffer(2-4)]]) (use k kr nonempty in auto)
  moreover have "wp (etss_remove cid uid) (\<lambda>_. kept) (\<lambda>_. kept) s"
    by (rule wp_both [OF so(4) secure_hal.remove_wp [OF fh cf feature uid]]) (use k kr nonempty in auto)
  moreover have "wp (etss_get api cid uid off sz) (\<lambda>_. kept) (\<lambda>_. kept) s"
    by (rule wp_both [OF so(2) etss_client.get_wp [OF fr cf feature uid buffer(1,3) room]]) (use k in auto)
  moreover have "wp (etss_get_info cid uid) (\<lambda>_. kept) (\<lambda>_. kept) s"
    by (rule wp_both [OF so(3) secure_hal.get_info_wp [OF fh cf feature uid]]) (use k in auto)
  ultimately show ?thesis by blast
qed

theorem clients_isolated_witness:
  "wp (etss_set sim_api 7 5 3 1)
     (\<lambda>_ s'. sim2.client_ok 9 1 s' \<and> sim2.assets 9 1 s' = (\<lambda>_. None))
     (\<lambda>_ s'. sim2.client_ok 9 1 s' \<and> sim2.assets 9 1 s' = (\<lambda>_. None)) (sim_service [10, 20, 30])"
proof -
  let ?s = "sim_service [10, 20, 30]"
  have "wp (etss_set sim_api 7 5 3 1)
     (\<lambda>_ s'. sim2.client_ok 9 1 s' \<and> sim2.assets 9 1 s' = sim2.assets 9 1 ?s)
     (\<lambda>_ s'. sim2.client_ok 9 1 s' \<and> sim2.assets 9 1 s' = sim2.assets 9 1 ?s) ?s"
    by (rule conjunct1 [OF clients_isolated [OF sim_client sim2.secure_hal_axioms sim_apart sim_service_ok(1,3) _ sim_storage,
        where n = 3 and uid = 5 and fl = 1 and sz = 0]])
      (simp_all add: sim_service_ok supported_flags_def PSA_STORAGE_FLAG_WRITE_ONCE_def
        PSA_STORAGE_FLAG_NO_CONFIDENTIALITY_def PSA_STORAGE_FLAG_NO_REPLAY_PROTECTION_def fits_buffer_def sim_unit)
  then show ?thesis by (rule wp_mono) (use sim_service_ok(4) in simp_all)
qed

section \<open>The whole service\<close>




definition sim_msg :: "u32 list \<Rightarrow> psa_msg_t" where
  "sim_msg ins = \<lparr>msg_type = PSA_IPC_CALL, msg_handle = 1, msg_client_id = 7, in_size = ins, out_size = [16, 0, 0, 0]\<rparr>"

definition sim_vecs :: "buf list \<Rightarrow> sim_psa" where
  "sim_vecs ins = \<lparr>sq_pending = [], sq_in = (\<lambda>i. if i < length ins then ins ! i else []), sq_out = (\<lambda>_. []), sq_room = (\<lambda>_. 16), sq_replies = []\<rparr>"

abbreviation "sim_run \<equiv> site_run sim_hal sim_layout (\<lambda>h. h) (\<lambda>_. True) sim_api sq_in sq_out sq_room (\<lambda>_. 0xFF) (\<lambda>_ _. None)"

lemma sim_run_start: "sim_run [] sim_on" "0 < length (asset_data sim_on)"
proof -
  have "wp (etss_init sim_hal sim_layout) (\<lambda>_. simsys.site ({..<2}, \<lambda>_ _. None)) (\<lambda>_ _. False) sim_off"
    using simsys.init_site [OF sim_off_powered, where X = "\<lambda>_ _. None"] sim_off_kept by (simp add: sim_cids)
  then obtain u where u: "etss_init sim_hal sim_layout sim_off = (Inr (), u)" "simsys.site ({..<2}, \<lambda>_ _. None) u"
    by (rule wp_noerrorE) simp
  then have "u = sim_on" by (simp add: sim_on_def)
  then show "sim_run [] sim_on" "0 < length (asset_data sim_on)"
    using u site_run.Start [OF sim_off_powered] by (auto simp: simsys.site_def)
qed

text \<open>A run of the simulated service: client 7 asks for an asset that it does not have.\<close>

abbreviation "sim_asked \<equiv> sim_on\<lparr>etss_msg := sim_msg [8, 4, 0, 0], framework := sim_vecs [le64 5, le32 0]\<rparr>"

lemma sim_run_get:
  "sim_run [Request 0 (Req_Get 5 0 16) (fst (request_handler sim_api (Req_Get 5 0 16) sim_asked))
      (sq_out (framework (snd (request_handler sim_api (Req_Get 5 0 16) sim_asked))) 0)]
    (snd (request_handler sim_api (Req_Get 5 0 16) sim_asked))"
  using site_run.Serve [OF sim_run_start(1), where j = 0 and req = "Req_Get 5 0 16" and m = "sim_msg [8, 4, 0, 0]" and
      q = "sim_vecs [le64 5, le32 0]"]
  by (simp add: sim_cids sim_msg_def sim_vecs_def)



definition sim_do :: "asset_request \<Rightarrow> u32 list \<Rightarrow> buf list \<Rightarrow> (ram, unit, sim_psa) etss_state \<Rightarrow>
    (etss_err_t + unit) \<times> (ram, unit, sim_psa) etss_state" where
  "sim_do req sizes ins s = request_handler sim_api req (s\<lparr>etss_msg := sim_msg sizes, framework := sim_vecs ins\<rparr>)"

abbreviation "sim_set \<equiv> sim_do (Req_Set 5 [10, 20, 30] 1) [8, 3, 4, 0] [le64 5, [10, 20, 30], le32 1] sim_on"
abbreviation "sim_get \<equiv> sim_do (Req_Get 5 1 16) [8, 4, 0, 0] [le64 5, le32 1] (snd sim_set)"
abbreviation "sim_remove \<equiv> sim_do (Req_Remove 5) [8, 0, 0, 0] [le64 5] (snd sim_set)"
abbreviation "sim_event req r \<equiv> Request 0 req (fst r) (sq_out (framework (snd r)) 0)"

lemma sim_on_buffer: "length (asset_data sim_on) = 16"
proof -
  have "asset_data sim_on = asset_data sim_off"
  proof -
    have "wp (etss_init sim_hal sim_layout) (\<lambda>_. simsys.site ({..<2}, \<lambda>_ _. None)) (\<lambda>_ _. False) sim_off"
      using simsys.init_site [OF sim_off_powered, where X = "\<lambda>_ _. None"] sim_off_kept by (simp add: sim_cids)
    then obtain u where "etss_init sim_hal sim_layout sim_off = (Inr (), u)" by (rule wp_noerrorE) simp
    then show ?thesis using wp_InrD [OF init_frame] by (fastforce simp: sim_on_def)
  qed
  then show ?thesis by (simp add: sim_off_def)
qed

lemma sim_run_set: "sim_run [sim_event (Req_Set 5 [10, 20, 30] 1) sim_set] (snd sim_set)"
  using site_run.Serve [OF sim_run_start(1), where j = 0 and req = "Req_Set 5 [10, 20, 30] 1" and m = "sim_msg [8, 3, 4, 0]" and
      q = "sim_vecs [le64 5, [10, 20, 30], le32 1]" and r = "fst sim_set" and s' = "snd sim_set"] sim_on_buffer
  by (simp add: sim_cids sim_msg_def sim_vecs_def sim_do_def sim_client_cfg supported_flags_def PSA_STORAGE_FLAG_WRITE_ONCE_def
      PSA_STORAGE_FLAG_NO_CONFIDENTIALITY_def PSA_STORAGE_FLAG_NO_REPLAY_PROTECTION_def fits_buffer_def sim_unit)

lemma sim_served: "0 \<in> fst (after_events sim_layout [sim_event (Req_Set 5 D fl) r] (\<lambda>_ _. None))"
  by (cases "fst r") (simp_all add: after_events_def sim_cids)

lemma sim_run_set_get: "sim_run ([] @ [sim_event (Req_Set 5 [10, 20, 30] 1) sim_set] @ [] @ [sim_event (Req_Get 5 1 16) sim_get]) (snd sim_get)"
  using site_run.Serve [OF sim_run_set sim_served, where req = "Req_Get 5 1 16" and m = "sim_msg [8, 4, 0, 0]" and
      q = "sim_vecs [le64 5, le32 1]" and r = "fst sim_get" and s' = "snd sim_get"]
  by (simp add: sim_cids sim_msg_def sim_vecs_def sim_do_def)



lemma sim_run_set_remove: "sim_run ([] @ [sim_event (Req_Set 5 [10, 20, 30] 1) sim_set] @ [sim_event (Req_Remove 5) sim_remove]) (snd sim_remove)"
  using site_run.Serve [OF sim_run_set sim_served, where req = "Req_Remove 5" and m = "sim_msg [8, 0, 0, 0]" and
      q = "sim_vecs [le64 5]" and r = "fst sim_remove" and s' = "snd sim_remove"]
  by (simp add: sim_cids sim_msg_def sim_vecs_def sim_do_def)


end
